(* ===== verification/Prelude.thy ===== *)
theory Prelude
  imports Main "HOL-Library.AList" "HOL-Library.List_Lexorder" "HOL-Library.Char_ord"
    "HOL-Library.Word"
begin

section \<open>Shared types, combinators and lemmas\<close>

text \<open>
  What every component uses: the Rust result type as a sum with the error on the left, the
  state-and-error composition that the question mark operator stands for, hash maps as
  association lists with distinct keys, \<open>serde_json::Value\<close> as a datatype, the decimal text of
  an integer, and the generic list facts the component proofs rest on. The collections
  \<open>res_simps\<close> and \<open>hm_simps\<close> carry the rewriting of the first two groups.
\<close>

named_theorems res_simps
named_theorems hm_simps

subsection \<open>Results and state\<close>

text \<open>
  A fallible computation over a state \<open>'s\<close> returns the result and the state it leaves behind,
  on the error path too: what was written before the error stays written.
\<close>

type_synonym ('e, 'a) result = "'e + 'a"
type_synonym ('s, 'e, 'a) st_res = "'s \<Rightarrow> ('e + 'a) \<times> 's"

definition rbind :: "('e, 'a) result \<Rightarrow> ('a \<Rightarrow> ('e, 'b) result) \<Rightarrow> ('e, 'b) result" where
  "rbind r f = (case r of Inl e \<Rightarrow> Inl e | Inr a \<Rightarrow> f a)"

definition sbind ::
  "('s, 'e, 'a) st_res \<Rightarrow> ('a \<Rightarrow> ('s, 'e, 'b) st_res) \<Rightarrow> ('s, 'e, 'b) st_res" where
  "sbind m f = (\<lambda>s. case m s of (Inl e, s') \<Rightarrow> (Inl e, s') | (Inr a, s') \<Rightarrow> f a s')"

definition sret :: "'a \<Rightarrow> ('s, 'e, 'a) st_res" where
  "sret a = (\<lambda>s. (Inr a, s))"

definition sfail :: "'e \<Rightarrow> ('s, 'e, 'a) st_res" where
  "sfail e = (\<lambda>s. (Inl e, s))"

text \<open>A result that needs no state, in a stateful computation.\<close>

definition sres :: "('e, 'a) result \<Rightarrow> ('s, 'e, 'a) st_res" where
  "sres r = (\<lambda>s. (r, s))"

definition ok_or :: "'e \<Rightarrow> 'a option \<Rightarrow> ('e, 'a) result" where
  "ok_or e x = (case x of None \<Rightarrow> Inl e | Some a \<Rightarrow> Inr a)"

fun or_else :: "'a option \<Rightarrow> 'a option \<Rightarrow> 'a option" where
  "or_else (Some x) _ = Some x"
| "or_else None y = y"

definition map_err :: "('e \<Rightarrow> 'f) \<Rightarrow> ('e, 'a) result \<Rightarrow> ('f, 'a) result" where
  "map_err f r = (case r of Inl e \<Rightarrow> Inl (f e) | Inr a \<Rightarrow> Inr a)"

lemma rbind_Inl [simp, res_simps]: "rbind (Inl e) f = Inl e"
  by (simp add: rbind_def)

lemma rbind_Inr [simp, res_simps]: "rbind (Inr a) f = f a"
  by (simp add: rbind_def)

lemma rbind_eq_Inr: "rbind r f = Inr b \<longleftrightarrow> (\<exists>a. r = Inr a \<and> f a = Inr b)"
  by (cases r) simp_all

lemma ok_or_simps [simp, res_simps]: "ok_or e None = Inl e" "ok_or e (Some a) = Inr a"
  by (simp_all add: ok_or_def)

lemma ok_or_eq_Inr [simp]: "ok_or e x = Inr a \<longleftrightarrow> x = Some a"
  by (cases x) simp_all

lemma map_err_simps [simp, res_simps]: "map_err f (Inl e) = Inl (f e)" "map_err f (Inr a) = Inr a"
  by (simp_all add: map_err_def)

lemma map_err_eq_Inr [simp]: "map_err f r = Inr a \<longleftrightarrow> r = Inr a"
  by (cases r) simp_all

lemma sret_app [simp, res_simps]: "sret a s = (Inr a, s)"
  by (simp add: sret_def)

lemma sfail_app [simp, res_simps]: "sfail e s = (Inl e, s)"
  by (simp add: sfail_def)

lemma sres_app [simp, res_simps]: "sres r s = (r, s)"
  by (simp add: sres_def)

lemma sbind_Inl [res_simps]: "m s = (Inl e, s') \<Longrightarrow> sbind m f s = (Inl e, s')"
  by (simp add: sbind_def)

lemma sbind_Inr [res_simps]: "m s = (Inr a, s') \<Longrightarrow> sbind m f s = f a s'"
  by (simp add: sbind_def)

lemma sbind_sret [simp, res_simps]: "sbind (sret a) f = f a"
  by (simp add: sbind_def sret_def)

lemma sbind_sres_Inr [simp, res_simps]: "sbind (sres (Inr a)) f = f a"
  by (simp add: sbind_def sres_def)

lemma sbind_sres_Inl [simp, res_simps]: "sbind (sres (Inl e)) f s = (Inl e, s)"
  by (simp add: sbind_def sres_def)

lemma sbind_eq_InrE:
  assumes "sbind m f s = (Inr b, t)"
  obtains a s' where "m s = (Inr a, s')" and "f a s' = (Inr b, t)"
  using assms by (auto simp: sbind_def split: prod.splits sum.splits)

lemma sbind_eq_InlE:
  assumes "sbind m f s = (Inl e, t)"
  obtains "m s = (Inl e, t)" | a s' where "m s = (Inr a, s')" and "f a s' = (Inl e, t)"
  using assms by (auto simp: sbind_def split: prod.splits sum.splits)

subsection \<open>Hash maps\<close>

text \<open>
  A \<open>HashMap\<close> is an association list: \<open>map_of\<close> reads it and \<open>hput\<close> is \<open>insert\<close> (replace the
  value of a present key, otherwise add the pair). \<open>hextend\<close> is \<open>Extend::extend\<close>.
\<close>

type_synonym ('k, 'v) hmap = "('k \<times> 'v) list"

abbreviation hget :: "('k, 'v) hmap \<Rightarrow> 'k \<Rightarrow> 'v option" where
  "hget \<equiv> map_of"

abbreviation hput :: "'k \<Rightarrow> 'v \<Rightarrow> ('k, 'v) hmap \<Rightarrow> ('k, 'v) hmap" where
  "hput \<equiv> AList.update"

abbreviation hdel :: "'k \<Rightarrow> ('k, 'v) hmap \<Rightarrow> ('k, 'v) hmap" where
  "hdel \<equiv> AList.delete"

abbreviation hm_wf :: "('k, 'v) hmap \<Rightarrow> bool" where
  "hm_wf m \<equiv> distinct (map fst m)"

definition hextend :: "('k, 'v) hmap \<Rightarrow> ('k, 'v) hmap \<Rightarrow> ('k, 'v) hmap" where
  "hextend m n = fold (\<lambda>(k, v). hput k v) n m"

definition hm_get_or :: "'v \<Rightarrow> ('k, 'v) hmap \<Rightarrow> 'k \<Rightarrow> 'v" where
  "hm_get_or d m k = (case hget m k of None \<Rightarrow> d | Some v \<Rightarrow> v)"

lemma hget_hput [hm_simps]: "hget (hput k v m) j = (if j = k then Some v else hget m j)"
  by (simp add: update_conv')

lemma hget_hdel [hm_simps]: "hget (hdel k m) j = (if j = k then None else hget m j)"
  by (simp add: delete_conv')

lemma hm_wf_hput [simp, intro]: "hm_wf m \<Longrightarrow> hm_wf (hput k v m)"
  by (rule distinct_update)

lemma hm_wf_hdel [simp, intro]: "hm_wf m \<Longrightarrow> hm_wf (hdel k m)"
  by (rule distinct_delete)

lemma hm_wf_filter [simp, intro]: "hm_wf m \<Longrightarrow> hm_wf (filter p m)"
  by (induction m) auto

lemma hget_filter:
  "hm_wf m \<Longrightarrow> hget (filter (\<lambda>(k, v). p k v) m) j =
     (case hget m j of None \<Rightarrow> None | Some v \<Rightarrow> if p j v then Some v else None)"
  by (induction m) (auto split: option.splits simp: map_of_eq_None_iff image_iff)

lemma hm_wf_hextend: "hm_wf m \<Longrightarrow> hm_wf (hextend m n)"
  unfolding hextend_def by (induction n arbitrary: m) auto

lemma hget_hextend:
  "hm_wf n \<Longrightarrow> hget (hextend m n) j = (case hget n j of None \<Rightarrow> hget m j | Some v \<Rightarrow> Some v)"
proof (induction n arbitrary: m)
  case Nil
  then show ?case by (simp add: hextend_def)
next
  case (Cons p n)
  obtain k v where p: "p = (k, v)" by (cases p)
  from Cons.prems p have wf: "hm_wf n" and k: "hget n k = None"
    by (simp_all add: map_of_eq_None_iff)
  have "hget (hextend m (p # n)) j = hget (hextend (hput k v m) n) j"
    by (simp add: hextend_def p)
  also have "\<dots> = (case hget n j of None \<Rightarrow> hget (hput k v m) j | Some w \<Rightarrow> Some w)"
    using wf by (rule Cons.IH)
  finally show ?case using k p by (auto simp: hm_simps split: option.splits)
qed

lemma hm_get_or_hput [hm_simps]: "hm_get_or d (hput k v m) j = (if j = k then v else hm_get_or d m j)"
  by (simp add: hm_get_or_def hm_simps)

lemma hm_get_or_Nil [simp]: "hm_get_or d [] k = d"
  by (simp add: hm_get_or_def)

subsection \<open>JSON values\<close>

text \<open>
  \<open>serde_json::Value\<close>. Integers are \<open>JInt\<close>, floats are their 64 bits, and an object is the list
  of its fields in the key order of the \<open>BTreeMap\<close> that \<open>serde_json::Map\<close> is in this build.
\<close>

datatype json =
    JNull
  | JBool bool
  | JInt int
  | JFloat "64 word"
  | JString string
  | JArray "json list"
  | JObject "(string \<times> json) list"

text \<open>\<open>BTreeMap::insert\<close>: the fields stay sorted by key, and a present key keeps one field.\<close>

fun bt_insert :: "'k::linorder \<Rightarrow> 'v \<Rightarrow> ('k \<times> 'v) list \<Rightarrow> ('k \<times> 'v) list" where
  "bt_insert k v [] = [(k, v)]"
| "bt_insert k v ((j, w) # fs) =
     (if k = j then (k, v) # fs
      else if k < j then (k, v) # (j, w) # fs
      else (j, w) # bt_insert k v fs)"

definition json_obj :: "(string \<times> json) list \<Rightarrow> json" where
  "json_obj fs = JObject (fold (\<lambda>(k, v). bt_insert k v) fs [])"

text \<open>\<open>Value::get\<close> with a string index: a field of an object, nothing for any other value.\<close>

fun json_get :: "string \<Rightarrow> json \<Rightarrow> json option" where
  "json_get k (JObject fs) = map_of fs k"
| "json_get k _ = None"

fun json_as_str :: "json \<Rightarrow> string option" where
  "json_as_str (JString s) = Some s"
| "json_as_str _ = None"

fun is_object :: "json \<Rightarrow> bool" where
  "is_object (JObject _) = True"
| "is_object _ = False"

lemma map_of_bt_insert [simp]: "map_of (bt_insert k v fs) = (map_of fs)(k \<mapsto> v)"
  by (induction k v fs rule: bt_insert.induct) (auto simp: fun_eq_iff)

lemma set_bt_insert: "fst ` set (bt_insert k v fs) = insert k (fst ` set fs)"
  by (induction k v fs rule: bt_insert.induct) auto

lemma sorted_bt_insert:
  "sorted_wrt (<) (map fst fs) \<Longrightarrow> sorted_wrt (<) (map fst (bt_insert k v fs))"
proof (induction k v fs rule: bt_insert.induct)
  case (1 k v)
  then show ?case by simp
next
  case (2 k v j w fs)
  have keys: "set (map fst (bt_insert k v fs)) = insert k (set (map fst fs))"
    using set_bt_insert [of k v fs] by simp
  show ?case
  proof (cases "j < k")
    case True
    then have "\<not> k < j" by simp
    with True 2 keys show ?thesis by (simp del: set_map)
  next
    case False
    with 2 show ?thesis by (auto dest: less_trans)
  qed
qed

lemma is_object_iff: "is_object v \<longleftrightarrow> (\<exists>fs. v = JObject fs)"
  by (cases v) simp_all

subsection \<open>Strings\<close>

text \<open>The decimal text of a natural number, as \<open>Display\<close> prints it.\<close>

definition digit_char :: "nat \<Rightarrow> char" where
  "digit_char d = char_of (48 + d :: nat)"

fun show_nat :: "nat \<Rightarrow> string" where
  "show_nat n = (if n < 10 then [digit_char n] else show_nat (n div 10) @ [digit_char (n mod 10)])"

declare show_nat.simps [simp del]

text \<open>\<open>format!("{}:{}", a, b)\<close> over several segments.\<close>

fun join_colon :: "string list \<Rightarrow> string" where
  "join_colon [] = []"
| "join_colon [x] = x"
| "join_colon (x # y # xs) = x @ CHR '':'' # join_colon (y # xs)"

abbreviation colon_free :: "string \<Rightarrow> bool" where
  "colon_free s \<equiv> CHR '':'' \<notin> set s"

definition starts_with :: "string \<Rightarrow> string \<Rightarrow> bool" where
  "starts_with p s \<longleftrightarrow> take (length p) s = p"

lemma of_char_digit_char: "d < 10 \<Longrightarrow> of_char (digit_char d) = 48 + d"
  by (simp add: digit_char_def)

lemma digit_char_inject: "d < 10 \<Longrightarrow> e < 10 \<Longrightarrow> digit_char d = digit_char e \<longleftrightarrow> d = e"
  by (metis add_left_cancel of_char_digit_char)

lemma digit_char_not_colon: "d < 10 \<Longrightarrow> digit_char d \<noteq> CHR '':''"
proof
  assume d: "d < 10" and eq: "digit_char d = CHR '':''"
  from eq have "of_char (digit_char d) = (58 :: nat)" by simp
  with of_char_digit_char [OF d] d show False by simp
qed

lemma show_nat_colon_free: "colon_free (show_nat n)"
proof (induction n rule: show_nat.induct)
  case (1 n)
  show ?case
  proof (cases "n < 10")
    case True
    then show ?thesis by (subst show_nat.simps) (simp add: digit_char_not_colon [symmetric])
  next
    case False
    with 1 have "colon_free (show_nat (n div 10))" by simp
    with False show ?thesis
      by (subst show_nat.simps) (simp add: digit_char_not_colon [of "n mod 10", symmetric])
  qed
qed

lemma show_nat_nonempty [simp]: "show_nat n \<noteq> []" "[] \<noteq> show_nat n"
  by (subst show_nat.simps, simp)+

lemma show_nat_inject: "show_nat m = show_nat n \<Longrightarrow> m = n"
proof (induction m arbitrary: n rule: less_induct)
  case (less m)
  have big: "show_nat k = show_nat (k div 10) @ [digit_char (k mod 10)]" if "\<not> k < 10" for k
    using that by (subst show_nat.simps) simp
  have small: "show_nat k = [digit_char k]" if "k < 10" for k
    using that by (subst show_nat.simps) simp
  consider "m < 10" "n < 10" | "m < 10" "\<not> n < 10" | "\<not> m < 10" "n < 10" | "\<not> m < 10" "\<not> n < 10"
    by blast
  then show ?case
  proof cases
    case 1
    with less.prems show ?thesis by (simp add: small digit_char_inject)
  next
    case 2
    with less.prems show ?thesis by (simp add: small big)
  next
    case 3
    with less.prems show ?thesis by (simp add: small big)
  next
    case 4
    with less.prems have eq: "show_nat (m div 10) = show_nat (n div 10)"
      and last: "digit_char (m mod 10) = digit_char (n mod 10)"
      by (simp_all add: big)
    from 4 have "m div 10 < m" by simp
    with eq have "m div 10 = n div 10" by (rule less.IH [rotated])
    moreover from last have "m mod 10 = n mod 10" by (simp add: digit_char_inject)
    ultimately show ?thesis by (metis mod_mult_div_eq)
  qed
qed

text \<open>Two texts split at the first colon agree on both sides of it.\<close>

lemma colon_split_inject:
  assumes "colon_free a" and "colon_free b" and "a @ CHR '':'' # x = b @ CHR '':'' # y"
  shows "a = b \<and> x = y"
  using assms
proof (induction a arbitrary: b)
  case Nil
  then show ?case by (cases b) auto
next
  case (Cons c a)
  then show ?case by (cases b) auto
qed

text \<open>The same, split at the last colon.\<close>

lemma colon_rsplit_inject:
  assumes "colon_free a" and "colon_free b" and "x @ CHR '':'' # a = y @ CHR '':'' # b"
  shows "a = b \<and> x = y"
proof -
  from assms(3) have "rev a @ CHR '':'' # rev x = rev b @ CHR '':'' # rev y"
    by (metis append.assoc append_Cons append_Nil rev.simps(2) rev_append)
  with colon_split_inject [of "rev a" "rev b" "rev x" "rev y"] assms(1,2) show ?thesis by simp
qed

subsection \<open>Saturating arithmetic\<close>

definition u32_max :: nat where "u32_max = 2 ^ 32 - 1"
definition u64_max :: nat where "u64_max = 2 ^ 64 - 1"

definition sat_add32 :: "nat \<Rightarrow> nat \<Rightarrow> nat" where
  "sat_add32 a b = min u32_max (a + b)"

definition sat_add64 :: "nat \<Rightarrow> nat \<Rightarrow> nat" where
  "sat_add64 a b = min u64_max (a + b)"

definition sat_mul64 :: "nat \<Rightarrow> nat \<Rightarrow> nat" where
  "sat_mul64 a b = min u64_max (a * b)"

lemma sat_add64_le: "sat_add64 a b \<le> u64_max" "sat_add64 a b \<le> a + b"
  by (simp_all add: sat_add64_def)

subsection \<open>Lists\<close>

text \<open>The first duplicate of a list, in the order a \<open>HashSet::insert\<close> loop meets it.\<close>

fun first_dup :: "'a set \<Rightarrow> 'a list \<Rightarrow> 'a option" where
  "first_dup seen [] = None"
| "first_dup seen (x # xs) = (if x \<in> seen then Some x else first_dup (insert x seen) xs)"

lemma first_dup_None: "first_dup seen xs = None \<longleftrightarrow> distinct xs \<and> set xs \<inter> seen = {}"
  by (induction seen xs rule: first_dup.induct) auto

text \<open>A loop that returns the first error of a check, in list order.\<close>

fun check_all :: "('a \<Rightarrow> ('e, unit) result) \<Rightarrow> 'a list \<Rightarrow> ('e, unit) result" where
  "check_all f [] = Inr ()"
| "check_all f (x # xs) = rbind (f x) (\<lambda>_. check_all f xs)"

lemma check_all_Inr: "check_all f xs = Inr () \<longleftrightarrow> (\<forall>x \<in> set xs. f x = Inr ())"
proof (induction xs)
  case (Cons x xs)
  then show ?case by (cases "f x") auto
qed simp

text \<open>
  Termination of a worklist search: popping an unvisited item and pushing items of a finite
  universe makes the unvisited part of queue and universe smaller; popping a visited one does not
  make it larger.
\<close>

lemma worklist_step:
  assumes "finite U" and "set new \<subseteq> U" and "c \<notin> visited"
  shows "card ((set (new @ rest) \<union> U) - insert c visited) < card ((set (c # rest) \<union> U) - visited)"
proof (rule psubset_card_mono)
  show "finite ((set (c # rest) \<union> U) - visited)" using assms(1) by simp
  show "(set (new @ rest) \<union> U) - insert c visited \<subset> (set (c # rest) \<union> U) - visited"
    using assms(2,3) by auto
qed

lemma worklist_skip:
  assumes "finite U"
  shows "card ((set rest \<union> U) - visited) \<le> card ((set (c # rest) \<union> U) - visited)"
  by (rule card_mono) (use assms in auto)

lemma find_Some_mem: "find p xs = Some x \<Longrightarrow> x \<in> set xs \<and> p x"
  by (induction xs) (auto split: if_splits)

end
