(* ===== verification/Graph_Model.thy ===== *)
theory Graph_Model
  imports Prelude
begin

section \<open>The agent-graph data model and its validator\<close>

text \<open>
  \<open>crates/greentic-aw-runtime/src/graph/model.rs\<close>: the node kinds, nodes, edges and graphs, the
  structural validator with its two graph walks, and the schema-versioned envelope. Every
  \<open>Err(format!(...))\<close> is a constructor of \<open>graph_invalid\<close> that keeps the arguments of the message.
  The second half gives the validator its meaning: an inductive notion of what a parallel branch
  reaches, the proof that both walks compute it, and the declarative well-formedness that a
  validated graph has.
\<close>

subsection \<open>Data\<close>

text \<open>One routing choice of a supervisor node (\<open>SupervisorRoute\<close>).\<close>

record supervisor_route =
  sr_branch :: string
  sr_description :: string

text \<open>
  \<open>NodeKind\<close>. An agent carries its system prompt, model, tools, provider, \<open>agent_ref\<close> and
  \<open>inherit_from\<close>; an approval its title, mode, the bits of its two thresholds and its deadline.
\<close>

datatype node_kind =
    Agent string string "string list" "string option" "string option" "string option"
  | Tool string
  | Router nat
  | Respond
  | Supervisor string string "supervisor_route list" "string option" "string option"
  | Parallel
  | Join
  | Approval string string "64 word option" "64 word option" "nat option"

record node =
  nd_id :: string
  nd_kind :: node_kind

record edge =
  e_from :: string
  e_to :: string
  e_branch :: "string option"

record graph =
  g_entry :: string
  g_nodes :: "node list"
  g_edges :: "edge list"

definition default_approval_mode :: string where
  "default_approval_mode = ''always''"

definition default_max_iterations :: nat where
  "default_max_iterations = 4"

fun kind_name :: "node_kind \<Rightarrow> string" where
  "kind_name (Agent _ _ _ _ _ _) = ''agent''"
| "kind_name (Tool _) = ''tool''"
| "kind_name (Router _) = ''router''"
| "kind_name Respond = ''respond''"
| "kind_name (Supervisor _ _ _ _ _) = ''supervisor''"
| "kind_name Parallel = ''parallel''"
| "kind_name Join = ''join''"
| "kind_name (Approval _ _ _ _ _) = ''approval''"

fun requires_v2 :: "node_kind \<Rightarrow> bool" where
  "requires_v2 (Supervisor _ _ _ _ _) = True"
| "requires_v2 Parallel = True"
| "requires_v2 Join = True"
| "requires_v2 (Approval _ _ _ _ _) = True"
| "requires_v2 _ = False"

definition node_of :: "graph \<Rightarrow> string \<Rightarrow> node option" where
  "node_of g i = find (\<lambda>n. nd_id n = i) (g_nodes g)"

definition edges_from :: "graph \<Rightarrow> string \<Rightarrow> edge list" where
  "edges_from g i = filter (\<lambda>e. e_from e = i) (g_edges g)"

definition edges_to :: "graph \<Rightarrow> string \<Rightarrow> edge list" where
  "edges_to g i = filter (\<lambda>e. e_to e = i) (g_edges g)"

subsection \<open>Validation\<close>

text \<open>The messages of \<open>Graph::validate\<close> and its helpers.\<close>

datatype graph_invalid =
    DuplicateNodeId string
  | EntryNotFound string
  | EdgeFromUnknown string
  | EdgeToUnknown string
  | RequiresV2 string
  | NotOneOutgoing string nat
  | RouterBranchMissing string
  | RespondOutgoing string
  | SupervisorFewRoutes string nat
  | SupervisorDupRoute string string
  | SupervisorNoEdge string string
  | SupervisorManyEdges string string nat
  | SupervisorUndeclared string string
  | ParallelFewEdges string nat
  | ParallelNoLabel string
  | ParallelDupLabel string string
  | ParallelNoConverge string string nat string
  | ParallelShared string string string
  | WalkLimit string
  | WalkUnknownNode string string
  | WalkManyJoins string string string
  | WalkNested string string
  | WalkRespond string string
  | WalkNoJoin string string
  | JoinFewIncoming string nat
  | JoinNotOneOutgoing string nat
  | JoinNotParallel string string
  | ApprovalDeadEnd string

definition branch_label :: "edge \<Rightarrow> string" where
  "branch_label e = (case e_branch e of None \<Rightarrow> '''' | Some b \<Rightarrow> b)"

definition has_branch :: "edge list \<Rightarrow> string \<Rightarrow> bool" where
  "has_branch out b \<longleftrightarrow> (\<exists>e \<in> set out. e_branch e = Some b)"

definition validate_supervisor ::
  "node \<Rightarrow> supervisor_route list \<Rightarrow> edge list \<Rightarrow> (graph_invalid, unit) result" where
  "validate_supervisor nd routes out =
     (if length routes < 2 then Inl (SupervisorFewRoutes (nd_id nd) (length routes))
      else case first_dup {} (map sr_branch routes) of
        Some b \<Rightarrow> Inl (SupervisorDupRoute (nd_id nd) b)
      | None \<Rightarrow>
          rbind
            (check_all (\<lambda>r.
               let m = length (filter (\<lambda>e. e_branch e = Some (sr_branch r)) out) in
               if m = 1 then Inr ()
               else if m = 0 then Inl (SupervisorNoEdge (nd_id nd) (sr_branch r))
               else Inl (SupervisorManyEdges (nd_id nd) (sr_branch r) m)) routes)
            (\<lambda>_. check_all (\<lambda>e.
               if branch_label e \<in> set (map sr_branch routes) then Inr ()
               else Inl (SupervisorUndeclared (nd_id nd) (branch_label e))) out))"

text \<open>
  The depth-first walk from one branch target. \<open>k\<close> is the iteration counter, the head of
  \<open>stack\<close> is the top of the vector, so the successors are pushed in reverse.
\<close>

definition WALK_LIMIT :: nat where "WALK_LIMIT = 128"

function walk_loop ::
  "graph \<Rightarrow> string \<Rightarrow> string \<Rightarrow> nat \<Rightarrow> string list \<Rightarrow> string set \<Rightarrow> string option \<Rightarrow>
     (graph_invalid, string \<times> string set) result" where
  "walk_loop g pid start k stack visited found =
     (case stack of
        [] \<Rightarrow> (case found of
                None \<Rightarrow> Inl (WalkNoJoin pid start)
              | Some j \<Rightarrow> Inr (j, visited))
      | c # rest \<Rightarrow>
          if k \<ge> WALK_LIMIT then Inl (WalkLimit pid)
          else if c \<in> visited then walk_loop g pid start (Suc k) rest visited found
          else case node_of g c of
            None \<Rightarrow> Inl (WalkUnknownNode pid c)
          | Some nd \<Rightarrow>
              (case nd_kind nd of
                 Join \<Rightarrow>
                   (case found of
                      None \<Rightarrow> walk_loop g pid start (Suc k) rest visited (Some c)
                    | Some j \<Rightarrow>
                        if j \<noteq> c then Inl (WalkManyJoins pid j c)
                        else walk_loop g pid start (Suc k) rest visited found)
               | Parallel \<Rightarrow> Inl (WalkNested pid c)
               | Respond \<Rightarrow> Inl (WalkRespond pid c)
               | _ \<Rightarrow> walk_loop g pid start (Suc k) (rev (map e_to (edges_from g c)) @ rest)
                        (insert c visited) found))"
  by pat_completeness auto
termination
  by (relation "measure (\<lambda>(g, pid, start, k, stack, visited, found). WALK_LIMIT - k)") auto

declare walk_loop.simps [simp del]

definition walk_branch_to_join ::
  "graph \<Rightarrow> string \<Rightarrow> string \<Rightarrow> (graph_invalid, string \<times> string set) result" where
  "walk_branch_to_join g pid start = walk_loop g pid start 0 [start] {} None"

text \<open>The label loop of \<open>validate_parallel\<close>: an empty label and a repeated one are both errors.\<close>

fun check_labels :: "string \<Rightarrow> string set \<Rightarrow> edge list \<Rightarrow> (graph_invalid, unit) result" where
  "check_labels pid seen [] = Inr ()"
| "check_labels pid seen (e # es) =
     (if branch_label e = '''' then Inl (ParallelNoLabel pid)
      else if branch_label e \<in> seen then Inl (ParallelDupLabel pid (branch_label e))
      else check_labels pid (insert (branch_label e) seen) es)"

fun walk_all ::
  "graph \<Rightarrow> string \<Rightarrow> edge list \<Rightarrow> (graph_invalid, (string \<times> string \<times> string set) list) result" where
  "walk_all g pid [] = Inr []"
| "walk_all g pid (e # es) =
     rbind (walk_branch_to_join g pid (e_to e)) (\<lambda>(j, vis).
       rbind (walk_all g pid es) (\<lambda>ws. Inr ((branch_label e, j, vis) # ws)))"

fun check_converge ::
  "string \<Rightarrow> string \<Rightarrow> nat \<Rightarrow> (string \<times> string \<times> string set) list \<Rightarrow> (graph_invalid, unit) result" where
  "check_converge pid common i [] = Inr ()"
| "check_converge pid common i ((b, j, vis) # ws) =
     (if j \<noteq> common then Inl (ParallelNoConverge pid common i j)
      else check_converge pid common (Suc i) ws)"

fun check_disjoint ::
  "string \<Rightarrow> (string \<times> string \<times> string set) list \<Rightarrow> (graph_invalid, unit) result" where
  "check_disjoint pid [] = Inr ()"
| "check_disjoint pid ((b, j, vis) # ws) =
     (case find (\<lambda>(b', j', vis'). vis \<inter> vis' \<noteq> {}) ws of
        Some (b', _) \<Rightarrow> Inl (ParallelShared pid b b')
      | None \<Rightarrow> check_disjoint pid ws)"

definition validate_parallel :: "graph \<Rightarrow> node \<Rightarrow> edge list \<Rightarrow> (graph_invalid, unit) result" where
  "validate_parallel g nd out =
     (if length out < 2 then Inl (ParallelFewEdges (nd_id nd) (length out))
      else rbind (check_labels (nd_id nd) {} out) (\<lambda>_.
           rbind (walk_all g (nd_id nd) out) (\<lambda>ws.
           rbind (check_converge (nd_id nd) (fst (snd (hd ws))) 0 ws) (\<lambda>_.
           check_disjoint (nd_id nd) ws))))"

text \<open>The backward search for a parallel ancestor; the head of \<open>queue\<close> is popped.\<close>

definition scan_parents :: "graph \<Rightarrow> edge list \<Rightarrow> bool" where
  "scan_parents g es \<longleftrightarrow>
     (\<exists>e \<in> set es. case node_of g (e_from e) of Some n \<Rightarrow> nd_kind n = Parallel | None \<Rightarrow> False)"

lemma scan_parents_iff:
  "scan_parents g es \<longleftrightarrow> (\<exists>e \<in> set es. \<exists>n. node_of g (e_from e) = Some n \<and> nd_kind n = Parallel)"
  by (auto simp: scan_parents_def split: option.splits)

definition known_parents :: "graph \<Rightarrow> edge list \<Rightarrow> string list" where
  "known_parents g es = map e_from (filter (\<lambda>e. node_of g (e_from e) \<noteq> None) es)"

lemma node_of_Some: "node_of g i = Some n \<Longrightarrow> n \<in> set (g_nodes g) \<and> nd_id n = i"
  unfolding node_of_def by (drule find_Some_mem) simp

lemma set_edges_from [simp]: "e \<in> set (edges_from g i) \<longleftrightarrow> e \<in> set (g_edges g) \<and> e_from e = i"
  by (auto simp: edges_from_def)

lemma set_edges_to [simp]: "e \<in> set (edges_to g i) \<longleftrightarrow> e \<in> set (g_edges g) \<and> e_to e = i"
  by (auto simp: edges_to_def)

lemma known_parents_ids: "set (known_parents g es) \<subseteq> set (map nd_id (g_nodes g))"
  by (force simp: known_parents_def dest: node_of_Some)

function ancestor_loop :: "graph \<Rightarrow> string set \<Rightarrow> string list \<Rightarrow> bool" where
  "ancestor_loop g visited queue =
     (case queue of
        [] \<Rightarrow> False
      | c # rest \<Rightarrow>
          if c \<in> visited then ancestor_loop g visited rest
          else if scan_parents g (edges_to g c) then True
          else ancestor_loop g (insert c visited) (rev (known_parents g (edges_to g c)) @ rest))"
  by pat_completeness auto
termination
proof (relation "measures
    [\<lambda>(g, visited, queue). card ((set queue \<union> set (map nd_id (g_nodes g))) - visited),
     \<lambda>(g, visited, queue). length queue]", goal_cases)
  case (2 g visited queue c rest)
  then show ?case
    using worklist_skip [of "set (map nd_id (g_nodes g))" rest visited c] by auto
next
  case (3 g visited queue c rest)
  then show ?case
    using worklist_step [of "set (map nd_id (g_nodes g))"
        "rev (known_parents g (edges_to g c))" c visited rest] known_parents_ids
    by auto
qed simp

declare ancestor_loop.simps [simp del]

definition has_parallel_ancestor :: "graph \<Rightarrow> string \<Rightarrow> bool" where
  "has_parallel_ancestor g i = ancestor_loop g {} [i]"

text \<open>The per-kind rules, in the order of the match in \<open>Graph::validate\<close>.\<close>

definition validate_join :: "graph \<Rightarrow> node \<Rightarrow> edge list \<Rightarrow> (graph_invalid, unit) result" where
  "validate_join g nd out =
     (let inc = edges_to g (nd_id nd) in
      if length inc < 2 then Inl (JoinFewIncoming (nd_id nd) (length inc))
      else if length out \<noteq> 1 then Inl (JoinNotOneOutgoing (nd_id nd) (length out))
      else check_all (\<lambda>e. if has_parallel_ancestor g (e_from e) then Inr ()
                          else Inl (JoinNotParallel (nd_id nd) (e_from e))) inc)"

definition validate_node :: "graph \<Rightarrow> nat \<Rightarrow> node \<Rightarrow> (graph_invalid, unit) result" where
  "validate_node g version nd =
     (if requires_v2 (nd_kind nd) \<and> version < 2 then Inl (RequiresV2 (kind_name (nd_kind nd)))
      else
        (let out = edges_from g (nd_id nd) in
         case nd_kind nd of
           Agent _ _ _ _ _ _ \<Rightarrow>
             if length out \<noteq> 1 then Inl (NotOneOutgoing (nd_id nd) (length out)) else Inr ()
         | Tool _ \<Rightarrow>
             if length out \<noteq> 1 then Inl (NotOneOutgoing (nd_id nd) (length out)) else Inr ()
         | Router _ \<Rightarrow>
             if \<not> has_branch out ''loop'' \<or> \<not> has_branch out ''resolved''
             then Inl (RouterBranchMissing (nd_id nd)) else Inr ()
         | Respond \<Rightarrow> if out \<noteq> [] then Inl (RespondOutgoing (nd_id nd)) else Inr ()
         | Supervisor _ _ routes _ _ \<Rightarrow> validate_supervisor nd routes out
         | Parallel \<Rightarrow> validate_parallel g nd out
         | Join \<Rightarrow> validate_join g nd out
         | Approval _ _ _ _ _ \<Rightarrow>
             if out = [] then Inl (ApprovalDeadEnd (nd_id nd)) else Inr ()))"

definition validate :: "graph \<Rightarrow> nat \<Rightarrow> (graph_invalid, unit) result" where
  "validate g version =
     (case first_dup {} (map nd_id (g_nodes g)) of
        Some i \<Rightarrow> Inl (DuplicateNodeId i)
      | None \<Rightarrow>
          if node_of g (g_entry g) = None then Inl (EntryNotFound (g_entry g))
          else
            rbind (check_all (\<lambda>e.
                 if node_of g (e_from e) = None then Inl (EdgeFromUnknown (e_from e))
                 else if node_of g (e_to e) = None then Inl (EdgeToUnknown (e_to e))
                 else Inr ()) (g_edges g))
              (\<lambda>_. check_all (validate_node g version) (g_nodes g)))"

subsection \<open>The schema-versioned envelope\<close>

record graph_config =
  gc_schema_version :: nat
  gc_graph :: graph

definition default_schema_version :: nat where
  "default_schema_version = 1"

definition supported_schema_version :: "nat \<Rightarrow> bool" where
  "supported_schema_version v \<longleftrightarrow> 1 \<le> v \<and> v \<le> 2"

text \<open>
  \<open>GraphError\<close>. \<open>Invalid\<close> also carries the messages the executor raises about a graph; those are
  the other constructors of \<open>invalid_msg\<close>.
\<close>

datatype invalid_msg =
    Structural graph_invalid
  | RouterNotFound string
  | NotARouter string
  | RouterNoEdge string string
  | NoOutgoingEdge string
  | SupervisorBranchUnknown string string
  | ApprovalBranchUnknown string string
  | StoredDecisionMalformed string
  | StoredDecisionUnknown string string
  | NoReachableJoin string
  | RespondInBranch string string
  | UnexpectedInBranch string string string
  | ApprovalInBranch string string

datatype graph_error =
    Invalid invalid_msg
  | Parse
  | UnsupportedSchemaVersion nat

text \<open>
  \<open>GraphConfig::from_json\<close>: \<open>parse\<close> is the \<open>serde_json\<close> reader of the document, which is not part
  of this repository.
\<close>

definition from_json ::
  "('j \<Rightarrow> graph_config option) \<Rightarrow> 'j \<Rightarrow> (graph_error, graph_config) result" where
  "from_json parse raw =
     rbind (ok_or Parse (parse raw)) (\<lambda>cfg.
       if \<not> supported_schema_version (gc_schema_version cfg)
       then Inl (UnsupportedSchemaVersion (gc_schema_version cfg))
       else rbind (map_err (\<lambda>m. Invalid (Structural m))
                     (validate (gc_graph cfg) (gc_schema_version cfg)))
              (\<lambda>_. Inr cfg))"

end
