(* ===== verification/Graph_Wf.thy ===== *)
theory Graph_Wf
  imports Graph_Model
begin

section \<open>What validation means\<close>

text \<open>
  The meaning of the checks of \<open>Graph_Model\<close>: what a parallel branch reaches, as an inductive
  predicate over the edges; that both walks of the validator compute it; and \<open>graph_wf\<close>, the
  declarative well-formedness that the executor relies on, which every validated graph has.
\<close>

definition kind_at :: "graph \<Rightarrow> string \<Rightarrow> node_kind option" where
  "kind_at g i = map_option nd_kind (node_of g i)"

lemma kind_at_Some: "kind_at g i = Some k \<longleftrightarrow> (\<exists>n. node_of g i = Some n \<and> nd_kind n = k)"
  by (auto simp: kind_at_def)

lemma kind_at_None: "kind_at g i = None \<longleftrightarrow> node_of g i = None"
  by (simp add: kind_at_def)

subsection \<open>The forward walk\<close>

text \<open>The nodes a branch reaches: follow edges, and do not go on past a join.\<close>

inductive branch_reach :: "graph \<Rightarrow> string \<Rightarrow> string \<Rightarrow> bool" for g start where
  here: "branch_reach g start start"
| along: "branch_reach g start n \<Longrightarrow> kind_at g n \<noteq> Some Join \<Longrightarrow> e \<in> set (g_edges g) \<Longrightarrow>
    e_from e = n \<Longrightarrow> branch_reach g start (e_to e)"

definition plain_kind :: "node_kind \<Rightarrow> bool" where
  "plain_kind k \<longleftrightarrow> k \<notin> {Join, Parallel, Respond}"

text \<open>
  The region of a branch: it reaches exactly one join \<open>j\<close>, every other node it reaches is in \<open>V\<close>,
  and those are neither parallel nor respond nodes.
\<close>

definition branch_region :: "graph \<Rightarrow> string \<Rightarrow> string \<Rightarrow> string set \<Rightarrow> bool" where
  "branch_region g start j V \<longleftrightarrow>
     kind_at g j = Some Join \<and>
     {n. branch_reach g start n} = insert j V \<and> j \<notin> V \<and>
     (\<forall>n \<in> V. \<exists>k. kind_at g n = Some k \<and> plain_kind k)"

definition branch_nodes :: "graph \<Rightarrow> string \<Rightarrow> string \<Rightarrow> string set" where
  "branch_nodes g start j = {n. branch_reach g start n} - {j}"

lemma branch_region_nodes: "branch_region g start j V \<Longrightarrow> V = branch_nodes g start j"
  by (auto simp: branch_region_def branch_nodes_def)

lemma branch_region_canon:
  "branch_region g start j V \<Longrightarrow> branch_region g start j (branch_nodes g start j)"
  using branch_region_nodes by blast

definition walk_inv :: "graph \<Rightarrow> string \<Rightarrow> string list \<Rightarrow> string set \<Rightarrow> string option \<Rightarrow> bool" where
  "walk_inv g start stack visited found \<longleftrightarrow>
     (let seen = set stack \<union> visited \<union> set_option found in
      start \<in> seen \<and> (\<forall>x \<in> seen. branch_reach g start x) \<and>
      (\<forall>v \<in> visited. \<exists>k. kind_at g v = Some k \<and> plain_kind k) \<and>
      (\<forall>e \<in> set (g_edges g). e_from e \<in> visited \<longrightarrow> e_to e \<in> seen) \<and>
      (\<forall>j. found = Some j \<longrightarrow> kind_at g j = Some Join))"

lemma walk_inv_init: "walk_inv g start [start] {} None"
  by (simp add: walk_inv_def here)

lemma walk_inv_skip: "walk_inv g start (c # rest) visited found \<Longrightarrow> c \<in> visited \<Longrightarrow>
    walk_inv g start rest visited found"
  unfolding walk_inv_def Let_def by auto

lemma walk_inv_join: "walk_inv g start (c # rest) visited found \<Longrightarrow> kind_at g c = Some Join \<Longrightarrow>
    found = None \<or> found = Some c \<Longrightarrow> walk_inv g start rest visited (Some c)"
  unfolding walk_inv_def Let_def by auto

lemma walk_inv_push:
  assumes inv: "walk_inv g start (c # rest) visited found"
    and k: "kind_at g c = Some k" "plain_kind k"
  shows "walk_inv g start (rev (map e_to (edges_from g c)) @ rest) (insert c visited) found"
proof -
  from k have nj: "kind_at g c \<noteq> Some Join" by (auto simp: plain_kind_def)
  from inv have c: "branch_reach g start c" by (simp add: walk_inv_def Let_def)
  have "branch_reach g start (e_to e)" if "e \<in> set (edges_from g c)" for e
    using along [OF c nj] that by simp
  with inv k show ?thesis unfolding walk_inv_def Let_def by auto
qed

lemmas walk_invs = walk_inv_skip walk_inv_join walk_inv_push

lemma walk_loop_inv:
  "walk_loop g pid start k stack visited found = Inr (j, V) \<Longrightarrow>
   walk_inv g start stack visited found \<Longrightarrow> walk_inv g start [] V (Some j)"
proof (induction "WALK_LIMIT - k" arbitrary: k stack visited found rule: less_induct)
  case less
  show ?case
  proof (cases stack)
    case Nil
    with less.prems show ?thesis
      by (simp add: walk_loop.simps [of g pid start k "[]"] split: option.splits)
  next
    case (Cons c rest)
    note res = less.prems(1) [unfolded Cons walk_loop.simps [of g pid start k "c # rest"]]
    note inv = less.prems(2) [unfolded Cons]
    from res have k: "\<not> WALK_LIMIT \<le> k" by (auto split: if_splits)
    then have "WALK_LIMIT - Suc k < WALK_LIMIT - k" by simp
    note IH = less.hyps [OF this]
    show ?thesis
    proof (cases "c \<in> visited")
      case True
      with res k show ?thesis by (auto intro: IH walk_inv_skip [OF inv])
    next
      case False
      with res k obtain nd where nd: "node_of g c = Some nd" by (auto split: option.splits)
      then have kc: "kind_at g c = Some (nd_kind nd)" by (simp add: kind_at_def)
      show ?thesis
      proof (cases "plain_kind (nd_kind nd)")
        case True
        with res k False nd
        have "walk_loop g pid start (Suc k) (rev (map e_to (edges_from g c)) @ rest)
            (insert c visited) found = Inr (j, V)"
          by (cases "nd_kind nd") (simp_all add: plain_kind_def)
        then show ?thesis by (rule IH) (rule walk_inv_push [OF inv kc True])
      next
        case np: False
        with res k False nd have "nd_kind nd = Join"
          by (cases "nd_kind nd") (simp_all add: plain_kind_def)
        with res k False nd kc show ?thesis
          by (auto intro!: IH walk_inv_join [OF inv] split: option.splits if_splits)
      qed
    qed
  qed
qed

lemma walk_inv_done: "walk_inv g start [] V (Some j) \<Longrightarrow> branch_region g start j V"
proof -
  assume inv: "walk_inv g start [] V (Some j)"
  then have jk: "kind_at g j = Some Join" by (simp add: walk_inv_def Let_def)
  have "n \<in> insert j V" if "branch_reach g start n" for n
    using that
  proof (induction rule: branch_reach.induct)
    case here
    with inv show ?case by (auto simp: walk_inv_def Let_def)
  next
    case (along n e)
    with jk have "n \<in> V" by auto
    with along inv show ?case by (auto simp: walk_inv_def Let_def)
  qed
  with inv show ?thesis unfolding branch_region_def walk_inv_def Let_def plain_kind_def by auto
qed

theorem walk_branch_sound:
  "walk_branch_to_join g pid start = Inr (j, V) \<Longrightarrow> branch_region g start j V"
  unfolding walk_branch_to_join_def
  by (rule walk_inv_done) (rule walk_loop_inv [OF _ walk_inv_init])

subsection \<open>The backward walk\<close>

definition edge_rel :: "graph \<Rightarrow> (string \<times> string) set" where
  "edge_rel g = (\<lambda>e. (e_from e, e_to e)) ` set (g_edges g)"

definition parallel_above :: "graph \<Rightarrow> string \<Rightarrow> bool" where
  "parallel_above g n \<longleftrightarrow> (\<exists>p. kind_at g p = Some Parallel \<and> (p, n) \<in> (edge_rel g)\<^sup>+)"

lemma edge_relI: "e \<in> set (g_edges g) \<Longrightarrow> (e_from e, e_to e) \<in> edge_rel g"
  by (auto simp: edge_rel_def)

lemma edge_relE:
  assumes "(a, b) \<in> edge_rel g"
  obtains e where "e \<in> set (g_edges g)" "e_from e = a" "e_to e = b"
  using assms by (auto simp: edge_rel_def)

definition edges_known :: "graph \<Rightarrow> bool" where
  "edges_known g \<longleftrightarrow>
     (\<forall>e \<in> set (g_edges g). node_of g (e_from e) \<noteq> None \<and> node_of g (e_to e) \<noteq> None)"

lemma ancestor_loop_sound:
  "ancestor_loop g visited queue \<Longrightarrow> (\<And>x. x \<in> set queue \<Longrightarrow> (x, n) \<in> (edge_rel g)\<^sup>*) \<Longrightarrow>
   parallel_above g n"
proof (induction g visited queue rule: ancestor_loop.induct)
  case (1 g visited queue)
  show ?case
  proof (cases queue)
    case Nil
    with 1(3) show ?thesis by (simp add: ancestor_loop.simps [of g visited "[]"])
  next
    case (Cons c rest)
    note res = 1(3) [unfolded Cons ancestor_loop.simps [of g visited "c # rest"]]
    from 1(4) Cons have c: "(c, n) \<in> (edge_rel g)\<^sup>*" by simp
    show ?thesis
    proof (cases "c \<in> visited")
      case True
      with res 1(1) [OF Cons] 1(4) Cons show ?thesis by simp
    next
      case False
      show ?thesis
      proof (cases "scan_parents g (edges_to g c)")
        case True
        then obtain e p where e: "e \<in> set (g_edges g)" "e_to e = c"
          and p: "node_of g (e_from e) = Some p" "nd_kind p = Parallel"
          by (auto simp: scan_parents_iff)
        from e have "(e_from e, c) \<in> edge_rel g" by (auto dest: edge_relI)
        with c have "(e_from e, n) \<in> (edge_rel g)\<^sup>+" by (rule rtrancl_into_trancl2 [rotated])
        with p show ?thesis by (auto simp: parallel_above_def kind_at_def)
      next
        case ns: False
        have "(x, n) \<in> (edge_rel g)\<^sup>*"
          if "x \<in> set (rev (known_parents g (edges_to g c)) @ rest)" for x
          using that 1(4) Cons c
          by (auto simp: known_parents_def dest: edge_relI intro: converse_rtrancl_into_rtrancl)
        with 1(2) [OF Cons False ns] res False ns show ?thesis by simp
      qed
    qed
  qed
qed

lemma ancestor_loop_complete:
  assumes "edges_known g"
  shows "\<not> ancestor_loop g visited queue \<Longrightarrow>
    (\<And>v p. v \<in> visited \<Longrightarrow> (p, v) \<in> edge_rel g \<Longrightarrow>
       kind_at g p \<noteq> Some Parallel \<and> p \<in> visited \<union> set queue) \<Longrightarrow>
    n \<in> visited \<union> set queue \<Longrightarrow> (p, n) \<in> (edge_rel g)\<^sup>+ \<Longrightarrow> kind_at g p \<noteq> Some Parallel"
  using assms
proof (induction g visited queue rule: ancestor_loop.induct)
  case (1 g visited queue)
  show ?case
  proof (cases queue)
    case Nil
    have "kind_at g p \<noteq> Some Parallel \<and> p \<in> visited"
      using 1(6) 1(5) Nil
    proof (induction rule: converse_trancl_induct)
      case (base y)
      with 1(4) Nil show ?case by fastforce
    next
      case (step y z)
      with 1(4) Nil show ?case by fastforce
    qed
    then show ?thesis ..
  next
    case (Cons c rest)
    note res = 1(3) [unfolded Cons ancestor_loop.simps [of g visited "c # rest"]]
    show ?thesis
    proof (cases "c \<in> visited")
      case True
      with 1(4,5) Cons have "\<And>v p. v \<in> visited \<Longrightarrow> (p, v) \<in> edge_rel g \<Longrightarrow>
          kind_at g p \<noteq> Some Parallel \<and> p \<in> visited \<union> set rest" and "n \<in> visited \<union> set rest"
        by fastforce+
      with 1(1) [OF Cons True] res True 1(6,7) show ?thesis by simp
    next
      case False
      with res have ns: "\<not> scan_parents g (edges_to g c)" by (auto split: if_splits)
      have pc: "kind_at g q \<noteq> Some Parallel \<and> q \<in> set (known_parents g (edges_to g c))"
        if "(q, c) \<in> edge_rel g" for q
        using that ns 1(7)
        by (force elim!: edge_relE simp: scan_parents_iff known_parents_def kind_at_Some edges_known_def)
      let ?q = "rev (known_parents g (edges_to g c)) @ rest"
      have "kind_at g q \<noteq> Some Parallel \<and> q \<in> insert c visited \<union> set ?q"
        if "v \<in> insert c visited" "(q, v) \<in> edge_rel g" for v q
        using that pc 1(4) Cons by fastforce
      moreover have "n \<in> insert c visited \<union> set ?q" using 1(5) Cons by auto
      ultimately show ?thesis using 1(2) [OF Cons False ns] res False ns 1(6,7) by simp
    qed
  qed
qed

theorem has_parallel_ancestor_correct:
  assumes "edges_known g"
  shows "has_parallel_ancestor g n \<longleftrightarrow> parallel_above g n"
  unfolding has_parallel_ancestor_def
  using ancestor_loop_sound [of g "{}" "[n]" n] ancestor_loop_complete [OF assms, of "{}" "[n]" n]
  by (fastforce simp: parallel_above_def)

subsection \<open>Well-formed graphs\<close>

text \<open>
  A parallel region: the outgoing edges carry distinct non-empty labels, every branch reaches the
  join \<open>j\<close> and no other, and two branches share no node before it.
\<close>

definition region_wf :: "graph \<Rightarrow> string \<Rightarrow> string \<Rightarrow> bool" where
  "region_wf g p j \<longleftrightarrow>
     2 \<le> length (edges_from g p) \<and>
     (\<forall>e \<in> set (edges_from g p). \<exists>b. e_branch e = Some b \<and> b \<noteq> '''') \<and>
     distinct (map branch_label (edges_from g p)) \<and>
     (\<forall>e \<in> set (edges_from g p). branch_region g (e_to e) j (branch_nodes g (e_to e) j)) \<and>
     sorted_wrt (\<lambda>a b. branch_nodes g (e_to a) j \<inter> branch_nodes g (e_to b) j = {}) (edges_from g p)"

fun kind_wf :: "graph \<Rightarrow> string \<Rightarrow> node_kind \<Rightarrow> bool" where
  "kind_wf g i (Agent _ _ _ _ _ _) \<longleftrightarrow> length (edges_from g i) = 1"
| "kind_wf g i (Tool _) \<longleftrightarrow> length (edges_from g i) = 1"
| "kind_wf g i (Router _) \<longleftrightarrow>
     has_branch (edges_from g i) ''loop'' \<and> has_branch (edges_from g i) ''resolved''"
| "kind_wf g i Respond \<longleftrightarrow> edges_from g i = []"
| "kind_wf g i (Supervisor _ _ rs _ _) \<longleftrightarrow>
     2 \<le> length rs \<and> distinct (map sr_branch rs) \<and>
     (\<forall>r \<in> set rs. \<exists>!k. k < length (edges_from g i) \<and>
        e_branch (edges_from g i ! k) = Some (sr_branch r)) \<and>
     (\<forall>e \<in> set (edges_from g i). branch_label e \<in> sr_branch ` set rs)"
| "kind_wf g i Parallel \<longleftrightarrow> (\<exists>j. region_wf g i j)"
| "kind_wf g i Join \<longleftrightarrow>
     2 \<le> length (edges_to g i) \<and> length (edges_from g i) = 1 \<and>
     (\<forall>e \<in> set (edges_to g i). parallel_above g (e_from e))"
| "kind_wf g i (Approval _ _ _ _ _) \<longleftrightarrow> edges_from g i \<noteq> []"

definition graph_wf :: "graph \<Rightarrow> nat \<Rightarrow> bool" where
  "graph_wf g v \<longleftrightarrow>
     distinct (map nd_id (g_nodes g)) \<and> node_of g (g_entry g) \<noteq> None \<and> edges_known g \<and>
     (\<forall>n \<in> set (g_nodes g). kind_wf g (nd_id n) (nd_kind n) \<and> (requires_v2 (nd_kind n) \<longrightarrow> 2 \<le> v))"

lemma check_labels_Inr:
  "check_labels pid seen es = Inr () \<longleftrightarrow>
     (\<forall>e \<in> set es. branch_label e \<noteq> '''') \<and> distinct (map branch_label es) \<and>
     set (map branch_label es) \<inter> seen = {}"
  by (induction pid seen es rule: check_labels.induct) auto

lemma walk_all_Inr:
  "walk_all g pid es = Inr ws \<Longrightarrow>
     list_all2 (\<lambda>e (b, j, V). b = branch_label e \<and> branch_region g (e_to e) j V) es ws"
proof (induction es arbitrary: ws)
  case (Cons e es)
  then obtain j V ws' where w: "walk_branch_to_join g pid (e_to e) = Inr (j, V)"
    "walk_all g pid es = Inr ws'" "ws = (branch_label e, j, V) # ws'"
    by (auto simp: rbind_eq_Inr)
  from Cons.IH [OF w(2)] walk_branch_sound [OF w(1)] w(3) show ?case by simp
qed simp

lemma check_converge_Inr:
  "check_converge pid c i ws = Inr () \<longleftrightarrow> (\<forall>w \<in> set ws. fst (snd w) = c)"
  by (induction pid c i ws rule: check_converge.induct) auto

lemma check_disjoint_Inr:
  "check_disjoint pid ws = Inr () \<longleftrightarrow> sorted_wrt (\<lambda>u w. snd (snd u) \<inter> snd (snd w) = {}) ws"
proof (induction pid ws rule: check_disjoint.induct)
  case (2 pid b j vis ws)
  show ?case
  proof (cases "find (\<lambda>(b', j', vis'). vis \<inter> vis' \<noteq> {}) ws")
    case None
    then have "\<forall>w \<in> set ws. vis \<inter> snd (snd w) = {}" by (fastforce simp: find_None_iff)
    with None 2 show ?thesis by simp
  next
    case (Some w)
    then have "w \<in> set ws \<and> vis \<inter> snd (snd w) \<noteq> {}" using find_Some_mem [OF Some] by auto
    with Some show ?thesis by (auto split: prod.splits)
  qed
qed simp

text \<open>The outcomes of the walks, read back as facts about the edges they started from.\<close>

lemma regions_of_walks:
  assumes "list_all2 (\<lambda>e (b, j, V). b = branch_label e \<and> branch_region g (e_to e) j V) es ws"
    and "\<forall>w \<in> set ws. fst (snd w) = c"
  shows "map (\<lambda>w. snd (snd w)) ws = map (\<lambda>e. branch_nodes g (e_to e) c) es \<and>
    (\<forall>e \<in> set es. branch_region g (e_to e) c (branch_nodes g (e_to e) c))"
  using assms
  by (induction rule: list_all2_induct) (auto dest: branch_region_nodes intro: branch_region_canon)

lemma validate_parallel_sound:
  assumes "validate_parallel g nd (edges_from g (nd_id nd)) = Inr ()"
  shows "\<exists>j. region_wf g (nd_id nd) j"
proof -
  let ?out = "edges_from g (nd_id nd)"
  from assms obtain ws where len: "2 \<le> length ?out"
    and lab: "check_labels (nd_id nd) {} ?out = Inr ()"
    and ws: "walk_all g (nd_id nd) ?out = Inr ws"
    and conv: "check_converge (nd_id nd) (fst (snd (hd ws))) 0 ws = Inr ()"
    and dis: "check_disjoint (nd_id nd) ws = Inr ()"
    by (auto simp: validate_parallel_def rbind_eq_Inr not_less split: if_splits)
  let ?j = "fst (snd (hd ws))"
  from lab have labels: "\<forall>e \<in> set ?out. \<exists>b. e_branch e = Some b \<and> b \<noteq> ''''"
    and dl: "distinct (map branch_label ?out)"
    by (auto simp: check_labels_Inr branch_label_def split: option.splits)
  from regions_of_walks [OF walk_all_Inr [OF ws]] conv
  have nodes: "map (\<lambda>w. snd (snd w)) ws = map (\<lambda>e. branch_nodes g (e_to e) ?j) ?out"
    and reg: "\<forall>e \<in> set ?out. branch_region g (e_to e) ?j (branch_nodes g (e_to e) ?j)"
    by (simp_all add: check_converge_Inr)
  from dis have "sorted_wrt (\<lambda>u w. u \<inter> w = {}) (map (\<lambda>w. snd (snd w)) ws)"
    by (simp add: check_disjoint_Inr sorted_wrt_map)
  then have "sorted_wrt (\<lambda>a b. branch_nodes g (e_to a) ?j \<inter> branch_nodes g (e_to b) ?j = {}) ?out"
    by (simp add: nodes sorted_wrt_map)
  with reg show ?thesis unfolding region_wf_def using len labels dl by blast
qed

lemma filter_one_ex1:
  "length (filter p xs) = 1 \<Longrightarrow> \<exists>!k. k < length xs \<and> p (xs ! k)"
proof -
  assume "length (filter p xs) = 1"
  then obtain k where "{i. i < length xs \<and> p (xs ! i)} = {k}"
    by (auto simp: length_filter_conv_card card_1_singleton_iff)
  then have "i < length xs \<and> p (xs ! i) \<longleftrightarrow> i = k" for i by (simp add: set_eq_iff)
  then show ?thesis by simp
qed

lemma validate_supervisor_sound:
  assumes "validate_supervisor nd rs out = Inr ()"
  shows "2 \<le> length rs \<and> distinct (map sr_branch rs) \<and>
    (\<forall>r \<in> set rs. \<exists>!k. k < length out \<and> e_branch (out ! k) = Some (sr_branch r)) \<and>
    (\<forall>e \<in> set out. branch_label e \<in> sr_branch ` set rs)"
proof -
  from assms have len: "2 \<le> length rs" and dup: "first_dup {} (map sr_branch rs) = None"
    by (auto simp: validate_supervisor_def not_less split: if_splits option.splits)
  from assms len dup
  have one: "\<forall>r \<in> set rs. length (filter (\<lambda>e. e_branch e = Some (sr_branch r)) out) = 1"
    and decl: "\<forall>e \<in> set out. branch_label e \<in> sr_branch ` set rs"
    by (auto simp: validate_supervisor_def rbind_eq_Inr check_all_Inr Let_def split: if_splits)
  from one have "\<forall>r \<in> set rs. \<exists>!k. k < length out \<and> e_branch (out ! k) = Some (sr_branch r)"
    using filter_one_ex1 by fast
  with len dup decl show ?thesis by (simp add: first_dup_None)
qed

lemma validate_node_sound:
  assumes "validate_node g v nd = Inr ()" and "edges_known g"
  shows "kind_wf g (nd_id nd) (nd_kind nd) \<and> (requires_v2 (nd_kind nd) \<longrightarrow> 2 \<le> v)"
proof -
  from assms(1) have v2: "requires_v2 (nd_kind nd) \<longrightarrow> 2 \<le> v"
    by (auto simp: validate_node_def split: if_splits)
  have "kind_wf g (nd_id nd) (nd_kind nd)"
  proof (cases "nd_kind nd")
    case (Supervisor sp m rs pr ar)
    with assms(1) v2 have "validate_supervisor nd rs (edges_from g (nd_id nd)) = Inr ()"
      by (simp add: validate_node_def Let_def split: if_splits)
    from validate_supervisor_sound [OF this] Supervisor show ?thesis by simp
  next
    case Parallel
    with assms(1) v2 have "validate_parallel g nd (edges_from g (nd_id nd)) = Inr ()"
      by (simp add: validate_node_def Let_def split: if_splits)
    from validate_parallel_sound [OF this] Parallel show ?thesis by simp
  next
    case Join
    with assms v2 show ?thesis
      by (auto simp: validate_node_def validate_join_def check_all_Inr Let_def not_less
          has_parallel_ancestor_correct split: if_splits)
  qed (use assms(1) in \<open>auto simp: validate_node_def Let_def split: if_splits\<close>)
  with v2 show ?thesis by simp
qed

lemma validate_sound: "validate g v = Inr () \<Longrightarrow> graph_wf g v"
proof -
  assume ok: "validate g v = Inr ()"
  then have ids: "distinct (map nd_id (g_nodes g))" and entry: "node_of g (g_entry g) \<noteq> None"
    by (auto simp: validate_def first_dup_None split: option.splits if_splits)
  from ok ids entry have ek: "edges_known g"
    by (auto simp: validate_def rbind_eq_Inr check_all_Inr edges_known_def
        split: option.splits if_splits)
  from ok ids entry have "\<forall>n \<in> set (g_nodes g). validate_node g v n = Inr ()"
    by (auto simp: validate_def rbind_eq_Inr check_all_Inr split: option.splits if_splits)
  with validate_node_sound ek ids entry show ?thesis unfolding graph_wf_def by blast
qed

lemma from_json_sound:
  "from_json parse raw = Inr cfg \<Longrightarrow>
     parse raw = Some cfg \<and> supported_schema_version (gc_schema_version cfg) \<and>
     graph_wf (gc_graph cfg) (gc_schema_version cfg)"
  by (auto simp: from_json_def rbind_eq_Inr intro: validate_sound split: if_splits)

end
