(* ===== verification/Graph_Router.thy ===== *)
theory Graph_Router
  imports Graph_Wf
begin

section \<open>Run state and routing\<close>

text \<open>
  \<open>graph/state.rs\<close> (the conversation state a run carries), \<open>graph/router.rs\<close> (the pure router) and
  the edge lookups of \<open>graph/executor.rs\<close> that need no effect: the single successor of a linear
  node, the edge of a branch label, and the search for the join of a parallel region. The lemmas
  show that on a validated graph none of them fails, and that the executor's search finds the same
  join the validator found.
\<close>

subsection \<open>Run state\<close>

datatype graph_role = RoleUser | RoleAssistant | RoleTool

record graph_message =
  gm_role :: graph_role
  gm_content :: string

record graph_run_state =
  rs_messages :: "graph_message list"
  rs_resolved :: bool
  rs_iterations :: nat
  rs_scratchpad :: json

definition default_run_state :: graph_run_state where
  "default_run_state =
     \<lparr>rs_messages = [], rs_resolved = False, rs_iterations = 0, rs_scratchpad = JNull\<rparr>"

definition push_message :: "graph_role \<Rightarrow> string \<Rightarrow> graph_run_state \<Rightarrow> graph_run_state" where
  "push_message r c st = st\<lparr>rs_messages := rs_messages st @ [\<lparr>gm_role = r, gm_content = c\<rparr>]\<rparr>"

definition last_assistant_message :: "graph_run_state \<Rightarrow> string" where
  "last_assistant_message st =
     (case find (\<lambda>m. gm_role m = RoleAssistant) (rev (rs_messages st)) of
        None \<Rightarrow> ''''
      | Some m \<Rightarrow> gm_content m)"

definition rebuild_trail_from_state :: "graph_run_state \<Rightarrow> json list" where
  "rebuild_trail_from_state st =
     map (\<lambda>m. json_obj
       [(''kind'', JString (case gm_role m of
           RoleUser \<Rightarrow> ''user'' | RoleAssistant \<Rightarrow> ''agent'' | RoleTool \<Rightarrow> ''tool'')),
        (''content'', JString (gm_content m))]) (rs_messages st)"

subsection \<open>Edge lookups\<close>

text \<open>\<open>edges_from(id).find(|e| e.branch == Some(label))\<close>, with its target.\<close>

definition branch_target :: "graph \<Rightarrow> string \<Rightarrow> string \<Rightarrow> string option" where
  "branch_target g i b = map_option e_to (find (\<lambda>e. e_branch e = Some b) (edges_from g i))"

definition route :: "graph \<Rightarrow> string \<Rightarrow> graph_run_state \<Rightarrow> (graph_error, string) result" where
  "route g router_id st =
     rbind (ok_or (Invalid (RouterNotFound router_id)) (node_of g router_id)) (\<lambda>nd.
       case nd_kind nd of
         Router max_iterations \<Rightarrow>
           (let branch = (if rs_resolved st \<or> max_iterations \<le> rs_iterations st
                          then ''resolved'' else ''loop'')
            in ok_or (Invalid (RouterNoEdge router_id branch)) (branch_target g router_id branch))
       | _ \<Rightarrow> Inl (Invalid (NotARouter router_id)))"

definition next_linear :: "graph_config \<Rightarrow> string \<Rightarrow> (graph_error, string) result" where
  "next_linear cfg i =
     (case edges_from (gc_graph cfg) i of
        [] \<Rightarrow> Inl (Invalid (NoOutgoingEdge i))
      | e # _ \<Rightarrow> Inr (e_to e))"

text \<open>
  The forward search of \<open>find_join_for_parallel\<close>: the head of \<open>queue\<close> is popped, and the first
  join met is the answer. \<open>Inl (Inl n)\<close> is an unknown node, \<open>Inl (Inr ())\<close> no join.
\<close>

function join_loop ::
  "graph \<Rightarrow> string set \<Rightarrow> string list \<Rightarrow> ((string + unit), string) result" where
  "join_loop g visited queue =
     (case queue of
        [] \<Rightarrow> Inl (Inr ())
      | c # rest \<Rightarrow>
          if c \<in> visited then join_loop g visited rest
          else case node_of g c of
            Some nd \<Rightarrow>
              if nd_kind nd = Join then Inr c
              else join_loop g (insert c visited) (rev (map e_to (edges_from g c)) @ rest)
          | None \<Rightarrow> Inl (Inl c))"
  by pat_completeness auto
termination
proof (relation "measures
    [\<lambda>(g, visited, queue). card ((set queue \<union> set (map e_to (g_edges g))) - visited),
     \<lambda>(g, visited, queue). length queue]", goal_cases)
  case (2 g visited queue c rest)
  then show ?case
    using worklist_skip [of "set (map e_to (g_edges g))" rest visited c] by auto
next
  case (3 g visited queue c rest nd)
  have "set (rev (map e_to (edges_from g c))) \<subseteq> set (map e_to (g_edges g))" by auto
  with 3 show ?case
    using worklist_step [of "set (map e_to (g_edges g))" "rev (map e_to (edges_from g c))" c
        visited rest]
    by auto
qed simp

declare join_loop.simps [simp del]

subsection \<open>On a well-formed graph\<close>

lemma graph_wf_node:
  assumes "graph_wf g v" and "kind_at g i = Some k"
  shows "kind_wf g i k"
  using assms by (auto simp: graph_wf_def kind_at_Some dest: node_of_Some)

lemma edges_known_target: "edges_known g \<Longrightarrow> e \<in> set (edges_from g i) \<Longrightarrow> node_of g (e_to e) \<noteq> None"
  by (auto simp: edges_known_def)

lemma graph_wf_edges_known: "graph_wf g v \<Longrightarrow> edges_known g"
  by (simp add: graph_wf_def)

lemma branch_target_Some:
  "branch_target g i b = Some t \<Longrightarrow> \<exists>e \<in> set (edges_from g i). e_branch e = Some b \<and> e_to e = t"
  by (auto simp: branch_target_def dest: find_Some_mem)

lemma branch_target_known:
  "edges_known g \<Longrightarrow> branch_target g i b = Some t \<Longrightarrow> node_of g t \<noteq> None"
  by (auto dest!: branch_target_Some edges_known_target)

lemma has_branch_target: "has_branch (edges_from g i) b \<Longrightarrow> \<exists>t. branch_target g i b = Some t"
  by (cases "find (\<lambda>e. e_branch e = Some b) (edges_from g i)")
    (auto simp: has_branch_def branch_target_def find_None_iff)

lemma route_total:
  assumes wf: "graph_wf g v" and k: "kind_at g i = Some (Router m)"
  shows "\<exists>t. route g i st = Inr t \<and> node_of g t \<noteq> None"
proof -
  from k obtain nd where nd: "node_of g i = Some nd" "nd_kind nd = Router m"
    by (auto simp: kind_at_Some)
  from graph_wf_node [OF wf k]
  have "has_branch (edges_from g i) ''loop''" "has_branch (edges_from g i) ''resolved''" by auto
  then obtain a b where "branch_target g i ''loop'' = Some a" "branch_target g i ''resolved'' = Some b"
    by (blast dest: has_branch_target)
  with nd branch_target_known [OF graph_wf_edges_known [OF wf]] show ?thesis
    by (auto simp: route_def Let_def)
qed

lemma next_linear_total:
  assumes wf: "graph_wf (gc_graph cfg) v" and "length (edges_from (gc_graph cfg) i) = 1"
  shows "\<exists>t. next_linear cfg i = Inr t \<and> node_of (gc_graph cfg) t \<noteq> None"
proof -
  from assms(2) obtain e where e: "edges_from (gc_graph cfg) i = [e]" by (auto simp: length_Suc_conv)
  then have "e \<in> set (edges_from (gc_graph cfg) i)" by (simp del: set_edges_from)
  from edges_known_target [OF graph_wf_edges_known [OF wf] this] e show ?thesis
    by (simp add: next_linear_def)
qed

text \<open>
  The search for the join. It visits only nodes that some branch reaches, so a join it returns is
  the one join of the region; and it cannot run dry, because what it has seen is closed under the
  edges and the validator saw every branch reach the join.
\<close>

definition in_region :: "graph \<Rightarrow> string \<Rightarrow> string \<Rightarrow> bool" where
  "in_region g p n \<longleftrightarrow> (\<exists>e \<in> set (edges_from g p). branch_reach g (e_to e) n)"

lemma in_region_step:
  "in_region g p n \<Longrightarrow> kind_at g n \<noteq> Some Join \<Longrightarrow> e \<in> set (edges_from g n) \<Longrightarrow> in_region g p (e_to e)"
  unfolding in_region_def by (auto intro: along)

lemma region_wf_in_region:
  assumes "region_wf g p j" and "in_region g p n"
  shows "n = j \<or> (\<exists>k. kind_at g n = Some k \<and> plain_kind k)"
proof -
  from assms obtain e where "e \<in> set (edges_from g p)" and r: "branch_reach g (e_to e) n"
    and reg: "branch_region g (e_to e) j (branch_nodes g (e_to e) j)"
    by (auto simp: in_region_def region_wf_def)
  with r show ?thesis by (auto simp: branch_region_def)
qed

lemma region_wf_join: "region_wf g p j \<Longrightarrow> in_region g p j \<and> kind_at g j = Some Join"
proof -
  assume wf: "region_wf g p j"
  then obtain e where e: "e \<in> set (edges_from g p)"
    by (cases "edges_from g p") (auto simp: region_wf_def)
  with wf have "branch_region g (e_to e) j (branch_nodes g (e_to e) j)" by (simp add: region_wf_def)
  with e show ?thesis by (auto simp: branch_region_def in_region_def)
qed

lemma join_loop_finds:
  assumes wf: "region_wf g p j"
  shows "(\<forall>x \<in> set queue. in_region g p x) \<Longrightarrow>
    (\<forall>e \<in> set (edges_from g p). e_to e \<in> visited \<union> set queue) \<Longrightarrow>
    (\<forall>v \<in> visited. kind_at g v \<noteq> Some Join \<and>
       (\<forall>e \<in> set (edges_from g v). e_to e \<in> visited \<union> set queue)) \<Longrightarrow>
    join_loop g visited queue = Inr j"
  using wf
proof (induction g visited queue rule: join_loop.induct)
  case (1 g visited queue)
  note jr = region_wf_join [OF 1(6)]
  show ?case
  proof (cases queue)
    case Nil
    have "n \<in> visited" if "branch_reach g (e_to e) n" "e \<in> set (edges_from g p)" for e n
      using that 1(4,5) Nil by (induction rule: branch_reach.induct) auto
    with jr 1(5) show ?thesis by (auto simp: in_region_def)
  next
    case (Cons c rest)
    show ?thesis
    proof (cases "c \<in> visited")
      case True
      then have "join_loop g visited rest = Inr j"
        by (intro 1(1) [OF Cons True]) (use 1 Cons in auto)
      with True Cons show ?thesis by (simp add: join_loop.simps [of g visited "c # rest"])
    next
      case False
      from 1(3) Cons have cr: "in_region g p c" by simp
      show ?thesis
      proof (cases "c = j")
        case True
        with jr False Cons show ?thesis
          by (auto simp: join_loop.simps [of g visited "j # rest"] kind_at_Some)
      next
        case cj: False
        with region_wf_in_region [OF 1(6) cr] obtain nd where nd: "node_of g c = Some nd"
          and nj: "nd_kind nd \<noteq> Join" by (auto simp: kind_at_Some plain_kind_def)
        then have kc: "kind_at g c \<noteq> Some Join" by (simp add: kind_at_def)
        let ?q = "rev (map e_to (edges_from g c)) @ rest"
        have "join_loop g (insert c visited) ?q = Inr j"
        proof (intro 1(2) [OF Cons False nd nj])
          show "\<forall>x \<in> set ?q. in_region g p x"
            using 1(3) Cons in_region_step [OF cr kc] by auto
          show "\<forall>e \<in> set (edges_from g p). e_to e \<in> insert c visited \<union> set ?q"
            using 1(4) Cons by auto
          show "\<forall>v \<in> insert c visited. kind_at g v \<noteq> Some Join \<and>
              (\<forall>e \<in> set (edges_from g v). e_to e \<in> insert c visited \<union> set ?q)"
            using 1(5) Cons kc by auto
        qed (rule 1(6))
        with False nd nj Cons show ?thesis
          by (simp add: join_loop.simps [of g visited "c # rest"])
      qed
    qed
  qed
qed

lemma join_loop_region:
  "region_wf g p j \<Longrightarrow> join_loop g {} (rev (map e_to (edges_from g p))) = Inr j"
  by (rule join_loop_finds) (auto simp: in_region_def intro: here)

end
