(* ===== verification/Tenant.thy ===== *)
theory Tenant
  imports Prelude
begin

section \<open>Tenant context, identifier checks and the shared key space\<close>

text \<open>
  \<open>crates/greentic-aw-runtime/src/tenant.rs\<close> and the key builders of \<open>graph/checkpoint.rs\<close>,
  \<open>graph/kv_checkpoint.rs\<close> and \<open>state_kv.rs\<close>. A \<open>String\<close> is the list of its UTF-8 bytes. The lemmas
  show what the identifier checks buy: with colon-free tenant and environment ids, no key of one
  scope is a key of another, and the families of keys of one scope do not overlap.
\<close>

subsection \<open>Data\<close>

record verified_caller =
  vc_user_verified :: bool
  vc_sub :: "string option"
  vc_groups :: "string list"
  vc_team :: "string option"
  vc_role :: "string option"
  vc_iss :: "string option"

definition anonymous_caller :: verified_caller where
  "anonymous_caller =
     \<lparr>vc_user_verified = False, vc_sub = None, vc_groups = [], vc_team = None, vc_role = None,
      vc_iss = None\<rparr>"

record tenant_context =
  tc_tenant_id :: string
  tc_env_id :: string
  tc_user_email :: "string option"
  tc_project_id :: "string option"
  tc_caller :: "verified_caller option"

definition tenant_new :: "string \<Rightarrow> string \<Rightarrow> tenant_context" where
  "tenant_new t e =
     \<lparr>tc_tenant_id = t, tc_env_id = e, tc_user_email = None, tc_project_id = None,
      tc_caller = None\<rparr>"

definition with_user_email :: "tenant_context \<Rightarrow> string option \<Rightarrow> tenant_context" where
  "with_user_email t email = t\<lparr>tc_user_email := email\<rparr>"

definition with_project_id :: "tenant_context \<Rightarrow> string option \<Rightarrow> tenant_context" where
  "with_project_id t p = t\<lparr>tc_project_id := p\<rparr>"

definition with_caller :: "tenant_context \<Rightarrow> verified_caller option \<Rightarrow> tenant_context" where
  "with_caller t c = t\<lparr>tc_caller := c\<rparr>"

definition caller_or_anonymous :: "tenant_context \<Rightarrow> verified_caller" where
  "caller_or_anonymous t = (case tc_caller t of None \<Rightarrow> anonymous_caller | Some c \<Rightarrow> c)"

definition key_prefix :: "tenant_context \<Rightarrow> string" where
  "key_prefix t = ''aw:'' @ tc_tenant_id t @ '':'' @ tc_env_id t"

subsection \<open>Identifier checks\<close>

definition MAX_ID_LEN :: nat where "MAX_ID_LEN = 256"
definition MAX_SESSION_ID_LEN :: nat where "MAX_SESSION_ID_LEN = 512"

text \<open>
  \<open>char::is_control\<close> over UTF-8: the bytes below 32, 127, and the two-byte code points U+0080 to
  U+009F.
\<close>

fun has_control :: "string \<Rightarrow> bool" where
  "has_control [] = False"
| "has_control (c # cs) =
     ((of_char c :: nat) < 32 \<or> (of_char c :: nat) = 127 \<or>
      ((of_char c :: nat) = 194 \<and>
        (case cs of [] \<Rightarrow> False | d # _ \<Rightarrow> 128 \<le> (of_char d :: nat) \<and> (of_char d :: nat) \<le> 159)) \<or>
      has_control cs)"

fun has_dot_dot :: "string \<Rightarrow> bool" where
  "has_dot_dot (c # d # cs) = ((c = CHR ''.'' \<and> d = CHR ''.'') \<or> has_dot_dot (d # cs))"
| "has_dot_dot _ = False"

datatype id_error = IdEmpty | IdTooLong | IdForbidden

definition validate_scope_id :: "string \<Rightarrow> (id_error, unit) result" where
  "validate_scope_id i =
     (if i = [] then Inl IdEmpty
      else if MAX_ID_LEN < length i then Inl IdTooLong
      else if set i \<inter> {CHR ''/'', CHR 0x5C, CHR '':''} \<noteq> {} \<or> has_dot_dot i \<or> has_control i
      then Inl IdForbidden
      else Inr ())"

definition validate_session_id :: "string \<Rightarrow> (id_error, unit) result" where
  "validate_session_id i =
     (if i = [] then Inl IdEmpty
      else if MAX_SESSION_ID_LEN < length i then Inl IdTooLong
      else if has_control i then Inl IdForbidden
      else Inr ())"

definition is_dot_segment :: "string \<Rightarrow> bool" where
  "is_dot_segment s \<longleftrightarrow> s = ''.'' \<or> s = ''..''"

definition unreserved :: "char \<Rightarrow> bool" where
  "unreserved c \<longleftrightarrow>
     (let n = (of_char c :: nat) in
      (48 \<le> n \<and> n \<le> 57) \<or> (65 \<le> n \<and> n \<le> 90) \<or> (97 \<le> n \<and> n \<le> 122) \<or>
      c \<in> {CHR ''-'', CHR ''.'', CHR ''_'', CHR ''~''})"

definition hex_digit :: "nat \<Rightarrow> char" where
  "hex_digit d = (if d < 10 then char_of (48 + d) else char_of (55 + d))"

definition percent_encode_segment :: "string \<Rightarrow> string" where
  "percent_encode_segment s =
     concat (map (\<lambda>c. if unreserved c then [c]
                      else let n = (of_char c :: nat) in
                           [CHR 0x25, hex_digit (n div 16), hex_digit (n mod 16)]) s)"

subsection \<open>Keys\<close>

text \<open>Keys of the in-memory checkpoint store (\<open>checkpoint.rs\<close>), without the namespace prefix.\<close>

definition run_key :: "tenant_context \<Rightarrow> string \<Rightarrow> string" where
  "run_key t r = tc_tenant_id t @ '':'' @ tc_env_id t @ '':'' @ r"

definition visit_key :: "tenant_context \<Rightarrow> string \<Rightarrow> string \<Rightarrow> nat \<Rightarrow> string" where
  "visit_key t r n a =
     tc_tenant_id t @ '':'' @ tc_env_id t @ '':'' @ r @ '':'' @ n @ '':'' @ show_nat a"

text \<open>Keys of the key-value stores (\<open>kv_checkpoint.rs\<close>, \<open>state_kv.rs\<close>), under the prefix.\<close>

definition kv_run_key :: "tenant_context \<Rightarrow> string \<Rightarrow> string" where
  "kv_run_key t r = key_prefix t @ '':'' @ r @ '':graph''"

definition kv_visit_key :: "tenant_context \<Rightarrow> string \<Rightarrow> string \<Rightarrow> nat \<Rightarrow> string" where
  "kv_visit_key t r n a = key_prefix t @ '':'' @ r @ '':graph:visit:'' @ n @ '':'' @ show_nat a"

definition state_key :: "tenant_context \<Rightarrow> string \<Rightarrow> string" where
  "state_key t s = key_prefix t @ '':'' @ s @ '':state''"

definition lock_key :: "tenant_context \<Rightarrow> string \<Rightarrow> string" where
  "lock_key t s = key_prefix t @ '':'' @ s @ '':lock''"

subsection \<open>What the checks buy\<close>

abbreviation scope :: "tenant_context \<Rightarrow> string \<times> string" where
  "scope t \<equiv> (tc_tenant_id t, tc_env_id t)"

definition scope_ok :: "tenant_context \<Rightarrow> bool" where
  "scope_ok t \<longleftrightarrow> colon_free (tc_tenant_id t) \<and> colon_free (tc_env_id t)"

lemma validate_scope_id_colon_free: "validate_scope_id i = Inr () \<Longrightarrow> colon_free i"
  by (auto simp: validate_scope_id_def split: if_splits)

lemma scope_prefix_inject:
  assumes "scope_ok t" and "scope_ok u"
    and "key_prefix t @ '':'' @ x = key_prefix u @ '':'' @ y"
  shows "scope t = scope u \<and> x = y"
proof -
  from assms(3) have "tc_tenant_id t @ CHR '':'' # (tc_env_id t @ CHR '':'' # x) =
      tc_tenant_id u @ CHR '':'' # (tc_env_id u @ CHR '':'' # y)"
    by (simp add: key_prefix_def)
  from colon_split_inject [OF _ _ this] assms(1,2)
  have "tc_tenant_id t = tc_tenant_id u"
    and "tc_env_id t @ CHR '':'' # x = tc_env_id u @ CHR '':'' # y"
    by (simp_all add: scope_ok_def)
  with colon_split_inject [of "tc_env_id t" "tc_env_id u" x y] assms(1,2) show ?thesis
    by (simp add: scope_ok_def)
qed

lemma visit_tail_inject:
  assumes "colon_free r" "colon_free r'" "colon_free n" "colon_free n'"
    and "r @ CHR '':'' # n @ CHR '':'' # show_nat a = r' @ CHR '':'' # n' @ CHR '':'' # show_nat a'"
  shows "r = r' \<and> n = n' \<and> a = a'"
proof -
  from colon_split_inject [OF assms(1,2,5)]
  have "r = r'" and n: "n @ CHR '':'' # show_nat a = n' @ CHR '':'' # show_nat a'" by simp_all
  with colon_split_inject [OF assms(3,4) n] show ?thesis by (simp add: show_nat_inject)
qed

lemma visit_key_inject:
  "visit_key t r n a = visit_key t r' n' a' \<Longrightarrow>
   colon_free r \<Longrightarrow> colon_free r' \<Longrightarrow> colon_free n \<Longrightarrow> colon_free n' \<Longrightarrow>
   r = r' \<and> n = n' \<and> a = a'"
  by (rule visit_tail_inject) (simp_all add: visit_key_def)

text \<open>Within one run the node and the attempt are determined without any check, by the last colon.\<close>

lemma visit_key_same_run: "visit_key t r n a = visit_key t r m b \<longleftrightarrow> n = m \<and> a = b"
  using colon_rsplit_inject [of "show_nat a" "show_nat b" n m]
  by (auto simp: visit_key_def show_nat_colon_free dest: show_nat_inject)

lemma kv_visit_key_same_run: "kv_visit_key t r n a = kv_visit_key t r m b \<longleftrightarrow> n = m \<and> a = b"
  using colon_rsplit_inject [of "show_nat a" "show_nat b" n m]
  by (auto simp: kv_visit_key_def show_nat_colon_free dest: show_nat_inject)

lemma kv_visit_key_inject:
  assumes "kv_visit_key t r n a = kv_visit_key t r' n' a'"
    and "colon_free r" "colon_free r'" "colon_free n" "colon_free n'"
  shows "r = r' \<and> n = n' \<and> a = a'"
proof -
  from assms(1) have "r @ CHR '':'' # (''graph:visit:'' @ n @ CHR '':'' # show_nat a) =
      r' @ CHR '':'' # (''graph:visit:'' @ n' @ CHR '':'' # show_nat a')"
    by (simp add: kv_visit_key_def)
  from colon_split_inject [OF assms(2,3) this]
  have "r = r'" and n: "n @ CHR '':'' # show_nat a = n' @ CHR '':'' # show_nat a'" by simp_all
  with colon_split_inject [OF assms(4,5) n] show ?thesis by (simp add: show_nat_inject)
qed

lemma last_segment_inject:
  "p @ CHR '':'' # x = q @ CHR '':'' # y \<Longrightarrow> colon_free x \<Longrightarrow> colon_free y \<Longrightarrow> x = y"
  using colon_rsplit_inject by blast

lemma show_nat_Cons: "show_nat a = c # cs \<Longrightarrow> 48 \<le> (of_char c :: nat) \<and> (of_char c :: nat) < 58"
proof (induction a arbitrary: cs rule: show_nat.induct)
  case (1 n)
  show ?case
  proof (cases "n < 10")
    case True
    with 1(2) have "c = digit_char n" by (subst (asm) show_nat.simps) simp
    with True show ?thesis by (simp add: of_char_digit_char)
  next
    case False
    then have "show_nat n = show_nat (n div 10) @ [digit_char (n mod 10)]"
      by (subst show_nat.simps) simp
    with 1 False show ?thesis by (cases "show_nat (n div 10)") auto
  qed
qed

text \<open>The four families end in different last segments.\<close>

lemma family_disjoint:
  "kv_run_key t r \<noteq> kv_visit_key u r' n a"
  "kv_run_key t r \<noteq> state_key u s" "kv_run_key t r \<noteq> lock_key u s"
  "state_key t s \<noteq> lock_key u s'"
  "kv_visit_key t r n a \<noteq> state_key u s" "kv_visit_key t r n a \<noteq> lock_key u s"
proof -
  note seg = last_segment_inject and digits = show_nat_Cons
  note nf = show_nat_colon_free [of a]
  show "kv_run_key t r \<noteq> state_key u s"
    using seg [of "key_prefix t @ '':'' @ r" "''graph''" "key_prefix u @ '':'' @ s" "''state''"]
    by (auto simp: kv_run_key_def state_key_def)
  show "kv_run_key t r \<noteq> lock_key u s"
    using seg [of "key_prefix t @ '':'' @ r" "''graph''" "key_prefix u @ '':'' @ s" "''lock''"]
    by (auto simp: kv_run_key_def lock_key_def)
  show "state_key t s \<noteq> lock_key u s'"
    using seg [of "key_prefix t @ '':'' @ s" "''state''" "key_prefix u @ '':'' @ s'" "''lock''"]
    by (auto simp: state_key_def lock_key_def)
  show "kv_run_key t r \<noteq> kv_visit_key u r' n a"
    using seg [of "key_prefix t @ '':'' @ r" "''graph''"
        "key_prefix u @ '':'' @ r' @ '':graph:visit:'' @ n" "show_nat a"] nf
      digits [of a "CHR ''g''" "''raph''"]
    by (auto simp: kv_run_key_def kv_visit_key_def)
  show "kv_visit_key t r n a \<noteq> state_key u s"
    using seg [of "key_prefix t @ '':'' @ r @ '':graph:visit:'' @ n" "show_nat a"
        "key_prefix u @ '':'' @ s" "''state''"] nf digits [of a "CHR ''s''" "''tate''"]
    by (auto simp: state_key_def kv_visit_key_def)
  show "kv_visit_key t r n a \<noteq> lock_key u s"
    using seg [of "key_prefix t @ '':'' @ r @ '':graph:visit:'' @ n" "show_nat a"
        "key_prefix u @ '':'' @ s" "''lock''"] nf digits [of a "CHR ''l''" "''ock''"]
    by (auto simp: lock_key_def kv_visit_key_def)
qed

end
