(* ===== verification/Kv.thy ===== *)
theory Kv
  imports Tenant
begin

section \<open>The key-value interface and its in-process backend\<close>

text \<open>
  \<open>crates/greentic-aw-runtime/src/kv/mod.rs\<close> (the Redis-shaped \<open>AwKv\<close> trait and its counter
  encoding) and \<open>kv/memory.rs\<close> (\<open>MemoryKv\<close>: one map with per-key expiry and a periodic sweep). Every
  operation reads the clock once; the reading is the argument \<open>now\<close>, in milliseconds. A stored value
  is a \<open>'b\<close>, the byte vector of the source; the counters fix it to bytes. A poisoned mutex is not
  modelled: no closure run under the lock panics.

  The locale \<open>aw_kv\<close> is the contract of the trait, in terms of the live view of a store: what a read
  at time \<open>t\<close> would return. \<open>MemoryKv\<close> is shown to meet it, lazy eviction and sweep included.
\<close>

subsection \<open>The trait\<close>

datatype state_error =
    RedisError
  | SchemaIncompatible nat nat
  | DecodeError
  | LockTimeout nat
  | LockLost

record ('s, 'b) kv_ops =
  kv_get :: "nat \<Rightarrow> string \<Rightarrow> ('s, state_error, 'b option) st_res"
  kv_set_ex :: "nat \<Rightarrow> string \<Rightarrow> 'b \<Rightarrow> nat \<Rightarrow> ('s, state_error, unit) st_res"
  kv_del :: "nat \<Rightarrow> string \<Rightarrow> ('s, state_error, unit) st_res"
  kv_set_nx :: "nat \<Rightarrow> string \<Rightarrow> 'b \<Rightarrow> nat \<Rightarrow> ('s, state_error, bool) st_res"
  kv_compare_refresh :: "nat \<Rightarrow> string \<Rightarrow> 'b \<Rightarrow> nat \<Rightarrow> ('s, state_error, bool) st_res"
  kv_compare_del :: "nat \<Rightarrow> string \<Rightarrow> 'b \<Rightarrow> ('s, state_error, bool) st_res"

text \<open>
  The contract. \<open>live s t k\<close> is the value a read of \<open>k\<close> at time \<open>t\<close> returns; an operation at \<open>now\<close>
  is described by the live view it leaves for every later time.
\<close>

definition ttl_view :: "nat \<Rightarrow> nat \<Rightarrow> 'b \<Rightarrow> nat \<Rightarrow> 'b option" where
  "ttl_view now ttl v t = (if t < now + ttl then Some v else None)"

locale aw_kv =
  fixes kv :: "('s, 'b) kv_ops"
    and invar :: "'s \<Rightarrow> bool"
    and live :: "'s \<Rightarrow> nat \<Rightarrow> string \<Rightarrow> 'b option"
  assumes get: "invar s \<Longrightarrow> \<exists>s'. kv_get kv now k s = (Inr (live s now k), s') \<and> invar s' \<and>
      (\<forall>t \<ge> now. live s' t = live s t)"
    and set_ex: "invar s \<Longrightarrow> \<exists>s'. kv_set_ex kv now k v ttl s = (Inr (), s') \<and> invar s' \<and>
      (\<forall>t \<ge> now. live s' t = (live s t)(k := ttl_view now ttl v t))"
    and del: "invar s \<Longrightarrow> \<exists>s'. kv_del kv now k s = (Inr (), s') \<and> invar s' \<and>
      (\<forall>t \<ge> now. live s' t = (live s t)(k := None))"
    and set_nx_free: "invar s \<Longrightarrow> live s now k = None \<Longrightarrow>
      \<exists>s'. kv_set_nx kv now k v ttl s = (Inr True, s') \<and> invar s' \<and>
        (\<forall>t \<ge> now. live s' t = (live s t)(k := ttl_view now ttl v t))"
    and set_nx_held: "invar s \<Longrightarrow> live s now k = Some w \<Longrightarrow>
      \<exists>s'. kv_set_nx kv now k v ttl s = (Inr False, s') \<and> invar s' \<and>
        (\<forall>t \<ge> now. live s' t = live s t)"
    and compare_refresh_owner: "invar s \<Longrightarrow> live s now k = Some v \<Longrightarrow>
      \<exists>s'. kv_compare_refresh kv now k v ttl s = (Inr True, s') \<and> invar s' \<and>
        (\<forall>t \<ge> now. live s' t = (live s t)(k := ttl_view now ttl v t))"
    and compare_refresh_other: "invar s \<Longrightarrow> live s now k \<noteq> Some v \<Longrightarrow>
      \<exists>s'. kv_compare_refresh kv now k v ttl s = (Inr False, s') \<and> invar s' \<and>
        (\<forall>t \<ge> now. live s' t = live s t)"
    and compare_del_owner: "invar s \<Longrightarrow> live s now k = Some v \<Longrightarrow>
      \<exists>s'. kv_compare_del kv now k v s = (Inr True, s') \<and> invar s' \<and>
        (\<forall>t \<ge> now. live s' t = (live s t)(k := None))"
    and compare_del_other: "invar s \<Longrightarrow> live s now k \<noteq> Some v \<Longrightarrow>
      \<exists>s'. kv_compare_del kv now k v s = (Inr False, s') \<and> invar s' \<and>
        (\<forall>t \<ge> now. live s' t = live s t)"

subsection \<open>The in-process backend\<close>

record 'b kv_entry =
  en_bytes :: 'b
  en_expires_at :: nat

record 'b mem_state =
  mk_map :: "(string, 'b kv_entry) hmap"
  mk_writes :: nat

definition mem_kv_new :: "'b mem_state" where
  "mem_kv_new = \<lparr>mk_map = [], mk_writes = 0\<rparr>"

definition MIN_WRITES_PER_SWEEP :: nat where "MIN_WRITES_PER_SWEEP = 256"

definition note_write :: "nat \<Rightarrow> 'b mem_state \<Rightarrow> 'b mem_state" where
  "note_write now st =
     (let w = mk_writes st + 1 in
      if max MIN_WRITES_PER_SWEEP (length (mk_map st)) \<le> w
      then st\<lparr>mk_writes := 0, mk_map := filter (\<lambda>(k, e). now < en_expires_at e) (mk_map st)\<rparr>
      else st\<lparr>mk_writes := w\<rparr>)"

definition with_map ::
  "((string, 'b kv_entry) hmap \<Rightarrow> 'r \<times> (string, 'b kv_entry) hmap) \<Rightarrow>
     ('b mem_state, state_error, 'r) st_res" where
  "with_map f st = (let (r, m) = f (mk_map st) in (Inr r, st\<lparr>mk_map := m\<rparr>))"

definition with_map_write ::
  "nat \<Rightarrow> ((string, 'b kv_entry) hmap \<Rightarrow> 'r \<times> (string, 'b kv_entry) hmap) \<Rightarrow>
     ('b mem_state, state_error, 'r) st_res" where
  "with_map_write now f st =
     (let (r, m) = f (mk_map st) in (Inr r, note_write now (st\<lparr>mk_map := m\<rparr>)))"

definition mem_get :: "nat \<Rightarrow> string \<Rightarrow> ('b mem_state, state_error, 'b option) st_res" where
  "mem_get now k = with_map (\<lambda>m.
     case hget m k of
       Some e \<Rightarrow> if now < en_expires_at e then (Some (en_bytes e), m) else (None, hdel k m)
     | None \<Rightarrow> (None, m))"

definition mem_set_ex :: "nat \<Rightarrow> string \<Rightarrow> 'b \<Rightarrow> nat \<Rightarrow> ('b mem_state, state_error, unit) st_res" where
  "mem_set_ex now k v ttl = with_map_write now (\<lambda>m.
     ((), hput k \<lparr>en_bytes = v, en_expires_at = now + ttl\<rparr> m))"

definition mem_del :: "nat \<Rightarrow> string \<Rightarrow> ('b mem_state, state_error, unit) st_res" where
  "mem_del now k = with_map (\<lambda>m. ((), hdel k m))"

definition mem_set_nx :: "nat \<Rightarrow> string \<Rightarrow> 'b \<Rightarrow> nat \<Rightarrow> ('b mem_state, state_error, bool) st_res" where
  "mem_set_nx now k v ttl = with_map_write now (\<lambda>m.
     if (case hget m k of Some e \<Rightarrow> now < en_expires_at e | None \<Rightarrow> False) then (False, m)
     else (True, hput k \<lparr>en_bytes = v, en_expires_at = now + ttl\<rparr> m))"

definition mem_compare_refresh ::
  "nat \<Rightarrow> string \<Rightarrow> 'b \<Rightarrow> nat \<Rightarrow> ('b mem_state, state_error, bool) st_res" where
  "mem_compare_refresh now k expected ttl = with_map (\<lambda>m.
     case hget m k of
       None \<Rightarrow> (False, m)
     | Some e \<Rightarrow>
         if en_expires_at e \<le> now then (False, hdel k m)
         else if en_bytes e = expected then (True, hput k (e\<lparr>en_expires_at := now + ttl\<rparr>) m)
         else (False, m))"

definition mem_compare_del :: "nat \<Rightarrow> string \<Rightarrow> 'b \<Rightarrow> ('b mem_state, state_error, bool) st_res" where
  "mem_compare_del now k expected = with_map (\<lambda>m.
     case hget m k of
       None \<Rightarrow> (False, m)
     | Some e \<Rightarrow>
         (let expired = en_expires_at e \<le> now; matches = (en_bytes e = expected) in
          (\<not> expired \<and> matches, if expired \<or> matches then hdel k m else m)))"

definition memory_kv :: "('b mem_state, 'b) kv_ops" where
  "memory_kv =
     \<lparr>kv_get = mem_get, kv_set_ex = mem_set_ex, kv_del = mem_del, kv_set_nx = mem_set_nx,
      kv_compare_refresh = mem_compare_refresh, kv_compare_del = mem_compare_del\<rparr>"

subsection \<open>Counters\<close>

type_synonym byte = "8 word"

fun be_bytes :: "nat \<Rightarrow> nat \<Rightarrow> byte list" where
  "be_bytes 0 n = []"
| "be_bytes (Suc k) n = be_bytes k (n div 256) @ [word_of_nat n]"

definition be_value :: "byte list \<Rightarrow> nat" where
  "be_value bs = foldl (\<lambda>a b. a * 256 + unat b) 0 bs"

definition encode_u64 :: "nat \<Rightarrow> byte list" where
  "encode_u64 n = be_bytes 8 n"

definition decode_u64 :: "byte list \<Rightarrow> (state_error, nat) result" where
  "decode_u64 bs = (if length bs = 8 then Inr (be_value bs) else Inl DecodeError)"

definition mem_incr_by ::
  "nat \<Rightarrow> string \<Rightarrow> nat \<Rightarrow> nat \<Rightarrow> (byte list mem_state, state_error, nat) st_res" where
  "mem_incr_by now k delta ttl = with_map_write now (\<lambda>m.
     let current =
           (case hget m k of
              None \<Rightarrow> 0
            | Some e \<Rightarrow>
                if now < en_expires_at e
                then (case decode_u64 (en_bytes e) of Inl _ \<Rightarrow> 0 | Inr n \<Rightarrow> n) else 0);
         new = sat_add64 current delta
     in (new, hput k \<lparr>en_bytes = encode_u64 new, en_expires_at = now + ttl\<rparr> m))"

text \<open>\<open>AwKv::get_u64\<close>, the default method of the trait.\<close>

definition kv_get_u64 :: "('s, byte list) kv_ops \<Rightarrow> nat \<Rightarrow> string \<Rightarrow> ('s, state_error, nat) st_res" where
  "kv_get_u64 kv now k = sbind (kv_get kv now k) (\<lambda>v.
     case v of Some bytes \<Rightarrow> sres (decode_u64 bytes) | None \<Rightarrow> sret 0)"

subsection \<open>The backend meets the contract\<close>

definition mem_live :: "'b mem_state \<Rightarrow> nat \<Rightarrow> string \<Rightarrow> 'b option" where
  "mem_live st t k =
     (case hget (mk_map st) k of
        None \<Rightarrow> None
      | Some e \<Rightarrow> if t < en_expires_at e then Some (en_bytes e) else None)"

definition mem_inv :: "'b mem_state \<Rightarrow> bool" where
  "mem_inv st \<longleftrightarrow> hm_wf (mk_map st)"

lemmas mem_defs = mem_get_def mem_set_ex_def mem_del_def mem_set_nx_def mem_compare_refresh_def
  mem_compare_del_def with_map_def with_map_write_def

lemma note_write_inv: "mem_inv st \<Longrightarrow> mem_inv (note_write now st)"
  by (simp add: mem_inv_def note_write_def Let_def hm_wf_filter)

text \<open>The sweep drops only entries that no later read would return.\<close>

lemma note_write_live:
  assumes "mem_inv st" and "now \<le> t"
  shows "mem_live (note_write now st) t k = mem_live st t k"
proof -
  from assms(1) have "hget (filter (\<lambda>(k, e). now < en_expires_at e) (mk_map st)) k =
      (case hget (mk_map st) k of None \<Rightarrow> None
       | Some e \<Rightarrow> if now < en_expires_at e then Some e else None)"
    by (simp add: mem_inv_def hget_filter)
  with assms(2) show ?thesis
    by (auto simp: mem_live_def note_write_def Let_def split: option.splits)
qed

lemma mem_live_upd:
  "mem_live (st\<lparr>mk_map := hput k e (mk_map st)\<rparr>) t =
     (mem_live st t)(k := if t < en_expires_at e then Some (en_bytes e) else None)"
  "mem_live (st\<lparr>mk_map := hdel k (mk_map st)\<rparr>) t = (mem_live st t)(k := None)"
  by (auto simp: mem_live_def hm_simps fun_eq_iff)

lemma mem_inv_upd:
  "mem_inv st \<Longrightarrow> mem_inv (st\<lparr>mk_map := hput k e (mk_map st)\<rparr>)"
  "mem_inv st \<Longrightarrow> mem_inv (st\<lparr>mk_map := hdel k (mk_map st)\<rparr>)"
  by (simp_all add: mem_inv_def)

lemma mem_live_None_later: "mem_live st now k = None \<Longrightarrow> now \<le> t \<Longrightarrow> (mem_live st t)(k := None) = mem_live st t"
  by (auto simp: mem_live_def fun_eq_iff split: option.splits if_splits)

lemmas mem_steps = mem_defs memory_kv_def Let_def mem_live_upd mem_inv_upd note_write_inv
  note_write_live mem_live_None_later ttl_view_def fun_eq_iff

interpretation memory: aw_kv memory_kv mem_inv mem_live
proof (unfold_locales, goal_cases)
  case (1 s now k)
  then show ?case
    by (auto simp: mem_steps split: option.splits) (auto simp: mem_live_def split: option.splits)
next
  case (2 s now k v ttl)
  then show ?case by (simp add: mem_steps)
next
  case (3 s now k)
  then show ?case by (simp add: mem_steps)
next
  case (4 s now k v ttl)
  then have "\<not> (case hget (mk_map s) k of Some e \<Rightarrow> now < en_expires_at e | None \<Rightarrow> False)"
    by (simp add: mem_live_def split: option.splits if_splits)
  with 4 show ?case by (simp add: mem_steps)
next
  case (5 s now k w v ttl)
  then have "case hget (mk_map s) k of Some e \<Rightarrow> now < en_expires_at e | None \<Rightarrow> False"
    by (auto simp: mem_live_def split: option.splits if_splits)
  with 5 show ?case by (simp add: mem_steps)
next
  case (6 s now k v ttl)
  then obtain e where "hget (mk_map s) k = Some e" "now < en_expires_at e" "en_bytes e = v"
    by (auto simp: mem_live_def split: option.splits if_splits)
  with 6 show ?case by (simp add: mem_steps)
next
  case (7 s now k v ttl)
  show ?case
  proof (cases "hget (mk_map s) k")
    case None
    with 7 show ?thesis by (simp add: mem_steps)
  next
    case (Some e)
    with 7 have "en_expires_at e \<le> now \<or> en_bytes e \<noteq> v"
      by (auto simp: mem_live_def split: if_splits)
    moreover have "\<And>t. en_expires_at e \<le> now \<Longrightarrow> now \<le> t \<Longrightarrow> mem_live s t k = None"
      using Some by (simp add: mem_live_def)
    ultimately show ?thesis using 7 Some by (auto simp: mem_steps)
  qed
next
  case (8 s now k v)
  then obtain e where "hget (mk_map s) k = Some e" "now < en_expires_at e" "en_bytes e = v"
    by (auto simp: mem_live_def split: option.splits if_splits)
  with 8 show ?case by (simp add: mem_steps)
next
  case (9 s now k v)
  show ?case
  proof (cases "hget (mk_map s) k")
    case None
    with 9 show ?thesis by (simp add: mem_steps)
  next
    case (Some e)
    with 9 have "en_expires_at e \<le> now \<or> en_bytes e \<noteq> v"
      by (auto simp: mem_live_def split: if_splits)
    moreover have "\<And>t. en_expires_at e \<le> now \<Longrightarrow> now \<le> t \<Longrightarrow> mem_live s t k = None"
      using Some by (simp add: mem_live_def)
    ultimately show ?thesis using 9 Some by (auto simp: mem_steps)
  qed
qed

subsection \<open>Counter facts\<close>

lemma length_be_bytes [simp]: "length (be_bytes k n) = k"
  by (induction k arbitrary: n) auto

lemma be_value_append: "be_value (bs @ [b]) = be_value bs * 256 + unat b"
  by (simp add: be_value_def)

lemma be_value_be_bytes: "be_value (be_bytes k n) = n mod 256 ^ k"
proof (induction k arbitrary: n)
  case 0
  show ?case by (simp add: be_value_def)
next
  case (Suc k)
  have "be_value (be_bytes (Suc k) n) = (n div 256) mod 256 ^ k * 256 + n mod 256"
    by (simp add: be_value_append Suc unat_of_nat)
  also have "\<dots> = n mod 256 ^ Suc k"
    using mod_mult2_eq [of n 256 "256 ^ k"] by simp
  finally show ?case .
qed

lemma decode_encode_u64: "n \<le> u64_max \<Longrightarrow> decode_u64 (encode_u64 n) = Inr n"
  by (simp add: decode_u64_def encode_u64_def be_value_be_bytes u64_max_def)

lemma be_value_less: "be_value bs < 256 ^ length bs"
proof (induction bs rule: rev_induct)
  case Nil
  then show ?case by (simp add: be_value_def)
next
  case (snoc b bs)
  have "unat b < 256" by (rule order.strict_trans2 [OF unsigned_less]) simp
  with snoc show ?case by (simp add: be_value_append)
qed

definition mem_counter :: "byte list mem_state \<Rightarrow> nat \<Rightarrow> string \<Rightarrow> nat" where
  "mem_counter st t k =
     (case mem_live st t k of None \<Rightarrow> 0
      | Some bs \<Rightarrow> (case decode_u64 bs of Inl _ \<Rightarrow> 0 | Inr n \<Rightarrow> n))"

lemma mem_incr_by_counter:
  assumes "mem_inv st" and "mem_incr_by now k delta ttl st = (r, st')" and "now \<le> t"
  shows "r = Inr (sat_add64 (mem_counter st now k) delta)"
    and "t < now + ttl \<Longrightarrow> mem_counter st' t k = sat_add64 (mem_counter st now k) delta"
    and "j \<noteq> k \<Longrightarrow> mem_live st' t j = mem_live st t j"
proof -
  let ?n = "sat_add64 (mem_counter st now k) delta"
  let ?st = "st\<lparr>mk_map := hput k \<lparr>en_bytes = encode_u64 ?n, en_expires_at = now + ttl\<rparr> (mk_map st)\<rparr>"
  have "(case hget (mk_map st) k of None \<Rightarrow> 0
      | Some e \<Rightarrow> if now < en_expires_at e
          then (case decode_u64 (en_bytes e) of Inl _ \<Rightarrow> 0 | Inr n \<Rightarrow> n) else 0) = mem_counter st now k"
    by (simp add: mem_counter_def mem_live_def split: option.splits)
  with assms(2) have r: "r = Inr ?n" and st': "st' = note_write now ?st"
    by (simp_all add: mem_incr_by_def with_map_write_def Let_def)
  show "r = Inr ?n" by (rule r)
  have live: "mem_live st' t i = mem_live ?st t i" for i
    unfolding st' by (rule note_write_live) (simp_all add: assms mem_inv_upd)
  show "t < now + ttl \<Longrightarrow> mem_counter st' t k = ?n"
    by (simp add: mem_counter_def live mem_live_upd decode_encode_u64 sat_add64_le)
  show "j \<noteq> k \<Longrightarrow> mem_live st' t j = mem_live st t j"
    by (simp add: live mem_live_upd)
qed

end
