(* ===== verification/Session_Lock.thy ===== *)
theory Session_Lock
  imports Kv
begin

section \<open>The session lock over the key-value interface\<close>

text \<open>
  The lock of \<open>crates/greentic-aw-runtime/src/state_kv.rs\<close>: \<open>acquire_lock\<close> polls \<open>set_nx\<close> with a fresh
  token, \<open>refresh\<close> and \<open>release\<close> compare the token before they touch the key. The operations are over
  any \<open>kv_ops\<close>; the laws they need are those of the locale \<open>aw_kv\<close>, in which the safety of the
  protocol is proved over arbitrary interleavings of tasks and passing time, and then instantiated
  with \<open>MemoryKv\<close>.
\<close>

subsection \<open>Operations\<close>

definition STATE_TTL :: nat where "STATE_TTL = 7 * 24 * 60 * 60 * 1000"
definition LOCK_TTL :: nat where "LOCK_TTL = 90 * 1000"
definition LOCK_POLL :: nat where "LOCK_POLL = 50"

record 'b kv_session_lock =
  sl_key :: string
  sl_token :: 'b
  sl_ttl :: nat

text \<open>
  The polling loop. Iteration \<open>i\<close> reads the clock twice, for \<open>set_nx\<close> (\<open>fst (clock i)\<close>) and for the
  deadline test (\<open>snd (clock i)\<close>); \<open>others i\<close> is what the rest of the process does to the store
  while this task sleeps after iteration \<open>i\<close>. \<open>None\<close> is a loop that has not ended within the fuel.
\<close>

fun acquire_loop ::
  "('s, 'b) kv_ops \<Rightarrow> (nat \<Rightarrow> nat \<times> nat) \<Rightarrow> (nat \<Rightarrow> 's \<Rightarrow> 's) \<Rightarrow> string \<Rightarrow> 'b \<Rightarrow> nat \<Rightarrow> nat \<Rightarrow> nat \<Rightarrow>
     nat \<Rightarrow> nat \<Rightarrow> 's \<Rightarrow> ((state_error + 'b kv_session_lock) \<times> 's) option" where
  "acquire_loop kv clock others key token ttl wait deadline 0 i s = None"
| "acquire_loop kv clock others key token ttl wait deadline (Suc fuel) i s =
     (case kv_set_nx kv (fst (clock i)) key token ttl s of
        (Inl e, s') \<Rightarrow> Some (Inl e, s')
      | (Inr True, s') \<Rightarrow>
          Some (Inr \<lparr>sl_key = key, sl_token = token, sl_ttl = ttl\<rparr>, s')
      | (Inr False, s') \<Rightarrow>
          if deadline \<le> snd (clock i) then Some (Inl (LockTimeout wait), s')
          else acquire_loop kv clock others key token ttl wait deadline fuel (Suc i) (others i s'))"

definition acquire_lock ::
  "('s, 'b) kv_ops \<Rightarrow> (nat \<Rightarrow> nat \<times> nat) \<Rightarrow> (nat \<Rightarrow> 's \<Rightarrow> 's) \<Rightarrow> tenant_context \<Rightarrow> string \<Rightarrow> 'b \<Rightarrow> nat \<Rightarrow>
     nat \<Rightarrow> nat \<Rightarrow> nat \<Rightarrow> 's \<Rightarrow> ((state_error + 'b kv_session_lock) \<times> 's) option" where
  "acquire_lock kv clock others tenant session_id token lock_ttl start wait fuel s =
     acquire_loop kv clock others (lock_key tenant session_id) token lock_ttl wait (start + wait)
       fuel 0 s"

definition lock_refresh ::
  "('s, 'b) kv_ops \<Rightarrow> nat \<Rightarrow> 'b kv_session_lock \<Rightarrow> ('s, state_error, unit) st_res" where
  "lock_refresh kv now l =
     sbind (kv_compare_refresh kv now (sl_key l) (sl_token l) (sl_ttl l)) (\<lambda>ok.
       if ok then sret () else sfail LockLost)"

text \<open>\<open>release\<close> runs a detached \<open>compare_del\<close> and drops its result.\<close>

definition lock_release :: "('s, 'b) kv_ops \<Rightarrow> nat \<Rightarrow> 'b kv_session_lock \<Rightarrow> 's \<Rightarrow> 's" where
  "lock_release kv now l s = snd (kv_compare_del kv now (sl_key l) (sl_token l) s)"

subsection \<open>Tasks competing for one lock\<close>

text \<open>
  \<open>ls_held i = Some x\<close> says that task \<open>i\<close> owns a lock object and may rely on it until \<open>x\<close>. A step is
  one operation of one task, an operation of another client of the store on other keys, or time
  passing.
\<close>

record 's lock_sys =
  ls_store :: 's
  ls_now :: nat
  ls_held :: "nat \<Rightarrow> nat option"

inductive lock_step ::
  "('s, 'b) kv_ops \<Rightarrow> ('s \<Rightarrow> bool) \<Rightarrow> ('s \<Rightarrow> nat \<Rightarrow> string \<Rightarrow> 'b option) \<Rightarrow> string \<Rightarrow> (nat \<Rightarrow> 'b) \<Rightarrow> nat \<Rightarrow>
     's lock_sys \<Rightarrow> 's lock_sys \<Rightarrow> bool"
  for kv invar live key tok ttl where
  tick: "ls_now c \<le> t \<Longrightarrow> lock_step kv invar live key tok ttl c (c\<lparr>ls_now := t\<rparr>)"
| acquired: "kv_set_nx kv (ls_now c) key (tok i) ttl (ls_store c) = (Inr True, s') \<Longrightarrow>
    lock_step kv invar live key tok ttl c
      (c\<lparr>ls_store := s', ls_held := (ls_held c)(i := Some (ls_now c + ttl))\<rparr>)"
| refused: "kv_set_nx kv (ls_now c) key (tok i) ttl (ls_store c) = (Inr False, s') \<Longrightarrow>
    lock_step kv invar live key tok ttl c (c\<lparr>ls_store := s'\<rparr>)"
| refreshed: "ls_held c i = Some x \<Longrightarrow>
    lock_refresh kv (ls_now c) \<lparr>sl_key = key, sl_token = tok i, sl_ttl = ttl\<rparr> (ls_store c) = (Inr (), s') \<Longrightarrow>
    lock_step kv invar live key tok ttl c
      (c\<lparr>ls_store := s', ls_held := (ls_held c)(i := Some (ls_now c + ttl))\<rparr>)"
| lost: "ls_held c i = Some x \<Longrightarrow>
    lock_refresh kv (ls_now c) \<lparr>sl_key = key, sl_token = tok i, sl_ttl = ttl\<rparr> (ls_store c) = (Inl e, s') \<Longrightarrow>
    lock_step kv invar live key tok ttl c (c\<lparr>ls_store := s', ls_held := (ls_held c)(i := None)\<rparr>)"
| released: "ls_held c i = Some x \<Longrightarrow>
    lock_release kv (ls_now c) \<lparr>sl_key = key, sl_token = tok i, sl_ttl = ttl\<rparr> (ls_store c) = s' \<Longrightarrow>
    lock_step kv invar live key tok ttl c (c\<lparr>ls_store := s', ls_held := (ls_held c)(i := None)\<rparr>)"
| elsewhere: "invar s' \<Longrightarrow> (\<forall>t \<ge> ls_now c. live s' t key = live (ls_store c) t key) \<Longrightarrow>
    lock_step kv invar live key tok ttl c (c\<lparr>ls_store := s'\<rparr>)"

definition lock_start :: "'s \<Rightarrow> nat \<Rightarrow> 's lock_sys" where
  "lock_start s now = \<lparr>ls_store = s, ls_now = now, ls_held = (\<lambda>_. None)\<rparr>"

definition lock_inv ::
  "('s \<Rightarrow> bool) \<Rightarrow> ('s \<Rightarrow> nat \<Rightarrow> string \<Rightarrow> 'b option) \<Rightarrow> string \<Rightarrow> (nat \<Rightarrow> 'b) \<Rightarrow> 's lock_sys \<Rightarrow> bool" where
  "lock_inv invar live key tok c \<longleftrightarrow> invar (ls_store c) \<and>
     (\<forall>i x t. ls_held c i = Some x \<longrightarrow> ls_now c \<le> t \<longrightarrow> t < x \<longrightarrow>
        live (ls_store c) t key = Some (tok i))"

context aw_kv begin

lemma lock_refresh_cases:
  assumes "invar s" and "lock_refresh kv now l s = (r, s')"
  shows "(live s now (sl_key l) = Some (sl_token l) \<and> r = Inr () \<and> invar s' \<and>
      (\<forall>t \<ge> now. live s' t = (live s t)(sl_key l := ttl_view now (sl_ttl l) (sl_token l) t))) \<or>
    (live s now (sl_key l) \<noteq> Some (sl_token l) \<and> r = Inl LockLost \<and> invar s' \<and>
      (\<forall>t \<ge> now. live s' t = live s t))"
proof (cases "live s now (sl_key l) = Some (sl_token l)")
  case True
  from compare_refresh_owner [OF assms(1) True, of "sl_ttl l"] assms(2) True show ?thesis
    by (auto simp: lock_refresh_def sbind_def)
next
  case False
  from compare_refresh_other [OF assms(1) False, of "sl_ttl l"] assms(2) False show ?thesis
    by (auto simp: lock_refresh_def sbind_def)
qed

lemma lock_release_cases:
  assumes "invar s"
  shows "invar (lock_release kv now l s) \<and>
    (if live s now (sl_key l) = Some (sl_token l)
     then \<forall>t \<ge> now. live (lock_release kv now l s) t = (live s t)(sl_key l := None)
     else \<forall>t \<ge> now. live (lock_release kv now l s) t = live s t)"
proof (cases "live s now (sl_key l) = Some (sl_token l)")
  case True
  from compare_del_owner [OF assms True] True show ?thesis by (auto simp: lock_release_def)
next
  case False
  from compare_del_other [OF assms False] False show ?thesis by (auto simp: lock_release_def)
qed

lemma set_nx_cases:
  assumes "invar s" and "kv_set_nx kv now k v ttl s = (Inr b, s')"
  shows "invar s' \<and> (if b then live s now k = None \<and>
        (\<forall>t \<ge> now. live s' t = (live s t)(k := ttl_view now ttl v t))
      else (\<exists>w. live s now k = Some w) \<and> (\<forall>t \<ge> now. live s' t = live s t))"
proof (cases "live s now k")
  case None
  from set_nx_free [OF assms(1) None, of v ttl] assms(2) None show ?thesis by auto
next
  case (Some w)
  from set_nx_held [OF assms(1) Some, of v ttl] assms(2) Some show ?thesis by auto
qed

lemma lock_step_inv:
  assumes "lock_step kv invar live key tok ttl c c'" and "inj tok" and "lock_inv invar live key tok c"
  shows "lock_inv invar live key tok c' \<and> ls_now c \<le> ls_now c'"
  using assms(1,3)
proof cases
  case (tick t)
  with assms(3) show ?thesis by (auto simp: lock_inv_def)
next
  case (acquired i s')
  note S = set_nx_cases [OF _ acquired(2)]
  from assms(3) have invar: "invar (ls_store c)" by (simp add: lock_inv_def)
  have "False" if "ls_held c j = Some x" "ls_now c < x" for j x
    using S [OF invar] that assms(3) by (auto simp: lock_inv_def)
  then have "x \<le> ls_now c" if "ls_held c j = Some x" for j x using that not_le by blast
  with S [OF invar] acquired(1) show ?thesis
    by (fastforce simp: lock_inv_def ttl_view_def split: if_splits)
next
  case (refused i s')
  note S = set_nx_cases [OF _ refused(2)]
  with assms(3) refused(1) show ?thesis by (auto simp: lock_inv_def)
next
  case (refreshed i x s')
  from assms(3) have invar: "invar (ls_store c)" by (simp add: lock_inv_def)
  note R = lock_refresh_cases [OF invar refreshed(3)]
  then have own: "live (ls_store c) (ls_now c) key = Some (tok i)" by auto
  have "y \<le> ls_now c" if "ls_held c j = Some y" "j \<noteq> i" for j y
    using that own assms(2,3) by (force simp: lock_inv_def inj_eq not_le [symmetric])
  with R refreshed(1) show ?thesis
    by (fastforce simp: lock_inv_def ttl_view_def split: if_splits)
next
  case (lost i x e s')
  from assms(3) have invar: "invar (ls_store c)" by (simp add: lock_inv_def)
  from lock_refresh_cases [OF invar lost(3)] assms(3) lost(1) show ?thesis
    by (auto simp: lock_inv_def split: if_splits)
next
  case (released i x s')
  from assms(3) have invar: "invar (ls_store c)" by (simp add: lock_inv_def)
  let ?l = "\<lparr>sl_key = key, sl_token = tok i, sl_ttl = ttl\<rparr>"
  note R = lock_release_cases [OF invar, of "ls_now c" ?l]
  have other: "y \<le> ls_now c"
    if "ls_held c j = Some y" "j \<noteq> i" "live (ls_store c) (ls_now c) key = Some (tok i)" for j y
    using that assms(2,3) by (force simp: lock_inv_def inj_eq not_le [symmetric])
  with R released assms(3) show ?thesis
    by (fastforce simp: lock_inv_def split: if_splits)
next
  case (elsewhere s')
  with assms(3) show ?thesis by (auto simp: lock_inv_def)
qed

lemma lock_reach_inv:
  assumes "invar s" and "inj tok"
    and "(lock_step kv invar live key tok ttl)\<^sup>*\<^sup>* (lock_start s now) c"
  shows "lock_inv invar live key tok c"
  using assms(3)
proof (induction rule: rtranclp_induct)
  case base
  with assms(1) show ?case by (simp add: lock_inv_def lock_start_def)
next
  case (step c c')
  then show ?case using lock_step_inv assms(2) by blast
qed

lemma lock_exclusive:
  assumes "invar s" and "inj tok"
    and "(lock_step kv invar live key tok ttl)\<^sup>*\<^sup>* (lock_start s now) c"
    and "ls_held c i = Some x" "ls_now c < x" and "ls_held c j = Some y" "ls_now c < y"
  shows "i = j"
proof -
  have held: "live (ls_store c) (ls_now c) key = Some (tok k)"
    if "ls_held c k = Some z" "ls_now c < z" for k z
    using lock_reach_inv [OF assms(1-3)] that by (auto simp: lock_inv_def)
  from held [OF assms(4,5)] held [OF assms(6,7)] assms(2) show ?thesis by (simp add: inj_eq)
qed

text \<open>The loop ends: every poll sleeps \<open>LOCK_POLL\<close>, so the deadline test fires.\<close>

lemma acquire_loop_total:
  assumes invar: "\<And>i s. invar s \<Longrightarrow> invar (others i s)"
    and clk: "\<And>i. start + i * LOCK_POLL \<le> snd (clock i)"
  shows "invar s \<Longrightarrow> deadline \<le> start + (i + fuel) * LOCK_POLL \<Longrightarrow>
    \<exists>r s'. acquire_loop kv clock others key token ttl wait deadline (Suc fuel) i s = Some (r, s') \<and>
      invar s' \<and> r \<in> {Inr \<lparr>sl_key = key, sl_token = token, sl_ttl = ttl\<rparr>, Inl (LockTimeout wait)}"
proof (induction fuel arbitrary: i s)
  case 0
  have "deadline \<le> snd (clock i)" using 0(2) clk [of i] by simp
  then show ?case
    using set_nx_free [OF 0(1), of "fst (clock i)" key token ttl]
      set_nx_held [OF 0(1), of "fst (clock i)" key _ token ttl]
    by (cases "live s (fst (clock i)) key") auto
next
  case (Suc fuel)
  show ?case
  proof (cases "live s (fst (clock i)) key")
    case None
    from set_nx_free [OF Suc(2) None, of token ttl] show ?thesis by auto
  next
    case (Some w)
    from set_nx_held [OF Suc(2) Some, of token ttl] obtain s' where
      s': "kv_set_nx kv (fst (clock i)) key token ttl s = (Inr False, s')" and "invar s'" by blast
    from invar [OF \<open>invar s'\<close>, of i] Suc.IH [of "others i s'" "Suc i"] Suc(3) s' \<open>invar s'\<close>
    show ?thesis by (auto simp: add.commute add.left_commute)
  qed
qed

end

end
