(* ===== verification/Checkpoint.thy ===== *)
theory Checkpoint
  imports Graph_Router Session_Lock
begin

section \<open>Checkpoint stores\<close>

text \<open>
  \<open>crates/greentic-aw-runtime/src/graph/checkpoint.rs\<close> (the run record, the \<open>CheckpointStore\<close> trait and
  the in-memory store) and \<open>graph/kv_checkpoint.rs\<close> (the store over \<open>AwKv\<close>). The text of a JSON
  document is a \<open>'j\<close>; what \<open>serde_json\<close> does to a record or a value is a parameter of the
  key-value store.

  The locale \<open>checkpoint_store\<close> is what the executor relies on, for one tenant and one run: the record
  it saved is the record it loads, and the ledger of node visits keeps the first result written under
  a key. Both stores are shown to provide it, the second from the laws of \<open>aw_kv\<close> alone and for as
  long as no record outlives its time to live.
\<close>

subsection \<open>Records and the trait\<close>

datatype run_status = Running | AwaitingInput | Succeeded | Failed

record 'j graph_run_record =
  rr_run_id :: string
  rr_graph_json :: 'j
  rr_cursor :: string
  rr_state_json :: 'j
  rr_status :: run_status
  rr_visits_json :: 'j
  rr_frontier_json :: "'j option"

text \<open>
  \<open>CheckpointError\<close>: \<open>Backend\<close> for a forbidden key segment, for an error of the key-value store and for
  a visit that vanished, and \<open>Serde\<close>.
\<close>

datatype checkpoint_error =
    InvalidSegment string string
  | KvBackend state_error
  | VisitVanished
  | Serde

datatype node_visit_outcome = Recorded | Replayed json

record ('s, 'j) cp_ops =
  cp_load :: "tenant_context \<Rightarrow> string \<Rightarrow> ('s, checkpoint_error, 'j graph_run_record option) st_res"
  cp_save :: "tenant_context \<Rightarrow> 'j graph_run_record \<Rightarrow> ('s, checkpoint_error, unit) st_res"
  cp_record_node_visit ::
    "tenant_context \<Rightarrow> string \<Rightarrow> string \<Rightarrow> nat \<Rightarrow> json \<Rightarrow> ('s, checkpoint_error, node_visit_outcome) st_res"
  cp_load_node_visit ::
    "tenant_context \<Rightarrow> string \<Rightarrow> string \<Rightarrow> nat \<Rightarrow> ('s, checkpoint_error, json option) st_res"

definition check_segment :: "string \<Rightarrow> string \<Rightarrow> (checkpoint_error, unit) result" where
  "check_segment name value =
     (if CHR '':'' \<in> set value then Inl (InvalidSegment name value) else Inr ())"

lemma check_segment_simps [simp]:
  "colon_free v \<Longrightarrow> check_segment n v = Inr ()"
  "\<not> colon_free v \<Longrightarrow> check_segment n v = Inl (InvalidSegment n v)"
  by (simp_all add: check_segment_def)

subsection \<open>The in-memory store\<close>

record 'j mem_store =
  ms_runs :: "(string, 'j graph_run_record) hmap"
  ms_visits :: "(string, json) hmap"

definition mem_store_new :: "'j mem_store" where
  "mem_store_new = \<lparr>ms_runs = [], ms_visits = []\<rparr>"

definition ms_load ::
  "tenant_context \<Rightarrow> string \<Rightarrow> ('j mem_store, checkpoint_error, 'j graph_run_record option) st_res" where
  "ms_load t r = (\<lambda>s. (Inr (hget (ms_runs s) (run_key t r)), s))"

definition ms_save ::
  "tenant_context \<Rightarrow> 'j graph_run_record \<Rightarrow> ('j mem_store, checkpoint_error, unit) st_res" where
  "ms_save t rec =
     sbind (sres (check_segment ''run_id'' (rr_run_id rec))) (\<lambda>_ s.
       (Inr (), s\<lparr>ms_runs := hput (run_key t (rr_run_id rec)) rec (ms_runs s)\<rparr>))"

definition ms_record_node_visit ::
  "tenant_context \<Rightarrow> string \<Rightarrow> string \<Rightarrow> nat \<Rightarrow> json \<Rightarrow>
     ('j mem_store, checkpoint_error, node_visit_outcome) st_res" where
  "ms_record_node_visit t r n a v =
     sbind (sres (check_segment ''run_id'' r)) (\<lambda>_.
     sbind (sres (check_segment ''node_id'' n)) (\<lambda>_ s.
       case hget (ms_visits s) (visit_key t r n a) of
         Some w \<Rightarrow> (Inr (Replayed w), s)
       | None \<Rightarrow> (Inr Recorded, s\<lparr>ms_visits := hput (visit_key t r n a) v (ms_visits s)\<rparr>)))"

definition ms_load_node_visit ::
  "tenant_context \<Rightarrow> string \<Rightarrow> string \<Rightarrow> nat \<Rightarrow> ('j mem_store, checkpoint_error, json option) st_res" where
  "ms_load_node_visit t r n a = (\<lambda>s. (Inr (hget (ms_visits s) (visit_key t r n a)), s))"

definition in_memory_store :: "('j mem_store, 'j) cp_ops" where
  "in_memory_store =
     \<lparr>cp_load = ms_load, cp_save = ms_save, cp_record_node_visit = ms_record_node_visit,
      cp_load_node_visit = ms_load_node_visit\<rparr>"

subsection \<open>The store over the key-value interface\<close>

text \<open>
  The state of this store is the key-value state with the clock it reads: \<open>kc_clock\<close> lists the
  instants of the coming operations as a function of \<open>kc_ticks\<close>, the number of readings so far.
\<close>

record 's kv_clocked =
  kc_kv :: 's
  kc_clock :: "nat \<Rightarrow> nat"
  kc_ticks :: nat

definition CHECKPOINT_TTL :: nat where "CHECKPOINT_TTL = 7 * 24 * 60 * 60 * 1000"

definition kv_call ::
  "(nat \<Rightarrow> ('s, state_error, 'a) st_res) \<Rightarrow> ('s kv_clocked, checkpoint_error, 'a) st_res" where
  "kv_call op c =
     (let (r, s') = op (kc_clock c (kc_ticks c)) (kc_kv c) in
      (map_err KvBackend r, c\<lparr>kc_kv := s', kc_ticks := Suc (kc_ticks c)\<rparr>))"

text \<open>\<open>serde_json::to_vec\<close> and \<open>from_slice\<close> on run records and on values.\<close>

record ('j, 'b) cp_codec =
  cc_rec_to :: "'j graph_run_record \<Rightarrow> 'b option"
  cc_rec_from :: "'b \<Rightarrow> 'j graph_run_record option"
  cc_val_to :: "json \<Rightarrow> 'b option"
  cc_val_from :: "'b \<Rightarrow> json option"

definition kc_load ::
  "('s, 'b) kv_ops \<Rightarrow> ('j, 'b) cp_codec \<Rightarrow> tenant_context \<Rightarrow> string \<Rightarrow>
     ('s kv_clocked, checkpoint_error, 'j graph_run_record option) st_res" where
  "kc_load kv cc t r =
     sbind (kv_call (\<lambda>now. kv_get kv now (kv_run_key t r))) (\<lambda>v.
       case v of
         Some bytes \<Rightarrow> sres (rbind (ok_or Serde (cc_rec_from cc bytes)) (\<lambda>rec. Inr (Some rec)))
       | None \<Rightarrow> sret None)"

definition kc_save ::
  "('s, 'b) kv_ops \<Rightarrow> ('j, 'b) cp_codec \<Rightarrow> tenant_context \<Rightarrow> 'j graph_run_record \<Rightarrow>
     ('s kv_clocked, checkpoint_error, unit) st_res" where
  "kc_save kv cc t rec =
     sbind (sres (check_segment ''run_id'' (rr_run_id rec))) (\<lambda>_.
     sbind (sres (ok_or Serde (cc_rec_to cc rec))) (\<lambda>bytes.
       kv_call (\<lambda>now. kv_set_ex kv now (kv_run_key t (rr_run_id rec)) bytes CHECKPOINT_TTL)))"

definition kc_record_node_visit ::
  "('s, 'b) kv_ops \<Rightarrow> ('j, 'b) cp_codec \<Rightarrow> tenant_context \<Rightarrow> string \<Rightarrow> string \<Rightarrow> nat \<Rightarrow> json \<Rightarrow>
     ('s kv_clocked, checkpoint_error, node_visit_outcome) st_res" where
  "kc_record_node_visit kv cc t r n a v =
     sbind (sres (check_segment ''run_id'' r)) (\<lambda>_.
     sbind (sres (check_segment ''node_id'' n)) (\<lambda>_.
     sbind (sres (ok_or Serde (cc_val_to cc v))) (\<lambda>bytes.
     sbind (kv_call (\<lambda>now. kv_set_nx kv now (kv_visit_key t r n a) bytes CHECKPOINT_TTL)) (\<lambda>fresh.
       if fresh then sret Recorded
       else
         sbind (kv_call (\<lambda>now. kv_get kv now (kv_visit_key t r n a))) (\<lambda>existing.
         sbind (sres (ok_or VisitVanished existing)) (\<lambda>raw.
           sres (rbind (ok_or Serde (cc_val_from cc raw)) (\<lambda>w. Inr (Replayed w)))))))))"

definition kc_load_node_visit ::
  "('s, 'b) kv_ops \<Rightarrow> ('j, 'b) cp_codec \<Rightarrow> tenant_context \<Rightarrow> string \<Rightarrow> string \<Rightarrow> nat \<Rightarrow>
     ('s kv_clocked, checkpoint_error, json option) st_res" where
  "kc_load_node_visit kv cc t r n a =
     sbind (kv_call (\<lambda>now. kv_get kv now (kv_visit_key t r n a))) (\<lambda>v.
       case v of
         Some bytes \<Rightarrow> sres (rbind (ok_or Serde (cc_val_from cc bytes)) (\<lambda>w. Inr (Some w)))
       | None \<Rightarrow> sret None)"

definition kv_checkpoint_store ::
  "('s, 'b) kv_ops \<Rightarrow> ('j, 'b) cp_codec \<Rightarrow> ('s kv_clocked, 'j) cp_ops" where
  "kv_checkpoint_store kv cc =
     \<lparr>cp_load = kc_load kv cc, cp_save = kc_save kv cc,
      cp_record_node_visit = kc_record_node_visit kv cc,
      cp_load_node_visit = kc_load_node_visit kv cc\<rparr>"

subsection \<open>The contract\<close>

locale checkpoint_store =
  fixes cp :: "('s, 'j) cp_ops"
    and t :: tenant_context
    and run :: string
    and invar :: "'s \<Rightarrow> bool"
    and saved :: "'s \<Rightarrow> 'j graph_run_record option"
    and ledger :: "'s \<Rightarrow> string \<Rightarrow> nat \<Rightarrow> json option"
  assumes load: "invar s \<Longrightarrow>
      \<exists>s'. cp_load cp t run s = (Inr (saved s), s') \<and> invar s' \<and> saved s' = saved s \<and>
        ledger s' = ledger s"
    and save: "invar s \<Longrightarrow> colon_free run \<Longrightarrow> rr_run_id rec = run \<Longrightarrow>
      \<exists>s'. cp_save cp t rec s = (Inr (), s') \<and> invar s' \<and> saved s' = Some rec \<and> ledger s' = ledger s"
    and load_visit: "invar s \<Longrightarrow>
      \<exists>s'. cp_load_node_visit cp t run n a s = (Inr (ledger s n a), s') \<and> invar s' \<and>
        saved s' = saved s \<and> ledger s' = ledger s"
    and record_fresh: "invar s \<Longrightarrow> colon_free run \<Longrightarrow> colon_free n \<Longrightarrow> ledger s n a = None \<Longrightarrow>
      \<exists>s'. cp_record_node_visit cp t run n a v s = (Inr Recorded, s') \<and> invar s' \<and>
        saved s' = saved s \<and>
        (\<forall>m b. ledger s' m b = (if m = n \<and> b = a then Some v else ledger s m b))"
    and record_again: "invar s \<Longrightarrow> colon_free run \<Longrightarrow> colon_free n \<Longrightarrow> ledger s n a = Some w \<Longrightarrow>
      \<exists>s'. cp_record_node_visit cp t run n a v s = (Inr (Replayed w), s') \<and> invar s' \<and>
        saved s' = saved s \<and> ledger s' = ledger s"
    and record_bad: "\<not> (colon_free run \<and> colon_free n) \<Longrightarrow>
      \<exists>e. cp_record_node_visit cp t run n a v s = (Inl e, s)"
    and save_bad: "\<not> colon_free run \<Longrightarrow> rr_run_id rec = run \<Longrightarrow>
      \<exists>e. cp_save cp t rec s = (Inl e, s)"

subsection \<open>The in-memory store provides it\<close>

definition ms_saved :: "tenant_context \<Rightarrow> string \<Rightarrow> 'j mem_store \<Rightarrow> 'j graph_run_record option" where
  "ms_saved t r s = hget (ms_runs s) (run_key t r)"

definition ms_ledger :: "tenant_context \<Rightarrow> string \<Rightarrow> 'j mem_store \<Rightarrow> string \<Rightarrow> nat \<Rightarrow> json option" where
  "ms_ledger t r s n a = hget (ms_visits s) (visit_key t r n a)"

lemmas ms_defs = in_memory_store_def ms_load_def ms_save_def ms_record_node_visit_def
  ms_load_node_visit_def ms_saved_def ms_ledger_def sbind_def

interpretation mem_cp: checkpoint_store in_memory_store t r "\<lambda>_. True" "ms_saved t r" "ms_ledger t r"
proof (unfold_locales, goal_cases)
  case (4 s n a v)
  then show ?case by (auto simp: ms_defs hm_simps visit_key_same_run)
next
  case (6 n a v s)
  then show ?case by (cases "colon_free r") (auto simp: ms_defs)
next
  case (7 rec s)
  then show ?case by (simp add: ms_defs)
qed (auto simp: ms_defs hm_simps fun_eq_iff)

end
