(* ===== verification/Graph_Exec.thy ===== *)
theory Graph_Exec
  imports Checkpoint
begin

section \<open>The durable graph executor\<close>

text \<open>
  \<open>crates/greentic-aw-runtime/src/graph/executor.rs\<close>. A computation of the executor runs over a pair:
  the state of the checkpoint store and the outside world the injected effects run in. The four
  effect closures are functions of a request and that world, so an effect may answer differently each
  time and may leave traces; nothing is assumed about them. Serialisation is a parameter, the codec.
  One definition models each arm of the trunk loop and of the branch loop.

  A parallel region runs its branches as futures joined by \<open>join_all\<close>. One iteration of a branch
  loop is one step of the model, and the order in which the branches take their steps is chosen by
  the outside world: any finite order of slots, after which the branches that are still running are
  driven to their end one after the other.
\<close>

subsection \<open>Requests, results, errors\<close>

record agent_turn_request =
  ar_node_id :: string
  ar_system_prompt :: string
  ar_model :: string
  ar_state :: graph_run_state
  ar_provider :: "string option"
  ar_tools :: "string list"
  ar_agent_ref :: "string option"
  ar_inherit_from :: "string option"

record agent_turn_result =
  at_reply :: string
  at_resolved :: bool

record tool_call_request =
  tr_node_id :: string
  tr_tool_name :: string
  tr_state :: graph_run_state

record supervisor_request =
  sq_node_id :: string
  sq_system_prompt :: string
  sq_model :: string
  sq_routes :: "supervisor_route list"
  sq_state :: graph_run_state
  sq_provider :: "string option"
  sq_agent_ref :: "string option"

record supervisor_result =
  su_branch :: string
  su_raw_reply :: string

record approval_request =
  aq_run_id :: string
  aq_node_id :: string
  aq_tenant :: string
  aq_title :: string
  aq_mode :: string
  aq_risk_threshold :: "64 word option"
  aq_confidence_threshold :: "64 word option"
  aq_deadline_ms :: "nat option"
  aq_state :: graph_run_state

datatype approval_outcome = Awaiting | Decided string

text \<open>\<open>GraphExecError\<close>; \<open>AtNode n a e\<close> is the text "node 'n' attempt a: e" that wraps an effect's error.\<close>

datatype exec_error =
    IterationCap string
  | UnknownNode string
  | UnknownRun string
  | AlreadyCompleted string
  | GraphErr graph_error
  | CheckpointErr checkpoint_error
  | AgentTurn err_msg
  | ToolFailed err_msg
  | SupervisorFailed err_msg
and err_msg = Msg string | AtNode string nat exec_error

record graph_run_outcome =
  go_status :: run_status
  go_reply :: string
  go_trail :: "json list"

definition MAX_NODE_VISITS :: nat where "MAX_NODE_VISITS = 64"

type_synonym visits = "(string, nat) hmap"

text \<open>One branch's slot of the durable frontier (\<open>BranchCursor\<close>).\<close>

datatype 'j branch_cursor =
  BranchCursor (bc_branch: string) (bc_cursor: string) (bc_state_json: 'j) (bc_parked: bool)
    (bc_visits: visits)

text \<open>
  The codec: \<open>serde_json::to_string\<close> and \<open>from_str\<close> on the four kinds of documents a record holds, and
  the \<open>Display\<close> text of a value.
\<close>

record 'j doc_codec =
  dc_cfg_to :: "graph_config \<Rightarrow> 'j option"
  dc_cfg_from :: "'j \<Rightarrow> graph_config option"
  dc_state_to :: "graph_run_state \<Rightarrow> 'j option"
  dc_state_from :: "'j \<Rightarrow> graph_run_state option"
  dc_visits_to :: "visits \<Rightarrow> 'j option"
  dc_visits_from :: "'j \<Rightarrow> visits option"
  dc_frontier_to :: "'j branch_cursor list \<Rightarrow> 'j option"
  dc_frontier_from :: "'j \<Rightarrow> 'j branch_cursor list option"
  dc_text :: "json \<Rightarrow> string"

record ('s, 'e, 'j) graph_executor =
  gx_store :: "('s, 'j) cp_ops"
  gx_codec :: "'j doc_codec"
  gx_agent_turn :: "agent_turn_request \<Rightarrow> ('e, exec_error, agent_turn_result) st_res"
  gx_tool :: "tool_call_request \<Rightarrow> ('e, exec_error, json) st_res"
  gx_supervisor :: "supervisor_request \<Rightarrow> ('e, exec_error, supervisor_result) st_res"
  gx_approval :: "approval_request \<Rightarrow> ('e, exec_error, approval_outcome) st_res"
  gx_poll_order :: "'e \<Rightarrow> nat list"

type_synonym ('s, 'e, 'a) exec = "('s \<times> 'e, exec_error, 'a) st_res"

definition on_store :: "('s, checkpoint_error, 'a) st_res \<Rightarrow> ('s, 'e, 'a) exec" where
  "on_store m = (\<lambda>(s, e). let (r, s') = m s in (map_err CheckpointErr r, (s', e)))"

definition on_env :: "('e, exec_error, 'a) st_res \<Rightarrow> ('s, 'e, 'a) exec" where
  "on_env m = (\<lambda>(s, e). let (r, e') = m e in (r, (s, e')))"

definition ser :: "'a option \<Rightarrow> (exec_error, 'a) result" where
  "ser x = ok_or (CheckpointErr Serde) x"

subsection \<open>Values of effect results\<close>

text \<open>
  \<open>serde_json::to_value\<close> and \<open>from_value\<close> on the two derived structs: an object with the fields, read
  back from an object (other fields are ignored) or from an array of the fields in order.
\<close>

definition agent_result_to_value :: "agent_turn_result \<Rightarrow> json" where
  "agent_result_to_value r =
     json_obj [(''reply'', JString (at_reply r)), (''resolved'', JBool (at_resolved r))]"

fun agent_result_from_value :: "json \<Rightarrow> agent_turn_result option" where
  "agent_result_from_value (JObject fs) =
     (case (map_of fs ''reply'', map_of fs ''resolved'') of
        (Some (JString r), Some (JBool b)) \<Rightarrow> Some \<lparr>at_reply = r, at_resolved = b\<rparr>
      | _ \<Rightarrow> None)"
| "agent_result_from_value (JArray [JString r, JBool b]) = Some \<lparr>at_reply = r, at_resolved = b\<rparr>"
| "agent_result_from_value _ = None"

definition supervisor_result_to_value :: "supervisor_result \<Rightarrow> json" where
  "supervisor_result_to_value r =
     json_obj [(''branch'', JString (su_branch r)), (''raw_reply'', JString (su_raw_reply r))]"

fun supervisor_result_from_value :: "json \<Rightarrow> supervisor_result option" where
  "supervisor_result_from_value (JObject fs) =
     (case (map_of fs ''branch'', map_of fs ''raw_reply'') of
        (Some (JString b), Some (JString r)) \<Rightarrow> Some \<lparr>su_branch = b, su_raw_reply = r\<rparr>
      | _ \<Rightarrow> None)"
| "supervisor_result_from_value (JArray [JString b, JString r]) = Some \<lparr>su_branch = b, su_raw_reply = r\<rparr>"
| "supervisor_result_from_value _ = None"

subsection \<open>Records\<close>

definition build_record_with_frontier ::
  "'j doc_codec \<Rightarrow> string \<Rightarrow> 'j \<Rightarrow> string \<Rightarrow> graph_run_state \<Rightarrow> visits \<Rightarrow> run_status \<Rightarrow> 'j option \<Rightarrow>
     (exec_error, 'j graph_run_record) result" where
  "build_record_with_frontier dc run graph_json cursor st vis status frontier =
     rbind (ser (dc_state_to dc st)) (\<lambda>state_json.
     rbind (ser (dc_visits_to dc vis)) (\<lambda>visits_json.
       Inr \<lparr>rr_run_id = run, rr_graph_json = graph_json, rr_cursor = cursor,
            rr_state_json = state_json, rr_status = status, rr_visits_json = visits_json,
            rr_frontier_json = frontier\<rparr>))"

definition build_record ::
  "'j doc_codec \<Rightarrow> string \<Rightarrow> 'j \<Rightarrow> string \<Rightarrow> graph_run_state \<Rightarrow> visits \<Rightarrow> run_status \<Rightarrow>
     (exec_error, 'j graph_run_record) result" where
  "build_record dc run graph_json cursor st vis status =
     build_record_with_frontier dc run graph_json cursor st vis status None"

text \<open>The end of every trunk arm: serialise the graph, build the record, save it.\<close>

definition save_trunk ::
  "('s, 'e, 'j) graph_executor \<Rightarrow> tenant_context \<Rightarrow> string \<Rightarrow> graph_config \<Rightarrow> string \<Rightarrow> graph_run_state \<Rightarrow>
     visits \<Rightarrow> run_status \<Rightarrow> ('s, 'e, unit) exec" where
  "save_trunk x t run cfg cursor st vis status =
     sbind (sres (ser (dc_cfg_to (gx_codec x) cfg))) (\<lambda>graph_json.
     sbind (sres (build_record (gx_codec x) run graph_json cursor st vis status)) (\<lambda>rec.
       on_store (cp_save (gx_store x) t rec)))"

subsection \<open>Load or invoke and record\<close>

definition visit_effect ::
  "('s, 'e, 'j) graph_executor \<Rightarrow> tenant_context \<Rightarrow> string \<Rightarrow> string \<Rightarrow> nat \<Rightarrow> ('s, 'e, json) exec \<Rightarrow>
     ('s, 'e, json \<times> bool) exec" where
  "visit_effect x t run node attempt invoke =
     sbind (on_store (cp_load_node_visit (gx_store x) t run node attempt)) (\<lambda>cached.
       case cached of
         Some v \<Rightarrow> sret (v, True)
       | None \<Rightarrow>
           sbind invoke (\<lambda>value.
           sbind (on_store (cp_record_node_visit (gx_store x) t run node attempt value)) (\<lambda>out.
             case out of Recorded \<Rightarrow> sret (value, False) | Replayed stored \<Rightarrow> sret (stored, True))))"

definition next_attempt :: "visits \<Rightarrow> string \<Rightarrow> nat" where
  "next_attempt vis n = hm_get_or 0 vis n + 1"

text \<open>The closures handed to \<open>visit_effect\<close>: call the effect, put the node and attempt on its error.\<close>

definition at_node ::
  "(err_msg \<Rightarrow> exec_error) \<Rightarrow> string \<Rightarrow> nat \<Rightarrow> ('e, exec_error, 'a) st_res \<Rightarrow> ('a \<Rightarrow> json) \<Rightarrow>
     ('s, 'e, json) exec" where
  "at_node wrap n a m enc = on_env (\<lambda>e. let (r, e') = m e in
     (case r of Inl err \<Rightarrow> Inl (wrap (AtNode n a err)) | Inr v \<Rightarrow> Inr (enc v), e'))"

definition call_agent ::
  "('s, 'e, 'j) graph_executor \<Rightarrow> nat \<Rightarrow> agent_turn_request \<Rightarrow> ('s, 'e, json) exec" where
  "call_agent x attempt req =
     at_node AgentTurn (ar_node_id req) attempt (gx_agent_turn x req) agent_result_to_value"

definition call_tool ::
  "('s, 'e, 'j) graph_executor \<Rightarrow> nat \<Rightarrow> tool_call_request \<Rightarrow> ('s, 'e, json) exec" where
  "call_tool x attempt req = at_node ToolFailed (tr_node_id req) attempt (gx_tool x req) (\<lambda>v. v)"

definition call_supervisor ::
  "('s, 'e, 'j) graph_executor \<Rightarrow> nat \<Rightarrow> supervisor_request \<Rightarrow> ('s, 'e, json) exec" where
  "call_supervisor x attempt req =
     at_node SupervisorFailed (sq_node_id req) attempt (gx_supervisor x req) supervisor_result_to_value"

subsection \<open>State updates of a visit\<close>

definition after_agent :: "agent_turn_result \<Rightarrow> graph_run_state \<Rightarrow> graph_run_state" where
  "after_agent r st =
     (let st1 = push_message RoleAssistant (at_reply r) (st\<lparr>rs_iterations := rs_iterations st + 1\<rparr>)
      in if at_resolved r then st1\<lparr>rs_resolved := True\<rparr> else st1)"

definition trail_entry ::
  "string \<Rightarrow> string \<Rightarrow> nat \<Rightarrow> bool \<Rightarrow> (string \<times> json) list \<Rightarrow> json" where
  "trail_entry node kind attempt replayed extra =
     json_obj ([(''node'', JString node), (''kind'', JString kind), (''attempt'', JInt (int attempt)),
                (''replayed'', JBool replayed)] @ extra)"

text \<open>The edge a supervisor's answer selects: a declared route that has an outgoing edge.\<close>

definition supervisor_target :: "graph \<Rightarrow> string \<Rightarrow> supervisor_route list \<Rightarrow> string \<Rightarrow> string option" where
  "supervisor_target g node routes branch =
     (if \<exists>r \<in> set routes. sr_branch r = branch then branch_target g node branch else None)"

subsection \<open>The trunk loop, one definition per node kind\<close>

record frame =
  fr_cursor :: string
  fr_state :: graph_run_state
  fr_visits :: visits
  fr_trail :: "json list"

datatype step_result = Continue frame | Finish graph_run_outcome

text \<open>Every arm that goes on ends by checkpointing the frame it goes on with.\<close>

definition advance ::
  "('s, 'e, 'j) graph_executor \<Rightarrow> tenant_context \<Rightarrow> string \<Rightarrow> graph_config \<Rightarrow> frame \<Rightarrow>
     ('s, 'e, step_result) exec" where
  "advance x t run cfg fr =
     sbind (save_trunk x t run cfg (fr_cursor fr) (fr_state fr) (fr_visits fr) Running) (\<lambda>_.
       sret (Continue fr))"

definition visit_agent ::
  "('s, 'e, 'j) graph_executor \<Rightarrow> tenant_context \<Rightarrow> string \<Rightarrow> graph_config \<Rightarrow> frame \<Rightarrow>
     string \<Rightarrow> string \<Rightarrow> string list \<Rightarrow> string option \<Rightarrow> string option \<Rightarrow> string option \<Rightarrow>
     ('s, 'e, step_result) exec" where
  "visit_agent x t run cfg fr prompt model tools provider agent_ref inherit_from =
     (let attempt = next_attempt (fr_visits fr) (fr_cursor fr);
          req = \<lparr>ar_node_id = fr_cursor fr, ar_system_prompt = prompt, ar_model = model,
                 ar_state = fr_state fr, ar_provider = provider, ar_tools = tools,
                 ar_agent_ref = agent_ref, ar_inherit_from = inherit_from\<rparr> in
      sbind (visit_effect x t run (fr_cursor fr) attempt (call_agent x attempt req)) (\<lambda>(raw, replayed).
      sbind (sres (ser (agent_result_from_value raw))) (\<lambda>res.
      sbind (sres (map_err GraphErr (next_linear cfg (fr_cursor fr)))) (\<lambda>nxt.
        advance x t run cfg
          \<lparr>fr_cursor = nxt, fr_state = after_agent res (fr_state fr),
           fr_visits = hput (fr_cursor fr) attempt (fr_visits fr),
           fr_trail = fr_trail fr @ [trail_entry (fr_cursor fr) ''agent'' attempt replayed []]\<rparr>))))"

definition visit_tool ::
  "('s, 'e, 'j) graph_executor \<Rightarrow> tenant_context \<Rightarrow> string \<Rightarrow> graph_config \<Rightarrow> frame \<Rightarrow> string \<Rightarrow>
     ('s, 'e, step_result) exec" where
  "visit_tool x t run cfg fr tool_name =
     (let attempt = next_attempt (fr_visits fr) (fr_cursor fr);
          req = \<lparr>tr_node_id = fr_cursor fr, tr_tool_name = tool_name, tr_state = fr_state fr\<rparr> in
      sbind (visit_effect x t run (fr_cursor fr) attempt (call_tool x attempt req)) (\<lambda>(res, replayed).
      sbind (sres (map_err GraphErr (next_linear cfg (fr_cursor fr)))) (\<lambda>nxt.
        advance x t run cfg
          \<lparr>fr_cursor = nxt,
           fr_state = push_message RoleTool (dc_text (gx_codec x) res) (fr_state fr),
           fr_visits = hput (fr_cursor fr) attempt (fr_visits fr),
           fr_trail = fr_trail fr @ [trail_entry (fr_cursor fr) ''tool'' attempt replayed []]\<rparr>)))"

definition visit_router ::
  "('s, 'e, 'j) graph_executor \<Rightarrow> tenant_context \<Rightarrow> string \<Rightarrow> graph_config \<Rightarrow> frame \<Rightarrow>
     ('s, 'e, step_result) exec" where
  "visit_router x t run cfg fr =
     (let attempt = next_attempt (fr_visits fr) (fr_cursor fr) in
      sbind (sres (map_err GraphErr (route (gc_graph cfg) (fr_cursor fr) (fr_state fr)))) (\<lambda>nxt.
        advance x t run cfg
          \<lparr>fr_cursor = nxt, fr_state = fr_state fr,
           fr_visits = hput (fr_cursor fr) attempt (fr_visits fr),
           fr_trail = fr_trail fr @ [trail_entry (fr_cursor fr) ''router'' attempt False []]\<rparr>))"

definition visit_respond ::
  "('s, 'e, 'j) graph_executor \<Rightarrow> tenant_context \<Rightarrow> string \<Rightarrow> graph_config \<Rightarrow> frame \<Rightarrow>
     ('s, 'e, step_result) exec" where
  "visit_respond x t run cfg fr =
     (let attempt = next_attempt (fr_visits fr) (fr_cursor fr) in
      sbind (save_trunk x t run cfg (fr_cursor fr) (fr_state fr)
               (hput (fr_cursor fr) attempt (fr_visits fr)) Succeeded) (\<lambda>_.
        sret (Finish
          \<lparr>go_status = Succeeded, go_reply = last_assistant_message (fr_state fr),
           go_trail = fr_trail fr @ [trail_entry (fr_cursor fr) ''respond'' attempt False []]\<rparr>)))"

definition visit_supervisor ::
  "('s, 'e, 'j) graph_executor \<Rightarrow> tenant_context \<Rightarrow> string \<Rightarrow> graph_config \<Rightarrow> frame \<Rightarrow>
     string \<Rightarrow> string \<Rightarrow> supervisor_route list \<Rightarrow> string option \<Rightarrow> string option \<Rightarrow>
     ('s, 'e, step_result) exec" where
  "visit_supervisor x t run cfg fr prompt model routes provider agent_ref =
     (let attempt = next_attempt (fr_visits fr) (fr_cursor fr);
          req = \<lparr>sq_node_id = fr_cursor fr, sq_system_prompt = prompt, sq_model = model,
                 sq_routes = routes, sq_state = fr_state fr, sq_provider = provider,
                 sq_agent_ref = agent_ref\<rparr> in
      sbind (visit_effect x t run (fr_cursor fr) attempt (call_supervisor x attempt req))
        (\<lambda>(raw, replayed).
      sbind (sres (ser (supervisor_result_from_value raw))) (\<lambda>res.
      sbind (sres (ok_or (GraphErr (Invalid (SupervisorBranchUnknown (fr_cursor fr) (su_branch res))))
                 (supervisor_target (gc_graph cfg) (fr_cursor fr) routes (su_branch res)))) (\<lambda>nxt.
        advance x t run cfg
          \<lparr>fr_cursor = nxt, fr_state = push_message RoleAssistant (su_raw_reply res) (fr_state fr),
           fr_visits = hput (fr_cursor fr) attempt (fr_visits fr),
           fr_trail = fr_trail fr @ [trail_entry (fr_cursor fr) ''supervisor'' attempt replayed
             [(''branch'', JString (su_branch res))]]\<rparr>))))"

text \<open>A join met by the trunk is passed through: no visit is counted and nothing is saved.\<close>

definition visit_join ::
  "graph_config \<Rightarrow> frame \<Rightarrow> ('s, 'e, step_result) exec" where
  "visit_join cfg fr =
     sbind (sres (map_err GraphErr (next_linear cfg (fr_cursor fr)))) (\<lambda>nxt.
       sret (Continue (fr\<lparr>fr_cursor := nxt\<rparr>)))"

definition resolve_decision ::
  "graph_config \<Rightarrow> string \<Rightarrow> string \<Rightarrow> string \<Rightarrow> node_visit_outcome \<Rightarrow>
     (exec_error, string \<times> bool \<times> string) result" where
  "resolve_decision cfg node branch nxt out =
     (case out of
        Recorded \<Rightarrow> Inr (branch, False, nxt)
      | Replayed stored \<Rightarrow>
          rbind (ok_or (GraphErr (Invalid (StoredDecisionMalformed node)))
                   (Option.bind (json_get ''decision'' stored) json_as_str)) (\<lambda>stored_branch.
            if stored_branch = branch then Inr (branch, True, nxt)
            else rbind (ok_or (GraphErr (Invalid (StoredDecisionUnknown node stored_branch)))
                          (branch_target (gc_graph cfg) node stored_branch)) (\<lambda>nxt'.
                   Inr (stored_branch, True, nxt'))))"

definition visit_approval ::
  "('s, 'e, 'j) graph_executor \<Rightarrow> tenant_context \<Rightarrow> string \<Rightarrow> graph_config \<Rightarrow> frame \<Rightarrow>
     string \<Rightarrow> string \<Rightarrow> 64 word option \<Rightarrow> 64 word option \<Rightarrow> nat option \<Rightarrow>
     ('s, 'e, step_result) exec" where
  "visit_approval x t run cfg fr title mode risk confidence deadline =
     (let req = \<lparr>aq_run_id = run, aq_node_id = fr_cursor fr, aq_tenant = tc_tenant_id t,
                 aq_title = title, aq_mode = mode, aq_risk_threshold = risk,
                 aq_confidence_threshold = confidence, aq_deadline_ms = deadline,
                 aq_state = fr_state fr\<rparr> in
      sbind (on_env (gx_approval x req)) (\<lambda>answer.
        case answer of
          Awaiting \<Rightarrow>
            sbind (save_trunk x t run cfg (fr_cursor fr) (fr_state fr) (fr_visits fr) AwaitingInput) (\<lambda>_.
              sret (Finish \<lparr>go_status = AwaitingInput,
                            go_reply = last_assistant_message (fr_state fr),
                            go_trail = fr_trail fr\<rparr>))
        | Decided branch \<Rightarrow>
            sbind (sres (ok_or (GraphErr (Invalid (ApprovalBranchUnknown (fr_cursor fr) branch)))
                     (branch_target (gc_graph cfg) (fr_cursor fr) branch))) (\<lambda>nxt.
            let attempt = next_attempt (fr_visits fr) (fr_cursor fr) in
            sbind (on_store (cp_record_node_visit (gx_store x) t run (fr_cursor fr) attempt
                     (json_obj [(''decision'', JString branch)]))) (\<lambda>out.
            sbind (sres (resolve_decision cfg (fr_cursor fr) branch nxt out)) (\<lambda>(branch', replayed, nxt').
              advance x t run cfg
                \<lparr>fr_cursor = nxt', fr_state = fr_state fr,
                 fr_visits = hput (fr_cursor fr) attempt (fr_visits fr),
                 fr_trail = fr_trail fr @ [trail_entry (fr_cursor fr) ''approval'' attempt replayed
                   [(''branch'', JString branch')]]\<rparr>)))))"

definition find_join_for_parallel :: "graph_config \<Rightarrow> string \<Rightarrow> (exec_error, string) result" where
  "find_join_for_parallel cfg p =
     (case join_loop (gc_graph cfg) {} (rev (map e_to (edges_from (gc_graph cfg) p))) of
        Inr j \<Rightarrow> Inr j
      | Inl (Inl n) \<Rightarrow> Inl (UnknownNode n)
      | Inl (Inr ()) \<Rightarrow> Inl (GraphErr (Invalid (NoReachableJoin p))))"

subsection \<open>Parallel regions\<close>

text \<open>
  The immutable part of \<open>FrontierCheckpoint\<close>, and the state the branches of a region share: the
  frontier and the collected visit counts behind their mutexes, the atomic visit counter, and the
  store with the outside world.
\<close>

record 'j frontier_checkpoint =
  fc_run_id :: string
  fc_graph_json :: 'j
  fc_parallel_node :: string
  fc_trunk_state_json :: 'j
  fc_trunk_visits :: visits

record ('s, 'e, 'j) region =
  rg_frontier :: "'j branch_cursor list"
  rg_branch_visits :: visits
  rg_global :: nat
  rg_world :: "'s \<times> 'e"

definition on_world :: "('s, 'e, 'a) exec \<Rightarrow> (('s, 'e, 'j) region, exec_error, 'a) st_res" where
  "on_world m rg = (let (r, w') = m (rg_world rg) in (r, rg\<lparr>rg_world := w'\<rparr>))"

text \<open>\<open>FrontierCheckpoint::checkpoint\<close>: save the frontier as it is.\<close>

definition fc_checkpoint ::
  "('s, 'e, 'j) graph_executor \<Rightarrow> tenant_context \<Rightarrow> 'j frontier_checkpoint \<Rightarrow>
     (('s, 'e, 'j) region, exec_error, unit) st_res" where
  "fc_checkpoint x t fc rg =
     sbind (sres (ser (dc_frontier_to (gx_codec x) (rg_frontier rg)))) (\<lambda>frontier_json.
     sbind (sres (ser (dc_state_from (gx_codec x) (fc_trunk_state_json fc)))) (\<lambda>trunk_state.
     sbind (sres (build_record_with_frontier (gx_codec x) (fc_run_id fc) (fc_graph_json fc)
              (fc_parallel_node fc) trunk_state (fc_trunk_visits fc) Running (Some frontier_json)))
       (\<lambda>rec. on_world (on_store (cp_save (gx_store x) t rec))))) rg"

text \<open>\<open>FrontierCheckpoint::save_slot\<close>: replace one slot, then the same.\<close>

definition save_slot ::
  "('s, 'e, 'j) graph_executor \<Rightarrow> tenant_context \<Rightarrow> 'j frontier_checkpoint \<Rightarrow> nat \<Rightarrow> 'j branch_cursor \<Rightarrow>
     (('s, 'e, 'j) region, exec_error, unit) st_res" where
  "save_slot x t fc slot bc rg =
     fc_checkpoint x t fc (rg\<lparr>rg_frontier := (rg_frontier rg)[slot := bc]\<rparr>)"

definition record_branch_visits ::
  "visits \<Rightarrow> (('s, 'e, 'j) region, exec_error, unit) st_res" where
  "record_branch_visits vis rg =
     (Inr (), rg\<lparr>rg_branch_visits := hextend (rg_branch_visits rg) vis\<rparr>)"

record branch_outcome =
  bo_branch :: string
  bo_visits :: visits
  bo_trail :: "json list"

text \<open>The local state of one running branch: its slot, its cursor object and its private run state.\<close>

record 'j branch_run =
  br_slot :: nat
  br_branch :: string
  br_cursor :: string
  br_state :: graph_run_state
  br_visits :: visits
  br_trail :: "json list"

text \<open>One node of a branch (the match of \<open>drive_branch\<close>), without the checkpoint that follows it.\<close>

definition branch_agent ::
  "('s, 'e, 'j) graph_executor \<Rightarrow> tenant_context \<Rightarrow> string \<Rightarrow> graph_config \<Rightarrow> 'j branch_run \<Rightarrow>
     string \<Rightarrow> string \<Rightarrow> string list \<Rightarrow> string option \<Rightarrow> string option \<Rightarrow> string option \<Rightarrow>
     ('s, 'e, 'j branch_run) exec" where
  "branch_agent x t run cfg br prompt model tools provider agent_ref inherit_from =
     (let attempt = next_attempt (br_visits br) (br_cursor br);
          req = \<lparr>ar_node_id = br_cursor br, ar_system_prompt = prompt, ar_model = model,
                 ar_state = br_state br, ar_provider = provider, ar_tools = tools,
                 ar_agent_ref = agent_ref, ar_inherit_from = inherit_from\<rparr> in
      sbind (visit_effect x t run (br_cursor br) attempt (call_agent x attempt req)) (\<lambda>(raw, replayed).
      sbind (sres (ser (agent_result_from_value raw))) (\<lambda>res.
      sbind (sres (map_err GraphErr (next_linear cfg (br_cursor br)))) (\<lambda>nxt.
        sret (br\<lparr>br_cursor := nxt, br_state := after_agent res (br_state br),
                 br_visits := hput (br_cursor br) attempt (br_visits br),
                 br_trail := br_trail br @ [trail_entry (br_cursor br) ''agent'' attempt replayed
                   [(''branch'', JString (br_branch br))]]\<rparr>)))))"

definition branch_tool ::
  "('s, 'e, 'j) graph_executor \<Rightarrow> tenant_context \<Rightarrow> string \<Rightarrow> graph_config \<Rightarrow> 'j branch_run \<Rightarrow> string \<Rightarrow>
     ('s, 'e, 'j branch_run) exec" where
  "branch_tool x t run cfg br tool_name =
     (let attempt = next_attempt (br_visits br) (br_cursor br);
          req = \<lparr>tr_node_id = br_cursor br, tr_tool_name = tool_name, tr_state = br_state br\<rparr> in
      sbind (visit_effect x t run (br_cursor br) attempt (call_tool x attempt req)) (\<lambda>(res, replayed).
      sbind (sres (map_err GraphErr (next_linear cfg (br_cursor br)))) (\<lambda>nxt.
        sret (br\<lparr>br_cursor := nxt,
                 br_state := push_message RoleTool (dc_text (gx_codec x) res) (br_state br),
                 br_visits := hput (br_cursor br) attempt (br_visits br),
                 br_trail := br_trail br @ [trail_entry (br_cursor br) ''tool'' attempt replayed
                   [(''branch'', JString (br_branch br))]]\<rparr>))))"

definition branch_router ::
  "graph_config \<Rightarrow> 'j branch_run \<Rightarrow> ('s, 'e, 'j branch_run) exec" where
  "branch_router cfg br =
     (let attempt = next_attempt (br_visits br) (br_cursor br) in
      sbind (sres (map_err GraphErr (route (gc_graph cfg) (br_cursor br) (br_state br)))) (\<lambda>nxt.
        sret (br\<lparr>br_cursor := nxt,
                 br_visits := hput (br_cursor br) attempt (br_visits br),
                 br_trail := br_trail br @ [trail_entry (br_cursor br) ''router'' attempt False
                   [(''branch'', JString (br_branch br))]]\<rparr>)))"

definition branch_supervisor ::
  "('s, 'e, 'j) graph_executor \<Rightarrow> tenant_context \<Rightarrow> string \<Rightarrow> graph_config \<Rightarrow> 'j branch_run \<Rightarrow>
     string \<Rightarrow> string \<Rightarrow> supervisor_route list \<Rightarrow> string option \<Rightarrow> string option \<Rightarrow>
     ('s, 'e, 'j branch_run) exec" where
  "branch_supervisor x t run cfg br prompt model routes provider agent_ref =
     (let attempt = next_attempt (br_visits br) (br_cursor br);
          req = \<lparr>sq_node_id = br_cursor br, sq_system_prompt = prompt, sq_model = model,
                 sq_routes = routes, sq_state = br_state br, sq_provider = provider,
                 sq_agent_ref = agent_ref\<rparr> in
      sbind (visit_effect x t run (br_cursor br) attempt (call_supervisor x attempt req))
        (\<lambda>(raw, replayed).
      sbind (sres (ser (supervisor_result_from_value raw))) (\<lambda>res.
      sbind (sres (ok_or (GraphErr (Invalid (SupervisorBranchUnknown (br_cursor br) (su_branch res))))
                 (supervisor_target (gc_graph cfg) (br_cursor br) routes (su_branch res)))) (\<lambda>nxt.
        sret (br\<lparr>br_cursor := nxt, br_state := push_message RoleAssistant (su_raw_reply res) (br_state br),
                 br_visits := hput (br_cursor br) attempt (br_visits br),
                 br_trail := br_trail br @ [trail_entry (br_cursor br) ''supervisor'' attempt replayed
                   [(''branch'', JString (su_branch res)), (''branch_path'', JString (br_branch br))]]\<rparr>)))))"

definition branch_visit ::
  "('s, 'e, 'j) graph_executor \<Rightarrow> tenant_context \<Rightarrow> string \<Rightarrow> graph_config \<Rightarrow> 'j branch_run \<Rightarrow>
     ('s, 'e, 'j branch_run) exec" where
  "branch_visit x t run cfg br =
     (case node_of (gc_graph cfg) (br_cursor br) of
        None \<Rightarrow> sfail (UnknownNode (br_cursor br))
      | Some nd \<Rightarrow>
          (case nd_kind nd of
             Agent prompt model tools provider agent_ref inherit_from \<Rightarrow>
               branch_agent x t run cfg br prompt model tools provider agent_ref inherit_from
           | Tool tool_name \<Rightarrow> branch_tool x t run cfg br tool_name
           | Router _ \<Rightarrow> branch_router cfg br
           | Supervisor prompt model routes provider agent_ref \<Rightarrow>
               branch_supervisor x t run cfg br prompt model routes provider agent_ref
           | Respond \<Rightarrow> sfail (GraphErr (Invalid (RespondInBranch (br_cursor br) (br_branch br))))
           | Parallel \<Rightarrow>
               sfail (GraphErr (Invalid (UnexpectedInBranch (br_branch br) ''parallel'' (br_cursor br))))
           | Join \<Rightarrow>
               sfail (GraphErr (Invalid (UnexpectedInBranch (br_branch br) ''join'' (br_cursor br))))
           | Approval _ _ _ _ _ \<Rightarrow>
               sfail (GraphErr (Invalid (ApprovalInBranch (br_cursor br) (br_branch br))))))"

text \<open>
  One iteration of \<open>drive_branch\<close>: park at the join, or count the visit against the shared cap, visit
  the node, and persist the slot. \<open>Inl\<close> goes on, \<open>Inr\<close> has parked.
\<close>

definition branch_cursor_of :: "'j branch_run \<Rightarrow> 'j \<Rightarrow> bool \<Rightarrow> 'j branch_cursor" where
  "branch_cursor_of br state_json parked =
     BranchCursor (br_branch br) (br_cursor br) state_json parked (br_visits br)"

definition branch_iter ::
  "('s, 'e, 'j) graph_executor \<Rightarrow> tenant_context \<Rightarrow> string \<Rightarrow> graph_config \<Rightarrow> string \<Rightarrow> 'j frontier_checkpoint \<Rightarrow>
     'j branch_run \<Rightarrow> (('s, 'e, 'j) region, exec_error, 'j branch_run + branch_outcome) st_res" where
  "branch_iter x t run cfg join_id fc br =
     (if br_cursor br = join_id then
        sbind (sres (ser (dc_state_to (gx_codec x) (br_state br)))) (\<lambda>state_json.
        sbind (save_slot x t fc (br_slot br) (branch_cursor_of br state_json True)) (\<lambda>_.
          sret (Inr \<lparr>bo_branch = br_branch br, bo_visits = br_visits br, bo_trail = br_trail br\<rparr>)))
      else (\<lambda>rg.
        let total = rg_global rg + 1; rg1 = rg\<lparr>rg_global := total\<rparr> in
        if MAX_NODE_VISITS < total then (Inl (IterationCap run), rg1)
        else
          sbind (on_world (branch_visit x t run cfg br)) (\<lambda>br'.
          sbind (sres (ser (dc_state_to (gx_codec x) (br_state br')))) (\<lambda>state_json.
          sbind (save_slot x t fc (br_slot br') (branch_cursor_of br' state_json False)) (\<lambda>_.
          sbind (record_branch_visits (br_visits br')) (\<lambda>_.
            sret (Inl br'))))) rg1))"

datatype 'j branch_status = Live "'j branch_run" | Settled "(exec_error, branch_outcome) result"

definition poll ::
  "('s, 'e, 'j) graph_executor \<Rightarrow> tenant_context \<Rightarrow> string \<Rightarrow> graph_config \<Rightarrow> string \<Rightarrow> 'j frontier_checkpoint \<Rightarrow>
     nat \<Rightarrow> 'j branch_status list \<times> ('s, 'e, 'j) region \<Rightarrow>
     'j branch_status list \<times> ('s, 'e, 'j) region" where
  "poll x t run cfg join_id fc i sr =
     (if i < length (fst sr) then
        (case fst sr ! i of
           Settled _ \<Rightarrow> sr
         | Live br \<Rightarrow>
             (case branch_iter x t run cfg join_id fc br (snd sr) of
                (Inl e, rg) \<Rightarrow> ((fst sr)[i := Settled (Inl e)], rg)
              | (Inr (Inl br'), rg) \<Rightarrow> ((fst sr)[i := Live br'], rg)
              | (Inr (Inr out), rg) \<Rightarrow> ((fst sr)[i := Settled (Inr out)], rg)))
      else sr)"

text \<open>
  \<open>join_all\<close>: the interleaving chosen by the outside world, then every branch to its end. A branch
  settles within \<open>MAX_NODE_VISITS + 2\<close> of its own iterations, since each of them but the last counts
  against the cap.
\<close>

definition drain_order :: "nat \<Rightarrow> nat list" where
  "drain_order n = concat (map (\<lambda>i. replicate (MAX_NODE_VISITS + 2) i) [0..<n])"

definition join_all ::
  "('s, 'e, 'j) graph_executor \<Rightarrow> tenant_context \<Rightarrow> string \<Rightarrow> graph_config \<Rightarrow> string \<Rightarrow> 'j frontier_checkpoint \<Rightarrow>
     nat list \<Rightarrow> 'j branch_status list \<times> ('s, 'e, 'j) region \<Rightarrow>
     'j branch_status list \<times> ('s, 'e, 'j) region" where
  "join_all x t run cfg join_id fc order sr =
     fold (poll x t run cfg join_id fc) (order @ drain_order (length (fst sr))) sr"

text \<open>The start of \<open>drive_branch\<close>: read the branch's private state back.\<close>

definition branch_start ::
  "'j doc_codec \<Rightarrow> nat \<Rightarrow> 'j branch_cursor \<Rightarrow> visits \<Rightarrow> 'j branch_status" where
  "branch_start dc slot bc vis =
     (case dc_state_from dc (bc_state_json bc) of
        None \<Rightarrow> Settled (Inl (CheckpointErr Serde))
      | Some st \<Rightarrow> Live \<lparr>br_slot = slot, br_branch = bc_branch bc, br_cursor = bc_cursor bc,
                         br_state = st, br_visits = vis, br_trail = []\<rparr>)"

end
