(* ===== verification/Graph_Drive.thy ===== *)
theory Graph_Drive
  imports Graph_Exec
begin

section \<open>Fan-out, merge and the trunk loop\<close>

text \<open>
  The rest of \<open>executor.rs\<close>: a parallel region from fan-out to the merged trunk, the trunk loop over
  all node kinds with its visit cap, and the two entry points \<open>start\<close> and \<open>resume\<close>.
\<close>

subsection \<open>The merge\<close>

text \<open>\<open>scratchpad.branches.<label>\<close> receives the branch's scratchpad.\<close>

definition merge_scratchpad :: "string \<Rightarrow> json \<Rightarrow> json \<Rightarrow> json" where
  "merge_scratchpad label sp merged =
     (if sp = JNull then merged
      else
        let fs = (case merged of JObject fs \<Rightarrow> fs | _ \<Rightarrow> []) in
        case map_of fs ''branches'' of
          None \<Rightarrow> JObject (bt_insert ''branches'' (JObject (bt_insert label sp [])) fs)
        | Some (JObject bs) \<Rightarrow> JObject (bt_insert ''branches'' (JObject (bt_insert label sp bs)) fs)
        | Some _ \<Rightarrow> JObject fs)"

definition merge_branch ::
  "nat \<Rightarrow> string \<Rightarrow> graph_run_state \<Rightarrow> graph_run_state \<Rightarrow> graph_run_state" where
  "merge_branch snapshot_len label bs ms =
     \<lparr>rs_messages = rs_messages ms @ drop snapshot_len (rs_messages bs),
      rs_resolved = (if rs_resolved bs then True else rs_resolved ms),
      rs_iterations = max (rs_iterations ms) (rs_iterations bs),
      rs_scratchpad = merge_scratchpad label (rs_scratchpad bs) (rs_scratchpad ms)\<rparr>"

fun merge_branches ::
  "'j doc_codec \<Rightarrow> nat \<Rightarrow> 'j branch_cursor list \<Rightarrow> graph_run_state \<Rightarrow> (exec_error, graph_run_state) result" where
  "merge_branches dc snapshot_len [] ms = Inr ms"
| "merge_branches dc snapshot_len (bc # bcs) ms =
     rbind (ser (dc_state_from dc (bc_state_json bc))) (\<lambda>bs.
       merge_branches dc snapshot_len bcs (merge_branch snapshot_len (bc_branch bc) bs ms))"

text \<open>\<open>entry(k).and_modify(max).or_insert(v)\<close> and \<open>entry(k).or_insert(v)\<close>.\<close>

definition entry_max :: "string \<times> nat \<Rightarrow> visits \<Rightarrow> visits" where
  "entry_max kv vis =
     hput (fst kv) (case hget vis (fst kv) of Some e \<Rightarrow> max e (snd kv) | None \<Rightarrow> snd kv) vis"

definition entry_or_insert :: "string \<times> nat \<Rightarrow> visits \<Rightarrow> visits" where
  "entry_or_insert kv vis =
     (case hget vis (fst kv) of Some _ \<Rightarrow> vis | None \<Rightarrow> hput (fst kv) (snd kv) vis)"

definition merge_visits :: "'j branch_cursor list \<Rightarrow> visits \<Rightarrow> visits \<Rightarrow> visits" where
  "merge_visits ordered collected vis =
     fold entry_or_insert collected (fold (\<lambda>bc. fold entry_max (bc_visits bc)) ordered vis)"

subsection \<open>The region\<close>

definition visit_total :: "visits \<Rightarrow> nat" where
  "visit_total vis = sum_list (map snd vis)"

definition global_seed :: "visits \<Rightarrow> 'j branch_cursor list \<Rightarrow> nat" where
  "global_seed trunk frontier =
     sat_add32 (visit_total trunk)
       (sum_list (map (\<lambda>(n, c). c - hm_get_or 0 trunk n) (concat (map bc_visits frontier))))"

text \<open>One future per branch that is not parked, in slot order.\<close>

definition branch_futures ::
  "'j doc_codec \<Rightarrow> visits \<Rightarrow> 'j branch_cursor list \<Rightarrow> 'j branch_status list" where
  "branch_futures dc trunk frontier =
     map (\<lambda>(slot, bc). branch_start dc slot bc (hextend trunk (bc_visits bc)))
       (filter (\<lambda>(slot, bc). \<not> bc_parked bc) (enumerate 0 frontier))"

fun settled :: "'j branch_status \<Rightarrow> (exec_error, branch_outcome) result option" where
  "settled (Settled r) = Some r"
| "settled (Live br) = None"

text \<open>The first error in slot order, the trails of the branches that parked and their visit counts.\<close>

fun collect_result ::
  "(exec_error, branch_outcome) result \<Rightarrow> exec_error option \<times> json list \<times> visits \<Rightarrow>
     exec_error option \<times> json list \<times> visits" where
  "collect_result (Inr out) (err, trail, vis) = (err, trail @ bo_trail out, hextend vis (bo_visits out))"
| "collect_result (Inl e) (err, trail, vis) = (case err of None \<Rightarrow> Some e | Some e' \<Rightarrow> Some e', trail, vis)"

definition collect_results ::
  "visits \<Rightarrow> (exec_error, branch_outcome) result list \<Rightarrow> exec_error option \<times> json list \<times> visits" where
  "collect_results trunk results = fold collect_result results (None, [], trunk)"

text \<open>A breach of the cap is terminal and marks the run failed; any other error leaves it running.\<close>

definition fail_region ::
  "('s, 'e, 'j) graph_executor \<Rightarrow> tenant_context \<Rightarrow> string \<Rightarrow> 'j \<Rightarrow> string \<Rightarrow> graph_run_state \<Rightarrow> visits \<Rightarrow>
     'j branch_cursor list \<Rightarrow> exec_error \<Rightarrow> ('s, 'e, 'a) exec" where
  "fail_region x t run graph_json p st vis last_frontier err =
     (case err of
        IterationCap _ \<Rightarrow>
          sbind (sres (ser (dc_frontier_to (gx_codec x) last_frontier))) (\<lambda>frontier_json.
          sbind (sres (build_record_with_frontier (gx_codec x) run graph_json p st vis Failed
                         (Some frontier_json))) (\<lambda>rec.
          sbind (on_store (cp_save (gx_store x) t rec)) (\<lambda>_. sfail err)))
      | _ \<Rightarrow> sfail err)"

definition merge_region ::
  "('s, 'e, 'j) graph_executor \<Rightarrow> tenant_context \<Rightarrow> string \<Rightarrow> graph_config \<Rightarrow> 'j \<Rightarrow> string \<Rightarrow> graph_run_state \<Rightarrow>
     'j branch_cursor list \<Rightarrow> visits \<Rightarrow> visits \<Rightarrow> json list \<Rightarrow> ('s, 'e, frame) exec" where
  "merge_region x t run cfg graph_json join_id st last_frontier collected merged trail =
     (let ordered = sort_key bc_branch last_frontier in
      sbind (sres (merge_branches (gx_codec x) (length (rs_messages st)) ordered st)) (\<lambda>merged_state.
      let merged_visits = merge_visits ordered collected merged in
      sbind (sres (map_err GraphErr (next_linear cfg join_id))) (\<lambda>nxt.
      sbind (sres (build_record (gx_codec x) run graph_json nxt merged_state merged_visits Running)) (\<lambda>rec.
      sbind (on_store (cp_save (gx_store x) t rec)) (\<lambda>_.
        sret \<lparr>fr_cursor = nxt, fr_state = merged_state, fr_visits = merged_visits,
              fr_trail = trail\<rparr>)))))"

text \<open>
  \<open>drive_frontier\<close> from the coordinator on: persist a fresh frontier, run every branch to its end,
  then propagate the first error or merge.
\<close>

definition run_frontier ::
  "('s, 'e, 'j) graph_executor \<Rightarrow> tenant_context \<Rightarrow> string \<Rightarrow> graph_config \<Rightarrow> string \<Rightarrow> 'j frontier_checkpoint \<Rightarrow>
     ('s, 'e, 'j) region \<Rightarrow> 'j branch_status list \<times> ('s, 'e, 'j) region" where
  "run_frontier x t run cfg join_id fc rg =
     join_all x t run cfg join_id fc (gx_poll_order x (snd (rg_world rg)))
       (branch_futures (gx_codec x) (fc_trunk_visits fc) (rg_frontier rg), rg)"

definition settle_region ::
  "('s, 'e, 'j) graph_executor \<Rightarrow> tenant_context \<Rightarrow> string \<Rightarrow> graph_config \<Rightarrow> string \<Rightarrow> 'j frontier_checkpoint \<Rightarrow>
     graph_run_state \<Rightarrow> 'j branch_status list \<times> ('s, 'e, 'j) region \<Rightarrow>
     (exec_error + frame) \<times> ('s \<times> 'e)" where
  "settle_region x t run cfg join_id fc st sr =
     (let (first_err, trail, merged) =
            collect_results (fc_trunk_visits fc) (List.map_filter settled (fst sr));
          rg = snd sr in
      case first_err of
        Some err \<Rightarrow>
          fail_region x t run (fc_graph_json fc) (fc_parallel_node fc) st (fc_trunk_visits fc)
            (rg_frontier rg) err (rg_world rg)
      | None \<Rightarrow>
          merge_region x t run cfg (fc_graph_json fc) join_id st (rg_frontier rg)
            (rg_branch_visits rg) merged trail (rg_world rg))"

definition open_region ::
  "('s, 'e, 'j) graph_executor \<Rightarrow> tenant_context \<Rightarrow> 'j frontier_checkpoint \<Rightarrow> bool \<Rightarrow>
     (('s, 'e, 'j) region, exec_error, unit) st_res" where
  "open_region x t fc persist_before_driving =
     (if persist_before_driving then fc_checkpoint x t fc else sret ())"

definition region_of :: "visits \<Rightarrow> 'j branch_cursor list \<Rightarrow> 's \<times> 'e \<Rightarrow> ('s, 'e, 'j) region" where
  "region_of vis frontier w =
     \<lparr>rg_frontier = frontier, rg_branch_visits = [], rg_global = global_seed vis frontier,
      rg_world = w\<rparr>"

definition drive_frontier ::
  "('s, 'e, 'j) graph_executor \<Rightarrow> tenant_context \<Rightarrow> string \<Rightarrow> graph_config \<Rightarrow> string \<Rightarrow> string \<Rightarrow> graph_run_state \<Rightarrow>
     visits \<Rightarrow> 'j branch_cursor list \<Rightarrow> bool \<Rightarrow> ('s, 'e, frame) exec" where
  "drive_frontier x t run cfg p join_id st vis frontier persist_before_driving =
     sbind (sres (ser (dc_cfg_to (gx_codec x) cfg))) (\<lambda>graph_json.
     sbind (sres (ser (dc_state_to (gx_codec x) st))) (\<lambda>trunk_json w.
       let fc = \<lparr>fc_run_id = run, fc_graph_json = graph_json, fc_parallel_node = p,
                 fc_trunk_state_json = trunk_json, fc_trunk_visits = vis\<rparr> in
       case open_region x t fc persist_before_driving (region_of vis frontier w) of
         (Inl err, rg) \<Rightarrow> (Inl err, rg_world rg)
       | (Inr _, rg) \<Rightarrow> settle_region x t run cfg join_id fc st (run_frontier x t run cfg join_id fc rg)))"

definition initial_frontier :: "graph \<Rightarrow> string \<Rightarrow> 'j \<Rightarrow> 'j branch_cursor list" where
  "initial_frontier g p state_json =
     map (\<lambda>(branch, target). BranchCursor branch target state_json False [])
       (sort_key fst
         (List.map_filter (\<lambda>e. case e_branch e of Some b \<Rightarrow> Some (b, e_to e) | None \<Rightarrow> None)
           (edges_from g p)))"

definition run_parallel_region ::
  "('s, 'e, 'j) graph_executor \<Rightarrow> tenant_context \<Rightarrow> string \<Rightarrow> graph_config \<Rightarrow> string \<Rightarrow> graph_run_state \<Rightarrow>
     visits \<Rightarrow> ('s, 'e, frame) exec" where
  "run_parallel_region x t run cfg p st vis =
     sbind (sres (find_join_for_parallel cfg p)) (\<lambda>join_id.
     sbind (sres (ser (dc_state_to (gx_codec x) st))) (\<lambda>state_json.
       drive_frontier x t run cfg p join_id st vis (initial_frontier (gc_graph cfg) p state_json) True))"

definition visit_parallel ::
  "('s, 'e, 'j) graph_executor \<Rightarrow> tenant_context \<Rightarrow> string \<Rightarrow> graph_config \<Rightarrow> frame \<Rightarrow>
     ('s, 'e, step_result) exec" where
  "visit_parallel x t run cfg fr =
     sbind (run_parallel_region x t run cfg (fr_cursor fr) (fr_state fr) (fr_visits fr)) (\<lambda>fr'.
       sret (Continue (fr'\<lparr>fr_trail := fr_trail fr @ fr_trail fr'\<rparr>)))"

subsection \<open>The trunk loop\<close>

definition trunk_visit ::
  "('s, 'e, 'j) graph_executor \<Rightarrow> tenant_context \<Rightarrow> string \<Rightarrow> graph_config \<Rightarrow> frame \<Rightarrow>
     ('s, 'e, step_result) exec" where
  "trunk_visit x t run cfg fr =
     (case node_of (gc_graph cfg) (fr_cursor fr) of
        None \<Rightarrow> sfail (UnknownNode (fr_cursor fr))
      | Some nd \<Rightarrow>
          (case nd_kind nd of
             Agent prompt model tools provider agent_ref inherit_from \<Rightarrow>
               visit_agent x t run cfg fr prompt model tools provider agent_ref inherit_from
           | Tool tool_name \<Rightarrow> visit_tool x t run cfg fr tool_name
           | Router _ \<Rightarrow> visit_router x t run cfg fr
           | Respond \<Rightarrow> visit_respond x t run cfg fr
           | Supervisor prompt model routes provider agent_ref \<Rightarrow>
               visit_supervisor x t run cfg fr prompt model routes provider agent_ref
           | Parallel \<Rightarrow> visit_parallel x t run cfg fr
           | Join \<Rightarrow> visit_join cfg fr
           | Approval title mode risk confidence deadline \<Rightarrow>
               visit_approval x t run cfg fr title mode risk confidence deadline))"

text \<open>The loop over the remaining visits; when none remains the run is saved as failed.\<close>

fun drive_loop ::
  "('s, 'e, 'j) graph_executor \<Rightarrow> tenant_context \<Rightarrow> string \<Rightarrow> graph_config \<Rightarrow> nat \<Rightarrow> frame \<Rightarrow>
     ('s, 'e, graph_run_outcome) exec" where
  "drive_loop x t run cfg 0 fr =
     sbind (save_trunk x t run cfg (fr_cursor fr) (fr_state fr) (fr_visits fr) Failed) (\<lambda>_.
       sfail (IterationCap run))"
| "drive_loop x t run cfg (Suc n) fr =
     sbind (trunk_visit x t run cfg fr) (\<lambda>r.
       case r of Continue fr' \<Rightarrow> drive_loop x t run cfg n fr' | Finish out \<Rightarrow> sret out)"

definition drive ::
  "('s, 'e, 'j) graph_executor \<Rightarrow> tenant_context \<Rightarrow> string \<Rightarrow> graph_config \<Rightarrow> string \<Rightarrow> graph_run_state \<Rightarrow>
     visits \<Rightarrow> ('s, 'e, graph_run_outcome) exec" where
  "drive x t run cfg cursor st vis =
     drive_loop x t run cfg MAX_NODE_VISITS
       \<lparr>fr_cursor = cursor, fr_state = st, fr_visits = vis, fr_trail = []\<rparr>"

definition resume_parallel ::
  "('s, 'e, 'j) graph_executor \<Rightarrow> tenant_context \<Rightarrow> string \<Rightarrow> graph_config \<Rightarrow> string \<Rightarrow> graph_run_state \<Rightarrow>
     visits \<Rightarrow> 'j branch_cursor list \<Rightarrow> ('s, 'e, graph_run_outcome) exec" where
  "resume_parallel x t run cfg p st vis frontier =
     sbind (sres (find_join_for_parallel cfg p)) (\<lambda>join_id.
     sbind (drive_frontier x t run cfg p join_id st vis frontier False) (\<lambda>fr.
       drive x t run cfg (fr_cursor fr) (fr_state fr) (fr_visits fr)))"

definition drive_from_record ::
  "('s, 'e, 'j) graph_executor \<Rightarrow> tenant_context \<Rightarrow> string \<Rightarrow> 'j graph_run_record \<Rightarrow>
     ('s, 'e, graph_run_outcome) exec" where
  "drive_from_record x t run rec =
     sbind (sres (map_err GraphErr (from_json (dc_cfg_from (gx_codec x)) (rr_graph_json rec)))) (\<lambda>cfg.
     sbind (sres (ser (dc_state_from (gx_codec x) (rr_state_json rec)))) (\<lambda>st.
     sbind (sres (ser (dc_visits_from (gx_codec x) (rr_visits_json rec)))) (\<lambda>vis.
       case rr_frontier_json rec of
         Some frontier_json \<Rightarrow>
           sbind (sres (ser (dc_frontier_from (gx_codec x) frontier_json))) (\<lambda>frontier.
             resume_parallel x t run cfg (rr_cursor rec) st vis frontier)
       | None \<Rightarrow> drive x t run cfg (rr_cursor rec) st vis)))"

subsection \<open>Entry points\<close>

definition start ::
  "('s, 'e, 'j) graph_executor \<Rightarrow> tenant_context \<Rightarrow> string \<Rightarrow> graph_config \<Rightarrow> string \<Rightarrow>
     ('s, 'e, graph_run_outcome) exec" where
  "start x t run cfg user_text =
     sbind (on_store (cp_load (gx_store x) t run)) (\<lambda>existing.
       case existing of
         Some rec \<Rightarrow>
           (case rr_status rec of
              Running \<Rightarrow> drive_from_record x t run rec
            | AwaitingInput \<Rightarrow> drive_from_record x t run rec
            | Succeeded \<Rightarrow> sfail (AlreadyCompleted run)
            | Failed \<Rightarrow> sfail (AlreadyCompleted run))
       | None \<Rightarrow>
           let st = push_message RoleUser user_text default_run_state; cursor = g_entry (gc_graph cfg) in
           sbind (save_trunk x t run cfg cursor st [] Running) (\<lambda>_.
             drive x t run cfg cursor st []))"

definition resume ::
  "('s, 'e, 'j) graph_executor \<Rightarrow> tenant_context \<Rightarrow> string \<Rightarrow> ('s, 'e, graph_run_outcome) exec" where
  "resume x t run =
     sbind (on_store (cp_load (gx_store x) t run)) (\<lambda>loaded.
     sbind (sres (ok_or (UnknownRun run) loaded)) (\<lambda>rec.
       if rr_status rec = Succeeded \<or> rr_status rec = Failed then
         sbind (sres (ser (dc_state_from (gx_codec x) (rr_state_json rec)))) (\<lambda>st.
           sret \<lparr>go_status = rr_status rec, go_reply = last_assistant_message st,
                 go_trail = rebuild_trail_from_state st\<rparr>)
       else drive_from_record x t run rec))"

end
