(* ===== verification/Triples.thy ===== *)
theory Triples
  imports Prelude
begin

section \<open>Triples for computations with state and errors\<close>

text \<open>
  A triple says where a computation may end: in the first postcondition when it returns a value, in
  the second when it returns an error. The rules follow the combinators of the prelude and are
  collected in \<open>triple_intros\<close>, so that a triple of a composed operation is proved by applying the
  triples of its parts. \<open>keeps\<close> is the case of an invariant of the state, \<open>yields\<close> the case of a
  condition on the answer alone.
\<close>

named_theorems triple_intros

definition triple ::
  "('s \<Rightarrow> bool) \<Rightarrow> ('s, 'e, 'a) st_res \<Rightarrow> ('a \<Rightarrow> 's \<Rightarrow> bool) \<Rightarrow> ('e \<Rightarrow> 's \<Rightarrow> bool) \<Rightarrow> bool" where
  "triple P m Q E \<longleftrightarrow>
     (\<forall>s. P s \<longrightarrow> (case m s of (Inr a, s') \<Rightarrow> Q a s' | (Inl e, s') \<Rightarrow> E e s'))"

abbreviation keeps :: "('s \<Rightarrow> bool) \<Rightarrow> ('s, 'e, 'a) st_res \<Rightarrow> bool" where
  "keeps P m \<equiv> triple P m (\<lambda>_. P) (\<lambda>_. P)"

abbreviation yields :: "('s, 'e, 'a) st_res \<Rightarrow> ('a \<Rightarrow> bool) \<Rightarrow> ('e \<Rightarrow> bool) \<Rightarrow> bool" where
  "yields m Q E \<equiv> triple (\<lambda>_. True) m (\<lambda>a _. Q a) (\<lambda>e _. E e)"

lemma tripleD:
  assumes "triple P m Q E" and "P s"
  shows "m s = (Inr a, s') \<Longrightarrow> Q a s'" and "m s = (Inl e, s') \<Longrightarrow> E e s'"
  using assms unfolding triple_def by fastforce+

lemma keepsD: "keeps P m \<Longrightarrow> P s \<Longrightarrow> P (snd (m s))"
  unfolding triple_def by (cases "m s") (auto split: sum.splits)

lemma tripleI:
  assumes "\<And>s a s'. P s \<Longrightarrow> m s = (Inr a, s') \<Longrightarrow> Q a s'"
    and "\<And>s e s'. P s \<Longrightarrow> m s = (Inl e, s') \<Longrightarrow> E e s'"
  shows "triple P m Q E"
  using assms unfolding triple_def by (auto split: prod.splits sum.splits)

lemma keepsI: "(\<And>s. P s \<Longrightarrow> P (snd (m s))) \<Longrightarrow> keeps P m"
  by (rule tripleI) (metis snd_conv)+

lemma triple_weaken:
  "triple P m Q E \<Longrightarrow> (\<And>s. P' s \<Longrightarrow> P s) \<Longrightarrow> (\<And>a s. Q a s \<Longrightarrow> Q' a s) \<Longrightarrow> (\<And>e s. E e s \<Longrightarrow> E' e s) \<Longrightarrow>
     triple P' m Q' E'"
  unfolding triple_def by (fastforce split: prod.splits sum.splits)

lemma triple_sbind:
  assumes "triple P m R E" and "\<And>a. triple (R a) (f a) Q E"
  shows "triple P (sbind m f) Q E"
  using assms unfolding triple_def sbind_def by (fastforce split: prod.splits sum.splits)

lemma triple_sret: "(\<And>s. P s \<Longrightarrow> Q a s) \<Longrightarrow> triple P (sret a) Q E"
  by (simp add: triple_def)

lemma triple_sfail: "(\<And>s. P s \<Longrightarrow> E e s) \<Longrightarrow> triple P (sfail e) Q E"
  by (simp add: triple_def)

lemma triple_sres:
  "(\<And>a s. r = Inr a \<Longrightarrow> P s \<Longrightarrow> Q a s) \<Longrightarrow> (\<And>e s. r = Inl e \<Longrightarrow> P s \<Longrightarrow> E e s) \<Longrightarrow> triple P (sres r) Q E"
  by (cases r) (simp_all add: triple_def)

lemma keeps_sbind [triple_intros]:
  "keeps P m \<Longrightarrow> (\<And>a. keeps P (f a)) \<Longrightarrow> keeps P (sbind m f)"
  by (rule triple_sbind)

lemma keeps_simple [triple_intros]: "keeps P (sret a)" "keeps P (sfail e)" "keeps P (sres r)"
  by (auto intro: triple_sret triple_sfail triple_sres)

text \<open>\<open>yields_sbind\<close> hands what is known of the first answer to the rest.\<close>

lemma yields_sbind:
  "yields m R E \<Longrightarrow> (\<And>a. R a \<Longrightarrow> yields (f a) Q E) \<Longrightarrow> yields (sbind m f) Q E"
  unfolding triple_def sbind_def by (fastforce split: prod.splits sum.splits)

lemma yieldsD: "yields m Q E \<Longrightarrow> case m s of (Inr a, s') \<Rightarrow> Q a | (Inl e, s') \<Rightarrow> E e"
  by (simp add: triple_def)

lemma yields_sret: "Q a \<Longrightarrow> yields (sret a) Q E"
  by (simp add: triple_def)

lemma yields_sfail: "E e \<Longrightarrow> yields (sfail e) Q E"
  by (simp add: triple_def)

lemma yields_sres: "(\<And>a. r = Inr a \<Longrightarrow> Q a) \<Longrightarrow> (\<And>e. r = Inl e \<Longrightarrow> E e) \<Longrightarrow> yields (sres r) Q E"
  by (rule triple_sres) auto

text \<open>Skip over the part of a computation that keeps the precondition, when only success counts.\<close>

lemma triple_after:
  "keeps P m \<Longrightarrow> (\<And>a. triple P (f a) Q (\<lambda>_ _. True)) \<Longrightarrow> triple P (sbind m f) Q (\<lambda>_ _. True)"
  by (rule triple_sbind [of _ _ "\<lambda>_. P"]) (auto elim: triple_weaken)

lemma triple_after_sres:
  "(\<And>a. r = Inr a \<Longrightarrow> triple P (f a) Q (\<lambda>_ _. True)) \<Longrightarrow> triple P (sbind (sres r) f) Q (\<lambda>_ _. True)"
  by (cases r) (auto intro: tripleI)

lemma triple_sfail_any: "triple P (sfail e) Q (\<lambda>_ _. True)"
  by (rule triple_sfail) simp

end
