(* ===== verification/Graph_Invariant.thy ===== *)
theory Graph_Invariant
  imports Graph_Drive Triples
begin

section \<open>What a run keeps of its store\<close>

text \<open>
  The locale \<open>executor_invariant\<close>: a property of the store that the four store operations keep, each
  for the tenant and the run the executor was called with, is kept by every operation of the executor,
  whatever the effects do, on success and on error.
\<close>

abbreviation on_st :: "('s \<Rightarrow> bool) \<Rightarrow> 's \<times> 'e \<Rightarrow> bool" where
  "on_st P \<equiv> \<lambda>w. P (fst w)"

abbreviation on_rg :: "('s \<Rightarrow> bool) \<Rightarrow> ('s, 'e, 'j) region \<Rightarrow> bool" where
  "on_rg P \<equiv> \<lambda>rg. P (fst (rg_world rg))"

lemma keeps_on_store: "keeps P m \<Longrightarrow> keeps (on_st P) (on_store m)"
proof (rule keepsI)
  fix w
  assume k: "keeps P m" and "P (fst w)"
  from keepsD [OF this] show "P (fst (snd (on_store m w)))"
    by (auto simp: on_store_def split: prod.splits)
qed

lemma keeps_on_env [triple_intros]: "keeps (on_st P) (on_env m)"
  by (rule keepsI) (auto simp: on_env_def split: prod.splits)

lemma keeps_on_world:
  fixes m :: "('s, 'e, 'a) exec"
  assumes k: "keeps (on_st P) m"
  shows "keeps (on_rg P) (on_world m :: (('s, 'e, 'j) region, exec_error, 'a) st_res)"
proof (rule keepsI)
  fix rg :: "('s, 'e, 'j) region"
  assume "P (fst (rg_world rg))"
  with keepsD [OF k, of "rg_world rg"] show "P (fst (rg_world (snd (on_world m rg))))"
    by (auto simp: on_world_def split: prod.splits)
qed

lemma build_record_run_id:
  "build_record_with_frontier dc run g c st vis status fj = Inr rec \<Longrightarrow> rr_run_id rec = run"
  by (auto simp: build_record_with_frontier_def rbind_eq_Inr)

locale executor_invariant =
  fixes x :: "('s, 'e, 'j) graph_executor"
    and t :: tenant_context
    and run :: string
    and P :: "'s \<Rightarrow> bool"
  assumes load_keeps: "keeps P (cp_load (gx_store x) t run)"
    and save_keeps: "rr_run_id rec = run \<Longrightarrow> keeps P (cp_save (gx_store x) t rec)"
    and record_keeps: "keeps P (cp_record_node_visit (gx_store x) t run n a v)"
    and load_visit_keeps: "keeps P (cp_load_node_visit (gx_store x) t run n a)"
begin

lemmas store_keeps [triple_intros] =
  keeps_on_store [OF load_keeps] keeps_on_store [OF record_keeps] keeps_on_store [OF load_visit_keeps]

lemma built_keeps:
  "keeps (on_st P) (sbind (sres (build_record_with_frontier dc run g c st vis status fj)) (\<lambda>rec.
     sbind (on_store (cp_save (gx_store x) t rec)) f))" if "\<And>u. keeps (on_st P) (f u)"
proof (cases "build_record_with_frontier dc run g c st vis status fj")
  case (Inr rec)
  with build_record_run_id [OF Inr] that show ?thesis
    by (auto intro!: triple_intros keeps_on_store save_keeps)
qed (auto intro!: tripleI)

lemma save_trunk_keeps [triple_intros]: "keeps (on_st P) (save_trunk x t run cfg c st vis status)"
proof -
  have *: "(\<lambda>rec. on_store (cp_save (gx_store x) t rec)) = (\<lambda>rec. sbind (on_store (cp_save (gx_store x) t rec)) sret)"
    by (auto simp: fun_eq_iff sbind_def split: prod.splits sum.splits)
  show ?thesis
    unfolding save_trunk_def build_record_def *
    by (intro triple_intros built_keeps)
qed

lemma visit_effect_keeps [triple_intros]:
  "keeps (on_st P) m \<Longrightarrow> keeps (on_st P) (visit_effect x t run n a m)"
  unfolding visit_effect_def
  by (intro triple_intros) (auto split: option.split node_visit_outcome.split intro!: triple_intros)

lemma call_keeps [triple_intros]:
  "keeps (on_st P) (call_agent x a r1)" "keeps (on_st P) (call_tool x a r2)"
  "keeps (on_st P) (call_supervisor x a r3)"
  unfolding call_agent_def call_tool_def call_supervisor_def at_node_def by (intro triple_intros)+

lemma advance_keeps [triple_intros]: "keeps (on_st P) (advance x t run cfg fr)"
  unfolding advance_def by (intro triple_intros)

lemma arms_keep [triple_intros]:
  "keeps (on_st P) (visit_agent x t run cfg fr pr mo tls pv ar ih)"
  "keeps (on_st P) (visit_tool x t run cfg fr tn)"
  "keeps (on_st P) (visit_router x t run cfg fr)"
  "keeps (on_st P) (visit_respond x t run cfg fr)"
  "keeps (on_st P) (visit_supervisor x t run cfg fr pr mo rs pv ar)"
  "keeps (on_st P) (visit_join cfg fr)"
  "keeps (on_st P) (visit_approval x t run cfg fr ti mode ri co de)"
  unfolding visit_agent_def visit_tool_def visit_router_def visit_respond_def visit_supervisor_def
    visit_join_def visit_approval_def Let_def
  by (intro triple_intros; auto split: prod.split approval_outcome.split intro!: triple_intros)+

lemma branch_visit_keeps [triple_intros]: "keeps (on_st P) (branch_visit x t run cfg br)"
  unfolding branch_visit_def branch_agent_def branch_tool_def branch_router_def branch_supervisor_def
    Let_def
  by (auto split: option.split node_kind.split prod.split intro!: triple_intros)

lemma fc_checkpoint_keeps [triple_intros]:
  "fc_run_id fc = run \<Longrightarrow> keeps (on_rg P) (fc_checkpoint x t fc)"
proof (rule keepsI)
  fix rg :: "('s, 'e, 'j) region"
  assume run: "fc_run_id fc = run" and p: "on_rg P rg"
  have "keeps (on_rg P) (on_world (on_store (cp_save (gx_store x) t rec)))" if "rr_run_id rec = run" for rec
    using that by (intro keeps_on_world keeps_on_store save_keeps)
  from keepsD [OF this p] run show "on_rg P (snd (fc_checkpoint x t fc rg))"
    by (cases "dc_frontier_to (gx_codec x) (rg_frontier rg)";
        cases "dc_state_from (gx_codec x) (fc_trunk_state_json fc)")
      (auto simp: fc_checkpoint_def ser_def sbind_def p dest: build_record_run_id split: sum.splits)
qed

lemma save_slot_keeps [triple_intros]:
  "fc_run_id fc = run \<Longrightarrow> keeps (on_rg P) (save_slot x t fc slot bc)"
  by (rule keepsI) (auto simp: save_slot_def intro!: keepsD [OF fc_checkpoint_keeps])

lemma record_branch_visits_keeps [triple_intros]: "keeps (on_rg P) (record_branch_visits vis)"
  by (rule keepsI) (simp add: record_branch_visits_def)

lemma branch_iter_keeps:
  assumes "fc_run_id fc = run"
  shows "keeps (on_rg P) (branch_iter x t run cfg j fc br)"
proof (cases "br_cursor br = j")
  case True
  with assms show ?thesis unfolding branch_iter_def by (auto intro!: triple_intros)
next
  case False
  have *: "keeps (on_rg P)
      (sbind (on_world (branch_visit x t run cfg br)) (\<lambda>br'.
       sbind (sres (ser (dc_state_to (gx_codec x) (br_state br')))) (\<lambda>state_json.
       sbind (save_slot x t fc (br_slot br') (branch_cursor_of br' state_json False)) (\<lambda>_.
       sbind (record_branch_visits (br_visits br')) (\<lambda>_.
         sret (Inl br' :: 'j branch_run + branch_outcome))))))"
    by (intro triple_intros keeps_on_world assms)
  show ?thesis
    unfolding branch_iter_def using False keepsD [OF *]
    by (intro keepsI) (simp add: Let_def)
qed

lemma poll_keeps:
  assumes "fc_run_id fc = run" and "on_rg P (snd sr)"
  shows "on_rg P (snd (poll x t run cfg j fc i sr))"
  using keepsD [OF branch_iter_keeps [OF assms(1)] assms(2)]
  by (auto simp: poll_def assms(2) split: branch_status.splits prod.splits sum.splits)
    (metis snd_conv)+

lemma join_all_keeps:
  assumes "fc_run_id fc = run" and "on_rg P (snd sr)"
  shows "on_rg P (snd (join_all x t run cfg j fc order sr))"
proof -
  have "on_rg P (snd (fold (poll x t run cfg j fc) is sr))" for "is"
    using assms(2) by (induction "is" arbitrary: sr) (simp_all add: poll_keeps [OF assms(1)])
  then show ?thesis by (simp only: join_all_def)
qed

lemma fail_region_keeps [triple_intros]:
  "keeps (on_st P) (fail_region x t run g p st vis fr err)"
  unfolding fail_region_def by (cases err) (auto intro!: triple_intros built_keeps)

lemma merge_region_keeps [triple_intros]:
  "keeps (on_st P) (merge_region x t run cfg g j st fr col mer tr)"
  unfolding merge_region_def Let_def build_record_def by (intro triple_intros built_keeps)

lemma settle_region_keeps: "on_rg P (snd sr) \<Longrightarrow> on_st P (snd (settle_region x t run cfg j fc st sr))"
  using keepsD [OF fail_region_keeps, of "rg_world (snd sr)"]
    keepsD [OF merge_region_keeps, of "rg_world (snd sr)"]
  by (auto simp: settle_region_def Let_def split: prod.split option.split)

lemma drive_frontier_keeps [triple_intros]:
  "keeps (on_st P) (drive_frontier x t run cfg p j st vis frontier b)"
proof -
  have "on_st P (snd (case open_region x t fc b (region_of vis frontier w) of
         (Inl err, rg) \<Rightarrow> (Inl err, rg_world rg)
       | (Inr _, rg) \<Rightarrow> settle_region x t run cfg j fc st (run_frontier x t run cfg j fc rg)))"
    if w: "on_st P w" and fc: "fc_run_id fc = run" for fc w
  proof -
    obtain r rg where r: "open_region x t fc b (region_of vis frontier w) = (r, rg)" by fastforce
    have "on_rg P (region_of vis frontier w)" using w by (simp add: region_of_def)
    with keepsD [OF fc_checkpoint_keeps [OF fc], of "region_of vis frontier w"] r
    have p: "on_rg P rg" by (auto simp: open_region_def split: if_splits)
    then have "on_rg P (snd (run_frontier x t run cfg j fc rg))"
      by (simp add: run_frontier_def join_all_keeps [OF fc])
    with p r settle_region_keeps show ?thesis by (auto split: sum.split)
  qed
  then show ?thesis
    unfolding drive_frontier_def Let_def by (intro triple_intros) (rule keepsI, simp)
qed

lemma region_keeps [triple_intros]:
  "keeps (on_st P) (run_parallel_region x t run cfg p st vis)"
  "keeps (on_st P) (visit_parallel x t run cfg fr)"
  unfolding visit_parallel_def run_parallel_region_def by (intro triple_intros)+

lemma trunk_visit_keeps [triple_intros]: "keeps (on_st P) (trunk_visit x t run cfg fr)"
  unfolding trunk_visit_def by (auto split: option.split node_kind.split intro!: triple_intros)

lemma drive_loop_keeps [triple_intros]: "keeps (on_st P) (drive_loop x t run cfg n fr)"
  by (induction n arbitrary: fr) (auto split: step_result.split intro!: triple_intros)

lemma drive_keeps [triple_intros]:
  "keeps (on_st P) (drive x t run cfg c st vis)"
  "keeps (on_st P) (resume_parallel x t run cfg p st vis frontier)"
  unfolding drive_def resume_parallel_def by (intro triple_intros)+

lemma drive_from_record_keeps [triple_intros]: "keeps (on_st P) (drive_from_record x t run rec)"
  unfolding drive_from_record_def by (auto split: option.split intro!: triple_intros)

lemma start_keeps: "keeps (on_st P) (start x t run cfg txt)"
  unfolding start_def Let_def
  by (intro triple_intros) (auto split: option.split run_status.split intro!: triple_intros)

lemma resume_keeps: "keeps (on_st P) (resume x t run)"
  unfolding resume_def by (auto intro!: triple_intros)

end

end
