(* ===== verification/Graph_Replay.thy ===== *)
theory Graph_Replay
  imports Graph_Invariant
begin

section \<open>Durability and replay\<close>

text \<open>
  What the executor gains from the checkpoint store, proved in the locale \<open>durable_run\<close>: an executor
  whose store meets the contract of \<open>checkpoint_store\<close> for its tenant and run.
\<close>

definition ledger_extends ::
  "(string \<Rightarrow> nat \<Rightarrow> json option) \<Rightarrow> (string \<Rightarrow> nat \<Rightarrow> json option) \<Rightarrow> bool" where
  "ledger_extends l l' \<longleftrightarrow> (\<forall>n a v. l n a = Some v \<longrightarrow> l' n a = Some v)"

lemma ledger_extends_refl [simp]: "ledger_extends l l"
  by (simp add: ledger_extends_def)

lemma ledger_extendsD: "ledger_extends l l' \<Longrightarrow> l n a = Some v \<Longrightarrow> l' n a = Some v"
  by (simp add: ledger_extends_def)

lemma ledger_extends_trans: "ledger_extends l l' \<Longrightarrow> ledger_extends l' l'' \<Longrightarrow> ledger_extends l l''"
  by (simp add: ledger_extends_def)

lemma agent_result_roundtrip [simp]: "agent_result_from_value (agent_result_to_value r) = Some r"
  by (simp add: agent_result_to_value_def json_obj_def)

lemma supervisor_result_roundtrip [simp]:
  "supervisor_result_from_value (supervisor_result_to_value r) = Some r"
  by (simp add: supervisor_result_to_value_def json_obj_def)

text \<open>Two frames that differ at most in the trail they have collected.\<close>

definition same_frame :: "frame \<Rightarrow> frame \<Rightarrow> bool" where
  "same_frame f g \<longleftrightarrow> fr_cursor f = fr_cursor g \<and> fr_state f = fr_state g \<and> fr_visits f = fr_visits g"

fun same_step :: "step_result \<Rightarrow> step_result \<Rightarrow> bool" where
  "same_step (Continue f) (Continue g) \<longleftrightarrow> same_frame f g"
| "same_step (Finish o1) (Finish o2) \<longleftrightarrow> go_status o1 = go_status o2 \<and> go_reply o1 = go_reply o2"
| "same_step _ _ \<longleftrightarrow> False"

lemma same_stepE:
  assumes "same_step r r'"
  obtains f g where "r = Continue f" "r' = Continue g" "same_frame f g"
    | o1 o2 where "r = Finish o1" "r' = Finish o2" "go_status o1 = go_status o2" "go_reply o1 = go_reply o2"
  using assms by (cases "(r, r')" rule: same_step.cases) auto

text \<open>The node kinds whose visit asks nothing of the outside world once it is in the ledger.\<close>

fun sequential_kind :: "node_kind \<Rightarrow> bool" where
  "sequential_kind Parallel = False"
| "sequential_kind (Approval _ _ _ _ _) = False"
| "sequential_kind _ = True"

fun effect_kind :: "node_kind \<Rightarrow> bool" where
  "effect_kind (Agent _ _ _ _ _ _) = True"
| "effect_kind (Tool _) = True"
| "effect_kind (Supervisor _ _ _ _ _) = True"
| "effect_kind _ = False"

text \<open>
  What is asked of the serialiser: a document that was written reads back as what was written.
\<close>

definition codec_roundtrip :: "'j doc_codec \<Rightarrow> bool" where
  "codec_roundtrip dc \<longleftrightarrow>
     (\<forall>v j. dc_cfg_to dc v = Some j \<longrightarrow> dc_cfg_from dc j = Some v) \<and>
     (\<forall>v j. dc_state_to dc v = Some j \<longrightarrow> dc_state_from dc j = Some v) \<and>
     (\<forall>v j. dc_visits_to dc v = Some j \<longrightarrow> dc_visits_from dc j = Some v) \<and>
     (\<forall>v j. dc_frontier_to dc v = Some j \<longrightarrow> dc_frontier_from dc j = Some v)"

text \<open>A record from which the executor reads back this frame of this graph.\<close>

definition is_checkpoint ::
  "'j doc_codec \<Rightarrow> graph_config \<Rightarrow> frame \<Rightarrow> run_status \<Rightarrow> 'j graph_run_record \<Rightarrow> bool" where
  "is_checkpoint dc cfg fr status rec \<longleftrightarrow>
     dc_cfg_from dc (rr_graph_json rec) = Some cfg \<and> rr_cursor rec = fr_cursor fr \<and>
     dc_state_from dc (rr_state_json rec) = Some (fr_state fr) \<and>
     dc_visits_from dc (rr_visits_json rec) = Some (fr_visits fr) \<and>
     rr_frontier_json rec = None \<and> rr_status rec = status"

definition cfg_valid :: "graph_config \<Rightarrow> bool" where
  "cfg_valid cfg \<longleftrightarrow> supported_schema_version (gc_schema_version cfg) \<and>
     validate (gc_graph cfg) (gc_schema_version cfg) = Inr ()"

lemma from_json_valid: "cfg_valid cfg \<Longrightarrow> parse j = Some cfg \<Longrightarrow> from_json parse j = Inr cfg"
  by (simp add: from_json_def cfg_valid_def)

locale durable_run =
  checkpoint_store "gx_store x" t run invar saved ledger
  for x :: "('s, 'e, 'j) graph_executor"
    and t :: tenant_context
    and run :: string
    and invar :: "'s \<Rightarrow> bool"
    and saved :: "'s \<Rightarrow> 'j graph_run_record option"
    and ledger :: "'s \<Rightarrow> string \<Rightarrow> nat \<Rightarrow> json option"

text \<open>The ledger only grows: no operation of the executor takes back or changes a recorded visit.\<close>

sublocale durable_run \<subseteq> grows: executor_invariant x t run
  "\<lambda>s. invar s \<and> ledger_extends (ledger s0) (ledger s)" for s0
proof
  show "keeps (\<lambda>s. invar s \<and> ledger_extends (ledger s0) (ledger s)) (cp_load (gx_store x) t run)"
    using load by (fastforce intro!: keepsI)
  show "keeps (\<lambda>s. invar s \<and> ledger_extends (ledger s0) (ledger s)) (cp_load_node_visit (gx_store x) t run n a)"
    for n a
    using load_visit [of _ n a] by (fastforce intro!: keepsI)
  show "keeps (\<lambda>s. invar s \<and> ledger_extends (ledger s0) (ledger s)) (cp_save (gx_store x) t rec)"
    if "rr_run_id rec = run" for rec
    using save [OF _ _ that] save_bad [OF _ that] by (intro keepsI) (metis snd_conv)
  show "keeps (\<lambda>s. invar s \<and> ledger_extends (ledger s0) (ledger s))
      (cp_record_node_visit (gx_store x) t run n a v)" for n a v
  proof (rule keepsI)
    fix s
    assume s: "invar s \<and> ledger_extends (ledger s0) (ledger s)"
    consider "\<not> (colon_free run \<and> colon_free n)"
      | "colon_free run" "colon_free n" "ledger s n a = None"
      | w where "colon_free run" "colon_free n" "ledger s n a = Some w"
      by (cases "ledger s n a") auto
    then show "invar (snd (cp_record_node_visit (gx_store x) t run n a v s)) \<and>
        ledger_extends (ledger s0) (ledger (snd (cp_record_node_visit (gx_store x) t run n a v s)))"
    proof cases
      case 1
      with record_bad [of n a v s] s show ?thesis by auto
    next
      case 2
      with record_fresh [of s n a v] s show ?thesis
        by (fastforce simp: ledger_extends_def)
    next
      case 3
      with record_again [of s n a w v] s show ?thesis by auto
    qed
  qed
qed

lemma keeps_of_snapshots:
  assumes "\<And>s0. keeps (\<lambda>s. I s \<and> ledger_extends (l s0) (l s)) m"
  shows "keeps I m"
proof (rule keepsI)
  fix s
  assume "I s"
  with keepsD [OF assms [of s], of s] show "I (snd (m s))" by simp
qed

sublocale durable_run \<subseteq> intact: executor_invariant x t run invar
  by (unfold_locales; rule keeps_of_snapshots [of invar ledger])
    (auto intro: grows.load_keeps grows.save_keeps grows.record_keeps grows.load_visit_keeps)

context durable_run
begin

lemma visit_effect_replays:
  assumes "invar s" and "ledger s n a = Some v"
  shows "\<exists>s'. visit_effect x t run n a m (s, e) = (Inr (v, True), (s', e)) \<and> invar s' \<and>
    saved s' = saved s \<and> ledger s' = ledger s"
  using load_visit [OF assms(1), of n a] assms(2)
  by (auto simp: visit_effect_def on_store_def sbind_def)

lemma visit_effect_fresh:
  assumes "invar s" and "colon_free run" and "colon_free n" and "ledger s n a = None"
    and m: "\<And>s'. m (s', e) = (Inr v, (s', e'))"
  shows "\<exists>s'. visit_effect x t run n a m (s, e) = (Inr (v, False), (s', e')) \<and> invar s' \<and>
    saved s' = saved s \<and>
    (\<forall>k b. ledger s' k b = (if k = n \<and> b = a then Some v else ledger s k b))"
proof -
  from load_visit [OF assms(1), of n a] assms(4) obtain s1 where
    s1: "cp_load_node_visit (gx_store x) t run n a s = (Inr None, s1)" "invar s1"
      "saved s1 = saved s" "ledger s1 = ledger s" by auto
  from record_fresh [OF s1(2) assms(2,3), of a v] s1 assms(4) show ?thesis
    by (auto simp: visit_effect_def on_store_def sbind_def m)
qed

lemma visit_effect_error:
  assumes "invar s" and "ledger s n a = None" and m: "\<And>s'. m (s', e) = (Inl err, (s', e'))"
  shows "\<exists>s'. visit_effect x t run n a m (s, e) = (Inl err, (s', e')) \<and> invar s' \<and>
    saved s' = saved s \<and> ledger s' = ledger s"
  using load_visit [OF assms(1), of n a] assms(2)
  by (auto simp: visit_effect_def on_store_def sbind_def m)

text \<open>An effect visit that returned has its result in the ledger, and has not moved the checkpoint.\<close>

lemma visit_effect_ledgered:
  assumes "invar s" and "visit_effect x t run n a (on_env f) (s, e) = (Inr (v, rep), (s', e'))"
  shows "invar s' \<and> ledger s' n a = Some v \<and> saved s' = saved s"
proof (cases "ledger s n a")
  case None
  with load_visit [OF assms(1), of n a] obtain s1 where
    s1: "cp_load_node_visit (gx_store x) t run n a s = (Inr None, s1)" "invar s1"
      "saved s1 = saved s" "ledger s1 n a = None" by auto
  from assms(2) s1(1) obtain u where f: "f e = (Inr u, e')"
    by (auto simp: visit_effect_def on_store_def on_env_def sbind_def split: prod.splits sum.splits
        option.splits node_visit_outcome.splits)
  from assms(2) s1(1) f have ok: "colon_free run \<and> colon_free n"
    using record_bad [of n a u s1]
    by (auto simp: visit_effect_def on_store_def on_env_def sbind_def)
  with record_fresh [of s1 n a u] s1 f assms(2) show ?thesis
    by (auto simp: visit_effect_def on_store_def on_env_def sbind_def)
next
  case (Some w)
  from visit_effect_replays [OF assms(1) this, of "on_env f" e] assms(2) Some show ?thesis by auto
qed

lemma save_trunk_ok:
  assumes "save_trunk x t run cfg c st vis status (s, e) = (Inr u, (s', e'))" and "invar s"
  shows "e' = e \<and> invar s' \<and> ledger s' = ledger s \<and>
    (\<exists>gj sj vj. dc_cfg_to (gx_codec x) cfg = Some gj \<and> dc_state_to (gx_codec x) st = Some sj \<and>
       dc_visits_to (gx_codec x) vis = Some vj \<and>
       saved s' = Some \<lparr>rr_run_id = run, rr_graph_json = gj, rr_cursor = c, rr_state_json = sj,
         rr_status = status, rr_visits_json = vj, rr_frontier_json = None\<rparr>)"
proof -
  from assms(1) obtain gj sj vj where
    j: "dc_cfg_to (gx_codec x) cfg = Some gj" "dc_state_to (gx_codec x) st = Some sj"
      "dc_visits_to (gx_codec x) vis = Some vj"
    by (auto simp: save_trunk_def build_record_def build_record_with_frontier_def ser_def sbind_def
        rbind_eq_Inr split: prod.splits sum.splits)
  let ?rec = "\<lparr>rr_run_id = run, rr_graph_json = gj, rr_cursor = c, rr_state_json = sj,
    rr_status = status, rr_visits_json = vj, rr_frontier_json = None\<rparr>"
  from assms(1) j have sv: "on_store (cp_save (gx_store x) t ?rec) (s, e) = (Inr u, (s', e'))"
    by (simp add: save_trunk_def build_record_def build_record_with_frontier_def ser_def sbind_def)
  then have "colon_free run"
    using save_bad [of ?rec s] by (auto simp: on_store_def split: prod.splits)
  from save [OF assms(2) this, of ?rec] sv j show ?thesis
    by (auto simp: on_store_def)
qed

text \<open>Whether a checkpoint can be written depends on the frame, not on the state of the store.\<close>

lemma save_trunk_again:
  assumes "save_trunk x t run cfg c st vis status (s, e) = (Inr u, (s', e'))" and "invar s" and "invar s2"
  shows "\<exists>s3. save_trunk x t run cfg c st vis status (s2, e2) = (Inr u, (s3, e2)) \<and> invar s3 \<and>
    ledger s3 = ledger s2 \<and> saved s3 = saved s'"
proof -
  from save_trunk_ok [OF assms(1,2)] obtain gj sj vj where
    j: "dc_cfg_to (gx_codec x) cfg = Some gj" "dc_state_to (gx_codec x) st = Some sj"
      "dc_visits_to (gx_codec x) vis = Some vj"
    and sv: "saved s' = Some \<lparr>rr_run_id = run, rr_graph_json = gj, rr_cursor = c, rr_state_json = sj,
         rr_status = status, rr_visits_json = vj, rr_frontier_json = None\<rparr>" by auto
  let ?rec = "\<lparr>rr_run_id = run, rr_graph_json = gj, rr_cursor = c, rr_state_json = sj,
    rr_status = status, rr_visits_json = vj, rr_frontier_json = None\<rparr>"
  from assms(1) j have "on_store (cp_save (gx_store x) t ?rec) (s, e) = (Inr u, (s', e'))"
    by (simp add: save_trunk_def build_record_def build_record_with_frontier_def ser_def sbind_def)
  then have "colon_free run"
    using save_bad [of ?rec s] by (auto simp: on_store_def split: prod.splits)
  from save [OF assms(3) this, of ?rec] j sv show ?thesis
    by (auto simp: save_trunk_def build_record_def build_record_with_frontier_def ser_def sbind_def
        on_store_def)
qed

text \<open>
  A second run of a computation replays the first: started in a store whose ledger holds what the
  first run left, in any world, it succeeds, leaves world and ledger alone, and answers as the first
  did. The rules follow the combinators.
\<close>

definition replays :: "('a \<Rightarrow> 'b \<Rightarrow> bool) \<Rightarrow> ('s, 'e, 'a) exec \<Rightarrow> ('s, 'e, 'b) exec \<Rightarrow> bool" where
  "replays R m m2 \<longleftrightarrow>
     (\<forall>s e a s' e'. invar s \<longrightarrow> m (s, e) = (Inr a, (s', e')) \<longrightarrow>
        invar s' \<and> ledger_extends (ledger s) (ledger s') \<and>
        (\<forall>s2 e2. invar s2 \<longrightarrow> ledger_extends (ledger s') (ledger s2) \<longrightarrow>
           (\<exists>b s3. m2 (s2, e2) = (Inr b, (s3, e2)) \<and> R a b \<and> invar s3 \<and> ledger s3 = ledger s2 \<and>
              (saved s2 = saved s \<longrightarrow> saved s3 = saved s'))))"

lemma replaysD:
  assumes "replays R m m2" and "invar s" and "m (s, e) = (Inr a, (s', e'))"
  shows "invar s'" and "ledger_extends (ledger s) (ledger s')"
    and "invar s2 \<Longrightarrow> ledger_extends (ledger s') (ledger s2) \<Longrightarrow>
      \<exists>b s3. m2 (s2, e2) = (Inr b, (s3, e2)) \<and> R a b \<and> invar s3 \<and> ledger s3 = ledger s2 \<and>
        (saved s2 = saved s \<longrightarrow> saved s3 = saved s')"
  using assms unfolding replays_def by blast+

lemma replays_sbind:
  assumes m: "replays R m m2" and f: "\<And>a b. R a b \<Longrightarrow> replays Q (f a) (f2 b)"
  shows "replays Q (sbind m f) (sbind m2 f2)"
  unfolding replays_def
proof (intro allI impI)
  fix s e a s' e'
  assume s: "invar s" and run1: "sbind m f (s, e) = (Inr a, (s', e'))"
  from run1 obtain b s1 e1 where m1: "m (s, e) = (Inr b, (s1, e1))" and f1: "f b (s1, e1) = (Inr a, (s', e'))"
    by (rule sbind_eq_InrE) (metis prod.exhaust)
  note d1 = replaysD [OF m s m1]
  have some: "\<exists>b2. R b b2" using d1(3) [OF d1(1)] by auto
  then obtain b2 where "R b b2" by blast
  note d2 = replaysD(1,2) [OF f [OF this] d1(1) f1]
  have "\<exists>c s3. sbind m2 f2 (s2, e2) = (Inr c, (s3, e2)) \<and> Q a c \<and> invar s3 \<and> ledger s3 = ledger s2 \<and>
      (saved s2 = saved s \<longrightarrow> saved s3 = saved s')"
    if s2: "invar s2" and ext: "ledger_extends (ledger s') (ledger s2)" for s2 e2
  proof -
    from d1(3) [OF s2 ledger_extends_trans [OF d2(2) ext], of e2] obtain b' s3 where
      r1: "m2 (s2, e2) = (Inr b', (s3, e2))" "R b b'" "invar s3" "ledger s3 = ledger s2"
      "saved s2 = saved s \<longrightarrow> saved s3 = saved s1" by blast
    from replaysD(3) [OF f [OF r1(2)] d1(1) f1 r1(3), of e2] ext r1(4) obtain c s4 where
      r2: "f2 b' (s3, e2) = (Inr c, (s4, e2))" "Q a c" "invar s4" "ledger s4 = ledger s3"
      "saved s3 = saved s1 \<longrightarrow> saved s4 = saved s'" by auto
    from r1 r2 show ?thesis by (auto simp: sbind_def)
  qed
  with d2 d1(2) show "invar s' \<and> ledger_extends (ledger s) (ledger s') \<and>
    (\<forall>s2 e2. invar s2 \<longrightarrow> ledger_extends (ledger s') (ledger s2) \<longrightarrow>
       (\<exists>b s3. sbind m2 f2 (s2, e2) = (Inr b, (s3, e2)) \<and> Q a b \<and> invar s3 \<and> ledger s3 = ledger s2 \<and>
          (saved s2 = saved s \<longrightarrow> saved s3 = saved s')))"
    by (blast intro: ledger_extends_trans)
qed

lemma replays_simple:
  "R a b \<Longrightarrow> replays R (sret a) (sret b)" "replays R (sfail err) m2" "replays (=) (sres r) (sres r)"
  by (auto simp: replays_def)

lemma replays_visit_effect:
  "replays (\<lambda>(v, _) (w, _). v = w) (visit_effect x t run n a (on_env f)) (visit_effect x t run n a m2)"
  unfolding replays_def
proof (intro allI impI)
  fix s e r s' e'
  assume s: "invar s" and run1: "visit_effect x t run n a (on_env f) (s, e) = (Inr r, (s', e'))"
  obtain v rep where r: "r = (v, rep)" by (cases r)
  note led = visit_effect_ledgered [OF s run1 [unfolded r]]
  have "keeps (on_st (\<lambda>s'. invar s' \<and> ledger_extends (ledger s) (ledger s')))
      (visit_effect x t run n a (on_env f))"
    by (intro grows.visit_effect_keeps keeps_on_env)
  from keepsD [OF this, of "(s, e)"] s run1 have ext: "ledger_extends (ledger s) (ledger s')" by simp
  have "\<exists>b s3. visit_effect x t run n a m2 (s2, e2) = (Inr b, (s3, e2)) \<and>
      (case r of (v, _) \<Rightarrow> \<lambda>(w, _). v = w) b \<and> invar s3 \<and> ledger s3 = ledger s2 \<and>
      (saved s2 = saved s \<longrightarrow> saved s3 = saved s')"
    if s2: "invar s2" and e2: "ledger_extends (ledger s') (ledger s2)" for s2 e2
    using visit_effect_replays [OF s2 ledger_extendsD [OF e2], of n a v m2 e2] led r by auto
  with led ext show "invar s' \<and> ledger_extends (ledger s) (ledger s') \<and>
    (\<forall>s2 e2. invar s2 \<longrightarrow> ledger_extends (ledger s') (ledger s2) \<longrightarrow>
       (\<exists>b s3. visit_effect x t run n a m2 (s2, e2) = (Inr b, (s3, e2)) \<and>
          (case r of (v, _) \<Rightarrow> \<lambda>(w, _). v = w) b \<and> invar s3 \<and> ledger s3 = ledger s2 \<and>
          (saved s2 = saved s \<longrightarrow> saved s3 = saved s')))"
    by blast
qed

lemma replays_save_trunk:
  "replays (=) (save_trunk x t run cfg c st vis status) (save_trunk x t run cfg c st vis status)"
  unfolding replays_def
proof (intro allI impI)
  fix s e u s' e'
  assume s: "invar s" and run1: "save_trunk x t run cfg c st vis status (s, e) = (Inr u, (s', e'))"
  show "invar s' \<and> ledger_extends (ledger s) (ledger s') \<and>
    (\<forall>s2 e2. invar s2 \<longrightarrow> ledger_extends (ledger s') (ledger s2) \<longrightarrow>
       (\<exists>b s3. save_trunk x t run cfg c st vis status (s2, e2) = (Inr b, (s3, e2)) \<and> u = b \<and>
          invar s3 \<and> ledger s3 = ledger s2 \<and> (saved s2 = saved s \<longrightarrow> saved s3 = saved s')))"
    using save_trunk_ok [OF run1 s] save_trunk_again [OF run1 s] by auto
qed

lemma replays_advance:
  "same_frame fr fr2 \<Longrightarrow> replays same_step (advance x t run cfg fr) (advance x t run cfg fr2)"
  unfolding advance_def same_frame_def
  by (auto intro!: replays_sbind [OF replays_save_trunk] replays_simple simp: same_frame_def)

lemmas replays_call = replays_visit_effect [of _ _ "\<lambda>e. let (r, e') = m e in
  (case r of Inl err \<Rightarrow> Inl (wrap (AtNode n a err)) | Inr v \<Rightarrow> Inr (enc v), e')" for m wrap n a enc,
  folded at_node_def]

lemma replays_arms:
  assumes "same_frame fr fr2"
  shows "replays same_step (visit_agent x t run cfg fr pr mo tls pv ar ih)
      (visit_agent x t run cfg fr2 pr mo tls pv ar ih)"
    and "replays same_step (visit_tool x t run cfg fr tn) (visit_tool x t run cfg fr2 tn)"
    and "replays same_step (visit_supervisor x t run cfg fr pr mo rs pv ar)
      (visit_supervisor x t run cfg fr2 pr mo rs pv ar)"
    and "replays same_step (visit_router x t run cfg fr) (visit_router x t run cfg fr2)"
    and "replays same_step (visit_respond x t run cfg fr) (visit_respond x t run cfg fr2)"
    and "replays same_step (visit_join cfg fr) (visit_join cfg fr2)"
  using assms unfolding visit_agent_def visit_tool_def visit_supervisor_def visit_router_def
    visit_respond_def visit_join_def call_agent_def call_tool_def call_supervisor_def Let_def
    same_frame_def
  by (auto intro!: replays_sbind [OF replays_call] replays_sbind [OF replays_simple(3)]
      replays_sbind [OF replays_save_trunk] replays_advance replays_simple(1) simp: same_frame_def)

lemma replays_trunk_visit:
  assumes "same_frame fr fr2"
    and "\<And>nd. node_of (gc_graph cfg) (fr_cursor fr) = Some nd \<Longrightarrow> sequential_kind (nd_kind nd)"
  shows "replays same_step (trunk_visit x t run cfg fr) (trunk_visit x t run cfg fr2)"
proof (cases "node_of (gc_graph cfg) (fr_cursor fr)")
  case None
  then show ?thesis by (simp add: trunk_visit_def replays_simple)
next
  case (Some nd)
  with assms have "node_of (gc_graph cfg) (fr_cursor fr2) = Some nd" by (simp add: same_frame_def)
  with Some assms(2) [OF Some] replays_arms [OF assms(1)] show ?thesis
    by (cases "nd_kind nd") (simp_all add: trunk_visit_def)
qed

text \<open>A whole run over such nodes replays: no effect is called again, and the answer is the same.\<close>

lemma replays_drive_loop:
  assumes "list_all (\<lambda>nd. sequential_kind (nd_kind nd)) (g_nodes (gc_graph cfg))"
  shows "same_frame fr fr2 \<Longrightarrow>
    replays (\<lambda>o1 o2. go_status o1 = go_status o2 \<and> go_reply o1 = go_reply o2)
      (drive_loop x t run cfg n fr) (drive_loop x t run cfg n fr2)"
proof (induction n arbitrary: fr fr2)
  case 0
  then show ?case
    by (auto intro!: replays_sbind [OF replays_save_trunk] replays_simple simp: same_frame_def)
next
  case (Suc n)
  have "replays same_step (trunk_visit x t run cfg fr) (trunk_visit x t run cfg fr2)"
    using Suc.prems assms by (intro replays_trunk_visit) (auto simp: list_all_iff dest: node_of_Some)
  then show ?case
    by (auto intro!: replays_sbind elim!: same_stepE simp: Suc.IH replays_simple)
qed

lemma save_trunk_checkpoint:
  assumes "save_trunk x t run cfg (fr_cursor fr) (fr_state fr) (fr_visits fr) status (s, e) = (Inr u, (s', e'))"
    and "invar s" and "codec_roundtrip (gx_codec x)"
  shows "\<exists>rec. saved s' = Some rec \<and> is_checkpoint (gx_codec x) cfg fr status rec"
  using save_trunk_ok [OF assms(1,2)] assms(3)
  by (fastforce simp: is_checkpoint_def codec_roundtrip_def)

text \<open>A resumed run continues with the frame of its checkpoint.\<close>

lemma resume_checkpoint:
  assumes "invar s" and "saved s = Some rec" and "is_checkpoint (gx_codec x) cfg fr status rec"
    and "status = Running \<or> status = AwaitingInput" and "cfg_valid cfg"
  shows "\<exists>s'. resume x t run (s, e) = drive x t run cfg (fr_cursor fr) (fr_state fr) (fr_visits fr) (s', e) \<and>
    invar s' \<and> saved s' = saved s \<and> ledger s' = ledger s"
proof -
  from load [OF assms(1)] assms(2) obtain s' where
    l: "cp_load (gx_store x) t run s = (Inr (Some rec), s')" and s': "invar s'" "saved s' = saved s"
      "ledger s' = ledger s" by auto
  have "on_store (cp_load (gx_store x) t run) (s, e) = (Inr (Some rec), (s', e))"
    by (simp add: on_store_def l)
  then have "resume x t run (s, e) = drive_from_record x t run rec (s', e)"
    using assms(3,4) by (auto simp: resume_def sbind_def is_checkpoint_def)
  also have "drive_from_record x t run rec = drive x t run cfg (fr_cursor fr) (fr_state fr) (fr_visits fr)"
    using assms(3) from_json_valid [OF assms(5), of "dc_cfg_from (gx_codec x)"]
    by (simp add: drive_from_record_def is_checkpoint_def ser_def)
  finally show ?thesis using s' by blast
qed

text \<open>
  What a visit leaves in the store: the checkpoint of the frame it goes on with, or the final or
  parked record of the outcome it ends with.
\<close>

definition step_saved :: "graph_config \<Rightarrow> frame \<Rightarrow> step_result \<Rightarrow> 's \<times> 'e \<Rightarrow> bool" where
  "step_saved cfg fr r w \<longleftrightarrow>
     (\<exists>fr' status rec. saved (fst w) = Some rec \<and> is_checkpoint (gx_codec x) cfg fr' status rec \<and>
        (case r of
           Continue f \<Rightarrow> fr' = f \<and> status = Running
         | Finish out \<Rightarrow> status = go_status out \<and> status \<in> {Succeeded, AwaitingInput} \<and>
             fr_cursor fr' = fr_cursor fr \<and> fr_state fr' = fr_state fr \<and>
             go_reply out = last_assistant_message (fr_state fr) \<and>
             (status = AwaitingInput \<longrightarrow> fr_visits fr' = fr_visits fr)))"

lemma save_trunk_saves:
  assumes "codec_roundtrip (gx_codec x)"
  shows "triple (on_st invar) (save_trunk x t run cfg c st vis status)
    (\<lambda>_ w. \<exists>rec. saved (fst w) = Some rec \<and>
       is_checkpoint (gx_codec x) cfg \<lparr>fr_cursor = c, fr_state = st, fr_visits = vis, fr_trail = tr\<rparr> status rec)
    (\<lambda>_ _. True)"
  using save_trunk_checkpoint [of cfg "\<lparr>fr_cursor = c, fr_state = st, fr_visits = vis, fr_trail = tr\<rparr>"
      status, OF _ _ assms]
  by (intro tripleI) auto

lemma advance_saves:
  assumes "codec_roundtrip (gx_codec x)"
  shows "triple (on_st invar) (advance x t run cfg fr) (step_saved cfg fr0) (\<lambda>_ _. True)"
proof -
  note sv = save_trunk_saves [OF assms, of cfg "fr_cursor fr" "fr_state fr" "fr_visits fr" Running "fr_trail fr"]
  show ?thesis
    unfolding advance_def
    by (rule triple_sbind [OF sv]) (auto simp: step_saved_def is_checkpoint_def intro!: triple_sret)
qed

lemma merge_region_saves:
  assumes "codec_roundtrip (gx_codec x)" and "dc_cfg_to (gx_codec x) cfg = Some g"
  shows "triple (on_st invar) (merge_region x t run cfg g j st fro col mer tr)
    (\<lambda>f. step_saved cfg fr0 (Continue (f\<lparr>fr_trail := tr2\<rparr>))) (\<lambda>_ _. True)"
proof -
  have "triple (on_st invar)
     (sbind (sres (build_record (gx_codec x) run g c st' vis Running)) (\<lambda>rec.
      sbind (on_store (cp_save (gx_store x) t rec)) (\<lambda>_.
        sret \<lparr>fr_cursor = c, fr_state = st', fr_visits = vis, fr_trail = tr\<rparr>)))
     (\<lambda>f. step_saved cfg fr0 (Continue (f\<lparr>fr_trail := tr2\<rparr>))) (\<lambda>_ _. True)" for c st' vis
  proof -
    have eq: "sbind (sres (build_record (gx_codec x) run g c st' vis Running)) (\<lambda>rec.
        sbind (on_store (cp_save (gx_store x) t rec)) (\<lambda>_.
          sret \<lparr>fr_cursor = c, fr_state = st', fr_visits = vis, fr_trail = tr\<rparr>)) =
      sbind (save_trunk x t run cfg c st' vis Running) (\<lambda>_.
        sret \<lparr>fr_cursor = c, fr_state = st', fr_visits = vis, fr_trail = tr\<rparr>)"
      using assms(2)
      by (auto simp: save_trunk_def ser_def sbind_def fun_eq_iff split: prod.splits sum.splits)
    show ?thesis
      unfolding eq
      by (rule triple_sbind [OF save_trunk_saves [OF assms(1)]])
        (auto simp: step_saved_def is_checkpoint_def intro!: triple_sret)
  qed
  then show ?thesis
    unfolding merge_region_def Let_def by (intro triple_after_sres [of "merge_branches _ _ _ _"]
        triple_after_sres [of "map_err _ _"])
qed

lemma fail_region_no_value: "fail_region x t run g p st vis fro err w \<noteq> (Inr a, w')"
  by (auto simp: fail_region_def sbind_def split: exec_error.splits prod.splits sum.splits)

lemma step_saved_trail:
  "step_saved cfg fr (Continue (f\<lparr>fr_trail := a\<rparr>)) w = step_saved cfg fr (Continue (f\<lparr>fr_trail := b\<rparr>)) w"
  by (simp add: step_saved_def is_checkpoint_def)

lemma drive_frontier_saves:
  assumes "codec_roundtrip (gx_codec x)"
  shows "triple (on_st invar) (drive_frontier x t run cfg p j st vis fro b)
    (\<lambda>f. step_saved cfg fr0 (Continue (f\<lparr>fr_trail := tr2\<rparr>))) (\<lambda>_ _. True)"
proof -
  have "triple (on_st invar)
     (\<lambda>w. case open_region x t fc b (region_of vis fro w) of
         (Inl err, rg) \<Rightarrow> (Inl err, rg_world rg)
       | (Inr _, rg) \<Rightarrow> settle_region x t run cfg j fc st (run_frontier x t run cfg j fc rg))
     (\<lambda>f. step_saved cfg fr0 (Continue (f\<lparr>fr_trail := tr2\<rparr>))) (\<lambda>_ _. True)"
    if cfg: "dc_cfg_to (gx_codec x) cfg = Some (fc_graph_json fc)" and fc: "fc_run_id fc = run" for fc
  proof (rule tripleI)
    fix w f w'
    assume w: "on_st invar w"
      and res: "(case open_region x t fc b (region_of vis fro w) of
         (Inl err, rg) \<Rightarrow> (Inl err, rg_world rg)
       | (Inr _, rg) \<Rightarrow> settle_region x t run cfg j fc st (run_frontier x t run cfg j fc rg)) = (Inr f, w')"
    then obtain rg where rg: "open_region x t fc b (region_of vis fro w) = (Inr (), rg)"
      and set: "settle_region x t run cfg j fc st (run_frontier x t run cfg j fc rg) = (Inr f, w')"
      by (auto split: prod.splits sum.splits)
    have "on_rg invar (region_of vis fro w)" using w by (simp add: region_of_def)
    with keepsD [OF intact.fc_checkpoint_keeps [OF fc], of "region_of vis fro w"] rg
    have "on_rg invar rg" by (auto simp: open_region_def split: if_splits)
    then have sr: "on_rg invar (snd (run_frontier x t run cfg j fc rg))"
      by (simp add: run_frontier_def intact.join_all_keeps [OF fc])
    show "step_saved cfg fr0 (Continue (f\<lparr>fr_trail := tr2\<rparr>)) w'"
      using set tripleD(1) [OF merge_region_saves [OF assms cfg] sr]
      by (auto simp: settle_region_def Let_def fail_region_no_value split: prod.splits option.splits)
  qed simp
  then show ?thesis
    unfolding drive_frontier_def Let_def by (intro triple_after_sres) (simp add: ser_def)
qed

lemma parallel_saves:
  assumes "codec_roundtrip (gx_codec x)"
  shows "triple (on_st invar) (visit_parallel x t run cfg fr) (step_saved cfg fr) (\<lambda>_ _. True)"
proof -
  have "triple (on_st invar) (run_parallel_region x t run cfg p st vis)
    (\<lambda>f. step_saved cfg fr (Continue (f\<lparr>fr_trail := fr_trail fr @ fr_trail f\<rparr>))) (\<lambda>_ _. True)" for p st vis
    unfolding run_parallel_region_def
    using drive_frontier_saves [OF assms, where ?fr0.0 = fr and ?tr2.0 = "[]"] step_saved_trail
    by (intro triple_after_sres) (blast intro: triple_weaken)
  then show ?thesis
    unfolding visit_parallel_def by (rule triple_sbind) (auto intro: triple_sret)
qed

lemma respond_saves:
  assumes "codec_roundtrip (gx_codec x)"
  shows "triple (on_st invar) (visit_respond x t run cfg fr) (step_saved cfg fr) (\<lambda>_ _. True)"
  unfolding visit_respond_def Let_def
  by (rule triple_sbind [OF save_trunk_saves [OF assms]])
    (fastforce simp: step_saved_def intro!: triple_sret)

lemma approval_saves:
  assumes "codec_roundtrip (gx_codec x)"
  shows "triple (on_st invar) (visit_approval x t run cfg fr ti mode ri co de) (step_saved cfg fr) (\<lambda>_ _. True)"
proof -
  have park: "triple (on_st invar)
      (sbind (save_trunk x t run cfg (fr_cursor fr) (fr_state fr) (fr_visits fr) AwaitingInput) (\<lambda>_.
         sret (Finish \<lparr>go_status = AwaitingInput, go_reply = last_assistant_message (fr_state fr),
                       go_trail = fr_trail fr\<rparr>)))
      (step_saved cfg fr) (\<lambda>_ _. True)"
    by (rule triple_sbind [OF save_trunk_saves [OF assms]])
      (fastforce simp: step_saved_def intro!: triple_sret)
  show ?thesis
    unfolding visit_approval_def Let_def
    by (rule triple_after) (auto intro!: keeps_on_env park triple_after_sres
        triple_after intact.store_keeps advance_saves assms split: approval_outcome.split)
qed

lemma trunk_visit_saves:
  assumes "codec_roundtrip (gx_codec x)" and "kind_at (gc_graph cfg) (fr_cursor fr) \<noteq> Some Join"
  shows "triple (on_st invar) (trunk_visit x t run cfg fr) (step_saved cfg fr) (\<lambda>_ _. True)"
proof (cases "node_of (gc_graph cfg) (fr_cursor fr)")
  case None
  then show ?thesis by (simp add: trunk_visit_def triple_sfail_any)
next
  case (Some nd)
  with assms(2) have nj: "nd_kind nd \<noteq> Join" by (simp add: kind_at_def)
  have agent: "triple (on_st invar) (visit_agent x t run cfg fr pr mo tls pv ar ih) (step_saved cfg fr) (\<lambda>_ _. True)"
    for pr mo tls pv ar ih
    unfolding visit_agent_def Let_def
    by (rule triple_after) (auto intro!: triple_after_sres advance_saves assms
        intact.visit_effect_keeps intact.call_keeps)
  have tool: "triple (on_st invar) (visit_tool x t run cfg fr tn) (step_saved cfg fr) (\<lambda>_ _. True)" for tn
    unfolding visit_tool_def Let_def
    by (rule triple_after) (auto intro!: triple_after_sres advance_saves assms
        intact.visit_effect_keeps intact.call_keeps)
  have sup: "triple (on_st invar) (visit_supervisor x t run cfg fr pr mo rs pv ar) (step_saved cfg fr) (\<lambda>_ _. True)"
    for pr mo rs pv ar
    unfolding visit_supervisor_def Let_def
    by (rule triple_after) (auto intro!: triple_after_sres advance_saves assms
        intact.visit_effect_keeps intact.call_keeps)
  have router: "triple (on_st invar) (visit_router x t run cfg fr) (step_saved cfg fr) (\<lambda>_ _. True)"
    unfolding visit_router_def Let_def by (intro triple_after_sres advance_saves assms)
  show ?thesis
    using nj by (cases "nd_kind nd") (simp_all add: trunk_visit_def Some agent tool sup router
        parallel_saves respond_saves approval_saves assms)
qed

lemma trunk_visit_checkpointed:
  assumes "codec_roundtrip (gx_codec x)" and "kind_at (gc_graph cfg) (fr_cursor fr) \<noteq> Some Join"
    and "invar s" and "trunk_visit x t run cfg fr (s, e) = (Inr (Continue fr'), (s', e'))"
  shows "\<exists>rec. saved s' = Some rec \<and> is_checkpoint (gx_codec x) cfg fr' Running rec"
  using tripleD(1) [OF trunk_visit_saves [OF assms(1,2)], of "(s, e)" "Continue fr'" "(s', e')"] assms(3,4)
  by (auto simp: step_saved_def)

text \<open>The parked run: the frame is unchanged, and the same question is asked again on resume.\<close>

lemma trunk_visit_parked:
  assumes "codec_roundtrip (gx_codec x)" and "kind_at (gc_graph cfg) (fr_cursor fr) \<noteq> Some Join"
    and "invar s" and "trunk_visit x t run cfg fr (s, e) = (Inr (Finish out), (s', e'))"
  shows "invar s' \<and> (\<exists>rec. saved s' = Some rec \<and> rr_status rec = go_status out \<and>
    go_status out \<in> {Succeeded, AwaitingInput} \<and>
    (go_status out = AwaitingInput \<longrightarrow> is_checkpoint (gx_codec x) cfg fr AwaitingInput rec))"
proof -
  from keepsD [OF intact.trunk_visit_keeps, of "(s, e)" cfg fr] assms(3,4) have i: "invar s'" by simp
  from tripleD(1) [OF trunk_visit_saves [OF assms(1,2)], of "(s, e)" "Finish out" "(s', e')"] assms(3,4)
  obtain fr' rec where "saved s' = Some rec" "is_checkpoint (gx_codec x) cfg fr' (go_status out) rec"
    "go_status out \<in> {Succeeded, AwaitingInput}" "fr_cursor fr' = fr_cursor fr"
    "fr_state fr' = fr_state fr" "go_status out = AwaitingInput \<longrightarrow> fr_visits fr' = fr_visits fr"
    by (auto simp: step_saved_def)
  with i show ?thesis by (auto simp: is_checkpoint_def)
qed

text \<open>
  Crash recovery. A visit takes the run from one checkpoint to the next; the process dies at any point
  in between, so that the store has the old checkpoint and whatever the visit had put in the ledger.
\<close>

lemma crash_recovers:
  assumes codec: "codec_roundtrip (gx_codec x)" and cfg: "cfg_valid cfg"
    and seq: "\<And>nd. node_of (gc_graph cfg) (fr_cursor fr) = Some nd \<Longrightarrow> sequential_kind (nd_kind nd)"
    and s: "invar s" "saved s = Some rec" "is_checkpoint (gx_codec x) cfg fr Running rec"
    and step: "trunk_visit x t run cfg fr (s, e) = (Inr (Continue fr'), (s', e'))"
    and crash: "invar s2" "saved s2 = saved s" "ledger_extends (ledger s') (ledger s2)"
  shows "\<exists>fr'' s3. resume x t run (s2, e2) = drive_loop x t run cfg (MAX_NODE_VISITS - 1) fr'' (s3, e2) \<and>
    same_frame fr' fr'' \<and> invar s3 \<and> saved s3 = saved s' \<and> ledger s3 = ledger s2"
proof -
  from resume_checkpoint [of s2 rec cfg fr Running e2] crash s cfg obtain s2' where
    r: "resume x t run (s2, e2) = drive x t run cfg (fr_cursor fr) (fr_state fr) (fr_visits fr) (s2', e2)"
      "invar s2'" "saved s2' = saved s" "ledger s2' = ledger s2" by auto
  let ?fr = "\<lparr>fr_cursor = fr_cursor fr, fr_state = fr_state fr, fr_visits = fr_visits fr, fr_trail = []\<rparr>"
  have "same_frame fr ?fr" by (simp add: same_frame_def)
  from replaysD(3) [OF replays_trunk_visit [OF this seq] s(1) step r(2), of e2] crash(3) r
  obtain q s3 where q: "trunk_visit x t run cfg ?fr (s2', e2) = (Inr q, (s3, e2))"
    "same_step (Continue fr') q" "invar s3" "ledger s3 = ledger s2" "saved s3 = saved s'" by auto
  from q(2) obtain fr'' where fr'': "q = Continue fr''" "same_frame fr' fr''" by (cases q) auto
  have "drive x t run cfg (fr_cursor fr) (fr_state fr) (fr_visits fr) (s2', e2) =
      drive_loop x t run cfg (MAX_NODE_VISITS - 1) fr'' (s3, e2)"
    using q(1) fr''(1) by (simp add: drive_def MAX_NODE_VISITS_def numeral_eq_Suc sbind_def)
  with r q fr'' show ?thesis by auto
qed

end

end
