(* ===== verification/Graph_Safety.thy ===== *)
theory Graph_Safety
  imports Graph_Drive Triples
begin

section \<open>Validated graphs run without structural errors, and regions settle\<close>

text \<open>
  The validator and the executor meet here: on a graph that passed validation no run ends with an error
  about the shape of the graph, inside and outside of parallel regions, but for one: an approval node in a
  parallel region, which the validator accepts and a branch refuses. And every branch of a region
  settles within the iterations \<open>join_all\<close> gives it.
\<close>

subsection \<open>Branches settle\<close>

lemma on_world_frame: "on_world m rg = (r, rg') \<Longrightarrow> \<exists>w. rg' = rg\<lparr>rg_world := w\<rparr>"
  by (auto simp: on_world_def split: prod.splits)

lemma fc_checkpoint_frame: "fc_checkpoint x t fc rg = (r, rg') \<Longrightarrow> \<exists>w. rg' = rg\<lparr>rg_world := w\<rparr>"
proof -
  assume "fc_checkpoint x t fc rg = (r, rg')"
  then have "rg' = rg \<or> (\<exists>rec. on_world (on_store (cp_save (gx_store x) t rec)) rg = (r, rg'))"
    by (auto simp: fc_checkpoint_def sbind_def split: prod.splits sum.splits)
  moreover have "rg = rg\<lparr>rg_world := rg_world rg\<rparr>" by simp
  ultimately show ?thesis using on_world_frame by blast
qed

lemma save_slot_global: "save_slot x t fc i bc rg = (r, rg') \<Longrightarrow> rg_global rg' = rg_global rg"
  by (auto simp: save_slot_def dest!: fc_checkpoint_frame)

lemma branch_iter_counts:
  assumes "branch_iter x t run cfg j fc br rg = (Inr (Inl br'), rg')"
  shows "rg_global rg' = Suc (rg_global rg) \<and> Suc (rg_global rg) \<le> MAX_NODE_VISITS"
proof -
  have nj: "br_cursor br \<noteq> j"
    using assms by (auto simp: branch_iter_def sbind_def split: prod.splits sum.splits)
  let ?rg1 = "rg\<lparr>rg_global := Suc (rg_global rg)\<rparr>"
  from assms nj have le: "\<not> MAX_NODE_VISITS < Suc (rg_global rg)"
    by (auto simp: branch_iter_def Let_def)
  with assms nj obtain br2 rg2 sj rg3 where
    "on_world (branch_visit x t run cfg br) ?rg1 = (Inr br2, rg2)"
    "save_slot x t fc (br_slot br2) (branch_cursor_of br2 sj False) rg2 = (Inr (), rg3)"
    "rg_global rg' = rg_global rg3"
    by (auto simp: branch_iter_def Let_def sbind_def record_branch_visits_def split: prod.splits sum.splits)
  then have "rg_global rg' = rg_global ?rg1"
    by (auto dest!: save_slot_global on_world_frame)
  with le show ?thesis by simp
qed

abbreviation is_settled :: "'j branch_status \<Rightarrow> bool" where
  "is_settled st \<equiv> \<exists>r. st = Settled r"

lemma poll_length [simp]: "length (fst (poll x t run cfg j fc i sr)) = length (fst sr)"
  by (auto simp: poll_def split: branch_status.split prod.split sum.split)

lemma poll_other:
  "k \<noteq> i \<Longrightarrow> fst (poll x t run cfg j fc i sr) ! k = fst sr ! k"
  by (auto simp: poll_def split: branch_status.split prod.split sum.split)

lemma poll_settled:
  "is_settled (fst sr ! k) \<Longrightarrow> is_settled (fst (poll x t run cfg j fc i sr) ! k)"
  by (cases "k = i") (auto simp: poll_other, auto simp: poll_def)

lemma poll_live:
  assumes "i < length (fst sr)" and "\<not> is_settled (fst (poll x t run cfg j fc i sr) ! i)"
  shows "rg_global (snd (poll x t run cfg j fc i sr)) = Suc (rg_global (snd sr)) \<and>
    Suc (rg_global (snd sr)) \<le> MAX_NODE_VISITS"
  using assms
  by (auto simp: poll_def dest: branch_iter_counts split: branch_status.splits prod.splits sum.splits)

lemma polls_settled:
  "is_settled (fst sr ! k) \<Longrightarrow> is_settled (fst (fold (poll x t run cfg j fc) is sr) ! k)"
  by (induction "is" arbitrary: sr) (simp_all add: poll_settled)

lemma polls_length [simp]: "length (fst (fold (poll x t run cfg j fc) is sr)) = length (fst sr)"
  by (induction "is" arbitrary: sr) simp_all

lemma drain_one:
  assumes "i < length (fst sr)" and "MAX_NODE_VISITS < n + rg_global (snd sr)"
  shows "is_settled (fst (fold (poll x t run cfg j fc) (replicate n i) sr) ! i) \<or> n = 0"
  using assms
proof (induction n arbitrary: sr)
  case (Suc n)
  show ?case
  proof (cases "is_settled (fst (poll x t run cfg j fc i sr) ! i)")
    case True
    then show ?thesis by (simp add: polls_settled del: fold_replicate)
  next
    case False
    from poll_live [OF Suc.prems(1) this] Suc.IH [of "poll x t run cfg j fc i sr"] Suc.prems
    show ?thesis by (cases n) (auto simp del: fold_replicate)
  qed
qed simp

lemma drain_all:
  assumes "m \<le> length (fst sr)" and "k < m"
  shows "is_settled (fst (fold (poll x t run cfg j fc) (drain_order m) sr) ! k)"
  using assms
proof (induction m)
  case (Suc m)
  let ?sr = "fold (poll x t run cfg j fc) (drain_order m) sr"
  have step: "fold (poll x t run cfg j fc) (drain_order (Suc m)) sr =
      fold (poll x t run cfg j fc) (replicate (MAX_NODE_VISITS + 2) m) ?sr"
    by (simp add: drain_order_def del: fold_replicate)
  show ?case
  proof (cases "k = m")
    case True
    with drain_one [of m ?sr "MAX_NODE_VISITS + 2"] Suc.prems step show ?thesis by (simp del: fold_replicate)
  next
    case False
    with Suc have "is_settled (fst ?sr ! k)" by simp
    then show ?thesis unfolding step by (rule polls_settled)
  qed
qed simp

lemma join_all_settles:
  "\<forall>st \<in> set (fst (join_all x t run cfg j fc order sr)). is_settled st"
proof -
  let ?sr = "fold (poll x t run cfg j fc) order sr"
  have "is_settled (fst (fold (poll x t run cfg j fc) (drain_order (length (fst ?sr))) ?sr) ! k)"
    if "k < length (fst sr)" for k
    using that by (intro drain_all) auto
  then show ?thesis by (auto simp: join_all_def in_set_conv_nth)
qed

subsection \<open>Errors of the store and of the serialiser\<close>

lemma yields_on_world:
  assumes "yields m Q E"
  shows "yields (on_world m) Q E"
proof (rule tripleI)
  fix rg a rg'
  assume "on_world m rg = (Inr a, rg')"
  then show "Q a" using tripleD(1) [OF assms, of "rg_world rg" a]
    by (auto simp: on_world_def split: prod.splits)
next
  fix rg e rg'
  assume "on_world m rg = (Inl e, rg')"
  then show "E e" using tripleD(2) [OF assms, of "rg_world rg" e]
    by (auto simp: on_world_def split: prod.splits)
qed

abbreviation checkpoint_only :: "('s, exec_error, 'a) st_res \<Rightarrow> bool" where
  "checkpoint_only m \<equiv> yields m (\<lambda>_. True) (\<lambda>e. \<exists>ce. e = CheckpointErr ce)"

lemma checkpoint_only_store: "checkpoint_only (on_store m)"
  by (rule tripleI) (auto simp: on_store_def map_err_def split: prod.splits sum.splits)

lemma checkpoint_only_ser: "checkpoint_only (sres (ser v))"
  by (rule yields_sres) (auto simp: ser_def ok_or_def split: option.splits)

lemma checkpoint_only_built:
  "checkpoint_only (sres (build_record_with_frontier dc run gj c st vis status fj))"
  by (rule yields_sres)
    (auto simp: build_record_with_frontier_def ser_def ok_or_def rbind_def split: option.splits sum.splits)

lemma checkpoint_only_fc: "checkpoint_only (fc_checkpoint x t fc)"
proof -
  have m: "checkpoint_only (sbind (sres (ser (dc_frontier_to (gx_codec x) fr))) (\<lambda>frontier_json.
       sbind (sres (ser (dc_state_from (gx_codec x) (fc_trunk_state_json fc)))) (\<lambda>trunk_state.
       sbind (sres (build_record_with_frontier (gx_codec x) (fc_run_id fc) (fc_graph_json fc)
                (fc_parallel_node fc) trunk_state (fc_trunk_visits fc) Running (Some frontier_json)))
         (\<lambda>rec. on_world (on_store (cp_save (gx_store x) t rec))))))" for fr
    by (intro yields_sbind [where R = "\<lambda>_. True"] yields_on_world checkpoint_only_store
        checkpoint_only_ser checkpoint_only_built)
  show ?thesis
    by (rule tripleI) (use tripleD(2) [OF m TrueI] in \<open>auto simp: fc_checkpoint_def\<close>)
qed

lemma checkpoint_only_slot: "checkpoint_only (save_slot x t fc i bc)"
  by (rule tripleI) (auto simp: save_slot_def dest: tripleD(2) [OF checkpoint_only_fc TrueI])

lemmas checkpoint_errors = checkpoint_only_store checkpoint_only_ser checkpoint_only_built
  checkpoint_only_fc checkpoint_only_slot

subsection \<open>No structural errors\<close>

fun structural_msg :: "invalid_msg \<Rightarrow> bool" where
  "structural_msg (Structural _) = True"
| "structural_msg (RouterNotFound _) = True"
| "structural_msg (NotARouter _) = True"
| "structural_msg (RouterNoEdge _ _) = True"
| "structural_msg (NoOutgoingEdge _) = True"
| "structural_msg (NoReachableJoin _) = True"
| "structural_msg (RespondInBranch _ _) = True"
| "structural_msg (UnexpectedInBranch _ _ _) = True"
| "structural_msg (ApprovalInBranch _ _) = True"
| "structural_msg _ = False"

fun structural_error :: "exec_error \<Rightarrow> bool" where
  "structural_error (UnknownNode _) = True"
| "structural_error (GraphErr (Invalid m)) = structural_msg m"
| "structural_error _ = False"

definition approval_unstructured :: "('s, 'e, 'j) graph_executor \<Rightarrow> bool" where
  "approval_unstructured x \<longleftrightarrow>
     (\<forall>req e err e'. gx_approval x req e = (Inl err, e') \<longrightarrow> \<not> structural_error err)"

text \<open>
  The one structural error the validator leaves to the executor: an approval node inside a parallel region,
  which \<open>validate_parallel\<close> lets pass and a branch refuses.
\<close>

definition misplaced_approval :: "graph \<Rightarrow> exec_error \<Rightarrow> bool" where
  "misplaced_approval g e \<longleftrightarrow> (\<exists>p n b ti mode ri co de.
     e = GraphErr (Invalid (ApprovalInBranch n b)) \<and> kind_at g p = Some Parallel \<and> in_region g p n \<and>
     kind_at g n = Some (Approval ti mode ri co de))"

abbreviation tolerable :: "graph \<Rightarrow> exec_error \<Rightarrow> bool" where
  "tolerable g e \<equiv> structural_error e \<longrightarrow> misplaced_approval g e"

abbreviation sound :: "graph \<Rightarrow> ('s, exec_error, 'a) st_res \<Rightarrow> ('a \<Rightarrow> bool) \<Rightarrow> bool" where
  "sound g m Q \<equiv> yields m Q (tolerable g)"

lemma sound_simple:
  "sound g (on_store m) (\<lambda>_. True)"
  "sound g (sres (ser v)) (\<lambda>_. True)"
  "sound g (sres (build_record_with_frontier dc run gj c st vis status fj)) (\<lambda>_. True)"
  "sound g (fc_checkpoint x t fc) (\<lambda>_. True)"
  "sound g (save_slot x t fc i bc) (\<lambda>_. True)"
  by (rule triple_weaken [OF checkpoint_only_store] triple_weaken [OF checkpoint_only_ser]
      triple_weaken [OF checkpoint_only_built] triple_weaken [OF checkpoint_only_fc]
      triple_weaken [OF checkpoint_only_slot]; auto)+

lemma sound_sbind: "sound g m (\<lambda>_. True) \<Longrightarrow> (\<And>a. sound g (f a) Q) \<Longrightarrow> sound g (sbind m f) Q"
  by (rule yields_sbind)

lemma sound_save_trunk: "sound g (save_trunk x t run cfg c st vis status) (\<lambda>_. True)"
  unfolding save_trunk_def build_record_def by (intro sound_sbind sound_simple)

lemma sound_advance: "Q (Continue fr) \<Longrightarrow> sound g (advance x t run cfg fr) Q"
  unfolding advance_def by (intro sound_sbind sound_save_trunk yields_sret)

lemma sound_at_node:
  "(\<And>msg. \<not> structural_error (wrap msg)) \<Longrightarrow> sound g (at_node wrap n a m enc) (\<lambda>_. True)"
  by (rule tripleI) (auto simp: at_node_def on_env_def split: prod.splits sum.splits)

lemma sound_visit_effect:
  "sound g m (\<lambda>_. True) \<Longrightarrow> sound g (visit_effect x t run n a m) (\<lambda>_. True)"
  unfolding visit_effect_def
  by (auto intro!: sound_sbind sound_simple yields_sret split: option.split node_visit_outcome.split)

lemma sound_effects:
  "sound g (visit_effect x t run n a (call_agent x b r1)) (\<lambda>_. True)"
  "sound g (visit_effect x t run n a (call_tool x b r2)) (\<lambda>_. True)"
  "sound g (visit_effect x t run n a (call_supervisor x b r3)) (\<lambda>_. True)"
  unfolding call_agent_def call_tool_def call_supervisor_def
  by (auto intro!: sound_visit_effect sound_at_node)

text \<open>The edges a visit follows are edges of the graph.\<close>

lemma sound_next_linear:
  assumes "graph_wf (gc_graph cfg) v" and "length (edges_from (gc_graph cfg) i) = 1"
  shows "sound g (sres (map_err GraphErr (next_linear cfg i)))
    (\<lambda>n. \<exists>e \<in> set (edges_from (gc_graph cfg) i). e_to e = n)"
  using next_linear_total [OF assms]
  by (intro yields_sres) (auto simp: next_linear_def simp del: set_edges_from split: list.splits)

lemma route_edge:
  assumes "route g i st = Inr n"
  shows "\<exists>e \<in> set (edges_from g i). e_to e = n"
proof -
  from assms obtain nd where nd: "node_of g i = Some nd"
    by (cases "node_of g i") (auto simp: route_def)
  with assms show ?thesis
    by (cases "nd_kind nd") (auto simp: route_def Let_def simp del: set_edges_from dest!: branch_target_Some)
qed

lemma sound_route:
  assumes "graph_wf g v" and "kind_at g i = Some (Router m)"
  shows "sound g (sres (map_err GraphErr (route g i st))) (\<lambda>n. \<exists>e \<in> set (edges_from g i). e_to e = n)"
  using route_total [OF assms, of st] route_edge [of g i st]
  by (intro yields_sres) (auto simp del: set_edges_from)

lemma sound_supervisor_target:
  "sound g (sres (ok_or (GraphErr (Invalid (SupervisorBranchUnknown i b))) (supervisor_target g i rs b)))
    (\<lambda>n. \<exists>e \<in> set (edges_from g i). e_to e = n)"
  by (intro yields_sres) (auto simp: supervisor_target_def ok_or_def simp del: set_edges_from
      split: option.splits if_splits dest!: branch_target_Some)

text \<open>A visit inside a branch goes along an edge; it meets no kind the validator excluded.\<close>

lemma sound_branch_visit:
  assumes wf: "graph_wf (gc_graph cfg) v" and k: "kind_at (gc_graph cfg) (br_cursor br) = Some k" "plain_kind k"
    and par: "kind_at (gc_graph cfg) p = Some Parallel" "in_region (gc_graph cfg) p (br_cursor br)"
  shows "sound (gc_graph cfg) (branch_visit x t run cfg br)
    (\<lambda>br'. \<exists>e \<in> set (edges_from (gc_graph cfg) (br_cursor br)). e_to e = br_cursor br')"
proof -
  from k(1) obtain nd where nd: "node_of (gc_graph cfg) (br_cursor br) = Some nd" "nd_kind nd = k"
    by (auto simp: kind_at_Some)
  note kw = graph_wf_node [OF wf k(1)]
  show ?thesis
  proof (cases k)
    case (Agent p mo tls pv ar ih)
    with kw nd show ?thesis
      by (auto simp: branch_visit_def branch_agent_def Let_def simp del: set_edges_from
          intro!: sound_sbind sound_effects sound_simple yields_sbind [OF sound_next_linear [OF wf]] yields_sret
          split: prod.split)
  next
    case (Tool tn)
    with kw nd show ?thesis
      by (auto simp: branch_visit_def branch_tool_def Let_def simp del: set_edges_from
          intro!: sound_sbind sound_effects sound_simple yields_sbind [OF sound_next_linear [OF wf]] yields_sret
          split: prod.split)
  next
    case (Router m)
    with k(1) nd show ?thesis
      by (auto simp: branch_visit_def branch_router_def Let_def simp del: set_edges_from
          intro!: yields_sbind [OF sound_route [OF wf]] yields_sret)
  next
    case (Supervisor p mo rs pv ar)
    with nd show ?thesis
      by (auto simp: branch_visit_def branch_supervisor_def Let_def simp del: set_edges_from
          intro!: sound_sbind sound_effects sound_simple yields_sbind [OF sound_supervisor_target] yields_sret
          split: prod.split)
  next
    case (Approval ti mode ri co de)
    with k(1) par have "misplaced_approval (gc_graph cfg) (GraphErr (Invalid (ApprovalInBranch (br_cursor br) (br_branch br))))"
      unfolding misplaced_approval_def by blast
    with Approval nd show ?thesis by (auto simp: branch_visit_def intro: yields_sfail)
  qed (use k(2) nd in \<open>auto simp: branch_visit_def plain_kind_def intro: yields_sfail\<close>)
qed

subsubsection \<open>Regions\<close>

text \<open>
  The invariant of a region's branches: a running branch stands in the region, and a branch that
  stopped with an error did not stop for a structural one.
\<close>

fun status_ok :: "graph \<Rightarrow> string \<Rightarrow> 'j branch_status \<Rightarrow> bool" where
  "status_ok g p (Live br) \<longleftrightarrow> in_region g p (br_cursor br)"
| "status_ok g p (Settled (Inl e)) \<longleftrightarrow> tolerable g e"
| "status_ok g p (Settled (Inr out)) \<longleftrightarrow> True"

abbreviation region_at :: "graph \<Rightarrow> string \<Rightarrow> string \<Rightarrow> bool" where
  "region_at g p j \<equiv> region_wf g p j \<and> kind_at g p = Some Parallel"

lemma sound_branch_iter:
  fixes br :: "'j branch_run"
  assumes wf: "graph_wf (gc_graph cfg) v" and reg: "region_at (gc_graph cfg) p j"
    and "in_region (gc_graph cfg) p (br_cursor br)"
  shows "sound (gc_graph cfg) (branch_iter x t run cfg j fc br)
    (\<lambda>r. case r of Inl br' \<Rightarrow> in_region (gc_graph cfg) p (br_cursor br') | Inr _ \<Rightarrow> True)"
proof (cases "br_cursor br = j")
  case True
  then show ?thesis
    unfolding branch_iter_def by (auto intro!: sound_sbind sound_simple yields_sret)
next
  case False
  with region_wf_in_region [OF conjunct1 [OF reg] assms(3)] obtain k where
    k: "kind_at (gc_graph cfg) (br_cursor br) = Some k" "plain_kind k" by auto
  then have nj: "kind_at (gc_graph cfg) (br_cursor br) \<noteq> Some Join" by (auto simp: plain_kind_def)
  have rv: "sound (gc_graph cfg) (record_branch_visits vis) (\<lambda>_. True)" for vis
    by (rule tripleI) (auto simp: record_branch_visits_def)
  have *: "sound (gc_graph cfg) (sbind (on_world (branch_visit x t run cfg br)) (\<lambda>br'.
       sbind (sres (ser (dc_state_to (gx_codec x) (br_state br')))) (\<lambda>state_json.
       sbind (save_slot x t fc (br_slot br') (branch_cursor_of br' state_json False)) (\<lambda>_.
       sbind (record_branch_visits (br_visits br')) (\<lambda>_.
         sret (Inl br' :: 'j branch_run + branch_outcome))))))
     (\<lambda>r. case r of Inl br' \<Rightarrow> in_region (gc_graph cfg) p (br_cursor br') | Inr _ \<Rightarrow> True)"
    by (rule yields_sbind [OF yields_on_world [OF sound_branch_visit [OF wf k conjunct2 [OF reg] assms(3)]]])
      (auto intro!: sound_sbind sound_simple rv yields_sret simp del: set_edges_from
        dest: in_region_step [OF assms(3) nj])
  show ?thesis
    by (rule tripleI) (use tripleD [OF * TrueI] False in \<open>auto simp: branch_iter_def Let_def split: if_splits\<close>)
qed

lemma poll_ok:
  assumes "graph_wf (gc_graph cfg) v" and "region_at (gc_graph cfg) p j"
    and "\<forall>st \<in> set (fst sr). status_ok (gc_graph cfg) p st"
  shows "\<forall>st \<in> set (fst (poll x t run cfg j fc i sr)). status_ok (gc_graph cfg) p st"
proof (cases "i < length (fst sr)")
  case True
  show ?thesis
  proof (cases "fst sr ! i")
    case (Live br)
    with assms(3) True have "in_region (gc_graph cfg) p (br_cursor br)" by (metis nth_mem status_ok.simps(1))
    note b = tripleD [OF sound_branch_iter [OF assms(1,2) this, of x t run fc] TrueI, of "snd sr"]
    have upd: "\<forall>st \<in> set ((fst sr)[i := st']). status_ok (gc_graph cfg) p st"
      if "status_ok (gc_graph cfg) p st'" for st'
      using that assms(3) by (auto dest!: subsetD [OF set_update_subset_insert])
    show ?thesis
      using True Live b
      by (auto simp: poll_def intro!: upd split: prod.splits sum.splits)
  qed (use assms(3) in \<open>simp add: poll_def\<close>)
qed (use assms(3) in \<open>simp add: poll_def\<close>)

lemma join_all_ok:
  assumes "graph_wf (gc_graph cfg) v" and "region_at (gc_graph cfg) p j"
    and "\<forall>st \<in> set (fst sr). status_ok (gc_graph cfg) p st"
  shows "\<forall>st \<in> set (fst (join_all x t run cfg j fc order sr)). status_ok (gc_graph cfg) p st"
proof -
  have "\<forall>st \<in> set (fst (fold (poll x t run cfg j fc) is sr)). status_ok (gc_graph cfg) p st" for "is"
    using assms(3)
  proof (induction "is" arbitrary: sr)
    case (Cons i "is")
    from Cons.IH [OF poll_ok [OF assms(1,2) Cons.prems]] show ?case by simp
  qed simp
  then show ?thesis by (simp only: join_all_def)
qed

text \<open>The error a region reports is the error of one of its branches.\<close>

lemma collect_results_error:
  assumes "collect_results trunk rs = (Some e, tr, vis)"
  shows "Inl e \<in> set rs"
proof -
  have "Inl e \<in> set rs \<or> err = Some e" if "fold collect_result rs (err, a, b) = (Some e, tr, vis)" for err a b
    using that
  proof (induction rs arbitrary: err a b)
    case (Cons r rs)
    then show ?case by (cases r) (auto split: option.splits)
  qed simp
  from this [of None] assms show ?thesis by (auto simp: collect_results_def)
qed

lemma map_filter_settled: "r \<in> set (List.map_filter settled sts) \<Longrightarrow> Settled r \<in> set sts"
proof (induction sts)
  case (Cons st sts)
  then show ?case by (cases st) (auto simp: List.map_filter_simps)
qed (simp add: List.map_filter_simps)

lemma sound_merge_branches: "sound g (sres (merge_branches dc k bcs ms)) (\<lambda>_. True)"
proof (intro yields_sres)
  fix e
  show "merge_branches dc k bcs ms = Inl e \<Longrightarrow> tolerable g e"
    by (induction bcs arbitrary: ms)
      (auto simp: rbind_def ser_def ok_or_def split: sum.splits option.splits)
qed simp

lemma sound_merge_region:
  assumes "graph_wf (gc_graph cfg) v" and "kind_at (gc_graph cfg) j = Some Join"
  shows "sound (gc_graph cfg) (merge_region x t run cfg gj j st fro col mer tr)
    (\<lambda>fr. node_of (gc_graph cfg) (fr_cursor fr) \<noteq> None)"
proof -
  from graph_wf_node [OF assms] have "length (edges_from (gc_graph cfg) j) = 1" by simp
  note nl = sound_next_linear [OF assms(1) this]
  show ?thesis
    unfolding merge_region_def Let_def build_record_def
    by (intro sound_sbind [OF sound_merge_branches] yields_sbind [OF nl] sound_sbind sound_simple yields_sret)
      (auto simp del: set_edges_from dest: edges_known_target [OF graph_wf_edges_known [OF assms(1)]])
qed

lemma sound_fail_region:
  "tolerable g err \<Longrightarrow> sound g (fail_region x t run gj p st vis fro err) Q"
  unfolding fail_region_def
  by (cases err) (auto intro!: sound_sbind sound_simple yields_sfail)

definition frontier_ok :: "graph \<Rightarrow> string \<Rightarrow> 'j branch_cursor list \<Rightarrow> bool" where
  "frontier_ok g p frontier \<longleftrightarrow> (\<forall>bc \<in> set frontier. \<not> bc_parked bc \<longrightarrow> in_region g p (bc_cursor bc))"

lemma initial_frontier_ok: "frontier_ok g p (initial_frontier g p sj)"
  by (auto simp: frontier_ok_def initial_frontier_def in_region_def map_filter_def
      intro: branch_reach.here split: option.splits)

lemma branch_futures_ok:
  "frontier_ok g p frontier \<Longrightarrow> \<forall>st \<in> set (branch_futures dc vis frontier). status_ok g p st"
  by (auto simp: branch_futures_def branch_start_def frontier_ok_def in_set_enumerate_eq split: option.split)

lemma open_region_frontier:
  "open_region x t fc b rg = (r, rg') \<Longrightarrow> rg_frontier rg' = rg_frontier rg"
  by (auto simp: open_region_def split: if_splits dest!: fc_checkpoint_frame)

lemma sound_settle_region:
  assumes wf: "graph_wf (gc_graph cfg) v" and reg: "region_at (gc_graph cfg) p j"
    and ok: "\<forall>st \<in> set (fst sr). status_ok (gc_graph cfg) p st"
  shows "case settle_region x t run cfg j fc st sr of
      (Inr fr, w) \<Rightarrow> node_of (gc_graph cfg) (fr_cursor fr) \<noteq> None | (Inl e, w) \<Rightarrow> tolerable (gc_graph cfg) e"
proof -
  obtain fe tr mer where c: "collect_results (fc_trunk_visits fc) (List.map_filter settled (fst sr)) =
    (fe, tr, mer)" by (metis prod.exhaust)
  note kj = conjunct2 [OF region_wf_join [OF conjunct1 [OF reg]]]
  show ?thesis
  proof (cases fe)
    case None
    with c yieldsD [OF sound_merge_region [OF wf kj]] show ?thesis
      by (simp add: settle_region_def Let_def)
  next
    case (Some e)
    with c have "Settled (Inl e) \<in> set (fst sr)"
      by (auto dest!: collect_results_error map_filter_settled)
    with ok have "tolerable (gc_graph cfg) e" by fastforce
    from yieldsD [OF sound_fail_region [OF this]] c Some show ?thesis
      by (simp add: settle_region_def Let_def)
  qed
qed

lemma sound_drive_frontier:
  assumes wf: "graph_wf (gc_graph cfg) v" and reg: "region_at (gc_graph cfg) p j"
    and fro: "frontier_ok (gc_graph cfg) p frontier"
  shows "sound (gc_graph cfg) (drive_frontier x t run cfg p j st vis frontier b)
    (\<lambda>fr. node_of (gc_graph cfg) (fr_cursor fr) \<noteq> None)"
proof -
  have "sound (gc_graph cfg) (\<lambda>w. case open_region x t fc b (region_of vis frontier w) of
         (Inl err, rg) \<Rightarrow> (Inl err, rg_world rg)
       | (Inr _, rg) \<Rightarrow> settle_region x t run cfg j fc st (run_frontier x t run cfg j fc rg))
      (\<lambda>fr. node_of (gc_graph cfg) (fr_cursor fr) \<noteq> None)" for fc
    unfolding triple_def
  proof (intro allI impI)
    fix w
    obtain r rg where r: "open_region x t fc b (region_of vis frontier w) = (r, rg)" by fastforce
    have err: "tolerable (gc_graph cfg) e" if "r = Inl e" for e
      using r that yieldsD [OF sound_simple(4) [where g = "gc_graph cfg"], of x t fc "region_of vis frontier w"]
      by (simp add: open_region_def split: if_splits)
    from open_region_frontier [OF r] have "rg_frontier rg = frontier" by (simp add: region_of_def)
    with branch_futures_ok [OF fro] have "\<forall>st \<in> set (fst (run_frontier x t run cfg j fc rg)). status_ok (gc_graph cfg) p st"
      unfolding run_frontier_def by (intro join_all_ok [OF wf reg]) simp
    from sound_settle_region [OF wf reg this] r err
    show "case case open_region x t fc b (region_of vis frontier w) of
         (Inl err, rg) \<Rightarrow> (Inl err, rg_world rg)
       | (Inr _, rg) \<Rightarrow> settle_region x t run cfg j fc st (run_frontier x t run cfg j fc rg) of
        (Inl e, s') \<Rightarrow> tolerable (gc_graph cfg) e
      | (Inr fr, s') \<Rightarrow> node_of (gc_graph cfg) (fr_cursor fr) \<noteq> None"
      by (cases r) auto
  qed
  then show ?thesis
    unfolding drive_frontier_def Let_def by (intro sound_sbind sound_simple)
qed

subsubsection \<open>The trunk\<close>

definition step_known :: "graph \<Rightarrow> step_result \<Rightarrow> bool" where
  "step_known g r \<longleftrightarrow> (case r of Continue f \<Rightarrow> node_of g (fr_cursor f) \<noteq> None | Finish _ \<Rightarrow> True)"

lemma step_known_simps [simp]:
  "step_known g (Continue f) \<longleftrightarrow> node_of g (fr_cursor f) \<noteq> None" "step_known g (Finish out)"
  by (simp_all add: step_known_def)

lemma find_join_region:
  "region_wf (gc_graph cfg) p j \<Longrightarrow> find_join_for_parallel cfg p = Inr j"
  by (simp add: find_join_for_parallel_def join_loop_region)

lemma sound_visit_parallel:
  assumes wf: "graph_wf (gc_graph cfg) v" and k: "kind_at (gc_graph cfg) (fr_cursor fr) = Some Parallel"
  shows "sound (gc_graph cfg) (visit_parallel x t run cfg fr) (step_known (gc_graph cfg))"
proof -
  from graph_wf_node [OF wf k] obtain j where reg: "region_wf (gc_graph cfg) (fr_cursor fr) j" by auto
  note at = conjI [OF reg k]
  have "sound (gc_graph cfg) (run_parallel_region x t run cfg (fr_cursor fr) st vis)
      (\<lambda>fr. node_of (gc_graph cfg) (fr_cursor fr) \<noteq> None)" for st vis
    unfolding run_parallel_region_def find_join_region [OF reg] sbind_sres_Inr
    by (intro sound_sbind sound_simple sound_drive_frontier [OF wf at] initial_frontier_ok)
  then show ?thesis
    unfolding visit_parallel_def
    by (rule yields_sbind) (simp add: step_known_def yields_sret)
qed

lemma sound_visit_approval:
  assumes wf: "graph_wf (gc_graph cfg) v" and ap: "approval_unstructured x"
  shows "sound (gc_graph cfg) (visit_approval x t run cfg fr ti mode ri co de) (step_known (gc_graph cfg))"
proof -
  note known = branch_target_known [OF graph_wf_edges_known [OF wf]]
  have ask: "sound (gc_graph cfg) (on_env (gx_approval x req)) (\<lambda>_. True)" for req
    using ap by (intro tripleI) (auto simp: on_env_def approval_unstructured_def split: prod.splits)
  have tgt: "sound (gc_graph cfg) (sres (ok_or (GraphErr (Invalid (ApprovalBranchUnknown n b))) (branch_target (gc_graph cfg) n b)))
      (\<lambda>m. node_of (gc_graph cfg) m \<noteq> None)" for n b
    by (intro yields_sres) (auto simp: ok_or_def split: option.splits dest: known)
  have res: "sound (gc_graph cfg) (sres (resolve_decision cfg n b m out)) (\<lambda>(_, _, m'). node_of (gc_graph cfg) m' \<noteq> None)"
    if "node_of (gc_graph cfg) m \<noteq> None" for n b m out
    using that by (intro yields_sres) (auto simp: resolve_decision_def rbind_def ok_or_def
        split: node_visit_outcome.splits option.splits sum.splits if_splits dest: known)
  have park: "sound (gc_graph cfg) (sbind (save_trunk x t run cfg (fr_cursor fr) (fr_state fr) (fr_visits fr) AwaitingInput)
      (\<lambda>_. sret (Finish out))) (step_known (gc_graph cfg))" for out
    by (intro sound_sbind sound_save_trunk yields_sret) (simp add: step_known_def)
  show ?thesis
    unfolding visit_approval_def Let_def
    by (rule sound_sbind [OF ask])
      (auto split: approval_outcome.split prod.split intro!: park yields_sbind [OF tgt] yields_sbind [OF res]
        sound_sbind [OF sound_simple(1)] sound_advance)
qed

lemma sound_trunk_visit:
  assumes wf: "graph_wf (gc_graph cfg) v" and ap: "approval_unstructured x"
    and cur: "node_of (gc_graph cfg) (fr_cursor fr) \<noteq> None"
  shows "sound (gc_graph cfg) (trunk_visit x t run cfg fr) (step_known (gc_graph cfg))"
proof -
  from cur obtain nd where nd: "node_of (gc_graph cfg) (fr_cursor fr) = Some nd" by auto
  then have k: "kind_at (gc_graph cfg) (fr_cursor fr) = Some (nd_kind nd)" by (simp add: kind_at_def)
  note kw = graph_wf_node [OF wf k]
  note known = edges_known_target [OF graph_wf_edges_known [OF wf]]
  show ?thesis
  proof (cases "nd_kind nd")
    case (Agent p mo tls pv ar ih)
    with kw nd known show ?thesis
      by (auto simp: trunk_visit_def visit_agent_def Let_def step_known_def simp del: set_edges_from
          intro!: sound_sbind sound_effects sound_simple yields_sbind [OF sound_next_linear [OF wf]] sound_advance
          split: prod.split)
  next
    case (Tool tn)
    with kw nd known show ?thesis
      by (auto simp: trunk_visit_def visit_tool_def Let_def step_known_def simp del: set_edges_from
          intro!: sound_sbind sound_effects yields_sbind [OF sound_next_linear [OF wf]] sound_advance
          split: prod.split)
  next
    case (Router m)
    with k nd known show ?thesis
      by (auto simp: trunk_visit_def visit_router_def Let_def step_known_def simp del: set_edges_from
          intro!: yields_sbind [OF sound_route [OF wf]] sound_advance)
  next
    case Respond
    with nd show ?thesis
      by (auto simp: trunk_visit_def visit_respond_def Let_def step_known_def
          intro!: sound_sbind sound_save_trunk yields_sret)
  next
    case (Supervisor p mo rs pv ar)
    with nd known show ?thesis
      by (auto simp: trunk_visit_def visit_supervisor_def Let_def step_known_def simp del: set_edges_from
          intro!: sound_sbind sound_effects sound_simple yields_sbind [OF sound_supervisor_target] sound_advance
          split: prod.split)
  next
    case Parallel
    with k nd sound_visit_parallel [OF wf] show ?thesis by (simp add: trunk_visit_def)
  next
    case Join
    with kw nd known show ?thesis
      by (auto simp: trunk_visit_def visit_join_def step_known_def simp del: set_edges_from
          intro!: yields_sbind [OF sound_next_linear [OF wf]] yields_sret)
  next
    case (Approval ti mode ri co de)
    with nd sound_visit_approval [OF wf ap] show ?thesis by (simp add: trunk_visit_def)
  qed
qed

lemma sound_drive_loop:
  assumes wf: "graph_wf (gc_graph cfg) v" and ap: "approval_unstructured x"
  shows "node_of (gc_graph cfg) (fr_cursor fr) \<noteq> None \<Longrightarrow> sound (gc_graph cfg) (drive_loop x t run cfg n fr) (\<lambda>_. True)"
proof (induction n arbitrary: fr)
  case 0
  then show ?case by (auto intro!: sound_sbind sound_save_trunk yields_sfail)
next
  case (Suc n)
  show ?case
    unfolding drive_loop.simps
    by (rule yields_sbind [OF sound_trunk_visit [OF wf ap Suc.prems]])
      (auto simp: step_known_def intro: Suc.IH yields_sret split: step_result.splits)
qed

lemma sound_drive:
  assumes "validate (gc_graph cfg) v = Inr ()" and "approval_unstructured x"
    and "node_of (gc_graph cfg) c \<noteq> None"
  shows "sound (gc_graph cfg) (drive x t run cfg c st vis) (\<lambda>_. True)"
  unfolding drive_def
  by (rule sound_drive_loop [OF validate_sound [OF assms(1)] assms(2)]) (simp add: assms(3))

end
