(* ===== verification/Graph_Status.thy ===== *)
theory Graph_Status
  imports Graph_Replay Graph_Safety
begin

section \<open>The status of a run and its errors\<close>

text \<open>
  A run that returned is saved as succeeded or parked, a run that hit the visit cap is saved as failed,
  and a run that stopped with any other error is still saved as running or parked, so that it can be
  resumed. Then what an effect's error leaves behind, which of two decisions counts, and the two ways in
  which a run can be stuck.
\<close>

fun is_cap :: "exec_error \<Rightarrow> bool" where
  "is_cap (IterationCap _) = True"
| "is_cap _ = False"

lemma triple_both:
  "triple P m Q E \<Longrightarrow> yields m Q' E' \<Longrightarrow> triple P m (\<lambda>a s. Q a s \<and> Q' a) (\<lambda>e s. E e s \<and> E' e)"
  unfolding triple_def by (fastforce split: prod.splits sum.splits)

text \<open>No error of the store, of the serialiser, of the graph or of an effect is the cap error.\<close>

lemma quiet_yields:
  "yields (on_store m) (\<lambda>_. True) (\<lambda>e. \<not> is_cap e)"
  "yields (sres (ser v)) (\<lambda>_. True) (\<lambda>e. \<not> is_cap e)"
  "yields (sres (build_record_with_frontier dc run gj c st vis status fj)) (\<lambda>_. True) (\<lambda>e. \<not> is_cap e)"
  "yields (fc_checkpoint x t fc) (\<lambda>_. True) (\<lambda>e. \<not> is_cap e)"
  by (rule triple_weaken [OF checkpoint_only_store] triple_weaken [OF checkpoint_only_ser]
      triple_weaken [OF checkpoint_only_built] triple_weaken [OF checkpoint_only_fc]; auto)+

lemma quiet_graph_yields:
  "yields (sres (map_err GraphErr r)) (\<lambda>_. True) (\<lambda>e. \<not> is_cap e)"
  "yields (sres (ok_or (GraphErr g) w)) (\<lambda>_. True) (\<lambda>e. \<not> is_cap e)"
  by (rule yields_sres; auto simp: map_err_def ok_or_def split: sum.splits option.splits)+

lemma find_join_no_cap: "find_join_for_parallel cfg p = Inl e \<Longrightarrow> \<not> is_cap e"
  unfolding find_join_for_parallel_def
  by (cases "join_loop (gc_graph cfg) {} (rev (map e_to (edges_from (gc_graph cfg) p)))")
    (auto simp del: set_edges_from split: sum.splits unit.splits)

lemma built_record:
  "build_record_with_frontier dc run g c st vis status fj = Inr rec \<Longrightarrow>
     rr_run_id rec = run \<and> rr_status rec = status"
  by (auto simp: build_record_with_frontier_def rbind_eq_Inr)

definition approval_uncapped :: "('s, 'e, 'j) graph_executor \<Rightarrow> bool" where
  "approval_uncapped x \<longleftrightarrow> (\<forall>req e err e'. gx_approval x req e = (Inl err, e') \<longrightarrow> \<not> is_cap err)"

text \<open>The three effects, as the computations \<open>visit_effect\<close> is handed at a node.\<close>

definition node_effect ::
  "('s, 'e, 'j) graph_executor \<Rightarrow> graph_config \<Rightarrow> frame \<Rightarrow> node_kind \<Rightarrow> ('s, 'e, json) exec" where
  "node_effect x cfg fr k =
     (let a = next_attempt (fr_visits fr) (fr_cursor fr) in
      case k of
        Agent prompt model tools provider agent_ref inherit_from \<Rightarrow>
          call_agent x a \<lparr>ar_node_id = fr_cursor fr, ar_system_prompt = prompt, ar_model = model,
            ar_state = fr_state fr, ar_provider = provider, ar_tools = tools,
            ar_agent_ref = agent_ref, ar_inherit_from = inherit_from\<rparr>
      | Tool tn \<Rightarrow> call_tool x a \<lparr>tr_node_id = fr_cursor fr, tr_tool_name = tn, tr_state = fr_state fr\<rparr>
      | Supervisor prompt model routes provider agent_ref \<Rightarrow>
          call_supervisor x a \<lparr>sq_node_id = fr_cursor fr, sq_system_prompt = prompt, sq_model = model,
            sq_routes = routes, sq_state = fr_state fr, sq_provider = provider, sq_agent_ref = agent_ref\<rparr>
      | _ \<Rightarrow> sfail (UnknownNode (fr_cursor fr)))"

text \<open>An effect neither reads nor writes the store.\<close>

lemma node_effect_store:
  assumes "effect_kind k" and "node_effect x cfg fr k (s, e) = (r, (s1, e'))"
  shows "node_effect x cfg fr k (s', e) = (r, (s', e'))"
  using assms
  by (cases k) (auto simp: node_effect_def Let_def call_agent_def call_tool_def call_supervisor_def at_node_def
      on_env_def split: prod.splits)

lemma drive_first_error:
  assumes "trunk_visit x t run cfg \<lparr>fr_cursor = c, fr_state = st, fr_visits = vis, fr_trail = []\<rparr> w = (Inl err, w')"
  shows "drive x t run cfg c st vis w = (Inl err, w')"
  using assms by (simp add: drive_def MAX_NODE_VISITS_def numeral_eq_Suc sbind_def)

context durable_run
begin

definition alive :: "'s \<times> 'e \<Rightarrow> bool" where
  "alive w \<longleftrightarrow> invar (fst w) \<and>
     (\<forall>rec. saved (fst w) = Some rec \<longrightarrow> rr_status rec \<in> {Running, AwaitingInput})"

definition dead :: "'s \<times> 'e \<Rightarrow> bool" where
  "dead w \<longleftrightarrow> invar (fst w) \<and> (\<exists>rec. saved (fst w) = Some rec \<and> rr_status rec = Failed)"

definition after_error :: "exec_error \<Rightarrow> 's \<times> 'e \<Rightarrow> bool" where
  "after_error err w \<longleftrightarrow> (if is_cap err then dead w else alive w)"

lemma alive_save:
  assumes "rr_run_id rec = run" and "rr_status rec \<in> {Running, AwaitingInput}"
  shows "keeps alive (on_store (cp_save (gx_store x) t rec))"
proof (rule keepsI)
  fix w :: "'s \<times> 'e"
  assume w: "alive w"
  then have "invar (fst w)" by (simp add: alive_def)
  with save [OF this _ assms(1)] save_bad [OF _ assms(1), of "fst w"] w assms(2)
  show "alive (snd (on_store (cp_save (gx_store x) t rec) w))"
    by (cases "colon_free run") (auto simp: alive_def on_store_def split: prod.splits)
qed

lemma alive_store [triple_intros]:
  "keeps alive (on_store (cp_load (gx_store x) t run))"
  "keeps alive (on_store (cp_load_node_visit (gx_store x) t run n a))"
  "keeps alive (on_store (cp_record_node_visit (gx_store x) t run n a v))"
  "keeps alive (on_env f)"
proof -
  show "keeps alive (on_store (cp_load (gx_store x) t run))"
    using load by (intro keepsI) (fastforce simp: alive_def on_store_def split: prod.splits)
  show "keeps alive (on_store (cp_load_node_visit (gx_store x) t run n a))"
    using load_visit [of _ n a]
    by (intro keepsI) (fastforce simp: alive_def on_store_def split: prod.splits)
  show "keeps alive (on_env f)"
    by (intro keepsI) (auto simp: alive_def on_env_def split: prod.splits)
  show "keeps alive (on_store (cp_record_node_visit (gx_store x) t run n a v))"
  proof (rule keepsI)
    fix w :: "'s \<times> 'e"
    assume w: "alive w"
    then have i: "invar (fst w)" by (simp add: alive_def)
    show "alive (snd (on_store (cp_record_node_visit (gx_store x) t run n a v) w))"
      using w record_bad [of n a v "fst w"] record_fresh [OF i, of n a v] record_again [OF i, of n a _ v]
      by (cases "colon_free run \<and> colon_free n"; cases "ledger (fst w) n a")
        (auto simp: alive_def on_store_def split: prod.splits)
  qed
qed

text \<open>\<open>quiet\<close>: keeps the run alive, and fails with something else than the cap.\<close>

definition quiet :: "('s, 'e, 'a) exec \<Rightarrow> bool" where
  "quiet m \<longleftrightarrow> triple alive m (\<lambda>_. alive) (\<lambda>e w. alive w \<and> \<not> is_cap e)"

lemma quietI: "keeps alive m \<Longrightarrow> yields m (\<lambda>_. True) (\<lambda>e. \<not> is_cap e) \<Longrightarrow> quiet m"
  unfolding quiet_def by (drule (1) triple_both) simp

lemma quiet_sbind [triple_intros]: "quiet m \<Longrightarrow> (\<And>a. quiet (f a)) \<Longrightarrow> quiet (sbind m f)"
  unfolding quiet_def by (rule triple_sbind)

lemma quiet_keeps: "quiet m \<Longrightarrow> keeps alive m"
  unfolding quiet_def by (erule triple_weaken) auto

lemma quiet_simple [triple_intros]:
  "quiet (sret a)" "quiet (sres (ser v))" "quiet (sres (map_err GraphErr r))"
  "quiet (sres (ok_or (GraphErr g) w))" "\<not> is_cap err \<Longrightarrow> quiet (sfail err)"
  "quiet (on_store (cp_load (gx_store x) t run))"
  "quiet (on_store (cp_load_node_visit (gx_store x) t run n b))"
  "quiet (on_store (cp_record_node_visit (gx_store x) t run n b u))"
  by (intro quietI triple_intros quiet_yields quiet_graph_yields yields_sret yields_sfail TrueI; assumption?)+

lemma quiet_built:
  assumes "status \<in> {Running, AwaitingInput}" and "\<And>u. quiet (f u)"
  shows "quiet (sbind (sres (build_record_with_frontier dc run gj c st vis status fj)) (\<lambda>rec.
     sbind (on_store (cp_save (gx_store x) t rec)) f))"
proof (cases "build_record_with_frontier dc run gj c st vis status fj")
  case (Inl e)
  with quiet_yields(3) [of dc run gj c st vis status fj] have "\<not> is_cap e"
    by (auto simp: triple_def)
  with Inl show ?thesis by (auto simp: quiet_def intro: tripleI)
next
  case (Inr rec)
  then have "rr_run_id rec = run" "rr_status rec = status" by (simp_all add: built_record)
  with assms have "quiet (on_store (cp_save (gx_store x) t rec))"
    by (intro quietI alive_save quiet_yields) auto
  with Inr assms show ?thesis by (simp add: quiet_sbind)
qed

lemma quiet_save_trunk:
  assumes "status \<in> {Running, AwaitingInput}"
  shows "quiet (save_trunk x t run cfg c st vis status)"
proof -
  have *: "(\<lambda>rec. on_store (cp_save (gx_store x) t rec)) =
      (\<lambda>rec. sbind (on_store (cp_save (gx_store x) t rec)) sret)"
    by (auto simp: fun_eq_iff sbind_def split: prod.splits sum.splits)
  show ?thesis
    unfolding save_trunk_def build_record_def *
    by (intro triple_intros quiet_built assms)
qed

lemma quiet_advance [triple_intros]: "quiet (advance x t run cfg fr)"
  unfolding advance_def by (intro triple_intros quiet_save_trunk) simp

lemma quiet_at_node:
  assumes "\<And>msg. \<not> is_cap (wrap msg)"
  shows "quiet (at_node wrap n a m enc)"
proof (rule quietI)
  show "keeps alive (at_node wrap n a m enc)" by (simp add: at_node_def alive_store)
  show "yields (at_node wrap n a m enc) (\<lambda>_. True) (\<lambda>e. \<not> is_cap e)"
    by (rule tripleI) (auto simp: at_node_def on_env_def assms split: prod.splits sum.splits)
qed

lemma quiet_call [triple_intros]:
  "quiet (call_agent x a r1)" "quiet (call_tool x a r2)" "quiet (call_supervisor x a r3)"
  by (simp_all add: call_agent_def call_tool_def call_supervisor_def quiet_at_node)

lemma quiet_visit_effect [triple_intros]: "quiet m \<Longrightarrow> quiet (visit_effect x t run n a m)"
  unfolding visit_effect_def
  by (auto split: option.split node_visit_outcome.split intro!: triple_intros)

lemma quiet_arms [triple_intros]:
  "quiet (visit_agent x t run cfg fr pr mo tls pv ar ih)"
  "quiet (visit_tool x t run cfg fr tn)"
  "quiet (visit_router x t run cfg fr)"
  "quiet (visit_supervisor x t run cfg fr pr mo rs pv ar)"
  "quiet (visit_join cfg fr)"
  unfolding visit_agent_def visit_tool_def visit_router_def visit_supervisor_def visit_join_def Let_def
  by (intro triple_intros; auto split: prod.split intro!: triple_intros)+

lemma quiet_branch_visit [triple_intros]: "quiet (branch_visit x t run cfg br)"
  unfolding branch_visit_def branch_agent_def branch_tool_def branch_router_def branch_supervisor_def Let_def
  by (auto split: option.split node_kind.split prod.split intro!: triple_intros)

subsubsection \<open>Regions\<close>

abbreviation rg_alive :: "('s, 'e, 'j) region \<Rightarrow> bool" where
  "rg_alive rg \<equiv> alive (rg_world rg)"

lemma alive_on_world: "keeps alive m \<Longrightarrow> keeps rg_alive (on_world m)"
  by (intro keepsI) (auto simp: on_world_def split: prod.splits dest: keepsD)

lemma fc_checkpoint_alive:
  "fc_run_id fc = run \<Longrightarrow> keeps rg_alive (fc_checkpoint x t fc)"
proof (rule keepsI)
  fix rg :: "('s, 'e, 'j) region"
  assume run: "fc_run_id fc = run" and p: "rg_alive rg"
  have "keeps rg_alive (on_world (on_store (cp_save (gx_store x) t rec)))"
    if "rr_run_id rec = run" "rr_status rec = Running" for rec
    using that by (intro alive_on_world alive_save) auto
  from keepsD [OF this p] run p show "rg_alive (snd (fc_checkpoint x t fc rg))"
    by (cases "dc_frontier_to (gx_codec x) (rg_frontier rg)";
        cases "dc_state_from (gx_codec x) (fc_trunk_state_json fc)")
      (auto simp: fc_checkpoint_def ser_def sbind_def dest: built_record split: sum.splits)
qed

lemma save_slot_alive: "fc_run_id fc = run \<Longrightarrow> keeps rg_alive (save_slot x t fc slot bc)"
  by (rule keepsI) (auto simp: save_slot_def intro!: keepsD [OF fc_checkpoint_alive])

lemma branch_iter_alive:
  assumes "fc_run_id fc = run"
  shows "keeps rg_alive (branch_iter x t run cfg j fc br)"
proof (cases "br_cursor br = j")
  case True
  with assms show ?thesis unfolding branch_iter_def by (auto intro!: triple_intros save_slot_alive)
next
  case False
  have rv: "keeps rg_alive (record_branch_visits vis)" for vis
    by (rule keepsI) (simp add: record_branch_visits_def)
  have *: "keeps rg_alive
      (sbind (on_world (branch_visit x t run cfg br)) (\<lambda>br'.
       sbind (sres (ser (dc_state_to (gx_codec x) (br_state br')))) (\<lambda>state_json.
       sbind (save_slot x t fc (br_slot br') (branch_cursor_of br' state_json False)) (\<lambda>_.
       sbind (record_branch_visits (br_visits br')) (\<lambda>_.
         sret (Inl br' :: 'j branch_run + branch_outcome))))))"
    by (intro keeps_sbind keeps_simple alive_on_world quiet_keeps quiet_branch_visit save_slot_alive rv assms)
  show ?thesis
    unfolding branch_iter_def using False keepsD [OF *]
    by (intro keepsI) (simp add: Let_def)
qed

lemma join_all_alive:
  assumes "fc_run_id fc = run" and "rg_alive (snd sr)"
  shows "rg_alive (snd (join_all x t run cfg j fc order sr))"
proof -
  have poll: "rg_alive (snd (poll x t run cfg j fc i sr))" if "rg_alive (snd sr)" for i sr
    using keepsD [OF branch_iter_alive [OF assms(1)] that] that
    by (auto simp: poll_def split: branch_status.splits prod.splits sum.splits) (metis snd_conv)+
  have "rg_alive (snd (fold (poll x t run cfg j fc) is sr))" for "is"
    using assms(2) by (induction "is" arbitrary: sr) (simp_all add: poll)
  then show ?thesis by (simp only: join_all_def)
qed

text \<open>\<open>settles Q m\<close>: the answer leaves \<open>Q\<close>, an error leaves what \<open>after_error\<close> says.\<close>

abbreviation settles :: "('a \<Rightarrow> 's \<times> 'e \<Rightarrow> bool) \<Rightarrow> ('s, 'e, 'a) exec \<Rightarrow> bool" where
  "settles Q m \<equiv> triple alive m Q after_error"

lemma quiet_settles: "quiet m \<Longrightarrow> (\<And>a. settles Q (f a)) \<Longrightarrow> settles Q (sbind m f)"
  unfolding quiet_def
  by (rule triple_sbind [of _ _ "\<lambda>_. alive"]) (auto simp: after_error_def elim: triple_weaken)

lemma quiet_settles_all: "quiet m \<Longrightarrow> settles (\<lambda>_. alive) m"
  unfolding quiet_def by (erule triple_weaken) (auto simp: after_error_def)

lemma save_status:
  assumes "rr_run_id rec = run"
  shows "triple alive (on_store (cp_save (gx_store x) t rec))
    (\<lambda>_ w. invar (fst w) \<and> saved (fst w) = Some rec) (\<lambda>e w. alive w \<and> \<not> is_cap e)"
proof (rule tripleI)
  fix w :: "'s \<times> 'e" and a w'
  assume w: "alive w" and r: "on_store (cp_save (gx_store x) t rec) w = (Inr a, w')"
  from r save_bad [OF _ assms, of "fst w"] have "colon_free run"
    by (auto simp: on_store_def split: prod.splits)
  with save [OF _ this assms, of "fst w"] w r show "invar (fst w') \<and> saved (fst w') = Some rec"
    by (auto simp: on_store_def alive_def split: prod.splits)
next
  fix w :: "'s \<times> 'e" and e w'
  assume w: "alive w" and r: "on_store (cp_save (gx_store x) t rec) w = (Inl e, w')"
  with save [OF _ _ assms, of "fst w"] have "\<not> colon_free run"
    by (cases "colon_free run") (auto simp: on_store_def alive_def split: prod.splits)
  with save_bad [OF _ assms, of "fst w"] r w show "alive w' \<and> \<not> is_cap e"
    by (auto simp: on_store_def alive_def split: prod.splits)
qed

lemma built_settles:
  assumes "\<And>rec w. invar (fst w) \<Longrightarrow> saved (fst w) = Some rec \<Longrightarrow> rr_status rec = status \<Longrightarrow>
    (case m w of (Inr a, w') \<Rightarrow> Q a w' | (Inl e, w') \<Rightarrow> after_error e w')"
  shows "settles Q (sbind (sres (build_record_with_frontier dc run gj c st vis status fj)) (\<lambda>rec.
     sbind (on_store (cp_save (gx_store x) t rec)) (\<lambda>_. m)))"
proof (cases "build_record_with_frontier dc run gj c st vis status fj")
  case (Inl e)
  with quiet_yields(3) [of dc run gj c st vis status fj] have "\<not> is_cap e"
    by (auto simp: triple_def)
  with Inl show ?thesis by (auto simp: after_error_def intro!: tripleI)
next
  case (Inr rec)
  note b = built_record [OF Inr]
  have 1: "triple alive (on_store (cp_save (gx_store x) t rec))
      (\<lambda>_ w. invar (fst w) \<and> saved (fst w) = Some rec) after_error"
    using save_status [OF conjunct1 [OF b]] by (rule triple_weaken) (auto simp: after_error_def)
  have 2: "triple (\<lambda>w. invar (fst w) \<and> saved (fst w) = Some rec) m Q after_error"
    using assms [of _ rec] b by (simp add: triple_def)
  show ?thesis unfolding Inr sbind_sres_Inr by (rule triple_sbind [OF 1 2])
qed

lemma fail_region_settles:
  "settles (\<lambda>_ _. False) (fail_region x t run gj p st vis fro err)"
proof (cases "is_cap err")
  case True
  then obtain r where "err = IterationCap r" by (cases err) auto
  then show ?thesis
    by (auto simp: fail_region_def after_error_def dead_def intro!: quiet_settles triple_intros built_settles)
next
  case False
  then show ?thesis by (cases err) (auto simp: fail_region_def after_error_def intro!: triple_sfail)
qed

lemma quiet_merge_region: "quiet (merge_region x t run cfg gj j st fro col mer tr)"
proof -
  have "quiet (sres (merge_branches dc k bcs ms))" for dc k and bcs :: "'j branch_cursor list" and ms
  proof (intro quietI keeps_simple yields_sres TrueI)
    fix e
    show "merge_branches dc k bcs ms = Inl e \<Longrightarrow> \<not> is_cap e"
      by (induction bcs arbitrary: ms)
        (auto simp: rbind_def ser_def ok_or_def split: sum.splits option.splits)
  qed
  then show ?thesis
    unfolding merge_region_def Let_def build_record_def by (intro triple_intros quiet_built) auto
qed

lemma drive_frontier_settles: "settles (\<lambda>_. alive) (drive_frontier x t run cfg p j st vis fro b)"
proof -
  have "settles (\<lambda>_. alive) (\<lambda>w. case open_region x t fc b (region_of vis fro w) of
         (Inl err, rg) \<Rightarrow> (Inl err, rg_world rg)
       | (Inr _, rg) \<Rightarrow> settle_region x t run cfg j fc st (run_frontier x t run cfg j fc rg))"
    (is "settles _ ?m") if fc: "fc_run_id fc = run" for fc
  proof -
    have "case ?m w of (Inr a, w') \<Rightarrow> alive w' | (Inl e, w') \<Rightarrow> after_error e w'" if w: "alive w" for w
    proof -
      obtain r rg where r: "open_region x t fc b (region_of vis fro w) = (r, rg)" by fastforce
      have "rg_alive (region_of vis fro w)" using w by (simp add: region_of_def)
      with keepsD [OF fc_checkpoint_alive [OF fc], of "region_of vis fro w"] r
      have rg: "rg_alive rg" by (auto simp: open_region_def split: if_splits)
      have quiet_err: "\<not> is_cap e" if "r = Inl e" for e
        using r that yieldsD [OF quiet_yields(4), of x t fc "region_of vis fro w"]
        by (simp add: open_region_def split: if_splits)
      let ?sr = "run_frontier x t run cfg j fc rg"
      have sr: "rg_alive (snd ?sr)" by (simp add: run_frontier_def join_all_alive [OF fc] rg)
      obtain fe tr mer where c: "collect_results (fc_trunk_visits fc) (List.map_filter settled (fst ?sr)) =
        (fe, tr, mer)" by (metis prod.exhaust)
      have "case settle_region x t run cfg j fc st ?sr of (Inr a, w') \<Rightarrow> alive w' | (Inl e, w') \<Rightarrow> after_error e w'"
      proof (cases fe)
        case None
        with tripleD [OF quiet_settles_all [OF quiet_merge_region] sr] c show ?thesis
          by (auto simp: settle_region_def Let_def split: prod.splits sum.splits)
      next
        case (Some e)
        with tripleD(2) [OF fail_region_settles sr] c show ?thesis
          by (auto simp: settle_region_def Let_def fail_region_no_value split: prod.splits sum.splits)
      qed
      with r rg quiet_err show ?thesis by (cases r) (auto simp: after_error_def)
    qed
    then show ?thesis by (simp add: triple_def)
  qed
  then show ?thesis
    unfolding drive_frontier_def Let_def by (intro quiet_settles triple_intros) simp
qed

subsubsection \<open>The trunk\<close>

definition ended :: "graph_run_outcome \<Rightarrow> 's \<times> 'e \<Rightarrow> bool" where
  "ended out w \<longleftrightarrow> invar (fst w) \<and> go_status out \<in> {Succeeded, AwaitingInput} \<and>
     (\<exists>rec. saved (fst w) = Some rec \<and> rr_status rec = go_status out)"

definition stepped :: "step_result \<Rightarrow> 's \<times> 'e \<Rightarrow> bool" where
  "stepped r w \<longleftrightarrow> (case r of Continue _ \<Rightarrow> alive w | Finish out \<Rightarrow> ended out w)"

lemma save_trunk_settles:
  assumes "\<And>rec w. invar (fst w) \<Longrightarrow> saved (fst w) = Some rec \<Longrightarrow> rr_status rec = status \<Longrightarrow>
    (case m w of (Inr a, w') \<Rightarrow> Q a w' | (Inl e, w') \<Rightarrow> after_error e w')"
  shows "settles Q (sbind (save_trunk x t run cfg c st vis status) (\<lambda>_. m))"
proof -
  have "sbind (save_trunk x t run cfg c st vis status) (\<lambda>_. m) =
      sbind (sres (ser (dc_cfg_to (gx_codec x) cfg))) (\<lambda>gj.
      sbind (sres (build_record_with_frontier (gx_codec x) run gj c st vis status None)) (\<lambda>rec.
      sbind (on_store (cp_save (gx_store x) t rec)) (\<lambda>_. m)))"
    by (auto simp: save_trunk_def build_record_def sbind_def fun_eq_iff split: prod.splits sum.splits)
  then show ?thesis using built_settles [OF assms] by (auto intro: quiet_settles triple_intros)
qed

lemma advance_settles: "settles stepped (advance x t run cfg fr)"
proof -
  have "yields (advance x t run cfg fr) (\<lambda>r. r = Continue fr) (\<lambda>_. True)"
    by (rule tripleI) (auto simp: advance_def sbind_def split: prod.splits sum.splits)
  from triple_both [OF quiet_settles_all [OF quiet_advance] this] show ?thesis
    by (rule triple_weaken) (auto simp: stepped_def)
qed

lemma trunk_visit_settles:
  assumes ap: "approval_uncapped x"
  shows "settles stepped (trunk_visit x t run cfg fr)"
proof -
  have eff: "quiet (visit_effect x t run n a (call_agent x a r1))"
    "quiet (visit_effect x t run n a (call_tool x a r2))"
    "quiet (visit_effect x t run n a (call_supervisor x a r3))" for n a r1 r2 r3
    by (intro triple_intros)+
  have agent: "settles stepped (visit_agent x t run cfg fr pr mo tls pv ar ih)" for pr mo tls pv ar ih
    unfolding visit_agent_def Let_def
    by (auto intro!: quiet_settles eff quiet_simple advance_settles split: prod.split)
  have tool: "settles stepped (visit_tool x t run cfg fr tn)" for tn
    unfolding visit_tool_def Let_def
    by (auto intro!: quiet_settles eff quiet_simple advance_settles split: prod.split)
  have sup: "settles stepped (visit_supervisor x t run cfg fr pr mo rs pv ar)" for pr mo rs pv ar
    unfolding visit_supervisor_def Let_def
    by (auto intro!: quiet_settles eff quiet_simple advance_settles split: prod.split)
  have router: "settles stepped (visit_router x t run cfg fr)"
    unfolding visit_router_def Let_def by (intro quiet_settles quiet_simple advance_settles)
  have join: "settles stepped (visit_join cfg fr)"
    unfolding visit_join_def
    by (intro quiet_settles quiet_simple triple_sret) (simp add: stepped_def)
  have respond: "settles stepped (visit_respond x t run cfg fr)"
    unfolding visit_respond_def Let_def
    by (intro save_trunk_settles) (auto simp: stepped_def ended_def)
  have par: "settles stepped (visit_parallel x t run cfg fr)"
  proof -
    have "quiet (sres (find_join_for_parallel cfg p))" for p
      by (intro quietI keeps_simple yields_sres TrueI) (rule find_join_no_cap)
    then have "settles (\<lambda>_. alive) (run_parallel_region x t run cfg p st vis)" for p st vis
      unfolding run_parallel_region_def by (intro quiet_settles quiet_simple drive_frontier_settles)
    then show ?thesis
      unfolding visit_parallel_def by (rule triple_sbind) (rule triple_sret, simp add: stepped_def)
  qed
  have env: "quiet (on_env (gx_approval x req))" for req
  proof (rule quietI [OF alive_store(4)], rule tripleI)
    fix w e w'
    assume "on_env (gx_approval x req) w = (Inl e, w')"
    with ap show "\<not> is_cap e"
      unfolding approval_uncapped_def on_env_def by (auto split: prod.splits)
  qed simp
  have res: "quiet (sres (resolve_decision cfg n b nx out))" for n b nx out
    by (intro quietI keeps_simple yields_sres) (auto simp: resolve_decision_def ok_or_def rbind_def
        split: node_visit_outcome.splits option.splits if_splits)
  have appr: "settles stepped (visit_approval x t run cfg fr ti mode ri co de)" for ti mode ri co de
    unfolding visit_approval_def Let_def
    by (rule quiet_settles [OF env])
      (auto intro!: save_trunk_settles quiet_settles quiet_simple res advance_settles
        simp: stepped_def ended_def split: approval_outcome.split prod.split)
  show ?thesis
    unfolding trunk_visit_def
    by (auto intro: agent tool sup router join respond par appr triple_sfail
        simp: after_error_def split: option.split node_kind.split)
qed

lemma drive_loop_settles:
  assumes "approval_uncapped x"
  shows "settles ended (drive_loop x t run cfg n fr)"
proof (induction n arbitrary: fr)
  case 0
  show ?case
    unfolding drive_loop.simps by (rule save_trunk_settles) (auto simp: after_error_def dead_def)
next
  case (Suc n)
  show ?case
    unfolding drive_loop.simps
  proof (rule triple_sbind [OF trunk_visit_settles [OF assms]])
    fix r
    show "triple (stepped r) (case r of Continue fr' \<Rightarrow> drive_loop x t run cfg n fr' | Finish out \<Rightarrow> sret out)
        ended after_error"
    proof (cases r)
      case (Continue fr')
      then have "stepped r = alive" by (simp add: stepped_def fun_eq_iff)
      with Continue Suc show ?thesis by simp
    qed (auto simp: stepped_def intro: triple_sret)
  qed
qed

lemma drive_settles:
  assumes "approval_uncapped x"
  shows "settles ended (drive x t run cfg c st vis)"
    and "settles ended (resume_parallel x t run cfg p st vis fro)"
proof -
  show d: "settles ended (drive x t run cfg c st vis)" for c st vis
    unfolding drive_def by (rule drive_loop_settles [OF assms])
  have "quiet (sres (find_join_for_parallel cfg p))"
    by (intro quietI keeps_simple yields_sres TrueI) (rule find_join_no_cap)
  then show "settles ended (resume_parallel x t run cfg p st vis fro)"
    unfolding resume_parallel_def
    by (intro quiet_settles triple_sbind [OF drive_frontier_settles] d)
qed

lemma drive_from_record_settles:
  "approval_uncapped x \<Longrightarrow> settles ended (drive_from_record x t run rec)"
  unfolding drive_from_record_def
  by (intro quiet_settles quiet_simple) (auto split: option.split intro: quiet_settles quiet_simple drive_settles)

lemma start_settles:
  assumes ap: "approval_uncapped x"
  shows "settles ended (start x t run cfg txt)"
  unfolding start_def Let_def
proof (rule quiet_settles [OF quiet_simple(6)])
  fix existing
  show "settles ended
     (case existing of
        Some rec \<Rightarrow>
          (case rr_status rec of
             Running \<Rightarrow> drive_from_record x t run rec
           | AwaitingInput \<Rightarrow> drive_from_record x t run rec
           | Succeeded \<Rightarrow> sfail (AlreadyCompleted run)
           | Failed \<Rightarrow> sfail (AlreadyCompleted run))
      | None \<Rightarrow>
          sbind (save_trunk x t run cfg (g_entry (gc_graph cfg)) (push_message RoleUser txt default_run_state) [] Running)
            (\<lambda>_. drive x t run cfg (g_entry (gc_graph cfg)) (push_message RoleUser txt default_run_state) []))"
    by (auto split: option.split run_status.split intro!: quiet_settles quiet_save_trunk drive_settles
        drive_from_record_settles ap triple_sfail simp: after_error_def)
qed

lemma resume_settles:
  assumes ap: "approval_uncapped x"
  shows "settles ended (resume x t run)"
proof -
  have ld: "triple alive (on_store (cp_load (gx_store x) t run))
      (\<lambda>r w. alive w \<and> r = saved (fst w)) after_error"
    using load by (intro tripleI) (fastforce simp: alive_def on_store_def split: prod.splits)+
  show ?thesis
    unfolding resume_def
  proof (rule triple_sbind [OF ld])
    fix r
    show "triple (\<lambda>w. alive w \<and> r = saved (fst w))
       (sbind (sres (ok_or (UnknownRun run) r)) (\<lambda>rec.
          if rr_status rec = Succeeded \<or> rr_status rec = Failed then
            sbind (sres (ser (dc_state_from (gx_codec x) (rr_state_json rec)))) (\<lambda>st.
              sret \<lparr>go_status = rr_status rec, go_reply = last_assistant_message st,
                    go_trail = rebuild_trail_from_state st\<rparr>)
          else drive_from_record x t run rec)) ended after_error"
    proof (cases r)
      case None
      then show ?thesis by (auto simp: after_error_def intro!: tripleI)
    next
      case (Some rec)
      show ?thesis
      proof (cases "rr_status rec = Succeeded \<or> rr_status rec = Failed")
        case True
        with Some have "\<not> (alive w \<and> r = saved (fst w))" for w 
          unfolding alive_def by (metis insertE run_status.distinct singletonD)
        then show ?thesis by (intro tripleI) blast+
      next
        case False
        have "triple (\<lambda>w. alive w \<and> r = saved (fst w)) (drive_from_record x t run rec) ended after_error"
          using drive_from_record_settles [OF ap] by (rule triple_weaken) auto
        with Some False show ?thesis by simp
      qed
    qed
  qed
qed

subsection \<open>Errors of effects\<close>

lemma trunk_visit_effect_first:
  assumes "node_of (gc_graph cfg) (fr_cursor fr) = Some nd" and "effect_kind (nd_kind nd)"
  shows "\<exists>k. trunk_visit x t run cfg fr =
    sbind (visit_effect x t run (fr_cursor fr) (next_attempt (fr_visits fr) (fr_cursor fr))
      (node_effect x cfg fr (nd_kind nd))) k"
  using assms
  by (cases "nd_kind nd")
    (auto simp: trunk_visit_def visit_agent_def visit_tool_def visit_supervisor_def node_effect_def Let_def)

lemma effect_error_leaves:
  assumes "node_of (gc_graph cfg) (fr_cursor fr) = Some nd" and "effect_kind (nd_kind nd)"
    and "invar s" and "ledger s (fr_cursor fr) (next_attempt (fr_visits fr) (fr_cursor fr)) = None"
    and "\<And>s'. node_effect x cfg fr (nd_kind nd) (s', e) = (Inl err, (s', e'))"
  shows "\<exists>s'. trunk_visit x t run cfg fr (s, e) = (Inl err, (s', e')) \<and> invar s' \<and>
    saved s' = saved s \<and> ledger s' = ledger s"
proof -
  from trunk_visit_effect_first [OF assms(1,2)] obtain k where k: "trunk_visit x t run cfg fr =
    sbind (visit_effect x t run (fr_cursor fr) (next_attempt (fr_visits fr) (fr_cursor fr))
      (node_effect x cfg fr (nd_kind nd))) k" by blast
  from visit_effect_error [OF assms(3,4), of "node_effect x cfg fr (nd_kind nd)"] assms(5) k
  show ?thesis by (fastforce simp: sbind_def)
qed

text \<open>A node whose id has a colon: the effect runs, and its result can never be recorded.\<close>

lemma colon_node_stuck:
  assumes "node_of (gc_graph cfg) (fr_cursor fr) = Some nd" and "effect_kind (nd_kind nd)"
    and "invar s" and "ledger s (fr_cursor fr) (next_attempt (fr_visits fr) (fr_cursor fr)) = None"
    and "\<not> colon_free (fr_cursor fr)"
    and "\<And>s'. node_effect x cfg fr (nd_kind nd) (s', e) = (Inr v, (s', e'))"
  shows "\<exists>ce s'. trunk_visit x t run cfg fr (s, e) = (Inl (CheckpointErr ce), (s', e')) \<and> invar s' \<and>
    saved s' = saved s \<and> ledger s' = ledger s"
proof -
  from trunk_visit_effect_first [OF assms(1,2)] obtain k where k: "trunk_visit x t run cfg fr =
    sbind (visit_effect x t run (fr_cursor fr) (next_attempt (fr_visits fr) (fr_cursor fr))
      (node_effect x cfg fr (nd_kind nd))) k" by blast
  let ?a = "next_attempt (fr_visits fr) (fr_cursor fr)"
  from load_visit [OF assms(3), of "fr_cursor fr" ?a] assms(4) obtain s1 where
    s1: "cp_load_node_visit (gx_store x) t run (fr_cursor fr) ?a s = (Inr None, s1)" "invar s1"
      "saved s1 = saved s" "ledger s1 = ledger s" by auto
  from record_bad [of "fr_cursor fr" ?a v s1] assms(5) obtain ce where
    "cp_record_node_visit (gx_store x) t run (fr_cursor fr) ?a v s1 = (Inl ce, s1)" by auto
  with s1 assms(6) k show ?thesis
    by (auto simp: visit_effect_def on_store_def sbind_def)
qed

text \<open>
  A supervisor whose answer names no usable route. The visit that met it has put the answer into the ledger
  and has not moved the checkpoint; every later visit fails the same way.
\<close>

lemma supervisor_effect_error:
  "visit_effect x t run n a (call_supervisor x b q) w = (Inl err, w') \<Longrightarrow> \<forall>m. err \<noteq> GraphErr m"
  by (auto simp: visit_effect_def call_supervisor_def at_node_def on_store_def on_env_def sbind_def map_err_def
      split: prod.splits sum.splits option.splits node_visit_outcome.splits)

lemma advance_error: "advance x t run cfg fr w = (Inl err, w') \<Longrightarrow> \<exists>ce. err = CheckpointErr ce"
  by (auto simp: advance_def save_trunk_def build_record_def build_record_with_frontier_def ser_def ok_or_def
      on_store_def sbind_def map_err_def rbind_def split: prod.splits sum.splits option.splits)

lemma supervisor_unknown:
  assumes nd: "node_of (gc_graph cfg) (fr_cursor fr) = Some nd" "nd_kind nd = Supervisor pr mo rs pv ar"
    and s: "invar s" and visit: "trunk_visit x t run cfg fr (s, e) =
      (Inl (GraphErr (Invalid (SupervisorBranchUnknown (fr_cursor fr) b))), (s1, e1))"
  shows "invar s1 \<and> saved s1 = saved s \<and> supervisor_target (gc_graph cfg) (fr_cursor fr) rs b = None \<and>
    (\<exists>v a. ledger s1 (fr_cursor fr) (next_attempt (fr_visits fr) (fr_cursor fr)) = Some v \<and>
       supervisor_result_from_value v = Some a \<and> su_branch a = b)"
proof -
  let ?q = "\<lparr>sq_node_id = fr_cursor fr, sq_system_prompt = pr, sq_model = mo, sq_routes = rs,
    sq_state = fr_state fr, sq_provider = pv, sq_agent_ref = ar\<rparr>"
  let ?a = "next_attempt (fr_visits fr) (fr_cursor fr)"
  let ?m = "visit_effect x t run (fr_cursor fr) ?a (call_supervisor x ?a ?q)"
  obtain res s' e' where m: "?m (s, e) = (res, (s', e'))" by (metis prod.exhaust)
  with visit nd supervisor_effect_error [of "fr_cursor fr" ?a ?a ?q "(s, e)"] obtain v rep where
    res: "res = Inr (v, rep)"
    by (cases res) (auto simp: trunk_visit_def visit_supervisor_def Let_def sbind_def)
  from visit_effect_ledgered [OF s m [unfolded res call_supervisor_def at_node_def]]
  have led: "invar s' \<and> ledger s' (fr_cursor fr) ?a = Some v \<and> saved s' = saved s" .
  from visit nd m res led show ?thesis
    by (auto simp: trunk_visit_def visit_supervisor_def Let_def sbind_def ser_def ok_or_def
        dest!: advance_error split: option.splits)
qed

lemma supervisor_stuck:
  assumes nd: "node_of (gc_graph cfg) (fr_cursor fr) = Some nd" "nd_kind nd = Supervisor pr mo rs pv ar"
    and bad: "supervisor_target (gc_graph cfg) (fr_cursor fr) rs (su_branch a) = None"
    and s: "invar s" "ledger s (fr_cursor fr) (next_attempt (fr_visits fr) (fr_cursor fr)) = Some v"
    and v: "supervisor_result_from_value v = Some a"
  shows "\<exists>s'. trunk_visit x t run cfg fr (s, e) =
      (Inl (GraphErr (Invalid (SupervisorBranchUnknown (fr_cursor fr) (su_branch a)))), (s', e)) \<and>
    invar s' \<and> saved s' = saved s \<and> ledger s' = ledger s"
proof -
  let ?q = "\<lparr>sq_node_id = fr_cursor fr, sq_system_prompt = pr, sq_model = mo, sq_routes = rs,
    sq_state = fr_state fr, sq_provider = pv, sq_agent_ref = ar\<rparr>"
  let ?a = "next_attempt (fr_visits fr) (fr_cursor fr)"
  from visit_effect_replays [OF s, of "call_supervisor x ?a ?q" e] obtain s' where
    "visit_effect x t run (fr_cursor fr) ?a (call_supervisor x ?a ?q) (s, e) = (Inr (v, True), (s', e))"
    "invar s'" "saved s' = saved s" "ledger s' = ledger s" by blast
  with nd bad v show ?thesis
    by (simp add: trunk_visit_def visit_supervisor_def Let_def sbind_def ser_def ok_or_def)
qed

text \<open>The first recorded decision counts, whatever the answer is later.\<close>

lemma approval_first_decision:
  assumes nd: "node_of (gc_graph cfg) (fr_cursor fr) = Some nd" "nd_kind nd = Approval ti mode ri co de"
    and s: "invar s" "colon_free run" "colon_free (fr_cursor fr)"
    and led: "ledger s (fr_cursor fr) (next_attempt (fr_visits fr) (fr_cursor fr)) =
      Some (json_obj [(''decision'', JString b0)])"
    and t0: "branch_target (gc_graph cfg) (fr_cursor fr) b0 = Some n0"
    and ans: "\<And>req. gx_approval x req e = (Inr (Decided b), e')"
    and tb: "branch_target (gc_graph cfg) (fr_cursor fr) b = Some n"
    and res: "trunk_visit x t run cfg fr (s, e) = (Inr r, w)"
  shows "\<exists>fr'. r = Continue fr' \<and> fr_cursor fr' = n0"
proof -
  from record_again [OF s led, of "json_obj [(''decision'', JString b)]"] obtain s1 where
    "on_store (cp_record_node_visit (gx_store x) t run (fr_cursor fr)
       (next_attempt (fr_visits fr) (fr_cursor fr)) (json_obj [(''decision'', JString b)])) (s, e') =
     (Inr (Replayed (json_obj [(''decision'', JString b0)])), (s1, e'))"
    by (auto simp: on_store_def)
  with res nd ans t0 tb show ?thesis
    by (auto simp: trunk_visit_def visit_approval_def Let_def sbind_def on_env_def resolve_decision_def
        json_obj_def advance_def split: prod.splits sum.splits if_splits)
qed

end

end
