(* ===== verification/Kv_Checkpoint.thy ===== *)
theory Kv_Checkpoint
  imports Checkpoint
begin

section \<open>The key-value checkpoint store meets the contract\<close>

text \<open>
  \<open>KvCheckpointStore\<close> over any backend that keeps the laws of \<open>aw_kv\<close>, for as long as no record it
  wrote has expired: \<open>H\<close> is an instant that the clock does not pass and that lies within the time to
  live of everything written. The serialiser is asked to write every record and value and to read back
  what it wrote.
\<close>

locale kv_checkpoints = aw_kv kv invar live
  for kv :: "('s, 'b) kv_ops" and invar :: "'s \<Rightarrow> bool" and live :: "'s \<Rightarrow> nat \<Rightarrow> string \<Rightarrow> 'b option" +
  fixes cc :: "('j, 'b) cp_codec"
    and t :: tenant_context
    and run :: string
    and H :: nat
  assumes rec_codec: "\<exists>b. cc_rec_to cc rec = Some b \<and> cc_rec_from cc b = Some rec"
    and val_codec: "\<exists>b. cc_val_to cc v = Some b \<and> cc_val_from cc b = Some v"
begin

abbreviation now :: "'s kv_clocked \<Rightarrow> nat" where
  "now c \<equiv> kc_clock c (kc_ticks c)"

definition run_keys :: "string set" where
  "run_keys = insert (kv_run_key t run) {kv_visit_key t run n a | n a. True}"

definition kc_saved :: "'s kv_clocked \<Rightarrow> 'j graph_run_record option" where
  "kc_saved c = Option.bind (live (kc_kv c) H (kv_run_key t run)) (cc_rec_from cc)"

definition kc_ledger :: "'s kv_clocked \<Rightarrow> string \<Rightarrow> nat \<Rightarrow> json option" where
  "kc_ledger c n a = Option.bind (live (kc_kv c) H (kv_visit_key t run n a)) (cc_val_from cc)"

text \<open>The clock only moves forward and stays below \<open>H\<close>; what is stored is readable and stays to \<open>H\<close>.\<close>

definition kc_inv :: "'s kv_clocked \<Rightarrow> bool" where
  "kc_inv c \<longleftrightarrow>
     invar (kc_kv c) \<and> mono (kc_clock c) \<and> (\<forall>i. kc_clock c i \<le> H) \<and> H < now c + CHECKPOINT_TTL \<and>
     (\<forall>k \<in> run_keys. \<forall>u. now c \<le> u \<longrightarrow> u \<le> H \<longrightarrow> live (kc_kv c) u k = live (kc_kv c) H k) \<and>
     (\<forall>b. live (kc_kv c) H (kv_run_key t run) = Some b \<longrightarrow> (\<exists>r. cc_rec_from cc b = Some r)) \<and>
     (\<forall>n a b. live (kc_kv c) H (kv_visit_key t run n a) = Some b \<longrightarrow> (\<exists>v. cc_val_from cc b = Some v))"

lemma run_key_mem [simp]: "kv_run_key t run \<in> run_keys" "kv_visit_key t run n a \<in> run_keys"
  by (auto simp: run_keys_def)

lemma kc_invD:
  assumes "kc_inv c"
  shows "invar (kc_kv c)" and "mono (kc_clock c)" and "kc_clock c i \<le> H" and "H < now c + CHECKPOINT_TTL"
    and "k \<in> run_keys \<Longrightarrow> now c \<le> u \<Longrightarrow> u \<le> H \<Longrightarrow> live (kc_kv c) u k = live (kc_kv c) H k"
    and "live (kc_kv c) H (kv_run_key t run) = Some b \<Longrightarrow> \<exists>r. cc_rec_from cc b = Some r"
    and "live (kc_kv c) H (kv_visit_key t run n a) = Some b \<Longrightarrow> \<exists>v. cc_val_from cc b = Some v"
  using assms unfolding kc_inv_def by blast+

lemma kc_tick: "kc_inv c \<Longrightarrow> now c \<le> kc_clock c (Suc (kc_ticks c))"
  by (rule monoD [OF kc_invD(2)]) simp_all

lemma kc_live_now: "kc_inv c \<Longrightarrow> k \<in> run_keys \<Longrightarrow> live (kc_kv c) (now c) k = live (kc_kv c) H k"
  by (rule kc_invD(5) [OF _ _ order_refl kc_invD(3)])

lemma kc_invI:
  assumes "kc_inv c" and "invar s'"
    and "\<And>k u. k \<in> run_keys \<Longrightarrow> now c \<le> u \<Longrightarrow> u \<le> H \<Longrightarrow> live s' u k = live s' H k"
    and "\<And>b. live s' H (kv_run_key t run) = Some b \<Longrightarrow> \<exists>r. cc_rec_from cc b = Some r"
    and "\<And>n a b. live s' H (kv_visit_key t run n a) = Some b \<Longrightarrow> \<exists>v. cc_val_from cc b = Some v"
  shows "kc_inv (c\<lparr>kc_kv := s', kc_ticks := Suc (kc_ticks c)\<rparr>)"
proof -
  note d = kc_invD [OF assms(1)] and tick = kc_tick [OF assms(1)]
  have "H < kc_clock c (Suc (kc_ticks c)) + CHECKPOINT_TTL" using d(4) tick by linarith
  moreover have "live s' u k = live s' H k" if "k \<in> run_keys" "kc_clock c (Suc (kc_ticks c)) \<le> u" "u \<le> H" for k u
    by (rule assms(3) [OF that(1) order_trans [OF tick that(2)] that(3)])
  moreover have "kc_kv (c\<lparr>kc_kv := s', kc_ticks := n\<rparr>) = s'" "kc_clock (c\<lparr>kc_kv := s', kc_ticks := n\<rparr>) = kc_clock c"
    "kc_ticks (c\<lparr>kc_kv := s', kc_ticks := n\<rparr>) = n" for n by simp_all
  ultimately show ?thesis
    unfolding kc_inv_def
    by (simp only:) (intro conjI ballI allI impI assms(2) d(2,3); (blast intro: assms(4,5))?)
qed

text \<open>An operation that changes nothing, and one that stores a readable document for the time to live.\<close>

lemma kc_inv_same:
  assumes c: "kc_inv c" and s: "invar s'" "\<forall>u \<ge> now c. live s' u = live (kc_kv c) u"
  shows "kc_inv (c\<lparr>kc_kv := s', kc_ticks := Suc (kc_ticks c)\<rparr>) \<and>
    kc_saved (c\<lparr>kc_kv := s', kc_ticks := Suc (kc_ticks c)\<rparr>) = kc_saved c \<and>
    kc_ledger (c\<lparr>kc_kv := s', kc_ticks := Suc (kc_ticks c)\<rparr>) = kc_ledger c"
proof -
  have eq: "live s' u = live (kc_kv c) u" if "now c \<le> u" for u using s(2) that by blast
  note H = eq [OF kc_invD(3) [OF c]]
  have "kc_inv (c\<lparr>kc_kv := s', kc_ticks := Suc (kc_ticks c)\<rparr>)"
  proof (rule kc_invI [OF c s(1)])
    fix k u
    assume "k \<in> run_keys" and u: "now c \<le> u" "u \<le> H"
    with kc_invD(5) [OF c] show "live s' u k = live s' H k" unfolding H eq [OF u(1)] by blast
  next
    fix b
    assume "live s' H (kv_run_key t run) = Some b"
    then show "\<exists>r. cc_rec_from cc b = Some r" unfolding H by (rule kc_invD(6) [OF c])
  next
    fix n a b
    assume "live s' H (kv_visit_key t run n a) = Some b"
    then show "\<exists>v. cc_val_from cc b = Some v" unfolding H by (rule kc_invD(7) [OF c])
  qed
  then show ?thesis by (simp add: kc_saved_def kc_ledger_def H fun_eq_iff)
qed

lemma kc_inv_write:
  assumes c: "kc_inv c" and s: "invar s'"
    "\<forall>u \<ge> now c. live s' u = (live (kc_kv c) u)(k := ttl_view (now c) CHECKPOINT_TTL b u)"
    and dec: "k = kv_run_key t run \<Longrightarrow> cc_rec_from cc b \<noteq> None"
      "\<And>n a. k = kv_visit_key t run n a \<Longrightarrow> cc_val_from cc b \<noteq> None"
  shows "kc_inv (c\<lparr>kc_kv := s', kc_ticks := Suc (kc_ticks c)\<rparr>) \<and>
    live s' H = (live (kc_kv c) H)(k := Some b)"
proof -
  note kc_invD(4) [OF c]
  with s(2) have eq: "live s' u = (live (kc_kv c) u)(k := Some b)" if "now c \<le> u" "u \<le> H" for u
    using that by (simp add: ttl_view_def)
  note H = eq [OF kc_invD(3) [OF c] order_refl]
  have "kc_inv (c\<lparr>kc_kv := s', kc_ticks := Suc (kc_ticks c)\<rparr>)"
  proof (rule kc_invI [OF c s(1)])
    fix k' u
    assume k': "k' \<in> run_keys" and u: "now c \<le> u" "u \<le> H"
    from kc_invD(5) [OF c k' u] show "live s' u k' = live s' H k'" unfolding H eq [OF u] by simp
  next
    fix b'
    assume "live s' H (kv_run_key t run) = Some b'"
    with dec(1) kc_invD(6) [OF c] show "\<exists>r. cc_rec_from cc b' = Some r"
      unfolding H by (cases "k = kv_run_key t run") auto
  next
    fix n a b'
    assume "live s' H (kv_visit_key t run n a) = Some b'"
    with dec(2) kc_invD(7) [OF c] show "\<exists>v. cc_val_from cc b' = Some v"
      unfolding H by (cases "k = kv_visit_key t run n a") auto
  qed
  with H show ?thesis by blast
qed

lemma kv_call_eq:
  "op (now c) (kc_kv c) = (Inr r, s') \<Longrightarrow>
     kv_call op c = (Inr r, c\<lparr>kc_kv := s', kc_ticks := Suc (kc_ticks c)\<rparr>)"
  by (simp add: kv_call_def)

lemma kc_get:
  assumes "kc_inv c" and "k \<in> run_keys"
  shows "\<exists>c'. kv_call (\<lambda>u. kv_get kv u k) c = (Inr (live (kc_kv c) H k), c') \<and> kc_inv c' \<and>
    kc_saved c' = kc_saved c \<and> kc_ledger c' = kc_ledger c \<and> live (kc_kv c') H = live (kc_kv c) H"
proof -
  from get [OF kc_invD(1) [OF assms(1)], of "now c" k] obtain s' where
    s': "kv_get kv (now c) k (kc_kv c) = (Inr (live (kc_kv c) (now c) k), s')" "invar s'"
      "\<forall>u \<ge> now c. live s' u = live (kc_kv c) u" by blast
  from kc_inv_same [OF assms(1) s'(2,3)] kv_call_eq [of "\<lambda>u. kv_get kv u k", OF s'(1)]
    kc_live_now [OF assms] s'(3) kc_invD(3) [OF assms(1)]
  show ?thesis by auto
qed

end

sublocale kv_checkpoints \<subseteq> store: checkpoint_store "kv_checkpoint_store kv cc" t run kc_inv kc_saved kc_ledger
proof (unfold_locales, goal_cases)
  case (1 s)
  from kc_get [OF 1, of "kv_run_key t run"] obtain c' where
    c': "kv_call (\<lambda>u. kv_get kv u (kv_run_key t run)) s = (Inr (live (kc_kv s) H (kv_run_key t run)), c')"
      "kc_inv c'" "kc_saved c' = kc_saved s" "kc_ledger c' = kc_ledger s" by auto
  from c' show ?case
    by (cases "live (kc_kv s) H (kv_run_key t run)")
      (auto simp: kv_checkpoint_store_def kc_load_def sbind_def kc_saved_def dest: kc_invD(6) [OF 1])
next
  case (2 s rec)
  from rec_codec obtain b where b: "cc_rec_to cc rec = Some b" "cc_rec_from cc b = Some rec" by blast
  note i = kc_invD(1) [OF 2(1)]
  from set_ex [OF i, of "now s" "kv_run_key t run" b CHECKPOINT_TTL] obtain s' where
    s': "kv_set_ex kv (now s) (kv_run_key t run) b CHECKPOINT_TTL (kc_kv s) = (Inr (), s')" "invar s'"
      "\<forall>u \<ge> now s. live s' u = (live (kc_kv s) u)(kv_run_key t run := ttl_view (now s) CHECKPOINT_TTL b u)"
    by blast
  from kc_inv_write [OF 2(1) s'(2,3)] b family_disjoint(1) [of t run t run]
  have i: "kc_inv (s\<lparr>kc_kv := s', kc_ticks := Suc (kc_ticks s)\<rparr>)"
    "live s' H = (live (kc_kv s) H)(kv_run_key t run := Some b)" by auto
  have "kc_ledger (s\<lparr>kc_kv := s', kc_ticks := Suc (kc_ticks s)\<rparr>) = kc_ledger s"
    by (simp add: kc_ledger_def fun_eq_iff i(2) family_disjoint(1) [symmetric])
  with i b 2(2,3) kv_call_eq [of "\<lambda>u. kv_set_ex kv u (kv_run_key t run) b CHECKPOINT_TTL", OF s'(1)]
  show ?case by (auto simp: kv_checkpoint_store_def kc_save_def sbind_def kc_saved_def)
next
  case (3 s n a)
  from kc_get [OF 3, of "kv_visit_key t run n a"] obtain c' where
    c': "kv_call (\<lambda>u. kv_get kv u (kv_visit_key t run n a)) s = (Inr (live (kc_kv s) H (kv_visit_key t run n a)), c')"
      "kc_inv c'" "kc_saved c' = kc_saved s" "kc_ledger c' = kc_ledger s" by auto
  from c' show ?case
    by (cases "live (kc_kv s) H (kv_visit_key t run n a)")
      (auto simp: kv_checkpoint_store_def kc_load_node_visit_def sbind_def kc_ledger_def dest: kc_invD(7) [OF 3])
next
  case (4 s n a v)
  from val_codec obtain b where b: "cc_val_to cc v = Some b" "cc_val_from cc b = Some v" by blast
  from 4(1,4) have free: "live (kc_kv s) (now s) (kv_visit_key t run n a) = None"
    using kc_invD(7) [OF 4(1), of n a]
    by (cases "live (kc_kv s) H (kv_visit_key t run n a)") (auto simp: kc_live_now kc_ledger_def)
  note i = kc_invD(1) [OF 4(1)]
  from set_nx_free [OF i free, of b CHECKPOINT_TTL] obtain s' where
    s': "kv_set_nx kv (now s) (kv_visit_key t run n a) b CHECKPOINT_TTL (kc_kv s) = (Inr True, s')" "invar s'"
      "\<forall>u \<ge> now s. live s' u = (live (kc_kv s) u)(kv_visit_key t run n a := ttl_view (now s) CHECKPOINT_TTL b u)"
    by blast
  from kc_inv_write [OF 4(1) s'(2,3)] b family_disjoint(1) [of t run t run n a]
  have i: "kc_inv (s\<lparr>kc_kv := s', kc_ticks := Suc (kc_ticks s)\<rparr>)"
    "live s' H = (live (kc_kv s) H)(kv_visit_key t run n a := Some b)" by auto
  have "kc_saved (s\<lparr>kc_kv := s', kc_ticks := Suc (kc_ticks s)\<rparr>) = kc_saved s"
    by (simp add: kc_saved_def i(2) family_disjoint(1))
  moreover have "kc_ledger (s\<lparr>kc_kv := s', kc_ticks := Suc (kc_ticks s)\<rparr>) m q =
      (if m = n \<and> q = a then Some v else kc_ledger s m q)" for m q
    using b by (simp add: kc_ledger_def i(2) kv_visit_key_same_run)
  ultimately show ?case
    using i b 4(2,3) kv_call_eq [of "\<lambda>u. kv_set_nx kv u (kv_visit_key t run n a) b CHECKPOINT_TTL", OF s'(1)]
    by (auto simp: kv_checkpoint_store_def kc_record_node_visit_def sbind_def)
next
  case (5 s n a w v)
  from val_codec obtain b where b: "cc_val_to cc v = Some b" "cc_val_from cc b = Some v" by blast
  from 5(4) obtain b0 where b0: "live (kc_kv s) H (kv_visit_key t run n a) = Some b0" "cc_val_from cc b0 = Some w"
    by (auto simp: kc_ledger_def bind_eq_Some_conv)
  with 5(1) have held: "live (kc_kv s) (now s) (kv_visit_key t run n a) = Some b0" by (simp add: kc_live_now)
  note i = kc_invD(1) [OF 5(1)]
  from set_nx_held [OF i held, of b CHECKPOINT_TTL] obtain s' where
    s': "kv_set_nx kv (now s) (kv_visit_key t run n a) b CHECKPOINT_TTL (kc_kv s) = (Inr False, s')" "invar s'"
      "\<forall>u \<ge> now s. live s' u = live (kc_kv s) u" by blast
  let ?c = "s\<lparr>kc_kv := s', kc_ticks := Suc (kc_ticks s)\<rparr>"
  from kc_inv_same [OF 5(1) s'(2,3)] have c: "kc_inv ?c" "kc_saved ?c = kc_saved s" "kc_ledger ?c = kc_ledger s"
    by auto
  have "live (kc_kv ?c) H (kv_visit_key t run n a) = Some b0"
    using s'(3) kc_invD(3) [OF 5(1)] b0 by auto
  with kc_get [OF c(1), of "kv_visit_key t run n a"] obtain c2 where
    "kv_call (\<lambda>u. kv_get kv u (kv_visit_key t run n a)) ?c = (Inr (Some b0), c2)" "kc_inv c2"
      "kc_saved c2 = kc_saved s" "kc_ledger c2 = kc_ledger s" using c by auto
  with 5(2,3) b b0 kv_call_eq [of "\<lambda>u. kv_set_nx kv u (kv_visit_key t run n a) b CHECKPOINT_TTL", OF s'(1)]
  show ?case by (auto simp: kv_checkpoint_store_def kc_record_node_visit_def sbind_def)
next
  case (6 n a v s)
  then show ?case
    by (cases "colon_free run") (auto simp: kv_checkpoint_store_def kc_record_node_visit_def)
next
  case (7 rec s)
  then show ?case by (simp add: kv_checkpoint_store_def kc_save_def)
qed

subsection \<open>Over the in-process backend\<close>

text \<open>The backend's bytes as tagged documents: the form in which \<open>serde_json\<close> is total and invertible.\<close>

datatype 'j blob = RecBlob "'j graph_run_record" | ValBlob json

definition blob_codec :: "('j, 'j blob) cp_codec" where
  "blob_codec =
     \<lparr>cc_rec_to = (\<lambda>r. Some (RecBlob r)), cc_rec_from = (\<lambda>b. case b of RecBlob r \<Rightarrow> Some r | _ \<Rightarrow> None),
      cc_val_to = (\<lambda>v. Some (ValBlob v)), cc_val_from = (\<lambda>b. case b of ValBlob v \<Rightarrow> Some v | _ \<Rightarrow> None)\<rparr>"

interpretation kv_mem: kv_checkpoints memory_kv mem_inv mem_live blob_codec t r H for t r H
  by unfold_locales (simp_all add: blob_codec_def)

end
