(* ===== verification/Graph_Merge.thy ===== *)
theory Graph_Merge
  imports Graph_Drive "HOL-Library.Multiset"
begin

section \<open>What the merge computes\<close>

text \<open>
  The merge of a region against its description: messages are the trunk's followed by what each branch
  added, in label order; a visit count is the largest any branch reports; and the slot order of the
  frontier, which depends on nothing but the order in which the branches were enumerated, plays no part.
\<close>

text \<open>The states the merge reads back, in the order it reads them.\<close>

definition branch_states :: "'j doc_codec \<Rightarrow> 'j branch_cursor list \<Rightarrow> graph_run_state option list" where
  "branch_states dc bcs = map (\<lambda>bc. dc_state_from dc (bc_state_json bc)) bcs"

lemma merge_branches_spec:
  "branch_states dc bcs = map Some sts \<Longrightarrow>
   \<exists>m. merge_branches dc k bcs ms = Inr m \<and>
     rs_messages m = rs_messages ms @ concat (map (\<lambda>st. drop k (rs_messages st)) sts) \<and>
     (rs_resolved m \<longleftrightarrow> rs_resolved ms \<or> (\<exists>st \<in> set sts. rs_resolved st)) \<and>
     rs_iterations m = fold max (map rs_iterations sts) (rs_iterations ms) \<and>
     rs_scratchpad m = fold (\<lambda>(l, st). merge_scratchpad l (rs_scratchpad st)) (zip (map bc_branch bcs) sts)
       (rs_scratchpad ms)"
proof (induction bcs arbitrary: sts ms)
  case Nil
  then show ?case by (simp add: branch_states_def)
next
  case (Cons bc bcs)
  from Cons.prems obtain st sts' where sts: "sts = st # sts'"
    and st: "dc_state_from dc (bc_state_json bc) = Some st" and rest: "branch_states dc bcs = map Some sts'"
    by (auto simp: branch_states_def Cons_eq_map_conv)
  have "max a b = max b a" for a b :: nat by simp
  with Cons.IH [OF rest, of "merge_branch k (bc_branch bc) st ms"] st sts show ?case
    by (auto simp: merge_branch_def ser_def)
qed

lemma merge_branches_fails:
  "None \<in> set (branch_states dc bcs) \<Longrightarrow> merge_branches dc k bcs ms = Inl (CheckpointErr Serde)"
proof (induction bcs arbitrary: ms)
  case (Cons bc bcs)
  then show ?case
    by (cases "dc_state_from dc (bc_state_json bc)") (auto simp: branch_states_def ser_def)
qed (simp add: branch_states_def)

subsection \<open>Visit counts\<close>

lemma get_entry_max: "hm_get_or 0 (entry_max (k, c) vis) n = (if n = k then max (hm_get_or 0 vis k) c else hm_get_or 0 vis n)"
  by (auto simp: entry_max_def hm_get_or_def hm_simps split: option.splits)

lemma hm_get_or_Cons: "hm_get_or d ((k, c) # kvs) n = (if n = k then c else hm_get_or d kvs n)"
  by (simp add: hm_get_or_def)

lemma get_fold_entry_max:
  "hm_wf kvs \<Longrightarrow> hm_get_or 0 (fold entry_max kvs vis) n = max (hm_get_or 0 vis n) (hm_get_or 0 kvs n)"
proof (induction kvs arbitrary: vis)
  case (Cons kv kvs)
  obtain k c where kv: "kv = (k, c)" by (cases kv)
  with Cons have k: "hget kvs k = None" and wf: "hm_wf kvs" by (auto simp: map_of_eq_None_iff)
  then have "hm_get_or 0 kvs k = 0" by (simp add: hm_get_or_def)
  with Cons.IH [OF wf, of "entry_max kv vis"] show ?case
    by (simp add: kv get_entry_max hm_get_or_Cons)
qed simp

lemma get_entry_or_insert:
  "hget (entry_or_insert (k, c) vis) n = (if n = k \<and> hget vis k = None then Some c else hget vis n)"
  by (auto simp: entry_or_insert_def hm_simps split: option.splits)

lemma get_fold_entry_or_insert:
  "hm_wf kvs \<Longrightarrow> hget (fold entry_or_insert kvs vis) n =
     (case hget vis n of Some c \<Rightarrow> Some c | None \<Rightarrow> hget kvs n)"
proof (induction kvs arbitrary: vis)
  case (Cons kv kvs)
  obtain k c where kv: "kv = (k, c)" by (cases kv)
  with Cons have k: "hget kvs k = None" and wf: "hm_wf kvs" by (auto simp: map_of_eq_None_iff)
  from Cons.IH [OF wf, of "entry_or_insert kv vis"] k show ?case
    by (auto simp: kv get_entry_or_insert split: option.splits)
qed (simp split: option.splits)

lemma get_fold_branches:
  "\<forall>bc \<in> set bcs. hm_wf (bc_visits bc) \<Longrightarrow>
   hm_get_or 0 (fold (\<lambda>bc. fold entry_max (bc_visits bc)) bcs vis) n =
     fold (\<lambda>bc. max (hm_get_or 0 (bc_visits bc) n)) bcs (hm_get_or 0 vis n)"
  by (induction bcs arbitrary: vis) (simp_all add: get_fold_entry_max max.commute)

lemma fold_max_mono: "(a :: nat) \<le> fold (\<lambda>x. max (f x)) xs a"
proof (induction xs arbitrary: a)
  case (Cons y xs)
  from Cons [of "max (f y) a"] show ?case by simp
qed simp

lemma fold_max_mem: "x \<in> set xs \<Longrightarrow> (f x :: nat) \<le> fold (\<lambda>x. max (f x)) xs a"
proof (induction xs arbitrary: a)
  case (Cons y xs)
  then show ?case using fold_max_mono [of "max (f y) a" f xs] by (cases "x = y") auto
qed simp

lemma fold_max_cases: "(fold (\<lambda>x. max (f x)) xs a :: nat) = a \<or> (\<exists>x \<in> set xs. fold (\<lambda>x. max (f x)) xs a = f x)"
proof (induction xs arbitrary: a)
  case (Cons y xs)
  from Cons [of "max (f y) a"] show ?case by (auto simp: max_def split: if_splits)
qed simp

text \<open>No visit of any branch is forgotten, and none is invented.\<close>

lemma merge_visits_ge:
  assumes "\<forall>bc \<in> set bcs. hm_wf (bc_visits bc)" and "hm_wf col"
  shows "hm_get_or 0 vis n \<le> hm_get_or 0 (merge_visits bcs col vis) n"
    and "bc \<in> set bcs \<Longrightarrow> hm_get_or 0 (bc_visits bc) n \<le> hm_get_or 0 (merge_visits bcs col vis) n"
proof -
  let ?m = "fold (\<lambda>bc. fold entry_max (bc_visits bc)) bcs vis"
  have le: "hm_get_or 0 ?m n \<le> hm_get_or 0 (merge_visits bcs col vis) n"
    by (simp add: merge_visits_def hm_get_or_def get_fold_entry_or_insert [OF assms(2)] split: option.splits)
  from fold_max_mono [of "hm_get_or 0 vis n"] le show "hm_get_or 0 vis n \<le> hm_get_or 0 (merge_visits bcs col vis) n"
    unfolding get_fold_branches [OF assms(1)] by (rule le_trans)
  show "hm_get_or 0 (bc_visits bc) n \<le> hm_get_or 0 (merge_visits bcs col vis) n" if "bc \<in> set bcs"
    using fold_max_mem [OF that, of "\<lambda>bc. hm_get_or 0 (bc_visits bc) n" "hm_get_or 0 vis n"] le
    unfolding get_fold_branches [OF assms(1)] by (rule le_trans)
qed

lemma merge_visits_origin:
  assumes "\<forall>bc \<in> set bcs. hm_wf (bc_visits bc)" and "hm_wf col"
  shows "hm_get_or 0 (merge_visits bcs col vis) n \<in>
    {hm_get_or 0 vis n, hm_get_or 0 col n} \<union> (\<lambda>bc. hm_get_or 0 (bc_visits bc) n) ` set bcs"
proof -
  let ?m = "fold (\<lambda>bc. fold entry_max (bc_visits bc)) bcs vis"
  have "hm_get_or 0 ?m n \<in> {hm_get_or 0 vis n} \<union> (\<lambda>bc. hm_get_or 0 (bc_visits bc) n) ` set bcs"
    using fold_max_cases [of "\<lambda>bc. hm_get_or 0 (bc_visits bc) n" bcs "hm_get_or 0 vis n"]
    unfolding get_fold_branches [OF assms(1)] by auto
  then show ?thesis
    by (cases "hget ?m n")
      (auto simp: merge_visits_def hm_get_or_def get_fold_entry_or_insert [OF assms(2)])
qed

subsection \<open>Slot order\<close>

lemma sort_key_unique:
  assumes "mset xs = mset ys" and "distinct (map f xs)"
  shows "sort_key f ys = sort_key f xs"
proof (rule properties_for_sort_key)
  show "mset (sort_key f xs) = mset ys" using assms by simp
  show "sorted (map f (sort_key f xs))" by simp
  have "mset (map f ys) = mset (map f xs)" using assms(1) by simp
  then have dy: "distinct (map f ys)" using assms(2) by (blast dest: mset_eq_imp_distinct_iff)
  fix k
  assume mem: "k \<in> set (sort_key f xs)"
  then have "k \<in> set ys" using assms(1) by (metis set_mset_mset set_sort)
  have one: "filter (\<lambda>x. f k = f x) zs = [k]" if "distinct (map f zs)" "k \<in> set zs" for zs
    using that
  proof (induction zs)
    case (Cons z zs)
    then have z: "f z \<notin> f ` set zs" by simp
    show ?case
    proof (cases "k = z")
      case True
      with z have "filter (\<lambda>x. f k = f x) zs = []" by (auto simp: filter_empty_conv)
      with True show ?thesis by simp
    next
      case False
      with Cons.prems(2) have "f k \<in> f ` set zs" by simp
      with z have "f k \<noteq> f z" by metis
      with False Cons show ?thesis by simp
    qed
  qed simp
  have "mset (map f (sort_key f xs)) = mset (map f xs)" by simp
  then have "distinct (map f (sort_key f xs))" using assms(2) by (blast dest: mset_eq_imp_distinct_iff)
  with mem show "filter (\<lambda>x. f k = f x) (sort_key f xs) = filter (\<lambda>x. f k = f x) ys"
    using one dy \<open>k \<in> set ys\<close> by simp
qed

lemma merge_region_slot_order:
  "mset fro = mset fro' \<Longrightarrow> distinct (map bc_branch fro) \<Longrightarrow>
     merge_region x t run cfg gj j st fro col mer tr = merge_region x t run cfg gj j st fro' col mer tr"
  by (simp add: merge_region_def sort_key_unique [of fro fro'])

end
