(* ===== verification/Graph_Stores.thy ===== *)
theory Graph_Stores
  imports Graph_Status Kv_Checkpoint Graph_Merge
begin

section \<open>The executor over its two stores\<close>

text \<open>
  The contracts of the executor, on the stores of the repository: the durable run over the in-memory store
  and over the key-value store with the in-process backend, and the isolation of runs from each other in
  the in-memory store.
\<close>

lemma with_store: "gx_store x = st \<Longrightarrow> x\<lparr>gx_store := st\<rparr> = x"
  by simp

interpretation mem_run: durable_run "x\<lparr>gx_store := in_memory_store\<rparr>" t r "\<lambda>_. True" "ms_saved t r" "ms_ledger t r"
  for x :: "('j mem_store, 'e, 'j) graph_executor" and t r
  unfolding durable_run_def by simp (rule mem_cp.checkpoint_store_axioms)

interpretation kv_run: durable_run "x\<lparr>gx_store := kv_checkpoint_store memory_kv blob_codec\<rparr>" t r
  "kv_mem.kc_inv t r H" "kv_mem.kc_saved t r H" "kv_mem.kc_ledger t r H"
  for x :: "('j blob mem_state kv_clocked, 'e, 'j) graph_executor" and t r H
  unfolding durable_run_def by simp (rule kv_mem.store.checkpoint_store_axioms)

subsection \<open>Isolation\<close>

definition other_run :: "tenant_context \<Rightarrow> string \<Rightarrow> tenant_context \<Rightarrow> string \<Rightarrow> bool" where
  "other_run t r t' r' \<longleftrightarrow> scope_ok t \<and> scope_ok t' \<and> colon_free r' \<and> (scope t, r) \<noteq> (scope t', r')"

definition same_run_data :: "tenant_context \<Rightarrow> string \<Rightarrow> 'j mem_store \<Rightarrow> 'j mem_store \<Rightarrow> bool" where
  "same_run_data t r s s' \<longleftrightarrow> ms_saved t r s = ms_saved t r s' \<and>
     (\<forall>n a. colon_free n \<longrightarrow> ms_ledger t r s n a = ms_ledger t r s' n a)"

lemma scoped_key_inject:
  assumes "scope_ok t" "scope_ok u"
    and "tc_tenant_id t @ '':'' @ tc_env_id t @ '':'' @ a = tc_tenant_id u @ '':'' @ tc_env_id u @ '':'' @ b"
  shows "scope t = scope u \<and> a = b"
proof -
  from assms(3) have eq: "tc_tenant_id t @ CHR '':'' # (tc_env_id t @ CHR '':'' # a) =
      tc_tenant_id u @ CHR '':'' # (tc_env_id u @ CHR '':'' # b)" by simp
  from colon_split_inject [OF _ _ eq] assms(1,2) have
    "tc_tenant_id t = tc_tenant_id u" and "tc_env_id t @ CHR '':'' # a = tc_env_id u @ CHR '':'' # b"
    by (simp_all add: scope_ok_def)
  with colon_split_inject [of "tc_env_id t" "tc_env_id u" a b] assms(1,2) show ?thesis
    by (simp add: scope_ok_def)
qed

lemma other_run_keys:
  assumes "other_run t r t' r'" and "colon_free r"
  shows "run_key t' r' \<noteq> run_key t r"
    and "colon_free n \<Longrightarrow> colon_free m \<Longrightarrow> visit_key t' r' m b \<noteq> visit_key t r n a"
proof -
  from assms(1) have ok: "scope_ok t'" "scope_ok t" "colon_free r'" "scope t' = scope t \<Longrightarrow> r \<noteq> r'"
    by (auto simp: other_run_def)
  show "run_key t' r' \<noteq> run_key t r"
    using scoped_key_inject [OF ok(1,2), of r' r] ok(4) by (auto simp: run_key_def)
  show "visit_key t' r' m b \<noteq> visit_key t r n a" if "colon_free n" "colon_free m"
  proof
    assume "visit_key t' r' m b = visit_key t r n a"
    with scoped_key_inject [OF ok(1,2), of "r' @ '':'' @ m @ '':'' @ show_nat b" "r @ '':'' @ n @ '':'' @ show_nat a"]
    have "scope t' = scope t" and
      "r' @ CHR '':'' # m @ CHR '':'' # show_nat b = r @ CHR '':'' # n @ CHR '':'' # show_nat a"
      by (simp_all add: visit_key_def)
    with visit_tail_inject [OF ok(3) assms(2) that(2,1)] ok(4) show False by blast
  qed
qed

interpretation isolated: executor_invariant "x\<lparr>gx_store := in_memory_store\<rparr>" t r
  "\<lambda>s. other_run t r t' r' \<longrightarrow> same_run_data t' r' s0 s"
  for x :: "('j mem_store, 'e, 'j) graph_executor" and t r t' r' s0
proof (unfold_locales, goal_cases)
  case 1
  then show ?case by (auto simp: in_memory_store_def ms_load_def intro!: keepsI)
next
  case (2 rec)
  show ?case
  proof (rule keepsI)
    fix s
    assume "other_run t r t' r' \<longrightarrow> same_run_data t' r' s0 s"
    with 2 other_run_keys(1) [of t r t' r']
    show "other_run t r t' r' \<longrightarrow>
        same_run_data t' r' s0 (snd (cp_save (gx_store (x\<lparr>gx_store := in_memory_store\<rparr>)) t rec s))"
      by (cases "colon_free r") (auto simp: ms_defs hm_simps same_run_data_def)
  qed
next
  case (3 n a v)
  show ?case
  proof (rule keepsI)
    fix s
    assume "other_run t r t' r' \<longrightarrow> same_run_data t' r' s0 s"
    with 3 other_run_keys(2) [of t r t' r' n _ _ a]
    show "other_run t r t' r' \<longrightarrow> same_run_data t' r' s0
        (snd (cp_record_node_visit (gx_store (x\<lparr>gx_store := in_memory_store\<rparr>)) t r n a v s))"
      by (cases "colon_free r"; cases "colon_free n")
        (auto simp: ms_defs hm_simps same_run_data_def split: option.splits)
  qed
next
  case (4 n a)
  then show ?case by (auto simp: in_memory_store_def ms_load_node_visit_def intro!: keepsI)
qed

end
