(* ===== verification/Graph_Example.thy ===== *)
theory Graph_Example
  imports Graph_Stores
begin

section \<open>A concrete executor and concrete graphs\<close>

text \<open>
  Instances on which the properties are evaluated: documents as tagged values, an outside world that
  counts the calls of the effects, and three small graphs that pass validation.
\<close>

datatype doc =
    CfgDoc graph_config
  | StateDoc graph_run_state
  | VisitsDoc visits
  | FrontierDoc "doc branch_cursor list"

definition doc_codec0 :: "doc doc_codec" where
  "doc_codec0 =
     \<lparr>dc_cfg_to = (\<lambda>v. Some (CfgDoc v)), dc_cfg_from = (\<lambda>d. case d of CfgDoc v \<Rightarrow> Some v | _ \<Rightarrow> None),
      dc_state_to = (\<lambda>v. Some (StateDoc v)), dc_state_from = (\<lambda>d. case d of StateDoc v \<Rightarrow> Some v | _ \<Rightarrow> None),
      dc_visits_to = (\<lambda>v. Some (VisitsDoc v)), dc_visits_from = (\<lambda>d. case d of VisitsDoc v \<Rightarrow> Some v | _ \<Rightarrow> None),
      dc_frontier_to = (\<lambda>v. Some (FrontierDoc v)),
      dc_frontier_from = (\<lambda>d. case d of FrontierDoc v \<Rightarrow> Some v | _ \<Rightarrow> None),
      dc_text = (\<lambda>v. case v of JString s \<Rightarrow> s | _ \<Rightarrow> ''json'')\<rparr>"

lemma doc_codec0_roundtrip: "codec_roundtrip doc_codec0"
  by (auto simp: codec_roundtrip_def doc_codec0_def)

text \<open>
  Every agent turn resolves; the supervisor answers \<open>left\<close>, or a branch that does not exist once the
  world has counted to ten; approval is awaited at first and then granted.
\<close>

definition exec0 :: "(doc mem_store, nat, doc) graph_executor" where
  "exec0 =
     \<lparr>gx_store = in_memory_store, gx_codec = doc_codec0,
      gx_agent_turn = (\<lambda>req e. (if e = 99 then Inl (UnknownRun ''down'')
        else Inr \<lparr>at_reply = ''ok'', at_resolved = True\<rparr>, Suc e)),
      gx_tool = (\<lambda>req e. (Inr (JString ''tool''), Suc e)),
      gx_supervisor = (\<lambda>req e. (Inr \<lparr>su_branch = (if e < 10 then ''left'' else ''nowhere''), su_raw_reply = ''x''\<rparr>, Suc e)),
      gx_approval = (\<lambda>req e. (Inr (if e = 0 then Awaiting else Decided ''yes''), Suc e)),
      gx_poll_order = (\<lambda>e. [1, 0])\<rparr>"

definition tenant0 :: tenant_context where
  "tenant0 = tenant_new ''acme'' ''prod''"

definition agent0 :: node_kind where
  "agent0 = Agent ''p'' ''m'' [] None None None"

definition edge0 :: "string \<Rightarrow> string \<Rightarrow> edge" where
  "edge0 a b = \<lparr>e_from = a, e_to = b, e_branch = None\<rparr>"

definition edge1 :: "string \<Rightarrow> string \<Rightarrow> string \<Rightarrow> edge" where
  "edge1 a l b = \<lparr>e_from = a, e_to = b, e_branch = Some l\<rparr>"

definition line_cfg :: graph_config where
  "line_cfg = \<lparr>gc_schema_version = 1, gc_graph =
     \<lparr>g_entry = ''a'',
      g_nodes = [\<lparr>nd_id = ''a'', nd_kind = agent0\<rparr>, \<lparr>nd_id = ''t'', nd_kind = Tool ''lookup''\<rparr>,
                 \<lparr>nd_id = ''r'', nd_kind = Router 3\<rparr>, \<lparr>nd_id = ''z'', nd_kind = Respond\<rparr>],
      g_edges = [edge0 ''a'' ''t'', edge0 ''t'' ''r'', edge1 ''r'' ''loop'' ''a'', edge1 ''r'' ''resolved'' ''z'']\<rparr>\<rparr>"

definition fork_cfg :: graph_config where
  "fork_cfg = \<lparr>gc_schema_version = 2, gc_graph =
     \<lparr>g_entry = ''p'',
      g_nodes = [\<lparr>nd_id = ''p'', nd_kind = Parallel\<rparr>, \<lparr>nd_id = ''b'', nd_kind = agent0\<rparr>,
                 \<lparr>nd_id = ''c'', nd_kind = Tool ''lookup''\<rparr>, \<lparr>nd_id = ''j'', nd_kind = Join\<rparr>,
                 \<lparr>nd_id = ''z'', nd_kind = Respond\<rparr>],
      g_edges = [edge1 ''p'' ''y'' ''b'', edge1 ''p'' ''x'' ''c'', edge0 ''b'' ''j'', edge0 ''c'' ''j'', edge0 ''j'' ''z'']\<rparr>\<rparr>"

definition gate_cfg :: graph_config where
  "gate_cfg = \<lparr>gc_schema_version = 2, gc_graph =
     \<lparr>g_entry = ''q'',
      g_nodes = [\<lparr>nd_id = ''q'', nd_kind = Approval ''t'' ''always'' None None None\<rparr>,
                 \<lparr>nd_id = ''s'', nd_kind = Supervisor ''p'' ''m''
                    [\<lparr>sr_branch = ''left'', sr_description = ''l''\<rparr>, \<lparr>sr_branch = ''right'', sr_description = ''r''\<rparr>]
                    None None\<rparr>,
                 \<lparr>nd_id = ''z'', nd_kind = Respond\<rparr>],
      g_edges = [edge1 ''q'' ''yes'' ''s'', edge1 ''q'' ''no'' ''z'', edge1 ''s'' ''left'' ''z'', edge1 ''s'' ''right'' ''z'']\<rparr>\<rparr>"

lemma line_cfg_valid: "cfg_valid line_cfg"
  by code_simp

lemma fork_cfg_valid: "cfg_valid fork_cfg"
  by code_simp

lemma gate_cfg_valid: "cfg_valid gate_cfg"
  by code_simp

subsection \<open>A run on the first graph\<close>

lemma returned: "\<not> isl (fst w) \<Longrightarrow> \<exists>a s e. w = (Inr a, (s, e))"
  by (cases w; cases "fst w") auto

definition state0 :: graph_run_state where
  "state0 = push_message RoleUser ''hi'' default_run_state"

definition frame_a :: frame where
  "frame_a = \<lparr>fr_cursor = ''a'', fr_state = state0, fr_visits = [], fr_trail = []\<rparr>"

definition rec_of :: "graph_config \<Rightarrow> frame \<Rightarrow> run_status \<Rightarrow> doc graph_run_record" where
  "rec_of cfg fr status =
     \<lparr>rr_run_id = ''run'', rr_graph_json = CfgDoc cfg, rr_cursor = fr_cursor fr,
      rr_state_json = StateDoc (fr_state fr), rr_status = status, rr_visits_json = VisitsDoc (fr_visits fr),
      rr_frontier_json = None\<rparr>"

definition store_of :: "doc graph_run_record \<Rightarrow> (string, json) hmap \<Rightarrow> doc mem_store" where
  "store_of rec vis = \<lparr>ms_runs = [(run_key tenant0 ''run'', rec)], ms_visits = vis\<rparr>"

definition frame_t :: frame where
  "frame_t = \<lparr>fr_cursor = ''t'', fr_state = after_agent \<lparr>at_reply = ''ok'', at_resolved = True\<rparr> state0,
     fr_visits = [(''a'', 1)], fr_trail = [trail_entry ''a'' ''agent'' 1 False []]\<rparr>"

definition row_a :: "string \<times> json" where
  "row_a = (visit_key tenant0 ''run'' ''a'' 1, agent_result_to_value \<lparr>at_reply = ''ok'', at_resolved = True\<rparr>)"

lemma is_checkpoint_rec_of: "is_checkpoint doc_codec0 cfg fr status (rec_of cfg fr status)"
  by (simp add: is_checkpoint_def doc_codec0_def rec_of_def)

lemma saved_store_of: "ms_saved tenant0 ''run'' (store_of rec vis) = Some rec"
  by (simp add: ms_saved_def store_of_def)

lemma exec0_sel [simp]:
  "gx_store exec0 = in_memory_store" "gx_codec exec0 = doc_codec0"
  by (simp_all add: exec0_def)

lemma node_line_a: "node_of (gc_graph line_cfg) (fr_cursor frame_a) = Some \<lparr>nd_id = ''a'', nd_kind = agent0\<rparr>"
  by (simp add: line_cfg_def frame_a_def node_of_def)

lemma visit_a:
  "trunk_visit exec0 tenant0 ''run'' line_cfg frame_a (store_of (rec_of line_cfg frame_a Running) [], 0) =
     (Inr (Continue frame_t), (store_of (rec_of line_cfg frame_t Running) [row_a], 1))"
  by code_simp

subsection \<open>The approval and the supervisor of the third graph\<close>

definition frame_q :: frame where
  "frame_q = \<lparr>fr_cursor = ''q'', fr_state = state0, fr_visits = [], fr_trail = []\<rparr>"

definition row_q :: "string \<times> json" where
  "row_q = (visit_key tenant0 ''run'' ''q'' 1, json_obj [(''decision'', JString ''no'')])"

definition frame_s :: frame where
  "frame_s = \<lparr>fr_cursor = ''s'', fr_state = state0, fr_visits = [(''q'', 1)], fr_trail = []\<rparr>"

definition row_s :: "string \<times> json" where
  "row_s = (visit_key tenant0 ''run'' ''s'' 1, supervisor_result_to_value \<lparr>su_branch = ''nowhere'', su_raw_reply = ''x''\<rparr>)"

lemma node_gate_q: "node_of (gc_graph gate_cfg) (fr_cursor frame_q) =
    Some \<lparr>nd_id = ''q'', nd_kind = Approval ''t'' ''always'' None None None\<rparr>"
  by (simp add: gate_cfg_def frame_q_def node_of_def)

lemma visit_q:
  "trunk_visit exec0 tenant0 ''run'' gate_cfg frame_q (store_of (rec_of gate_cfg frame_q Running) [], 0) =
     (Inr (Finish \<lparr>go_status = AwaitingInput, go_reply = [], go_trail = []\<rparr>),
      (store_of (rec_of gate_cfg frame_q AwaitingInput) [], 1))"
  by code_simp

lemma node_gate_s: "node_of (gc_graph gate_cfg) (fr_cursor frame_s) =
    Some \<lparr>nd_id = ''s'', nd_kind = Supervisor ''p'' ''m''
      [\<lparr>sr_branch = ''left'', sr_description = ''l''\<rparr>, \<lparr>sr_branch = ''right'', sr_description = ''r''\<rparr>] None None\<rparr>"
  by (simp add: gate_cfg_def frame_s_def node_of_def)

subsection \<open>A node id with a colon\<close>

definition colon_cfg :: graph_config where
  "colon_cfg = \<lparr>gc_schema_version = 1, gc_graph =
     \<lparr>g_entry = ''a:b'',
      g_nodes = [\<lparr>nd_id = ''a:b'', nd_kind = Tool ''lookup''\<rparr>, \<lparr>nd_id = ''z'', nd_kind = Respond\<rparr>],
      g_edges = [edge0 ''a:b'' ''z'']\<rparr>\<rparr>"

definition frame_c :: frame where
  "frame_c = \<lparr>fr_cursor = ''a:b'', fr_state = state0, fr_visits = [], fr_trail = []\<rparr>"

subsection \<open>The key-value store\<close>

definition exec_kv :: "(doc blob mem_state kv_clocked, nat, doc) graph_executor" where
  "exec_kv =
     \<lparr>gx_store = kv_checkpoint_store memory_kv blob_codec, gx_codec = doc_codec0,
      gx_agent_turn = gx_agent_turn exec0, gx_tool = gx_tool exec0, gx_supervisor = gx_supervisor exec0,
      gx_approval = gx_approval exec0, gx_poll_order = (\<lambda>e. [])\<rparr>"

text \<open>An empty backend, and a clock that is stopped at five.\<close>

definition clocked0 :: "'b mem_state kv_clocked" where
  "clocked0 = \<lparr>kc_kv = mem_kv_new, kc_clock = (\<lambda>_. 5), kc_ticks = 0\<rparr>"

lemma clocked0_inv: "kv_mem.kc_inv t r 5 clocked0"
  by (simp add: kv_mem.kc_inv_def clocked0_def mem_kv_new_def mem_inv_def mem_live_def CHECKPOINT_TTL_def mono_def)

lemma clocked0_live: "mem_live (kc_kv clocked0) u k = None"
  by (simp add: clocked0_def mem_kv_new_def mem_live_def)

end
