(* ===== verification/Run_Claims.thy ===== *)
theory Run_Claims
  imports Graph_Example
begin

section \<open>Properties of durable runs\<close>

text \<open>
  The properties of the graph runtime that span its validator, its executor and its stores, each with
  an instance on a concrete run.
\<close>

text \<open>
  C1. Crash recovery. A run is at the checkpoint of a frame whose node is an agent, a tool, a router, a
  supervisor, a join or a respond node (not a parallel region, nor an approval gate, which asks its service
  again), and the visit of that node takes it to the next frame. If the process dies anywhere in between, so that the store has the old checkpoint and at least
  the ledger rows the visit wrote, then resuming goes on with that next frame: the effect is not called
  again (the world is untouched), no ledger row changes, and the same checkpoint is written.
\<close>

theorem crash_recovery:
  assumes "gx_store x = in_memory_store" and "codec_roundtrip (gx_codec x)" and "cfg_valid cfg"
    and "node_of (gc_graph cfg) (fr_cursor fr) = Some nd" and "sequential_kind (nd_kind nd)"
    and "ms_saved t r s = Some rec" and "is_checkpoint (gx_codec x) cfg fr Running rec"
    and "trunk_visit x t r cfg fr (s, e) = (Inr (Continue fr'), (s', e'))"
    and "ms_saved t r s2 = ms_saved t r s" and "ledger_extends (ms_ledger t r s') (ms_ledger t r s2)"
  shows "\<exists>fr'' s3. resume x t r (s2, e2) = drive_loop x t r cfg (MAX_NODE_VISITS - 1) fr'' (s3, e2) \<and>
    same_frame fr' fr'' \<and> ms_saved t r s3 = ms_saved t r s' \<and> ms_ledger t r s3 = ms_ledger t r s2"
  using mem_run.crash_recovers [of x cfg fr t r s rec e fr' s' e' s2 e2] assms
  unfolding with_store [OF assms(1)] by auto

theorem crash_recovery_witness:
  "\<exists>fr'' s3. resume exec0 tenant0 ''run'' (store_of (rec_of line_cfg frame_a Running) [row_a], 7) =
      drive_loop exec0 tenant0 ''run'' line_cfg (MAX_NODE_VISITS - 1) fr'' (s3, 7) \<and>
    same_frame frame_t fr'' \<and>
    ms_saved tenant0 ''run'' s3 = ms_saved tenant0 ''run'' (store_of (rec_of line_cfg frame_t Running) [row_a]) \<and>
    ms_ledger tenant0 ''run'' s3 = ms_ledger tenant0 ''run'' (store_of (rec_of line_cfg frame_a Running) [row_a])"
  by (rule crash_recovery [OF _ _ line_cfg_valid _ _ saved_store_of _ visit_a])
    (simp_all add: doc_codec0_roundtrip is_checkpoint_rec_of saved_store_of node_line_a,
     simp_all add: agent0_def ms_ledger_def store_of_def ledger_extends_def)

text \<open>
  C2. A run whose graph is validated and whose nodes are agents, tools, routers, supervisors, joins and
  responds replays: running it again from the same frame over a store that has its ledger rows, in any
  world, answers the same status and reply, calls no effect, and leaves the ledger as it was.
\<close>

theorem run_replays:
  assumes "gx_store x = in_memory_store"
    and "list_all (\<lambda>nd. sequential_kind (nd_kind nd)) (g_nodes (gc_graph cfg))"
    and "drive_loop x t r cfg n fr (s, e) = (Inr out, (s', e'))"
    and "ledger_extends (ms_ledger t r s') (ms_ledger t r s2)"
  shows "\<exists>out' s3. drive_loop x t r cfg n fr (s2, e2) = (Inr out', (s3, e2)) \<and>
    go_status out' = go_status out \<and> go_reply out' = go_reply out \<and>
    ms_ledger t r s3 = ms_ledger t r s2"
proof -
  have "same_frame fr fr" by (simp add: same_frame_def)
  note rep = mem_run.replays_drive_loop [where x = x and t = t and r = r and n = n, OF assms(2) this]
  from mem_run.replaysD(3) [OF rep TrueI, unfolded with_store [OF assms(1)], OF assms(3) TrueI assms(4), of e2]
  show ?thesis by auto
qed

theorem run_replays_witness:
  "\<exists>out s' e' out' s3.
     drive_loop exec0 tenant0 ''run'' line_cfg 9 frame_a (store_of (rec_of line_cfg frame_a Running) [], 0) =
       (Inr out, (s', e')) \<and>
     drive_loop exec0 tenant0 ''run'' line_cfg 9 frame_a (s', 70) = (Inr out', (s3, 70)) \<and>
     go_status out' = go_status out \<and> go_reply out' = go_reply out"
proof -
  let ?w = "drive_loop exec0 tenant0 ''run'' line_cfg 9 frame_a (store_of (rec_of line_cfg frame_a Running) [], 0)"
  have "\<not> isl (fst ?w)" by code_simp
  then obtain out s' e' where w: "?w = (Inr out, (s', e'))" using returned by blast
  have "list_all (\<lambda>nd. sequential_kind (nd_kind nd)) (g_nodes (gc_graph line_cfg))" by code_simp
  from run_replays [OF exec0_sel(1) this w ledger_extends_refl, of 70] w show ?thesis by blast
qed



text \<open>
  C4. The status of a run. Starting a run that is fresh, running or parked ends in one of three ways: it
  returns an outcome, and the saved record has that outcome's status, succeeded or awaiting input; it hits
  the visit cap, and the saved record is failed; or it stops with another error, and the saved record, if
  there is one, is still running or awaiting input, so that the run can be resumed.
\<close>

theorem run_status_saved:
  assumes "gx_store x = in_memory_store" and "approval_uncapped x"
    and "pred_option (\<lambda>rec. rr_status rec \<in> {Running, AwaitingInput}) (ms_saved t r s)"
  shows "case start x t r cfg utxt (s, e) of
      (Inr out, (s', e')) \<Rightarrow> go_status out \<in> {Succeeded, AwaitingInput} \<and>
        map_option rr_status (ms_saved t r s') = Some (go_status out)
    | (Inl err, (s', e')) \<Rightarrow>
        if is_cap err then map_option rr_status (ms_saved t r s') = Some Failed
        else pred_option (\<lambda>rec. rr_status rec \<in> {Running, AwaitingInput}) (ms_saved t r s')"
proof -
  from assms(2) have ap: "approval_uncapped (x\<lparr>gx_store := in_memory_store\<rparr>)" by (simp add: approval_uncapped_def)
  have al: "mem_run.alive t r (s, e)"
    using assms(3) by (auto simp: mem_run.alive_def pred_option_def)
  note t = mem_run.start_settles [OF ap, of t r cfg utxt, unfolded with_store [OF assms(1)]]
  from tripleD [OF t al] show ?thesis
    by (auto simp: mem_run.alive_def mem_run.ended_def mem_run.after_error_def mem_run.dead_def pred_option_def
        split: prod.splits sum.splits)
qed

theorem run_status_saved_witness:
  "map_option rr_status (ms_saved tenant0 ''run'' (fst (snd (start exec0 tenant0 ''run'' line_cfg ''hi''
      (mem_store_new, 99))))) = Some Running"
proof -
  have run: "start exec0 tenant0 ''run'' line_cfg ''hi'' (mem_store_new, 99) =
      (Inl (AgentTurn (AtNode ''a'' 1 (UnknownRun ''down''))),
       (store_of (rec_of line_cfg frame_a Running) [], 100))"
    by code_simp
  have "pred_option (\<lambda>rec. rr_status rec \<in> {Running, AwaitingInput}) (ms_saved tenant0 ''run'' mem_store_new)"
    by (simp add: ms_saved_def mem_store_new_def)
  from run_status_saved [OF exec0_sel(1) _ this, of line_cfg "''hi''" 99] run
  have "pred_option (\<lambda>rec. rr_status rec \<in> {Running, AwaitingInput})
      (ms_saved tenant0 ''run'' (store_of (rec_of line_cfg frame_a Running) []))"
    by (simp add: approval_uncapped_def exec0_def)
  with run show ?thesis by (simp add: saved_store_of rec_of_def)
qed



text \<open>
  C6. Every branch of a parallel region settles: after the iterations \<open>join_all\<close> gives, whatever the order
  in which the branches are polled, no branch is still running.
\<close>

theorem region_settles:
  "list_all (\<lambda>st. case st of Settled _ \<Rightarrow> True | Live _ \<Rightarrow> False)
     (fst (join_all x t run cfg j fc order sr))"
  using join_all_settles [of x t run cfg j fc order sr] by (auto simp: list_all_iff split: branch_status.splits)

text \<open>
  C7. The executor finds the join the validator checked: at a parallel node of a validated graph the search
  succeeds, and the join it returns is the one where all branches of the node converge, every branch
  reaching it through plain nodes only and no two branches sharing a node.
\<close>

theorem join_agrees:
  assumes "validate (gc_graph cfg) v = Inr ()" and "kind_at (gc_graph cfg) p = Some Parallel"
  shows "\<exists>j. find_join_for_parallel cfg p = Inr j \<and> region_wf (gc_graph cfg) p j"
  using graph_wf_node [OF validate_sound [OF assms(1)] assms(2)] find_join_region by auto

theorem join_agrees_witness:
  "\<exists>j. find_join_for_parallel fork_cfg ''p'' = Inr j \<and> region_wf (gc_graph fork_cfg) ''p'' j"
  by (rule join_agrees [of _ 2]) code_simp+

text \<open>
  C8. Runs are isolated from each other. A run started for one tenant, environment and run id leaves the
  record and the ledger of every other run as they are, when tenant and environment ids have no colon.
\<close>

theorem runs_isolated:
  assumes "gx_store x = in_memory_store" and "other_run t r t' r'"
  shows "same_run_data t' r' s (fst (snd (start x t r cfg utxt (s, e))))"
proof -
  have "same_run_data t' r' s s" by (simp add: same_run_data_def)
  from keepsD [OF isolated.start_keeps [of t r t' r' s x cfg utxt], of "(s, e)"] this assms(2) show ?thesis
    unfolding with_store [OF assms(1)] by simp
qed

theorem runs_isolated_witness:
  "same_run_data tenant0 ''other'' mem_store_new
     (fst (snd (start exec0 tenant0 ''run'' line_cfg ''hi'' (mem_store_new, 0))))"
  by (rule runs_isolated) (simp_all add: other_run_def scope_ok_def tenant0_def tenant_new_def)

text \<open>
  C9. The ledger only grows: a start keeps every recorded visit of the run with the value it was recorded
  with, on success and on error.
\<close>

theorem ledger_grows:
  assumes "gx_store x = in_memory_store"
  shows "ledger_extends (ms_ledger t r s) (ms_ledger t r (fst (snd (start x t r cfg utxt (s, e)))))"
  using keepsD [OF mem_run.grows.start_keeps [of t r s x cfg utxt], of "(s, e)"]
  unfolding with_store [OF assms] by simp

theorem ledger_grows_witness:
  "ledger_extends (ms_ledger tenant0 ''run'' (store_of (rec_of line_cfg frame_a Running) [row_a]))
     (ms_ledger tenant0 ''run'' (fst (snd (start exec0 tenant0 ''run'' line_cfg ''hi''
        (store_of (rec_of line_cfg frame_a Running) [row_a], 0)))))"
  by (rule ledger_grows) simp

text \<open>
  C10. The same over the key-value store. A run kept in \<open>KvCheckpointStore\<close> over the in-process backend,
  as long as nothing it wrote has expired, ends with its status saved as in C4.
\<close>

theorem kv_run_status_saved:
  assumes "gx_store x = kv_checkpoint_store memory_kv blob_codec" and "approval_uncapped x"
    and "kv_mem.kc_inv t r H s"
    and "pred_option (\<lambda>rec. rr_status rec \<in> {Running, AwaitingInput}) (kv_mem.kc_saved t r H s)"
  shows "case start x t r cfg utxt (s, e) of
      (Inr out, (s', e')) \<Rightarrow> go_status out \<in> {Succeeded, AwaitingInput} \<and>
        map_option rr_status (kv_mem.kc_saved t r H s') = Some (go_status out)
    | (Inl err, (s', e')) \<Rightarrow>
        if is_cap err then map_option rr_status (kv_mem.kc_saved t r H s') = Some Failed
        else pred_option (\<lambda>rec. rr_status rec \<in> {Running, AwaitingInput}) (kv_mem.kc_saved t r H s')"
proof -
  from assms(2) have ap: "approval_uncapped (x\<lparr>gx_store := kv_checkpoint_store memory_kv blob_codec\<rparr>)"
    by (simp add: approval_uncapped_def)
  have al: "kv_run.alive t r H (s, e)"
    using assms(3,4) by (auto simp: kv_run.alive_def pred_option_def)
  note settles = kv_run.start_settles [OF ap, of t r H cfg utxt, unfolded with_store [OF assms(1)]]
  from tripleD [OF settles al] show ?thesis
    by (auto simp: kv_run.alive_def kv_run.ended_def kv_run.after_error_def kv_run.dead_def pred_option_def
        split: prod.splits sum.splits)
qed

theorem kv_run_status_saved_witness:
  "case start exec_kv tenant0 ''run'' fork_cfg ''hi'' (clocked0, 0) of
      (Inr out, (s', e')) \<Rightarrow> go_status out \<in> {Succeeded, AwaitingInput} \<and>
        map_option rr_status (kv_mem.kc_saved tenant0 ''run'' 5 s') = Some (go_status out)
    | (Inl err, (s', e')) \<Rightarrow>
        if is_cap err then map_option rr_status (kv_mem.kc_saved tenant0 ''run'' 5 s') = Some Failed
        else pred_option (\<lambda>rec. rr_status rec \<in> {Running, AwaitingInput}) (kv_mem.kc_saved tenant0 ''run'' 5 s')"
  by (rule kv_run_status_saved)
    (simp_all add: clocked0_inv exec_kv_def exec0_def approval_uncapped_def kv_mem.kc_saved_def clocked0_live)

text \<open>
  What the merge of a region computes, when the branches' states can be read back: the messages are
  the trunk's followed by what each branch added after the fan-out, in the order of the branch labels; the
  run is resolved when the trunk or some branch is; and the iteration count is the largest of all.
\<close>

theorem merge_messages:
  assumes "branch_states dc (sort_key bc_branch frontier) = map Some sts"
  shows "\<exists>m. merge_branches dc (length (rs_messages st)) (sort_key bc_branch frontier) st = Inr m \<and>
    rs_messages m = rs_messages st @ concat (map (\<lambda>b. drop (length (rs_messages st)) (rs_messages b)) sts) \<and>
    rs_resolved m = list_ex rs_resolved (st # sts) \<and>
    rs_iterations m = fold max (map rs_iterations sts) (rs_iterations st)"
  using merge_branches_spec [OF assms, of "length (rs_messages st)" st] by (auto simp: list_ex_iff)

theorem merge_messages_witness:
  "\<exists>m. merge_branches doc_codec0 1
      (sort_key bc_branch [BranchCursor ''y'' ''j'' (StateDoc (push_message RoleTool ''two'' state0)) True [],
        BranchCursor ''x'' ''j'' (StateDoc (push_message RoleTool ''one'' state0)) True []]) state0 = Inr m \<and>
    map gm_content (rs_messages m) = [''hi'', ''one'', ''two'']"
proof -
  let ?f = "[BranchCursor ''y'' ''j'' (StateDoc (push_message RoleTool ''two'' state0)) True [],
    BranchCursor ''x'' ''j'' (StateDoc (push_message RoleTool ''one'' state0)) True []]"
  have "branch_states doc_codec0 (sort_key bc_branch ?f) =
      map Some [push_message RoleTool ''one'' state0, push_message RoleTool ''two'' state0]"
    by code_simp
  from merge_messages [OF this, of state0] show ?thesis
    by (auto simp: state0_def push_message_def default_run_state_def)
qed

text \<open>
  The merge does not depend on the slots: two frontiers with the same cursors in a different order
  merge to the same trunk, when the branch labels are distinct.
\<close>

theorem merge_slot_order:
  assumes "mset fro = mset fro'" and "distinct (map bc_branch fro)"
  shows "merge_region x t run cfg gj j st fro col mer tr = merge_region x t run cfg gj j st fro' col mer tr"
  using assms by (rule merge_region_slot_order)

theorem merge_slot_order_witness:
  "merge_region exec0 tenant0 ''run'' fork_cfg (CfgDoc fork_cfg) ''j'' state0
      [BranchCursor ''x'' ''j'' (StateDoc state0) True [], BranchCursor ''y'' ''j'' (StateDoc state0) True []] [] [] [] =
   merge_region exec0 tenant0 ''run'' fork_cfg (CfgDoc fork_cfg) ''j'' state0
      [BranchCursor ''y'' ''j'' (StateDoc state0) True [], BranchCursor ''x'' ''j'' (StateDoc state0) True []] [] [] []"
  by (rule merge_slot_order) simp_all

text \<open>
  An effect that fails is retried. When the agent, tool or supervisor call of a visit fails, the visit
  fails with that error, records nothing, and leaves the checkpoint, so that a resumed run drives the same
  frame again: the same node with the same attempt number.
\<close>

theorem effect_error_retried:
  assumes "gx_store x = in_memory_store" and "cfg_valid cfg"
    and "node_of (gc_graph cfg) (fr_cursor fr) = Some nd" and "effect_kind (nd_kind nd)"
    and "ms_saved t r s = Some rec" and "is_checkpoint (gx_codec x) cfg fr Running rec"
    and "ms_ledger t r s (fr_cursor fr) (next_attempt (fr_visits fr) (fr_cursor fr)) = None"
    and "node_effect x cfg fr (nd_kind nd) (s, e) = (Inl err, (s, e'))"
  shows "\<exists>s' s2. trunk_visit x t r cfg fr (s, e) = (Inl err, (s', e')) \<and>
    ms_ledger t r s' = ms_ledger t r s \<and>
    resume x t r (s', e2) = drive x t r cfg (fr_cursor fr) (fr_state fr) (fr_visits fr) (s2, e2) \<and>
    ms_ledger t r s2 = ms_ledger t r s"
proof -
  note eff = node_effect_store [OF assms(4,8)]
  from mem_run.effect_error_leaves [of cfg fr nd t r s x e err e'] assms(3,4,7) eff
  obtain s' where s': "trunk_visit x t r cfg fr (s, e) = (Inl err, (s', e'))" "ms_saved t r s' = ms_saved t r s"
    "ms_ledger t r s' = ms_ledger t r s" unfolding with_store [OF assms(1)] by auto
  from mem_run.resume_checkpoint [of t r s' rec x cfg fr Running e2] s' assms(2,5,6) show ?thesis
    unfolding with_store [OF assms(1)] by auto
qed

theorem effect_error_retried_witness:
  "\<exists>s' s2. trunk_visit exec0 tenant0 ''run'' line_cfg frame_a (store_of (rec_of line_cfg frame_a Running) [], 99) =
      (Inl (AgentTurn (AtNode ''a'' 1 (UnknownRun ''down''))), (s', 100)) \<and>
    resume exec0 tenant0 ''run'' (s', 1) =
      drive exec0 tenant0 ''run'' line_cfg (fr_cursor frame_a) (fr_state frame_a) (fr_visits frame_a) (s2, 1)"
proof -
  let ?s = "store_of (rec_of line_cfg frame_a Running) []"
  have eff: "node_effect exec0 line_cfg frame_a agent0 (?s, 99) =
      (Inl (AgentTurn (AtNode ''a'' 1 (UnknownRun ''down''))), (?s, 100))"
    by (simp add: node_effect_def agent0_def call_agent_def at_node_def on_env_def exec0_def frame_a_def next_attempt_def Let_def)
  show ?thesis
  proof -
    have "\<exists>s' s2. trunk_visit exec0 tenant0 ''run'' line_cfg frame_a (?s, 99) =
        (Inl (AgentTurn (AtNode ''a'' 1 (UnknownRun ''down''))), (s', 100)) \<and>
      ms_ledger tenant0 ''run'' s' = ms_ledger tenant0 ''run'' ?s \<and>
      resume exec0 tenant0 ''run'' (s', 1) =
        drive exec0 tenant0 ''run'' line_cfg (fr_cursor frame_a) (fr_state frame_a) (fr_visits frame_a) (s2, 1) \<and>
      ms_ledger tenant0 ''run'' s2 = ms_ledger tenant0 ''run'' ?s"
    proof (rule effect_error_retried [OF exec0_sel(1) line_cfg_valid node_line_a _ saved_store_of])
      show "effect_kind (nd_kind \<lparr>nd_id = ''a'', nd_kind = agent0\<rparr>)" by (simp add: agent0_def)
      show "ms_ledger tenant0 ''run'' ?s (fr_cursor frame_a) (next_attempt (fr_visits frame_a) (fr_cursor frame_a)) = None"
        by (simp add: ms_ledger_def store_of_def)
    qed (simp_all add: is_checkpoint_rec_of eff)
    then show ?thesis by blast
  qed
qed

text \<open>
  A parked run asks again. When a visit parks the run for input, the saved record is awaiting input and
  resuming drives the very frame that was parked: no visit has been counted and the state is unchanged.
\<close>

theorem parked_asks_again:
  assumes "gx_store x = in_memory_store" and "codec_roundtrip (gx_codec x)" and "cfg_valid cfg"
    and "kind_at (gc_graph cfg) (fr_cursor fr) \<noteq> Some Join"
    and "trunk_visit x t r cfg fr (s, e) = (Inr (Finish out), (s', e'))" and "go_status out = AwaitingInput"
  shows "map_option rr_status (ms_saved t r s') = Some AwaitingInput \<and>
    (\<exists>s2. resume x t r (s', e2) = drive x t r cfg (fr_cursor fr) (fr_state fr) (fr_visits fr) (s2, e2))"
proof -
  from mem_run.trunk_visit_parked [of x cfg fr t r s e out s' e'] assms(2,4-6)
  obtain rec where rec: "ms_saved t r s' = Some rec" "is_checkpoint (gx_codec x) cfg fr AwaitingInput rec"
    unfolding with_store [OF assms(1)] by auto
  with mem_run.resume_checkpoint [of t r s' rec x cfg fr AwaitingInput e2] assms(3) show ?thesis
    unfolding with_store [OF assms(1)] by (auto simp: is_checkpoint_def)
qed

theorem parked_asks_again_witness:
  "\<exists>s2. resume exec0 tenant0 ''run'' (store_of (rec_of gate_cfg frame_q AwaitingInput) [], 1) =
     drive exec0 tenant0 ''run'' gate_cfg (fr_cursor frame_q) (fr_state frame_q) (fr_visits frame_q) (s2, 1)"
  using parked_asks_again [OF exec0_sel(1) _ gate_cfg_valid _ visit_q, of 1]
  by (auto simp: doc_codec0_roundtrip kind_at_def node_gate_q)

text \<open>
  The first recorded decision of an approval counts. When the ledger has a decision for the visit and
  the approval service now answers with another one, the run follows the recorded decision.
\<close>

theorem first_decision_counts:
  assumes "gx_store x = in_memory_store" and "colon_free r" and "colon_free (fr_cursor fr)"
    and "node_of (gc_graph cfg) (fr_cursor fr) = Some nd" and "nd_kind nd = Approval ti mode ri co de"
    and "ms_ledger t r s (fr_cursor fr) (next_attempt (fr_visits fr) (fr_cursor fr)) =
      Some (json_obj [(''decision'', JString b0)])"
    and "branch_target (gc_graph cfg) (fr_cursor fr) b0 = Some n0"
    and "\<And>req. gx_approval x req e = (Inr (Decided b), e')"
    and "branch_target (gc_graph cfg) (fr_cursor fr) b = Some n"
    and "trunk_visit x t r cfg fr (s, e) = (Inr res, w)"
  shows "\<exists>fr'. res = Continue fr' \<and> fr_cursor fr' = n0"
  using mem_run.approval_first_decision [of cfg fr nd ti mode ri co de r t s b0 n0 x e b e' n res w] assms
  unfolding with_store [OF assms(1)] by auto

theorem first_decision_counts_witness:
  "\<exists>fr' w. trunk_visit exec0 tenant0 ''run'' gate_cfg frame_q
      (store_of (rec_of gate_cfg frame_q AwaitingInput) [row_q], 3) = (Inr (Continue fr'), w) \<and> fr_cursor fr' = ''z''"
proof -
  let ?w = "trunk_visit exec0 tenant0 ''run'' gate_cfg frame_q (store_of (rec_of gate_cfg frame_q AwaitingInput) [row_q], 3)"
  have "\<not> isl (fst ?w)" by code_simp
  then obtain res s' e' where w: "?w = (Inr res, (s', e'))" using returned by blast
  have "\<exists>fr'. res = Continue fr' \<and> fr_cursor fr' = ''z''"
  proof (rule first_decision_counts [OF exec0_sel(1) _ _ node_gate_q _ _ _ _ _ w])
    show "gx_approval exec0 req 3 = (Inr (Decided ''yes''), 4)" for req by (simp add: exec0_def)
    show "branch_target (gc_graph gate_cfg) (fr_cursor frame_q) ''no'' = Some ''z''" by code_simp
    show "branch_target (gc_graph gate_cfg) (fr_cursor frame_q) ''yes'' = Some ''s''" by code_simp
  qed (simp_all add: frame_q_def ms_ledger_def store_of_def row_q_def next_attempt_def)
  with w show ?thesis by auto
qed

text \<open>
  C16. A supervisor's unusable answer is final. When a visit of a supervisor node from the saved checkpoint
  fails because the answer names no route with an edge, that answer is by then in the ledger and the
  checkpoint has not moved. Every resume from there on, in any world, fails with the same error, without
  asking the supervisor again and without changing the record or the ledger, so that the run can never go on.
\<close>

theorem supervisor_answer_final:
  assumes "gx_store x = in_memory_store" and "cfg_valid cfg"
    and "node_of (gc_graph cfg) (fr_cursor fr) = Some nd" and "nd_kind nd = Supervisor pr mo rs pv ar"
    and "ms_saved t r s = Some rec" and "is_checkpoint (gx_codec x) cfg fr Running rec"
    and "trunk_visit x t r cfg fr (s, e) =
      (Inl (GraphErr (Invalid (SupervisorBranchUnknown (fr_cursor fr) b))), (s1, e1))"
    and "ms_saved t r s2 = ms_saved t r s1" and "ledger_extends (ms_ledger t r s1) (ms_ledger t r s2)"
  shows "ms_saved t r s1 = ms_saved t r s \<and>
    (\<exists>v a. ms_ledger t r s1 (fr_cursor fr) (next_attempt (fr_visits fr) (fr_cursor fr)) = Some v \<and>
       supervisor_result_from_value v = Some a \<and> su_branch a = b) \<and>
    (\<exists>s3. resume x t r (s2, e2) = (Inl (GraphErr (Invalid (SupervisorBranchUnknown (fr_cursor fr) b))), (s3, e2)) \<and>
       ms_saved t r s3 = ms_saved t r s2 \<and> ms_ledger t r s3 = ms_ledger t r s2)"
proof -
  let ?a = "next_attempt (fr_visits fr) (fr_cursor fr)"
  let ?fr = "\<lparr>fr_cursor = fr_cursor fr, fr_state = fr_state fr, fr_visits = fr_visits fr, fr_trail = []\<rparr>"
  from mem_run.supervisor_unknown [where cfg = cfg and fr = fr and nd = nd and rs = rs and x = x and t = t and r = r and s = s and e = e and
      b = b and ?s1.0 = s1 and ?e1.0 = e1] assms(3,4,7)
  obtain v a where first: "ms_saved t r s1 = ms_saved t r s"
      "supervisor_target (gc_graph cfg) (fr_cursor fr) rs b = None"
      "ms_ledger t r s1 (fr_cursor fr) ?a = Some v" "supervisor_result_from_value v = Some a" "su_branch a = b"
    unfolding with_store [OF assms(1)] by auto
  note led = ledger_extendsD [OF assms(9) first(3)]
  from mem_run.resume_checkpoint [of t r s2 rec x cfg fr Running e2] assms(2,5,6,8) first(1) obtain s3 where
    s3: "resume x t r (s2, e2) = drive x t r cfg (fr_cursor fr) (fr_state fr) (fr_visits fr) (s3, e2)"
      "ms_saved t r s3 = ms_saved t r s2" "ms_ledger t r s3 = ms_ledger t r s2"
    unfolding with_store [OF assms(1)] by auto
  from mem_run.supervisor_stuck [of cfg ?fr nd pr mo rs pv ar a t r s3 v x e2] assms(3,4) first led s3 obtain s' where
    "trunk_visit x t r cfg ?fr (s3, e2) =
      (Inl (GraphErr (Invalid (SupervisorBranchUnknown (fr_cursor fr) b))), (s', e2))"
    "ms_saved t r s' = ms_saved t r s3" "ms_ledger t r s' = ms_ledger t r s3"
    unfolding with_store [OF assms(1)] by auto
  with s3 first drive_first_error [of x t r cfg _ _ _ "(s3, e2)"] show ?thesis by auto
qed

theorem supervisor_answer_final_witness:
  "\<exists>s3. resume exec0 tenant0 ''run'' (store_of (rec_of gate_cfg frame_s Running) [row_s], 3) =
     (Inl (GraphErr (Invalid (SupervisorBranchUnknown ''s'' ''nowhere''))), (s3, 3))"
proof -
  let ?s = "store_of (rec_of gate_cfg frame_s Running) []"
  let ?s1 = "store_of (rec_of gate_cfg frame_s Running) [row_s]"
  have visit: "trunk_visit exec0 tenant0 ''run'' gate_cfg frame_s (?s, 20) =
      (Inl (GraphErr (Invalid (SupervisorBranchUnknown (fr_cursor frame_s) ''nowhere''))), (?s1, 21))"
    by code_simp
  have "\<exists>s3. resume exec0 tenant0 ''run'' (?s1, 3) =
      (Inl (GraphErr (Invalid (SupervisorBranchUnknown (fr_cursor frame_s) ''nowhere''))), (s3, 3)) \<and>
      ms_saved tenant0 ''run'' s3 = ms_saved tenant0 ''run'' ?s1 \<and>
      ms_ledger tenant0 ''run'' s3 = ms_ledger tenant0 ''run'' ?s1"
    by (rule supervisor_answer_final [OF exec0_sel(1) gate_cfg_valid node_gate_s _ saved_store_of _ visit refl
        ledger_extends_refl, THEN conjunct2, THEN conjunct2]) (simp_all add: is_checkpoint_rec_of)
  then show ?thesis by (simp add: frame_s_def) blast
qed

text \<open>
  A node whose id contains a colon can not make progress: its effect is called, the result can not be
  recorded, the visit fails with a checkpoint error, and record and ledger are as before, so that the next
  attempt calls the effect again. The validator does not exclude such ids.
\<close>

theorem colon_node_never_recorded:
  assumes "gx_store x = in_memory_store"
    and "node_of (gc_graph cfg) (fr_cursor fr) = Some nd" and "effect_kind (nd_kind nd)"
    and "CHR '':'' \<in> set (fr_cursor fr)"
    and "ms_ledger t r s (fr_cursor fr) (next_attempt (fr_visits fr) (fr_cursor fr)) = None"
    and "node_effect x cfg fr (nd_kind nd) (s, e) = (Inr v, (s, e'))"
  shows "\<exists>ce s'. trunk_visit x t r cfg fr (s, e) = (Inl (CheckpointErr ce), (s', e')) \<and>
    ms_saved t r s' = ms_saved t r s \<and> ms_ledger t r s' = ms_ledger t r s"
  using mem_run.colon_node_stuck [of cfg fr nd t r s x e v e'] assms(2-5) node_effect_store [OF assms(3,6)]
  unfolding with_store [OF assms(1)] by auto

theorem colon_node_never_recorded_witness:
  "validate (gc_graph colon_cfg) 1 = Inr () \<and>
   (\<exists>ce s'. trunk_visit exec0 tenant0 ''run'' colon_cfg frame_c (mem_store_new, 4) = (Inl (CheckpointErr ce), (s', 5)))"
proof
  show "validate (gc_graph colon_cfg) 1 = Inr ()" by code_simp
  have "\<exists>ce s'. trunk_visit exec0 tenant0 ''run'' colon_cfg frame_c (mem_store_new, 4) = (Inl (CheckpointErr ce), (s', 5)) \<and>
      ms_saved tenant0 ''run'' s' = ms_saved tenant0 ''run'' mem_store_new \<and>
      ms_ledger tenant0 ''run'' s' = ms_ledger tenant0 ''run'' (mem_store_new :: doc mem_store)"
  proof (rule colon_node_never_recorded [OF exec0_sel(1)])
    show "node_of (gc_graph colon_cfg) (fr_cursor frame_c) = Some \<lparr>nd_id = ''a:b'', nd_kind = Tool ''lookup''\<rparr>"
      by (simp add: colon_cfg_def frame_c_def node_of_def)
    show "node_effect exec0 colon_cfg frame_c (nd_kind \<lparr>nd_id = ''a:b'', nd_kind = Tool ''lookup''\<rparr>) (mem_store_new, 4) =
        (Inr (JString ''tool''), (mem_store_new, 5))"
      by (simp add: node_effect_def call_tool_def at_node_def on_env_def exec0_def Let_def)
  qed (simp_all add: frame_c_def ms_ledger_def mem_store_new_def)
  then show "\<exists>ce s'. trunk_visit exec0 tenant0 ''run'' colon_cfg frame_c (mem_store_new, 4) =
      (Inl (CheckpointErr ce), (s', 5))" by blast
qed

text \<open>
  A finished run stays finished. Starting a run whose record is succeeded or failed is refused and
  resuming it answers from the record: the status is the recorded one, the reply is the last message of the
  assistant, and neither store nor world change.
\<close>

theorem finished_stays_finished:
  assumes "gx_store x = in_memory_store" and "ms_saved t r s = Some rec"
    and "rr_status rec = Succeeded \<or> rr_status rec = Failed"
    and "dc_state_from (gx_codec x) (rr_state_json rec) = Some st"
  shows "start x t r cfg utxt (s, e) = (Inl (AlreadyCompleted r), (s, e)) \<and>
    resume x t r (s, e) =
      (Inr \<lparr>go_status = rr_status rec, go_reply = last_assistant_message st,
            go_trail = rebuild_trail_from_state st\<rparr>, (s, e))"
proof -
  have "on_store (cp_load (gx_store x) t r) (s, e) = (Inr (Some rec), (s, e))"
    using assms(1,2) by (simp add: in_memory_store_def on_store_def ms_load_def ms_saved_def)
  with assms(3,4) show ?thesis
    by (auto simp: start_def resume_def sbind_def ser_def split: run_status.splits)
qed

theorem finished_stays_finished_witness:
  "start exec0 tenant0 ''run'' line_cfg ''hi'' (store_of (rec_of line_cfg frame_t Succeeded) [], 0) =
     (Inl (AlreadyCompleted ''run''), (store_of (rec_of line_cfg frame_t Succeeded) [], 0))"
  using finished_stays_finished [OF exec0_sel(1) saved_store_of, of "rec_of line_cfg frame_t Succeeded"]
  by (auto simp: rec_of_def doc_codec0_def)

end
