(* ===== verification/Store_Claims.thy ===== *)
theory Store_Claims
  imports Session_Lock Graph_Wf
begin

section \<open>Properties of validation, keys, the key-value store and the session lock\<close>

text \<open>The graph of the instances: a tool, then the reply.\<close>

definition pair_graph :: graph where
  "pair_graph = \<lparr>g_entry = ''a'',
     g_nodes = [\<lparr>nd_id = ''a'', nd_kind = Tool ''lookup''\<rparr>, \<lparr>nd_id = ''z'', nd_kind = Respond\<rparr>],
     g_edges = [\<lparr>e_from = ''a'', e_to = ''z'', e_branch = None\<rparr>]\<rparr>"

text \<open>
  C19. A graph that passes validation is well formed: ids are distinct, the entry and every edge's ends
  exist, every node has the outgoing edges its kind needs (a supervisor exactly one per route and none
  besides), a parallel node's branches meet in one join through plain nodes without sharing any, every
  join has at least two incoming edges from below a parallel node, and version 2 kinds need version 2.
\<close>

theorem validated_graph_wf:
  assumes "validate g v = Inr ()"
  shows "graph_wf g v"
  using assms by (rule validate_sound)

theorem validated_graph_wf_witness: "graph_wf pair_graph 1"
  by (rule validated_graph_wf) code_simp

text \<open>
  The backward search of the join rule is exact: on a graph whose edges join known nodes it finds a
  parallel node exactly when one lies above the node it starts from.
\<close>

theorem parallel_ancestor_exact:
  assumes "edges_known g"
  shows "has_parallel_ancestor g i \<longleftrightarrow> parallel_above g i"
  using assms by (rule has_parallel_ancestor_correct)

theorem parallel_ancestor_exact_witness: "\<not> parallel_above pair_graph ''z''"
proof -
  have "edges_known pair_graph" by (simp add: edges_known_def pair_graph_def node_of_def)
  moreover have "\<not> has_parallel_ancestor pair_graph ''z''" by code_simp
  ultimately show ?thesis using parallel_ancestor_exact [of pair_graph "''z''"] by blast
qed

text \<open>
  C21. Keys of different scopes never meet: two tenants with checked ids that differ in tenant or
  environment have different run, visit, session and lock keys in the key-value store, and within one
  tenant the four families of keys are disjoint.
\<close>

theorem scoped_keys_disjoint:
  assumes "validate_scope_id (tc_tenant_id t) = Inr ()" and "validate_scope_id (tc_env_id t) = Inr ()"
    and "validate_scope_id (tc_tenant_id u) = Inr ()" and "validate_scope_id (tc_env_id u) = Inr ()"
    and "(tc_tenant_id t, tc_env_id t) \<noteq> (tc_tenant_id u, tc_env_id u)"
  shows "{kv_run_key t r, kv_visit_key t r n a, state_key t s, lock_key t s} \<inter>
    {kv_run_key u r', kv_visit_key u r' n' a', state_key u s', lock_key u s'} = {} \<and>
    distinct [kv_run_key t r, kv_visit_key t r' n a, state_key t s, lock_key t s']"
proof -
  have ok: "scope_ok t" "scope_ok u"
    using assms(1-4) by (simp_all add: scope_ok_def validate_scope_id_colon_free)
  have ne: "key_prefix t @ '':'' @ x \<noteq> key_prefix u @ '':'' @ y" for x y
    using scope_prefix_inject [OF ok, of x y] assms(5) by blast
  then have "kt \<noteq> ku" if "kt \<in> {kv_run_key t r, kv_visit_key t r n a, state_key t s, lock_key t s}"
    "ku \<in> {kv_run_key u r', kv_visit_key u r' n' a', state_key u s', lock_key u s'}" for kt ku
    using that unfolding kv_run_key_def kv_visit_key_def state_key_def lock_key_def by blast
  then have "{kv_run_key t r, kv_visit_key t r n a, state_key t s, lock_key t s} \<inter>
    {kv_run_key u r', kv_visit_key u r' n' a', state_key u s', lock_key u s'} = {}" by blast
  then show ?thesis by (simp add: family_disjoint del: Int_insert_left Int_insert_right)
qed

theorem scoped_keys_disjoint_witness:
  "kv_run_key (tenant_new ''acme'' ''prod'') ''r'' \<noteq> kv_run_key (tenant_new ''acme'' ''dev'') ''r''"
proof -
  have "{kv_run_key (tenant_new ''acme'' ''prod'') ''r'', kv_visit_key (tenant_new ''acme'' ''prod'') ''r'' ''n'' 1,
      state_key (tenant_new ''acme'' ''prod'') ''s'', lock_key (tenant_new ''acme'' ''prod'') ''s''} \<inter>
    {kv_run_key (tenant_new ''acme'' ''dev'') ''r'', kv_visit_key (tenant_new ''acme'' ''dev'') ''r'' ''n'' 1,
      state_key (tenant_new ''acme'' ''dev'') ''s'', lock_key (tenant_new ''acme'' ''dev'') ''s''} = {} \<and>
    distinct [kv_run_key (tenant_new ''acme'' ''prod'') ''r'', kv_visit_key (tenant_new ''acme'' ''prod'') ''r'' ''n'' 1,
      state_key (tenant_new ''acme'' ''prod'') ''s'', lock_key (tenant_new ''acme'' ''prod'') ''s'']"
    by (rule scoped_keys_disjoint) code_simp+
  then show ?thesis by auto
qed

text \<open>
  Without that check the scopes can meet: the keys of the in-memory checkpoint store are built from
  unchecked tenant and environment ids, and two different scopes share every run key.
\<close>

theorem unchecked_scopes_collide:
  "tc_tenant_id (tenant_new ''a:b'' ''c'') \<noteq> tc_tenant_id (tenant_new ''a'' ''b:c'') \<and>
   run_key (tenant_new ''a:b'' ''c'') r = run_key (tenant_new ''a'' ''b:c'') r"
  by (simp add: tenant_new_def run_key_def)

text \<open>
  A value written to the in-process store is read back until its time to live is over and not from then
  on, whatever sweeps the write set off, and the other keys read as before.
\<close>

theorem written_until_expiry:
  assumes "mem_inv st" and "now \<le> u"
  shows "\<exists>st' st''. mem_set_ex now k v ttl st = (Inr (), st') \<and>
    mem_get u j st' = (Inr (if j = k then if u < now + ttl then Some v else None else mem_live st u j), st'')"
proof -
  from memory.set_ex [OF assms(1), of now k v ttl] obtain st' where
    st': "mem_set_ex now k v ttl st = (Inr (), st')" "mem_inv st'"
      "\<forall>t \<ge> now. mem_live st' t = (mem_live st t)(k := ttl_view now ttl v t)"
    by (auto simp: memory_kv_def)
  from memory.get [OF st'(2), of u j] obtain st'' where "mem_get u j st' = (Inr (mem_live st' u j), st'')"
    by (auto simp: memory_kv_def)
  with st' assms(2) show ?thesis by (auto simp: ttl_view_def)
qed

theorem written_until_expiry_witness:
  "\<exists>st' st''. mem_set_ex 10 ''k'' (1::nat) 5 mem_kv_new = (Inr (), st') \<and> mem_get 15 ''k'' st' = (Inr None, st'')"
  using written_until_expiry [of mem_kv_new 10 15 "''k''" "1::nat" 5 "''k''"]
  by (simp add: mem_inv_def mem_kv_new_def)

text \<open>
  Counters add up and saturate: \<open>incr_by\<close> answers the old count plus the delta, capped at the largest
  64-bit value; the count reads back so until it expires; and no other key changes.
\<close>

theorem counter_adds:
  assumes "mem_inv st" and "mem_incr_by now k delta ttl st = (r, st')" and "now \<le> u" and "u < now + ttl"
  shows "r = Inr (min (mem_counter st now k + delta) (2 ^ 64 - 1)) \<and>
    mem_counter st' u k = min (mem_counter st now k + delta) (2 ^ 64 - 1) \<and>
    (j = k \<or> mem_live st' u j = mem_live st u j)"
  using mem_incr_by_counter [OF assms(1-3)] assms(4) by (auto simp: sat_add64_def u64_max_def)

theorem counter_adds_witness:
  "mem_counter (snd (mem_incr_by 10 ''k'' 3 5 mem_kv_new)) 12 ''k'' = 3"
proof -
  have "mem_inv mem_kv_new" by (simp add: mem_inv_def mem_kv_new_def)
  from counter_adds [OF this surjective_pairing, of 10 12 5 "''k''" 3 "''k''"]
  have "mem_counter (snd (mem_incr_by 10 ''k'' 3 5 mem_kv_new)) 12 ''k'' =
      min (mem_counter mem_kv_new 10 ''k'' + 3) (2 ^ 64 - 1)" by simp
  moreover have "mem_counter mem_kv_new 10 ''k'' = 0"
    by (simp add: mem_counter_def mem_live_def mem_kv_new_def)
  ultimately show ?thesis by simp
qed

text \<open>
  C25. The session lock is exclusive. Over the in-process store, in every state that tasks with different
  tokens can reach by acquiring, being refused, refreshing, losing and releasing the lock while time passes,
  at most one task holds a lock that has not lapsed.
\<close>

theorem session_lock_exclusive:
  assumes "mem_inv s" and "inj tok"
    and "(lock_step memory_kv mem_inv mem_live key tok ttl)\<^sup>*\<^sup>* (lock_start s now) c"
    and "ls_held c i = Some x" and "ls_now c < x" and "ls_held c j = Some y" and "ls_now c < y"
  shows "i = j"
  using assms by (rule memory.lock_exclusive)

theorem session_lock_exclusive_witness:
  "\<exists>c. (lock_step memory_kv mem_inv mem_live ''l'' (\<lambda>i. i) 90)\<^sup>*\<^sup>* (lock_start mem_kv_new 0) c \<and>
     ls_held c 3 = Some 90 \<and> (\<forall>j y. ls_held c j = Some y \<longrightarrow> ls_now c < y \<longrightarrow> (3::nat) = j)"
proof -
  let ?c = "lock_start (mem_kv_new :: nat mem_state) 0"
  let ?s = "snd (mem_set_nx 0 ''l'' 3 90 (mem_kv_new :: nat mem_state))"
  let ?c' = "?c\<lparr>ls_store := ?s, ls_held := (ls_held ?c)(3 := Some (ls_now ?c + 90))\<rparr>"
  have "kv_set_nx memory_kv (ls_now ?c) ''l'' 3 90 (ls_store ?c) = (Inr True, ?s)"
    by (simp add: memory_kv_def lock_start_def mem_set_nx_def with_map_write_def mem_kv_new_def)
  then have r: "(lock_step memory_kv mem_inv mem_live ''l'' (\<lambda>i. i) 90)\<^sup>*\<^sup>* ?c ?c'"
    by (intro r_into_rtranclp lock_step.acquired)
  have "mem_inv (mem_kv_new :: nat mem_state)" by (simp add: mem_inv_def mem_kv_new_def)
  note X = session_lock_exclusive [OF this inj_on_id2 r]
  have h: "ls_held ?c' 3 = Some 90" and n: "ls_now ?c' < 90" by (simp_all add: lock_start_def)
  have "\<forall>j y. ls_held ?c' j = Some y \<longrightarrow> ls_now ?c' < y \<longrightarrow> 3 = j" by (intro allI impI X [OF h n])
  with r h show ?thesis by (intro exI [of _ ?c'] conjI)
qed

text \<open>
  Acquiring the session lock ends: over the in-process store, when each poll sleeps its 50 milliseconds,
  it returns the lock or the timeout error within as many polls as fit into the wait.
\<close>

theorem acquire_ends:
  assumes "mem_inv s" and "\<And>i s. mem_inv s \<Longrightarrow> mem_inv (others i s)"
    and "\<And>i. start + i * LOCK_POLL \<le> snd (clock i)" and "wait \<le> fuel * LOCK_POLL"
  shows "\<exists>res s'. acquire_lock memory_kv clock others t sid tok ttl start wait (Suc fuel) s = Some (res, s') \<and>
    res \<in> {Inr \<lparr>sl_key = lock_key t sid, sl_token = tok, sl_ttl = ttl\<rparr>, Inl (LockTimeout wait)}"
  using memory.acquire_loop_total [of others start clock s "start + wait" 0 fuel "lock_key t sid" tok ttl wait]
    assms by (fastforce simp: acquire_lock_def)

theorem acquire_ends_witness:
  "\<exists>res s'. acquire_lock memory_kv (\<lambda>i. (i * 50, i * 50)) (\<lambda>_ s. s) (tenant_new ''a'' ''b'') ''s'' (1::nat)
      LOCK_TTL 0 200 (Suc 4) mem_kv_new = Some (res, s') \<and>
    res \<in> {Inr \<lparr>sl_key = lock_key (tenant_new ''a'' ''b'') ''s'', sl_token = 1, sl_ttl = LOCK_TTL\<rparr>, Inl (LockTimeout 200)}"
  by (rule acquire_ends) (simp_all add: mem_inv_def mem_kv_new_def LOCK_POLL_def)

end
