(* ===== verification/A2a_Continuations.thy ===== *)
theory A2a_Continuations
  imports Tenant
begin

section \<open>What a conversation remembers of its remote agents\<close>

text \<open>
  \<open>crates/greentic-aw-runtime/src/a2a_source/continuation.rs\<close>: one reference per remote agent, minted for
  one tenant and environment, dropped an hour after its last use, and at most sixteen of them, of which
  the least recently used goes first. A \<open>BTreeMap\<close> is its list of entries in key order. An instant is a
  number of nanoseconds.
\<close>

type_synonym instant = int

definition secs :: "int \<Rightarrow> int" where "secs n = n * 1000000000"

definition CONTINUATION_IDLE_TTL_SECS :: int where "CONTINUATION_IDLE_TTL_SECS = 60 * 60"
definition MAX_REMEMBERED_AGENTS :: nat where "MAX_REMEMBERED_AGENTS = 16"

record a2a_continuation =
  ac_context_id :: string
  ac_task_id :: "string option"
  ac_tenant_id :: string
  ac_env_id :: string
  ac_last_used_at :: instant

type_synonym a2a_continuations = "(string \<times> a2a_continuation) list"

definition belongs_to :: "tenant_context \<Rightarrow> a2a_continuation \<Rightarrow> bool" where
  "belongs_to t c \<longleftrightarrow> ac_tenant_id c = tc_tenant_id t \<and> ac_env_id c = tc_env_id t"

definition is_fresh :: "instant \<Rightarrow> a2a_continuation \<Rightarrow> bool" where
  "is_fresh now c \<longleftrightarrow> now - ac_last_used_at c < secs CONTINUATION_IDLE_TTL_SECS"

definition a2a_resume ::
  "tenant_context \<Rightarrow> string \<Rightarrow> instant \<Rightarrow> a2a_continuations \<Rightarrow> a2a_continuation option \<times> a2a_continuations" where
  "a2a_resume t agent now m =
     (case hget m agent of
        None \<Rightarrow> (None, m)
      | Some c \<Rightarrow>
          if \<not> belongs_to t c then (None, hdel agent m)
          else if \<not> is_fresh now c then (None, hdel agent m)
          else (Some c, m))"

text \<open>\<open>Iterator::min_by_key\<close>: the first of the least elements.\<close>

fun first_min :: "('a \<Rightarrow> int) \<Rightarrow> 'a list \<Rightarrow> 'a option" where
  "first_min f [] = None"
| "first_min f (x # xs) =
     (case first_min f xs of None \<Rightarrow> Some x | Some y \<Rightarrow> if f y < f x then Some y else Some x)"

lemma first_min_None: "first_min f xs = None \<longleftrightarrow> xs = []"
  by (cases xs) (auto split: option.splits)

lemma first_min_Some: "first_min f xs = Some x \<Longrightarrow> x \<in> set xs \<and> (\<forall>y \<in> set xs. f x \<le> f y)"
proof (induction xs arbitrary: x)
  case (Cons a xs)
  show ?case
  proof (cases "first_min f xs")
    case None
    with Cons.prems show ?thesis by (simp add: first_min_None)
  next
    case (Some y)
    with Cons.IH [of y] Cons.prems show ?thesis by (auto split: if_splits)
  qed
qed simp

lemma length_delete: "a \<in> fst ` set m \<Longrightarrow> length (hdel a m) < length m"
proof -
  assume "a \<in> fst ` set m"
  then obtain p where "p \<in> set m" "fst p = a" by auto
  then show ?thesis by (auto simp: AList.delete_eq intro!: length_filter_less)
qed

text \<open>The loop of \<open>evict_to_cap\<close>: drop the least recently used entry other than the one just written.\<close>

function evict_to_cap :: "string \<Rightarrow> a2a_continuations \<Rightarrow> a2a_continuations" where
  "evict_to_cap keep m =
     (if MAX_REMEMBERED_AGENTS < length m then
        case first_min (\<lambda>(agent, c). ac_last_used_at c) (filter (\<lambda>(agent, c). agent \<noteq> keep) m) of
          Some (agent, _) \<Rightarrow> evict_to_cap keep (hdel agent m)
        | None \<Rightarrow> m
      else m)"
  by pat_completeness auto
termination
proof (relation "measure (\<lambda>(keep, m). length m)")
  fix keep m p agent c
  assume "first_min (\<lambda>(agent, c). ac_last_used_at c) (filter (\<lambda>(agent, c). agent \<noteq> keep) m) = Some p"
    and "(agent, c) = p"
  then have "agent \<in> fst ` set m" by (force dest: first_min_Some)
  then show "((keep, hdel agent m), (keep, m)) \<in> measure (\<lambda>(keep, m). length m)"
    by (simp add: length_delete)
qed simp

declare evict_to_cap.simps [simp del]

definition remember ::
  "tenant_context \<Rightarrow> string \<Rightarrow> string \<Rightarrow> string option \<Rightarrow> instant \<Rightarrow> a2a_continuations \<Rightarrow> a2a_continuations" where
  "remember t agent context_id task_id now m =
     evict_to_cap agent (bt_insert agent
       \<lparr>ac_context_id = context_id, ac_task_id = task_id, ac_tenant_id = tc_tenant_id t,
        ac_env_id = tc_env_id t, ac_last_used_at = now\<rparr> m)"

definition forget :: "string \<Rightarrow> a2a_continuations \<Rightarrow> a2a_continuations" where
  "forget agent m = hdel agent m"

subsection \<open>What eviction keeps\<close>

definition a2a_wf :: "a2a_continuations \<Rightarrow> bool" where
  "a2a_wf m \<longleftrightarrow> sorted_wrt (<) (map fst m)"

lemma a2a_wf_distinct: "a2a_wf m \<Longrightarrow> hm_wf m"
  unfolding a2a_wf_def by (metis strict_sorted_iff)

lemma a2a_wf_delete: "a2a_wf m \<Longrightarrow> a2a_wf (hdel a m)"
  unfolding a2a_wf_def AList.delete_eq by (induction m) auto

lemma a2a_wf_insert: "a2a_wf m \<Longrightarrow> a2a_wf (bt_insert a c m)"
  unfolding a2a_wf_def by (rule sorted_bt_insert)

text \<open>The entry that one round drops.\<close>

definition victim :: "string \<Rightarrow> a2a_continuations \<Rightarrow> string option" where
  "victim keep m =
     (if MAX_REMEMBERED_AGENTS < length m
      then map_option fst (first_min (\<lambda>(agent, c). ac_last_used_at c) (filter (\<lambda>(agent, c). agent \<noteq> keep) m))
      else None)"

lemma evict_victim: "evict_to_cap keep m = (case victim keep m of None \<Rightarrow> m | Some a \<Rightarrow> evict_to_cap keep (hdel a m))"
  by (subst evict_to_cap.simps) (auto simp: victim_def split: option.splits prod.splits)

lemma victim_Some:
  assumes "victim keep m = Some a" and "a2a_wf m"
  obtains c where "hget m a = Some c" and "a \<noteq> keep"
    and "\<And>b d. hget m b = Some d \<Longrightarrow> b \<noteq> keep \<Longrightarrow> ac_last_used_at c \<le> ac_last_used_at d"
proof -
  from assms(1) obtain c where
    "first_min (\<lambda>(agent, c). ac_last_used_at c) (filter (\<lambda>(agent, c). agent \<noteq> keep) m) = Some (a, c)"
    by (auto simp: victim_def split: if_splits)
  from first_min_Some [OF this] have c: "(a, c) \<in> set m" "a \<noteq> keep"
    "\<forall>(b, d) \<in> set m. b \<noteq> keep \<longrightarrow> ac_last_used_at c \<le> ac_last_used_at d" by auto
  show thesis
  proof (rule that)
    show "hget m a = Some c" using c(1) a2a_wf_distinct [OF assms(2)] by simp
    show "ac_last_used_at c \<le> ac_last_used_at d" if "hget m b = Some d" "b \<noteq> keep" for b d
      using c(3) map_of_SomeD [OF that(1)] that(2) by auto
  qed (rule c(2))
qed

lemma victim_None:
  assumes "victim keep m = None" and "a2a_wf m"
  shows "length m \<le> MAX_REMEMBERED_AGENTS"
proof (rule ccontr)
  assume "\<not> ?thesis"
  with assms(1) have "filter (\<lambda>(agent, c). agent \<noteq> keep) m = []" and big: "1 < length m"
    by (auto simp: victim_def first_min_None MAX_REMEMBERED_AGENTS_def)
  then have "fst ` set m \<subseteq> {keep}" by (auto simp: filter_empty_conv)
  then have "card (fst ` set m) \<le> card {keep}" by (intro card_mono) simp_all
  moreover have "card (fst ` set m) = length m"
    using distinct_card [OF a2a_wf_distinct [OF assms(2)]] by simp
  ultimately show False using big by simp
qed

lemma evict_keeps:
  "a2a_wf m \<Longrightarrow> a2a_wf (evict_to_cap keep m) \<and> length (evict_to_cap keep m) \<le> MAX_REMEMBERED_AGENTS \<and>
     hget (evict_to_cap keep m) keep = hget m keep \<and>
     (\<forall>b d. hget (evict_to_cap keep m) b = Some d \<longrightarrow> hget m b = Some d)"
proof (induction "length m" arbitrary: m rule: less_induct)
  case less
  show ?case
  proof (cases "victim keep m")
    case None
    then have "evict_to_cap keep m = m" by (subst evict_victim) simp
    with None less.prems victim_None show ?thesis by simp
  next
    case (Some a)
    from victim_Some [OF Some less.prems] obtain c where c: "hget m a = Some c" "a \<noteq> keep" by blast
    then have "a \<in> fst ` set m" by (metis domI dom_map_of_conv_image_fst)
    note IH = less.hyps [OF length_delete [OF this] a2a_wf_delete [OF less.prems]]
    have ev: "evict_to_cap keep m = evict_to_cap keep (hdel a m)" by (subst evict_victim) (simp add: Some)
    have sub: "hget (hdel a m) b = Some d \<Longrightarrow> hget m b = Some d" for b d by (simp add: hm_simps split: if_splits)
    have "hget (hdel a m) keep = hget m keep" using c(2) by (simp add: hm_simps)
    with IH [folded ev] sub show ?thesis by metis
  qed
qed

lemma evict_least_recent:
  "a2a_wf m \<Longrightarrow> hget m a = Some c \<Longrightarrow> hget (evict_to_cap keep m) a = None \<Longrightarrow>
   hget (evict_to_cap keep m) b = Some d \<Longrightarrow> b \<noteq> keep \<Longrightarrow> ac_last_used_at c \<le> ac_last_used_at d"
proof (induction "length m" arbitrary: m rule: less_induct)
  case less
  show ?case
  proof (cases "victim keep m")
    case None
    then have "evict_to_cap keep m = m" by (subst evict_victim) simp
    with less.prems show ?thesis by simp
  next
    case (Some v)
    have ev: "evict_to_cap keep m = evict_to_cap keep (hdel v m)" by (subst evict_victim) (simp add: Some)
    from victim_Some [OF Some less.prems(1)] obtain e where e: "hget m v = Some e" "v \<noteq> keep"
      and min: "\<And>b d. hget m b = Some d \<Longrightarrow> b \<noteq> keep \<Longrightarrow> ac_last_used_at e \<le> ac_last_used_at d" by blast
    show ?thesis
    proof (cases "a = v")
      case True
      from evict_keeps [OF less.prems(1), of keep] less.prems(4) have "hget m b = Some d" by blast
      from min [OF this less.prems(5)] True e less.prems(2) show ?thesis by simp
    next
      case False
      from e(1) have "v \<in> fst ` set m" by (metis domI dom_map_of_conv_image_fst)
      note IH = less.hyps [OF length_delete [OF this] a2a_wf_delete [OF less.prems(1)]]
      have "hget (hdel v m) a = Some c" using less.prems(2) False by (simp add: hm_simps)
      from IH [OF this] less.prems(3-5) show ?thesis unfolding ev by blast
    qed
  qed
qed

lemma evict_small: "length m \<le> MAX_REMEMBERED_AGENTS \<Longrightarrow> evict_to_cap keep m = m"
  by (subst evict_victim) (simp add: victim_def)

end
