(* ===== verification/Conversation.thy ===== *)
theory Conversation
  imports A2a_Continuations Session_Lock "HOL-Library.Sublist"
begin

section \<open>Conversation state\<close>

text \<open>
  \<open>crates/greentic-aw-runtime/src/state.rs\<close> (the state of a conversation, the truncation of its history and
  the cap on tool results) and the load and save of \<open>state_kv.rs\<close>. Then what truncation preserves: the
  history stays one that a language-model provider accepts.
\<close>

subsection \<open>Data\<close>

datatype attachment_kind = ImageAttachment | DocumentAttachment

record attachment_ref =
  at_id :: string
  at_mime_type :: string
  at_name :: "string option"
  at_size_bytes :: "nat option"
  at_kind :: attachment_kind
  at_text_ref :: "string option"

record tool_call_record =
  tk_call_id :: string
  tk_extension_id :: string
  tk_tool_name :: string
  tk_args :: json

datatype chat_message =
    SystemMsg string
  | UserMsg string "attachment_ref list"
  | AssistantMsg string "tool_call_record list"
  | ToolMsg string json

record pending_tool_call =
  pt_call_id :: string
  pt_tool_name :: string
  pt_extension_id :: string
  pt_args :: json
  pt_flow_ref :: string
  pt_flow_snapshot :: json
  pt_iterations_used :: nat
  pt_expires_at :: instant
  pt_presentation :: "json option"
  pt_parked_at :: "instant option"
  pt_side_turns :: nat
  pt_unannounced_attachments :: nat

record conversation_state =
  cs_schema_version :: nat
  cs_session_id :: string
  cs_tenant_id :: string
  cs_env_id :: string
  cs_messages :: "chat_message list"
  cs_a2a :: a2a_continuations
  cs_pending_tool :: "pending_tool_call option"
  cs_created_at :: instant
  cs_updated_at :: instant

definition STATE_SCHEMA_VERSION :: nat where "STATE_SCHEMA_VERSION = 1"

definition conversation_empty :: "instant \<Rightarrow> tenant_context \<Rightarrow> string \<Rightarrow> conversation_state" where
  "conversation_empty now t session_id =
     \<lparr>cs_schema_version = STATE_SCHEMA_VERSION, cs_session_id = session_id, cs_tenant_id = tc_tenant_id t,
      cs_env_id = tc_env_id t, cs_messages = [], cs_a2a = [], cs_pending_tool = None,
      cs_created_at = now, cs_updated_at = now\<rparr>"

subsection \<open>Truncation\<close>

fun is_system :: "chat_message \<Rightarrow> bool" where
  "is_system (SystemMsg _) = True"
| "is_system _ = False"

fun is_user :: "chat_message \<Rightarrow> bool" where
  "is_user (UserMsg _ _) = True"
| "is_user _ = False"

text \<open>Whether a message makes or answers the call \<open>i\<close>.\<close>

fun mentions_call :: "string \<Rightarrow> chat_message \<Rightarrow> bool" where
  "mentions_call i (AssistantMsg _ calls) = list_ex (\<lambda>c. tk_call_id c = i) calls"
| "mentions_call i (ToolMsg j _) = (j = i)"
| "mentions_call i _ = False"

definition span_of :: "nat \<Rightarrow> nat \<Rightarrow> 'a list \<Rightarrow> 'a list" where
  "span_of a b xs = drop a (take b xs)"

text \<open>The end of a turn: the first user message from \<open>e\<close> on, or the end of the history.\<close>

function turn_end :: "chat_message list \<Rightarrow> nat \<Rightarrow> nat" where
  "turn_end ms e = (if e < length ms \<and> \<not> is_user (ms ! e) then turn_end ms (Suc e) else e)"
  by pat_completeness auto
termination by (relation "measure (\<lambda>(ms, e). length ms - e)") auto

declare turn_end.simps [simp del]

lemma turn_end_ge: "e \<le> turn_end ms e"
proof (induction ms e rule: turn_end.induct)
  case (1 ms e)
  then show ?case by (subst turn_end.simps) (auto simp: Suc_le_lessD less_imp_le)
qed

definition holds_protected :: "string option \<Rightarrow> chat_message list \<Rightarrow> bool" where
  "holds_protected p ms = (case p of None \<Rightarrow> False | Some i \<Rightarrow> list_ex (mentions_call i) ms)"

function removable_from :: "string option \<Rightarrow> chat_message list \<Rightarrow> nat \<Rightarrow> (nat \<times> nat) option" where
  "removable_from p ms i =
     (if i < length ms then
        if is_system (ms ! i) then removable_from p ms (Suc i)
        else
          let e = turn_end ms (Suc i) in
          if length ms \<le> e then None
          else if \<not> holds_protected p (span_of i e ms) then Some (i, e)
          else removable_from p ms e
      else None)"
  by pat_completeness auto
termination
proof (relation "measure (\<lambda>(p, ms, i). length ms - i)")
  fix p ms i e
  assume "i < length ms" and "e = turn_end ms (Suc i)"
  moreover have "Suc i \<le> turn_end ms (Suc i)" by (rule turn_end_ge)
  ultimately show "((p, ms, e), (p, ms, i)) \<in> measure (\<lambda>(p, ms, i). length ms - i)" by simp
qed auto

declare removable_from.simps [simp del]

definition oldest_removable_turn :: "string option \<Rightarrow> chat_message list \<Rightarrow> (nat \<times> nat) option" where
  "oldest_removable_turn p ms = removable_from p ms 0"

definition non_system :: "chat_message list \<Rightarrow> nat" where
  "non_system ms = length (filter (\<lambda>m. \<not> is_system m) ms)"

text \<open>One turn is drained; the system messages inside it are put back in its place.\<close>

definition drop_turn :: "nat \<Rightarrow> nat \<Rightarrow> chat_message list \<Rightarrow> chat_message list" where
  "drop_turn s e ms = take s ms @ filter is_system (span_of s e ms) @ drop e ms"

text \<open>What \<open>oldest_removable_turn\<close> finds.\<close>

lemma turn_end_least: "e \<le> j \<Longrightarrow> j < turn_end ms e \<Longrightarrow> \<not> is_user (ms ! j)"
proof (induction ms e rule: turn_end.induct)
  case (1 ms e)
  show ?case
  proof (cases "e < length ms \<and> \<not> is_user (ms ! e)")
    case True
    with 1 show ?thesis by (cases "e = j") (auto simp: turn_end.simps [of ms e])
  next
    case False
    with 1 show ?thesis by (simp add: turn_end.simps [of ms e])
  qed
qed

lemma turn_end_user: "turn_end ms e < length ms \<Longrightarrow> is_user (ms ! turn_end ms e)"
proof (induction ms e rule: turn_end.induct)
  case (1 ms e)
  then show ?case by (subst (asm) turn_end.simps, subst turn_end.simps) (auto split: if_splits)
qed

lemma removable_from_Some:
  "removable_from p ms i = Some (s, e) \<Longrightarrow>
     i \<le> s \<and> s < e \<and> e < length ms \<and> \<not> is_system (ms ! s) \<and> is_user (ms ! e) \<and>
     e = turn_end ms (Suc s) \<and> \<not> holds_protected p (span_of s e ms) \<and>
     (is_user (ms ! s) \<or> (\<forall>j. i \<le> j \<longrightarrow> j < s \<longrightarrow> is_system (ms ! j)))"
proof (induction p ms i rule: removable_from.induct)
  case (1 p ms i)
  let ?e = "turn_end ms (Suc i)"
  have g: "Suc i \<le> ?e" by (rule turn_end_ge)
  from "1.prems" have i: "i < length ms" by (subst (asm) removable_from.simps) (auto split: if_splits)
  show ?case
  proof (cases "is_system (ms ! i)")
    case True
    with "1.prems" i have eq: "removable_from p ms (Suc i) = Some (s, e)"
      by (simp add: removable_from.simps [of p ms i])
    from "1.IH"(1) [OF i True eq] True show ?thesis by (metis Suc_le_eq Suc_leD le_eq_less_or_eq)
  next
    case nosys: False
    show ?thesis
    proof (cases "holds_protected p (span_of i ?e ms)")
      case True
      from "1.prems" nosys i True have lt: "?e < length ms" and eq: "removable_from p ms ?e = Some (s, e)"
        by (subst (asm) removable_from.simps, simp add: Let_def split: if_splits)+
      have "\<not> length ms \<le> ?e" and "\<not> \<not> holds_protected p (span_of i ?e ms)" using lt True by simp_all
      note IH = "1.IH"(2) [OF i nosys refl this eq]
      have "is_user (ms ! ?e)" using lt by (rule turn_end_user)
      moreover have "\<not> is_system (ms ! ?e)" using calculation by (cases "ms ! ?e") simp_all
      ultimately have "is_user (ms ! s)" using IH by (metis le_eq_less_or_eq order_refl)
      with IH g show ?thesis by (meson Suc_leD order_trans)
    next
      case False
      with "1.prems" nosys i g show ?thesis
        by (subst (asm) removable_from.simps) (auto simp: Let_def turn_end_user split: if_splits)
    qed
  qed
qed

lemma span_of_split: "s \<le> e \<Longrightarrow> ms = take s ms @ span_of s e ms @ drop e ms"
  by (metis append.assoc append_take_drop_id span_of_def drop_take take_add take_take le_add_diff_inverse)

text \<open>
  The abstract step: a whole turn goes, except for the system messages in it. It starts with a user
  message, or with the first message that is no system message, and ends before the next user message.
\<close>

inductive turn_dropped :: "string option \<Rightarrow> chat_message list \<Rightarrow> chat_message list \<Rightarrow> bool" for p where
  turn_dropped: "\<not> is_system m \<Longrightarrow> is_user u \<Longrightarrow> list_all (\<lambda>x. \<not> is_user x) mid \<Longrightarrow>
    \<not> holds_protected p (m # mid) \<Longrightarrow> is_user m \<or> list_all is_system pre \<Longrightarrow>
    turn_dropped p (pre @ m # mid @ u # suf) (pre @ filter is_system mid @ u # suf)"

lemma drop_turn_step:
  assumes "oldest_removable_turn p ms = Some (s, e)"
  shows "turn_dropped p ms (drop_turn s e ms)"
proof -
  from removable_from_Some [OF assms [unfolded oldest_removable_turn_def]]
  have f: "s < e" "e < length ms" "\<not> is_system (ms ! s)" "is_user (ms ! e)" "e = turn_end ms (Suc s)"
    "\<not> holds_protected p (span_of s e ms)" "is_user (ms ! s) \<or> (\<forall>j. j < s \<longrightarrow> is_system (ms ! j))" by auto
  let ?mid = "span_of (Suc s) e ms"
  have sp: "span_of s e ms = ms ! s # ?mid"
    using f(1,2) by (simp add: span_of_def Cons_nth_drop_Suc [symmetric])
  have de: "drop e ms = ms ! e # drop (Suc e) ms" using f(2) by (rule Cons_nth_drop_Suc [symmetric])
  have eq: "ms = take s ms @ (ms ! s) # ?mid @ (ms ! e) # drop (Suc e) ms"
    using span_of_split [of s e ms] f(1) unfolding sp de by simp
  have eq': "drop_turn s e ms = take s ms @ filter is_system ?mid @ (ms ! e) # drop (Suc e) ms"
    using f(3) unfolding drop_turn_def sp de by simp
  have "list_all (\<lambda>x. \<not> is_user x) ?mid"
  proof (unfold list_all_length, intro allI impI)
    fix n
    assume n: "n < length ?mid"
    then have "Suc s + n < e" using f(2) by (simp add: span_of_def)
    with turn_end_least [of "Suc s" "Suc s + n" ms] f(5) have "\<not> is_user (ms ! (Suc s + n))" by simp
    with n f(2) show "\<not> is_user (?mid ! n)" by (simp add: span_of_def)
  qed
  moreover have "is_user (ms ! s) \<or> list_all is_system (take s ms)"
    using f(1,2,7) by (auto simp: list_all_length)
  ultimately have "turn_dropped p (take s ms @ (ms ! s) # ?mid @ (ms ! e) # drop (Suc e) ms)
      (take s ms @ filter is_system ?mid @ (ms ! e) # drop (Suc e) ms)"
    using f(3,4,6) unfolding sp by (intro turn_dropped.turn_dropped)
  then show ?thesis unfolding eq' using eq by simp
qed

lemma turn_dropped_non_system: "turn_dropped p ms ms' \<Longrightarrow> non_system ms' < non_system ms"
  by (induction rule: turn_dropped.induct) (auto simp: non_system_def)

function truncate_loop :: "nat \<Rightarrow> string option \<Rightarrow> chat_message list \<Rightarrow> chat_message list" where
  "truncate_loop mx p ms =
     (if non_system ms \<le> mx then ms
      else
        case oldest_removable_turn p ms of
          None \<Rightarrow> ms
        | Some (s, e) \<Rightarrow> truncate_loop mx p (drop_turn s e ms))"
  by pat_completeness auto
termination
  by (relation "measure (\<lambda>(mx, p, ms). non_system ms)")
    (auto dest!: drop_turn_step turn_dropped_non_system)

declare truncate_loop.simps [simp del]

definition truncate_history :: "nat \<Rightarrow> conversation_state \<Rightarrow> conversation_state" where
  "truncate_history max_turns st =
     st\<lparr>cs_messages := truncate_loop max_turns (map_option pt_call_id (cs_pending_tool st)) (cs_messages st)\<rparr>"

lemma truncate_reaches: "(turn_dropped p)\<^sup>*\<^sup>* ms (truncate_loop mx p ms)"
proof (induction mx p ms rule: truncate_loop.induct)
  case (1 mx p ms)
  show ?case
  proof (cases "non_system ms \<le> mx \<or> oldest_removable_turn p ms = None")
    case True
    then show ?thesis by (auto simp: truncate_loop.simps [of mx p ms])
  next
    case False
    then obtain s e where se: "oldest_removable_turn p ms = Some (s, e)" and n: "\<not> non_system ms \<le> mx" by auto
    from drop_turn_step [OF se] "1.IH" [OF n se refl] n se show ?thesis
      by (simp add: truncate_loop.simps [of mx p ms])
  qed
qed

lemma truncate_stops:
  "non_system (truncate_loop mx p ms) \<le> mx \<or> oldest_removable_turn p (truncate_loop mx p ms) = None"
proof (induction mx p ms rule: truncate_loop.induct)
  case (1 mx p ms)
  show ?case
  proof (cases "non_system ms \<le> mx \<or> oldest_removable_turn p ms = None")
    case True
    then show ?thesis by (auto simp: truncate_loop.simps [of mx p ms])
  next
    case False
    then obtain s e where se: "oldest_removable_turn p ms = Some (s, e)" and n: "\<not> non_system ms \<le> mx" by auto
    from "1.IH" [OF n se refl] n se show ?thesis by (simp add: truncate_loop.simps [of mx p ms])
  qed
qed

subsection \<open>Histories a provider accepts\<close>

text \<open>
  Every tool result answers a call made earlier in the same turn, and the calls that have no result in
  their turn.
\<close>

fun paired :: "string set \<Rightarrow> chat_message list \<Rightarrow> bool" where
  "paired calls [] = True"
| "paired calls (SystemMsg _ # ms) = paired calls ms"
| "paired calls (UserMsg _ _ # ms) = paired {} ms"
| "paired calls (AssistantMsg _ cs # ms) = paired (calls \<union> tk_call_id ` set cs) ms"
| "paired calls (ToolMsg i _ # ms) = (i \<in> calls \<and> paired calls ms)"

fun turn_results :: "chat_message list \<Rightarrow> string set" where
  "turn_results (UserMsg _ _ # ms) = {}"
| "turn_results (ToolMsg i _ # ms) = insert i (turn_results ms)"
| "turn_results (_ # ms) = turn_results ms"
| "turn_results [] = {}"

fun unanswered :: "chat_message list \<Rightarrow> string set" where
  "unanswered (AssistantMsg _ cs # ms) = (tk_call_id ` set cs - turn_results ms) \<union> unanswered ms"
| "unanswered (_ # ms) = unanswered ms"
| "unanswered [] = {}"

fun open_after :: "string set \<Rightarrow> chat_message list \<Rightarrow> string set" where
  "open_after calls [] = calls"
| "open_after calls (SystemMsg _ # ms) = open_after calls ms"
| "open_after calls (UserMsg _ _ # ms) = open_after {} ms"
| "open_after calls (AssistantMsg _ cs # ms) = open_after (calls \<union> tk_call_id ` set cs) ms"
| "open_after calls (ToolMsg _ _ # ms) = open_after calls ms"

lemma paired_append: "paired calls (xs @ ys) \<longleftrightarrow> paired calls xs \<and> paired (open_after calls xs) ys"
  by (induction calls xs rule: paired.induct) auto

lemma paired_system: "list_all is_system xs \<Longrightarrow> paired calls xs"
proof (induction xs)
  case (Cons x xs)
  then show ?case by (cases x) auto
qed simp

lemma paired_user: "is_user u \<Longrightarrow> paired calls (u # ms) = paired {} ms"
  by (cases u) auto

lemma paired_dropped: "turn_dropped p ms ms' \<Longrightarrow> paired calls ms \<Longrightarrow> paired calls ms'"
proof (induction rule: turn_dropped.induct)
  case (turn_dropped m u mid pre suf)
  from turn_dropped.prems have "paired calls pre" and "paired {} suf"
    using turn_dropped.hyps(2) by (simp_all add: paired_append paired_user flip: append_Cons)
  then show ?case
    using turn_dropped.hyps(2) paired_system [of "filter is_system mid"]
    by (auto simp: paired_append paired_user list_all_iff)
qed

lemma turn_results_user: "is_user u \<Longrightarrow> turn_results (xs @ u # ys) = turn_results xs"
  by (cases u) (simp, induction xs rule: turn_results.induct, simp_all)+

lemma unanswered_user: "is_user u \<Longrightarrow> unanswered (u # ms) = unanswered ms"
  by (cases u) simp_all

lemma unanswered_append_user: "is_user u \<Longrightarrow> unanswered (xs @ u # ys) = unanswered xs \<union> unanswered ys"
proof (induction xs rule: unanswered.induct)
  case (1 c cs ms)
  then show ?case by (auto simp: turn_results_user)
qed (simp_all add: unanswered_user)

lemma system_calls: "list_all is_system xs \<Longrightarrow> unanswered (xs @ ys) = unanswered ys"
proof (induction xs)
  case (Cons x xs)
  then show ?case by (cases x) auto
qed simp

lemma unanswered_dropped: "turn_dropped p ms ms' \<Longrightarrow> unanswered ms' \<subseteq> unanswered ms"
proof (induction rule: turn_dropped.induct)
  case (turn_dropped m u mid pre suf)
  note user = unanswered_append_user [OF turn_dropped.hyps(2)]
  let ?f = "filter is_system mid"
  have f: "unanswered (?f @ ys) = unanswered ys" for ys by (rule system_calls) (simp add: list_all_iff)
  from user [of "m # mid" suf] have mid: "unanswered suf \<subseteq> unanswered (m # mid @ u # suf)" by auto
  show ?case
  proof (cases "is_user m")
    case True
    have pre: "unanswered (pre @ m # mid @ u # suf) = unanswered pre \<union> unanswered (mid @ u # suf)"
      by (rule unanswered_append_user [OF True])
    have res: "turn_results (?f @ ys) = turn_results ys" for ys
    proof (induction mid)
      case (Cons a mid)
      then show ?case by (cases a) auto
    qed simp
    have "unanswered (pre @ ?f) = unanswered pre" for pre
    proof (induction pre rule: unanswered.induct)
      case (1 c cs ms)
      have "turn_results (ms @ ?f) = turn_results ms"
        using res [of "[]"] by (induction ms rule: turn_results.induct) auto
      with 1 show ?case by simp
    qed (use f [of "[]"] in simp_all)
    with user [of "pre @ ?f" suf] user [of mid suf] pre show ?thesis by auto
  next
    case False
    with turn_dropped.hyps(5) have "list_all is_system pre" by simp
    from system_calls [OF this] f [of "u # suf"] mid show ?thesis
      by (simp add: unanswered_user [OF turn_dropped.hyps(2)])
  qed
qed

subsection \<open>What truncation keeps\<close>

lemma dropped_subseq: "turn_dropped p ms ms' \<Longrightarrow> subseq ms' ms"
proof (induction rule: turn_dropped.induct)
  case (turn_dropped m u mid pre suf)
  have "subseq (filter is_system mid @ u # suf) (mid @ u # suf)"
    by (intro list_emb_append_mono subseq_filter_left subseq_order.refl)
  then have "subseq (filter is_system mid @ u # suf) (m # mid @ u # suf)" by (rule list_emb_Cons)
  then show ?case by (intro list_emb_append_mono subseq_order.refl)
qed

lemma dropped_system: "turn_dropped p ms ms' \<Longrightarrow> filter is_system ms' = filter is_system ms"
  by (induction rule: turn_dropped.induct) simp

lemma dropped_newest:
  assumes "turn_dropped p ms ms'" and "ms = xs @ u # ys" and "is_user u" and "list_all (\<lambda>x. \<not> is_user x) ys"
  shows "\<exists>xs'. ms' = xs' @ u # ys"
  using assms
proof (induction rule: turn_dropped.induct)
  case (turn_dropped m v mid pre suf)
  have "(pre @ m # mid) @ (v # suf) = xs @ (u # ys)" using turn_dropped.prems(1) by simp
  then have "(\<exists>us. (pre @ m # mid) @ us = xs \<and> v # suf = us @ u # ys) \<or> (\<exists>us. pre @ m # mid = xs @ us \<and> us @ v # suf = u # ys)"
    unfolding append_eq_append_conv2 by blast
  then show ?case
  proof
    assume "\<exists>us. (pre @ m # mid) @ us = xs \<and> v # suf = us @ u # ys"
    then obtain us where "v # suf = us @ u # ys" by blast
    then have "pre @ filter is_system mid @ v # suf = (pre @ filter is_system mid @ us) @ u # ys" by simp
    then show ?thesis by blast
  next
    assume "\<exists>us. pre @ m # mid = xs @ us \<and> us @ v # suf = u # ys"
    then obtain us where us: "us @ v # suf = u # ys" by blast
    show ?thesis
    proof (cases us)
      case Nil
      with us have "pre @ filter is_system mid @ v # suf = (pre @ filter is_system mid) @ u # ys" by simp
      then show ?thesis by blast
    next
      case (Cons a us')
      with us have "v \<in> set ys" by auto
      with turn_dropped.prems(3) turn_dropped.hyps(2) show ?thesis by (auto simp: list_all_iff)
    qed
  qed
qed

lemma dropped_protected:
  "turn_dropped p ms ms' \<Longrightarrow> p = Some i \<Longrightarrow> filter (mentions_call i) ms' = filter (mentions_call i) ms"
proof (induction rule: turn_dropped.induct)
  case (turn_dropped m u mid pre suf)
  have "mentions_call i x \<Longrightarrow> \<not> is_system x" for x by (cases x) auto
  moreover have "\<not> mentions_call i m" and "list_all (\<lambda>x. \<not> mentions_call i x) mid"
    using turn_dropped.hyps(4) turn_dropped.prems by (auto simp: holds_protected_def list_all_iff list_ex_iff)
  ultimately show ?case by (auto simp: list_all_iff filter_empty_conv)
qed

lemma dropped_star:
  assumes "(turn_dropped p)\<^sup>*\<^sup>* ms ms'"
  shows "subseq ms' ms" and "filter is_system ms' = filter is_system ms"
    and "paired calls ms \<Longrightarrow> paired calls ms'" and "unanswered ms' \<subseteq> unanswered ms"
    and "p = Some i \<Longrightarrow> filter (mentions_call i) ms' = filter (mentions_call i) ms"
    and "ms = xs @ u # ys \<Longrightarrow> is_user u \<Longrightarrow> list_all (\<lambda>x. \<not> is_user x) ys \<Longrightarrow> \<exists>xs'. ms' = xs' @ u # ys"
proof -
  show "subseq ms' ms" using assms by induction (auto dest: dropped_subseq subseq_order.trans)
  show "filter is_system ms' = filter is_system ms" using assms by induction (auto dest: dropped_system)
  show "paired calls ms'" if "paired calls ms" using assms that by induction (auto dest: paired_dropped)
  show "unanswered ms' \<subseteq> unanswered ms" using assms by induction (auto dest: unanswered_dropped)
  show "filter (mentions_call i) ms' = filter (mentions_call i) ms" if "p = Some i"
    using assms by induction (auto dest!: dropped_protected simp: that)
  show "\<exists>xs'. ms' = xs' @ u # ys" if "ms = xs @ u # ys" "is_user u" "list_all (\<lambda>x. \<not> is_user x) ys"
    using assms
  proof induction
    case (step y z)
    then show ?case using dropped_newest that(2,3) by blast
  qed (use that in blast)
qed

subsection \<open>The cap on tool results\<close>

text \<open>
  A text is its UTF-8 bytes. \<open>str::is_char_boundary\<close> holds at both ends and before every byte that does
  not continue a character; \<open>to_text\<close> is \<open>Value::to_string\<close>.
\<close>

definition MAX_TOOL_RESULT_BYTES :: nat where "MAX_TOOL_RESULT_BYTES = 32 * 1024"

definition is_char_boundary :: "string \<Rightarrow> nat \<Rightarrow> bool" where
  "is_char_boundary s i \<longleftrightarrow> i = 0 \<or> i = length s \<or>
     i < length s \<and> \<not> (128 \<le> (of_char (s ! i) :: nat) \<and> (of_char (s ! i) :: nat) < 192)"

fun cut_back :: "string \<Rightarrow> nat \<Rightarrow> nat" where
  "cut_back s 0 = 0"
| "cut_back s (Suc n) = (if is_char_boundary s (Suc n) then Suc n else cut_back s n)"

definition cap_tool_result :: "(json \<Rightarrow> string) \<Rightarrow> json \<Rightarrow> json" where
  "cap_tool_result to_text result =
     (let s = to_text result in
      if length s \<le> MAX_TOOL_RESULT_BYTES then result
      else json_obj [(''truncated'', JBool True), (''original_bytes'', JInt (int (length s))),
                     (''preview'', JString (take (cut_back s MAX_TOOL_RESULT_BYTES) s))])"

lemma cut_back_boundary: "cut_back s n \<le> n \<and> is_char_boundary s (cut_back s n)"
  by (induction n) (auto simp: is_char_boundary_def)

lemma cut_back_greatest: "m \<le> n \<Longrightarrow> is_char_boundary s m \<Longrightarrow> m \<le> cut_back s n"
  by (induction n) (auto simp: le_Suc_eq)

subsection \<open>Parked tools\<close>

definition PENDING_TOOL_IDLE_TTL_SECS :: int where "PENDING_TOOL_IDLE_TTL_SECS = 60 * 60"
definition MAX_SIDE_TURNS :: nat where "MAX_SIDE_TURNS = 20"
definition PENDING_TOOL_MAX_AGE_SECS :: int where "PENDING_TOOL_MAX_AGE_SECS = 24 * 60 * 60"

definition expiry_from :: "instant \<Rightarrow> instant" where
  "expiry_from now = now + secs PENDING_TOOL_IDLE_TTL_SECS"

definition is_expired :: "instant \<Rightarrow> pending_tool_call \<Rightarrow> bool" where
  "is_expired now p \<longleftrightarrow> pt_expires_at p \<le> now"

subsection \<open>Load and save\<close>

text \<open>\<open>KvAgentStateStore\<close>: the reader and writer of the JSON text are parameters, \<open>wall\<close> is \<open>Utc::now\<close>.\<close>

record 'b state_codec =
  sc_to :: "conversation_state \<Rightarrow> 'b option"
  sc_from :: "'b \<Rightarrow> conversation_state option"

definition kas_load ::
  "('s, 'b) kv_ops \<Rightarrow> 'b state_codec \<Rightarrow> nat \<Rightarrow> instant \<Rightarrow> tenant_context \<Rightarrow> string \<Rightarrow>
     ('s, state_error, conversation_state) st_res" where
  "kas_load kv sc now wall t session_id =
     sbind (kv_get kv now (state_key t session_id)) (\<lambda>v.
       case v of
         None \<Rightarrow> sret (conversation_empty wall t session_id)
       | Some bytes \<Rightarrow>
           sbind (sres (ok_or DecodeError (sc_from sc bytes))) (\<lambda>st.
             if STATE_SCHEMA_VERSION < cs_schema_version st
             then sfail (SchemaIncompatible (cs_schema_version st) STATE_SCHEMA_VERSION)
             else sret st))"

definition kas_save ::
  "('s, 'b) kv_ops \<Rightarrow> 'b state_codec \<Rightarrow> nat \<Rightarrow> tenant_context \<Rightarrow> string \<Rightarrow> conversation_state \<Rightarrow>
     ('s, state_error, unit) st_res" where
  "kas_save kv sc now t session_id st =
     sbind (sres (ok_or DecodeError (sc_to sc st))) (\<lambda>bytes.
       kv_set_ex kv now (state_key t session_id) bytes STATE_TTL)"

context aw_kv
begin

lemma load_live:
  assumes "invar s"
  shows "\<exists>s'. invar s' \<and> (\<forall>u \<ge> now. live s' u = live s u) \<and>
    kas_load kv sc now wall t i s =
      ((case live s now (state_key t i) of
          None \<Rightarrow> Inr (conversation_empty wall t i)
        | Some b \<Rightarrow> rbind (ok_or DecodeError (sc_from sc b)) (\<lambda>st.
            if STATE_SCHEMA_VERSION < cs_schema_version st
            then Inl (SchemaIncompatible (cs_schema_version st) STATE_SCHEMA_VERSION) else Inr st)), s')"
proof -
  from get [OF assms] obtain s' where "kv_get kv now (state_key t i) s = (Inr (live s now (state_key t i)), s')"
    "invar s'" "\<forall>u \<ge> now. live s' u = live s u" by blast
  then show ?thesis
    by (intro exI [of _ s'])
      (auto simp: kas_load_def sbind_def ok_or_def rbind_def sfail_def sret_def split: option.splits)
qed

lemma save_live:
  assumes "invar s" and "sc_to sc st = Some b"
  shows "\<exists>s'. kas_save kv sc now t i st s = (Inr (), s') \<and> invar s' \<and>
    (\<forall>u \<ge> now. live s' u = (live s u)(state_key t i := ttl_view now STATE_TTL b u))"
  using set_ex [OF assms(1), of now "state_key t i" b STATE_TTL] assms(2) by (simp add: kas_save_def)

end

subsection \<open>When truncation stops short\<close>

text \<open>At most one turn: no user message behind the first message that is no system message.\<close>

definition single_turn :: "chat_message list \<Rightarrow> bool" where
  "single_turn ms = list_all (\<lambda>m. \<not> is_user m) (drop 1 (dropWhile is_system ms))"

lemma not_removable:
  "removable_from None ms i = None \<Longrightarrow> i \<le> length ms \<Longrightarrow> single_turn (drop i ms)"
proof (induction "None :: string option" ms i rule: removable_from.induct)
  case (1 ms i)
  show ?case
  proof (cases "i < length ms")
    case False
    then show ?thesis by (simp add: single_turn_def)
  next
    case i: True
    then have d: "drop i ms = ms ! i # drop (Suc i) ms" by (rule Cons_nth_drop_Suc [symmetric])
    show ?thesis
    proof (cases "is_system (ms ! i)")
      case True
      with "1.prems" i have "removable_from None ms (Suc i) = None" by (simp add: removable_from.simps [of _ ms i])
      with "1.hyps"(1) [OF i True] i d True show ?thesis by (simp add: single_turn_def)
    next
      case False
      with "1.prems" i have e: "length ms \<le> turn_end ms (Suc i)"
        by (simp add: removable_from.simps [of _ ms i] Let_def holds_protected_def split: if_splits)
      have "list_all (\<lambda>m. \<not> is_user m) (drop (Suc i) ms)"
      proof (unfold list_all_length, intro allI impI)
        fix n
        assume "n < length (drop (Suc i) ms)"
        then have "Suc i + n < turn_end ms (Suc i)" and "drop (Suc i) ms ! n = ms ! (Suc i + n)"
          using e by simp_all
        with turn_end_least [of "Suc i" "Suc i + n" ms] show "\<not> is_user (drop (Suc i) ms ! n)" by simp
      qed
      with d False show ?thesis by (simp add: single_turn_def)
    qed
  qed
qed

lemma truncate_single_turn:
  "non_system (truncate_loop mx None ms) \<le> mx \<or> single_turn (truncate_loop mx None ms)"
  using truncate_stops [of mx None ms] not_removable [of "truncate_loop mx None ms" 0]
  by (auto simp: oldest_removable_turn_def)

end
