(* ===== verification/Parked_Tool.thy ===== *)
theory Parked_Tool
  imports Conversation
begin

section \<open>Flow tools that wait for the user\<close>

text \<open>
  \<open>crates/greentic-aw-runtime/src/flow_suspend.rs\<close>: a tool call that parked on the user is resumed with the
  answer, kept parked over a bounded number of side turns, or cancelled. The calls of the observer, which
  only reports, are left out. The lemmas show that the parked call always ends up with a result
  right behind the assistant message that made it, and that the history stays one a provider accepts.
\<close>

subsection \<open>Data\<close>

datatype parked_text_policy = CancelPolicy | SideTurnPolicy

datatype flow_invoke_outcome = Completed json | Waiting json json

datatype termination_reason =
    FinalReply | MaxIterations | Timeout | ErrorEnd | TokenBudgetExceeded | ConversationEnded | AwaitingToolInput

text \<open>The tool-call entry of a step's trail (\<open>AgentStep::ToolCall\<close>).\<close>

record tool_step =
  ts_name :: string
  ts_call_id :: string
  ts_args :: json
  ts_result :: json
  ts_duration_ms :: nat

datatype taken =
    Nothing
  | Resume pending_tool_call json
  | Cancelled tool_step
  | Side

definition BEHIND_SUSPENSION_ERROR :: string where
  "BEHIND_SUSPENSION_ERROR = ''another step is waiting for the user''"

definition AWAITING_PLACEHOLDER :: string where
  "AWAITING_PLACEHOLDER = ''awaiting_user_input''"

definition ATTACHMENTS_NOTE_KEY :: string where
  "ATTACHMENTS_NOTE_KEY = ''user_attachments_note''"

subsection \<open>Finding and patching the result of a call\<close>

fun makes_call :: "string \<Rightarrow> chat_message \<Rightarrow> bool" where
  "makes_call i (AssistantMsg _ calls) = list_ex (\<lambda>c. tk_call_id c = i) calls"
| "makes_call i _ = False"

fun is_tool :: "chat_message \<Rightarrow> bool" where
  "is_tool (ToolMsg _ _) = True"
| "is_tool _ = False"

fun answers_call :: "string \<Rightarrow> chat_message \<Rightarrow> bool" where
  "answers_call i (ToolMsg j _) = (j = i)"
| "answers_call i _ = False"

definition latest_assistant_with :: "chat_message list \<Rightarrow> string \<Rightarrow> nat option" where
  "latest_assistant_with ms call_id = find (\<lambda>i. makes_call call_id (ms ! i)) (rev [0..<length ms])"

function tool_run_end_from :: "chat_message list \<Rightarrow> nat \<Rightarrow> nat" where
  "tool_run_end_from ms e =
     (if e < length ms \<and> is_tool (ms ! e) then tool_run_end_from ms (Suc e) else e)"
  by pat_completeness auto
termination by (relation "measure (\<lambda>(ms, e). length ms - e)") auto

declare tool_run_end_from.simps [simp del]

definition tool_run_end :: "chat_message list \<Rightarrow> nat \<Rightarrow> nat" where
  "tool_run_end ms at = tool_run_end_from ms (Suc at)"

text \<open>The index of the result of \<open>call_id\<close> among the results behind the assistant message \<open>at\<close>.\<close>

definition result_slot :: "chat_message list \<Rightarrow> nat \<Rightarrow> string \<Rightarrow> nat option" where
  "result_slot ms at call_id = find (\<lambda>i. answers_call call_id (ms ! i)) [Suc at..<tool_run_end ms at]"

definition list_insert :: "nat \<Rightarrow> 'a \<Rightarrow> 'a list \<Rightarrow> 'a list" where
  "list_insert i x xs = take i xs @ x # drop i xs"

definition patch_messages :: "string \<Rightarrow> json \<Rightarrow> chat_message list \<Rightarrow> chat_message list" where
  "patch_messages call_id content ms =
     (case latest_assistant_with ms call_id of
        None \<Rightarrow> ms
      | Some at \<Rightarrow>
          (case result_slot ms at call_id of
             Some i \<Rightarrow> ms[i := ToolMsg call_id content]
           | None \<Rightarrow> list_insert (tool_run_end ms at) (ToolMsg call_id content) ms))"

definition patch_tool_result :: "string \<Rightarrow> json \<Rightarrow> conversation_state \<Rightarrow> conversation_state" where
  "patch_tool_result call_id content st = st\<lparr>cs_messages := patch_messages call_id content (cs_messages st)\<rparr>"

text \<open>The fixed sentence of \<open>attachments_materialize::unreadable_note\<close>, trimmed.\<close>

definition unreadable_note :: "nat \<Rightarrow> string" where
  "unreadable_note n = CHR 0x0A # ''[The user attached '' @ show_nat n @
     '' file(s), but attachments are not available in this deployment, so you cannot open them. '' @
     ''Tell the user if it matters.]''"

definition ascii_space :: "char \<Rightarrow> bool" where
  "ascii_space c \<longleftrightarrow> c = CHR '' '' \<or> (9 \<le> (of_char c :: nat) \<and> (of_char c :: nat) \<le> 13)"

definition trim :: "string \<Rightarrow> string" where
  "trim s = rev (dropWhile ascii_space (rev (dropWhile ascii_space s)))"

fun with_note :: "json \<Rightarrow> json \<Rightarrow> json" where
  "with_note note (JObject fs) = JObject (bt_insert ATTACHMENTS_NOTE_KEY note fs)"
| "with_note note other = json_obj [(''result'', other), (ATTACHMENTS_NOTE_KEY, note)]"

definition announce_unread_attachments :: "string \<Rightarrow> nat \<Rightarrow> conversation_state \<Rightarrow> conversation_state" where
  "announce_unread_attachments call_id n st =
     (if n = 0 then st
      else
        let ms = cs_messages st in
        case latest_assistant_with ms call_id of
          None \<Rightarrow> st
        | Some at \<Rightarrow>
            (case result_slot ms at call_id of
               None \<Rightarrow> st
             | Some i \<Rightarrow>
                 (case ms ! i of
                    ToolMsg j content \<Rightarrow>
                      st\<lparr>cs_messages := ms[i := ToolMsg j (with_note (JString (trim (unreadable_note n))) content)]\<rparr>
                  | _ \<Rightarrow> st)))"

subsection \<open>Taking up a parked call\<close>

definition side_turn_allowed :: "instant \<Rightarrow> pending_tool_call \<Rightarrow> bool" where
  "side_turn_allowed now p \<longleftrightarrow>
     \<not> is_expired now p \<and>
     (case pt_parked_at p of None \<Rightarrow> True | Some at \<Rightarrow> now < at + secs PENDING_TOOL_MAX_AGE_SECS) \<and>
     pt_side_turns p < MAX_SIDE_TURNS \<and> pt_presentation p \<noteq> None"

definition begin_side_turn :: "instant \<Rightarrow> pending_tool_call \<Rightarrow> pending_tool_call" where
  "begin_side_turn now p =
     p\<lparr>pt_side_turns := pt_side_turns p + 1,
       pt_expires_at :=
         (case pt_parked_at p of
            Some at \<Rightarrow> min (expiry_from now) (at + secs PENDING_TOOL_MAX_AGE_SECS)
          | None \<Rightarrow> expiry_from now)\<rparr>"

definition ensure_placeholder :: "conversation_state \<Rightarrow> bool \<times> conversation_state" where
  "ensure_placeholder st =
     (case cs_pending_tool st of
        None \<Rightarrow> (False, st)
      | Some p \<Rightarrow>
          let ms = cs_messages st in
          (case latest_assistant_with ms (pt_call_id p) of
             None \<Rightarrow> (False, st)
           | Some at \<Rightarrow>
               if result_slot ms at (pt_call_id p) \<noteq> None then (True, st)
               else (True, st\<lparr>cs_messages := list_insert (Suc at)
                 (ToolMsg (pt_call_id p) (json_obj [(''status'', JString AWAITING_PLACEHOLDER)])) ms\<rparr>)))"

definition cancel_reason :: "instant \<Rightarrow> pending_tool_call \<Rightarrow> string" where
  "cancel_reason now p =
     (if is_expired now p then ''the step waiting for the user expired before they answered''
      else ''the user sent a message instead of completing this step'')"

definition cancelled_value :: "string \<Rightarrow> json" where
  "cancelled_value reason = json_obj [(''status'', JString ''cancelled''), (''reason'', JString reason)]"

definition cancel_pending :: "instant \<Rightarrow> pending_tool_call \<Rightarrow> conversation_state \<Rightarrow> taken \<times> conversation_state" where
  "cancel_pending now p st =
     (let result = cancelled_value (cancel_reason now p) in
      (Cancelled \<lparr>ts_name = pt_tool_name p, ts_call_id = pt_call_id p, ts_args = pt_args p,
                  ts_result = result, ts_duration_ms = 0\<rparr>,
       announce_unread_attachments (pt_call_id p) (pt_unannounced_attachments p)
         (patch_tool_result (pt_call_id p) result (st\<lparr>cs_pending_tool := None\<rparr>))))"

definition take_pending ::
  "json option \<Rightarrow> instant \<Rightarrow> parked_text_policy \<Rightarrow> conversation_state \<Rightarrow> taken \<times> conversation_state" where
  "take_pending resume_payload now policy st =
     (case cs_pending_tool st of
        None \<Rightarrow> (Nothing, st)
      | Some p \<Rightarrow>
          if policy = SideTurnPolicy \<and> resume_payload = None \<and> side_turn_allowed now p \<and> fst (ensure_placeholder st)
          then (Side, (snd (ensure_placeholder st))\<lparr>cs_pending_tool := Some (begin_side_turn now p)\<rparr>)
          else if is_expired now p then cancel_pending now p st
          else
            (case resume_payload of
               Some payload \<Rightarrow> (Resume p payload, st\<lparr>cs_pending_tool := None\<rparr>)
             | None \<Rightarrow> cancel_pending now p st))"

definition finish_side_turn ::
  "conversation_state \<Rightarrow> termination_reason \<Rightarrow> json option \<Rightarrow>
     bool \<times> conversation_state \<times> termination_reason \<times> json option" where
  "finish_side_turn st terminated_by suspension =
     (if terminated_by = ConversationEnded then
        (False,
         (case cs_pending_tool st of
            None \<Rightarrow> st
          | Some p \<Rightarrow> patch_tool_result (pt_call_id p) (cancelled_value ''the conversation ended'')
                        (st\<lparr>cs_pending_tool := None\<rparr>)),
         terminated_by, suspension)
      else
        (case Option.bind (cs_pending_tool st) pt_presentation of
           None \<Rightarrow> (False, st, terminated_by, suspension)
         | Some offer \<Rightarrow> (True, st, AwaitingToolInput, Some offer)))"

definition last_user_text :: "conversation_state \<Rightarrow> string" where
  "last_user_text st =
     (case find is_user (rev (cs_messages st)) of Some (UserMsg c _) \<Rightarrow> c | _ \<Rightarrow> [])"

text \<open>
  \<open>resume_pending\<close>. The catalog of flows and the tool ledger act on an outside world; an error of the
  ledger is logged and dropped. \<open>now\<close> and \<open>elapsed\<close> are the readings of the clocks.
\<close>

definition resume_pending ::
  "(string \<Rightarrow> json \<Rightarrow> json \<Rightarrow> 'e \<Rightarrow> flow_invoke_outcome \<times> 'e) option \<Rightarrow>
     (tenant_context \<Rightarrow> string \<Rightarrow> string \<Rightarrow> json \<Rightarrow> 'e \<Rightarrow> 'e) \<Rightarrow> instant \<Rightarrow> nat \<Rightarrow> tenant_context \<Rightarrow> string \<Rightarrow>
     pending_tool_call \<Rightarrow> json \<Rightarrow> conversation_state \<Rightarrow> tool_step list \<Rightarrow> 'e \<Rightarrow>
     json option \<times> conversation_state \<times> tool_step list \<times> 'e" where
  "resume_pending flows record_result now elapsed t session_id p payload st trail env =
     (let (outcome, env1) =
            (case flows of
               Some resume \<Rightarrow> resume (pt_flow_ref p) (pt_flow_snapshot p) payload env
             | None \<Rightarrow> (Completed (json_obj [(''error'',
                 JString (''unknown flow tool '' @ [CHR 0x27] @ pt_flow_ref p @ [CHR 0x27]))]), env)) in
      case outcome of
        Completed result \<Rightarrow>
          (None, patch_tool_result (pt_call_id p) result st,
           trail @ [\<lparr>ts_name = pt_tool_name p, ts_call_id = pt_call_id p, ts_args = pt_args p,
                     ts_result = result, ts_duration_ms = elapsed\<rparr>],
           record_result t session_id (pt_call_id p) result env1)
      | Waiting snapshot presentation \<Rightarrow>
          (Some presentation,
           st\<lparr>cs_pending_tool := Some (p\<lparr>pt_flow_snapshot := snapshot, pt_expires_at := expiry_from now,
                pt_presentation := Some presentation, pt_side_turns := 0\<rparr>)\<rparr>,
           trail, env1))"

definition refuse_behind_suspension ::
  "tool_call_record \<Rightarrow> conversation_state \<Rightarrow> tool_step list \<Rightarrow> conversation_state \<times> tool_step list" where
  "refuse_behind_suspension call st trail =
     (let result = json_obj [(''error'', JString BEHIND_SUSPENSION_ERROR)] in
      (st\<lparr>cs_messages := cs_messages st @ [ToolMsg (tk_call_id call) result]\<rparr>,
       trail @ [\<lparr>ts_name = tk_tool_name call, ts_call_id = tk_call_id call, ts_args = tk_args call,
                 ts_result = result, ts_duration_ms = 0\<rparr>]))"

subsection \<open>The site of a call\<close>

lemma latest_Some:
  assumes "latest_assistant_with ms i = Some at"
  shows "at < length ms" and "makes_call i (ms ! at)"
    and "at < j \<Longrightarrow> j < length ms \<Longrightarrow> \<not> makes_call i (ms ! j)"
proof -
  from assms obtain k where k: "k < length ms" "rev [0..<length ms] ! k = at" "makes_call i (ms ! at)"
    "\<forall>m<k. \<not> makes_call i (ms ! (rev [0..<length ms] ! m))"
    by (auto simp: latest_assistant_with_def find_Some_iff)
  then have at: "at = length ms - Suc k" by (simp add: rev_nth)
  with k show "at < length ms" "makes_call i (ms ! at)" by auto
  show "\<not> makes_call i (ms ! j)" if "at < j" "j < length ms"
  proof -
    have "length ms - Suc j < k" and "rev [0..<length ms] ! (length ms - Suc j) = j"
      using that at k(1) by (auto simp: rev_nth)
    with k(4) show ?thesis by metis
  qed
qed

lemma find_append: "find p (xs @ ys) = (case find p xs of None \<Rightarrow> find p ys | Some x \<Rightarrow> Some x)"
  by (induction xs) auto

lemma latest_at:
  assumes "makes_call i a" and "list_all (\<lambda>m. \<not> makes_call i m) ys"
  shows "latest_assistant_with (xs @ a # ys) i = Some (length xs)"
proof -
  let ?ms = "xs @ a # ys"
  have "rev [0..<length ?ms] = rev [Suc (length xs)..<length ?ms] @ length xs # rev [0..<length xs]"
    using upt_add_eq_append [of 0 "length xs" "Suc (length ys)"] by (simp add: upt_conv_Cons del: upt_Suc)
  moreover have "find (\<lambda>j. makes_call i (?ms ! j)) (rev [Suc (length xs)..<length ?ms]) = None"
    using assms(2) by (auto simp: find_None_iff nth_append nth_Cons' list_all_length)
  ultimately show ?thesis
    using assms(1) by (simp add: latest_assistant_with_def find_append)
qed

lemma run_end_from:
  "e \<le> tool_run_end_from ms e \<and> (e \<le> length ms \<longrightarrow> tool_run_end_from ms e \<le> length ms) \<and>
   (\<forall>j. e \<le> j \<longrightarrow> j < tool_run_end_from ms e \<longrightarrow> is_tool (ms ! j))"
proof (induction ms e rule: tool_run_end_from.induct)
  case (1 ms e)
  show ?case
  proof (cases "e < length ms \<and> is_tool (ms ! e)")
    case True
    with 1 show ?thesis
      by (auto simp: tool_run_end_from.simps [of ms e] Suc_le_eq less_imp_le) (metis le_neq_implies_less)
  next
    case False
    then show ?thesis by (auto simp: tool_run_end_from.simps [of ms e])
  qed
qed

lemma run_end_from_ge: "e \<le> k \<Longrightarrow> k \<le> length ms \<Longrightarrow> (\<And>j. e \<le> j \<Longrightarrow> j < k \<Longrightarrow> is_tool (ms ! j)) \<Longrightarrow>
   k \<le> tool_run_end_from ms e"
proof (induction ms e rule: tool_run_end_from.induct)
  case (1 ms e)
  show ?case
  proof (cases "e = k")
    case True
    with run_end_from show ?thesis by blast
  next
    case False
    with "1.prems" have "e < length ms \<and> is_tool (ms ! e)" and "Suc e \<le> k" by auto
    with 1 show ?thesis by (simp add: tool_run_end_from.simps [of ms e])
  qed
qed

text \<open>The assistant message, the results right behind it, and the rest.\<close>

lemma call_site:
  assumes "latest_assistant_with ms i = Some at"
  obtains pre a run rest where "ms = pre @ a # run @ rest" and "length pre = at" and "makes_call i a"
    and "list_all is_tool run" and "list_all (\<lambda>m. \<not> makes_call i m) rest"
    and "tool_run_end ms at = Suc at + length run"
proof -
  note L = latest_Some [OF assms]
  define e where "e = tool_run_end ms at"
  have e: "Suc at \<le> e" "e \<le> length ms" "\<And>j. Suc at \<le> j \<Longrightarrow> j < e \<Longrightarrow> is_tool (ms ! j)"
    using run_end_from [of "Suc at" ms] L(1) by (auto simp: e_def tool_run_end_def)
  let ?run = "span_of (Suc at) e ms"
  have "ms = take at ms @ ms ! at # ?run @ drop e ms"
    using span_of_split [OF e(1), of ms] L(1) by (simp add: take_Suc_conv_app_nth)
  moreover have "list_all is_tool ?run"
    using e by (auto simp: list_all_length span_of_def)
  moreover have "list_all (\<lambda>m. \<not> makes_call i m) (drop e ms)"
    using L(3) e(1) by (auto simp: list_all_length)
  moreover have "e = Suc at + length ?run" using e by (simp add: span_of_def)
  ultimately show thesis
    using L(1,2) e_def by (intro that [of "take at ms" "ms ! at" ?run "drop e ms"]) simp_all
qed

lemma tools_make_no_call: "list_all is_tool run \<Longrightarrow> list_all (\<lambda>m. \<not> makes_call i m) run"
proof (induction run)
  case (Cons x run)
  then show ?case by (cases x) auto
qed simp

definition call_answered :: "chat_message list \<Rightarrow> string \<Rightarrow> bool" where
  "call_answered ms i =
     (case latest_assistant_with ms i of None \<Rightarrow> False | Some at \<Rightarrow> result_slot ms at i \<noteq> None)"

lemma site_answered:
  assumes "makes_call i a" and "list_all is_tool run" and "list_all (\<lambda>m. \<not> makes_call i m) rest"
    and "ToolMsg i c \<in> set run"
  shows "call_answered (pre @ a # run @ rest) i"
proof -
  let ?ms = "pre @ a # run @ rest"
  have l: "latest_assistant_with ?ms i = Some (length pre)"
    using latest_at [OF assms(1), of "run @ rest" pre] assms(3) tools_make_no_call [OF assms(2)] by simp
  have nth: "?ms ! (Suc (length pre) + k) = run ! k" if "k < length run" for k
    using that by (simp add: nth_append)
  have "Suc (length pre) + length run \<le> tool_run_end ?ms (length pre)"
    unfolding tool_run_end_def
  proof (rule run_end_from_ge)
    fix j
    assume "Suc (length pre) \<le> j" and "j < Suc (length pre) + length run"
    then have "?ms ! j = run ! (j - Suc (length pre))" "j - Suc (length pre) < length run"
      using nth [of "j - Suc (length pre)"] by simp_all
    with assms(2) show "is_tool (?ms ! j)" by (simp add: list_all_length)
  qed simp_all
  moreover from assms(4) obtain k where k: "k < length run" "run ! k = ToolMsg i c" by (auto simp: in_set_conv_nth)
  ultimately have "Suc (length pre) + k \<in> set [Suc (length pre)..<tool_run_end ?ms (length pre)]"
    and "answers_call i (?ms ! (Suc (length pre) + k))" using nth [OF k(1)] by auto
  then have "result_slot ?ms (length pre) i \<noteq> None" unfolding result_slot_def find_None_iff by blast
  with l show ?thesis by (simp add: call_answered_def)
qed

definition tool_ids :: "chat_message list \<Rightarrow> string set" where
  "tool_ids run = {i. \<exists>c. ToolMsg i c \<in> set run}"

lemma tool_ids_Cons [simp]: "tool_ids (ToolMsg i c # run) = insert i (tool_ids run)" "tool_ids [] = {}"
  by (auto simp: tool_ids_def)

lemma tool_ids_append: "tool_ids (xs @ ys) = tool_ids xs \<union> tool_ids ys"
  by (auto simp: tool_ids_def)

lemma run_facts:
  assumes "list_all is_tool run"
  shows "paired calls (run @ rest) \<longleftrightarrow> tool_ids run \<subseteq> calls \<and> paired calls rest"
    and "turn_results (run @ rest) = tool_ids run \<union> turn_results rest"
    and "unanswered (run @ rest) = unanswered rest"
proof -
  show "paired calls (run @ rest) \<longleftrightarrow> tool_ids run \<subseteq> calls \<and> paired calls rest"
    using assms
  proof (induction run)
    case (Cons x run)
    then show ?case by (cases x) auto
  qed simp
  show "turn_results (run @ rest) = tool_ids run \<union> turn_results rest"
    using assms
  proof (induction run)
    case (Cons x run)
    then show ?case by (cases x) auto
  qed simp
  show "unanswered (run @ rest) = unanswered rest"
    using assms
  proof (induction run)
    case (Cons x run)
    then show ?case by (cases x) auto
  qed simp
qed

lemma turn_results_mono: "turn_results ys \<subseteq> turn_results ys' \<Longrightarrow> turn_results (xs @ ys) \<subseteq> turn_results (xs @ ys')"
  by (induction xs rule: turn_results.induct) auto

lemma unanswered_mono:
  "turn_results ys \<subseteq> turn_results ys' \<Longrightarrow> unanswered ys' \<subseteq> unanswered ys \<Longrightarrow>
   unanswered (xs @ ys') \<subseteq> unanswered (xs @ ys)"
proof (induction xs rule: unanswered.induct)
  case (1 c cs ms)
  with turn_results_mono [of ys ys' ms] show ?case by auto
qed auto

text \<open>Results may be added behind the message that made the call.\<close>

lemma site_swap:
  assumes "makes_call i a" and "list_all is_tool run" and "list_all is_tool run'"
    and "tool_ids run \<subseteq> tool_ids run'" and "tool_ids run' \<subseteq> insert i (tool_ids run)"
  shows "paired calls (pre @ a # run @ rest) \<Longrightarrow> paired calls (pre @ a # run' @ rest)"
    and "unanswered (pre @ a # run' @ rest) \<subseteq> unanswered (pre @ a # run @ rest)"
proof -
  from assms(1) obtain c cs where a: "a = AssistantMsg c cs" and i: "i \<in> tk_call_id ` set cs"
    by (cases a) (auto simp: list_ex_iff)
  note R = run_facts [OF assms(2)] and R' = run_facts [OF assms(3)]
  show "paired calls (pre @ a # run' @ rest)" if "paired calls (pre @ a # run @ rest)"
    using that assms(5) i by (auto simp: paired_append [of calls pre] a R R')
  have tr: "turn_results (a # run @ rest) \<subseteq> turn_results (a # run' @ rest)"
    using assms(4) by (auto simp: a R R')
  have "unanswered (a # run' @ rest) \<subseteq> unanswered (a # run @ rest)"
    using assms(4) by (auto simp: a R R')
  with tr show "unanswered (pre @ a # run' @ rest) \<subseteq> unanswered (pre @ a # run @ rest)"
    by (rule unanswered_mono)
qed

lemma slot_Some:
  assumes "result_slot ms at i = Some k" and "ms = pre @ a # run @ rest" and "length pre = at"
    and "tool_run_end ms at = Suc at + length run"
  obtains m c where "m < length run" and "run ! m = ToolMsg i c" and "ms ! k = ToolMsg i c"
    and "\<And>x. ms[k := x] = pre @ a # run[m := x] @ rest"
proof -
  from assms(1,4) have k: "Suc at \<le> k" "k < Suc at + length run" "answers_call i (ms ! k)"
    unfolding result_slot_def by (auto dest!: find_Some_mem)
  define m where "m = k - Suc at"
  from k have m: "m < length run" "k = Suc at + m" by (auto simp: m_def)
  have "ms ! k = run ! m" using m assms(2,3) by (simp add: nth_append)
  moreover from k(3) obtain c where "ms ! k = ToolMsg i c" by (cases "ms ! k") auto
  moreover have "ms[k := x] = pre @ a # run[m := x] @ rest" for x
    using m assms(2,3) by (simp add: list_update_append)
  ultimately show thesis using that m(1) by metis
qed

lemma slot_None_ids:
  assumes "result_slot ms at i = None" and "ms = pre @ a # run @ rest" and "length pre = at"
    and "tool_run_end ms at = Suc at + length run"
  shows "i \<notin> tool_ids run"
proof
  assume "i \<in> tool_ids run"
  then obtain m c where m: "m < length run" "run ! m = ToolMsg i c" by (auto simp: tool_ids_def in_set_conv_nth)
  then have "answers_call i (ms ! (Suc at + m))" using assms(2,3) by (simp add: nth_append)
  moreover have "Suc at + m \<in> set [Suc at..<tool_run_end ms at]" using assms(4) m(1) by (simp del: upt_Suc)
  ultimately show False using assms(1) unfolding result_slot_def find_None_iff by blast
qed

lemma update_ids:
  assumes "m < length run" and "run ! m = ToolMsg i c" and "list_all is_tool run"
  shows "list_all is_tool (run[m := ToolMsg i c'])" and "tool_ids (run[m := ToolMsg i c']) = tool_ids run"
    and "ToolMsg i c' \<in> set (run[m := ToolMsg i c'])"
proof -
  show "list_all is_tool (run[m := ToolMsg i c'])" using assms(1,3) by (simp add: list_all_length nth_list_update)
  show "ToolMsg i c' \<in> set (run[m := ToolMsg i c'])" using assms(1) by (rule set_update_memI)
  have "run = take m run @ ToolMsg i c # drop (Suc m) run" using id_take_nth_drop [OF assms(1)] assms(2) by simp
  then have "tool_ids run = insert i (tool_ids (take m run) \<union> tool_ids (drop (Suc m) run))"
    by (metis tool_ids_append tool_ids_Cons(1) Un_insert_right)
  then show "tool_ids (run[m := ToolMsg i c']) = tool_ids run"
    using assms(1) by (simp add: upd_conv_take_nth_drop tool_ids_append)
qed

subsection \<open>What patching does\<close>

text \<open>The history stays acceptable: results keep their calls and no call loses its result.\<close>

definition history_ok :: "chat_message list \<Rightarrow> chat_message list \<Rightarrow> bool" where
  "history_ok ms ms' \<longleftrightarrow> (paired {} ms \<longrightarrow> paired {} ms') \<and> unanswered ms' \<subseteq> unanswered ms"

lemma history_ok_refl [simp]: "history_ok ms ms"
  by (simp add: history_ok_def)

lemma history_ok_trans: "history_ok a b \<Longrightarrow> history_ok b c \<Longrightarrow> history_ok a c"
  by (auto simp: history_ok_def)

lemma swapped_site:
  assumes "latest_assistant_with ms i = Some at" and "ms = pre @ a # run @ rest" and "length pre = at"
    and "makes_call i a" and "list_all is_tool run" and "list_all (\<lambda>m. \<not> makes_call i m) rest"
    and "list_all is_tool run'" and "tool_ids run' = insert i (tool_ids run)" and "ToolMsg i c \<in> set run'"
    and "ms' = pre @ a # run' @ rest"
  shows "history_ok ms ms' \<and> call_answered ms' i \<and> latest_assistant_with ms' i = Some at"
proof -
  have "latest_assistant_with ms' i = Some at"
    using latest_at [OF assms(4), of "run' @ rest" pre] assms(3,6,10) tools_make_no_call [OF assms(7)] by simp
  moreover have "tool_ids run \<subseteq> tool_ids run'" and "tool_ids run' \<subseteq> insert i (tool_ids run)"
    using assms(8) by auto
  note sw = site_swap [where pre = pre and rest = rest, OF assms(4,5,7) this]
  have "history_ok ms ms'" unfolding history_ok_def assms(2,10) using sw by blast
  ultimately show ?thesis using site_answered [OF assms(4,7,6,9), of pre] assms(10) by simp
qed

lemma insert_at: "n = length xs \<Longrightarrow> list_insert n x (xs @ ys) = xs @ x # ys"
  by (simp add: list_insert_def)

lemma patch_answers:
  assumes "latest_assistant_with ms i = Some at"
  shows "history_ok ms (patch_messages i c ms) \<and> call_answered (patch_messages i c ms) i \<and>
    latest_assistant_with (patch_messages i c ms) i = Some at"
proof (rule call_site [OF assms])
  fix pre a run rest
  assume S: "ms = pre @ a # run @ rest" "length pre = at" "makes_call i a" "list_all is_tool run"
    "list_all (\<lambda>m. \<not> makes_call i m) rest" "tool_run_end ms at = Suc at + length run"
  show ?thesis
  proof (cases "result_slot ms at i")
    case None
    let ?run = "run @ [ToolMsg i c]"
    have "patch_messages i c ms = list_insert (Suc at + length run) (ToolMsg i c) ((pre @ a # run) @ rest)"
      using None assms S(1,6) by (simp add: patch_messages_def)
    also have "\<dots> = pre @ a # ?run @ rest" using insert_at [of _ "pre @ a # run"] S(2) by simp
    finally have "patch_messages i c ms = pre @ a # ?run @ rest" .
    with S(4) show ?thesis
      by (intro swapped_site [OF assms S(1-5), of ?run c]) (auto simp: tool_ids_def)
  next
    case (Some k)
    from slot_Some [OF Some S(1,2,6)] obtain m d where m: "m < length run" "run ! m = ToolMsg i d"
      "\<And>x. ms[k := x] = pre @ a # run[m := x] @ rest" by metis
    note U = update_ids [OF m(1,2) S(4)]
    have "i \<in> tool_ids run" using m(1,2) by (auto simp: tool_ids_def in_set_conv_nth)
    then have "tool_ids (run[m := ToolMsg i c]) = insert i (tool_ids run)" using U(2) by auto
    moreover have "patch_messages i c ms = pre @ a # run[m := ToolMsg i c] @ rest"
      using Some assms m(3) by (simp add: patch_messages_def)
    ultimately show ?thesis using U(1,3) by (intro swapped_site [OF assms S(1-5)])
  qed
qed

lemma patch_none: "latest_assistant_with ms i = None \<Longrightarrow> patch_messages i c ms = ms"
  by (simp add: patch_messages_def)

lemma announce_keeps:
  assumes "latest_assistant_with (cs_messages st) i = Some at" and "call_answered (cs_messages st) i"
  shows "history_ok (cs_messages st) (cs_messages (announce_unread_attachments i n st)) \<and>
    call_answered (cs_messages (announce_unread_attachments i n st)) i \<and>
    cs_pending_tool (announce_unread_attachments i n st) = cs_pending_tool st"
proof (cases "n = 0")
  case True
  with assms(2) show ?thesis by (simp add: announce_unread_attachments_def)
next
  case False
  from assms obtain k where k: "result_slot (cs_messages st) at i = Some k"
    by (auto simp: call_answered_def)
  show ?thesis
  proof (rule call_site [OF assms(1)])
    fix pre a run rest
    assume S: "cs_messages st = pre @ a # run @ rest" "length pre = at" "makes_call i a" "list_all is_tool run"
      "list_all (\<lambda>m. \<not> makes_call i m) rest" "tool_run_end (cs_messages st) at = Suc at + length run"
    from slot_Some [OF k S(1,2,6)] obtain m d where m: "m < length run" "run ! m = ToolMsg i d"
      "cs_messages st ! k = ToolMsg i d" "\<And>x. (cs_messages st)[k := x] = pre @ a # run[m := x] @ rest" by metis
    let ?c = "with_note (JString (trim (unreadable_note n))) d"
    have eq: "announce_unread_attachments i n st =
        st\<lparr>cs_messages := pre @ a # run[m := ToolMsg i ?c] @ rest\<rparr>"
      using False assms(1) k m(3,4) by (simp add: announce_unread_attachments_def Let_def)
    note U = update_ids [OF m(1,2) S(4)]
    have "i \<in> tool_ids run" using m(1,2) by (auto simp: tool_ids_def in_set_conv_nth)
    then have "tool_ids (run[m := ToolMsg i ?c]) = insert i (tool_ids run)" using U(2) by auto
    from swapped_site [OF assms(1) S(1-5) U(1) this U(3) refl] show ?thesis by (simp add: eq)
  qed
qed

lemma placeholder_answers:
  assumes "cs_pending_tool st = Some p" and "latest_assistant_with (cs_messages st) (pt_call_id p) = Some at"
  shows "fst (ensure_placeholder st) \<and> cs_pending_tool (snd (ensure_placeholder st)) = Some p \<and>
    history_ok (cs_messages st) (cs_messages (snd (ensure_placeholder st))) \<and>
    call_answered (cs_messages (snd (ensure_placeholder st))) (pt_call_id p)"
proof (cases "result_slot (cs_messages st) at (pt_call_id p)")
  case (Some k)
  with assms show ?thesis by (simp add: ensure_placeholder_def call_answered_def)
next
  case None
  let ?t = "ToolMsg (pt_call_id p) (json_obj [(''status'', JString AWAITING_PLACEHOLDER)])"
  show ?thesis
  proof (rule call_site [OF assms(2)])
    fix pre a run rest
    assume S: "cs_messages st = pre @ a # run @ rest" "length pre = at" "makes_call (pt_call_id p) a"
      "list_all is_tool run" "list_all (\<lambda>m. \<not> makes_call (pt_call_id p) m) rest"
    have "list_insert (Suc at) ?t (cs_messages st) = pre @ a # (?t # run) @ rest"
      using insert_at [of "Suc at" "pre @ [a]" ?t "run @ rest"] S(1,2) by simp
    from swapped_site [OF assms(2) S, of "?t # run" "json_obj [(''status'', JString AWAITING_PLACEHOLDER)]",
        OF _ _ _ this] S(4)
    have "history_ok (cs_messages st) (list_insert (Suc at) ?t (cs_messages st)) \<and>
        call_answered (list_insert (Suc at) ?t (cs_messages st)) (pt_call_id p)" by simp
    with None assms show ?thesis by (simp add: ensure_placeholder_def Let_def)
  qed
qed

subsection \<open>The answer of a call\<close>

text \<open>The content of the first result behind the latest message that makes the call.\<close>

definition answer_of :: "chat_message list \<Rightarrow> string \<Rightarrow> json option" where
  "answer_of ms i =
     (case latest_assistant_with ms i of
        None \<Rightarrow> None
      | Some at \<Rightarrow>
          (case result_slot ms at i of
             None \<Rightarrow> None
           | Some k \<Rightarrow> (case ms ! k of ToolMsg _ c \<Rightarrow> Some c | _ \<Rightarrow> None)))"

lemma find_upt:
  assumes "m \<le> k" "k < e" "p k" "\<And>j. m \<le> j \<Longrightarrow> j < k \<Longrightarrow> \<not> p j"
  shows "find p [m..<e] = Some k"
  unfolding find_Some_iff using assms by (intro exI [of _ "k - m"]) auto

lemma site_answer:
  assumes "makes_call i a" and "list_all is_tool r1" and "list_all is_tool r2"
    and "list_all (\<lambda>m. \<not> makes_call i m) rest" and "list_all (\<lambda>m. \<not> answers_call i m) r1"
  shows "answer_of (pre @ a # (r1 @ ToolMsg i c # r2) @ rest) i = Some c"
proof -
  define run where "run = r1 @ ToolMsg i c # r2"
  let ?ms = "pre @ a # run @ rest"
  let ?k = "Suc (length pre) + length r1"
  have tools: "list_all is_tool run" using assms(2,3) by (simp add: run_def)
  have l: "latest_assistant_with ?ms i = Some (length pre)"
    using latest_at [OF assms(1), of "run @ rest" pre] assms(4) tools_make_no_call [OF tools] by simp
  have nth: "?ms ! (Suc (length pre) + k) = run ! k" if "k < length run" for k
    using that by (simp add: nth_append)
  have at_k: "?ms ! ?k = ToolMsg i c" using nth [of "length r1"] by (simp add: run_def)
  have "Suc (length pre) + length run \<le> tool_run_end ?ms (length pre)"
    unfolding tool_run_end_def
  proof (rule run_end_from_ge)
    fix j
    assume "Suc (length pre) \<le> j" and "j < Suc (length pre) + length run"
    then have "?ms ! j = run ! (j - Suc (length pre))" "j - Suc (length pre) < length run"
      using nth [of "j - Suc (length pre)"] by simp_all
    with tools show "is_tool (?ms ! j)" by (simp add: list_all_length)
  qed simp_all
  then have "?k < tool_run_end ?ms (length pre)" by (simp add: run_def)
  moreover have "\<not> answers_call i (?ms ! j)" if j: "Suc (length pre) \<le> j" "j < ?k" for j
  proof -
    from j have "j - Suc (length pre) < length r1" by simp
    moreover from this j have "?ms ! j = r1 ! (j - Suc (length pre))"
      using nth [of "j - Suc (length pre)"] by (simp add: run_def nth_append)
    ultimately show ?thesis using assms(5) by (simp add: list_all_length)
  qed
  ultimately have "result_slot ?ms (length pre) i = Some ?k"
    unfolding result_slot_def using at_k by (intro find_upt) simp_all
  with l at_k have "answer_of ?ms i = Some c" by (simp add: answer_of_def)
  then show ?thesis by (simp only: run_def)
qed

lemma slot_first:
  assumes "result_slot ms at i = Some k" "Suc at \<le> j" "j < k"
  shows "\<not> answers_call i (ms ! j)"
proof -
  from assms(1) obtain n where n: "Suc at + n = k" "\<forall>m<n. \<not> answers_call i (ms ! (Suc at + m))"
    unfolding result_slot_def find_Some_iff by (auto simp del: upt_Suc)
  from n(2) [rule_format, of "j - Suc at"] n(1) assms(2,3) show ?thesis by simp
qed

text \<open>Writing the slot of the result, and adding a result when there was none.\<close>

lemma update_answer:
  assumes "latest_assistant_with ms i = Some at" and "result_slot ms at i = Some k"
  shows "answer_of (ms[k := ToolMsg i c]) i = Some c"
proof (rule call_site [OF assms(1)])
  fix pre a run rest
  assume S: "ms = pre @ a # run @ rest" "length pre = at" "makes_call i a" "list_all is_tool run"
    "list_all (\<lambda>m. \<not> makes_call i m) rest" "tool_run_end ms at = Suc at + length run"
  from assms(2) S(6) have k: "Suc at \<le> k" "k < Suc at + length run"
    unfolding result_slot_def by (auto dest!: find_Some_mem)
  define m where "m = k - Suc at"
  from k have m: "m < length run" "k = Suc at + m" by (auto simp: m_def)
  have "list_all (\<lambda>x. \<not> answers_call i x) (take m run)"
    unfolding list_all_length
  proof (intro allI impI)
    fix j
    assume j: "j < length (take m run)"
    with m have "ms ! (Suc at + j) = run ! j" using S(1,2) by (simp add: nth_append)
    with slot_first [OF assms(2), of "Suc at + j"] j m show "\<not> answers_call i (take m run ! j)" by simp
  qed
  moreover have "list_all is_tool (take m run)" "list_all is_tool (drop (Suc m) run)"
    using S(4) by (auto simp: list_all_iff dest: in_set_takeD in_set_dropD)
  moreover have "ms[k := ToolMsg i c] = pre @ a # (take m run @ ToolMsg i c # drop (Suc m) run) @ rest"
    using m S(1,2) by (simp add: list_update_append upd_conv_take_nth_drop)
  ultimately show ?thesis using site_answer [OF S(3) _ _ S(5), of "take m run" "drop (Suc m) run" pre c] by simp
qed

lemma patch_answer_of:
  assumes "latest_assistant_with ms i = Some at"
  shows "answer_of (patch_messages i c ms) i = Some c"
proof (cases "result_slot ms at i")
  case None
  show ?thesis
  proof (rule call_site [OF assms])
    fix pre a run rest
    assume S: "ms = pre @ a # run @ rest" "length pre = at" "makes_call i a" "list_all is_tool run"
      "list_all (\<lambda>m. \<not> makes_call i m) rest" "tool_run_end ms at = Suc at + length run"
    have "patch_messages i c ms = list_insert (Suc at + length run) (ToolMsg i c) ((pre @ a # run) @ rest)"
      using None assms S(1,6) by (simp add: patch_messages_def)
    also have "\<dots> = pre @ a # (run @ ToolMsg i c # []) @ rest" using insert_at [of _ "pre @ a # run"] S(2) by simp
    finally have eq: "patch_messages i c ms = pre @ a # (run @ ToolMsg i c # []) @ rest" .
    have "\<not> answers_call i x" if "x \<in> set run" for x
      using slot_None_ids [OF None S(1,2,6)] that by (cases x) (auto simp: tool_ids_def)
    then have "list_all (\<lambda>m. \<not> answers_call i m) run" by (simp add: list_all_iff)
    with site_answer [OF S(3,4) _ S(5), of "[]" pre c] show ?thesis unfolding eq by simp
  qed
next
  case (Some k)
  with assms update_answer [OF assms Some] show ?thesis by (simp add: patch_messages_def)
qed

text \<open>The content of a result once the unread attachments of the user are announced in it.\<close>

definition noted :: "nat \<Rightarrow> json \<Rightarrow> json" where
  "noted n c = (if n = 0 then c else with_note (JString (trim (unreadable_note n))) c)"

lemma announce_answer_of:
  assumes "answer_of (cs_messages st) i = Some c"
  shows "answer_of (cs_messages (announce_unread_attachments i n st)) i = Some (noted n c)"
proof -
  from assms obtain at k j where "latest_assistant_with (cs_messages st) i = Some at"
    "result_slot (cs_messages st) at i = Some k" "cs_messages st ! k = ToolMsg j c"
    by (auto simp: answer_of_def split: option.splits chat_message.splits)
  moreover from this(2) have "answers_call i (cs_messages st ! k)"
    unfolding result_slot_def by (auto dest!: find_Some_mem)
  ultimately show ?thesis
    using assms update_answer [of "cs_messages st" i at k "noted n c"]
    by (cases "n = 0") (simp_all add: announce_unread_attachments_def noted_def Let_def)
qed

definition placeholder_value :: json where
  "placeholder_value = json_obj [(''status'', JString AWAITING_PLACEHOLDER)]"

lemma placeholder_answer_of:
  assumes "cs_pending_tool st = Some p" and "latest_assistant_with (cs_messages st) (pt_call_id p) = Some at"
  shows "answer_of (cs_messages (snd (ensure_placeholder st))) (pt_call_id p) =
    Some (case answer_of (cs_messages st) (pt_call_id p) of Some c \<Rightarrow> c | None \<Rightarrow> placeholder_value)"
proof (cases "result_slot (cs_messages st) at (pt_call_id p)")
  case (Some k)
  then have "answers_call (pt_call_id p) (cs_messages st ! k)"
    unfolding result_slot_def by (auto dest!: find_Some_mem)
  then obtain c where "cs_messages st ! k = ToolMsg (pt_call_id p) c" by (cases "cs_messages st ! k") auto
  with assms Some show ?thesis by (simp add: ensure_placeholder_def answer_of_def)
next
  case None
  show ?thesis
  proof (rule call_site [OF assms(2)])
    fix pre a run rest
    assume S: "cs_messages st = pre @ a # run @ rest" "length pre = at" "makes_call (pt_call_id p) a"
      "list_all is_tool run" "list_all (\<lambda>m. \<not> makes_call (pt_call_id p) m) rest"
    have "list_insert (Suc at) (ToolMsg (pt_call_id p) placeholder_value) (cs_messages st) =
        pre @ a # ([] @ ToolMsg (pt_call_id p) placeholder_value # run) @ rest"
      using insert_at [of "Suc at" "pre @ [a]" _ "run @ rest"] S(1,2) by simp
    with site_answer [OF S(3) _ S(4,5), of "[]" pre placeholder_value] None assms show ?thesis
      by (simp add: ensure_placeholder_def Let_def answer_of_def placeholder_value_def)
  qed
qed

subsection \<open>The fate of a parked call\<close>

text \<open>The step a cancelled call leaves in the trail.\<close>

definition cancelled_step :: "instant \<Rightarrow> pending_tool_call \<Rightarrow> tool_step" where
  "cancelled_step now p = \<lparr>ts_name = pt_tool_name p, ts_call_id = pt_call_id p, ts_args = pt_args p,
     ts_result = cancelled_value (cancel_reason now p), ts_duration_ms = 0\<rparr>"

lemma cancel_answers:
  assumes "latest_assistant_with (cs_messages st) (pt_call_id p) = Some at" and "cancel_pending now p st = (tk, st')"
  shows "history_ok (cs_messages st) (cs_messages st') \<and> cs_pending_tool st' = None \<and>
    answer_of (cs_messages st') (pt_call_id p) =
      Some (noted (pt_unannounced_attachments p) (cancelled_value (cancel_reason now p))) \<and>
    tk = Cancelled (cancelled_step now p)"
proof -
  let ?r = "cancelled_value (cancel_reason now p)"
  let ?st = "patch_tool_result (pt_call_id p) ?r (st\<lparr>cs_pending_tool := None\<rparr>)"
  have P: "history_ok (cs_messages st) (cs_messages ?st)" "call_answered (cs_messages ?st) (pt_call_id p)"
    "latest_assistant_with (cs_messages ?st) (pt_call_id p) = Some at" "cs_pending_tool ?st = None"
    "answer_of (cs_messages ?st) (pt_call_id p) = Some ?r"
    using patch_answers [OF assms(1), of ?r] patch_answer_of [OF assms(1), of ?r] by (simp_all add: patch_tool_result_def)
  from announce_keeps [OF P(3,2), of "pt_unannounced_attachments p"] P(1,4) assms(2)
    announce_answer_of [OF P(5), of "pt_unannounced_attachments p"]
  show ?thesis
    by (auto simp: cancel_pending_def cancelled_step_def Let_def intro: history_ok_trans)
qed

text \<open>When a turn is a side turn of the parked call.\<close>

definition takes_side_turn :: "json option \<Rightarrow> instant \<Rightarrow> parked_text_policy \<Rightarrow> pending_tool_call \<Rightarrow> bool" where
  "takes_side_turn payload now policy p \<longleftrightarrow>
     policy = SideTurnPolicy \<and> payload = None \<and> side_turn_allowed now p"

lemma take_pending_answers:
  assumes "cs_pending_tool st = Some p" and "latest_assistant_with (cs_messages st) (pt_call_id p) = Some at"
    and "take_pending payload now policy st = (tk, st')"
  shows "history_ok (cs_messages st) (cs_messages st') \<and>
    (case tk of
       Nothing \<Rightarrow> False
     | Resume q v \<Rightarrow> q = p \<and> payload = Some v \<and> \<not> is_expired now p \<and> st' = st\<lparr>cs_pending_tool := None\<rparr>
     | Cancelled step \<Rightarrow> \<not> takes_side_turn payload now policy p \<and> (is_expired now p \<or> payload = None) \<and>
         step = cancelled_step now p \<and> cs_pending_tool st' = None \<and>
         answer_of (cs_messages st') (pt_call_id p) =
           Some (noted (pt_unannounced_attachments p) (cancelled_value (cancel_reason now p)))
     | Side \<Rightarrow> takes_side_turn payload now policy p \<and> cs_pending_tool st' = Some (begin_side_turn now p) \<and>
         answer_of (cs_messages st') (pt_call_id p) =
           Some (case answer_of (cs_messages st) (pt_call_id p) of Some c \<Rightarrow> c | None \<Rightarrow> placeholder_value))"
proof -
  note P = placeholder_answers [OF assms(1,2)] placeholder_answer_of [OF assms(1,2)]
  have eq: "take_pending payload now policy st =
      (if takes_side_turn payload now policy p
       then (Side, (snd (ensure_placeholder st))\<lparr>cs_pending_tool := Some (begin_side_turn now p)\<rparr>)
       else if is_expired now p \<or> payload = None then cancel_pending now p st
       else (Resume p (the payload), st\<lparr>cs_pending_tool := None\<rparr>))"
    using assms(1) P by (cases payload) (simp_all add: take_pending_def takes_side_turn_def)
  show ?thesis
  proof (cases "takes_side_turn payload now policy p \<or> \<not> (is_expired now p \<or> payload = None)")
    case True
    with assms(3) P show ?thesis unfolding eq by (auto split: if_splits)
  next
    case False
    with assms(3) have "cancel_pending now p st = (tk, st')" unfolding eq by (auto split: if_splits)
    from cancel_answers [OF assms(2) this] False show ?thesis by auto
  qed
qed

text \<open>What the flow of a parked call answers when it is resumed; without a catalog of flows it is unknown.\<close>

definition flow_answer ::
  "(string \<Rightarrow> json \<Rightarrow> json \<Rightarrow> 'e \<Rightarrow> flow_invoke_outcome \<times> 'e) option \<Rightarrow> pending_tool_call \<Rightarrow> json \<Rightarrow> 'e \<Rightarrow>
   flow_invoke_outcome \<times> 'e" where
  "flow_answer flows p payload env =
     (case flows of
        Some resume \<Rightarrow> resume (pt_flow_ref p) (pt_flow_snapshot p) payload env
      | None \<Rightarrow> (Completed (json_obj [(''error'',
          JString (''unknown flow tool '' @ [CHR 0x27] @ pt_flow_ref p @ [CHR 0x27]))]), env))"

text \<open>
  A resume: a flow that completes has its result in the history, in the trail and in the ledger; one that
  waits again is parked again, with its new snapshot and presentation and a fresh expiry.
\<close>

lemma resume_completes:
  assumes "latest_assistant_with (cs_messages st) (pt_call_id p) = Some at"
    and "resume_pending flows record_result now el t i p v st trail env = (shown, st', trail', env')"
  shows "history_ok (cs_messages st) (cs_messages st') \<and>
    (case flow_answer flows p v env of
       (Completed result, env1) \<Rightarrow>
         shown = None \<and> answer_of (cs_messages st') (pt_call_id p) = Some result \<and> cs_pending_tool st' = cs_pending_tool st \<and>
         trail' = trail @ [\<lparr>ts_name = pt_tool_name p, ts_call_id = pt_call_id p, ts_args = pt_args p,
           ts_result = result, ts_duration_ms = el\<rparr>] \<and>
         env' = record_result t i (pt_call_id p) result env1
     | (Waiting snap pres, env1) \<Rightarrow>
         shown = Some pres \<and> cs_messages st' = cs_messages st \<and> trail' = trail \<and> env' = env1 \<and>
         cs_pending_tool st' = Some (p\<lparr>pt_flow_snapshot := snap, pt_expires_at := expiry_from now,
           pt_presentation := Some pres, pt_side_turns := 0\<rparr>))"
proof -
  obtain o1 e1 where o1: "flow_answer flows p v env = (o1, e1)" by fastforce
  show ?thesis
  proof (cases o1)
    case (Completed result)
    with assms(2) o1 patch_answers [OF assms(1), of result] patch_answer_of [OF assms(1), of result] show ?thesis
      unfolding resume_pending_def flow_answer_def [symmetric] by (auto simp: patch_tool_result_def)
  next
    case (Waiting snap pres)
    with assms(2) o1 show ?thesis unfolding resume_pending_def flow_answer_def [symmetric] by auto
  qed
qed

text \<open>A run of side turns: between them the conversation goes on, but the park stays.\<close>

inductive side_run :: "nat \<Rightarrow> conversation_state \<Rightarrow> conversation_state \<Rightarrow> bool" where
  none: "side_run 0 st st"
| turn: "side_run n st st1 \<Longrightarrow> cs_pending_tool st2 = cs_pending_tool st1 \<Longrightarrow>
    take_pending None now SideTurnPolicy st2 = (Side, st3) \<Longrightarrow> side_run (Suc n) st st3"

lemma take_side:
  assumes "take_pending payload now policy st = (Side, st')"
  shows "\<exists>p. cs_pending_tool st = Some p \<and> side_turn_allowed now p \<and> cs_pending_tool st' = Some (begin_side_turn now p)"
  using assms by (auto simp: take_pending_def cancel_pending_def Let_def split: option.splits if_splits)

lemma side_run_bound:
  assumes "side_run n st st'" and "cs_pending_tool st = Some p"
  shows "\<exists>q. cs_pending_tool st' = Some q \<and> pt_call_id q = pt_call_id p \<and> pt_parked_at q = pt_parked_at p \<and>
    pt_side_turns q = pt_side_turns p + n \<and> (0 < n \<longrightarrow> pt_side_turns q \<le> MAX_SIDE_TURNS) \<and>
    (\<forall>a. 0 < n \<longrightarrow> pt_parked_at p = Some a \<longrightarrow> pt_expires_at q \<le> a + secs PENDING_TOOL_MAX_AGE_SECS)"
  using assms
proof (induction rule: side_run.induct)
  case (turn n st st1 st2 now st3)
  then obtain q where q: "cs_pending_tool st2 = Some q" "pt_call_id q = pt_call_id p" "pt_parked_at q = pt_parked_at p"
    "pt_side_turns q = pt_side_turns p + n" by metis
  from take_side [OF turn.hyps(3)] q(1) have "side_turn_allowed now q" "cs_pending_tool st3 = Some (begin_side_turn now q)"
    by auto
  with q show ?case by (auto simp: side_turn_allowed_def begin_side_turn_def)
qed simp

end
