(* ===== verification/Conversation_Claims.thy ===== *)
theory Conversation_Claims
  imports Parked_Tool
begin

section \<open>Properties of conversations\<close>

text \<open>The histories and states of the instances: a finished turn, then a call that waits for the user.\<close>

definition call0 :: "string \<Rightarrow> tool_call_record" where
  "call0 i = \<lparr>tk_call_id = i, tk_extension_id = ''flow:form'', tk_tool_name = ''form'', tk_args = JNull\<rparr>"

definition parked_history :: "chat_message list" where
  "parked_history =
     [SystemMsg ''rules'', UserMsg ''hi'' [], AssistantMsg ''hello'' [], UserMsg ''book'' [],
      AssistantMsg [] [call0 ''c1'']]"

definition pending0 :: pending_tool_call where
  "pending0 =
     \<lparr>pt_call_id = ''c1'', pt_tool_name = ''form'', pt_extension_id = ''flow:form'', pt_args = JNull,
      pt_flow_ref = ''form'', pt_flow_snapshot = JNull, pt_iterations_used = 1, pt_expires_at = secs 3600,
      pt_presentation = Some JNull, pt_parked_at = Some 0, pt_side_turns = 19, pt_unannounced_attachments = 0\<rparr>"

definition parked_state :: conversation_state where
  "parked_state = (conversation_empty 0 (tenant_new ''acme'' ''prod'') ''s'')
     \<lparr>cs_messages := parked_history, cs_pending_tool := Some pending0\<rparr>"

text \<open>
  C27. Truncating a history stops, and only for a reason: the messages other than system messages are
  within the limit, or no turn may be removed; without a parked tool the latter means that one turn is
  left. The result is part of the history in the same order, with every system message.
\<close>

theorem truncation_bounds:
  fixes st mx
  defines "ms \<equiv> cs_messages st" and "ms' \<equiv> cs_messages (truncate_history mx st)"
    and "p \<equiv> map_option pt_call_id (cs_pending_tool st)"
  shows "subseq ms' ms \<and> filter is_system ms' = filter is_system ms \<and>
    (non_system ms' \<le> mx \<or> oldest_removable_turn p ms' = None) \<and>
    (p = None \<longrightarrow> non_system ms' \<le> mx \<or> single_turn ms')"
  using dropped_star(1,2) [OF truncate_reaches [of p ms mx]] truncate_stops [of mx p ms]
    truncate_single_turn [of mx ms]
  by (auto simp: ms_def ms'_def p_def truncate_history_def)

theorem truncation_bounds_witness:
  "single_turn (cs_messages (truncate_history 0 (parked_state\<lparr>cs_pending_tool := None\<rparr>)))"
proof -
  let ?st = "parked_state\<lparr>cs_pending_tool := None\<rparr>"
  have "\<not> non_system (cs_messages (truncate_history 0 ?st)) \<le> 0" by code_simp
  with truncation_bounds [of 0 ?st] show ?thesis by simp
qed

text \<open>
  C28. A truncated history is one the provider accepts if the history was: every tool result still follows
  its call in the same turn, no call loses its result, every message about the parked call is kept, and so
  is the newest turn.
\<close>

theorem truncation_keeps_turns:
  fixes st mx
  defines "ms \<equiv> cs_messages st" and "ms' \<equiv> cs_messages (truncate_history mx st)"
  assumes "paired {} ms" and "ms = xs @ u # ys" and "is_user u" and "list_all (\<lambda>m. \<not> is_user m) ys"
  shows "paired {} ms' \<and> unanswered ms' \<subseteq> unanswered ms \<and> (\<exists>xs'. ms' = xs' @ u # ys) \<and>
    (case cs_pending_tool st of None \<Rightarrow> True
     | Some p \<Rightarrow> filter (mentions_call (pt_call_id p)) ms' = filter (mentions_call (pt_call_id p)) ms)"
proof -
  let ?p = "map_option pt_call_id (cs_pending_tool st)"
  have "ms' = truncate_loop mx ?p ms" by (simp add: ms_def ms'_def truncate_history_def)
  with truncate_reaches [of ?p ms mx] have r: "(turn_dropped ?p)\<^sup>*\<^sup>* ms ms'" by simp
  note K = dropped_star [OF r]
  show ?thesis using K(3) [OF assms(3)] K(4) K(5) K(6) [OF assms(4-6)] by (auto split: option.splits)
qed

theorem truncation_keeps_turns_witness:
  "filter (mentions_call ''c1'') (cs_messages (truncate_history 0 parked_state)) = [AssistantMsg [] [call0 ''c1'']]"
proof -
  have ms: "cs_messages parked_state = parked_history" and p: "cs_pending_tool parked_state = Some pending0"
    by (simp_all add: parked_state_def)
  have "paired {} (cs_messages parked_state)" by (simp add: ms parked_history_def)
  from truncation_keeps_turns [OF this, of "[SystemMsg ''rules'', UserMsg ''hi'' [], AssistantMsg ''hello'' []]"
      "UserMsg ''book'' []" "[AssistantMsg [] [call0 ''c1'']]" 0]
  show ?thesis by (simp add: ms p parked_history_def) (simp add: pending0_def call0_def)
qed

text \<open>
  C29. A parked call is answered before the conversation goes on. A turn takes up the parked call while the
  message that made it is still in the history. Then one of three things happens. In a side turn the call stays
  parked, and a placeholder stands for its result unless there is one already. An expired call, and one met
  by a message without an answer, is cancelled, and the cancellation is its result in the history (with the
  note on unread attachments) and in the trail. Otherwise it is handed to the resume: when its flow completes,
  exactly the result of the flow is the answer in the history, the new step of the trail and the record of the
  ledger, and nothing is parked; when the flow waits again, the call is parked again with the new snapshot and
  presentation, and the history is as it was. Throughout, the history stays one the provider accepts.
\<close>

theorem parked_call_answered:
  assumes "cs_pending_tool st = Some p" and "latest_assistant_with (cs_messages st) (pt_call_id p) = Some at"
    and "take_pending payload now policy st = (tk, st')"
    and "resume_pending flows record_result now' el t i p v st' trail env = (shown, st'', trail', env')"
  shows "history_ok (cs_messages st) (cs_messages st') \<and>
    (case tk of
       Nothing \<Rightarrow> False
     | Resume q w \<Rightarrow> q = p \<and> payload = Some w \<and> \<not> is_expired now p \<and> cs_pending_tool st' = None \<and>
         history_ok (cs_messages st) (cs_messages st'') \<and>
         (case flow_answer flows p v env of
            (Completed result, env1) \<Rightarrow>
              shown = None \<and> cs_pending_tool st'' = None \<and> answer_of (cs_messages st'') (pt_call_id p) = Some result \<and>
              trail' = trail @ [\<lparr>ts_name = pt_tool_name p, ts_call_id = pt_call_id p, ts_args = pt_args p,
                ts_result = result, ts_duration_ms = el\<rparr>] \<and>
              env' = record_result t i (pt_call_id p) result env1
          | (Waiting snap pres, env1) \<Rightarrow>
              shown = Some pres \<and> cs_messages st'' = cs_messages st \<and> trail' = trail \<and> env' = env1 \<and>
              cs_pending_tool st'' = Some (p\<lparr>pt_flow_snapshot := snap, pt_expires_at := expiry_from now',
                pt_presentation := Some pres, pt_side_turns := 0\<rparr>))
     | Cancelled step \<Rightarrow> \<not> takes_side_turn payload now policy p \<and> (is_expired now p \<or> payload = None) \<and>
         cs_pending_tool st' = None \<and> ts_call_id step = pt_call_id p \<and>
         ts_result step = cancelled_value (cancel_reason now p) \<and>
         answer_of (cs_messages st') (pt_call_id p) = Some (noted (pt_unannounced_attachments p) (ts_result step))
     | Side \<Rightarrow> takes_side_turn payload now policy p \<and> cs_pending_tool st' = Some (begin_side_turn now p) \<and>
         answer_of (cs_messages st') (pt_call_id p) =
           Some (case answer_of (cs_messages st) (pt_call_id p) of Some c \<Rightarrow> c | None \<Rightarrow> placeholder_value))"
proof -
  note T = take_pending_answers [OF assms(1-3)]
  show ?thesis
  proof (cases tk)
    case (Resume q w)
    with T have st': "st' = st\<lparr>cs_pending_tool := None\<rparr>" by simp
    then have "latest_assistant_with (cs_messages st') (pt_call_id p) = Some at" using assms(2) by simp
    from resume_completes [OF this assms(4)] T Resume st' show ?thesis
      by (auto split: prod.splits flow_invoke_outcome.splits)
  qed (use T in \<open>auto simp: cancelled_step_def\<close>)
qed

theorem parked_call_answered_witness:
  "\<exists>st' st'' trail'.
     take_pending (Some JNull) 0 CancelPolicy parked_state = (Resume pending0 JNull, st') \<and>
     resume_pending (Some (\<lambda>_ _ _ e. (Completed (JString ''ok''), e))) (\<lambda>_ _ _ _ e. e) 0 5 (tenant_new ''a'' ''b'') [] pending0 JNull
       st' [] () = (None, st'', trail', ()) \<and>
     answer_of (cs_messages st'') ''c1'' = Some (JString ''ok'')"
proof -
  let ?flows = "Some (\<lambda>_ _ _ e. (Completed (JString ''ok''), e)) :: (string \<Rightarrow> json \<Rightarrow> json \<Rightarrow> unit \<Rightarrow> flow_invoke_outcome \<times> unit) option"
  obtain st' where tk: "take_pending (Some JNull) 0 CancelPolicy parked_state = (Resume pending0 JNull, st')"
    by (simp add: take_pending_def parked_state_def pending0_def is_expired_def secs_def)
  obtain shown st'' trail' env' where
    r: "resume_pending ?flows (\<lambda>_ _ _ _ e. e) 0 5 (tenant_new ''a'' ''b'') [] pending0 JNull st' [] () = (shown, st'', trail', env')"
    by (cases "resume_pending ?flows (\<lambda>_ _ _ _ e. e) 0 5 (tenant_new ''a'' ''b'') [] pending0 JNull st' [] ()")
  have "cs_pending_tool parked_state = Some pending0" by (simp add: parked_state_def)
  moreover have "latest_assistant_with (cs_messages parked_state) (pt_call_id pending0) = Some 4" by code_simp
  ultimately have "shown = None \<and> answer_of (cs_messages st'') (pt_call_id pending0) = Some (JString ''ok'')"
    using parked_call_answered [OF _ _ tk r] by (simp add: flow_answer_def)
  with tk r show ?thesis by (auto simp: pending0_def)
qed

text \<open>
  C30. A parked call does not stay parked for ever: side turns on it are counted, at most twenty of them
  are taken, and each leaves an expiry no later than a day after the call was parked.
\<close>

theorem side_turns_bounded:
  assumes "side_run n st st'" and "cs_pending_tool st = Some p" and "0 < n" and "pt_parked_at p = Some a"
  shows "\<exists>q. cs_pending_tool st' = Some q \<and> pt_call_id q = pt_call_id p \<and>
    pt_side_turns q = pt_side_turns p + n \<and> pt_side_turns p + n \<le> MAX_SIDE_TURNS \<and>
    pt_expires_at q \<le> a + secs PENDING_TOOL_MAX_AGE_SECS"
  using side_run_bound [OF assms(1,2)] assms(3,4) by auto

theorem side_turns_bounded_witness:
  "\<exists>st' q. side_run 1 parked_state st' \<and> cs_pending_tool st' = Some q \<and> pt_side_turns q = 20"
proof -
  have "fst (take_pending None 0 SideTurnPolicy parked_state) = Side" by code_simp
  then obtain st' where "take_pending None 0 SideTurnPolicy parked_state = (Side, st')" by (metis prod.collapse)
  from side_run.turn [OF side_run.none refl this] have r: "side_run 1 parked_state st'" by simp
  have "cs_pending_tool parked_state = Some pending0" by (simp add: parked_state_def)
  from side_turns_bounded [OF r this, of 0] r show ?thesis by (auto simp: pending0_def)
qed

text \<open>
  C31. A saved conversation is loaded again. Over the in-process store, what was saved is returned until a
  week has passed and an empty conversation from then on; other sessions load as before the save.
\<close>

theorem conversation_saved:
  assumes "mem_inv s" and "sc_to sc st = Some b" and "sc_from sc b = Some st"
    and "cs_schema_version st \<le> STATE_SCHEMA_VERSION" and "now \<le> u"
  shows "\<exists>s1 s2. kas_save memory_kv sc now t i st s = (Inr (), s1) \<and>
    kas_load memory_kv sc u wall t i s1 =
      (Inr (if u < now + STATE_TTL then st else conversation_empty wall t i), s2) \<and>
    (state_key t' j \<noteq> state_key t i \<longrightarrow>
      fst (kas_load memory_kv sc u wall t' j s1) = fst (kas_load memory_kv sc u wall t' j s))"
proof -
  from memory.save_live [OF assms(1,2), of now t i] obtain s1 where s1:
    "kas_save memory_kv sc now t i st s = (Inr (), s1)" "mem_inv s1"
    "\<forall>u \<ge> now. mem_live s1 u = (mem_live s u)(state_key t i := ttl_view now STATE_TTL b u)" by blast
  from memory.load_live [OF s1(2), of u sc wall t i] obtain s2 where
    s2: "kas_load memory_kv sc u wall t i s1 =
      (Inr (if u < now + STATE_TTL then st else conversation_empty wall t i), s2)"
    using s1(3) assms(3-5) by (auto simp: ttl_view_def)
  have "fst (kas_load memory_kv sc u wall t' j s1) = fst (kas_load memory_kv sc u wall t' j s)"
    if "state_key t' j \<noteq> state_key t i"
    using memory.load_live [OF s1(2), of u sc wall t' j] memory.load_live [OF assms(1), of u sc wall t' j]
      s1(3) assms(5) that by auto
  with s1(1) s2 show ?thesis by blast
qed

theorem conversation_saved_witness:
  "\<exists>s1 s2. kas_save memory_kv \<lparr>sc_to = Some, sc_from = Some\<rparr> 5 (tenant_new ''a'' ''b'') ''s'' parked_state mem_kv_new =
      (Inr (), s1) \<and>
    kas_load memory_kv \<lparr>sc_to = Some, sc_from = Some\<rparr> 9 0 (tenant_new ''a'' ''b'') ''s'' s1 = (Inr parked_state, s2)"
proof -
  have "mem_inv (mem_kv_new :: conversation_state mem_state)" by (simp add: mem_inv_def mem_kv_new_def)
  moreover have "cs_schema_version parked_state \<le> STATE_SCHEMA_VERSION"
    by (simp add: parked_state_def conversation_empty_def)
  moreover have "(5::nat) \<le> 9" and lt: "9 < 5 + STATE_TTL" by (simp_all add: STATE_TTL_def)
  moreover note conversation_saved [of _ "\<lparr>sc_to = Some, sc_from = Some\<rparr>" _ _ 5 9 "tenant_new ''a'' ''b''" "''s''" 0]
  ultimately show ?thesis unfolding if_P [OF lt] by (simp only: state_codec.simps) blast
qed

text \<open>
  A remote reference is used only for the tenant it was made for and only within an hour of its last
  use; a lookup that finds another one drops it and leaves the rest.
\<close>

theorem a2a_reference_scoped:
  assumes "a2a_resume t agent now m = (r, m')"
  shows "r = (case hget m agent of
        Some c \<Rightarrow> if ac_tenant_id c = tc_tenant_id t \<and> ac_env_id c = tc_env_id t \<and>
            now - ac_last_used_at c < 3600 * 1000000000 then Some c else None
      | None \<Rightarrow> None) \<and>
    hget m' agent = r \<and> (\<forall>b. b \<noteq> agent \<longrightarrow> hget m' b = hget m b)"
  using assms
  by (auto simp: a2a_resume_def belongs_to_def is_fresh_def secs_def CONTINUATION_IDLE_TTL_SECS_def hm_simps
      split: option.splits if_splits)

theorem a2a_reference_scoped_witness:
  "fst (a2a_resume (tenant_new ''acme'' ''dev'') ''recipe'' 1
     (remember (tenant_new ''acme'' ''prod'') ''recipe'' ''ctx'' None 0 [])) = None"
proof -
  let ?m = "remember (tenant_new ''acme'' ''prod'') ''recipe'' ''ctx'' None 0 []"
  have m: "hget ?m ''recipe'' = Some \<lparr>ac_context_id = ''ctx'', ac_task_id = None, ac_tenant_id = ''acme'',
      ac_env_id = ''prod'', ac_last_used_at = 0\<rparr>"
    by (simp add: remember_def tenant_new_def evict_small MAX_REMEMBERED_AGENTS_def)
  obtain r m' where r: "a2a_resume (tenant_new ''acme'' ''dev'') ''recipe'' 1 ?m = (r, m')" by fastforce
  from a2a_reference_scoped [OF r] r m show ?thesis by (simp add: tenant_new_def)
qed

text \<open>
  What is remembered: the new reference, at most sixteen references in all, each unchanged, and when
  some had to go they are the ones used least recently.
\<close>

theorem a2a_remember_lru:
  assumes "a2a_wf m" and "remember t agent ctx task now m = m'"
  shows "a2a_wf m' \<and> length m' \<le> 16 \<and>
    hget m' agent = Some \<lparr>ac_context_id = ctx, ac_task_id = task, ac_tenant_id = tc_tenant_id t,
      ac_env_id = tc_env_id t, ac_last_used_at = now\<rparr> \<and>
    (\<forall>b d. b \<noteq> agent \<longrightarrow> hget m' b = Some d \<longrightarrow> hget m b = Some d) \<and>
    (\<forall>a c b d. hget m a = Some c \<longrightarrow> hget m' a = None \<longrightarrow> hget m' b = Some d \<longrightarrow> b \<noteq> agent \<longrightarrow>
      ac_last_used_at c \<le> ac_last_used_at d)"
proof -
  let ?c = "\<lparr>ac_context_id = ctx, ac_task_id = task, ac_tenant_id = tc_tenant_id t,
    ac_env_id = tc_env_id t, ac_last_used_at = now\<rparr>"
  let ?m = "bt_insert agent ?c m"
  have wf: "a2a_wf ?m" using assms(1) by (rule a2a_wf_insert)
  have m': "m' = evict_to_cap agent ?m" using assms(2) by (simp add: remember_def)
  have lru: "ac_last_used_at c \<le> ac_last_used_at d"
    if "hget m a = Some c" "hget m' a = None" "hget m' b = Some d" "b \<noteq> agent" for a b c d
  proof -
    have "a \<noteq> agent" using that(2) evict_keeps [OF wf, of agent] m' by auto
    with that(1) have "hget ?m a = Some c" by simp
    from evict_least_recent [OF wf this, of agent b d] that(2-4) m' show ?thesis by simp
  qed
  from evict_keeps [OF wf, of agent] lru m' show ?thesis
    by (auto simp: MAX_REMEMBERED_AGENTS_def split: if_splits)
qed

theorem a2a_remember_lru_witness:
  "length (remember (tenant_new ''acme'' ''prod'') ''recipe'' ''ctx'' None 0 []) \<le> 16"
proof -
  have "a2a_wf []" by (simp add: a2a_wf_def)
  from a2a_remember_lru [OF this refl] show ?thesis by blast
qed

text \<open>
  A tool result that is too long is replaced by a preview: the longest prefix of its text within the
  limit that ends between two characters.
\<close>

theorem tool_result_capped:
  assumes "length (to_text v) > 32768"
  shows "\<exists>n. json_get ''preview'' (cap_tool_result to_text v) = Some (JString (take n (to_text v))) \<and>
    n \<le> 32768 \<and> is_char_boundary (to_text v) n \<and>
    (\<forall>k. k \<le> 32768 \<longrightarrow> is_char_boundary (to_text v) k \<longrightarrow> k \<le> n)"
  using assms cut_back_boundary [of "to_text v" MAX_TOOL_RESULT_BYTES]
    cut_back_greatest [of _ MAX_TOOL_RESULT_BYTES "to_text v"]
  by (intro exI [of _ "cut_back (to_text v) MAX_TOOL_RESULT_BYTES"])
    (auto simp: cap_tool_result_def json_obj_def Let_def MAX_TOOL_RESULT_BYTES_def simp del: bt_insert.simps)

theorem tool_result_capped_witness:
  "\<exists>n. json_get ''preview'' (cap_tool_result (\<lambda>_. replicate 40000 (CHR ''x'')) JNull) =
     Some (JString (replicate n (CHR ''x''))) \<and> n = 32768"
proof -
  let ?t = "\<lambda>_ :: json. replicate 40000 (CHR ''x'')"
  have l: "length (?t JNull) > 32768" by (simp only: length_replicate)
  from tool_result_capped [of ?t JNull, OF l] obtain n where n:
    "json_get ''preview'' (cap_tool_result ?t JNull) = Some (JString (take n (?t JNull)))" "n \<le> 32768"
    "is_char_boundary (?t JNull) 32768 \<longrightarrow> 32768 \<le> n" by blast
  have "is_char_boundary (?t JNull) 32768"
    unfolding is_char_boundary_def by (simp only: length_replicate nth_replicate) simp
  with n have "n = 32768" by simp
  with n(1) show ?thesis by (simp only: take_replicate) simp
qed

end
