(* ===== verification/Flow_Host.thy ===== *)
theory Flow_Host
  imports Prelude
begin

section \<open>The session and state hosts of the flow runner\<close>

text \<open>
  \<open>crates/greentic-runner-host/src/engine/host.rs\<close> (keys, snapshots and the host traits), \<open>engine/error.rs\<close>,
  and the in-memory hosts of \<open>engine/shims\<close>. A host operation reads the clock once; the reading is its
  argument \<open>now\<close>, in milliseconds. The locale \<open>session_host\<close> is the contract of \<open>SessionHost\<close>: what is
  stored for a key, with its revision and its expiry, and how every operation changes it.
\<close>

subsection \<open>Errors, keys and snapshots\<close>

datatype runner_error =
    FlowNotFound string
  | AdapterMissing string
  | AdapterCallFailed string
  | SessionErr string
  | StateErr string
  | PolicyErr string
  | TelemetryErr string
  | SecretsErr string
  | SerializationErr string
  | PostEffectPersistence string
  | FlowTerminal string

fun is_terminal :: "runner_error \<Rightarrow> bool" where
  "is_terminal (PostEffectPersistence _) = True"
| "is_terminal (FlowTerminal _) = True"
| "is_terminal _ = False"

text \<open>What the runner reads of \<open>greentic_types::TenantCtx\<close>.\<close>

record tenant_ctx =
  tx_env :: string
  tx_tenant :: string
  tx_trace_id :: "string option"

record session_key =
  sk_tenant_key :: string
  sk_pack_id :: string
  sk_flow_id :: string
  sk_session_hint :: "string option"

definition session_key_new :: "tenant_ctx \<Rightarrow> string \<Rightarrow> string \<Rightarrow> string option \<Rightarrow> session_key" where
  "session_key_new t pack_id flow_id hint =
     \<lparr>sk_tenant_key = tx_env t @ ''::'' @ tx_tenant t, sk_pack_id = pack_id, sk_flow_id = flow_id,
      sk_session_hint = hint\<rparr>"

definition stable_session_id :: "session_key \<Rightarrow> string option" where
  "stable_session_id k = sk_session_hint k"

record session_cursor =
  cu_position :: nat
  cu_outbox_seq :: nat

record outbox_entry =
  oe_seq :: nat
  oe_hash :: string
  oe_response :: json

record wait_state =
  ws_reason :: string
  ws_recorded_at :: nat

type_synonym outbox_key = "nat \<times> string"

record session_snapshot =
  sn_key :: session_key
  sn_session_id :: string
  sn_revision :: nat
  sn_cursor :: session_cursor
  sn_state :: json
  sn_outbox :: "(outbox_key, outbox_entry) hmap"
  sn_waiting :: "wait_state option"
  sn_last_outcome :: "json option"
  sn_ttl :: nat

definition snapshot_new :: "session_key \<Rightarrow> string \<Rightarrow> session_snapshot" where
  "snapshot_new k i =
     \<lparr>sn_key = k, sn_session_id = i, sn_revision = 0, sn_cursor = \<lparr>cu_position = 0, cu_outbox_seq = 0\<rparr>,
      sn_state = JObject [], sn_outbox = [], sn_waiting = None, sn_last_outcome = None,
      sn_ttl = 3600 * 1000\<rparr>"

subsection \<open>The trait and its contract\<close>

record 's session_ops =
  so_get :: "nat \<Rightarrow> session_key \<Rightarrow> ('s, runner_error, session_snapshot option) st_res"
  so_put :: "nat \<Rightarrow> session_snapshot \<Rightarrow> ('s, runner_error, unit) st_res"
  so_update_cas :: "nat \<Rightarrow> session_snapshot \<Rightarrow> nat \<Rightarrow> ('s, runner_error, bool) st_res"
  so_delete :: "session_key \<Rightarrow> ('s, runner_error, unit) st_res"
  so_touch :: "nat \<Rightarrow> session_key \<Rightarrow> nat \<Rightarrow> ('s, runner_error, unit) st_res"

record stored_session =
  ss_revision :: nat
  ss_snapshot :: session_snapshot
  ss_expires_at :: nat

locale session_host =
  fixes ops :: "'s session_ops"
    and invar :: "'s \<Rightarrow> bool"
    and stored :: "'s \<Rightarrow> session_key \<Rightarrow> stored_session option"
  assumes get_live: "invar s \<Longrightarrow> stored s k = Some e \<Longrightarrow> now \<le> ss_expires_at e \<Longrightarrow>
      \<exists>s'. so_get ops now k s = (Inr (Some ((ss_snapshot e)\<lparr>sn_revision := ss_revision e\<rparr>)), s') \<and> invar s' \<and>
        stored s' = stored s"
    and get_gone: "invar s \<Longrightarrow> (case stored s k of None \<Rightarrow> True | Some e \<Rightarrow> ss_expires_at e < now) \<Longrightarrow>
      \<exists>s'. so_get ops now k s = (Inr None, s') \<and> invar s' \<and> stored s' = (stored s)(k := None)"
    and put: "invar s \<Longrightarrow>
      \<exists>s'. so_put ops now sn s = (Inr (), s') \<and> invar s' \<and>
        stored s' = (stored s)(sn_key sn \<mapsto>
          \<lparr>ss_revision = 0, ss_snapshot = sn\<lparr>sn_revision := 0\<rparr>, ss_expires_at = now + sn_ttl sn\<rparr>)"
    and cas_match: "invar s \<Longrightarrow> stored s (sn_key sn) = Some e \<Longrightarrow> ss_revision e = expected \<Longrightarrow>
      \<exists>s'. so_update_cas ops now sn expected s = (Inr True, s') \<and> invar s' \<and>
        stored s' = (stored s)(sn_key sn \<mapsto>
          \<lparr>ss_revision = sat_add64 expected 1, ss_snapshot = sn\<lparr>sn_revision := sat_add64 expected 1\<rparr>,
           ss_expires_at = now + sn_ttl sn\<rparr>)"
    and cas_other: "invar s \<Longrightarrow>
      (case stored s (sn_key sn) of None \<Rightarrow> True | Some e \<Rightarrow> ss_revision e \<noteq> expected) \<Longrightarrow>
      \<exists>s'. so_update_cas ops now sn expected s = (Inr False, s') \<and> invar s' \<and> stored s' = stored s"
    and delete: "invar s \<Longrightarrow>
      \<exists>s'. so_delete ops k s = (Inr (), s') \<and> invar s' \<and> stored s' = (stored s)(k := None)"

subsection \<open>The in-memory session host\<close>

record session_entry =
  se_snapshot :: session_snapshot
  se_cas :: nat
  se_expires_at :: "nat option"

type_synonym session_map = "(session_key, session_entry) hmap"

definition session_entry_new :: "nat \<Rightarrow> session_snapshot \<Rightarrow> session_entry" where
  "session_entry_new now sn = \<lparr>se_snapshot = sn, se_cas = 0, se_expires_at = Some (now + sn_ttl sn)\<rparr>"

definition apply_ttl :: "nat \<Rightarrow> session_entry \<Rightarrow> session_entry" where
  "apply_ttl now e = e\<lparr>se_expires_at := Some (now + sn_ttl (se_snapshot e))\<rparr>"

definition entry_expired :: "nat \<Rightarrow> session_entry \<Rightarrow> bool" where
  "entry_expired now e = (case se_expires_at e of None \<Rightarrow> False | Some x \<Rightarrow> x < now)"

definition im_get :: "nat \<Rightarrow> session_key \<Rightarrow> (session_map, runner_error, session_snapshot option) st_res" where
  "im_get now k m =
     (case hget m k of
        Some e \<Rightarrow>
          if entry_expired now e then (Inr None, hdel k m)
          else (Inr (Some ((se_snapshot e)\<lparr>sn_revision := se_cas e\<rparr>)), m)
      | None \<Rightarrow> (Inr None, m))"

definition im_put :: "nat \<Rightarrow> session_snapshot \<Rightarrow> (session_map, runner_error, unit) st_res" where
  "im_put now sn m =
     (let sn' = sn\<lparr>sn_revision := 0\<rparr>; e = apply_ttl now (session_entry_new now sn') in
      (Inr (), hput (sn_key (se_snapshot e)) e m))"

definition im_update_cas :: "nat \<Rightarrow> session_snapshot \<Rightarrow> nat \<Rightarrow> (session_map, runner_error, bool) st_res" where
  "im_update_cas now sn expected m =
     (case hget m (sn_key sn) of
        Some e \<Rightarrow>
          if se_cas e \<noteq> expected then (Inr False, m)
          else
            (let c = sat_add64 expected 1 in
             (Inr True, hput (sn_key sn)
               (apply_ttl now (e\<lparr>se_cas := c, se_snapshot := sn\<lparr>sn_revision := c\<rparr>\<rparr>)) m))
      | None \<Rightarrow> (Inr False, m))"

definition im_delete :: "session_key \<Rightarrow> (session_map, runner_error, unit) st_res" where
  "im_delete k m = (Inr (), hdel k m)"

definition im_touch :: "nat \<Rightarrow> session_key \<Rightarrow> nat \<Rightarrow> (session_map, runner_error, unit) st_res" where
  "im_touch now k ttl m =
     (case hget m k of
        Some e \<Rightarrow>
          (Inr (), hput k (e\<lparr>se_snapshot := (se_snapshot e)\<lparr>sn_ttl := ttl\<rparr>, se_expires_at := Some (now + ttl)\<rparr>) m)
      | None \<Rightarrow> (Inr (), m))"

definition in_memory_sessions :: "session_map session_ops" where
  "in_memory_sessions =
     \<lparr>so_get = im_get, so_put = im_put, so_update_cas = im_update_cas, so_delete = im_delete, so_touch = im_touch\<rparr>"

text \<open>Every entry the host creates has an expiry.\<close>

definition im_inv :: "session_map \<Rightarrow> bool" where
  "im_inv m \<longleftrightarrow> (\<forall>k e. hget m k = Some e \<longrightarrow> se_expires_at e \<noteq> None)"

definition im_stored :: "session_map \<Rightarrow> session_key \<Rightarrow> stored_session option" where
  "im_stored m k =
     map_option (\<lambda>e. \<lparr>ss_revision = se_cas e, ss_snapshot = se_snapshot e, ss_expires_at = the (se_expires_at e)\<rparr>)
       (hget m k)"

interpretation sessions: session_host in_memory_sessions im_inv im_stored
proof
  fix m :: session_map and k and e :: stored_session and now expected :: nat and sn :: session_snapshot
  note defs = in_memory_sessions_def im_get_def im_put_def im_update_cas_def im_delete_def entry_expired_def
    apply_ttl_def session_entry_new_def im_inv_def im_stored_def Let_def hm_simps fun_eq_iff
  show "im_inv m \<Longrightarrow> im_stored m k = Some e \<Longrightarrow> now \<le> ss_expires_at e \<Longrightarrow>
      \<exists>s'. so_get in_memory_sessions now k m =
        (Inr (Some ((ss_snapshot e)\<lparr>sn_revision := ss_revision e\<rparr>)), s') \<and> im_inv s' \<and> im_stored s' = im_stored m"
    by (fastforce simp: defs split: option.splits)
  show "im_inv m \<Longrightarrow> (case im_stored m k of None \<Rightarrow> True | Some e \<Rightarrow> ss_expires_at e < now) \<Longrightarrow>
      \<exists>s'. so_get in_memory_sessions now k m = (Inr None, s') \<and> im_inv s' \<and> im_stored s' = (im_stored m)(k := None)"
    by (fastforce simp: defs split: option.splits)
  show "im_inv m \<Longrightarrow> \<exists>s'. so_put in_memory_sessions now sn m = (Inr (), s') \<and> im_inv s' \<and>
      im_stored s' = (im_stored m)(sn_key sn \<mapsto>
        \<lparr>ss_revision = 0, ss_snapshot = sn\<lparr>sn_revision := 0\<rparr>, ss_expires_at = now + sn_ttl sn\<rparr>)"
    by (simp add: defs)
  show "im_inv m \<Longrightarrow> im_stored m (sn_key sn) = Some e \<Longrightarrow> ss_revision e = expected \<Longrightarrow>
      \<exists>s'. so_update_cas in_memory_sessions now sn expected m = (Inr True, s') \<and> im_inv s' \<and>
        im_stored s' = (im_stored m)(sn_key sn \<mapsto>
          \<lparr>ss_revision = sat_add64 expected 1, ss_snapshot = sn\<lparr>sn_revision := sat_add64 expected 1\<rparr>,
           ss_expires_at = now + sn_ttl sn\<rparr>)"
    by (auto simp: defs)
  show "im_inv m \<Longrightarrow> (case im_stored m (sn_key sn) of None \<Rightarrow> True | Some e \<Rightarrow> ss_revision e \<noteq> expected) \<Longrightarrow>
      \<exists>s'. so_update_cas in_memory_sessions now sn expected m = (Inr False, s') \<and> im_inv s' \<and> im_stored s' = im_stored m"
    by (auto simp: defs split: option.splits)
  show "im_inv m \<Longrightarrow> \<exists>s'. so_delete in_memory_sessions k m = (Inr (), s') \<and> im_inv s' \<and>
      im_stored s' = (im_stored m)(k := None)"
    by (simp add: defs)
qed

subsection \<open>The host that keeps nothing\<close>

text \<open>\<open>DiscardSessionHost\<close> of \<open>src/host.rs\<close>, the session host of the assembled runner.\<close>

definition discard_sessions :: "'s session_ops" where
  "discard_sessions =
     \<lparr>so_get = (\<lambda>_ _. sret None), so_put = (\<lambda>_ _. sret ()), so_update_cas = (\<lambda>_ _ _. sret False),
      so_delete = (\<lambda>_. sret ()), so_touch = (\<lambda>_ _ _. sret ())\<rparr>"

subsection \<open>The in-memory state host\<close>

type_synonym state_map = "(string, json) hmap"

definition key_of :: "session_key \<Rightarrow> string" where
  "key_of k = sk_tenant_key k @ '':'' @ sk_pack_id k @ '':'' @ sk_flow_id k"

definition get_json :: "session_key \<Rightarrow> (state_map, runner_error, json option) st_res" where
  "get_json k m = (Inr (hget m (key_of k)), m)"

definition set_json :: "session_key \<Rightarrow> json \<Rightarrow> (state_map, runner_error, unit) st_res" where
  "set_json k v m = (Inr (), hput (key_of k) v m)"

definition state_del :: "session_key \<Rightarrow> (state_map, runner_error, unit) st_res" where
  "state_del k m = (Inr (), hdel (key_of k) m)"

definition del_prefix :: "string \<Rightarrow> (state_map, runner_error, unit) st_res" where
  "del_prefix p m = (Inr (), fold hdel (filter (\<lambda>k. starts_with p k) (map fst m)) m)"

lemma hget_fold_hdel: "hget (fold hdel ks m) j = (if j \<in> set ks then None else hget m j)"
  by (induction ks arbitrary: m) (auto simp: hm_simps)

lemma del_prefix_get:
  "hget (snd (del_prefix p m)) j = (if starts_with p j then None else hget m j)"
  by (auto simp: del_prefix_def hget_fold_hdel) (metis domI dom_map_of_conv_image_fst not_None_eq image_set)

end
