(* ===== verification/Flow_Retry.thy ===== *)
theory Flow_Retry
  imports Flow_Host
begin

section \<open>Policies and the retry loop of the flow runner\<close>

text \<open>
  \<open>crates/greentic-runner-host/src/engine/policy.rs\<close>. What the runner takes from its platform is a record of
  functions over the world \<open>'w\<close>: the clock, the random source (a number up to the given bound), sleeping,
  the JSON writer and the SHA-256 digest. Durations of a policy are in nanoseconds, the delays of the retry
  loop in milliseconds, as the source computes them.
\<close>

record 'w platform =
  pf_now :: "'w \<Rightarrow> nat"
  pf_random :: "nat \<Rightarrow> 'w \<Rightarrow> nat \<times> 'w"
  pf_sleep :: "nat \<Rightarrow> 'w \<Rightarrow> 'w"
  pf_to_vec :: "json \<Rightarrow> string + string"
  pf_sha256_hex :: "string \<Rightarrow> string"

record retry_policy =
  rp_max_attempts :: nat
  rp_initial_backoff :: nat
  rp_max_backoff :: nat

definition retry_policy_default :: retry_policy where
  "retry_policy_default =
     \<lparr>rp_max_attempts = 5, rp_initial_backoff = 100 * 1000000, rp_max_backoff = 5 * 1000000000\<rparr>"

record policy =
  po_retry :: retry_policy
  po_max_egress_adapters :: nat
  po_max_payload_bytes :: nat

definition policy_default :: policy where
  "policy_default =
     \<lparr>po_retry = retry_policy_default, po_max_egress_adapters = 32, po_max_payload_bytes = 512 * 1024\<rparr>"

definition policy_violation :: "string \<Rightarrow> runner_error" where
  "policy_violation reason = PolicyErr reason"

subsection \<open>Backoff\<close>

text \<open>\<open>as u64\<close> keeps the low 64 bits; \<open>saturating_mul\<close> caps.\<close>

definition as_u64 :: "nat \<Rightarrow> nat" where
  "as_u64 n = n mod 2 ^ 64"

definition mul_sat64 :: "nat \<Rightarrow> nat \<Rightarrow> nat" where
  "mul_sat64 a b = min u64_max (a * b)"

definition as_millis :: "nat \<Rightarrow> nat" where
  "as_millis d = d div 1000000"

definition backoff_base :: "retry_policy \<Rightarrow> nat \<Rightarrow> nat" where
  "backoff_base p attempt =
     (let capped_attempt = min attempt 10;
          initial_ms = as_u64 (max (as_millis (rp_initial_backoff p)) 1);
          multiplier = 2 ^ capped_attempt;
          base_ms = mul_sat64 initial_ms multiplier;
          max_ms = as_u64 (max (as_millis (rp_max_backoff p)) 1)
      in if base_ms > max_ms then max_ms else base_ms)"

definition backoff_with_jitter :: "'w platform \<Rightarrow> retry_policy \<Rightarrow> nat \<Rightarrow> 'w \<Rightarrow> nat \<times> 'w" where
  "backoff_with_jitter pf p attempt w =
     (let base = backoff_base p attempt; jitter_cap = max base 1; (jitter, w') = pf_random pf jitter_cap w
      in (base + jitter, w'))"

lemma backoff_bounds:
  assumes "\<And>cap v. fst (pf_random pf cap v) \<le> cap"
  shows "backoff_base p a \<le> fst (backoff_with_jitter pf p a w)"
    and "fst (backoff_with_jitter pf p a w) \<le> 2 * max (as_millis (rp_max_backoff p)) 1"
proof -
  have base: "backoff_base p a \<le> max (as_millis (rp_max_backoff p)) 1"
    by (auto simp: backoff_base_def Let_def as_u64_def intro: order_trans [OF _ mod_less_eq_dividend])
  obtain j w' where j: "pf_random pf (max (backoff_base p a) 1) w = (j, w')" by fastforce
  have "j \<le> max (backoff_base p a) 1" using assms [of "max (backoff_base p a) 1" w] j by simp
  with j base show "backoff_base p a \<le> fst (backoff_with_jitter pf p a w)"
    and "fst (backoff_with_jitter pf p a w) \<le> 2 * max (as_millis (rp_max_backoff p)) 1"
    by (auto simp: backoff_with_jitter_def Let_def)
qed

subsection \<open>The loop\<close>

function retry_loop ::
  "'w platform \<Rightarrow> retry_policy \<Rightarrow> ('w, runner_error, 'a) st_res \<Rightarrow> nat \<Rightarrow> ('w, runner_error, 'a) st_res" where
  "retry_loop pf p op attempt w =
     (case op w of
        (Inr v, w1) \<Rightarrow> (Inr v, w1)
      | (Inl e, w1) \<Rightarrow>
          if is_terminal e then (Inl e, w1)
          else if rp_max_attempts p \<le> attempt + 1 then (Inl e, w1)
          else
            (let (backoff, w2) = backoff_with_jitter pf p (attempt + 1) w1
             in retry_loop pf p op (attempt + 1) (pf_sleep pf backoff w2)))"
  by pat_completeness auto
termination by (relation "measure (\<lambda>(pf, p, op, attempt, w). rp_max_attempts p - attempt)") auto

declare retry_loop.simps [simp del]

definition retry_with_jitter ::
  "'w platform \<Rightarrow> retry_policy \<Rightarrow> ('w, runner_error, 'a) st_res \<Rightarrow> ('w, runner_error, 'a) st_res" where
  "retry_with_jitter pf p op = retry_loop pf p op 0"

text \<open>
  The reference: the world in which the attempt after \<open>k\<close> failures is made, counted from attempt \<open>a\<close>, and
  what makes a result worth another attempt.
\<close>

fun attempt_world ::
  "'w platform \<Rightarrow> retry_policy \<Rightarrow> ('w, runner_error, 'a) st_res \<Rightarrow> nat \<Rightarrow> nat \<Rightarrow> 'w \<Rightarrow> 'w" where
  "attempt_world pf p op a 0 w = w"
| "attempt_world pf p op a (Suc k) w =
     (let (backoff, w2) = backoff_with_jitter pf p (Suc a) (snd (op w))
      in attempt_world pf p op (Suc a) k (pf_sleep pf backoff w2))"

definition retryable :: "runner_error + 'a \<Rightarrow> bool" where
  "retryable r = (case r of Inl e \<Rightarrow> \<not> is_terminal e | Inr _ \<Rightarrow> False)"

lemma retry_loop_attempts:
  assumes "a < max (rp_max_attempts p) 1"
  shows "\<exists>k. a + k < max (rp_max_attempts p) 1 \<and>
    retry_loop pf p op a w = op (attempt_world pf p op a k w) \<and>
    (\<forall>j<k. retryable (fst (op (attempt_world pf p op a j w)))) \<and>
    (retryable (fst (op (attempt_world pf p op a k w))) \<longrightarrow> Suc (a + k) = max (rp_max_attempts p) 1)"
  using assms
proof (induction "rp_max_attempts p - a" arbitrary: a w)
  case 0
  then show ?case
    by (intro exI [of _ 0]) (auto simp: retry_loop.simps [of pf p op a] split: prod.splits sum.splits)
next
  case (Suc n)
  show ?case
  proof (cases "retryable (fst (op w)) \<and> Suc a < rp_max_attempts p")
    case False
    then have "retry_loop pf p op a w = op w"
      by (auto simp: retry_loop.simps [of pf p op a] retryable_def split: prod.splits sum.splits)
    moreover from False Suc.prems have "retryable (fst (op w)) \<Longrightarrow> Suc a = max (rp_max_attempts p) 1" by auto
    ultimately show ?thesis using Suc.prems by (intro exI [of _ 0]) simp
  next
    case True
    then obtain e w1 where op: "op w = (Inl e, w1)" and e: "\<not> is_terminal e"
      by (cases "op w") (auto simp: retryable_def split: sum.splits)
    obtain b w2 where b: "backoff_with_jitter pf p (Suc a) w1 = (b, w2)" by fastforce
    have step: "retry_loop pf p op a w = retry_loop pf p op (Suc a) (pf_sleep pf b w2)"
      using True op e b by (simp add: retry_loop.simps [of pf p op a])
    have world: "attempt_world pf p op a (Suc k) w = attempt_world pf p op (Suc a) k (pf_sleep pf b w2)" for k
      using op b by simp
    have "n = rp_max_attempts p - Suc a" and "Suc a < max (rp_max_attempts p) 1"
      using Suc.hyps(2) True by auto
    from Suc.hyps(1) [OF this, of "pf_sleep pf b w2"] obtain k where
      k: "Suc a + k < max (rp_max_attempts p) 1"
        "retry_loop pf p op (Suc a) (pf_sleep pf b w2) = op (attempt_world pf p op a (Suc k) w)"
        "\<And>j. j < k \<Longrightarrow> retryable (fst (op (attempt_world pf p op a (Suc j) w)))"
        "retryable (fst (op (attempt_world pf p op a (Suc k) w))) \<Longrightarrow> Suc (Suc a + k) = max (rp_max_attempts p) 1"
      unfolding world by blast
    have "\<forall>j<Suc k. retryable (fst (op (attempt_world pf p op a j w)))"
      using k(3) True by (auto simp: less_Suc_eq_0_disj)
    with k(1,2,4) step show ?thesis by (intro exI [of _ "Suc k"]) auto
  qed
qed

end
