(* ===== verification/Flow_Machine.thy ===== *)
theory Flow_Machine
  imports Flow_Retry
begin

section \<open>The state machine of the flow runner\<close>

text \<open>
  \<open>crates/greentic-runner-host/src/engine/state_machine.rs\<close>, with \<open>registry.rs\<close>, \<open>api.rs\<close> and \<open>builder.rs\<close>. A flow is
  a list of steps; a turn loads the session, runs steps until the flow waits for input or ends, and commits
  the session. \<open>step\<close> is composed of \<open>step_load\<close>, \<open>run_steps\<close> and \<open>step_commit\<close>, so that two turns can be
  interleaved at those points. The turn lock around the retry loop (\<open>turn_lock.rs\<close>, theory \<open>Turn_Lock\<close>) only
  delays the attempts and does not show in a single turn. The record of the telemetry context is left out.
\<close>

subsection \<open>Adapters and flows\<close>

record adapter_call =
  ac_adapter :: string
  ac_operation :: string
  ac_payload :: json

type_synonym node_map = "(string \<times> json) list"

text \<open>An adapter is its \<open>call_traced\<close>; the trait's default builds it from \<open>call\<close>.\<close>

type_synonym 'w adapter = "adapter_call \<Rightarrow> ('w, runner_error, json \<times> node_map) st_res"

definition call_traced :: "(adapter_call \<Rightarrow> ('w, runner_error, json) st_res) \<Rightarrow> 'w adapter" where
  "call_traced f call = sbind (f call) (\<lambda>v. sret (v, []))"

type_synonym 'w adapter_registry = "(string, 'w adapter) hmap"

definition register_adapter :: "string \<Rightarrow> 'w adapter \<Rightarrow> 'w adapter_registry \<Rightarrow> 'w adapter_registry" where
  "register_adapter name adapter r = hput name adapter r"

record flow_summary =
  fs_pack_id :: string
  fs_id :: string
  fs_name :: string
  fs_version :: string
  fs_description :: "string option"

record flow_schema =
  fh_pack_id :: string
  fh_id :: string
  fh_schema_json :: json

datatype flow_step =
    Adapter adapter_call
  | AwaitInput string
  | Complete json

record flow_definition =
  fd_summary :: flow_summary
  fd_schema :: json
  fd_steps :: "flow_step list"

record span_context =
  sp_trace_id :: "string option"
  sp_span_id :: "string option"

record 't state_ops =
  to_get_json :: "session_key \<Rightarrow> ('t, runner_error, json option) st_res"
  to_set_json :: "session_key \<Rightarrow> json \<Rightarrow> ('t, runner_error, unit) st_res"
  to_del :: "session_key \<Rightarrow> ('t, runner_error, unit) st_res"
  to_del_prefix :: "string \<Rightarrow> ('t, runner_error, unit) st_res"

definition in_memory_state :: "state_map state_ops" where
  "in_memory_state =
     \<lparr>to_get_json = get_json, to_set_json = set_json, to_del = state_del, to_del_prefix = del_prefix\<rparr>"

record ('s, 't, 'w) host_bundle =
  hb_emit :: "span_context \<Rightarrow> (string \<times> string) list \<Rightarrow> ('w, runner_error, unit) st_res"
  hb_session :: "'s session_ops"
  hb_state :: "'t state_ops"

record ('s, 't, 'w) state_machine =
  sm_host :: "('s, 't, 'w) host_bundle"
  sm_adapters :: "'w adapter_registry"
  sm_policy :: policy
  sm_flows :: "(string \<times> string, flow_definition) hmap"
  sm_platform :: "'w platform"

definition state_machine_new ::
  "('s, 't, 'w) host_bundle \<Rightarrow> 'w adapter_registry \<Rightarrow> policy \<Rightarrow> 'w platform \<Rightarrow> ('s, 't, 'w) state_machine" where
  "state_machine_new host adapters p pf =
     \<lparr>sm_host = host, sm_adapters = adapters, sm_policy = p, sm_flows = [], sm_platform = pf\<rparr>"

definition register_flow :: "flow_definition \<Rightarrow> ('s, 't, 'w) state_machine \<Rightarrow> ('s, 't, 'w) state_machine" where
  "register_flow d m =
     m\<lparr>sm_flows := hput (fs_pack_id (fd_summary d), fs_id (fd_summary d)) d (sm_flows m)\<rparr>"

definition list_flows :: "('s, 't, 'w) state_machine \<Rightarrow> flow_summary list" where
  "list_flows m = map (\<lambda>(_, f). fd_summary f) (sm_flows m)"

definition get_flow_schema :: "('s, 't, 'w) state_machine \<Rightarrow> string \<Rightarrow> string \<Rightarrow> runner_error + flow_schema" where
  "get_flow_schema m pack_id flow_id =
     ok_or (FlowNotFound flow_id)
       (map_option (\<lambda>f. \<lparr>fh_pack_id = pack_id, fh_id = flow_id, fh_schema_json = fd_schema f\<rparr>)
         (hget (sm_flows m) (pack_id, flow_id)))"

definition ensure_policy_budget :: "policy \<Rightarrow> flow_definition \<Rightarrow> runner_error + unit" where
  "ensure_policy_budget p flow =
     (if length (fd_steps flow) > po_max_egress_adapters p
      then Inl (policy_violation (''flow has '' @ show_nat (length (fd_steps flow)) @ '' steps exceeding budget '' @
             show_nat (po_max_egress_adapters p)))
      else Inr ())"

subsection \<open>The parts of an adapter step\<close>

definition as_map :: "json \<Rightarrow> (string \<times> json) list" where
  "as_map v = (case v of JObject fs \<Rightarrow> fs | _ \<Rightarrow> [])"

definition update_state_input :: "json \<Rightarrow> session_snapshot \<Rightarrow> session_snapshot" where
  "update_state_input input sn = sn\<lparr>sn_state := JObject (bt_insert ''last_input'' input (as_map (sn_state sn)))\<rparr>"

definition update_state_adapter :: "adapter_call \<Rightarrow> json \<Rightarrow> session_snapshot \<Rightarrow> session_snapshot" where
  "update_state_adapter call response sn =
     sn\<lparr>sn_state := JObject
       (bt_insert ''last_response'' response
         (bt_insert ''last_operation'' (JString (ac_operation call))
           (bt_insert ''last_adapter'' (JString (ac_adapter call)) (as_map (sn_state sn)))))\<rparr>"

definition payload_from_last_input :: string where
  "payload_from_last_input = ''$ingress''"

definition resolve_adapter_payload :: "json \<Rightarrow> session_snapshot \<Rightarrow> json" where
  "resolve_adapter_payload payload sn =
     (if payload = JString payload_from_last_input
      then case json_get ''last_input'' (sn_state sn) of None \<Rightarrow> JNull | Some v \<Rightarrow> v
      else payload)"

text \<open>\<open>to_be_bytes\<close> of a 64-bit number, and a number as at least \<open>n\<close> hexadecimal digits.\<close>

definition seq_bytes :: "nat \<Rightarrow> string" where
  "seq_bytes n = map (\<lambda>i. char_of (n div 256 ^ (7 - i) mod 256)) [0..<8]"

definition hex_char :: "nat \<Rightarrow> char" where
  "hex_char d = char_of (if d < 10 then 48 + d else 87 + d)"

fun hex_padded :: "nat \<Rightarrow> nat \<Rightarrow> string" where
  "hex_padded 0 v = []"
| "hex_padded (Suc n) v = hex_padded n (v div 16) @ [hex_char (v mod 16)]"

definition stable_hash :: "'w platform \<Rightarrow> nat \<Rightarrow> string \<Rightarrow> string" where
  "stable_hash pf seq payload = pf_sha256_hex pf (seq_bytes seq @ payload)"

definition generate_session_id :: "'w platform \<Rightarrow> 'w \<Rightarrow> string \<times> 'w" where
  "generate_session_id pf w =
     (let (v, w') = pf_random pf (2 ^ 128 - 1) w in (''sess-'' @ hex_padded 32 v, w'))"

definition done_outcome :: "json \<Rightarrow> json" where
  "done_outcome response = json_obj [(''status'', JString ''done''), (''response'', response)]"

text \<open>What an adapter step leaves in the session, apart from the outbox and the state.\<close>

definition advance_cursor :: "json \<Rightarrow> session_snapshot \<Rightarrow> session_snapshot" where
  "advance_cursor outcome sn =
     sn\<lparr>sn_cursor := \<lparr>cu_position = cu_position (sn_cursor sn) + 1,
                    cu_outbox_seq = sat_add64 (cu_outbox_seq (sn_cursor sn)) 1\<rparr>,
       sn_waiting := None, sn_last_outcome := Some outcome\<rparr>"

definition flow_span :: "tenant_ctx \<Rightarrow> flow_definition \<Rightarrow> nat \<Rightarrow> span_context" where
  "flow_span tenant flow seq =
     \<lparr>sp_trace_id = tx_trace_id tenant, sp_span_id = Some (fs_id (fd_summary flow) @ '':'' @ show_nat seq)\<rparr>"

text \<open>The call itself, once the payload is known and not in the outbox.\<close>

definition call_adapter ::
  "('s, 't, 'w) state_machine \<Rightarrow> flow_definition \<Rightarrow> tenant_ctx \<Rightarrow> adapter_call \<Rightarrow> 'w adapter \<Rightarrow> json \<Rightarrow> string \<Rightarrow>
   session_snapshot \<Rightarrow> ('w, runner_error, (json \<times> node_map) \<times> session_snapshot) st_res" where
  "call_adapter m flow tenant call adapter resolved hash sn =
     (let seq = cu_outbox_seq (sn_cursor sn); span = flow_span tenant flow seq;
          fields = (\<lambda>phase. [(''adapter'', ac_adapter call), (''operation'', ac_operation call), (''phase'', phase)])
      in sbind (hb_emit (sm_host m) span (fields ''start'')) (\<lambda>_.
         sbind (retry_with_jitter (sm_platform m) (po_retry (sm_policy m)) (adapter (call\<lparr>ac_payload := resolved\<rparr>)))
           (\<lambda>(response, flow_nodes).
              let outcome = done_outcome response;
                  sn' = update_state_adapter call response
                    ((advance_cursor outcome sn)\<lparr>sn_outbox :=
                       hput (seq, hash) \<lparr>oe_seq = seq, oe_hash = hash, oe_response = response\<rparr> (sn_outbox sn)\<rparr>)
              in sbind (hb_emit (sm_host m) span (fields ''finish'')) (\<lambda>_. sret ((outcome, flow_nodes), sn')))))"

definition execute_adapter_step ::
  "('s, 't, 'w) state_machine \<Rightarrow> flow_definition \<Rightarrow> tenant_ctx \<Rightarrow> adapter_call \<Rightarrow>
   session_snapshot \<Rightarrow> ('w, runner_error, (json \<times> node_map) \<times> session_snapshot) st_res" where
  "execute_adapter_step m flow tenant call sn =
     sbind (sres (ok_or (AdapterMissing (ac_adapter call)) (hget (sm_adapters m) (ac_adapter call)))) (\<lambda>adapter.
       let resolved = resolve_adapter_payload (ac_payload call) sn in
       sbind (sres (map_err SerializationErr (pf_to_vec (sm_platform m) resolved))) (\<lambda>payload_bytes.
         if length payload_bytes > po_max_payload_bytes (sm_policy m)
         then sfail (policy_violation (''payload exceeds max size '' @
                show_nat (po_max_payload_bytes (sm_policy m)) @ '' bytes''))
         else
           (let seq = cu_outbox_seq (sn_cursor sn); hash = stable_hash (sm_platform m) seq payload_bytes in
            case hget (sn_outbox sn) (seq, hash) of
              Some entry \<Rightarrow>
                sbind (hb_emit (sm_host m) (flow_span tenant flow seq)
                    [(''adapter'', ac_adapter call), (''operation'', ac_operation call), (''dedup'', ''hit'')]) (\<lambda>_.
                  let outcome = done_outcome (oe_response entry) in sret ((outcome, []), advance_cursor outcome sn))
            | None \<Rightarrow> call_adapter m flow tenant call adapter resolved hash sn)))"

lemma call_adapter_ok:
  assumes "call_adapter m flow tenant call adapter resolved hash sn w = (Inr ((outcome, nodes), sn'), w')"
  obtains response where "outcome = done_outcome response"
    and "sn' = update_state_adapter call response ((advance_cursor outcome sn)\<lparr>sn_outbox :=
       hput (cu_outbox_seq (sn_cursor sn), hash)
         \<lparr>oe_seq = cu_outbox_seq (sn_cursor sn), oe_hash = hash, oe_response = response\<rparr> (sn_outbox sn)\<rparr>)"
  using assms by (auto simp: call_adapter_def Let_def split: prod.splits elim!: sbind_eq_InrE)

lemma execute_adapter_stepE:
  assumes "execute_adapter_step m flow tenant call sn w = (Inr ((outcome, nodes), sn'), w')"
  obtains (hit) hash entry where "hget (sn_outbox sn) (cu_outbox_seq (sn_cursor sn), hash) = Some entry"
      and "outcome = done_outcome (oe_response entry)" and "sn' = advance_cursor outcome sn"
    | (called) adapter resolved hash w1 where "hget (sm_adapters m) (ac_adapter call) = Some adapter"
      and "hget (sn_outbox sn) (cu_outbox_seq (sn_cursor sn), hash) = None"
      and "call_adapter m flow tenant call adapter resolved hash sn w1 = (Inr ((outcome, nodes), sn'), w')"
  using assms unfolding execute_adapter_step_def Let_def
  by (auto split: if_splits option.splits elim!: sbind_eq_InrE intro: that)

lemma execute_adapter_step_ok:
  assumes "execute_adapter_step m flow tenant call sn w = (Inr ((outcome, nodes), sn'), w')"
  shows "cu_position (sn_cursor sn') = Suc (cu_position (sn_cursor sn))"
    and "cu_outbox_seq (sn_cursor sn') = sat_add64 (cu_outbox_seq (sn_cursor sn)) 1"
    and "sn_waiting sn' = None" and "sn_last_outcome sn' = Some outcome"
    and "sn_key sn' = sn_key sn" and "sn_revision sn' = sn_revision sn" and "sn_ttl sn' = sn_ttl sn"
    and "sn_session_id sn' = sn_session_id sn"
    and "\<exists>response. outcome = done_outcome response"
  using assms
  by (cases rule: execute_adapter_stepE;
      force simp: advance_cursor_def update_state_adapter_def elim!: call_adapter_ok)+

lemma execute_adapter_step_outbox:
  assumes "execute_adapter_step m flow tenant call sn w = (Inr ((outcome, nodes), sn'), w')"
  shows "dom (hget (sn_outbox sn')) - dom (hget (sn_outbox sn)) \<subseteq> {cu_outbox_seq (sn_cursor sn)} \<times> UNIV"
    and "sn_outbox sn' \<noteq> []"
  using assms
  by (cases rule: execute_adapter_stepE;
      auto simp: advance_cursor_def update_state_adapter_def hm_simps split: if_splits elim!: call_adapter_ok)+


subsection \<open>Running steps\<close>

text \<open>\<open>json_obj\<close> of the two fields, with the response of the last outcome when it has one.\<close>

definition pending_outcome :: "string \<Rightarrow> json option \<Rightarrow> json" where
  "pending_outcome reason last_outcome =
     (let fs = [(''status'', JString ''pending''), (''reason'', JString reason)] in
      case Option.bind last_outcome (json_get ''response'') of
        None \<Rightarrow> json_obj fs
      | Some response \<Rightarrow> json_obj (fs @ [(''response'', response)]))"

definition complete_outcome :: "json \<Rightarrow> json" where
  "complete_outcome result = json_obj [(''status'', JString ''done''), (''result'', result)]"

definition extend_nodes :: "node_map \<Rightarrow> node_map \<Rightarrow> node_map" where
  "extend_nodes nodes flow_nodes = fold (\<lambda>(k, v). bt_insert k v) flow_nodes nodes"

function run_steps ::
  "('s, 't, 'w) state_machine \<Rightarrow> flow_definition \<Rightarrow> tenant_ctx \<Rightarrow> session_snapshot \<Rightarrow> node_map \<Rightarrow>
   ('w, runner_error, (json \<times> node_map) \<times> session_snapshot) st_res" where
  "run_steps m flow tenant sn nodes w =
     (if length (fd_steps flow) \<le> cu_position (sn_cursor sn)
      then (Inr ((case sn_last_outcome sn of
                    None \<Rightarrow> json_obj [(''status'', JString ''done'')] | Some v \<Rightarrow> v, nodes), sn), w)
      else
        (case fd_steps flow ! cu_position (sn_cursor sn) of
           Adapter call \<Rightarrow>
             (case execute_adapter_step m flow tenant call sn w of
                (Inl e, w1) \<Rightarrow> (Inl e, w1)
              | (Inr ((outcome, flow_nodes), sn1), w1) \<Rightarrow>
                  run_steps m flow tenant (sn1\<lparr>sn_last_outcome := Some outcome\<rparr>) (extend_nodes nodes flow_nodes) w1)
         | AwaitInput reason \<Rightarrow>
             (let pending = pending_outcome reason (sn_last_outcome sn) in
              (Inr ((pending, nodes),
                sn\<lparr>sn_waiting := Some \<lparr>ws_reason = reason, ws_recorded_at = pf_now (sm_platform m) w\<rparr>,
                   sn_last_outcome := Some pending\<rparr>), w))
         | Complete result \<Rightarrow>
             (let outcome = complete_outcome result in
              (Inr ((outcome, nodes),
                sn\<lparr>sn_cursor := (sn_cursor sn)\<lparr>cu_position := length (fd_steps flow)\<rparr>,
                   sn_last_outcome := Some outcome\<rparr>), w))))"
  by pat_completeness auto
termination
  by (relation "measure (\<lambda>(m, flow, tenant, sn, nodes, w). length (fd_steps flow) - cu_position (sn_cursor sn))")
    (auto dest!: execute_adapter_step_ok(1) [OF sym])

declare run_steps.simps [simp del]

subsection \<open>A turn\<close>

text \<open>The state of the process: the session host, the state host and the world.\<close>

type_synonym ('s, 't, 'w) hosts = "'s \<times> 't \<times> 'w"

definition on_sessions ::
  "'w platform \<Rightarrow> (nat \<Rightarrow> ('s, runner_error, 'a) st_res) \<Rightarrow> (('s, 't, 'w) hosts, runner_error, 'a) st_res" where
  "on_sessions pf f = (\<lambda>(s, t, w). case f (pf_now pf w) s of (r, s') \<Rightarrow> (r, s', t, w))"

definition on_state :: "('t, runner_error, 'a) st_res \<Rightarrow> (('s, 't, 'w) hosts, runner_error, 'a) st_res" where
  "on_state f = (\<lambda>(s, t, w). case f t of (r, t') \<Rightarrow> (r, s, t', w))"

definition on_outer :: "('w, runner_error, 'a) st_res \<Rightarrow> (('s, 't, 'w) hosts, runner_error, 'a) st_res" where
  "on_outer f = (\<lambda>(s, t, w). case f w of (r, w') \<Rightarrow> (r, s, t, w'))"

definition fresh_session :: "'w platform \<Rightarrow> session_key \<Rightarrow> ('w, runner_error, session_snapshot) st_res" where
  "fresh_session pf k w =
     (case stable_session_id k of
        Some i \<Rightarrow> (Inr (snapshot_new k i), w)
      | None \<Rightarrow> (case generate_session_id pf w of (i, w') \<Rightarrow> (Inr (snapshot_new k i), w')))"

definition step_load ::
  "('s, 't, 'w) state_machine \<Rightarrow> tenant_ctx \<Rightarrow> string \<Rightarrow> string \<Rightarrow> string option \<Rightarrow>
   (('s, 't, 'w) hosts, runner_error, flow_definition \<times> session_snapshot) st_res" where
  "step_load m tenant pack_id flow_id session_hint =
     sbind (sres (ok_or (FlowNotFound flow_id) (hget (sm_flows m) (pack_id, flow_id)))) (\<lambda>flow.
     sbind (sres (ensure_policy_budget (sm_policy m) flow)) (\<lambda>_.
       let key = session_key_new tenant pack_id flow_id session_hint in
       sbind (on_sessions (sm_platform m) (\<lambda>now. so_get (hb_session (sm_host m)) now key)) (\<lambda>found.
         case found of
           Some sn \<Rightarrow> sret (flow, sn)
         | None \<Rightarrow> sbind (on_outer (fresh_session (sm_platform m) key)) (\<lambda>sn. sret (flow, sn)))))"

definition is_new :: "session_snapshot \<Rightarrow> bool" where
  "is_new sn \<longleftrightarrow> sn_revision sn = 0 \<and> sn_outbox sn = []"

text \<open>The input is stored; a session that waits goes past the step it waits at.\<close>

definition is_await :: "flow_step \<Rightarrow> bool" where
  "is_await st = (case st of AwaitInput _ \<Rightarrow> True | _ \<Rightarrow> False)"

definition step_begin :: "flow_definition \<Rightarrow> json \<Rightarrow> session_snapshot \<Rightarrow> session_snapshot" where
  "step_begin flow input sn =
     (let sn1 = update_state_input input sn; pos = cu_position (sn_cursor sn1) in
      if sn_waiting sn1 \<noteq> None
      then
        (if pos < length (fd_steps flow) \<and> is_await (fd_steps flow ! pos)
         then sn1\<lparr>sn_cursor := (sn_cursor sn1)\<lparr>cu_position := sat_add64 pos 1\<rparr>\<rparr> else sn1)
          \<lparr>sn_waiting := None\<rparr>
      else sn1)"

definition step_commit ::
  "('s, 't, 'w) state_machine \<Rightarrow> bool \<Rightarrow> nat \<Rightarrow> session_snapshot \<Rightarrow> (('s, 't, 'w) hosts, runner_error, unit) st_res" where
  "step_commit m new expected sn =
     sbind (on_state (to_set_json (hb_state (sm_host m)) (sn_key sn) (sn_state sn))) (\<lambda>_.
       if new then on_sessions (sm_platform m) (\<lambda>now. so_put (hb_session (sm_host m)) now sn)
       else
         sbind (on_sessions (sm_platform m) (\<lambda>now. so_update_cas (hb_session (sm_host m)) now sn expected)) (\<lambda>swapped.
           if swapped then sret () else sfail (SessionErr ''compare-and-swap failure'')))"

definition step ::
  "('s, 't, 'w) state_machine \<Rightarrow> tenant_ctx \<Rightarrow> string \<Rightarrow> string \<Rightarrow> string option \<Rightarrow> json \<Rightarrow>
   (('s, 't, 'w) hosts, runner_error, json \<times> node_map) st_res" where
  "step m tenant pack_id flow_id session_hint input =
     sbind (step_load m tenant pack_id flow_id session_hint) (\<lambda>(flow, sn).
     sbind (on_outer (run_steps m flow tenant (step_begin flow input sn) [])) (\<lambda>(out, sn').
     sbind (step_commit m (is_new sn) (sn_revision sn) sn') (\<lambda>_. sret out)))"

subsection \<open>The builder and the API\<close>

record run_flow_request =
  rr_tenant :: tenant_ctx
  rr_pack_id :: string
  rr_flow_id :: string
  rr_input :: json
  rr_session_hint :: "string option"

record run_flow_result =
  rf_outcome :: json
  rf_node_outputs :: json

definition run_flow ::
  "('s, 't, 'w) state_machine \<Rightarrow> run_flow_request \<Rightarrow> (('s, 't, 'w) hosts, runner_error, run_flow_result) st_res" where
  "run_flow m req =
     sbind (step m (rr_tenant req) (rr_pack_id req) (rr_flow_id req) (rr_session_hint req) (rr_input req))
       (\<lambda>(outcome, nodes). sret \<lparr>rf_outcome = outcome, rf_node_outputs = JObject nodes\<rparr>)"

record ('s, 't, 'w) runner_builder =
  rb_host :: "('s, 't, 'w) host_bundle option"
  rb_adapters :: "'w adapter_registry option"
  rb_policy :: "policy option"
  rb_flows :: "flow_definition list"

definition builder_new :: "('s, 't, 'w) runner_builder" where
  "builder_new = \<lparr>rb_host = None, rb_adapters = None, rb_policy = None, rb_flows = []\<rparr>"

definition with_host :: "('s, 't, 'w) host_bundle \<Rightarrow> ('s, 't, 'w) runner_builder \<Rightarrow> ('s, 't, 'w) runner_builder" where
  "with_host h b = b\<lparr>rb_host := Some h\<rparr>"

definition with_adapters :: "'w adapter_registry \<Rightarrow> ('s, 't, 'w) runner_builder \<Rightarrow> ('s, 't, 'w) runner_builder" where
  "with_adapters r b = b\<lparr>rb_adapters := Some r\<rparr>"

definition with_policy :: "policy \<Rightarrow> ('s, 't, 'w) runner_builder \<Rightarrow> ('s, 't, 'w) runner_builder" where
  "with_policy p b = b\<lparr>rb_policy := Some p\<rparr>"

definition with_flow :: "flow_definition \<Rightarrow> ('s, 't, 'w) runner_builder \<Rightarrow> ('s, 't, 'w) runner_builder" where
  "with_flow d b = b\<lparr>rb_flows := rb_flows b @ [d]\<rparr>"

definition build_runner ::
  "'w platform \<Rightarrow> ('s, 't, 'w) runner_builder \<Rightarrow> runner_error + ('s, 't, 'w) state_machine" where
  "build_runner pf b =
     rbind (ok_or (PolicyErr ''host bundle missing'') (rb_host b)) (\<lambda>host.
       let adapters = (case rb_adapters b of None \<Rightarrow> [] | Some r \<Rightarrow> r);
           p = (case rb_policy b of None \<Rightarrow> policy_default | Some q \<Rightarrow> q)
       in Inr (fold register_flow (rb_flows b) (state_machine_new host adapters p pf)))"


subsection \<open>The flows of a pack\<close>

text \<open>\<open>build_flow_definitions\<close> of \<open>engine/runtime.rs\<close>: each flow of a pack is one call of the pack adapter.\<close>

record flow_descriptor =
  ds_id :: string
  ds_pack_id :: string
  ds_version :: string
  ds_description :: "string option"

definition pack_flow_adapter :: string where
  "pack_flow_adapter = ''pack_flow''"

definition build_flow_definition :: "flow_descriptor \<Rightarrow> flow_definition" where
  "build_flow_definition d =
     \<lparr>fd_summary =
        \<lparr>fs_pack_id = ds_pack_id d, fs_id = ds_id d,
         fs_name = (case ds_description d of None \<Rightarrow> ds_id d | Some t \<Rightarrow> t),
         fs_version = ds_version d, fs_description = ds_description d\<rparr>,
      fd_schema = json_obj [(''type'', JString ''object'')],
      fd_steps = [Adapter \<lparr>ac_adapter = pack_flow_adapter, ac_operation = ds_id d,
        ac_payload = JString payload_from_last_input\<rparr>]\<rparr>"

definition build_flow_definitions :: "flow_descriptor list \<Rightarrow> flow_definition list" where
  "build_flow_definitions = map build_flow_definition"

subsection \<open>Where a turn stops\<close>

definition is_adapter :: "flow_step \<Rightarrow> bool" where
  "is_adapter st = (case st of Adapter _ \<Rightarrow> True | _ \<Rightarrow> False)"

text \<open>The inputs a list of steps asks for, in order, up to the first completion.\<close>

fun awaited :: "flow_step list \<Rightarrow> string list" where
  "awaited [] = []"
| "awaited (Adapter _ # sts) = awaited sts"
| "awaited (AwaitInput r # sts) = r # awaited sts"
| "awaited (Complete _ # sts) = []"

definition status_of :: "json \<Rightarrow> json option" where
  "status_of v = json_get ''status'' v"

lemma status_of_outcomes [simp]:
  "status_of (done_outcome r) = Some (JString ''done'')"
  "status_of (complete_outcome r) = Some (JString ''done'')"
  "status_of (pending_outcome reason l) = Some (JString ''pending'')"
  "json_get ''reason'' (pending_outcome reason l) = Some (JString reason)"
  "status_of (json_obj [(''status'', JString ''done'')]) = Some (JString ''done'')"
  by (auto simp: status_of_def done_outcome_def complete_outcome_def pending_outcome_def json_obj_def Let_def
      split: option.splits)

text \<open>
  What a run from position \<open>p\<close> leaves behind: at a step that waits, the session waits there and the outcome
  asks for it; otherwise the session is at the end.
\<close>

definition stopped :: "flow_step list \<Rightarrow> nat \<Rightarrow> json \<Rightarrow> session_snapshot \<Rightarrow> bool" where
  "stopped sts p out sn \<longleftrightarrow>
     (case awaited (drop p sts) of
        r # rs \<Rightarrow>
          (let q = cu_position (sn_cursor sn) in
           q < length sts \<and> sts ! q = AwaitInput r \<and> awaited (drop (Suc q) sts) = rs \<and> sn_waiting sn \<noteq> None \<and>
           status_of out = Some (JString ''pending'') \<and> json_get ''reason'' out = Some (JString r) \<and>
           sn_last_outcome sn = Some out)
      | [] \<Rightarrow>
          cu_position (sn_cursor sn) = length sts \<and> sn_waiting sn = None \<and>
          (p < length sts \<longrightarrow> status_of out = Some (JString ''done'') \<and> sn_last_outcome sn = Some out))"

lemma run_steps_adapter:
  assumes "cu_position (sn_cursor sn) < length (fd_steps flow)"
    and "fd_steps flow ! cu_position (sn_cursor sn) = Adapter call"
    and "run_steps m flow tenant sn nodes w = (Inr (out, sn'), w')"
  obtains outcome flow_nodes sn1 w1 where
    "execute_adapter_step m flow tenant call sn w = (Inr ((outcome, flow_nodes), sn1), w1)"
    and "run_steps m flow tenant (sn1\<lparr>sn_last_outcome := Some outcome\<rparr>) (extend_nodes nodes flow_nodes) w1 =
      (Inr (out, sn'), w')"
  using assms by (auto simp: run_steps.simps [of m flow tenant sn] split: prod.splits sum.splits)

lemma run_steps_halt:
  assumes "\<not> is_adapter (fd_steps flow ! cu_position (sn_cursor sn)) \<or> length (fd_steps flow) \<le> cu_position (sn_cursor sn)"
    and "run_steps m flow tenant sn nodes w = (Inr ((out, nodes'), sn'), w')"
  shows "sn_key sn' = sn_key sn" and "sn_revision sn' = sn_revision sn" and "sn_ttl sn' = sn_ttl sn"
    and "sn_outbox sn' = sn_outbox sn" and "cu_outbox_seq (sn_cursor sn') = cu_outbox_seq (sn_cursor sn)"
    and "sn_state sn' = sn_state sn" and "nodes' = nodes" and "w' = w"
    and "cu_position (sn_cursor sn) \<le> length (fd_steps flow) \<Longrightarrow> sn_waiting sn = None \<Longrightarrow>
      stopped (fd_steps flow) (cu_position (sn_cursor sn)) out sn'"
  using assms
  by (auto simp: run_steps.simps [of m flow tenant sn] is_adapter_def Let_def stopped_def Cons_nth_drop_Suc [symmetric]
      split: if_splits flow_step.splits)

text \<open>Induction over the steps of a run that succeeds.\<close>

lemma run_steps_ok_induct [consumes 1, case_names halt adapter]:
  assumes "run_steps m flow tenant sn nodes w = (Inr ((out, nodes'), sn'), w')"
    and "\<And>sn nodes w. \<not> is_adapter (fd_steps flow ! cu_position (sn_cursor sn)) \<or>
        length (fd_steps flow) \<le> cu_position (sn_cursor sn) \<Longrightarrow>
      run_steps m flow tenant sn nodes w = (Inr ((out, nodes'), sn'), w') \<Longrightarrow> P sn nodes w"
    and "\<And>sn nodes w call outcome flow_nodes sn1 w1.
      cu_position (sn_cursor sn) < length (fd_steps flow) \<Longrightarrow>
      fd_steps flow ! cu_position (sn_cursor sn) = Adapter call \<Longrightarrow>
      execute_adapter_step m flow tenant call sn w = (Inr ((outcome, flow_nodes), sn1), w1) \<Longrightarrow>
      run_steps m flow tenant (sn1\<lparr>sn_last_outcome := Some outcome\<rparr>) (extend_nodes nodes flow_nodes) w1 =
        (Inr ((out, nodes'), sn'), w') \<Longrightarrow>
      P (sn1\<lparr>sn_last_outcome := Some outcome\<rparr>) (extend_nodes nodes flow_nodes) w1 \<Longrightarrow> P sn nodes w"
  shows "P sn nodes w"
  using assms
proof (induction m flow tenant sn nodes w rule: run_steps.induct)
  case (1 m flow tenant sn nodes w)
  let ?p = "cu_position (sn_cursor sn)" and ?sts = "fd_steps flow"
  show ?case
  proof (cases "?p < length ?sts \<and> is_adapter (?sts ! ?p)")
    case False
    then show ?thesis using "1.prems"(1,2) by auto
  next
    case True
    then obtain call where call: "?sts ! ?p = Adapter call" by (auto simp: is_adapter_def split: flow_step.splits)
    from True obtain outcome flow_nodes sn1 w1 where
      ex: "execute_adapter_step m flow tenant call sn w = (Inr ((outcome, flow_nodes), sn1), w1)"
      and go: "run_steps m flow tenant (sn1\<lparr>sn_last_outcome := Some outcome\<rparr>) (extend_nodes nodes flow_nodes) w1 =
        (Inr ((out, nodes'), sn'), w')"
      using run_steps_adapter [OF _ call "1.prems"(1)] by metis
    have "P (sn1\<lparr>sn_last_outcome := Some outcome\<rparr>) (extend_nodes nodes flow_nodes) w1"
      by (rule "1.IH" [OF _ call ex [symmetric] refl refl refl go "1.prems"(2,3)]) (use True in simp_all)
    with True show ?thesis by (blast intro: "1.prems"(3) [OF _ call ex go])
  qed
qed

lemma run_steps_keeps:
  assumes "run_steps m flow tenant sn nodes w = (Inr ((out, nodes'), sn'), w')"
  shows "sn_key sn' = sn_key sn \<and> sn_revision sn' = sn_revision sn \<and> sn_ttl sn' = sn_ttl sn"
  using assms
proof (induction rule: run_steps_ok_induct)
  case (halt sn nodes w)
  from run_steps_halt(1-3) [OF halt] show ?case by simp
next
  case (adapter sn nodes w call outcome flow_nodes sn1 w1)
  with execute_adapter_step_ok [OF adapter(3)] show ?case by simp
qed

lemma run_steps_stops:
  assumes "run_steps m flow tenant sn nodes w = (Inr ((out, nodes'), sn'), w')"
    and "cu_position (sn_cursor sn) \<le> length (fd_steps flow)" and "sn_waiting sn = None"
  shows "stopped (fd_steps flow) (cu_position (sn_cursor sn)) out sn'"
  using assms
proof (induction rule: run_steps_ok_induct)
  case (halt sn nodes w)
  from run_steps_halt(9) [OF halt(1,2)] halt(3,4) show ?case .
next
  case (adapter sn nodes w call outcome flow_nodes sn1 w1)
  let ?p = "cu_position (sn_cursor sn)" and ?sts = "fd_steps flow"
  note ok = execute_adapter_step_ok [OF adapter(3)]
  have "stopped ?sts (Suc ?p) out sn'" using adapter ok by simp
  moreover have "awaited (drop ?p ?sts) = awaited (drop (Suc ?p) ?sts)"
    using adapter(1,2) by (simp add: Cons_nth_drop_Suc [symmetric])
  moreover have "status_of out = Some (JString ''done'') \<and> sn_last_outcome sn' = Some out" if "Suc ?p = length ?sts"
    using that adapter(4) ok by (auto simp: run_steps.simps [of m flow tenant "sn1\<lparr>sn_last_outcome := Some outcome\<rparr>"])
  ultimately show ?case using adapter(1) by (auto simp: stopped_def split: list.splits)
qed

end
