(* ===== verification/Flow_Turns.thy ===== *)
theory Flow_Turns
  imports Flow_Machine
begin

section \<open>Turns of the flow runner over any session host\<close>

text \<open>
  The outbox of a session (what a session reaches, and that its lookup never finds anything), and the
  composition of a turn over the contract \<open>session_host\<close>: what a turn loads, what it commits, and a whole
  conversation of turns.
\<close>

subsection \<open>The outbox\<close>

text \<open>What holds of every session of a flow: the outbox has entries for the numbers already used only.\<close>

definition session_wf :: "flow_definition \<Rightarrow> session_snapshot \<Rightarrow> bool" where
  "session_wf flow sn \<longleftrightarrow>
     cu_outbox_seq (sn_cursor sn) \<le> cu_position (sn_cursor sn) \<and>
     cu_position (sn_cursor sn) \<le> length (fd_steps flow) \<and>
     (\<forall>q h. hget (sn_outbox sn) (q, h) \<noteq> None \<longrightarrow> q < cu_outbox_seq (sn_cursor sn))"

abbreviation same_but_outbox :: "session_snapshot \<Rightarrow> session_snapshot \<Rightarrow> bool" where
  "same_but_outbox sn sn2 \<equiv> sn\<lparr>sn_outbox := []\<rparr> = sn2\<lparr>sn_outbox := []\<rparr>"

lemma same_but_outboxD:
  assumes "same_but_outbox sn sn2"
  shows "sn_cursor sn2 = sn_cursor sn" and "sn_state sn2 = sn_state sn" and "sn_last_outcome sn2 = sn_last_outcome sn"
    and "sn_waiting sn2 = sn_waiting sn" and "sn_key sn2 = sn_key sn" and "sn_revision sn2 = sn_revision sn"
    and "sn_ttl sn2 = sn_ttl sn" and "sn_session_id sn2 = sn_session_id sn"
  using assms by (cases sn; cases sn2; simp)+

lemma outbox_outcome_swap: "sn\<lparr>sn_last_outcome := v, sn_outbox := b\<rparr> = sn\<lparr>sn_outbox := b, sn_last_outcome := v\<rparr>"
  by (rule session_snapshot.equality) simp_all

text \<open>Two results that differ in the outbox of the session only.\<close>

definition agree ::
  "(runner_error + (json \<times> node_map) \<times> session_snapshot) \<times> 'w \<Rightarrow>
   (runner_error + (json \<times> node_map) \<times> session_snapshot) \<times> 'w \<Rightarrow> bool" where
  "agree r r2 \<longleftrightarrow>
     (case r of
        (Inl e, w') \<Rightarrow> r2 = (Inl e, w')
      | (Inr (out, sn'), w') \<Rightarrow> \<exists>sn2'. r2 = (Inr (out, sn2'), w') \<and> same_but_outbox sn' sn2')"

lemma agree_Inl [simp]: "agree (Inl e, w) (Inl e, w)"
  by (simp add: agree_def)

lemma session_wf_new: "session_wf flow (snapshot_new k i)"
  by (simp add: session_wf_def snapshot_new_def)

lemma session_wf_begin: "length (fd_steps flow) \<le> u64_max \<Longrightarrow> session_wf flow sn \<Longrightarrow> session_wf flow (step_begin flow input sn)"
  by (auto simp: session_wf_def step_begin_def update_state_input_def Let_def sat_add64_def)

text \<open>An adapter step of such a session is the call: the outbox has no entry with the next number.\<close>

lemma execute_adapter_step_calls:
  assumes "session_wf flow sn"
  shows "execute_adapter_step m flow tenant call sn =
    sbind (sres (ok_or (AdapterMissing (ac_adapter call)) (hget (sm_adapters m) (ac_adapter call)))) (\<lambda>adapter.
      let resolved = resolve_adapter_payload (ac_payload call) sn in
      sbind (sres (map_err SerializationErr (pf_to_vec (sm_platform m) resolved))) (\<lambda>payload_bytes.
        if length payload_bytes > po_max_payload_bytes (sm_policy m)
        then sfail (policy_violation (''payload exceeds max size '' @
               show_nat (po_max_payload_bytes (sm_policy m)) @ '' bytes''))
        else call_adapter m flow tenant call adapter resolved
          (stable_hash (sm_platform m) (cu_outbox_seq (sn_cursor sn)) payload_bytes) sn))"
proof -
  have "hget (sn_outbox sn) (cu_outbox_seq (sn_cursor sn), h) = None" for h
    using assms unfolding session_wf_def by (metis less_irrefl)
  then show ?thesis unfolding execute_adapter_step_def by (simp add: Let_def cong: if_cong)
qed

lemma call_adapter_same:
  assumes "same_but_outbox sn sn2"
  shows "agree (call_adapter m flow tenant call adapter resolved hash sn w)
    (call_adapter m flow tenant call adapter resolved hash sn2 w)"
  using assms
  by (auto simp: agree_def call_adapter_def sbind_def Let_def same_but_outboxD [OF assms] update_state_adapter_def advance_cursor_def
      split: prod.splits sum.splits)

lemma execute_adapter_step_same:
  assumes "session_wf flow sn" and "session_wf flow sn2" and "same_but_outbox sn sn2"
  shows "agree (execute_adapter_step m flow tenant call sn w) (execute_adapter_step m flow tenant call sn2 w)"
proof -
  note eqs = same_but_outboxD [OF assms(3)]
  have resolved: "resolve_adapter_payload v sn2 = resolve_adapter_payload v sn" for v
    by (simp add: resolve_adapter_payload_def eqs)
  show ?thesis
    unfolding execute_adapter_step_calls [OF assms(1)] execute_adapter_step_calls [OF assms(2)] resolved eqs Let_def
    by (auto simp: sbind_def ok_or_def map_err_def call_adapter_same [OF assms(3)] split: option.splits sum.splits)
qed

lemma execute_adapter_step_wf:
  assumes "execute_adapter_step m flow tenant call sn w = (Inr ((outcome, nodes), sn'), w')" and "session_wf flow sn"
    and "cu_position (sn_cursor sn) < length (fd_steps flow)" and "length (fd_steps flow) \<le> u64_max"
  shows "session_wf flow sn'"
proof -
  have seq: "cu_outbox_seq (sn_cursor sn') = Suc (cu_outbox_seq (sn_cursor sn))"
    using execute_adapter_step_ok(2) [OF assms(1)] assms by (simp add: session_wf_def sat_add64_def)
  have "q < cu_outbox_seq (sn_cursor sn')" if "hget (sn_outbox sn') (q, h) \<noteq> None" for q h
    using that execute_adapter_step_outbox(1) [OF assms(1)] assms(2) unfolding seq session_wf_def
    by (cases "hget (sn_outbox sn) (q, h)") (auto simp: less_Suc_eq dom_def)
  then show ?thesis using execute_adapter_step_ok(1) [OF assms(1)] assms(2,3) seq by (simp add: session_wf_def)
qed

lemma run_steps_wf:
  assumes "run_steps m flow tenant sn nodes w = (Inr ((out, nodes'), sn'), w')" and "session_wf flow sn"
    and "length (fd_steps flow) \<le> u64_max"
  shows "session_wf flow sn'"
  using assms
proof (induction rule: run_steps_ok_induct)
  case (halt sn nodes w)
  have "cu_position (sn_cursor sn') = cu_position (sn_cursor sn) \<or> cu_position (sn_cursor sn') = length (fd_steps flow)"
    using halt(1,2) by (auto simp: run_steps.simps [of m flow tenant sn] is_adapter_def Let_def
        split: if_splits flow_step.splits)
  with run_steps_halt(4,5) [OF halt(1,2)] halt(3) show ?case by (auto simp: session_wf_def)
next
  case (adapter sn nodes w call outcome flow_nodes sn1 w1)
  from execute_adapter_step_wf [OF adapter(3) adapter(6) adapter(1) adapter(7)] have "session_wf flow sn1" .
  then have "session_wf flow (sn1\<lparr>sn_last_outcome := Some outcome\<rparr>)" by (simp add: session_wf_def)
  with adapter show ?case by simp
qed

lemma run_steps_same:
  assumes "session_wf flow sn" and "session_wf flow sn2" and "same_but_outbox sn sn2"
    and "length (fd_steps flow) \<le> u64_max"
  shows "agree (run_steps m flow tenant sn nodes w) (run_steps m flow tenant sn2 nodes w)"
  using assms
proof (induction m flow tenant sn nodes w arbitrary: sn2 rule: run_steps.induct)
  case (1 m flow tenant sn nodes w)
  note eqs = same_but_outboxD [OF "1.prems"(3)]
  let ?p = "cu_position (sn_cursor sn)" and ?sts = "fd_steps flow"
  show ?case
  proof (cases "?p < length ?sts \<and> is_adapter (?sts ! ?p)")
    case False
    then show ?thesis using "1.prems"(3)
      by (auto simp: agree_def run_steps.simps [of m flow tenant sn] run_steps.simps [of m flow tenant sn2] eqs is_adapter_def Let_def split: flow_step.splits)
  next
    case True
    then obtain call where call: "?sts ! ?p = Adapter call" by (auto simp: is_adapter_def split: flow_step.splits)
    note same = execute_adapter_step_same [OF "1.prems"(1-3), of m tenant call w]
    show ?thesis
    proof (cases "execute_adapter_step m flow tenant call sn w")
      case (Pair r w1)
      show ?thesis
      proof (cases r)
        case (Inl e)
        with same Pair have ex: "execute_adapter_step m flow tenant call sn w = (Inl e, w1)"
          "execute_adapter_step m flow tenant call sn2 w = (Inl e, w1)"
          by (simp_all add: agree_def)
        have "run_steps m flow tenant sn nodes w = (Inl e, w1)" "run_steps m flow tenant sn2 nodes w = (Inl e, w1)"
          using True call ex eqs(1) by (subst run_steps.simps, simp)+
        then show ?thesis by simp
      next
        case (Inr x)
        then obtain outcome flow_nodes sn1 where x: "r = Inr ((outcome, flow_nodes), sn1)" by (cases x) auto
        with same Pair obtain sn3 where
          ex2: "execute_adapter_step m flow tenant call sn2 w = (Inr ((outcome, flow_nodes), sn3), w1)"
          and sim: "same_but_outbox sn1 sn3" by (auto simp: agree_def)
        from Pair x have ex: "execute_adapter_step m flow tenant call sn w = (Inr ((outcome, flow_nodes), sn1), w1)" by simp
        have pos2: "cu_position (sn_cursor sn2) < length (fd_steps flow)" using True eqs by simp
        have wf1: "session_wf flow (sn1\<lparr>sn_last_outcome := Some outcome\<rparr>)"
          using execute_adapter_step_wf [OF ex "1.prems"(1) _ "1.prems"(4)] True by (simp add: session_wf_def)
        have wf3: "session_wf flow (sn3\<lparr>sn_last_outcome := Some outcome\<rparr>)"
          using execute_adapter_step_wf [OF ex2 "1.prems"(2) pos2 "1.prems"(4)] by (simp add: session_wf_def)
        have sim': "same_but_outbox (sn1\<lparr>sn_last_outcome := Some outcome\<rparr>) (sn3\<lparr>sn_last_outcome := Some outcome\<rparr>)"
          unfolding outbox_outcome_swap using sim by (rule arg_cong)
        have go: "run_steps m flow tenant sn nodes w =
            run_steps m flow tenant (sn1\<lparr>sn_last_outcome := Some outcome\<rparr>) (extend_nodes nodes flow_nodes) w1"
          "run_steps m flow tenant sn2 nodes w =
            run_steps m flow tenant (sn3\<lparr>sn_last_outcome := Some outcome\<rparr>) (extend_nodes nodes flow_nodes) w1"
          using True call ex ex2 eqs 
          by (simp_all add: run_steps.simps [of m flow tenant sn] run_steps.simps [of m flow tenant sn2])
        show ?thesis unfolding go
          by (rule "1.IH" [OF _ call ex [symmetric] refl refl refl wf1 wf3 sim' "1.prems"(4)]) (use True in simp)
      qed
    qed
  qed
qed


subsection \<open>A conversation of turns\<close>

fun run_turns ::
  "('s, 't, 'w) state_machine \<Rightarrow> tenant_ctx \<Rightarrow> string \<Rightarrow> string \<Rightarrow> string option \<Rightarrow> json list \<Rightarrow>
   (('s, 't, 'w) hosts, runner_error, json list) st_res" where
  "run_turns m tenant pack_id flow_id hint [] = sret []"
| "run_turns m tenant pack_id flow_id hint (i # is) =
     sbind (step m tenant pack_id flow_id hint i) (\<lambda>(out, _).
       sbind (run_turns m tenant pack_id flow_id hint is) (\<lambda>outs. sret (out # outs)))"

text \<open>Where the next turn of a session starts, and the inputs it still asks for.\<close>

definition start_at :: "flow_step list \<Rightarrow> session_snapshot \<Rightarrow> nat" where
  "start_at sts sn =
     (let p = cu_position (sn_cursor sn) in
      if sn_waiting sn \<noteq> None \<and> p < length sts \<and> is_await (sts ! p) then Suc p else p)"

definition turn_inv :: "flow_step list \<Rightarrow> string list \<Rightarrow> session_snapshot \<Rightarrow> bool" where
  "turn_inv sts rest sn \<longleftrightarrow>
     start_at sts sn \<le> length sts \<and> awaited (drop (start_at sts sn) sts) = rest \<and>
     (start_at sts sn = length sts \<longrightarrow>
        (case sn_last_outcome sn of None \<Rightarrow> True | Some v \<Rightarrow> status_of v = Some (JString ''done'')))"

text \<open>What a turn answers: the next input the flow asks for, or that it is done.\<close>

definition answers :: "string list \<Rightarrow> json \<Rightarrow> bool" where
  "answers rest out \<longleftrightarrow>
     (case rest of
        r # _ \<Rightarrow> status_of out = Some (JString ''pending'') \<and> json_get ''reason'' out = Some (JString r)
      | [] \<Rightarrow> status_of out = Some (JString ''done''))"

lemma step_begin_simps:
  assumes "length (fd_steps flow) \<le> u64_max"
  shows "cu_position (sn_cursor (step_begin flow input sn)) = start_at (fd_steps flow) sn"
    and "sn_waiting (step_begin flow input sn) = None" and "sn_key (step_begin flow input sn) = sn_key sn"
    and "sn_ttl (step_begin flow input sn) = sn_ttl sn" and "sn_revision (step_begin flow input sn) = sn_revision sn"
    and "sn_last_outcome (step_begin flow input sn) = sn_last_outcome sn"
  using assms by (auto simp: step_begin_def start_at_def update_state_input_def Let_def sat_add64_def)

lemma turn_inv_new: "turn_inv sts (awaited sts) (snapshot_new k i)"
  by (simp add: turn_inv_def start_at_def snapshot_new_def)

lemma snapshot_new_ttl [simp]: "sn_ttl (snapshot_new k i) = 3600 * 1000"
  by (simp add: snapshot_new_def)

lemma turn_inv_revision [simp]: "turn_inv sts rest (sn\<lparr>sn_revision := r\<rparr>) = turn_inv sts rest sn"
  by (simp add: turn_inv_def start_at_def)

text \<open>One turn of the run: the first of the remaining inputs is asked for, the others remain.\<close>

lemma turn_advances:
  assumes run: "run_steps m flow tenant (step_begin flow input sn) [] w = (Inr ((out, nodes), sn'), w')"
    and inv: "turn_inv (fd_steps flow) rest sn" and len: "length (fd_steps flow) \<le> u64_max"
    and last: "fd_steps flow \<noteq> [] \<Longrightarrow> \<not> is_await (last (fd_steps flow))"
  shows "answers rest out" and "turn_inv (fd_steps flow) (tl rest) sn'"
proof -
  let ?sts = "fd_steps flow" and ?p = "start_at (fd_steps flow) sn"
  note starts = step_begin_simps [OF len, of input sn]
  from inv have p: "?p \<le> length ?sts" and rest: "awaited (drop ?p ?sts) = rest" by (auto simp: turn_inv_def)
  from run_steps_stops [OF run] p starts(1,2) have stop: "stopped ?sts ?p out sn'" by simp
  have stay: "status_of out = Some (JString ''done'') \<and>
      (case sn_last_outcome sn' of None \<Rightarrow> True | Some v \<Rightarrow> status_of v = Some (JString ''done''))" if "rest = []"
  proof (cases "?p = length ?sts")
    case True
    with run starts(1,6) inv show ?thesis
      by (auto simp: run_steps.simps [of m flow tenant "step_begin flow input sn"] turn_inv_def split: option.splits)
  next
    case False
    with stop p rest that show ?thesis by (auto simp: stopped_def)
  qed
  show "answers rest out" using stop stay rest by (cases rest) (auto simp: answers_def stopped_def Let_def)
  show "turn_inv ?sts (tl rest) sn'"
  proof (cases rest)
    case Nil
    with stop rest stay show ?thesis by (auto simp: turn_inv_def start_at_def stopped_def Let_def)
  next
    case (Cons r rs)
    define q where "q = cu_position (sn_cursor sn')"
    from stop rest Cons have q: "q < length ?sts" "?sts ! q = AwaitInput r" "awaited (drop (Suc q) ?sts) = rs"
      "sn_waiting sn' \<noteq> None" by (auto simp: stopped_def Let_def q_def)
    then have start: "start_at ?sts sn' = Suc q" by (simp add: start_at_def is_await_def q_def)
    have "Suc q \<noteq> length ?sts"
    proof
      assume end_step: "Suc q = length ?sts"
      have ne: "?sts \<noteq> []" using q(1) by auto
      have "last ?sts = ?sts ! q" using last_conv_nth [OF ne] end_step [symmetric] by simp
      with ne last q(2) show False by (simp add: is_await_def)
    qed
    with q start Cons show ?thesis by (simp add: turn_inv_def)
  qed
qed

context session_host
begin

text \<open>The host keeps every session under its own key.\<close>

definition keyed :: "'s \<Rightarrow> bool" where
  "keyed s \<longleftrightarrow> (\<forall>k e. stored s k = Some e \<longrightarrow> sn_key (ss_snapshot e) = k)"

definition live :: "nat \<Rightarrow> 's \<Rightarrow> session_key \<Rightarrow> bool" where
  "live now s k \<longleftrightarrow> (case stored s k of None \<Rightarrow> False | Some e \<Rightarrow> now \<le> ss_expires_at e)"

lemma step_load_ok:
  assumes "step_load m tenant pack_id flow_id hint (s, t, w) = (Inr (flow, sn), (s', t', w'))"
    and "invar s" and "hb_session (sm_host m) = ops" and "k = session_key_new tenant pack_id flow_id hint"
  shows "hget (sm_flows m) (pack_id, flow_id) = Some flow" and "invar s'" and "t' = t"
    and "live (pf_now (sm_platform m) w) s k \<Longrightarrow> stored s' = stored s \<and> w' = w \<and>
      (\<exists>e. stored s k = Some e \<and> sn = (ss_snapshot e)\<lparr>sn_revision := ss_revision e\<rparr>)"
    and "\<not> live (pf_now (sm_platform m) w) s k \<Longrightarrow> stored s' = (stored s)(k := None) \<and> (\<exists>i. sn = snapshot_new k i)"
proof -
  let ?now = "pf_now (sm_platform m) w"
  from assms(1) obtain found s1 where flow: "hget (sm_flows m) (pack_id, flow_id) = Some flow"
    and got: "so_get ops ?now k s = (Inr found, s1)"
    and same: "s' = s1" "t' = t"
    and rest: "case found of Some sn' \<Rightarrow> sn' = sn \<and> w' = w | None \<Rightarrow> fresh_session (sm_platform m) k w = (Inr sn, w')"
    unfolding step_load_def on_sessions_def on_outer_def Let_def assms(3) assms(4) [symmetric]
    by (auto elim!: sbind_eq_InrE split: prod.splits option.splits)
  show "hget (sm_flows m) (pack_id, flow_id) = Some flow" by (rule flow)
  have alive: "found = Some ((ss_snapshot e)\<lparr>sn_revision := ss_revision e\<rparr>) \<and> invar s1 \<and> stored s1 = stored s"
    if "stored s k = Some e" "?now \<le> ss_expires_at e" for e
    using get_live [OF assms(2) that] got by auto
  have gone: "found = None \<and> invar s1 \<and> stored s1 = (stored s)(k := None)" if "\<not> live ?now s k"
    using get_gone [OF assms(2), where k = k and now = ?now] got that by (auto simp: live_def split: option.splits)
  have inv1: "invar s1" using alive gone by (cases "live ?now s k") (auto simp: live_def split: option.splits)
  show "invar s'" and "t' = t" using inv1 same by auto
  show "stored s' = stored s \<and> w' = w \<and> (\<exists>e. stored s k = Some e \<and> sn = (ss_snapshot e)\<lparr>sn_revision := ss_revision e\<rparr>)"
    if "live ?now s k"
    using that alive rest same by (auto simp: live_def split: option.splits)
  show "stored s' = (stored s)(k := None) \<and> (\<exists>i. sn = snapshot_new k i)" if "\<not> live ?now s k"
    using gone [OF that] rest same
    by (auto simp: fresh_session_def split: option.splits prod.splits)
qed

lemma step_commit_ok:
  assumes "step_commit m new expected sn (s, t, w) = (Inr (), (s', t', w'))" and "invar s"
    and "hb_session (sm_host m) = ops"
  shows "\<not> new \<Longrightarrow> \<exists>e. stored s (sn_key sn) = Some e \<and> ss_revision e = expected" and "invar s'" and "w' = w"
    and "stored s' = (stored s)(sn_key sn \<mapsto>
      (let r = (if new then 0 else sat_add64 expected 1) in
       \<lparr>ss_revision = r, ss_snapshot = sn\<lparr>sn_revision := r\<rparr>, ss_expires_at = pf_now (sm_platform m) w + sn_ttl sn\<rparr>))"
proof -
  let ?now = "pf_now (sm_platform m) w"
  have parts: "if new then so_put ops ?now sn s = (Inr (), s') \<and> w' = w
      else so_update_cas ops ?now sn expected s = (Inr True, s') \<and> w' = w"
    using assms(1) unfolding step_commit_def on_state_def on_sessions_def assms(3)
    by (auto elim!: sbind_eq_InrE split: prod.splits if_splits)
  show "w' = w" using parts by (auto split: if_splits)
  have match: "\<exists>e. stored s (sn_key sn) = Some e \<and> ss_revision e = expected" if "\<not> new"
    using that parts cas_other [OF assms(2), where sn = sn and expected = expected and now = ?now]
    by (cases "stored s (sn_key sn)") auto
  then show "\<not> new \<Longrightarrow> \<exists>e. stored s (sn_key sn) = Some e \<and> ss_revision e = expected" .
  show "invar s'" and "stored s' = (stored s)(sn_key sn \<mapsto>
      (let r = (if new then 0 else sat_add64 expected 1) in
       \<lparr>ss_revision = r, ss_snapshot = sn\<lparr>sn_revision := r\<rparr>, ss_expires_at = ?now + sn_ttl sn\<rparr>))"
    using parts match put [OF assms(2), where now = ?now and sn = sn]
      cas_match [OF assms(2), where sn = sn and expected = expected and now = ?now]
    by (cases new; fastforce simp: Let_def)+
qed

text \<open>Two commits over the same revision: after the first the second is refused, and the sessions stay.\<close>

lemma step_commit_once:
  assumes "step_commit m new r sn (s, t, w) = (Inr (), (s1, t1, w1))" and "invar s"
    and "hb_session (sm_host m) = ops" and "invar s2" and "stored s2 (sn_key sn) = stored s1 (sn_key sn)"
    and "r < u64_max" and "\<not> new" and "sn_key sn2 = sn_key sn"
  shows "fst (step_commit m False r sn2 (s2, t2, w2)) \<noteq> Inr ()"
    and "stored (fst (snd (step_commit m False r sn2 (s2, t2, w2)))) = stored s2"
proof -
  have "stored s2 (sn_key sn2) \<noteq> None \<and> ss_revision (the (stored s2 (sn_key sn2))) \<noteq> r"
    using step_commit_ok(4) [OF assms(1-3)] assms(5-8) by (auto simp: Let_def sat_add64_def)
  then have "\<exists>s'. so_update_cas ops now sn2 r s2 = (Inr False, s') \<and> invar s' \<and> stored s' = stored s2" for now
    using cas_other [OF assms(4), where sn = sn2 and expected = r and now = now] by (auto split: option.splits)
  then obtain f where f: "\<And>now. so_update_cas ops now sn2 r s2 = (Inr False, f now)" and "\<And>now. stored (f now) = stored s2"
    by metis
  then show "fst (step_commit m False r sn2 (s2, t2, w2)) \<noteq> Inr ()"
    and "stored (fst (snd (step_commit m False r sn2 (s2, t2, w2)))) = stored s2"
    by (auto simp: step_commit_def on_state_def on_sessions_def sbind_def assms(3) split: prod.splits sum.splits)
qed

lemma step_ok:
  assumes "step m tenant pack_id flow_id hint input (s, t, w) = (Inr (out, nodes), (s', t', w'))"
    and "invar s" and "keyed s" and "hb_session (sm_host m) = ops" and "k = session_key_new tenant pack_id flow_id hint"
    and "hget (sm_flows m) (pack_id, flow_id) = Some flow" and len: "length (fd_steps flow) \<le> u64_max"
  obtains sn sn' w1 r where
    "if live (pf_now (sm_platform m) w) s k
     then \<exists>e. stored s k = Some e \<and> sn = (ss_snapshot e)\<lparr>sn_revision := ss_revision e\<rparr>
     else \<exists>i. sn = snapshot_new k i"
    "run_steps m flow tenant (step_begin flow input sn) [] w1 = (Inr ((out, nodes), sn'), w')"
    "invar s'" "keyed s'"
    "stored s' k = Some \<lparr>ss_revision = r, ss_snapshot = sn'\<lparr>sn_revision := r\<rparr>,
       ss_expires_at = pf_now (sm_platform m) w' + sn_ttl sn\<rparr>"
    "\<And>j. j \<noteq> k \<Longrightarrow> stored s' j = stored s j"
    "sn_ttl sn' = sn_ttl sn"
proof -
  from assms(1) obtain flow1 sn s1 t1 w1 sn' w2 where
    load: "step_load m tenant pack_id flow_id hint (s, t, w) = (Inr (flow1, sn), (s1, t1, w1))"
    and run: "run_steps m flow1 tenant (step_begin flow1 input sn) [] w1 = (Inr ((out, nodes), sn'), w2)"
    and commit: "step_commit m (is_new sn) (sn_revision sn) sn' (s1, t1, w2) = (Inr (), (s', t', w'))"
    unfolding step_def by (auto simp: on_outer_def elim!: sbind_eq_InrE split: prod.splits)
  note loaded = step_load_ok [OF load assms(2,4,5)]
  have flow: "flow1 = flow" using loaded(1) assms(6) by simp
  note committed = step_commit_ok [OF commit loaded(2) assms(4)]
  note kept = run_steps_keeps [OF run] step_begin_simps [OF len, of input sn]
  have key: "sn_key sn = k" and others: "\<And>j. j \<noteq> k \<Longrightarrow> stored s1 j = stored s j"
    using loaded(4,5) assms(3)
    by (cases "live (pf_now (sm_platform m) w) s k"; auto simp: keyed_def snapshot_new_def)+
  have st: "stored s' = (stored s1)(k \<mapsto>
      (let r = (if is_new sn then 0 else sat_add64 (sn_revision sn) 1) in
       \<lparr>ss_revision = r, ss_snapshot = sn'\<lparr>sn_revision := r\<rparr>, ss_expires_at = pf_now (sm_platform m) w' + sn_ttl sn\<rparr>))"
    using committed(3,4) kept key flow by (simp add: Let_def)
  have "keyed s1"
    using loaded(4,5) assms(3) by (cases "live (pf_now (sm_platform m) w) s k") (auto simp: keyed_def)
  then have "keyed s'" using st kept key flow by (auto simp: keyed_def Let_def)
  moreover have "if live (pf_now (sm_platform m) w) s k
     then \<exists>e. stored s k = Some e \<and> sn = (ss_snapshot e)\<lparr>sn_revision := ss_revision e\<rparr>
     else \<exists>i. sn = snapshot_new k i" using loaded(4,5) by auto
  ultimately show thesis
    using that [of sn w1 sn' "if is_new sn then 0 else sat_add64 (sn_revision sn) 1"] run committed(2,3) st others kept flow
    by (simp add: Let_def)
qed

text \<open>A session of the flow as the host has it, with the inputs it still asks for.\<close>

definition session_at :: "nat \<Rightarrow> flow_step list \<Rightarrow> 's \<Rightarrow> session_key \<Rightarrow> string list \<Rightarrow> bool" where
  "session_at until sts s k rest \<longleftrightarrow>
     (case stored s k of
        None \<Rightarrow> rest = awaited sts
      | Some e \<Rightarrow> turn_inv sts rest (ss_snapshot e) \<and> sn_ttl (ss_snapshot e) = 3600 * 1000 \<and> until \<le> ss_expires_at e)"

lemma step_answers:
  assumes step: "step m tenant pack_id flow_id hint input (s, t, w) = (Inr (out, nodes), (s', t', w'))"
    and host: "invar s" "keyed s" "hb_session (sm_host m) = ops"
    and flow: "hget (sm_flows m) (pack_id, flow_id) = Some flow" "length (fd_steps flow) \<le> u64_max"
      "fd_steps flow \<noteq> [] \<Longrightarrow> \<not> is_await (last (fd_steps flow))"
    and clock: "\<And>v. pf_now (sm_platform m) v \<le> t0 + 3600 * 1000" "\<And>v. t0 \<le> pf_now (sm_platform m) v"
    and at: "session_at (t0 + 3600 * 1000) (fd_steps flow) s k rest"
    and k: "k = session_key_new tenant pack_id flow_id hint"
  shows "answers rest out" and "invar s'" and "keyed s'"
    and "session_at (t0 + 3600 * 1000) (fd_steps flow) s' k (tl rest)"
proof -
  let ?now = "pf_now (sm_platform m) w"
  from step_ok [OF step host k flow(1,2)] obtain sn sn' w1 r where
    load: "if live ?now s k then \<exists>e. stored s k = Some e \<and> sn = (ss_snapshot e)\<lparr>sn_revision := ss_revision e\<rparr>
      else \<exists>i. sn = snapshot_new k i"
    and run: "run_steps m flow tenant (step_begin flow input sn) [] w1 = (Inr ((out, nodes), sn'), w')"
    and s': "invar s'" "keyed s'"
    and st: "stored s' k = Some \<lparr>ss_revision = r, ss_snapshot = sn'\<lparr>sn_revision := r\<rparr>,
       ss_expires_at = pf_now (sm_platform m) w' + sn_ttl sn\<rparr>"
    and ttl: "sn_ttl sn' = sn_ttl sn"
    by metis
  have "live ?now s k" if "stored s k = Some e" for e
    using that at clock(1) [of w] by (simp add: live_def session_at_def)
  with load at have inv: "turn_inv (fd_steps flow) rest sn \<and> sn_ttl sn = 3600 * 1000"
    by (cases "stored s k") (auto simp: session_at_def live_def turn_inv_new)
  from turn_advances [OF run _ flow(2,3)] inv
  show "answers rest out" and "session_at (t0 + 3600 * 1000) (fd_steps flow) s' k (tl rest)"
    using st ttl clock(2) [of w'] by (auto simp: session_at_def)
  show "invar s'" and "keyed s'" by (fact s')+
qed

lemma turns_answer:
  assumes "run_turns m tenant pack_id flow_id hint inputs (s, t, w) = (Inr outs, h')"
    and "invar s" "keyed s" and ops: "hb_session (sm_host m) = ops"
    and flow: "hget (sm_flows m) (pack_id, flow_id) = Some flow" "length (fd_steps flow) \<le> u64_max"
      "fd_steps flow \<noteq> [] \<Longrightarrow> \<not> is_await (last (fd_steps flow))"
    and clock: "\<And>v. pf_now (sm_platform m) v \<le> t0 + 3600 * 1000" "\<And>v. t0 \<le> pf_now (sm_platform m) v"
    and "session_at (t0 + 3600 * 1000) (fd_steps flow) s (session_key_new tenant pack_id flow_id hint) rest"
  shows "length outs = length inputs \<and> (\<forall>i<length outs. answers (drop i rest) (outs ! i))"
  using assms(1-3,10)
proof (induction inputs arbitrary: s t w rest outs)
  case Nil
  then show ?case by simp
next
  case (Cons input inputs)
  from Cons.prems(1) obtain out nodes s1 t1 w1 outs1 where
    first: "step m tenant pack_id flow_id hint input (s, t, w) = (Inr (out, nodes), (s1, t1, w1))"
    and more: "run_turns m tenant pack_id flow_id hint inputs (s1, t1, w1) = (Inr outs1, h')"
    and outs: "outs = out # outs1"
    by (auto elim!: sbind_eq_InrE split: prod.splits)
  note turn = step_answers [OF first Cons.prems(2,3) ops flow clock Cons.prems(4) refl]
  from Cons.IH [OF more turn(2-4)] turn(1) outs show ?case
    by (auto simp: nth_Cons drop_Suc split: nat.split)
qed

end


subsection \<open>Turns that succeed\<close>

text \<open>
  What a turn needs to succeed: a flow within the budget, adapters that are registered and answer, payloads that
  can be written and are small enough, and telemetry and state hosts that accept.
\<close>

definition ready :: "('s, 't, 'w) state_machine \<Rightarrow> flow_definition \<Rightarrow> bool" where
  "ready m flow \<longleftrightarrow>
     length (fd_steps flow) \<le> po_max_egress_adapters (sm_policy m) \<and>
     (\<forall>call. Adapter call \<in> set (fd_steps flow) \<longrightarrow>
        (\<exists>adapter. hget (sm_adapters m) (ac_adapter call) = Some adapter \<and> (\<forall>c w. \<exists>v w'. adapter c w = (Inr v, w')))) \<and>
     (\<forall>v. \<exists>b. pf_to_vec (sm_platform m) v = Inr b \<and> length b \<le> po_max_payload_bytes (sm_policy m)) \<and>
     (\<forall>span fs w. \<exists>w'. hb_emit (sm_host m) span fs w = (Inr (), w')) \<and>
     (\<forall>k v t. \<exists>t'. to_set_json (hb_state (sm_host m)) k v t = (Inr (), t'))"

lemma sbind_Inr_exists:
  assumes "\<And>s. \<exists>a s'. f s = (Inr a, s')" and "\<And>a s. \<exists>b s'. g a s = (Inr b, s')"
  shows "\<exists>b s'. sbind f g s = (Inr b, s')"
proof -
  obtain a s' where "f s = (Inr a, s')" using assms(1) by blast
  then show ?thesis using assms(2) [of a s'] by (simp add: sbind_def)
qed

lemma retry_succeeds:
  assumes "\<And>v. \<exists>a v'. op v = (Inr a, v')"
  shows "\<exists>a w'. retry_with_jitter pf p op w = (Inr a, w')"
proof -
  obtain a w' where "op w = (Inr a, w')" using assms by blast
  then show ?thesis by (simp add: retry_with_jitter_def retry_loop.simps [of pf p op])
qed

lemma execute_succeeds:
  assumes "ready m flow" and "Adapter call \<in> set (fd_steps flow)"
  shows "\<exists>r w'. execute_adapter_step m flow tenant call sn w = (Inr r, w')"
proof -
  from assms obtain adapter where adapter: "hget (sm_adapters m) (ac_adapter call) = Some adapter"
    and ok: "\<And>c w. \<exists>v w'. adapter c w = (Inr v, w')" unfolding ready_def by blast
  from assms(1) obtain b where b: "pf_to_vec (sm_platform m) (resolve_adapter_payload (ac_payload call) sn) = Inr b"
    "length b \<le> po_max_payload_bytes (sm_policy m)" unfolding ready_def by blast
  from assms(1) have emit: "\<And>span fs v. \<exists>a w'. hb_emit (sm_host m) span fs v = (Inr a, w')" unfolding ready_def by blast
  have called: "\<exists>r w'. call_adapter m flow tenant call adapter resolved h sn w = (Inr r, w')" for resolved h
    unfolding call_adapter_def Let_def
    by (rule sbind_Inr_exists [OF emit sbind_Inr_exists [OF retry_succeeds [OF ok]]], split prod.split,
        intro allI impI, rule sbind_Inr_exists [OF emit], simp)
  have hit: "\<exists>r w'. sbind (hb_emit (sm_host m) span fs) (\<lambda>_. sret x) w = (Inr r, w')" for span fs and x :: "(json \<times> node_map) \<times> session_snapshot"
    by (intro sbind_Inr_exists emit) simp
  show ?thesis
    unfolding execute_adapter_step_def Let_def using adapter b called hit by (simp del: split_paired_Ex split: option.split)
qed

lemma run_succeeds:
  assumes "ready m flow"
  shows "\<exists>out nodes' sn' w'. run_steps m flow tenant sn nodes w = (Inr ((out, nodes'), sn'), w')"
  using assms
proof (induction m flow tenant sn nodes w rule: run_steps.induct)
  case (1 m flow tenant sn nodes w)
  let ?p = "cu_position (sn_cursor sn)" and ?sts = "fd_steps flow"
  show ?case
  proof (cases "?p < length ?sts \<and> is_adapter (?sts ! ?p)")
    case False
    then show ?thesis
      by (auto simp: run_steps.simps [of m flow tenant sn] is_adapter_def Let_def split: flow_step.splits)
  next
    case True
    then obtain call where call: "?sts ! ?p = Adapter call" by (auto simp: is_adapter_def split: flow_step.splits)
    with True have "Adapter call \<in> set ?sts" by (metis nth_mem)
    from execute_succeeds [OF "1.prems" this] obtain outcome flow_nodes sn1 w1 where
      ex: "execute_adapter_step m flow tenant call sn w = (Inr ((outcome, flow_nodes), sn1), w1)" by fast
    from "1.IH" [OF _ call ex [symmetric] refl refl refl "1.prems"] True call ex show ?thesis
      by (simp add: run_steps.simps [of m flow tenant sn])
  qed
qed

context session_host
begin

lemma step_succeeds:
  assumes "invar s" and "keyed s" and ops: "hb_session (sm_host m) = ops" and "ready m flow"
    and flow: "hget (sm_flows m) (pack_id, flow_id) = Some flow" and len: "length (fd_steps flow) \<le> u64_max"
  shows "\<exists>out nodes h'. step m tenant pack_id flow_id hint input (s, t, w) = (Inr (out, nodes), h')"
proof -
  let ?k = "session_key_new tenant pack_id flow_id hint" and ?now = "pf_now (sm_platform m) w"
  have got: "\<exists>found s1. so_get ops ?now ?k s = (Inr found, s1)"
    using get_live [OF assms(1), where k = ?k and now = ?now] get_gone [OF assms(1), where k = ?k and now = ?now]
    by (cases "live ?now s ?k") (fastforce simp: live_def split: option.splits)+
  have "\<exists>sn s1 t1 w1. step_load m tenant pack_id flow_id hint (s, t, w) = (Inr (flow, sn), (s1, t1, w1))"
  proof -
    from got obtain found s1 where "so_get ops ?now ?k s = (Inr found, s1)" by blast
    moreover have "ensure_policy_budget (sm_policy m) flow = Inr ()"
      using assms(4) by (simp add: ready_def ensure_policy_budget_def)
    moreover obtain sn w1 where "fresh_session (sm_platform m) ?k w = (Inr sn, w1)"
      by (cases "stable_session_id ?k"; cases "generate_session_id (sm_platform m) w") (auto simp: fresh_session_def)
    ultimately show ?thesis
      by (cases found) (auto simp: step_load_def sbind_def on_sessions_def on_outer_def ops flow Let_def)
  qed
  then obtain sn s1 t1 w1 where load: "step_load m tenant pack_id flow_id hint (s, t, w) = (Inr (flow, sn), (s1, t1, w1))"
    by blast
  note loaded = step_load_ok [OF load assms(1) ops refl]
  obtain out nodes sn' w2 where run:
    "run_steps m flow tenant (step_begin flow input sn) [] w1 = (Inr ((out, nodes), sn'), w2)"
    using run_succeeds [OF assms(4)] by blast
  have key: "sn_key sn' = ?k"
    using loaded(4,5) assms(2) run_steps_keeps [OF run] step_begin_simps(3) [OF len, of input sn]
    by (cases "live ?now s ?k") (auto simp: keyed_def snapshot_new_def)
  have stored: "\<exists>e. stored s1 (sn_key sn') = Some e \<and> ss_revision e = sn_revision sn" if "\<not> is_new sn"
    using that loaded(4,5) key by (cases "live ?now s ?k") (auto simp: is_new_def snapshot_new_def)
  obtain t2 where set: "to_set_json (hb_state (sm_host m)) (sn_key sn') (sn_state sn') t1 = (Inr (), t2)"
    using assms(4) unfolding ready_def by blast
  have "\<exists>h'. step_commit m (is_new sn) (sn_revision sn) sn' (s1, t1, w2) = (Inr (), h')"
  proof (cases "is_new sn")
    case True
    with set put [OF loaded(2), where now = "pf_now (sm_platform m) w2" and sn = sn'] show ?thesis
      by (auto simp: step_commit_def sbind_def on_state_def on_sessions_def ops)
  next
    case False
    with stored obtain e where "stored s1 (sn_key sn') = Some e" "ss_revision e = sn_revision sn" by blast
    from cas_match [OF loaded(2) this, where now = "pf_now (sm_platform m) w2"] False set show ?thesis
      by (auto simp: step_commit_def sbind_def on_state_def on_sessions_def ops)
  qed
  then show ?thesis using load run by (auto simp: step_def sbind_def on_outer_def)
qed

lemma turns_succeed:
  assumes "invar s" and "keyed s" and ops: "hb_session (sm_host m) = ops" and "ready m flow"
    and flow: "hget (sm_flows m) (pack_id, flow_id) = Some flow" and len: "length (fd_steps flow) \<le> u64_max"
  shows "\<exists>outs h'. run_turns m tenant pack_id flow_id hint inputs (s, t, w) = (Inr outs, h')"
  using assms(1,2)
proof (induction inputs arbitrary: s t w)
  case Nil
  then show ?case by simp
next
  case (Cons input inputs)
  from step_succeeds [OF Cons.prems ops assms(4) flow len] obtain out nodes s1 t1 w1 where
    first: "step m tenant pack_id flow_id hint input (s, t, w) = (Inr (out, nodes), (s1, t1, w1))"
    by (metis prod.collapse)
  from step_ok [OF first Cons.prems ops refl flow len] have "invar s1" "keyed s1" by metis+
  from Cons.IH [OF this, of t1 w1] first show ?case by (auto simp: sbind_def)
qed

end

subsection \<open>A turn of a pack flow\<close>

text \<open>The call that a pack flow makes for an input, and the world in which it makes it.\<close>

definition pack_call :: "flow_descriptor \<Rightarrow> json \<Rightarrow> adapter_call" where
  "pack_call d input = \<lparr>ac_adapter = pack_flow_adapter, ac_operation = ds_id d, ac_payload = input\<rparr>"

definition after_id :: "'w platform \<Rightarrow> string option \<Rightarrow> 'w \<Rightarrow> 'w" where
  "after_id pf hint w = (case hint of Some _ \<Rightarrow> w | None \<Rightarrow> snd (generate_session_id pf w))"

lemma pack_steps:
  assumes adapter: "hget (sm_adapters m) pack_flow_adapter = Some adapter"
    and bytes: "pf_to_vec (sm_platform m) input = Inr bytes" "length bytes \<le> po_max_payload_bytes (sm_policy m)"
    and emit: "\<And>span fs v. hb_emit (sm_host m) span fs v = (Inr (), v)"
  shows "case retry_with_jitter (sm_platform m) (po_retry (sm_policy m)) (adapter (pack_call d input)) w of
      (Inl e, w1) \<Rightarrow>
        run_steps m (build_flow_definition d) tenant (step_begin (build_flow_definition d) input (snapshot_new k i)) [] w =
          (Inl e, w1)
    | (Inr (response, nodes), w1) \<Rightarrow>
        \<exists>sn. run_steps m (build_flow_definition d) tenant (step_begin (build_flow_definition d) input (snapshot_new k i)) [] w =
          (Inr ((done_outcome response, extend_nodes [] nodes), sn), w1)"
proof -
  let ?flow = "build_flow_definition d" and ?sn = "step_begin (build_flow_definition d) input (snapshot_new k i)"
  let ?call = "\<lparr>ac_adapter = pack_flow_adapter, ac_operation = ds_id d, ac_payload = JString payload_from_last_input\<rparr>"
  have sn: "cu_position (sn_cursor ?sn) = 0" "sn_state ?sn = JObject [(''last_input'', input)]"
    by (simp_all add: step_begin_def update_state_input_def snapshot_new_def as_map_def Let_def)
  have steps: "fd_steps ?flow = [Adapter ?call]" by (simp add: build_flow_definition_def)
  have wf: "session_wf ?flow ?sn"
    by (rule session_wf_begin [OF _ session_wf_new]) (simp add: steps u64_max_def)
  have resolved: "resolve_adapter_payload (ac_payload ?call) ?sn = input"
    by (simp add: resolve_adapter_payload_def sn)
  have call: "?call\<lparr>ac_payload := input\<rparr> = pack_call d input" by (simp add: pack_call_def)
  note eq = execute_adapter_step_calls [OF wf, of m tenant ?call] call_adapter_def Let_def
  show ?thesis
  proof (cases "retry_with_jitter (sm_platform m) (po_retry (sm_policy m)) (adapter (pack_call d input)) w")
    case (Pair r w1)
    show ?thesis
    proof (cases r)
      case (Inl e)
      have "execute_adapter_step m ?flow tenant ?call ?sn w = (Inl e, w1)"
        unfolding eq resolved call using adapter bytes emit Pair Inl by (simp add: sbind_def)
      with Pair Inl sn(1) steps show ?thesis by (simp add: run_steps.simps [of m ?flow tenant ?sn])
    next
      case (Inr x)
      obtain response nodes where x: "x = (response, nodes)" by fastforce
      have "\<exists>sn1. execute_adapter_step m ?flow tenant ?call ?sn w = (Inr ((done_outcome response, nodes), sn1), w1)"
        unfolding eq resolved call using adapter bytes emit Pair Inr x by (simp add: sbind_def)
      then obtain sn1 where ex:
        "execute_adapter_step m ?flow tenant ?call ?sn w = (Inr ((done_outcome response, nodes), sn1), w1)" by blast
      with execute_adapter_step_ok(1) [OF ex] Pair Inr x sn(1) steps show ?thesis
        by (simp add: run_steps.simps [of m ?flow tenant ?sn] run_steps.simps [of m ?flow tenant "sn1\<lparr>sn_last_outcome := _\<rparr>"])
    qed
  qed
qed

lemma pack_turn:
  assumes host: "hb_session (sm_host m) = discard_sessions"
    and flow: "hget (sm_flows m) (pack_id, flow_id) = Some (build_flow_definition d)"
    and budget: "1 \<le> po_max_egress_adapters (sm_policy m)"
    and adapter: "hget (sm_adapters m) pack_flow_adapter = Some adapter"
    and bytes: "pf_to_vec (sm_platform m) input = Inr bytes" "length bytes \<le> po_max_payload_bytes (sm_policy m)"
    and emit: "\<And>span fs v. hb_emit (sm_host m) span fs v = (Inr (), v)"
    and state: "\<And>k v u. fst (to_set_json (hb_state (sm_host m)) k v u) = Inr ()"
  shows "case retry_with_jitter (sm_platform m) (po_retry (sm_policy m)) (adapter (pack_call d input))
        (after_id (sm_platform m) hint w) of
      (Inl e, w1) \<Rightarrow> step m tenant pack_id flow_id hint input (s, t, w) = (Inl e, (s, t, w1))
    | (Inr (response, nodes), w1) \<Rightarrow>
        \<exists>t1. step m tenant pack_id flow_id hint input (s, t, w) =
          (Inr (done_outcome response, extend_nodes [] nodes), (s, t1, w1))"
proof -
  let ?k = "session_key_new tenant pack_id flow_id hint" and ?flow = "build_flow_definition d"
  obtain i where load: "step_load m tenant pack_id flow_id hint (s, t, w) =
      (Inr (?flow, snapshot_new ?k i), (s, t, after_id (sm_platform m) hint w))"
    using flow budget unfolding step_load_def
    by (cases hint; cases "generate_session_id (sm_platform m) w")
      (auto simp: sbind_def ensure_policy_budget_def build_flow_definition_def on_sessions_def on_outer_def host
        discard_sessions_def fresh_session_def stable_session_id_def session_key_new_def after_id_def Let_def)
  have commit: "\<exists>t1. step_commit m (is_new (snapshot_new ?k i)) r sn (s, t, v) = (Inr (), (s, t1, v))" for r sn v
  proof -
    obtain t1 where "to_set_json (hb_state (sm_host m)) (sn_key sn) (sn_state sn) t = (Inr (), t1)"
      using state [of "sn_key sn" "sn_state sn" t] by (metis prod.collapse)
    then show ?thesis
      by (simp add: step_commit_def on_state_def on_sessions_def host discard_sessions_def sbind_def is_new_def snapshot_new_def)
  qed
  let ?w = "after_id (sm_platform m) hint w"
  note run = pack_steps [OF adapter bytes emit, where d = d and w = ?w and tenant = tenant and k = ?k and i = i]
  show ?thesis
  proof (cases "retry_with_jitter (sm_platform m) (po_retry (sm_policy m)) (adapter (pack_call d input)) ?w")
    case (Pair r w1)
    show ?thesis
    proof (cases r)
      case (Inl e)
      with run Pair show ?thesis by (simp add: step_def sbind_def load on_outer_def)
    next
      case (Inr x)
      obtain response nodes where x: "x = (response, nodes)" by fastforce
      with run Pair Inr obtain sn where
        "run_steps m ?flow tenant (step_begin ?flow input (snapshot_new ?k i)) [] ?w =
          (Inr ((done_outcome response, extend_nodes [] nodes), sn), w1)" by auto
      with commit [of "sn_revision (snapshot_new ?k i)" sn w1] Pair Inr x show ?thesis
        by (auto simp: step_def sbind_def load on_outer_def)
    qed
  qed
qed

end
