(* ===== verification/Turn_Lock.thy ===== *)
theory Turn_Lock
  imports Prelude
begin

section \<open>The turn lock\<close>

text \<open>
  \<open>crates/greentic-runner-host/src/engine/turn_lock.rs\<close>: one mutex per session key in a shared table, created
  on demand and removed when nobody refers to it, and re-entrant for the task that holds it. Tasks are
  numbered. The frames of a task are its calls of \<open>run\<close> that are under way, the innermost first: with the
  slot whose mutex the call holds, or without one when the task held the key already (the
  task-local list \<open>HELD\<close> has the keys of the former). Each operation is one atomic access to the table or to a
  mutex; the release of the mutex and the sweep of the table entry are two of them, as in \<open>Guard::drop\<close>.
\<close>

record turn_task =
  tt_frames :: "(string \<times> nat option) list"
  tt_wait :: "(string \<times> nat) option"
  tt_sweep :: "string option"

record turn_locks =
  tl_slots :: "(string, nat) hmap"
  tl_next :: nat
  tl_owner :: "nat \<Rightarrow> nat option"
  tl_tasks :: "turn_task list"

definition turn_locks_new :: turn_locks where
  "turn_locks_new = \<lparr>tl_slots = [], tl_next = 0, tl_owner = (\<lambda>_. None), tl_tasks = []\<rparr>"

definition idle_task :: turn_task where
  "idle_task = \<lparr>tt_frames = [], tt_wait = None, tt_sweep = None\<rparr>"

definition held :: "turn_task \<Rightarrow> string list" where
  "held tk = map fst (filter (\<lambda>f. snd f \<noteq> None) (tt_frames tk))"

text \<open>The references to a slot: the table, and every task that waits for or holds its mutex.\<close>

definition task_refs :: "nat \<Rightarrow> turn_task \<Rightarrow> nat" where
  "task_refs s tk =
     (case tt_wait tk of Some (_, s') \<Rightarrow> if s' = s then 1 else 0 | None \<Rightarrow> 0) +
     length (filter (\<lambda>f. snd f = Some s) (tt_frames tk))"

definition strong_count :: "turn_locks \<Rightarrow> nat \<Rightarrow> nat" where
  "strong_count st s =
     length (filter (\<lambda>e. snd e = s) (tl_slots st)) + sum_list (map (task_refs s) (tl_tasks st))"

abbreviation set_task :: "nat \<Rightarrow> turn_task \<Rightarrow> turn_locks \<Rightarrow> turn_locks" where
  "set_task i tk st \<equiv> st\<lparr>tl_tasks := (tl_tasks st)[i := tk]\<rparr>"

text \<open>\<open>run\<close> up to the wait: skip when the task holds the key, else look up or create the slot.\<close>

definition run_enter :: "nat \<Rightarrow> string \<Rightarrow> turn_locks \<Rightarrow> turn_locks" where
  "run_enter i k st =
     (let tk = tl_tasks st ! i in
      if k \<in> set (held tk) then set_task i (tk\<lparr>tt_frames := (k, None) # tt_frames tk\<rparr>) st
      else
        (case hget (tl_slots st) k of
           Some s \<Rightarrow> set_task i (tk\<lparr>tt_wait := Some (k, s)\<rparr>) st
         | None \<Rightarrow>
             (let s = tl_next st in
              (set_task i (tk\<lparr>tt_wait := Some (k, s)\<rparr>) st)
                \<lparr>tl_slots := hput k s (tl_slots st), tl_next := Suc s, tl_owner := (tl_owner st)(s := None)\<rparr>)))"

text \<open>\<open>lock_owned\<close> returns: the mutex is free and the task takes it.\<close>

definition run_acquire :: "nat \<Rightarrow> string \<Rightarrow> nat \<Rightarrow> turn_locks \<Rightarrow> turn_locks" where
  "run_acquire i k s st =
     (let tk = tl_tasks st ! i in
      (set_task i (tk\<lparr>tt_wait := None, tt_frames := (k, Some s) # tt_frames tk\<rparr>) st)
        \<lparr>tl_owner := (tl_owner st)(s := Some i)\<rparr>)"

text \<open>
  The end of the innermost call, by return, unwinding or cancellation: a call that holds the mutex releases
  it and owes the sweep. A wait that is cancelled drops its reference and owes the sweep as well.
\<close>

definition run_leave :: "nat \<Rightarrow> turn_locks \<Rightarrow> turn_locks" where
  "run_leave i st =
     (let tk = tl_tasks st ! i in
      case tt_frames tk of
        [] \<Rightarrow> st
      | (k, None) # fs \<Rightarrow> set_task i (tk\<lparr>tt_frames := fs\<rparr>) st
      | (k, Some s) # fs \<Rightarrow>
          (set_task i (tk\<lparr>tt_frames := fs, tt_sweep := Some k\<rparr>) st)\<lparr>tl_owner := (tl_owner st)(s := None)\<rparr>)"

definition wait_cancel :: "nat \<Rightarrow> turn_locks \<Rightarrow> turn_locks" where
  "wait_cancel i st =
     (let tk = tl_tasks st ! i in
      set_task i (tk\<lparr>tt_wait := None, tt_sweep := map_option fst (tt_wait tk)\<rparr>) st)"

text \<open>\<open>remove_if\<close> of \<open>Guard::drop\<close>.\<close>

definition sweep :: "nat \<Rightarrow> string \<Rightarrow> turn_locks \<Rightarrow> turn_locks" where
  "sweep i k st =
     (let st1 = set_task i ((tl_tasks st ! i)\<lparr>tt_sweep := None\<rparr>) st in
      case hget (tl_slots st) k of
        Some s \<Rightarrow> if strong_count st s = 1 then st1\<lparr>tl_slots := hdel k (tl_slots st)\<rparr> else st1
      | None \<Rightarrow> st1)"

text \<open>The steps of the tasks: a task that waits or owes a sweep does nothing else.\<close>

inductive turn_step :: "turn_locks \<Rightarrow> turn_locks \<Rightarrow> bool" where
  spawn: "turn_step st (st\<lparr>tl_tasks := tl_tasks st @ [idle_task]\<rparr>)"
| enter: "i < length (tl_tasks st) \<Longrightarrow> tt_wait (tl_tasks st ! i) = None \<Longrightarrow> tt_sweep (tl_tasks st ! i) = None \<Longrightarrow>
    turn_step st (run_enter i k st)"
| acquire: "i < length (tl_tasks st) \<Longrightarrow> tt_wait (tl_tasks st ! i) = Some (k, s) \<Longrightarrow> tl_owner st s = None \<Longrightarrow>
    turn_step st (run_acquire i k s st)"
| leave: "i < length (tl_tasks st) \<Longrightarrow> tt_wait (tl_tasks st ! i) = None \<Longrightarrow> tt_sweep (tl_tasks st ! i) = None \<Longrightarrow>
    tt_frames (tl_tasks st ! i) \<noteq> [] \<Longrightarrow> turn_step st (run_leave i st)"
| cancel: "i < length (tl_tasks st) \<Longrightarrow> tt_wait (tl_tasks st ! i) \<noteq> None \<Longrightarrow> turn_step st (wait_cancel i st)"
| swept: "i < length (tl_tasks st) \<Longrightarrow> tt_sweep (tl_tasks st ! i) = Some k \<Longrightarrow> turn_step st (sweep i k st)"

subsection \<open>The invariant\<close>

text \<open>A task refers to a slot for a key, by waiting for it or by holding its mutex.\<close>

definition refers :: "turn_task \<Rightarrow> string \<Rightarrow> nat \<Rightarrow> bool" where
  "refers tk k s \<longleftrightarrow> tt_wait tk = Some (k, s) \<or> (k, Some s) \<in> set (tt_frames tk)"

text \<open>A skipped call lies above one of the same task that holds the key; the keys held differ.\<close>

fun frames_ok :: "(string \<times> nat option) list \<Rightarrow> bool" where
  "frames_ok [] \<longleftrightarrow> True"
| "frames_ok ((k, None) # fs) \<longleftrightarrow> (\<exists>s. (k, Some s) \<in> set fs) \<and> frames_ok fs"
| "frames_ok ((k, Some s) # fs) \<longleftrightarrow> (\<forall>s'. (k, Some s') \<notin> set fs) \<and> frames_ok fs"

definition task_ok :: "turn_task \<Rightarrow> bool" where
  "task_ok tk \<longleftrightarrow> frames_ok (tt_frames tk) \<and>
     (tt_wait tk \<noteq> None \<longrightarrow> tt_sweep tk = None) \<and>
     (\<forall>k s. tt_wait tk = Some (k, s) \<longrightarrow> k \<notin> set (held tk))"

text \<open>
  The table: a slot has one key and an old number, and every reference of a task is the slot of the table;
  a mutex of the table is owned by the task that has its frame. No entry of the table is left over: a task refers to
  it or owes its sweep.
\<close>

definition slots_ok :: "turn_locks \<Rightarrow> bool" where
  "slots_ok st \<longleftrightarrow> hm_wf (tl_slots st) \<and>
     (\<forall>k s. hget (tl_slots st) k = Some s \<longrightarrow> s < tl_next st) \<and>
     (\<forall>k k' s. hget (tl_slots st) k = Some s \<longrightarrow> hget (tl_slots st) k' = Some s \<longrightarrow> k = k')"

definition owners_ok :: "turn_locks \<Rightarrow> bool" where
  "owners_ok st \<longleftrightarrow>
     (\<forall>i k s. i < length (tl_tasks st) \<longrightarrow>
        ((k, Some s) \<in> set (tt_frames (tl_tasks st ! i)) \<longleftrightarrow> hget (tl_slots st) k = Some s \<and> tl_owner st s = Some i)) \<and>
     (\<forall>k s i. hget (tl_slots st) k = Some s \<longrightarrow> tl_owner st s = Some i \<longrightarrow> i < length (tl_tasks st))"

definition waits_ok :: "turn_locks \<Rightarrow> bool" where
  "waits_ok st \<longleftrightarrow>
     (\<forall>i<length (tl_tasks st). task_ok (tl_tasks st ! i) \<and>
        (\<forall>k s. tt_wait (tl_tasks st ! i) = Some (k, s) \<longrightarrow> hget (tl_slots st) k = Some s))"

definition no_leak :: "turn_locks \<Rightarrow> bool" where
  "no_leak st \<longleftrightarrow>
     (\<forall>k s. hget (tl_slots st) k = Some s \<longrightarrow>
        (\<exists>i<length (tl_tasks st). refers (tl_tasks st ! i) k s \<or> tt_sweep (tl_tasks st ! i) = Some k))"

definition locks_inv :: "turn_locks \<Rightarrow> bool" where
  "locks_inv st \<longleftrightarrow> slots_ok st \<and> owners_ok st \<and> waits_ok st \<and> no_leak st"

lemma refers_slot:
  assumes "owners_ok st" and "waits_ok st" and "i < length (tl_tasks st)" and "refers (tl_tasks st ! i) k s"
  shows "hget (tl_slots st) k = Some s"
  using assms unfolding owners_ok_def waits_ok_def refers_def by blast

text \<open>The reference count of a slot is one exactly when no task refers to it.\<close>

lemma task_refs_zero: "task_refs s tk = 0 \<longleftrightarrow> (\<forall>k. \<not> refers tk k s)"
  by (auto simp: task_refs_def refers_def filter_empty_conv split: option.splits)

lemma slot_once:
  assumes "hm_wf m" and "hget m k = Some s" and "\<And>k'. hget m k' = Some s \<Longrightarrow> k' = k"
  shows "length (filter (\<lambda>e. snd e = s) m) = 1"
proof -
  have "distinct (filter (\<lambda>e. snd e = s) m)" using assms(1) by (simp add: distinct_map)
  moreover have "set (filter (\<lambda>e. snd e = s) m) = {(k, s)}"
  proof
    show "set (filter (\<lambda>e. snd e = s) m) \<subseteq> {(k, s)}"
    proof
      fix e assume "e \<in> set (filter (\<lambda>e. snd e = s) m)"
      then have "(fst e, s) \<in> set m" and e: "e = (fst e, s)" by auto
      then have "fst e = k" using assms(3) map_of_is_SomeI [OF assms(1)] by blast
      with e show "e \<in> {(k, s)}" by simp
    qed
    show "{(k, s)} \<subseteq> set (filter (\<lambda>e. snd e = s) m)" using map_of_SomeD [OF assms(2)] by simp
  qed
  ultimately show ?thesis by (metis distinct_card is_singletonI is_singleton_altdef)
qed

lemma strong_count_one:
  assumes "slots_ok st" and "hget (tl_slots st) k = Some s"
  shows "strong_count st s = 1 \<longleftrightarrow> (\<forall>i<length (tl_tasks st). \<forall>k'. \<not> refers (tl_tasks st ! i) k' s)"
proof -
  have "length (filter (\<lambda>e. snd e = s) (tl_slots st)) = 1"
  proof (rule slot_once [OF _ assms(2)])
    show "hm_wf (tl_slots st)" using assms(1) unfolding slots_ok_def by blast
    show "k' = k" if "hget (tl_slots st) k' = Some s" for k' using assms that unfolding slots_ok_def by blast
  qed
  then have "strong_count st s = 1 \<longleftrightarrow> (\<forall>tk \<in> set (tl_tasks st). task_refs s tk = 0)"
    by (auto simp: strong_count_def)
  then show ?thesis by (simp add: task_refs_zero all_set_conv_all_nth)
qed

text \<open>An operation that replaces one task and the owner of mutexes.\<close>

lemma inv_task:
  assumes inv: "locks_inv st" and i: "i < length (tl_tasks st)" and tk: "task_ok tk"
    and wait: "\<And>k s. tt_wait tk = Some (k, s) \<Longrightarrow> hget (tl_slots st) k = Some s"
    and frames: "\<And>k s. (k, Some s) \<in> set (tt_frames tk) \<longleftrightarrow> hget (tl_slots st) k = Some s \<and> owner s = Some i"
    and others: "\<And>j s. j \<noteq> i \<Longrightarrow> owner s = Some j \<longleftrightarrow> tl_owner st s = Some j"
    and leak: "\<And>k s. hget (tl_slots st) k = Some s \<Longrightarrow>
      refers (tl_tasks st ! i) k s \<or> tt_sweep (tl_tasks st ! i) = Some k \<Longrightarrow>
      refers tk k s \<or> tt_sweep tk = Some k \<or>
      (\<exists>j<length (tl_tasks st). j \<noteq> i \<and> (refers (tl_tasks st ! j) k s \<or> tt_sweep (tl_tasks st ! j) = Some k))"
  shows "locks_inv (st\<lparr>tl_tasks := (tl_tasks st)[i := tk], tl_owner := owner\<rparr>)" (is "locks_inv ?st")
proof -
  have task: "tl_tasks ?st ! j = (if j = i then tk else tl_tasks st ! j)" for j using i by (simp add: nth_list_update)
  have inv': "slots_ok st" "owners_ok st" "waits_ok st" "no_leak st" using inv by (auto simp: locks_inv_def)
  have "slots_ok ?st" using inv'(1) by (simp add: slots_ok_def)
  moreover have "owners_ok ?st"
    unfolding owners_ok_def
  proof (intro conjI allI impI)
    fix j k s assume "j < length (tl_tasks ?st)"
    then show "(k, Some s) \<in> set (tt_frames (tl_tasks ?st ! j)) \<longleftrightarrow> hget (tl_slots ?st) k = Some s \<and> tl_owner ?st s = Some j"
      using inv'(2) frames others unfolding task owners_ok_def by (cases "j = i") simp_all
  next
    fix k s j assume "hget (tl_slots ?st) k = Some s" and "tl_owner ?st s = Some j"
    then show "j < length (tl_tasks ?st)" using inv'(2) others i unfolding owners_ok_def by (cases "j = i") auto
  qed
  moreover have "waits_ok ?st" using inv'(3) tk wait unfolding waits_ok_def task by simp
  moreover have "no_leak ?st"
    unfolding no_leak_def
  proof (intro allI impI)
    fix k s assume slot: "hget (tl_slots ?st) k = Some s"
    then obtain j where j: "j < length (tl_tasks st)" "refers (tl_tasks st ! j) k s \<or> tt_sweep (tl_tasks st ! j) = Some k"
      using inv'(4) unfolding no_leak_def by auto
    show "\<exists>j<length (tl_tasks ?st). refers (tl_tasks ?st ! j) k s \<or> tt_sweep (tl_tasks ?st ! j) = Some k"
    proof (cases "j = i")
      case True
      with leak [of k s] slot j i show ?thesis unfolding task by auto
    next
      case False
      with j show ?thesis unfolding task by auto
    qed
  qed
  ultimately show ?thesis by (simp add: locks_inv_def)
qed


lemma held_mem: "k \<in> set (held tk) \<longleftrightarrow> (\<exists>s. (k, Some s) \<in> set (tt_frames tk))"
  by (force simp: held_def)

lemma inv_parts:
  assumes "locks_inv st" and "i < length (tl_tasks st)"
  shows "task_ok (tl_tasks st ! i)"
    and "tt_wait (tl_tasks st ! i) = Some (k, s) \<Longrightarrow> hget (tl_slots st) k = Some s"
    and "(k, Some s) \<in> set (tt_frames (tl_tasks st ! i)) \<longleftrightarrow> hget (tl_slots st) k = Some s \<and> tl_owner st s = Some i"
    and "hget (tl_slots st) k = Some s \<Longrightarrow> hget (tl_slots st) k' = Some s \<Longrightarrow> k' = k"
  using assms unfolding locks_inv_def owners_ok_def waits_ok_def slots_ok_def by blast+

lemma inv_new: "locks_inv turn_locks_new"
  by (simp add: locks_inv_def slots_ok_def owners_ok_def waits_ok_def no_leak_def turn_locks_new_def)

lemma inv_spawn:
  assumes "locks_inv st"
  shows "locks_inv (st\<lparr>tl_tasks := tl_tasks st @ [idle_task]\<rparr>)" (is "locks_inv ?st")
proof -
  have idle: "tt_frames idle_task = []" "tt_wait idle_task = None" "task_ok idle_task"
    by (simp_all add: idle_task_def task_ok_def)
  have task: "tl_tasks ?st ! j = (if j < length (tl_tasks st) then tl_tasks st ! j else idle_task)"
    if "j < length (tl_tasks ?st)" for j using that by (auto simp: nth_append less_Suc_eq)
  have "slots_ok ?st" using assms by (simp add: locks_inv_def slots_ok_def)
  moreover have "owners_ok ?st"
    unfolding owners_ok_def
  proof (intro conjI allI impI)
    fix j k s assume j: "j < length (tl_tasks ?st)"
    have bound: "hget (tl_slots st) k = Some s \<Longrightarrow> tl_owner st s = Some j \<Longrightarrow> j < length (tl_tasks st)"
      using assms unfolding locks_inv_def owners_ok_def by blast
    show "(k, Some s) \<in> set (tt_frames (tl_tasks ?st ! j)) \<longleftrightarrow> hget (tl_slots ?st) k = Some s \<and> tl_owner ?st s = Some j"
      using inv_parts(3) [OF assms, of j k s] bound idle task [OF j] by (cases "j < length (tl_tasks st)") auto
  next
    fix k s j assume "hget (tl_slots ?st) k = Some s" and "tl_owner ?st s = Some j"
    then have "j < length (tl_tasks st)" using assms unfolding locks_inv_def owners_ok_def by simp
    then show "j < length (tl_tasks ?st)" by simp
  qed
  moreover have "waits_ok ?st"
    using assms idle task unfolding waits_ok_def locks_inv_def by simp
  moreover have "no_leak ?st"
    using assms unfolding no_leak_def locks_inv_def by (fastforce simp: nth_append)
  ultimately show ?thesis by (simp add: locks_inv_def)
qed

lemma inv_skip:
  assumes "locks_inv st" and "i < length (tl_tasks st)" and "k \<in> set (held (tl_tasks st ! i))"
    and "tt_wait (tl_tasks st ! i) = None"
  shows "locks_inv (set_task i ((tl_tasks st ! i)\<lparr>tt_frames := (k, None) # tt_frames (tl_tasks st ! i)\<rparr>) st)"
proof -
  let ?tk = "(tl_tasks st ! i)\<lparr>tt_frames := (k, None) # tt_frames (tl_tasks st ! i)\<rparr>"
  have "locks_inv (st\<lparr>tl_tasks := (tl_tasks st)[i := ?tk], tl_owner := tl_owner st\<rparr>)"
    by (rule inv_task [OF assms(1,2)])
      (use inv_parts [OF assms(1,2)] assms(3,4) in \<open>auto simp: task_ok_def held_mem refers_def\<close>)
  then show ?thesis by simp
qed

lemma inv_join:
  assumes "locks_inv st" and "i < length (tl_tasks st)" and "k \<notin> set (held (tl_tasks st ! i))"
    and "tt_wait (tl_tasks st ! i) = None" and "tt_sweep (tl_tasks st ! i) = None" and "hget (tl_slots st) k = Some s"
  shows "locks_inv (set_task i ((tl_tasks st ! i)\<lparr>tt_wait := Some (k, s)\<rparr>) st)"
proof -
  let ?tk = "(tl_tasks st ! i)\<lparr>tt_wait := Some (k, s)\<rparr>"
  have "locks_inv (st\<lparr>tl_tasks := (tl_tasks st)[i := ?tk], tl_owner := tl_owner st\<rparr>)"
    by (rule inv_task [OF assms(1,2)])
      (use inv_parts [OF assms(1,2)] assms(3-6) in \<open>auto simp: task_ok_def held_mem refers_def\<close>)
  then show ?thesis by simp
qed

lemma inv_acquire:
  assumes "locks_inv st" and "i < length (tl_tasks st)" and "tt_wait (tl_tasks st ! i) = Some (k, s)"
    and "tl_owner st s = None"
  shows "locks_inv (run_acquire i k s st)"
proof -
  let ?tk = "(tl_tasks st ! i)\<lparr>tt_wait := None, tt_frames := (k, Some s) # tt_frames (tl_tasks st ! i)\<rparr>"
  note P = inv_parts [OF assms(1,2)]
  have slot: "hget (tl_slots st) k = Some s" using P(2) assms(3) .
  have "locks_inv (st\<lparr>tl_tasks := (tl_tasks st)[i := ?tk], tl_owner := (tl_owner st)(s := Some i)\<rparr>)"
  proof (rule inv_task [OF assms(1,2)])
    show "task_ok ?tk" using P(1) assms(3) by (auto simp: task_ok_def held_mem)
    show "(k', Some s') \<in> set (tt_frames ?tk) \<longleftrightarrow> hget (tl_slots st) k' = Some s' \<and> ((tl_owner st)(s := Some i)) s' = Some i"
      for k' s'
    proof (cases "s' = s")
      case True
      have "hget (tl_slots st) k' = Some s \<longleftrightarrow> k' = k" using P(4) [OF slot, of k'] slot by blast
      then show ?thesis using P(3) [of k' s] True assms(4) by simp
    next
      case False
      then show ?thesis using P(3) [of k' s'] by simp
    qed
    show "((tl_owner st)(s := Some i)) s' = Some j \<longleftrightarrow> tl_owner st s' = Some j" if "j \<noteq> i" for j s'
      using that assms(4) by auto
  qed (use assms(3) in \<open>auto simp: refers_def\<close>)
  then show ?thesis by (simp add: run_acquire_def Let_def)
qed

lemma inv_leave:
  assumes "locks_inv st" and "i < length (tl_tasks st)" and "tt_wait (tl_tasks st ! i) = None"
    and "tt_sweep (tl_tasks st ! i) = None" and "tt_frames (tl_tasks st ! i) \<noteq> []"
  shows "locks_inv (run_leave i st)"
proof -
  note P = inv_parts [OF assms(1,2)]
  from assms(5) obtain k f fs where top: "tt_frames (tl_tasks st ! i) = (k, f) # fs"
    by (metis list.exhaust prod.exhaust)
  show ?thesis
  proof (cases f)
    case None
    let ?tk = "(tl_tasks st ! i)\<lparr>tt_frames := fs\<rparr>"
    have "locks_inv (st\<lparr>tl_tasks := (tl_tasks st)[i := ?tk], tl_owner := tl_owner st\<rparr>)"
      by (rule inv_task [OF assms(1,2)])
        (use P assms(3,4) top None in \<open>auto simp: task_ok_def refers_def\<close>)
    then show ?thesis using top None by (simp add: run_leave_def)
  next
    case (Some s)
    let ?tk = "(tl_tasks st ! i)\<lparr>tt_frames := fs, tt_sweep := Some k\<rparr>"
    have slot: "hget (tl_slots st) k = Some s" and mine: "tl_owner st s = Some i" using P(3) [of k s] top Some by auto
    have once: "(k, Some s') \<notin> set fs" for s' using P(1) top Some by (simp add: task_ok_def)
    have "locks_inv (st\<lparr>tl_tasks := (tl_tasks st)[i := ?tk], tl_owner := (tl_owner st)(s := None)\<rparr>)"
    proof (rule inv_task [OF assms(1,2)])
      show "task_ok ?tk" using P(1) assms(3) top Some by (simp add: task_ok_def)
      show "(k', Some s') \<in> set (tt_frames ?tk) \<longleftrightarrow> hget (tl_slots st) k' = Some s' \<and> ((tl_owner st)(s := None)) s' = Some i"
        for k' s'
      proof (cases "s' = s")
        case True
        have "(k', Some s) \<notin> set fs" using P(3) [of k' s] P(4) [OF slot, of k'] once top by auto
        then show ?thesis using True by simp
      next
        case False
        then show ?thesis using P(3) [of k' s'] top Some by simp
      qed
      show "((tl_owner st)(s := None)) s' = Some j \<longleftrightarrow> tl_owner st s' = Some j" if "j \<noteq> i" for j s'
        using that mine by auto
    qed (use assms(3,4) top Some in \<open>auto simp: refers_def\<close>)
    then show ?thesis using top Some by (simp add: run_leave_def)
  qed
qed

lemma inv_cancel:
  assumes "locks_inv st" and "i < length (tl_tasks st)" and "tt_wait (tl_tasks st ! i) \<noteq> None"
  shows "locks_inv (wait_cancel i st)"
proof -
  let ?tk = "(tl_tasks st ! i)\<lparr>tt_wait := None, tt_sweep := map_option fst (tt_wait (tl_tasks st ! i))\<rparr>"
  have "locks_inv (st\<lparr>tl_tasks := (tl_tasks st)[i := ?tk], tl_owner := tl_owner st\<rparr>)"
    by (rule inv_task [OF assms(1,2)])
      (use inv_parts [OF assms(1,2)] assms(3) in \<open>auto simp: task_ok_def refers_def\<close>)
  then show ?thesis by (simp add: wait_cancel_def Let_def)
qed


lemma inv_create:
  assumes "locks_inv st" and "i < length (tl_tasks st)" and "k \<notin> set (held (tl_tasks st ! i))"
    and "tt_wait (tl_tasks st ! i) = None" and "tt_sweep (tl_tasks st ! i) = None" and new: "hget (tl_slots st) k = None"
  shows "locks_inv ((set_task i ((tl_tasks st ! i)\<lparr>tt_wait := Some (k, tl_next st)\<rparr>) st)
    \<lparr>tl_slots := hput k (tl_next st) (tl_slots st), tl_next := Suc (tl_next st),
     tl_owner := (tl_owner st)(tl_next st := None)\<rparr>)" (is "locks_inv ?st")
proof -
  let ?tk = "(tl_tasks st ! i)\<lparr>tt_wait := Some (k, tl_next st)\<rparr>"
  have task: "tl_tasks ?st ! j = (if j = i then ?tk else tl_tasks st ! j)" for j
    using assms(2) by (simp add: nth_list_update)
  have slot: "hget (tl_slots ?st) k' = (if k' = k then Some (tl_next st) else hget (tl_slots st) k')" for k'
    by (simp add: hm_simps)
  have old: "s' \<noteq> tl_next st" if "hget (tl_slots st) k' = Some s'" for k' s'
    using that assms(1) unfolding locks_inv_def slots_ok_def by blast
  have "slots_ok ?st"
    unfolding slots_ok_def slot
    using assms(1) old unfolding locks_inv_def slots_ok_def by (auto simp: less_Suc_eq split: if_splits)
  moreover have "owners_ok ?st"
    unfolding owners_ok_def slot task
  proof (intro conjI allI impI)
    fix j k' s' assume "j < length (tl_tasks ?st)"
    then show "(k', Some s') \<in> set (tt_frames (if j = i then ?tk else tl_tasks st ! j)) \<longleftrightarrow>
        (if k' = k then Some (tl_next st) else hget (tl_slots st) k') = Some s' \<and> tl_owner ?st s' = Some j"
      using inv_parts(3) [OF assms(1), of j k' s'] old [of k' s'] new by auto
  next
    fix k' s' j assume "(if k' = k then Some (tl_next st) else hget (tl_slots st) k') = Some s'" and "tl_owner ?st s' = Some j"
    then show "j < length (tl_tasks ?st)"
      using assms(1) unfolding locks_inv_def owners_ok_def by (auto split: if_splits)
  qed
  moreover have "waits_ok ?st"
    unfolding waits_ok_def slot task
  proof (intro allI impI conjI)
    fix j assume j: "j < length (tl_tasks ?st)"
    then show "task_ok (if j = i then ?tk else tl_tasks st ! j)"
      using inv_parts(1) [OF assms(1), of j] assms(3,5) by (auto simp: task_ok_def held_mem)
    fix k' s' assume "tt_wait (if j = i then ?tk else tl_tasks st ! j) = Some (k', s')"
    then show "(if k' = k then Some (tl_next st) else hget (tl_slots st) k') = Some s'"
      using inv_parts(2) [OF assms(1), of j k' s'] j new by (auto split: if_splits)
  qed
  moreover have "no_leak ?st"
    unfolding no_leak_def slot
  proof (intro allI impI)
    fix k' s' assume s': "(if k' = k then Some (tl_next st) else hget (tl_slots st) k') = Some s'"
    show "\<exists>j<length (tl_tasks ?st). refers (tl_tasks ?st ! j) k' s' \<or> tt_sweep (tl_tasks ?st ! j) = Some k'"
    proof (cases "k' = k")
      case True
      with s' assms(2) show ?thesis unfolding task by (intro exI [of _ i]) (simp add: refers_def)
    next
      case False
      with s' obtain j where "j < length (tl_tasks st)"
        "refers (tl_tasks st ! j) k' s' \<or> tt_sweep (tl_tasks st ! j) = Some k'"
        using assms(1) unfolding locks_inv_def no_leak_def by auto
      then show ?thesis using assms(4) unfolding task by (intro exI [of _ j]) (auto simp: refers_def)
    qed
  qed
  ultimately show ?thesis by (simp add: locks_inv_def)
qed

lemma inv_enter:
  assumes "locks_inv st" and "i < length (tl_tasks st)" and "tt_wait (tl_tasks st ! i) = None"
    and "tt_sweep (tl_tasks st ! i) = None"
  shows "locks_inv (run_enter i k st)"
  using inv_skip [OF assms(1,2) _ assms(3), of k] inv_join [OF assms(1,2) _ assms(3,4), of k]
    inv_create [OF assms(1,2) _ assms(3,4), of k]
  by (auto simp: run_enter_def Let_def split: option.splits)

lemma inv_sweep_kept:
  assumes "locks_inv st" and "i < length (tl_tasks st)" and "tt_sweep (tl_tasks st ! i) = Some k"
    and kept: "\<And>s. hget (tl_slots st) k = Some s \<Longrightarrow> strong_count st s \<noteq> 1"
  shows "locks_inv (set_task i ((tl_tasks st ! i)\<lparr>tt_sweep := None\<rparr>) st)"
proof -
  let ?tk = "(tl_tasks st ! i)\<lparr>tt_sweep := None\<rparr>"
  note P = inv_parts [OF assms(1,2)]
  have ok: "slots_ok st" "owners_ok st" "waits_ok st" using assms(1) by (simp_all add: locks_inv_def)
  have "locks_inv (st\<lparr>tl_tasks := (tl_tasks st)[i := ?tk], tl_owner := tl_owner st\<rparr>)"
  proof (rule inv_task [OF assms(1,2)])
    fix k' s assume slot: "hget (tl_slots st) k' = Some s"
      and "refers (tl_tasks st ! i) k' s \<or> tt_sweep (tl_tasks st ! i) = Some k'"
    then consider "refers ?tk k' s" | "k' = k" using assms(3) by (auto simp: refers_def)
    then show "refers ?tk k' s \<or> tt_sweep ?tk = Some k' \<or>
      (\<exists>j<length (tl_tasks st). j \<noteq> i \<and> (refers (tl_tasks st ! j) k' s \<or> tt_sweep (tl_tasks st ! j) = Some k'))"
    proof cases
      case 2
      then have "strong_count st s \<noteq> 1" using kept slot by simp
      then obtain j k2 where j: "j < length (tl_tasks st)" "refers (tl_tasks st ! j) k2 s"
        using strong_count_one [OF ok(1) slot] by blast
      then have "k2 = k'" using refers_slot [OF ok(2,3) j] P(4) slot by blast
      with j show ?thesis by (cases "j = i") (auto simp: refers_def)
    qed simp
  qed (use P(1-3) in \<open>simp_all add: task_ok_def held_mem\<close>)
  then show ?thesis by simp
qed

lemma inv_sweep_removed:
  assumes "locks_inv st" and "i < length (tl_tasks st)" and "tt_sweep (tl_tasks st ! i) = Some k"
    and slot: "hget (tl_slots st) k = Some s" and one: "strong_count st s = 1"
  shows "locks_inv ((set_task i ((tl_tasks st ! i)\<lparr>tt_sweep := None\<rparr>) st)\<lparr>tl_slots := hdel k (tl_slots st)\<rparr>)"
    (is "locks_inv ?st")
proof -
  let ?tk = "(tl_tasks st ! i)\<lparr>tt_sweep := None\<rparr>"
  have ok: "slots_ok st" "owners_ok st" "waits_ok st" using assms(1) by (simp_all add: locks_inv_def)
  have task: "tl_tasks ?st ! j = (if j = i then ?tk else tl_tasks st ! j)" for j
    using assms(2) by (simp add: nth_list_update)
  have del: "hget (tl_slots ?st) k' = (if k' = k then None else hget (tl_slots st) k')" for k'
    by (simp add: hm_simps)
  have free: "\<not> refers (tl_tasks st ! j) k s'" if "j < length (tl_tasks st)" for j s'
    using that strong_count_one [OF ok(1) slot] one refers_slot [OF ok(2,3) that, of k s'] slot by auto
  have frames: "tt_frames (tl_tasks ?st ! j) = tt_frames (tl_tasks st ! j)" for j unfolding task by simp
  have "slots_ok ?st" using ok(1) unfolding slots_ok_def del by auto
  moreover have "owners_ok ?st"
    unfolding owners_ok_def del frames
  proof (intro conjI allI impI)
    fix j k' s' assume "j < length (tl_tasks ?st)"
    then show "(k', Some s') \<in> set (tt_frames (tl_tasks st ! j)) \<longleftrightarrow>
        (if k' = k then None else hget (tl_slots st) k') = Some s' \<and> tl_owner ?st s' = Some j"
      using inv_parts(3) [OF assms(1), of j k' s'] free [of j s'] by (auto simp: refers_def)
  next
    fix k' s' j assume "(if k' = k then None else hget (tl_slots st) k') = Some s'" and "tl_owner ?st s' = Some j"
    then show "j < length (tl_tasks ?st)" using ok(2) unfolding owners_ok_def by (auto split: if_splits)
  qed
  moreover have "waits_ok ?st"
    unfolding waits_ok_def del task
  proof (intro allI impI conjI)
    fix j assume j: "j < length (tl_tasks ?st)"
    then show "task_ok (if j = i then ?tk else tl_tasks st ! j)"
      using inv_parts(1) [OF assms(1), of j] by (auto simp: task_ok_def held_mem)
    fix k' s' assume "tt_wait (if j = i then ?tk else tl_tasks st ! j) = Some (k', s')"
    then show "(if k' = k then None else hget (tl_slots st) k') = Some s'"
      using inv_parts(2) [OF assms(1), of j k' s'] free [of j s'] j by (auto simp: refers_def split: if_splits)
  qed
  moreover have "no_leak ?st"
    unfolding no_leak_def del
  proof (intro allI impI)
    fix k' s' assume s': "(if k' = k then None else hget (tl_slots st) k') = Some s'"
    then have other: "k' \<noteq> k" and "hget (tl_slots st) k' = Some s'" by (auto split: if_splits)
    then obtain j where "j < length (tl_tasks st)"
      "refers (tl_tasks st ! j) k' s' \<or> tt_sweep (tl_tasks st ! j) = Some k'"
      using assms(1) unfolding locks_inv_def no_leak_def by blast
    with other assms(3) show "\<exists>j<length (tl_tasks ?st). refers (tl_tasks ?st ! j) k' s' \<or> tt_sweep (tl_tasks ?st ! j) = Some k'"
      unfolding task by (intro exI [of _ j]) (auto simp: refers_def)
  qed
  ultimately show ?thesis by (simp add: locks_inv_def)
qed

lemma inv_sweep:
  assumes "locks_inv st" and "i < length (tl_tasks st)" and "tt_sweep (tl_tasks st ! i) = Some k"
  shows "locks_inv (sweep i k st)"
  using inv_sweep_kept [OF assms] inv_sweep_removed [OF assms]
  by (auto simp: sweep_def Let_def split: option.splits)

lemma inv_step: "turn_step st st' \<Longrightarrow> locks_inv st \<Longrightarrow> locks_inv st'"
  by (induction rule: turn_step.induct)
    (auto intro: inv_spawn inv_enter inv_acquire inv_leave inv_cancel inv_sweep)

lemma reachable_inv: "turn_step\<^sup>*\<^sup>* turn_locks_new st \<Longrightarrow> locks_inv st"
  by (induction rule: rtranclp_induct) (auto intro: inv_new inv_step)

subsection \<open>What the invariant gives\<close>

text \<open>A task is inside the turn of a key when one of its calls of \<open>run\<close> for it is past the wait.\<close>

definition inside :: "turn_locks \<Rightarrow> nat \<Rightarrow> string \<Rightarrow> bool" where
  "inside st i k \<longleftrightarrow> i < length (tl_tasks st) \<and> k \<in> fst ` set (tt_frames (tl_tasks st ! i))"

lemma frames_ok_held: "frames_ok fs \<Longrightarrow> k \<in> fst ` set fs \<Longrightarrow> \<exists>s. (k, Some s) \<in> set fs"
  by (induction fs rule: frames_ok.induct) auto

lemma inside_owner:
  assumes "locks_inv st" and "inside st i k"
  shows "\<exists>s. hget (tl_slots st) k = Some s \<and> tl_owner st s = Some i"
proof -
  from assms(2) have i: "i < length (tl_tasks st)" and k: "k \<in> fst ` set (tt_frames (tl_tasks st ! i))"
    by (auto simp: inside_def)
  from frames_ok_held [OF _ k] inv_parts(1) [OF assms(1) i] obtain s where "(k, Some s) \<in> set (tt_frames (tl_tasks st ! i))"
    by (auto simp: task_ok_def)
  with inv_parts(3) [OF assms(1) i, of k s] show ?thesis by blast
qed

lemma inside_unique:
  assumes "locks_inv st" and "inside st i k" and "inside st j k"
  shows "i = j"
  using inside_owner [OF assms(1,2)] inside_owner [OF assms(1,3)] by auto

lemma blocked_by_holder:
  assumes "locks_inv st" and "i < length (tl_tasks st)" and "tt_wait (tl_tasks st ! i) = Some (k, s)"
  shows "turn_step st (run_acquire i k s st) \<or> (\<exists>j. j \<noteq> i \<and> inside st j k)"
proof (cases "tl_owner st s")
  case None
  with assms show ?thesis by (blast intro: turn_step.acquire)
next
  case (Some j)
  have slot: "hget (tl_slots st) k = Some s" using inv_parts(2) [OF assms(1,2,3)] .
  then have j: "j < length (tl_tasks st)" using assms(1) Some unfolding locks_inv_def owners_ok_def by blast
  with slot Some inv_parts(3) [OF assms(1) j] have frame: "(k, Some s) \<in> set (tt_frames (tl_tasks st ! j))" by blast
  then have "inside st j k" using j by (force simp: inside_def)
  moreover have "j \<noteq> i" using frame inv_parts(1) [OF assms(1,2)] assms(3) by (auto simp: task_ok_def held_mem)
  ultimately show ?thesis by blast
qed

lemma idle_empty:
  assumes "locks_inv st" and "\<forall>tk \<in> set (tl_tasks st). tt_frames tk = [] \<and> tt_wait tk = None \<and> tt_sweep tk = None"
  shows "tl_slots st = []"
proof (rule ccontr)
  assume "tl_slots st \<noteq> []"
  then obtain e where "e \<in> set (tl_slots st)" by (cases "tl_slots st") auto
  then have "fst e \<in> dom (hget (tl_slots st))" by (simp add: dom_map_of_conv_image_fst)
  then obtain k s where "hget (tl_slots st) k = Some s" by blast
  then show False using assms unfolding locks_inv_def no_leak_def refers_def by (force dest: nth_mem)
qed

end
