(* ===== verification/Flow_Claims.thy ===== *)
theory Flow_Claims
  imports Flow_Turns Turn_Lock
begin

section \<open>Properties of the flow runner\<close>

text \<open>
  The properties of the flow runner's state machine over its session hosts, of its retry loop and of the turn lock, each followed by
  its application to a concrete machine. The demonstration machine has an adapter that answers its payload and
  counts its calls in the world, a clock that stands still, and hosts that accept everything.
\<close>

definition demo_platform :: "nat platform" where
  "demo_platform =
     \<lparr>pf_now = (\<lambda>_. 0), pf_random = (\<lambda>_ w. (0, w)), pf_sleep = (\<lambda>_ w. w), pf_to_vec = (\<lambda>_. Inr []),
      pf_sha256_hex = (\<lambda>s. s)\<rparr>"

definition demo_adapter :: "nat adapter" where
  "demo_adapter call w = (Inr (ac_payload call, []), Suc w)"

definition demo_call :: adapter_call where
  "demo_call = \<lparr>ac_adapter = pack_flow_adapter, ac_operation = ''main'', ac_payload = JString payload_from_last_input\<rparr>"

definition demo_flow :: "flow_step list \<Rightarrow> flow_definition" where
  "demo_flow sts =
     \<lparr>fd_summary = \<lparr>fs_pack_id = ''p'', fs_id = ''f'', fs_name = ''f'', fs_version = ''1'', fs_description = None\<rparr>,
      fd_schema = JNull, fd_steps = sts\<rparr>"

definition demo_tenant :: tenant_ctx where
  "demo_tenant = \<lparr>tx_env = ''dev'', tx_tenant = ''acme'', tx_trace_id = None\<rparr>"

definition demo_machine :: "'s session_ops \<Rightarrow> flow_definition \<Rightarrow> ('s, state_map, nat) state_machine" where
  "demo_machine sessions flow =
     register_flow flow
       (state_machine_new \<lparr>hb_emit = (\<lambda>_ _. sret ()), hb_session = sessions, hb_state = in_memory_state\<rparr>
         (register_adapter pack_flow_adapter demo_adapter []) policy_default demo_platform)"

definition demo_steps :: "flow_step list" where
  "demo_steps = [Adapter demo_call, AwaitInput ''name'', Adapter demo_call]"

lemmas demo_defs = demo_machine_def register_flow_def state_machine_new_def register_adapter_def demo_flow_def
  demo_platform_def demo_steps_def demo_call_def

lemma demo_ready: "ready (demo_machine sessions (demo_flow demo_steps)) (demo_flow demo_steps)"
  by (auto simp: ready_def demo_defs demo_adapter_def policy_default_def in_memory_state_def set_json_def)

lemma demo_steps_facts:
  "fd_steps (demo_flow sts) = sts" "awaited demo_steps = [''name'']" "length demo_steps \<le> u64_max"
  "\<not> is_await (last demo_steps)" "pf_now demo_platform v = 0"
  by (simp_all add: demo_flow_def demo_steps_def u64_max_def is_await_def demo_platform_def)

lemma demo_machine_simps:
  "hb_session (sm_host (demo_machine sessions flow)) = sessions"
  "sm_platform (demo_machine sessions flow) = demo_platform"
  "sm_policy (demo_machine sessions flow) = policy_default"
  "hget (sm_flows (demo_machine sessions (demo_flow sts))) (''p'', ''f'') = Some (demo_flow sts)"
  "hget (sm_adapters (demo_machine sessions flow)) pack_flow_adapter = Some demo_adapter"
  "hb_emit (sm_host (demo_machine sessions flow)) span fs v = (Inr (), v)"
  "fst (to_set_json (hb_state (sm_host (demo_machine sessions flow))) k j u) = Inr ()"
  by (simp_all add: demo_defs in_memory_state_def set_json_def)

subsection \<open>Turns\<close>

text \<open>
  C35. A new session of a flow whose last step does not wait for input goes through the flow in order, over the in-memory session host:
  however many messages arrive within the hour after which a session expires, while adapters answer and hosts accept, every turn succeeds, the i-th turn
  asks for the i-th input of the flow with its reason, each input is asked for once, and every turn after
  the last of them answers that the flow is done. (A flow whose last step waits for input never answers that it is done: once the input is there,
  the loop has no step left and the stored answer of the wait is given again.)
\<close>

theorem conversation_in_order:
  assumes "im_inv s" and "\<And>j e. im_stored s j = Some e \<Longrightarrow> sn_key (ss_snapshot e) = j"
    and "hb_session (sm_host m) = in_memory_sessions" and "ready m flow"
    and "hget (sm_flows m) (pack_id, flow_id) = Some flow" and "length (fd_steps flow) \<le> u64_max"
    and "fd_steps flow \<noteq> [] \<Longrightarrow> \<not> is_await (last (fd_steps flow))"
    and "\<And>v. pf_now (sm_platform m) v \<le> from_time + 3600 * 1000" and "\<And>v. from_time \<le> pf_now (sm_platform m) v"
    and "im_stored s (session_key_new tenant pack_id flow_id hint) = None"
  shows "\<exists>outs h'. run_turns m tenant pack_id flow_id hint inputs (s, t, w) = (Inr outs, h') \<and>
    length outs = length inputs \<and> (\<forall>i<length outs. answers (drop i (awaited (fd_steps flow))) (outs ! i))"
proof -
  have keyed: "sessions.keyed s" using assms(2) by (simp add: sessions.keyed_def)
  obtain outs h' where run: "run_turns m tenant pack_id flow_id hint inputs (s, t, w) = (Inr outs, h')"
    using sessions.turns_succeed [OF assms(1) keyed assms(3-6)] by blast
  have "sessions.session_at (from_time + 3600 * 1000) (fd_steps flow) s (session_key_new tenant pack_id flow_id hint)
      (awaited (fd_steps flow))"
    using assms(10) by (simp add: sessions.session_at_def)
  from sessions.turns_answer [OF run assms(1) keyed assms(3,5-9) this] run show ?thesis by blast
qed

theorem conversation_in_order_witness:
  "\<exists>outs h'. run_turns (demo_machine in_memory_sessions (demo_flow demo_steps)) demo_tenant ''p'' ''f'' (Some ''s'')
      [JInt 1, JInt 2, JInt 3] ([], [], 0) = (Inr outs, h') \<and>
    length outs = length [JInt 1, JInt 2, JInt 3] \<and> (\<forall>i<length outs. answers (drop i [''name'']) (outs ! i))"
  using conversation_in_order [where s = "[]" and m = "demo_machine in_memory_sessions (demo_flow demo_steps)"
      and flow = "demo_flow demo_steps" and pack_id = "''p''" and flow_id = "''f''" and from_time = 0 and tenant = demo_tenant
      and hint = "Some ''s''" and inputs = "[JInt 1, JInt 2, JInt 3]" and t = "[] :: state_map" and w = "0 :: nat"]
  by (simp add: demo_machine_simps demo_ready demo_steps_facts im_inv_def im_stored_def del: run_turns.simps)

text \<open>
  C36. Of two turns that loaded the same state of a session that has committed before at most one commits: when two turns have loaded
  such a session, before it expired and below the largest revision, and the first has committed, the commit of the second is refused, whatever both
  did in between, and leaves every session as it is. (The first turns of a new session commit with \<open>put\<close>, which compares no revision: there the
  second commit overwrites the first.)
\<close>

theorem commit_one_winner:
  assumes "hb_session (sm_host m) = in_memory_sessions" and "im_inv s" and "im_inv s2"
    and k: "k = session_key_new tenant pack_id flow_id hint"
    and stored: "im_stored s k = Some e" "im_stored s2 k = Some e" "sn_key (ss_snapshot e) = k"
    and fresh: "pf_now (sm_platform m) w \<le> ss_expires_at e" "pf_now (sm_platform m) w2 \<le> ss_expires_at e"
    and loadA: "step_load m tenant pack_id flow_id hint (s, t, w) = (Inr (flow, a), hA)"
    and loadB: "step_load m tenant pack_id flow_id hint (s2, t2, w2) = (Inr (flow, b), hB)"
    and old: "\<not> is_new a" "sn_revision a < u64_max" and len: "length (fd_steps flow) \<le> u64_max"
    and runA: "run_steps m flow tenant (step_begin flow inputA a) [] w3 = (Inr (outA, a'), w4)"
    and runB: "run_steps m flow tenant (step_begin flow inputB b) [] w5 = (Inr (outB, b'), w6)"
    and commitA: "im_inv s7" "step_commit m (is_new a) (sn_revision a) a' (s7, t7, w7) = (Inr (), (s8, t8, w8))"
    and later: "im_inv s9" "im_stored s9 k = im_stored s8 k"
  shows "fst (step_commit m (is_new b) (sn_revision b) b' (s9, t9, w9)) \<noteq> Inr () \<and>
    im_stored (fst (snd (step_commit m (is_new b) (sn_revision b) b' (s9, t9, w9)))) = im_stored s9"
proof -
  obtain sA tA wA sB tB wB where h: "hA = (sA, tA, wA)" "hB = (sB, tB, wB)" by (cases hA, cases hB) auto
  have live: "sessions.live (pf_now (sm_platform m) w) s k" "sessions.live (pf_now (sm_platform m) w2) s2 k"
    using stored fresh by (simp_all add: sessions.live_def)
  have ab: "a = (ss_snapshot e)\<lparr>sn_revision := ss_revision e\<rparr>" "b = a"
    using sessions.step_load_ok(4) [OF loadA [unfolded h] assms(2,1) k live(1)]
      sessions.step_load_ok(4) [OF loadB [unfolded h] assms(3,1) k live(2)] stored by auto
  obtain o1 n1 o2 n2 where o: "outA = (o1, n1)" "outB = (o2, n2)" by (cases outA, cases outB) auto
  have keys: "sn_key a' = k" "sn_key b' = k"
    using run_steps_keeps [OF runA [unfolded o]] run_steps_keeps [OF runB [unfolded o]]
      step_begin_simps(3) [OF len] ab stored(3) by simp_all
  have later': "im_stored s9 (sn_key a') = im_stored s8 (sn_key a')" and "sn_key b' = sn_key a'"
    using later(2) keys by simp_all
  note once = sessions.step_commit_once [OF commitA(2) commitA(1) assms(1) later(1) later'(1) old(2) old(1) this(2)]
  show ?thesis using once [of t9 w9] ab(2) old(1) by simp
qed

text \<open>A session of the demonstration that waits for its input at revision 4, and two turns over it.\<close>

definition demo_key :: session_key where
  "demo_key = session_key_new demo_tenant ''p'' ''f'' (Some ''s'')"

definition demo_waiting :: session_snapshot where
  "demo_waiting = (snapshot_new demo_key ''s'')\<lparr>sn_revision := 4, sn_cursor := \<lparr>cu_position = 1, cu_outbox_seq = 1\<rparr>,
     sn_waiting := Some \<lparr>ws_reason = ''name'', ws_recorded_at = 0\<rparr>\<rparr>"

definition demo_sessions :: session_map where
  "demo_sessions = [(demo_key, \<lparr>se_snapshot = demo_waiting, se_cas = 4, se_expires_at = Some 5\<rparr>)]"

abbreviation demo_sm :: "(session_map, state_map, nat) state_machine" where
  "demo_sm \<equiv> demo_machine in_memory_sessions (demo_flow demo_steps)"

definition demo_turn :: "json \<Rightarrow> session_snapshot" where
  "demo_turn input =
     (case run_steps demo_sm (demo_flow demo_steps) demo_tenant (step_begin (demo_flow demo_steps) input demo_waiting) [] 0 of
        (Inr (out, sn), w) \<Rightarrow> sn
      | _ \<Rightarrow> demo_waiting)"

definition demo_committed :: session_map where
  "demo_committed = fst (snd (step_commit demo_sm False 4 (demo_turn (JInt 1)) (demo_sessions, [], 0)))"

lemma demo_turn_run:
  obtains out w where "run_steps demo_sm (demo_flow demo_steps) demo_tenant
      (step_begin (demo_flow demo_steps) input demo_waiting) [] 0 = (Inr (out, demo_turn input), w)"
proof -
  obtain out nodes sn w where "run_steps demo_sm (demo_flow demo_steps) demo_tenant
      (step_begin (demo_flow demo_steps) input demo_waiting) [] 0 = (Inr ((out, nodes), sn), w)"
    using run_succeeds [OF demo_ready] by blast
  then show thesis using that by (simp add: demo_turn_def)
qed

lemma demo_turn_key: "sn_key (demo_turn input) = demo_key"
proof -
  obtain out w where run: "run_steps demo_sm (demo_flow demo_steps) demo_tenant
      (step_begin (demo_flow demo_steps) input demo_waiting) [] 0 = (Inr (out, demo_turn input), w)"
    by (rule demo_turn_run)
  obtain o1 n1 where "out = (o1, n1)" by fastforce
  with run_steps_keeps [OF run [unfolded this]] show ?thesis
    using step_begin_simps(3) [of "demo_flow demo_steps" input demo_waiting] demo_steps_facts
    by (simp add: demo_waiting_def snapshot_new_def)
qed

lemma demo_commit:
  "step_commit demo_sm False 4 (demo_turn (JInt 1)) (demo_sessions, [], 0) =
     (Inr (), (demo_committed, snd (set_json demo_key (sn_state (demo_turn (JInt 1))) []), 0))"
  by (simp add: demo_committed_def step_commit_def sbind_def on_state_def on_sessions_def demo_machine_simps demo_turn_key
      in_memory_sessions_def im_update_cas_def demo_sessions_def Let_def set_json_def demo_defs in_memory_state_def)

lemma demo_load:
  "step_load demo_sm demo_tenant ''p'' ''f'' (Some ''s'') (demo_sessions, [], 0) =
     (Inr (demo_flow demo_steps, demo_waiting), (demo_sessions, [], 0))"
  by (simp add: step_load_def sbind_def demo_machine_simps demo_steps_facts ensure_policy_budget_def policy_default_def
      on_sessions_def in_memory_sessions_def im_get_def demo_sessions_def demo_key_def [symmetric] entry_expired_def Let_def
      demo_waiting_def demo_steps_def)

theorem commit_one_winner_witness:
  "fst (step_commit demo_sm False 4 (demo_turn (JInt 2)) (demo_committed, [], 0)) \<noteq> Inr () \<and>
   im_stored (fst (snd (step_commit demo_sm False 4 (demo_turn (JInt 2)) (demo_committed, [], 0)))) = im_stored demo_committed"
proof -
  let ?e = "\<lparr>ss_revision = 4, ss_snapshot = demo_waiting, ss_expires_at = 5\<rparr>"
  have inv: "im_inv demo_sessions" by (simp add: im_inv_def demo_sessions_def)
  have stored: "im_stored demo_sessions demo_key = Some ?e" by (simp add: im_stored_def demo_sessions_def)
  have old: "is_new demo_waiting = False" "sn_revision demo_waiting = 4" "sn_key demo_waiting = demo_key"
    by (simp_all add: is_new_def demo_waiting_def snapshot_new_def)
  have inv2: "im_inv demo_committed" using sessions.step_commit_ok(2) [OF demo_commit inv] demo_machine_simps(1) by blast
  obtain o1 w1 where run1: "run_steps demo_sm (demo_flow demo_steps) demo_tenant
      (step_begin (demo_flow demo_steps) (JInt 1) demo_waiting) [] 0 = (Inr (o1, demo_turn (JInt 1)), w1)"
    by (rule demo_turn_run)
  obtain o2 w2 where run2: "run_steps demo_sm (demo_flow demo_steps) demo_tenant
      (step_begin (demo_flow demo_steps) (JInt 2) demo_waiting) [] 0 = (Inr (o2, demo_turn (JInt 2)), w2)"
    by (rule demo_turn_run)
  have first: "step_commit demo_sm (is_new demo_waiting) (sn_revision demo_waiting) (demo_turn (JInt 1)) (demo_sessions, [], 0) =
      (Inr (), (demo_committed, snd (set_json demo_key (sn_state (demo_turn (JInt 1))) []), 0))"
    unfolding old by (rule demo_commit)
  show ?thesis
    using commit_one_winner [where m = demo_sm and e = ?e, OF _ inv inv demo_key_def stored stored _ _ _ demo_load demo_load _ _ _
        run1 run2 inv first inv2 refl, of "[]" 0] old
    by (simp add: demo_machine_simps demo_steps_facts u64_max_def demo_steps_def)
qed


text \<open>
  A turn of a pack flow, as the assembled runner has it (a session host that keeps nothing): every turn, the first
  one or a later one of the same session, calls the pack adapter with the message as its payload, through the retry loop; it
  answers the adapter's response and the outputs of its nodes, or fails with the adapter's error, and leaves the sessions as they are.
\<close>

theorem pack_flow_turn:
  assumes "hb_session (sm_host m) = discard_sessions"
    and "hget (sm_flows m) (pack_id, flow_id) = Some (build_flow_definition d)"
    and "1 \<le> po_max_egress_adapters (sm_policy m)"
    and "hget (sm_adapters m) pack_flow_adapter = Some adapter"
    and "pf_to_vec (sm_platform m) input = Inr bytes" and "length bytes \<le> po_max_payload_bytes (sm_policy m)"
    and "\<And>span fs v. hb_emit (sm_host m) span fs v = (Inr (), v)"
    and "\<And>k v u. fst (to_set_json (hb_state (sm_host m)) k v u) = Inr ()"
  shows "case retry_with_jitter (sm_platform m) (po_retry (sm_policy m)) (adapter (pack_call d input))
        (after_id (sm_platform m) hint w) of
      (Inl e, w1) \<Rightarrow> step m tenant pack_id flow_id hint input (s, t, w) = (Inl e, (s, t, w1))
    | (Inr (response, nodes), w1) \<Rightarrow>
        \<exists>t1. step m tenant pack_id flow_id hint input (s, t, w) =
          (Inr (done_outcome response, extend_nodes [] nodes), (s, t1, w1))"
  by (rule pack_turn [OF assms])

definition demo_descriptor :: flow_descriptor where
  "demo_descriptor = \<lparr>ds_id = ''f'', ds_pack_id = ''p'', ds_version = ''1'', ds_description = None\<rparr>"

theorem pack_flow_turn_witness:
  "\<exists>t1. step (demo_machine discard_sessions (build_flow_definition demo_descriptor)) demo_tenant ''p'' ''f'' (Some ''s'')
     (JInt 5) ((), [], 3) = (Inr (done_outcome (JInt 5), []), ((), t1, 4))"
proof -
  let ?m = "demo_machine (discard_sessions :: unit session_ops) (build_flow_definition demo_descriptor)"
  have flow: "hget (sm_flows ?m) (''p'', ''f'') = Some (build_flow_definition demo_descriptor)"
    by (simp add: demo_defs demo_descriptor_def build_flow_definition_def)
  have "retry_with_jitter demo_platform (po_retry policy_default) (demo_adapter (pack_call demo_descriptor (JInt 5)))
      (after_id demo_platform (Some ''s'') 3) = (Inr (JInt 5, []), 4)"
    by (simp add: retry_with_jitter_def retry_loop.simps [of demo_platform] demo_adapter_def pack_call_def after_id_def)
  then show ?thesis
    using pack_flow_turn [where m = ?m and hint = "Some ''s''" and input = "JInt 5" and bytes = "[]" and adapter = demo_adapter
        and w = 3 and s = "()" and t = "[]" and tenant = demo_tenant, OF _ flow]
    by (simp add: demo_machine_simps policy_default_def demo_platform_def extend_nodes_def)
qed

text \<open>
  C38. The outbox of a session is never consulted with success: of a session that respects the numbering of its outbox, as
  a new one does and every run keeps it, a run with its outbox erased does the same, the same calls in the same order
  with the same results and errors, and leaves the same session but for the outbox itself. The deduplication of an adapter call
  by sequence number and payload hash has no effect.
\<close>

theorem outbox_unused:
  assumes "session_wf flow sn" and "length (fd_steps flow) \<le> u64_max"
  shows "session_wf flow (snapshot_new k i) \<and> session_wf flow (step_begin flow input sn) \<and>
    agree (run_steps m flow tenant sn nodes w) (run_steps m flow tenant (sn\<lparr>sn_outbox := []\<rparr>) nodes w) \<and>
    (\<forall>out nodes' sn' w'. run_steps m flow tenant sn nodes w = (Inr ((out, nodes'), sn'), w') \<longrightarrow> session_wf flow sn')"
proof -
  have wf: "session_wf flow (sn\<lparr>sn_outbox := []\<rparr>)" using assms(1) by (simp add: session_wf_def)
  have "agree (run_steps m flow tenant sn nodes w) (run_steps m flow tenant (sn\<lparr>sn_outbox := []\<rparr>) nodes w)"
    by (rule run_steps_same [OF assms(1) wf _ assms(2)]) simp
  then show ?thesis using session_wf_new session_wf_begin [OF assms(2,1)] run_steps_wf [OF _ assms]
    by (intro conjI allI impI) auto
qed

text \<open>A session of the demonstration with a full outbox.\<close>

definition demo_outbox :: session_snapshot where
  "demo_outbox = demo_waiting\<lparr>sn_outbox := [((0, ''h''), \<lparr>oe_seq = 0, oe_hash = ''h'', oe_response = JNull\<rparr>)]\<rparr>"

theorem outbox_unused_witness:
  "agree (run_steps demo_sm (demo_flow demo_steps) demo_tenant demo_outbox [] 0)
     (run_steps demo_sm (demo_flow demo_steps) demo_tenant (demo_outbox\<lparr>sn_outbox := []\<rparr>) [] 0)"
proof -
  have "session_wf (demo_flow demo_steps) demo_outbox"
    by (simp add: session_wf_def demo_outbox_def demo_waiting_def snapshot_new_def demo_steps_facts demo_steps_def)
  moreover have "length (fd_steps (demo_flow demo_steps)) \<le> u64_max" using demo_steps_facts by simp
  ultimately show ?thesis using outbox_unused [where m = demo_sm and tenant = demo_tenant and nodes = "[]" and w = 0] by blast
qed

subsection \<open>Retries\<close>

text \<open>
  C39. The retry loop makes between one and the allowed number of attempts: its result and world are those of one attempt, every
  attempt before it failed with an error worth retrying, and it stops at the first attempt that succeeds or fails
  terminally, or at the last one allowed. Between attempts it waits at least the base delay and at most
  twice the largest delay (and never less than the base, whatever the random source gives within its bound).
\<close>

theorem retry_attempts:
  assumes "\<And>cap v. fst (pf_random pf cap v) \<le> cap"
  shows "\<exists>k. k < max (rp_max_attempts p) 1 \<and>
      retry_with_jitter pf p op w = op (attempt_world pf p op 0 k w) \<and>
      (\<forall>j<k. retryable (fst (op (attempt_world pf p op 0 j w)))) \<and>
      (retryable (fst (op (attempt_world pf p op 0 k w))) \<longrightarrow> Suc k = max (rp_max_attempts p) 1) \<and>
      (\<forall>a v. backoff_base p a \<le> fst (backoff_with_jitter pf p a v) \<and>
         fst (backoff_with_jitter pf p a v) \<le> 2 * max (as_millis (rp_max_backoff p)) 1)"
  using retry_loop_attempts [of 0 p pf op w] backoff_bounds [OF assms, where p = p] by (simp add: retry_with_jitter_def)

text \<open>An operation that fails twice and then answers the number of failures.\<close>

definition demo_flaky :: "(nat, runner_error, nat) st_res" where
  "demo_flaky w = (if w < 2 then Inl (AdapterCallFailed ''busy'') else Inr w, Suc w)"

theorem retry_attempts_witness:
  "\<exists>k. k < max (rp_max_attempts retry_policy_default) 1 \<and>
     retry_with_jitter demo_platform retry_policy_default demo_flaky 0 =
       demo_flaky (attempt_world demo_platform retry_policy_default demo_flaky 0 k 0) \<and>
     (\<forall>j<k. retryable (fst (demo_flaky (attempt_world demo_platform retry_policy_default demo_flaky 0 j 0)))) \<and>
     (retryable (fst (demo_flaky (attempt_world demo_platform retry_policy_default demo_flaky 0 k 0))) \<longrightarrow>
        Suc k = max (rp_max_attempts retry_policy_default) 1)"
  using retry_attempts [where pf = demo_platform and p = retry_policy_default and op = demo_flaky and w = 0]
  by (auto simp: demo_platform_def)

subsection \<open>The turn lock\<close>

text \<open>
  C40. The turn lock serialises the turns of a session, in every state that any number of tasks can reach by entering,
  nesting, waiting, finishing, panicking and being cancelled: at most one task is inside the turn of a key; a task that waits for a
  key can go on unless another task is inside that very key, so that sessions never wait for each other and a nested turn of the same
  task never waits; and a table without activity is empty.
\<close>

theorem turn_lock_exclusive:
  assumes "turn_step\<^sup>*\<^sup>* turn_locks_new st"
  shows "(inside st i k \<longrightarrow> inside st j k \<longrightarrow> i = j) \<and>
    (\<forall>s. i < length (tl_tasks st) \<longrightarrow> tt_wait (tl_tasks st ! i) = Some (k, s) \<longrightarrow>
       turn_step st (run_acquire i k s st) \<or> (\<exists>j. j \<noteq> i \<and> inside st j k)) \<and>
    (i < length (tl_tasks st) \<longrightarrow> k \<in> set (held (tl_tasks st ! i)) \<longrightarrow> tt_wait (tl_tasks st ! i) = None \<longrightarrow>
       tt_wait (tl_tasks (run_enter i k st) ! i) = None \<and> inside (run_enter i k st) i k) \<and>
    ((\<forall>tk \<in> set (tl_tasks st). tt_frames tk = [] \<and> tt_wait tk = None \<and> tt_sweep tk = None) \<longrightarrow> tl_slots st = [])"
proof -
  note inv = reachable_inv [OF assms]
  have "i < length (tl_tasks st) \<Longrightarrow> k \<in> set (held (tl_tasks st ! i)) \<Longrightarrow> tt_wait (tl_tasks st ! i) = None \<Longrightarrow>
      tt_wait (tl_tasks (run_enter i k st) ! i) = None \<and> inside (run_enter i k st) i k"
    by (simp add: run_enter_def Let_def inside_def)
  then show ?thesis using inside_unique [OF inv] blocked_by_holder [OF inv] idle_empty [OF inv] by blast
qed

text \<open>Two tasks: one is inside the turn of a session, the other waits for it.\<close>

definition demo_locks :: turn_locks where
  "demo_locks = run_enter 1 ''s'' (run_acquire 0 ''s'' 0 (run_enter 0 ''s''
     (turn_locks_new\<lparr>tl_tasks := [idle_task, idle_task]\<rparr>)))"

lemma demo_locks_reachable: "turn_step\<^sup>*\<^sup>* turn_locks_new demo_locks"
proof -
  let ?a = "turn_locks_new\<lparr>tl_tasks := [idle_task]\<rparr>" and ?b = "turn_locks_new\<lparr>tl_tasks := [idle_task, idle_task]\<rparr>"
  have "turn_step turn_locks_new ?a" "turn_step ?a ?b"
    using turn_step.spawn [of turn_locks_new] turn_step.spawn [of ?a] by (simp_all add: turn_locks_new_def)
  moreover have "turn_step ?b (run_enter 0 ''s'' ?b)"
    by (rule turn_step.enter) (simp_all add: idle_task_def)
  moreover have "turn_step (run_enter 0 ''s'' ?b) (run_acquire 0 ''s'' 0 (run_enter 0 ''s'' ?b))"
    by (rule turn_step.acquire) (simp_all add: run_enter_def idle_task_def held_def turn_locks_new_def Let_def)
  moreover have "turn_step (run_acquire 0 ''s'' 0 (run_enter 0 ''s'' ?b)) demo_locks"
    unfolding demo_locks_def
    by (rule turn_step.enter)
      (simp_all add: run_acquire_def run_enter_def idle_task_def held_def turn_locks_new_def Let_def)
  ultimately show ?thesis by (meson rtranclp.rtrancl_refl rtranclp.rtrancl_into_rtrancl)
qed

theorem turn_lock_exclusive_witness:
  "inside demo_locks 0 ''s'' \<and> \<not> inside demo_locks 1 ''s'' \<and> tt_wait (tl_tasks demo_locks ! 1) = Some (''s'', 0)"
proof -
  have "inside demo_locks 0 ''s''" and "tt_wait (tl_tasks demo_locks ! 1) = Some (''s'', 0)"
    by (simp_all add: demo_locks_def run_acquire_def run_enter_def idle_task_def held_def turn_locks_new_def Let_def inside_def)
  then show ?thesis using turn_lock_exclusive [OF demo_locks_reachable, of 0 "''s''" 1] by auto
qed

end
