(* ===== verification/Engine_State.thy ===== *)
theory Engine_State
  imports Prelude
begin

section \<open>The execution state of a flow\<close>

text \<open>
  The data of \<open>crates/greentic-runner-host/src/runner/engine.rs\<close>: strings as UTF-8 bytes, what a run reads of an
  inbound activity, the outputs of nodes, the state of a run with its counters and parks, and the final reply.
  JSON objects are in key order, as everywhere in this development. What the template language shows of a
  node's output (\<open>node_output_view\<close>) is an argument.
\<close>

subsection \<open>Strings\<close>

text \<open>The UTF-8 encodings of the characters that \<open>str::trim\<close> removes.\<close>

definition space_codes :: "string list" where
  "space_codes = map (map char_of)
     ([[9], [10], [11], [12], [13], [32], [0xC2, 0x85], [0xC2, 0xA0], [0xE1, 0x9A, 0x80 :: nat]] @
      map (\<lambda>n. [0xE2, 0x80, n]) ([0x80..<0x8B] @ [0xA8, 0xA9, 0xAF]) @ [[0xE2, 0x81, 0x9F], [0xE3, 0x80, 0x80]])"

fun strip_code :: "string list \<Rightarrow> string \<Rightarrow> string option" where
  "strip_code [] s = None"
| "strip_code (c # cs) s = (if c \<noteq> [] \<and> starts_with c s then Some (drop (length c) s) else strip_code cs s)"

lemma strip_code_shorter: "strip_code cs s = Some s' \<Longrightarrow> length s' < length s"
proof (induction cs)
  case (Cons c cs)
  show ?case
  proof (cases "c \<noteq> [] \<and> starts_with c s")
    case True
    then have "s \<noteq> []" by (auto simp: starts_with_def)
    with True Cons.prems show ?thesis by auto
  next
    case False
    with Cons show ?thesis by auto
  qed
qed simp

function trim_codes :: "string list \<Rightarrow> string \<Rightarrow> string" where
  "trim_codes cs s = (case strip_code cs s of None \<Rightarrow> s | Some s' \<Rightarrow> trim_codes cs s')"
  by pat_completeness auto
termination by (relation "measure (\<lambda>(cs, s). length s)") (auto dest: strip_code_shorter)

declare trim_codes.simps [simp del]

definition str_trim :: "string \<Rightarrow> string" where
  "str_trim s = rev (trim_codes (map rev space_codes) (rev (trim_codes space_codes s)))"

text \<open>A string of printable ASCII characters other than the blank is its own trim.\<close>

definition visible :: "char \<Rightarrow> bool" where
  "visible c \<longleftrightarrow> 32 < (of_char c :: nat) \<and> (of_char c :: nat) < 127"

lemma space_codes_invisible: "code \<in> set space_codes \<Longrightarrow> x \<in> set code \<Longrightarrow> \<not> visible x"
  by (auto simp: space_codes_def visible_def)

lemma trim_codes_visible:
  assumes "list_all visible s" "\<And>code x. code \<in> set cs \<Longrightarrow> x \<in> set code \<Longrightarrow> \<not> visible x"
  shows "trim_codes cs s = s"
proof -
  have "strip_code cs s = None"
    using assms
    by (induction cs) (auto simp: starts_with_def list_all_iff neq_Nil_conv split: if_splits, metis in_set_takeD list.set_intros(1))
  then show ?thesis by (simp add: trim_codes.simps [of cs s])
qed

lemma str_trim_visible: "list_all visible s \<Longrightarrow> str_trim s = s"
proof -
  assume s: "list_all visible s"
  have "trim_codes (map rev space_codes) (rev s) = rev s"
    using s by (intro trim_codes_visible) (auto simp: list_all_iff dest: space_codes_invisible)
  with trim_codes_visible [OF s space_codes_invisible] show ?thesis by (simp add: str_trim_def)
qed

definition unwrap_or :: "'a \<Rightarrow> 'a option \<Rightarrow> 'a" where
  "unwrap_or d x = (case x of Some v \<Rightarrow> v | None \<Rightarrow> d)"

definition trim_quotes :: "string \<Rightarrow> string" where
  "trim_quotes s = rev (dropWhile (\<lambda>c. c = CHR 0x22) (rev (dropWhile (\<lambda>c. c = CHR 0x22) s)))"

definition ascii_lower :: "char \<Rightarrow> char" where
  "ascii_lower c = (let n = of_char c :: nat in if 65 \<le> n \<and> n \<le> 90 then char_of (n + 32) else c)"

definition eq_ignore_ascii_case :: "string \<Rightarrow> string \<Rightarrow> bool" where
  "eq_ignore_ascii_case a b \<longleftrightarrow> map ascii_lower a = map ascii_lower b"

fun str_contains :: "string \<Rightarrow> string \<Rightarrow> bool" where
  "str_contains n [] \<longleftrightarrow> n = []"
| "str_contains n (c # s) \<longleftrightarrow> starts_with n (c # s) \<or> str_contains n s"

subsection \<open>The inbound activity\<close>

text \<open>\<open>Value::pointer\<close> over keys that are not numbers.\<close>

fun json_pointer :: "string list \<Rightarrow> json \<Rightarrow> json option" where
  "json_pointer [] v = Some v"
| "json_pointer (k # ks) v = Option.bind (json_get k v) (json_pointer ks)"

fun json_as_bool :: "json \<Rightarrow> bool option" where
  "json_as_bool (JBool b) = Some b"
| "json_as_bool _ = None"

fun json_fields :: "json \<Rightarrow> (string \<times> json) list option" where
  "json_fields (JObject fs) = Some fs"
| "json_fields _ = None"

abbreviation get_str :: "string \<Rightarrow> json \<Rightarrow> string option" where
  "get_str k v \<equiv> Option.bind (json_get k v) json_as_str"

abbreviation get_bool :: "string \<Rightarrow> json \<Rightarrow> bool option" where
  "get_bool k v \<equiv> Option.bind (json_get k v) json_as_bool"

definition obj_remove :: "string \<Rightarrow> json \<Rightarrow> json" where
  "obj_remove k v = (case v of JObject fs \<Rightarrow> JObject (filter (\<lambda>f. fst f \<noteq> k) fs) | _ \<Rightarrow> v)"

text \<open>\<open>entry().or_insert\<close>: a key that is present keeps_io its value.\<close>

definition bt_or_insert :: "string \<Rightarrow> json \<Rightarrow> (string \<times> json) list \<Rightarrow> (string \<times> json) list" where
  "bt_or_insert k v fs = (if map_of fs k = None then bt_insert k v fs else fs)"

definition SUBMIT_MARKER_KEY :: string where "SUBMIT_MARKER_KEY = ''greentic_submit''"

definition resolve_entry_metadata :: "json \<Rightarrow> json option" where
  "resolve_entry_metadata entry =
     or_else (json_pointer [''input'', ''metadata''] entry) (json_pointer [''metadata''] entry)"

definition envelope_of :: "json \<Rightarrow> json" where
  "envelope_of entry =
     (case json_get ''input'' entry of Some v \<Rightarrow> if is_object v then v else entry | None \<Rightarrow> entry)"

definition submitted_fields :: "json \<Rightarrow> (string \<times> json) list" where
  "submitted_fields entry =
     (let meta = (case Option.bind (resolve_entry_metadata entry) json_fields of Some fs \<Rightarrow> fs | None \<Rightarrow> []);
          root = (case json_fields (envelope_of entry) of Some fs \<Rightarrow> fs | None \<Rightarrow> []);
          fields = fold (\<lambda>(k, v). bt_insert k v) (filter (\<lambda>f. fst f \<noteq> ''action'' \<and> fst f \<noteq> SUBMIT_MARKER_KEY) meta) []
      in fold (\<lambda>(k, v). bt_insert k v) (filter (\<lambda>f. fst f \<noteq> ''metadata'' \<and> fst f \<noteq> ''text'') root) fields)"

definition alias_input_to_entry :: "json \<Rightarrow> json" where
  "alias_input_to_entry entry =
     (case entry of
        JObject fs \<Rightarrow> if map_of fs ''input'' = None then JObject (bt_insert ''input'' entry fs) else entry
      | _ \<Rightarrow> entry)"

definition merge_submitted_fields_into_entry :: "json \<Rightarrow> (string \<times> json) list \<Rightarrow> json" where
  "merge_submitted_fields_into_entry entry fields =
     (case entry of JObject fs \<Rightarrow> JObject (fold (\<lambda>(k, v). bt_or_insert k v) fields fs) | _ \<Rightarrow> entry)"

text \<open>\<open>pointer_mut\<close> to \<open>/input/metadata\<close> and \<open>/metadata\<close>, when it is an object.\<close>

definition drop_action :: "json \<Rightarrow> json" where
  "drop_action v =
     (case v of
        JObject fs \<Rightarrow> JObject (map (\<lambda>(k, x). (k, if k = ''metadata'' then obj_remove ''action'' x else x)) fs)
      | _ \<Rightarrow> v)"

definition consume_routing_action :: "json \<Rightarrow> json" where
  "consume_routing_action entry =
     (case entry of
        JObject fs \<Rightarrow> drop_action (JObject (map (\<lambda>(k, x). (k, if k = ''input'' then drop_action x else x)) fs))
      | _ \<Rightarrow> entry)"

subsection \<open>Node outputs\<close>

record node_output =
  no_ok :: bool
  no_payload :: json
  no_meta :: json
  no_created :: "json list"

definition node_output_new :: "json \<Rightarrow> node_output" where
  "node_output_new payload = \<lparr>no_ok = True, no_payload = payload, no_meta = JNull, no_created = []\<rparr>"

definition with_meta :: "json \<Rightarrow> json \<Rightarrow> node_output" where
  "with_meta payload meta = \<lparr>no_ok = True, no_payload = payload, no_meta = meta, no_created = []\<rparr>"

definition errored :: "json \<Rightarrow> node_output" where
  "errored payload =
     (let m1 = (case get_str ''outcome'' payload of Some t \<Rightarrow> bt_insert ''outcome'' (JString t) [] | None \<Rightarrow> []);
          m2 = (case json_get ''error'' payload of Some v \<Rightarrow> bt_insert ''error'' v m1 | None \<Rightarrow> m1)
      in \<lparr>no_ok = False, no_payload = payload, no_meta = (if m2 = [] then JNull else JObject m2), no_created = []\<rparr>)"

subsection \<open>The state of a run\<close>

text \<open>A parked approval: the correlation id of its request and the fingerprint of its token.\<close>

record parked_approval =
  pa_correlation_id :: "string option"
  pa_token_fingerprint :: "string option"

record pending_answers =
  pc_node_id :: string
  pc_answers :: "(string \<times> json) list"

record exec_state =
  xs_entry :: json
  xs_input :: json
  xs_nodes :: "(string, node_output) hmap"
  xs_node_order :: "string list"
  xs_egress :: "json list"
  xs_last_output :: "json option"
  xs_redirect_count :: nat
  xs_vars :: "(string \<times> json) list"
  xs_park_turns :: "(string, nat) hmap"
  xs_agent_await :: "(string, unit) hmap"
  xs_created :: "json list"
  xs_approval_await :: "(string, string option) hmap"
  xs_approval_token :: "(string, string) hmap"
  xs_tool_await :: "(string, unit) hmap"
  xs_card_answers :: "pending_answers option"
  xs_resumed_at :: "string option"

definition exec_state_new :: "json \<Rightarrow> exec_state" where
  "exec_state_new input =
     \<lparr>xs_entry = input, xs_input = input, xs_nodes = [], xs_node_order = [], xs_egress = [], xs_last_output = None,
      xs_redirect_count = 0, xs_vars = [], xs_park_turns = [], xs_agent_await = [], xs_created = [],
      xs_approval_await = [], xs_approval_token = [], xs_tool_await = [], xs_card_answers = None, xs_resumed_at = None\<rparr>"

definition record_node_output :: "string \<Rightarrow> node_output \<Rightarrow> exec_state \<Rightarrow> exec_state" where
  "record_node_output i out st =
     st\<lparr>xs_node_order := filter (\<lambda>j. j \<noteq> i) (xs_node_order st) @ [i], xs_nodes := hput i out (xs_nodes st)\<rparr>"

definition outputs_map :: "(json \<Rightarrow> json) \<Rightarrow> exec_state \<Rightarrow> (string \<times> json) list" where
  "outputs_map view st = fold (\<lambda>(i, out). bt_insert i (view (no_payload out))) (xs_nodes st) []"

definition push_egress :: "json \<Rightarrow> exec_state \<Rightarrow> exec_state" where
  "push_egress v st = st\<lparr>xs_egress := xs_egress st @ [v]\<rparr>"

definition replace_input :: "json \<Rightarrow> exec_state \<Rightarrow> exec_state" where
  "replace_input v st = st\<lparr>xs_input := v\<rparr>"

definition clear_egress :: "exec_state \<Rightarrow> exec_state" where
  "clear_egress st = st\<lparr>xs_egress := [], xs_created := []\<rparr>"

definition MAX_CREATED_PER_TURN :: nat where "MAX_CREATED_PER_TURN = 20"

definition note_created_artifacts :: "json list \<Rightarrow> exec_state \<Rightarrow> exec_state" where
  "note_created_artifacts created st =
     fold (\<lambda>file st.
        if MAX_CREATED_PER_TURN \<le> length (xs_created st) then st
        else
          (let i = get_str ''id'' file; known = list_ex (\<lambda>seen. get_str ''id'' seen = i) (xs_created st) in
           if i \<noteq> None \<and> \<not> known then st\<lparr>xs_created := xs_created st @ [file]\<rparr> else st)) created st"

definition increment_redirect_count :: "exec_state \<Rightarrow> exec_state" where
  "increment_redirect_count st = st\<lparr>xs_redirect_count := sat_add32 (xs_redirect_count st) 1\<rparr>"

definition reset_redirect_count :: "exec_state \<Rightarrow> exec_state" where
  "reset_redirect_count st = st\<lparr>xs_redirect_count := 0\<rparr>"

definition bump_park_turns :: "string \<Rightarrow> exec_state \<Rightarrow> nat \<times> exec_state" where
  "bump_park_turns i st =
     (let n = sat_add32 (hm_get_or 0 (xs_park_turns st) i) 1 in (n, st\<lparr>xs_park_turns := hput i n (xs_park_turns st)\<rparr>))"

definition reset_park_turns :: "string \<Rightarrow> exec_state \<Rightarrow> exec_state" where
  "reset_park_turns i st = st\<lparr>xs_park_turns := hdel i (xs_park_turns st)\<rparr>"

definition mark_agent_await :: "string \<Rightarrow> exec_state \<Rightarrow> exec_state" where
  "mark_agent_await i st = st\<lparr>xs_agent_await := hput i () (xs_agent_await st)\<rparr>"

definition take_agent_await :: "string \<Rightarrow> exec_state \<Rightarrow> bool \<times> exec_state" where
  "take_agent_await i st =
     (hget (xs_agent_await st) i \<noteq> None, st\<lparr>xs_agent_await := hdel i (xs_agent_await st)\<rparr>)"

definition mark_tool_await :: "string \<Rightarrow> exec_state \<Rightarrow> exec_state" where
  "mark_tool_await i st = st\<lparr>xs_tool_await := hput i () (xs_tool_await st)\<rparr>"

definition take_tool_await :: "string \<Rightarrow> exec_state \<Rightarrow> bool \<times> exec_state" where
  "take_tool_await i st = (hget (xs_tool_await st) i \<noteq> None, st\<lparr>xs_tool_await := hdel i (xs_tool_await st)\<rparr>)"

definition mark_approval_await :: "string \<Rightarrow> parked_approval \<Rightarrow> exec_state \<Rightarrow> exec_state" where
  "mark_approval_await i p st =
     st\<lparr>xs_approval_await := hput i (pa_correlation_id p) (xs_approval_await st),
        xs_approval_token :=
          (case pa_token_fingerprint p of
             Some f \<Rightarrow> hput i f (xs_approval_token st) | None \<Rightarrow> hdel i (xs_approval_token st))\<rparr>"

definition take_approval_await :: "string \<Rightarrow> exec_state \<Rightarrow> parked_approval option \<times> exec_state" where
  "take_approval_await i st =
     (case hget (xs_approval_await st) i of
        None \<Rightarrow> (None, st)
      | Some c \<Rightarrow>
          (Some \<lparr>pa_correlation_id = c, pa_token_fingerprint = hget (xs_approval_token st) i\<rparr>,
           st\<lparr>xs_approval_await := hdel i (xs_approval_await st), xs_approval_token := hdel i (xs_approval_token st)\<rparr>))"

definition pending_approvals :: "exec_state \<Rightarrow> parked_approval list" where
  "pending_approvals st =
     map (\<lambda>(i, c). \<lparr>pa_correlation_id = c, pa_token_fingerprint = hget (xs_approval_token st) i\<rparr>) (xs_approval_await st)"

text \<open>The park of a node, as \<open>take_approval_await\<close> would return it.\<close>

definition parked_at :: "exec_state \<Rightarrow> string \<Rightarrow> parked_approval option" where
  "parked_at st i = fst (take_approval_await i st)"

lemma parked_at_mark [simp]: "parked_at (mark_approval_await i p st) i = Some p"
  by (simp add: parked_at_def take_approval_await_def mark_approval_await_def hm_simps split: option.splits)

lemma parked_at_take [simp]: "parked_at (snd (take_approval_await i st)) i = None"
  by (simp add: parked_at_def take_approval_await_def hm_simps split: option.splits)

subsection \<open>The final reply\<close>

definition finalize_reply :: "json option \<Rightarrow> exec_state \<Rightarrow> json" where
  "finalize_reply final st =
     (if xs_egress st = [] then case final of Some v \<Rightarrow> v | None \<Rightarrow> JNull
      else
        JArray (case final of
            None \<Rightarrow> xs_egress st
          | Some JNull \<Rightarrow> xs_egress st
          | Some (JArray items) \<Rightarrow> xs_egress st @ items
          | Some v \<Rightarrow> if last (xs_egress st) = v then xs_egress st else xs_egress st @ [v]))"

definition CREATED_ARTIFACTS_KEY :: string where "CREATED_ARTIFACTS_KEY = ''created_artifacts''"

definition attach_created :: "json \<Rightarrow> json list \<Rightarrow> json" where
  "attach_created reply created =
     (let reply = (case reply of
            JArray items \<Rightarrow> JArray (map (obj_remove CREATED_ARTIFACTS_KEY) items)
          | _ \<Rightarrow> obj_remove CREATED_ARTIFACTS_KEY reply);
          files = JArray created
      in if created = [] then reply
         else
           (case reply of
              JObject fs \<Rightarrow> JObject (bt_insert CREATED_ARTIFACTS_KEY files fs)
            | JNull \<Rightarrow> json_obj [(CREATED_ARTIFACTS_KEY, files)]
            | JString text \<Rightarrow> json_obj [(''text'', JString text), (CREATED_ARTIFACTS_KEY, files)]
            | JArray items \<Rightarrow>
                JArray
                  (if items = [] then [json_obj [(CREATED_ARTIFACTS_KEY, files)]]
                   else
                     (case last items of
                        JObject fs \<Rightarrow> butlast items @ [JObject (bt_insert CREATED_ARTIFACTS_KEY files fs)]
                      | JString text \<Rightarrow> butlast items @ [json_obj [(''text'', JString text), (CREATED_ARTIFACTS_KEY, files)]]
                      | _ \<Rightarrow> items @ [json_obj [(CREATED_ARTIFACTS_KEY, files)]]))
            | other \<Rightarrow> JArray [other, json_obj [(CREATED_ARTIFACTS_KEY, files)]]))"

definition finalize_with :: "json option \<Rightarrow> exec_state \<Rightarrow> json" where
  "finalize_with final st = attach_created (finalize_reply final st) (xs_created st)"

subsection \<open>Flow variables\<close>

definition seed_vars_and_collect_missing_required ::
  "(string \<times> json) list \<Rightarrow> string list \<Rightarrow> (string \<times> json) list \<Rightarrow> string list \<times> (string \<times> json) list" where
  "seed_vars_and_collect_missing_required vars_init required target =
     (let target' = fold (\<lambda>(k, v). bt_or_insert k v) vars_init target
      in (filter (\<lambda>name. map_of target' name = None) required, target'))"

end
