(* ===== verification/Engine_Error.thy ===== *)
theory Engine_Error
  imports Engine_State
begin

section \<open>Errors of a flow run\<close>

text \<open>
  The errors of \<open>crates/greentic-runner-host/src/runner/engine.rs\<close>: an \<open>anyhow::Error\<close> is a value with the
  causes that its \<open>chain\<close> shows. \<open>Leaf\<close> is an error of any other type, with whether that type is one that
  \<open>should_retry\<close> takes as transient (\<open>TransientFlowError\<close>, an elapsed timeout, an I/O error of a transient
  kind); \<open>Context\<close> is \<open>context\<close> and \<open>with_context\<close>. What \<open>str::to_lowercase\<close> makes of a message is an
  argument, since it needs the Unicode tables.
\<close>

datatype flow_error =
    Leaf bool string
  | Context string flow_error
  | PreEffect flow_error
  | Terminal string "flow_error option" bool

fun err_display :: "flow_error \<Rightarrow> string" where
  "err_display (Leaf _ m) = m"
| "err_display (Context m _) = m"
| "err_display (PreEffect e) = err_display e"
| "err_display (Terminal m _ _) = m"

text \<open>
  The chain of an error: itself and its sources. A \<open>PreEffectError\<close> and a \<open>TerminalFlowError\<close> go on with the
  sources of the error they hold, not with that error.
\<close>

fun err_chain :: "flow_error \<Rightarrow> flow_error list" where
  "err_chain (Leaf t m) = [Leaf t m]"
| "err_chain (Context m e) = Context m e # err_chain e"
| "err_chain (PreEffect e) = PreEffect e # tl (err_chain e)"
| "err_chain (Terminal m None a) = [Terminal m None a]"
| "err_chain (Terminal m (Some e) a) = Terminal m (Some e) a # tl (err_chain e)"

lemma err_chain_size: "c \<in> set (err_chain e) \<Longrightarrow> size c \<le> size e"
proof (induction e rule: err_chain.induct)
  case (3 e)
  then show ?case by (cases "err_chain e") auto
next
  case (5 m e a)
  then show ?case by (cases "err_chain e") auto
qed auto

text \<open>\<open>error_causes\<close> looks into the error that a \<open>PreEffectError\<close> of the chain wraps.\<close>

function error_causes :: "flow_error \<Rightarrow> flow_error list" where
  "error_causes e =
     concat (map (\<lambda>c. c # (case c of PreEffect w \<Rightarrow> error_causes w | _ \<Rightarrow> [])) (err_chain e))"
  by pat_completeness auto
termination
proof (relation "measure size", goal_cases)
  case (2 e c w)
  then show ?case using err_chain_size [of c e] by simp
qed simp

declare error_causes.simps [simp del]

definition pre_effect :: "flow_error \<Rightarrow> flow_error" where
  "pre_effect e = PreEffect e"

definition is_pre_effect_error :: "flow_error \<Rightarrow> bool" where
  "is_pre_effect_error e \<longleftrightarrow> list_ex (\<lambda>c. case c of PreEffect _ \<Rightarrow> True | _ \<Rightarrow> False) (err_chain e)"

definition terminal_flow_error :: "string \<Rightarrow> flow_error" where
  "terminal_flow_error m = Terminal m None False"

definition terminal_flow_error_from_after_effects :: "flow_error \<Rightarrow> flow_error" where
  "terminal_flow_error_from_after_effects e = Terminal (err_display e) (Some e) True"

definition is_after_effects_failure :: "flow_error \<Rightarrow> bool" where
  "is_after_effects_failure e \<longleftrightarrow>
     list_ex (\<lambda>c. case c of Terminal _ _ a \<Rightarrow> a | _ \<Rightarrow> False) (error_causes e)"

definition is_terminal_flow_error :: "flow_error \<Rightarrow> bool" where
  "is_terminal_flow_error e \<longleftrightarrow>
     list_ex (\<lambda>c. case c of Terminal _ _ _ \<Rightarrow> True | _ \<Rightarrow> False) (error_causes e)"

definition terminal_after_effects :: "flow_error \<Rightarrow> bool \<Rightarrow> flow_error" where
  "terminal_after_effects e effects_performed =
     (if \<not> effects_performed \<or> is_after_effects_failure e then e
      else terminal_flow_error_from_after_effects e)"

definition should_retry :: "(string \<Rightarrow> string) \<Rightarrow> flow_error \<Rightarrow> bool" where
  "should_retry lower e \<longleftrightarrow>
     \<not> is_terminal_flow_error e \<and>
     (list_ex (\<lambda>c. case c of Leaf t _ \<Rightarrow> t | _ \<Rightarrow> False) (error_causes e) \<or>
      list_ex (\<lambda>word. str_contains word (lower (err_display e)))
        [''transient'', ''unavailable'', ''internal'', ''timeout''])"

lemma error_causes_self: "e \<in> set (error_causes e)"
  by (subst error_causes.simps) (cases e rule: err_chain.cases; auto)

lemma error_causes_Context [simp]: "error_causes (Context m e) = Context m e # error_causes e"
  by (simp add: error_causes.simps [of "Context m e"] error_causes.simps [of e])

lemma after_effects_terminal: "is_after_effects_failure e \<Longrightarrow> is_terminal_flow_error e"
  unfolding is_after_effects_failure_def is_terminal_flow_error_def list_ex_iff
  by (auto split: flow_error.splits)

lemma terminal_not_retried: "is_terminal_flow_error e \<Longrightarrow> \<not> should_retry lower e"
  by (simp add: should_retry_def)

lemma is_terminal_Terminal: "is_terminal_flow_error (Terminal m oe a)"
  using error_causes_self [of "Terminal m oe a"]
  by (force simp: is_terminal_flow_error_def list_ex_iff)

lemma is_after_effects_Terminal: "is_after_effects_failure (Terminal m oe True)"
  using error_causes_self [of "Terminal m oe True"]
  by (force simp: is_after_effects_failure_def list_ex_iff)

lemma is_terminal_Context [simp]: "is_terminal_flow_error (Context m e) = is_terminal_flow_error e"
  by (simp add: is_terminal_flow_error_def)

lemma is_after_effects_Context [simp]: "is_after_effects_failure (Context m e) = is_after_effects_failure e"
  by (simp add: is_after_effects_failure_def)

lemma is_pre_effect_Context [simp]: "is_pre_effect_error (Context m e) = is_pre_effect_error e"
  by (simp add: is_pre_effect_error_def)

lemma is_pre_effect_PreEffect [simp]: "is_pre_effect_error (PreEffect e)"
  by (simp add: is_pre_effect_error_def)

text \<open>Once the run has performed an effect, its failure says so and is never retried.\<close>

lemma terminal_after_effects_marks: "is_after_effects_failure (terminal_after_effects e True)"
  by (simp add: terminal_after_effects_def terminal_flow_error_from_after_effects_def is_after_effects_Terminal)

lemma terminal_after_effects_False [simp]: "terminal_after_effects e False = e"
  by (simp add: terminal_after_effects_def)

lemma should_retry_effects: "should_retry lower (terminal_after_effects e b) \<Longrightarrow> \<not> b"
  using terminal_after_effects_marks after_effects_terminal terminal_not_retried by (cases b) auto

lemma err_display_after_effects [simp]: "err_display (terminal_after_effects e b) = err_display e"
  by (simp add: terminal_after_effects_def terminal_flow_error_from_after_effects_def)

end
