(* ===== verification/Engine_Route.thy ===== *)
theory Engine_Route
  imports Engine_Error
begin

section \<open>Nodes of a flow and their routing\<close>

text \<open>
  \<open>HostFlow\<close>, \<open>HostNode\<close>, \<open>NodeKind\<close> and the routing of \<open>crates/greentic-runner-host/src/runner/engine.rs\<close>:
  branches on a status, the condition language of custom routes, and the context a condition reads. What the
  source takes from \<open>serde_json\<close>, the Unicode tables and \<open>greentic_types\<close> (the
  validity of a \<open>NodeId\<close>, the view that \<open>node_output_view\<close> gives of an output) is the record \<open>text_lib\<close>.
\<close>

record text_lib =
  tx_lower :: "string \<Rightarrow> string"
  tx_json :: "json \<Rightarrow> string"
  tx_parse_f64 :: "string \<Rightarrow> 64 word option"
  tx_node_id :: "string \<Rightarrow> bool"
  tx_view :: "json \<Rightarrow> json"
  tx_debug :: "string option \<Rightarrow> string"
  tx_parse :: "string \<Rightarrow> json option"

subsection \<open>Flows\<close>

datatype emit_kind = EmitLog | EmitResponse | EmitOther string

datatype host_node_kind =
    Exec string
  | PackComponent string
  | ProviderInvoke
  | FlowCall
  | FlowGoto
  | BuiltinEmit emit_kind
  | BuiltinStateGet
  | BuiltinStateSet
  | VarSet string json
  | NodeWait
  | DwAgent string bool
  | DwAgentGraph string
  | SorlaCall string
  | OperalaCall string
  | AgenticCall string
  | TelcoXCall string
  | ApprovalCall string
  | Mcp string string
  | A2a string
  | MediaCreate

datatype routing =
    RNext string
  | RBranch "(string \<times> string) list" "string option"
  | REnd
  | RReply
  | RCustom json

record host_node =
  hn_kind :: host_node_kind
  hn_component :: string
  hn_component_id :: string
  hn_operation_name :: "string option"
  hn_operation_in_mapping :: "string option"
  hn_payload_expr :: json
  hn_routing :: routing
  hn_vars_out :: "(string \<times> json) list option"
  hn_response_timeout_secs :: "nat option"

record host_flow =
  hf_id :: string
  hf_start :: "string option"
  hf_nodes :: "(string \<times> host_node) list"
  hf_vars_init :: "(string \<times> json) list"
  hf_required_vars :: "string list"
  hf_slot_schema :: "json option"

fun performs_external_effect :: "host_node_kind \<Rightarrow> bool" where
  "performs_external_effect k =
     (case k of
        ProviderInvoke \<Rightarrow> True | FlowCall \<Rightarrow> True | DwAgent _ _ \<Rightarrow> True | DwAgentGraph _ \<Rightarrow> True | SorlaCall _ \<Rightarrow> True
      | OperalaCall _ \<Rightarrow> True | AgenticCall _ \<Rightarrow> True | TelcoXCall _ \<Rightarrow> True | ApprovalCall _ \<Rightarrow> True | Mcp _ _ \<Rightarrow> True
      | A2a _ \<Rightarrow> True | MediaCreate \<Rightarrow> True | _ \<Rightarrow> False)"

definition may_have_partial_effect_on_failure :: "host_node_kind \<Rightarrow> bool" where
  "may_have_partial_effect_on_failure k \<longleftrightarrow> k \<noteq> FlowCall \<and> performs_external_effect k"

subsection \<open>Numbers\<close>

definition f64_magnitude :: "64 word \<Rightarrow> int" where
  "f64_magnitude w = uint w mod 2 ^ 63"

text \<open>The order of two \<open>f64\<close> values that are not NaN is the order of these keys; both zeros have the key 0.\<close>

definition f64_key :: "64 word \<Rightarrow> int" where
  "f64_key w = (if 2 ^ 63 \<le> uint w then - f64_magnitude w else f64_magnitude w)"

definition f64_nan :: "64 word \<Rightarrow> bool" where
  "f64_nan w \<longleftrightarrow> f64_magnitude w > 0x7FF0000000000000"

definition f64_finite :: "64 word \<Rightarrow> bool" where
  "f64_finite w \<longleftrightarrow> f64_magnitude w < 0x7FF0000000000000"

definition f64_cmp :: "(int \<Rightarrow> int \<Rightarrow> bool) \<Rightarrow> 64 word \<Rightarrow> 64 word \<Rightarrow> bool" where
  "f64_cmp rel a b \<longleftrightarrow> \<not> f64_nan a \<and> \<not> f64_nan b \<and> rel (f64_key a) (f64_key b)"

fun bit_len :: "nat \<Rightarrow> nat" where
  "bit_len n = (if n < 2 then 0 else Suc (bit_len (n div 2)))"

declare bit_len.simps [simp del]

text \<open>\<open>as f64\<close> of a 64-bit integer: 53 significant bits, ties to even.\<close>

definition f64_of_nat :: "nat \<Rightarrow> nat" where
  "f64_of_nat m =
     (if m = 0 then 0
      else
        (let e = bit_len m
         in if e \<le> 52 then (e + 1022) * 2 ^ 52 + m * 2 ^ (52 - e)
            else
              (let q = m div 2 ^ (e - 52); r = m mod 2 ^ (e - 52); half = 2 ^ (e - 53)
               in (e + 1022) * 2 ^ 52 + (if half < r \<or> r = half \<and> odd q then q + 1 else q))))"

definition f64_of_int :: "int \<Rightarrow> 64 word" where
  "f64_of_int n = of_nat (f64_of_nat (nat \<bar>n\<bar>)) + (if n < 0 then 2 ^ 63 else 0)"

fun json_as_f64 :: "json \<Rightarrow> 64 word option" where
  "json_as_f64 (JInt n) = Some (f64_of_int n)"
| "json_as_f64 (JFloat w) = Some w"
| "json_as_f64 _ = None"

fun json_as_u64 :: "json \<Rightarrow> nat option" where
  "json_as_u64 (JInt n) = (if 0 \<le> n then Some (nat n) else None)"
| "json_as_u64 _ = None"

definition int_text :: "int \<Rightarrow> string" where
  "int_text n = (if n < 0 then ''-'' @ show_nat (nat (- n)) else show_nat (nat n))"

definition bool_text :: "bool \<Rightarrow> string" where
  "bool_text b = (if b then ''true'' else ''false'')"

subsection \<open>Branches\<close>

definition output_status :: "text_lib \<Rightarrow> json \<Rightarrow> string option" where
  "output_status tx v =
     (case v of
        JString t \<Rightarrow> Some t | JInt n \<Rightarrow> Some (int_text n) | JFloat _ \<Rightarrow> Some (tx_json tx v)
      | JBool b \<Rightarrow> Some (bool_text b) | _ \<Rightarrow> None)"

definition routing_branch_target ::
  "text_lib \<Rightarrow> (string \<times> string) list \<Rightarrow> string option \<Rightarrow> node_output \<Rightarrow> string option" where
  "routing_branch_target tx on_status dflt out =
     (let status =
            or_else (Option.bind (json_get ''status'' (no_payload out)) (output_status tx))
              (Option.bind (json_get ''status'' (no_meta out)) (output_status tx))
      in or_else (Option.bind status (map_of on_status)) dflt)"

subsection \<open>Conditions\<close>

text \<open>\<open>str::split\<close> on a character.\<close>

fun split_on :: "char \<Rightarrow> string \<Rightarrow> string list" where
  "split_on c [] = [[]]"
| "split_on c (d # s) =
     (if d = c then [] # split_on c s
      else (case split_on c s of [] \<Rightarrow> [[d]] | p # ps \<Rightarrow> (d # p) # ps))"

definition dotted_value :: "json \<Rightarrow> string \<Rightarrow> json option" where
  "dotted_value v path = json_pointer (split_on (CHR ''.'') path) v"

definition resolve_dotted_path :: "text_lib \<Rightarrow> json \<Rightarrow> string \<Rightarrow> string option" where
  "resolve_dotted_path tx v path =
     (case dotted_value v path of
        None \<Rightarrow> None
      | Some (JString s) \<Rightarrow> Some s
      | Some (JBool b) \<Rightarrow> Some (bool_text b)
      | Some (JInt n) \<Rightarrow> Some (int_text n)
      | Some x \<Rightarrow> Some (tx_json tx x))"

definition CONDITION_OPERATORS :: "string list" where
  "CONDITION_OPERATORS = [''=='', ''!='', ''>='', ''<='', ''>'', ''<'', '' contains '']"

text \<open>The scan of \<open>split_at_first_operator\<close>: what was passed, in reverse, and what is left.\<close>

fun scan_operator :: "bool \<Rightarrow> string \<Rightarrow> string \<Rightarrow> (string \<times> string \<times> string) option" where
  "scan_operator q seen [] = None"
| "scan_operator q seen (c # s) =
     (if c = CHR 0x22 then scan_operator (\<not> q) (c # seen) s
      else if q then scan_operator q (c # seen) s
      else
        (case find (\<lambda>op. starts_with op (c # s)) CONDITION_OPERATORS of
           Some op \<Rightarrow> Some (op, rev seen, drop (length op) (c # s))
         | None \<Rightarrow> scan_operator q (c # seen) s))"

definition split_at_first_operator :: "string \<Rightarrow> (string \<times> string \<times> string) option" where
  "split_at_first_operator condition =
     map_option (\<lambda>(op, path, v). (op, str_trim path, trim_quotes (str_trim v))) (scan_operator False [] condition)"

definition string_eq :: "text_lib \<Rightarrow> json \<Rightarrow> string \<Rightarrow> string \<Rightarrow> bool \<Rightarrow> bool" where
  "string_eq tx ctx path expected negate =
     (let matches = (case resolve_dotted_path tx ctx path of
            Some a \<Rightarrow> eq_ignore_ascii_case a expected | None \<Rightarrow> False)
      in if negate then \<not> matches else matches)"

definition numeric_cmp ::
  "text_lib \<Rightarrow> json \<Rightarrow> string \<Rightarrow> string \<Rightarrow> (int \<Rightarrow> int \<Rightarrow> bool) \<Rightarrow> bool" where
  "numeric_cmp tx ctx path expected rel =
     (case Option.bind (resolve_dotted_path tx ctx path) (\<lambda>a. tx_parse_f64 tx (str_trim a)) of
        None \<Rightarrow> False
      | Some actual \<Rightarrow>
          (case tx_parse_f64 tx expected of None \<Rightarrow> False | Some rhs \<Rightarrow> f64_cmp rel actual rhs))"

definition evaluate_simple_condition :: "text_lib \<Rightarrow> string \<Rightarrow> json \<Rightarrow> bool" where
  "evaluate_simple_condition tx condition ctx =
     (case split_at_first_operator condition of
        None \<Rightarrow> False
      | Some (op, path, expected) \<Rightarrow>
          if op = ''=='' then string_eq tx ctx path expected False
          else if op = ''!='' then string_eq tx ctx path expected True
          else if op = ''>='' then numeric_cmp tx ctx path expected (\<ge>)
          else if op = ''<='' then numeric_cmp tx ctx path expected (\<le>)
          else if op = ''>'' then numeric_cmp tx ctx path expected (>)
          else if op = ''<'' then numeric_cmp tx ctx path expected (<)
          else if op = '' contains '' then
            (case resolve_dotted_path tx ctx path of
               Some actual \<Rightarrow> str_contains (tx_lower tx expected) (tx_lower tx actual) | None \<Rightarrow> False)
          else False)"

subsection \<open>The event of a node\<close>

definition SUCCESS_EVENT_PORTS :: "string list" where
  "SUCCESS_EVENT_PORTS = [''on_success'', ''on_complete'', ''on_submit'']"

definition ERROR_EVENT_PORTS :: "string list" where
  "ERROR_EVENT_PORTS = [''on_error'', ''on_cancel'', ''on_timeout'']"

fun json_items :: "json \<Rightarrow> json list option" where
  "json_items (JArray xs) = Some xs"
| "json_items _ = None"

definition node_has_error_route :: "routing \<Rightarrow> bool" where
  "node_has_error_route r =
     (case r of
        RCustom raw \<Rightarrow>
          (case json_items raw of
             None \<Rightarrow> False
           | Some routes \<Rightarrow>
               list_ex (\<lambda>route.
                  (case get_str ''event'' route of Some e \<Rightarrow> List.member ERROR_EVENT_PORTS e | None \<Rightarrow> False) \<or>
                  (case get_str ''condition'' route of
                     Some c \<Rightarrow> list_ex (\<lambda>port. str_contains port c) ERROR_EVENT_PORTS | None \<Rightarrow> False)) routes)
      | _ \<Rightarrow> False)"

text \<open>The first occurrence of \<open>==\<close>: what stands before and after it.\<close>

fun split_eq_eq :: "string \<Rightarrow> string \<Rightarrow> (string \<times> string) option" where
  "split_eq_eq seen [] = None"
| "split_eq_eq seen (c # s) =
     (if starts_with ''=='' (c # s) then Some (rev seen, drop 2 (c # s)) else split_eq_eq (c # seen) s)"

definition condition_event_eq :: "string \<Rightarrow> string option" where
  "condition_event_eq condition =
     (case split_eq_eq [] condition of
        None \<Rightarrow> None
      | Some (before, after) \<Rightarrow>
          if str_trim before \<noteq> ''event'' then None else Some (trim_quotes (str_trim after)))"

definition default_event :: "json list \<Rightarrow> string list \<Rightarrow> string \<Rightarrow> string" where
  "default_event routes ports fallback =
     (let referenced = List.map_filter (\<lambda>route. Option.bind (get_str ''condition'' route) condition_event_eq) routes
      in case find (\<lambda>port. List.member referenced port) ports of Some port \<Rightarrow> port | None \<Rightarrow> fallback)"

definition default_success_event :: "json list \<Rightarrow> string" where
  "default_success_event routes = default_event routes SUCCESS_EVENT_PORTS ''on_success''"

definition default_error_event :: "json list \<Rightarrow> string" where
  "default_error_event routes = default_event routes ERROR_EVENT_PORTS ''on_error''"

subsection \<open>The routing context\<close>

definition build_routing_context ::
  "text_lib \<Rightarrow> node_output \<Rightarrow> exec_state \<Rightarrow> string \<Rightarrow> string \<Rightarrow> json" where
  "build_routing_context tx out st success_event error_event =
     (let base = (case no_payload out of JObject fs \<Rightarrow> fs | _ \<Rightarrow> []);
          entry = alias_input_to_entry (xs_entry st);
          meta = (case Option.bind (resolve_entry_metadata entry) json_fields of Some fs \<Rightarrow> fs | None \<Rightarrow> []);
          response = fold (\<lambda>(k, v). bt_insert k v) meta [];
          text = (case or_else (json_pointer [''input'', ''text''] entry) (json_pointer [''text''] entry) of
              Some JNull \<Rightarrow> None | t \<Rightarrow> t);
          response = (case text of Some t \<Rightarrow> bt_insert ''text'' t response | None \<Rightarrow> response);
          event = (case get_str ''outcome'' (no_meta out) of
              Some e \<Rightarrow> e | None \<Rightarrow> if no_ok out then success_event else error_event)
      in JObject
           (bt_insert ''event'' (JString event)
              (bt_insert ''response'' (JObject response)
                 (bt_insert ''node'' (JObject (outputs_map (tx_view tx) st))
                    (bt_insert ''in'' entry (bt_insert ''entry'' entry base))))))"

subsection \<open>Custom routes\<close>

datatype routing_decision = GoTo string | EndRun | WaitHere

text \<open>One route: a target when it is taken, and whether it counts as a condition.\<close>

definition route_is_message :: "json \<Rightarrow> bool" where
  "route_is_message route \<longleftrightarrow> get_bool ''on_message'' route = Some True"

definition route_conditional :: "json \<Rightarrow> bool" where
  "route_conditional route \<longleftrightarrow> route_is_message route \<or> get_str ''condition'' route \<noteq> None"

definition route_target :: "text_lib \<Rightarrow> json \<Rightarrow> string option" where
  "route_target tx route =
     (case get_str ''to'' route of Some t \<Rightarrow> if tx_node_id tx t then Some t else None | None \<Rightarrow> None)"

definition route_taken :: "text_lib \<Rightarrow> json \<Rightarrow> exec_state \<Rightarrow> string \<Rightarrow> json \<Rightarrow> bool" where
  "route_taken tx ctx st node_id route \<longleftrightarrow>
     (if route_is_message route then
        xs_resumed_at st = Some node_id \<and>
        (case resolve_dotted_path tx ctx ''response.action'' of None \<Rightarrow> True | Some a \<Rightarrow> str_trim a = [])
      else
        (case get_str ''condition'' route of Some c \<Rightarrow> evaluate_simple_condition tx c ctx | None \<Rightarrow> True))"

fun eval_routes ::
  "text_lib \<Rightarrow> json \<Rightarrow> exec_state \<Rightarrow> string \<Rightarrow> bool \<Rightarrow> json list \<Rightarrow> routing_decision" where
  "eval_routes tx ctx st node_id has_condition [] = (if has_condition then WaitHere else EndRun)"
| "eval_routes tx ctx st node_id has_condition (route # routes) =
     (if route_taken tx ctx st node_id route \<and> route_target tx route \<noteq> None
      then GoTo (the (route_target tx route))
      else eval_routes tx ctx st node_id (has_condition \<or> route_conditional route) routes)"

definition evaluate_custom_routing ::
  "text_lib \<Rightarrow> json \<Rightarrow> node_output \<Rightarrow> exec_state \<Rightarrow> string \<Rightarrow> routing_decision" where
  "evaluate_custom_routing tx raw out st node_id =
     (case json_items raw of
        None \<Rightarrow> EndRun
      | Some routes \<Rightarrow>
          eval_routes tx (build_routing_context tx out st (default_success_event routes) (default_error_event routes))
            st node_id False routes)"

subsection \<open>A failure that no route handles\<close>

definition first_unhandled_failure :: "text_lib \<Rightarrow> host_flow \<Rightarrow> exec_state \<Rightarrow> (string \<times> node_output) option" where
  "first_unhandled_failure tx flow st =
     (let handled = (\<lambda>i. tx_node_id tx i \<and>
              (case map_of (hf_nodes flow) i of Some n \<Rightarrow> node_has_error_route (hn_routing n) | None \<Rightarrow> False));
          ordered = List.map_filter (\<lambda>i. map_option (\<lambda>out. (i, out)) (hget (xs_nodes st) i)) (xs_node_order st);
          unordered = sort_key fst (filter (\<lambda>(i, out). \<not> List.member (xs_node_order st) i) (xs_nodes st))
      in find (\<lambda>(i, out). \<not> no_ok out \<and> \<not> handled i) (unordered @ ordered))"

definition lift_node_error :: "json \<Rightarrow> (string \<times> node_output) option \<Rightarrow> json" where
  "lift_node_error output failure =
     (case failure of
        None \<Rightarrow> output
      | Some (node_id, failed) \<Rightarrow>
          (let err = json_get ''error'' (no_meta failed);
               message = (case Option.bind err (get_str ''message'') of Some m \<Rightarrow> m | None \<Rightarrow> ''flow node failed'');
               kind = (case Option.bind err (get_str ''kind'') of Some k \<Rightarrow> k | None \<Rightarrow> ''flow_node_failed'');
               out = (case output of JObject fs \<Rightarrow> fs | JNull \<Rightarrow> [] | v \<Rightarrow> [(''payload'', v)]);
               meta = (case map_of out ''metadata'' of Some (JObject fs) \<Rightarrow> fs | _ \<Rightarrow> []);
               meta = bt_or_insert ''node_id'' (JString node_id)
                        (bt_or_insert ''error_message'' (JString message)
                           (bt_or_insert ''error_kind'' (JString kind) meta))
           in JObject (bt_insert ''metadata'' (JObject meta) out)))"

end
