(* ===== verification/Engine_Payload.thy ===== *)
theory Engine_Payload
  imports Engine_Route
begin

section \<open>Payloads, cards and controls of a node\<close>

text \<open>
  The pure functions of \<open>crates/greentic-runner-host/src/runner/engine.rs\<close> around the call of a node: the context
  its templates are rendered against, what a card invocation gets, the errors a result carries, the control
  block of a component, the submit of a card. They are the functions of a build with the \<open>agentic-worker\<close>
  feature.
\<close>

abbreviation json_opt_str :: "string option \<Rightarrow> json" where
  "json_opt_str x \<equiv> (case x of Some s \<Rightarrow> JString s | None \<Rightarrow> JNull)"

definition has_key :: "string \<Rightarrow> json \<Rightarrow> bool" where
  "has_key k v \<longleftrightarrow> json_get k v \<noteq> None"

text \<open>A string that is not empty once trimmed.\<close>

definition trimmed :: "string option \<Rightarrow> string option" where
  "trimmed x = (case x of Some s \<Rightarrow> if str_trim s \<noteq> [] then Some (str_trim s) else None | None \<Rightarrow> None)"

definition str_field :: "json \<Rightarrow> string \<Rightarrow> string option" where
  "str_field payload key = trimmed (get_str key payload)"

subsection \<open>The template context\<close>

definition state_context :: "exec_state \<Rightarrow> json" where
  "state_context st =
     json_obj
       [(''entry'', xs_entry st), (''input'', xs_input st),
        (''nodes'', json_obj (map (\<lambda>(i, out).
            (i, json_obj [(''ok'', JBool (no_ok out)), (''payload'', no_payload out), (''meta'', no_meta out)])) (xs_nodes st))),
        (''redirect_count'', JInt (int (xs_redirect_count st))),
        (''park_turns'', json_obj (map (\<lambda>(i, n). (i, JInt (int n))) (xs_park_turns st))),
        (''pending_agent_await'', JArray (map (JString \<circ> fst) (xs_agent_await st)))]"

definition template_context :: "text_lib \<Rightarrow> json \<Rightarrow> exec_state \<Rightarrow> json \<Rightarrow> json" where
  "template_context tx now st prev =
     (let entry =
            (if xs_entry st = JNull then JObject []
             else merge_submitted_fields_into_entry (alias_input_to_entry (xs_entry st)) (submitted_fields (xs_entry st)))
      in json_obj
           [(''entry'', entry), (''in'', entry), (''prev'', prev), (''node'', JObject (outputs_map (tx_view tx) st)),
            (''state'', state_context st), (''vars'', JObject (xs_vars st)), (''now'', now)])"

subsection \<open>Cards\<close>

definition is_card_invocation :: "json \<Rightarrow> bool" where
  "is_card_invocation input \<longleftrightarrow> has_key ''card_source'' input \<or> has_key ''card_spec'' input"

definition activity_locale :: "json \<Rightarrow> string option" where
  "activity_locale entry =
     (case Option.bind
             (or_else (json_pointer [''input'', ''metadata'', ''locale''] entry) (json_pointer [''metadata'', ''locale''] entry))
             json_as_str of
        Some l \<Rightarrow> if str_trim l \<noteq> [] then Some l else None | None \<Rightarrow> None)"

definition inject_card_locale :: "json \<Rightarrow> json \<Rightarrow> json" where
  "inject_card_locale payload entry =
     (case payload of
        JObject fs \<Rightarrow>
          if \<not> is_card_invocation payload \<or> has_key ''locale'' payload then payload
          else (case activity_locale entry of Some l \<Rightarrow> JObject (bt_insert ''locale'' (JString l) fs) | None \<Rightarrow> payload)
      | _ \<Rightarrow> payload)"

definition first_pointer :: "string list list \<Rightarrow> json \<Rightarrow> json option" where
  "first_pointer ps v = foldr (\<lambda>p. or_else (json_pointer p v)) ps None"

definition inject_card_route :: "json \<Rightarrow> json \<Rightarrow> host_node \<Rightarrow> json" where
  "inject_card_route payload entry node =
     (let adaptive = (str_contains ''adaptive-card'' (hn_component_id node) \<or> str_contains ''adaptive-card'' (hn_component node));
          route = trimmed (Option.bind
              (first_pointer
                 [[''input'', ''metadata'', ''routeToCardId''], [''metadata'', ''routeToCardId''],
                  [''input'', ''metadata'', ''toCardId''], [''metadata'', ''toCardId''],
                  [''input'', ''metadata'', ''nextCardId''], [''metadata'', ''nextCardId'']] entry) json_as_str)
      in if \<not> adaptive \<or> is_card_invocation payload then payload
         else
           (case route of
              None \<Rightarrow> payload
            | Some r \<Rightarrow>
                JObject
                  (bt_insert ''card_spec'' (json_obj [(''asset_path'', JString (''assets/cards/'' @ r @ ''.json''))])
                     (bt_insert ''card_source'' (JString ''asset'') (unwrap_or [] (json_fields payload))))))"

definition inject_slot_definitions :: "json \<Rightarrow> json \<Rightarrow> json" where
  "inject_slot_definitions input schema =
     (case (if input = JNull then JObject [] else input) of
        JObject fs \<Rightarrow> if map_of fs ''slot_definitions'' = None then JObject (bt_insert ''slot_definitions'' schema fs) else JObject fs
      | v \<Rightarrow> v)"

definition SLOT_EXTRACTOR_COMPONENT_ID :: string where
  "SLOT_EXTRACTOR_COMPONENT_ID = ''ai.greentic.component-slot-extractor''"

text \<open>The slot definitions of the flow for the slot extractor, when the node gives none.\<close>

definition inject_slots :: "host_flow \<Rightarrow> host_node \<Rightarrow> json \<Rightarrow> json" where
  "inject_slots flow node payload =
     (case (hn_kind node, hf_slot_schema flow, payload) of
        (Exec target, Some schema, JObject fs) \<Rightarrow>
          if target = SLOT_EXTRACTOR_COMPONENT_ID
          then JObject (bt_insert ''input'' (inject_slot_definitions (unwrap_or JNull (map_of fs ''input'')) schema) fs)
          else payload
      | _ \<Rightarrow> payload)"

definition card_defaults_source :: "json \<Rightarrow> json \<Rightarrow> json option" where
  "card_defaults_source input config =
     (if is_object config then Some config
      else (case json_get ''config'' input of Some v \<Rightarrow> if is_object v then Some v else None | None \<Rightarrow> None))"

definition promote_card_config_to_invocation :: "text_lib \<Rightarrow> json \<Rightarrow> json \<Rightarrow> json" where
  "promote_card_config_to_invocation tx input config =
     (if is_card_invocation input then input
      else
        (case card_defaults_source input config of
           None \<Rightarrow> input
         | Some cfg \<Rightarrow>
             (let asset = trimmed (get_str ''default_card_asset'' cfg);
                  inline = (case json_get ''default_card_inline'' cfg of
                      Some v \<Rightarrow> if is_object v \<or> json_items v \<noteq> None then Some v else None | None \<Rightarrow> None);
                  source = map_option (tx_lower tx) (trimmed (get_str ''default_source'' cfg))
              in if asset = None \<and> inline = None \<and> source = None then input
                 else
                   (let card_source = unwrap_or (if inline \<noteq> None then ''inline'' else ''asset'') source;
                        spec = (if card_source = ''asset'' then
                                  (case asset of Some p \<Rightarrow> [(''asset_path'', JString p)] | None \<Rightarrow> [])
                                else if card_source = ''inline'' then
                                  (case inline of Some v \<Rightarrow> [(''inline_json'', v)] | None \<Rightarrow> [])
                                else [])
                    in JObject (bt_insert ''card_spec'' (JObject spec)
                         (bt_insert ''card_source'' (JString card_source) (unwrap_or [] (json_fields input))))))))"

text \<open>\<open>trim_end_matches\<close> of slashes, and \<open>ends_with\<close>.\<close>

definition trim_end_slash :: "string \<Rightarrow> string" where
  "trim_end_slash s = rev (dropWhile (\<lambda>c. c = CHR ''/'') (rev s))"

definition ends_with :: "string \<Rightarrow> string \<Rightarrow> bool" where
  "ends_with e s \<longleftrightarrow> starts_with (rev e) (rev s)"

text \<open>An asset of the pack that is a JSON object.\<close>

definition asset_object :: "text_lib \<Rightarrow> (string \<Rightarrow> string option) \<Rightarrow> string \<Rightarrow> json option" where
  "asset_object tx read_asset path =
     (case Option.bind (read_asset path) (tx_parse tx) of Some v \<Rightarrow> if is_object v then Some v else None | None \<Rightarrow> None)"

definition load_i18n_bundle_entries ::
  "text_lib \<Rightarrow> (string \<Rightarrow> string option) \<Rightarrow> string \<Rightarrow> (string \<times> json) list" where
  "load_i18n_bundle_entries tx read_asset bundle_path =
     (if ends_with ''.json'' bundle_path then
        (case asset_object tx read_asset bundle_path of Some v \<Rightarrow> [(''en'', v)] | None \<Rightarrow> [])
      else
        (let codes = unwrap_or [] (Option.bind (Option.bind (read_asset (bundle_path @ ''/_manifest.json'')) (tx_parse tx)) (\<lambda>v.
               map_option (List.map_filter json_as_str)
                 (or_else (Option.bind (json_get ''locales'' v) json_items) (json_items v))));
             entry = (\<lambda>code fs. case asset_object tx read_asset (bundle_path @ ''/'' @ code @ ''.json'') of
                 Some v \<Rightarrow> bt_insert code v fs | None \<Rightarrow> fs);
             found = fold entry codes []
         in if map_of found ''en'' = None then entry ''en'' found else found))"

definition resolve_card_spec_asset :: "text_lib \<Rightarrow> (string \<Rightarrow> string option) \<Rightarrow> json \<Rightarrow> json" where
  "resolve_card_spec_asset tx read_asset v =
     (if (case get_str ''card_source'' v of Some s \<Rightarrow> \<not> eq_ignore_ascii_case s ''asset'' | None \<Rightarrow> True) then v
      else
        (case (v, Option.bind (json_pointer [''card_spec'', ''asset_path''] v) json_as_str) of
           (JObject fs, Some path) \<Rightarrow>
             (let on_spec = (\<lambda>f fs. case map_of fs ''card_spec'' of
                    Some (JObject spec) \<Rightarrow> bt_insert ''card_spec'' (f (JObject spec)) fs | _ \<Rightarrow> fs);
                  put = (\<lambda>k x spec. JObject (bt_insert k x (unwrap_or [] (json_fields spec))));
                  fs1 = (case Option.bind (read_asset path) (tx_parse tx) of
                      Some shown \<Rightarrow>
                        on_spec (\<lambda>spec. obj_remove ''asset_path'' (put ''inline_json'' shown spec))
                          (bt_insert ''card_source'' (JString ''inline'') fs)
                    | None \<Rightarrow> fs);
                  configured = map_option (\<lambda>s. trim_end_slash (str_trim s))
                      (Option.bind (json_pointer [''card_spec'', ''i18n_bundle_path''] (JObject fs1)) json_as_str);
                  bundle = (case configured of Some p \<Rightarrow> if p \<noteq> [] then p else ''assets/i18n'' | None \<Rightarrow> ''assets/i18n'');
                  entries = load_i18n_bundle_entries tx read_asset bundle
              in JObject
                   (if read_asset path \<noteq> None \<and> Option.bind (read_asset path) (tx_parse tx) = None \<or> entries = [] then fs1
                    else on_spec (put ''i18n_inline'' (JObject entries)) fs1))
         | _ \<Rightarrow> v))"

definition resolve_card_assets :: "text_lib \<Rightarrow> (string \<Rightarrow> string option) \<Rightarrow> json \<Rightarrow> json" where
  "resolve_card_assets tx read_asset input =
     (case resolve_card_spec_asset tx read_asset input of
        JObject fs \<Rightarrow>
          (case map_of fs ''call'' of
             Some (JObject call) \<Rightarrow>
               (case map_of call ''payload'' of
                  Some payload \<Rightarrow>
                    JObject (bt_insert ''call''
                      (JObject (bt_insert ''payload'' (resolve_card_spec_asset tx read_asset payload) call)) fs)
                | None \<Rightarrow> JObject fs)
           | _ \<Rightarrow> JObject fs)
      | v \<Rightarrow> v)"

subsection \<open>Errors in a result\<close>

definition outcome_meta :: "json \<Rightarrow> json" where
  "outcome_meta out = (case get_str ''outcome'' out of Some t \<Rightarrow> json_obj [(''outcome'', JString t)] | None \<Rightarrow> JNull)"

definition component_error :: "json \<Rightarrow> (string \<times> string) option" where
  "component_error v =
     (case get_bool ''ok'' v of
        Some False \<Rightarrow>
          (case json_get ''error'' v of
             Some err \<Rightarrow>
               if is_object err
               then Some (unwrap_or ''component_error'' (get_str ''code'' err), unwrap_or ''component reported error'' (get_str ''message'' err))
               else None
           | None \<Rightarrow> None)
      | _ \<Rightarrow> None)"

definition mcp_tool_error :: "json \<Rightarrow> (string \<times> string) option" where
  "mcp_tool_error v =
     (if has_key ''result'' v then None
      else
        (case json_get ''error'' v of
           Some err \<Rightarrow>
             if is_object err then
               (let raw = unwrap_or ''tool returned an error'' (get_str ''message'' err)
                in Some (unwrap_or ''tool_error'' (get_str ''code'' err),
                     case Option.bind (json_get ''status'' err) json_as_u64 of
                       Some s \<Rightarrow> raw @ '' (status '' @ show_nat s @ '')'' | None \<Rightarrow> raw))
             else None
         | None \<Rightarrow> None))"

definition normalize_mcp_tool_error :: "json \<Rightarrow> string \<Rightarrow> string \<Rightarrow> json" where
  "normalize_mcp_tool_error v code message =
     (let obj = bt_insert ''ok'' (JBool False) (unwrap_or [] (json_fields v));
          err = unwrap_or [] (Option.bind (map_of obj ''error'') json_fields)
      in JObject (bt_insert ''error''
           (JObject (bt_insert ''message'' (JString message) (bt_insert ''code'' (JString code) err))) obj))"

definition mcp_node_output :: "text_lib \<Rightarrow> json \<Rightarrow> json \<Rightarrow> bool \<Rightarrow> node_output" where
  "mcp_node_output tx bound result has_error_route =
     (if \<not> has_error_route then node_output_new bound
      else
        (case json_get ''error'' result of
           None \<Rightarrow> node_output_new bound
         | Some err \<Rightarrow>
             (case mcp_tool_error result of
                Some (code, message) \<Rightarrow> errored (normalize_mcp_tool_error bound code message)
              | None \<Rightarrow>
                  errored (normalize_mcp_tool_error bound ''mcp_call_failed'' (unwrap_or (tx_json tx err) (json_as_str err))))))"

definition bind_node_result :: "json \<Rightarrow> json \<Rightarrow> json" where
  "bind_node_result payload result =
     (case get_str ''output'' payload of Some k \<Rightarrow> if k \<noteq> [] then json_obj [(k, result)] else result | None \<Rightarrow> result)"

definition is_blank :: "json \<Rightarrow> bool" where
  "is_blank v \<longleftrightarrow> (case v of JNull \<Rightarrow> True | JString t \<Rightarrow> str_trim t = [] | _ \<Rightarrow> False)"

definition a2a_node_output :: "json \<Rightarrow> json \<Rightarrow> bool \<Rightarrow> node_output" where
  "a2a_node_output bound result has_error_route =
     (if \<not> has_error_route then node_output_new bound
      else
        (case get_str ''error'' result of
           None \<Rightarrow> node_output_new bound
         | Some err \<Rightarrow>
             errored (normalize_mcp_tool_error bound
               (if get_str ''status'' result = Some ''failed'' then ''a2a_agent_failed'' else ''a2a_call_failed'') err)))"

definition media_is_failure :: "json \<Rightarrow> bool" where
  "media_is_failure result \<longleftrightarrow> get_bool ''ok'' result = Some False"

definition created_files :: "json \<Rightarrow> json list" where
  "created_files result =
     (if get_bool ''ok'' result \<noteq> Some True then []
      else
        (let listed =
               (case Option.bind (json_get ''artifacts'' result) json_items of
                  Some (x # xs) \<Rightarrow> x # xs
                | _ \<Rightarrow> (case json_get ''artifact'' result of Some one \<Rightarrow> [one] | None \<Rightarrow> []))
         in filter (\<lambda>file. get_str ''id'' file \<noteq> None) listed))"

definition failure_message :: "json \<Rightarrow> string" where
  "failure_message result =
     unwrap_or ''media.create failed'' (Option.bind (json_pointer [''error'', ''message''] result) json_as_str)"

definition failure_code :: "json \<Rightarrow> string" where
  "failure_code result =
     unwrap_or ''media_create_failed'' (Option.bind (json_pointer [''error'', ''code''] result) json_as_str)"

definition media_node_output :: "json \<Rightarrow> json \<Rightarrow> bool \<Rightarrow> node_output" where
  "media_node_output bound result has_error_route =
     (if \<not> media_is_failure result then (node_output_new bound)\<lparr>no_created := created_files result\<rparr>
      else if \<not> has_error_route then node_output_new bound
      else errored (normalize_mcp_tool_error bound (failure_code result) (failure_message result)))"

subsection \<open>Controls\<close>

record jump_control =
  jc_flow :: string
  jc_node :: "string option"
  jc_payload :: json
  jc_hints :: json
  jc_max_redirects :: "nat option"
  jc_reason :: "string option"

datatype node_control =
    Continue
  | Wait "string option"
  | LoopHere "string option"
  | AwaitHere "string option" string
  | Jump jump_control
  | Respond "string option" "nat list option" "bool option"

type_synonym dispatch_outcome = "node_output \<times> node_control"

definition extract_wait_reason :: "json \<Rightarrow> string option" where
  "extract_wait_reason payload =
     (case payload of JString s \<Rightarrow> Some s | JObject _ \<Rightarrow> get_str ''reason'' payload | _ \<Rightarrow> None)"

definition parse_component_control_inner :: "json \<Rightarrow> (string, node_control option) result" where
  "parse_component_control_inner payload =
     (case json_get ''greentic_control'' payload of
        None \<Rightarrow> Inr None
      | Some control \<Rightarrow>
          if \<not> is_object control then Inl ''jump_failed: greentic_control must be an object''
          else
            rbind (ok_or ''jump_failed: greentic_control.action is required'' (get_str ''action'' control)) (\<lambda>action.
            rbind (ok_or ''jump_failed: greentic_control.v is required'' (Option.bind (json_get ''v'' control) json_as_u64)) (\<lambda>v.
            if v \<noteq> 1 then Inl (''jump_failed: unsupported greentic_control.v='' @ show_nat v)
            else if action = ''jump'' then
              rbind (ok_or ''jump_failed: jump flow is required'' (trimmed (get_str ''flow'' control))) (\<lambda>flow.
              Inr (Some (Jump
                \<lparr>jc_flow = flow, jc_node = trimmed (get_str ''node'' control),
                 jc_payload = unwrap_or JNull (json_get ''payload'' control), jc_hints = unwrap_or JNull (json_get ''hints'' control),
                 jc_max_redirects =
                   (case Option.bind (json_get ''max_redirects'' control) json_as_u64 of
                      Some n \<Rightarrow> if n \<le> u32_max then Some n else None | None \<Rightarrow> None),
                 jc_reason = get_str ''reason'' control\<rparr>)))
            else if action = ''respond'' then
              Inr (Some (Respond (get_str ''text'' control)
                (map_option (\<lambda>xs. filter (\<lambda>n. n < 256) (List.map_filter json_as_u64 xs))
                   (Option.bind (json_get ''card_cbor'' control) json_items))
                (get_bool ''needs_user'' control)))
            else Inr None)))"

definition parse_component_control :: "json \<Rightarrow> (flow_error, node_control option) result" where
  "parse_component_control payload = map_err terminal_flow_error (parse_component_control_inner payload)"

definition component_dispatch_outcome :: "node_output \<Rightarrow> (flow_error, dispatch_outcome) result" where
  "component_dispatch_outcome out =
     rbind (parse_component_control (no_payload out)) (\<lambda>c.
       Inr (case c of
              None \<Rightarrow> (out, Continue)
            | Some (Jump j) \<Rightarrow> (with_meta (jc_payload j) (jc_hints j), Jump j)
            | Some other \<Rightarrow> (out, other)))"

subsection \<open>The submit of a card\<close>

datatype answer_fields = Absent | Malformed | Declared "string list"

fun all_strings :: "json list \<Rightarrow> string list option" where
  "all_strings [] = Some []"
| "all_strings (x # xs) =
     (case (json_as_str x, all_strings xs) of (Some s, Some ss) \<Rightarrow> Some (s # ss) | _ \<Rightarrow> None)"

definition declared_answer_fields :: "json \<Rightarrow> answer_fields" where
  "declared_answer_fields payload_expr =
     (case json_get ''answer_fields'' payload_expr of
        None \<Rightarrow> Absent
      | Some raw \<Rightarrow>
          (case Option.bind (json_items raw) all_strings of Some names \<Rightarrow> Declared names | None \<Rightarrow> Malformed))"

text \<open>Whether the submit belonged to the node, the output with its answers, and the state without them.\<close>

definition attach_pending_card_answers ::
  "string \<Rightarrow> host_node \<Rightarrow> node_output \<Rightarrow> exec_state \<Rightarrow> bool \<times> node_output \<times> exec_state" where
  "attach_pending_card_answers node_id node out st =
     (case xs_card_answers st of
        None \<Rightarrow> (False, out, st)
      | Some pending \<Rightarrow>
          if pc_node_id pending \<noteq> node_id then (False, out, st)
          else
            (let st' = st\<lparr>xs_card_answers := None\<rparr>;
                 answers = (case declared_answer_fields (hn_payload_expr node) of
                     Declared allowed \<Rightarrow> filter (\<lambda>(k, v). List.member allowed k) (pc_answers pending)
                   | _ \<Rightarrow> pc_answers pending)
             in case no_payload out of
                  JObject fs \<Rightarrow> (True, out\<lparr>no_payload := JObject (bt_insert ''answers'' (JObject answers) fs)\<rparr>, st')
                | _ \<Rightarrow> (True, out, st')))"

definition awaiting_tool_input :: "json \<Rightarrow> bool" where
  "awaiting_tool_input payload \<longleftrightarrow> get_str ''terminated_by'' payload = Some ''awaiting_tool_input''"

definition tool_presentation :: "json \<Rightarrow> json option" where
  "tool_presentation payload =
     (if \<not> awaiting_tool_input payload then None
      else (case json_get ''pending_presentation'' payload of Some v \<Rightarrow> if v = JNull then None else Some v | None \<Rightarrow> None))"

definition rendered_park :: "json \<Rightarrow> json" where
  "rendered_park payload =
     (case tool_presentation payload of
        None \<Rightarrow> payload
      | Some shown \<Rightarrow>
          if get_bool ''side_turn'' payload = Some True \<and>
             (case get_str ''reply'' payload of Some r \<Rightarrow> str_trim r \<noteq> [] | None \<Rightarrow> False)
          then JArray (obj_remove ''side_turn'' (obj_remove ''pending_presentation'' payload) #
                 (case shown of JArray cards \<Rightarrow> cards | single \<Rightarrow> [single]))
          else shown)"

definition ENVELOPE_TRANSPORT_KEYS :: "string list" where
  "ENVELOPE_TRANSPORT_KEYS =
     [''id'', ''tenant'', ''channel'', ''session_id'', ''reply_scope'', ''from'', ''to'', ''correlation_id'', ''attachments'', ''extensions'']"

definition CHANNEL_CONTEXT_METADATA_KEYS :: "string list" where
  "CHANNEL_CONTEXT_METADATA_KEYS =
     [''locale'', ''team'', ''env'', ''autoStart'', ''universal'', ''user_id'', ''user_verified'', ''flow_hint'', ''extensions'']"

definition is_channel_context_key :: "string \<Rightarrow> bool" where
  "is_channel_context_key key \<longleftrightarrow> List.member CHANNEL_CONTEXT_METADATA_KEYS key \<or> starts_with ''channel.'' key"

definition stamped_identity_matches :: "string \<Rightarrow> json \<Rightarrow> json \<Rightarrow> bool" where
  "stamped_identity_matches key v envelope \<longleftrightarrow>
     (case json_as_str v of
        None \<Rightarrow> False
      | Some s \<Rightarrow>
          if key = ''route'' then get_str ''session_id'' envelope = Some s
          else if key = ''tenant'' then Option.bind (json_pointer [''tenant'', ''tenant''] envelope) json_as_str = Some s
          else False)"

definition is_channel_envelope :: "json \<Rightarrow> bool" where
  "is_channel_envelope m \<longleftrightarrow> has_key ''session_id'' m \<and> has_key ''channel'' m \<and> has_key ''tenant'' m"

definition is_card_submit :: "json \<Rightarrow> bool" where
  "is_card_submit entry \<longleftrightarrow>
     (let meta = Option.bind (resolve_entry_metadata entry) json_fields;
          envelope = envelope_of entry;
          action = trimmed (Option.bind (Option.bind meta (\<lambda>fs. map_of fs ''action'')) json_as_str);
          marker = Option.bind meta (\<lambda>fs. map_of fs SUBMIT_MARKER_KEY)
      in action \<noteq> None \<or>
         marker = Some (JString ''true'') \<or> marker = Some (JBool True) \<or>
         list_ex (\<lambda>(k, v). k \<noteq> ''metadata'' \<and> k \<noteq> ''text'' \<and>
              \<not> (is_channel_envelope envelope \<and> List.member ENVELOPE_TRANSPORT_KEYS k)) (unwrap_or [] (json_fields envelope)) \<or>
         list_ex (\<lambda>(k, v). k \<noteq> ''action'' \<and> k \<noteq> SUBMIT_MARKER_KEY \<and> \<not> is_channel_context_key k \<and>
              \<not> stamped_identity_matches k v envelope) (unwrap_or [] meta))"

text \<open>The payload of an agent response that is not ok; \<open>failure_text\<close> is the line a user is told.\<close>

definition agent_error_envelope_reply :: "(json \<Rightarrow> string) \<Rightarrow> json \<Rightarrow> json" where
  "agent_error_envelope_reply failure_text entry =
     (let err = (case json_get ''error'' entry of Some e \<Rightarrow> if e = JNull then None else Some e | None \<Rightarrow> None);
          out = json_get ''output'' entry;
          partial = (case Option.bind out (get_str ''reply'') of
              Some r \<Rightarrow> if str_trim r \<noteq> [] then Some r else None | None \<Rightarrow> None);
          fs = [(''reply'', JString (unwrap_or (failure_text entry) partial))];
          fs = (case err of Some e \<Rightarrow> bt_insert ''error'' e fs | None \<Rightarrow> fs)
      in JObject
           (case (partial, Option.bind out (json_get ''trail'')) of (Some _, Some t) \<Rightarrow> bt_insert ''trail'' t fs | _ \<Rightarrow> fs))"

end
