(* ===== verification/Correlation.thy ===== *)
theory Correlation
  imports Engine_State
begin

section \<open>Correlation ids of dispatched work\<close>

text \<open>
  The correlation id that a remote dispatch is published under, from
  \<open>crates/greentic-runner-host/src/runner/engine.rs\<close> and \<open>runtime_session_resumer.rs\<close>: the session hint with
  markers for the pack, the flow, the reply scope and the nonce of an approval, and the parser that takes the
  markers off again when the response comes back. Base64 is an argument: its encoder, and its decoder
  together with the check that the bytes are UTF-8.
\<close>

record base64 =
  b64_encode :: "string \<Rightarrow> string"
  b64_decode :: "string \<Rightarrow> string option"

record reply_scope =
  rs_conversation :: string
  rs_thread :: "string option"
  rs_reply_to :: "string option"

subsection \<open>Splitting at the last marker\<close>

text \<open>\<open>str::rsplit_once\<close>: the last occurrence of a marker that is not empty.\<close>

fun rsplit_once :: "string \<Rightarrow> string \<Rightarrow> (string \<times> string) option" where
  "rsplit_once m [] = None"
| "rsplit_once m (c # s) =
     (case rsplit_once m s of
        Some (p, t) \<Rightarrow> Some (c # p, t)
      | None \<Rightarrow> if starts_with m (c # s) then Some ([], drop (length m) (c # s)) else None)"

definition split_marker :: "string \<Rightarrow> string \<Rightarrow> string \<times> string option" where
  "split_marker s m =
     (case rsplit_once m s of
        Some (p, captured) \<Rightarrow> if captured \<noteq> [] then (p, Some captured) else (s, None)
      | None \<Rightarrow> (s, None))"

definition split_pack_suffix :: "string \<Rightarrow> string \<times> string option" where
  "split_pack_suffix hint = split_marker hint ''::pack=''"

definition split_value_marker :: "base64 \<Rightarrow> string \<Rightarrow> string \<Rightarrow> string \<Rightarrow> string \<times> string option" where
  "split_value_marker b64 s raw_marker b64_marker =
     (case rsplit_once b64_marker s of
        Some (p, captured) \<Rightarrow>
          (if captured \<noteq> [] then
             (case b64_decode b64 captured of Some v \<Rightarrow> (p, Some v) | None \<Rightarrow> split_marker s raw_marker)
           else split_marker s raw_marker)
      | None \<Rightarrow> split_marker s raw_marker)"

definition NONCE_HEX_LEN :: nat where "NONCE_HEX_LEN = 32"

definition lower_hex :: "char \<Rightarrow> bool" where
  "lower_hex c \<longleftrightarrow> CHR ''0'' \<le> c \<and> c \<le> CHR ''9'' \<or> CHR ''a'' \<le> c \<and> c \<le> CHR ''f''"

definition split_dispatch_nonce :: "string \<Rightarrow> string \<times> string option" where
  "split_dispatch_nonce s =
     (case rsplit_once ''::n='' s of
        Some (p, nonce) \<Rightarrow>
          if length nonce = NONCE_HEX_LEN \<and> list_all lower_hex nonce then (p, Some nonce) else (s, None)
      | None \<Rightarrow> (s, None))"

subsection \<open>Building and parsing\<close>

definition ascii_within :: "char \<Rightarrow> char \<Rightarrow> char \<Rightarrow> bool" where
  "ascii_within lo hi c \<longleftrightarrow> lo \<le> c \<and> c \<le> hi"

definition is_ascii_alphanumeric :: "char \<Rightarrow> bool" where
  "is_ascii_alphanumeric c \<longleftrightarrow>
     list_ex (\<lambda>(lo, hi). ascii_within lo hi c) [(CHR ''0'', CHR ''9''), (CHR ''A'', CHR ''Z''), (CHR ''a'', CHR ''z'')]"

definition plain_char :: "char \<Rightarrow> bool" where
  "plain_char c \<longleftrightarrow> is_ascii_alphanumeric c \<or> List.member ''-_.'' c"

lemmas plain_char_simps = plain_char_def is_ascii_alphanumeric_def ascii_within_def

definition is_plain_token :: "string \<Rightarrow> bool" where
  "is_plain_token s \<longleftrightarrow> s \<noteq> [] \<and> list_all plain_char s"

definition push_marker :: "base64 \<Rightarrow> string \<Rightarrow> string \<Rightarrow> string \<Rightarrow> string \<Rightarrow> string" where
  "push_marker b64 s raw_marker b64_marker v =
     (if is_plain_token v then s @ raw_marker @ v else s @ b64_marker @ b64_encode b64 v)"

definition push_scope_markers :: "base64 \<Rightarrow> string \<Rightarrow> reply_scope \<Rightarrow> string" where
  "push_scope_markers b64 s scope =
     (let s = (if rs_conversation scope \<noteq> [] \<and> \<not> is_plain_token (rs_conversation scope)
               then push_marker b64 s ''::cnv='' ''::cnv64='' (rs_conversation scope) else s);
          s = (case rs_thread scope of
              Some t \<Rightarrow> if t \<noteq> [] then push_marker b64 s ''::thread='' ''::thr64='' t else s | None \<Rightarrow> s)
      in case rs_reply_to scope of
           Some r \<Rightarrow> if r \<noteq> [] then push_marker b64 s ''::reply='' ''::rpl64='' r else s | None \<Rightarrow> s)"

record parsed_correlation =
  pr_bare_hint :: string
  pr_pack_id :: "string option"
  pr_flow_id :: "string option"
  pr_conversation :: "string option"
  pr_thread :: "string option"
  pr_reply_to :: "string option"
  pr_nonce :: "string option"

definition parse_correlation :: "base64 \<Rightarrow> string \<Rightarrow> parsed_correlation" where
  "parse_correlation b64 s =
     (let (s, nonce) = split_dispatch_nonce s;
          (s, reply_to) = split_value_marker b64 s ''::reply='' ''::rpl64='';
          (s, thread) = split_value_marker b64 s ''::thread='' ''::thr64='';
          (s, conversation) = split_value_marker b64 s ''::cnv='' ''::cnv64='';
          (s, flow_id) = split_marker s ''::flow='';
          (hint, pack_id) = split_pack_suffix s
      in \<lparr>pr_bare_hint = hint, pr_pack_id = pack_id, pr_flow_id = flow_id, pr_conversation = conversation,
          pr_thread = thread, pr_reply_to = reply_to, pr_nonce = nonce\<rparr>)"

text \<open>The id that \<open>execute_remote_dispatch_with_token\<close> builds: the nonce is there for an approval only.\<close>

definition dispatch_correlation ::
  "base64 \<Rightarrow> string \<Rightarrow> string \<Rightarrow> string \<Rightarrow> reply_scope option \<Rightarrow> string option \<Rightarrow> string" where
  "dispatch_correlation b64 raw_hint pack_id flow_id scope nonce =
     (let s = pr_bare_hint (parse_correlation b64 raw_hint) @ ''::pack='' @ pack_id @ ''::flow='' @ flow_id;
          s = (case scope of Some sc \<Rightarrow> push_scope_markers b64 s sc | None \<Rightarrow> s)
      in case nonce of Some n \<Rightarrow> s @ ''::n='' @ n | None \<Rightarrow> s)"

subsection \<open>A marker and what follows it\<close>

text \<open>A tail that starts with two colons and has no other: the shape of every marker with its value.\<close>

lemma starts_with_iff: "starts_with p s \<longleftrightarrow> (\<exists>t. s = p @ t)"
  unfolding starts_with_def by (metis append_eq_conv_conj append_take_drop_id)

lemma rsplit_once_None: "colon_free s \<Longrightarrow> rsplit_once (''::'' @ n) s = None"
  by (induction s) (auto simp: starts_with_def)

lemma rsplit_once_Some: "rsplit_once m s = Some (p, t) \<Longrightarrow> s = p @ m @ t"
proof (induction s arbitrary: p)
  case (Cons c s)
  show ?case
  proof (cases "rsplit_once m s")
    case None
    with Cons.prems have "starts_with m (c # s)" "p = []" "t = drop (length m) (c # s)"
      by (auto split: if_splits)
    then show ?thesis unfolding starts_with_def by (metis append_Nil append_take_drop_id)
  next
    case (Some pt)
    with Cons show ?thesis by (cases pt) auto
  qed
qed simp

text \<open>A marker cannot begin in what stands before the two colons and end behind them.\<close>

lemma marker_not_across:
  assumes "n \<noteq> []" "colon_free n" "x \<noteq> []"
  shows "starts_with (''::'' @ n) (x @ ''::'' @ w) \<longleftrightarrow> starts_with (''::'' @ n) x"
proof
  assume "starts_with (''::'' @ n) (x @ ''::'' @ w)"
  then obtain t where eq: "x @ ''::'' @ w = (''::'' @ n) @ t" unfolding starts_with_iff by metis
  from append_eq_append_conv2 [THEN iffD1, OF eq]
  consider us where "x = (''::'' @ n) @ us" | us where "x @ us = ''::'' @ n" "us \<noteq> []" "''::'' @ w = us @ t"
    by (metis append.right_neutral)
  then show "starts_with (''::'' @ n) x"
  proof cases
    case (2 us)
    from assms(3) obtain c y where x: "x = c # y" by (cases x) auto
    from 2 obtain us' where us: "us = CHR '':'' # us'" by (cases us) auto
    from 2 x us assms(1,2) have False by (cases y; cases us') auto
    then show ?thesis ..
  qed (auto simp: starts_with_iff)
next
  assume "starts_with (''::'' @ n) x"
  then show "starts_with (''::'' @ n) (x @ ''::'' @ w)" unfolding starts_with_iff by force
qed

lemma rsplit_once_segment:
  assumes n: "n \<noteq> []" "colon_free n" and w: "colon_free w"
  shows "rsplit_once (''::'' @ n) (x @ ''::'' @ w) =
    (if starts_with n w then Some (x, drop (length n) w)
     else map_option (\<lambda>(p, t). (p, t @ ''::'' @ w)) (rsplit_once (''::'' @ n) x))"
proof (induction x)
  case Nil
  have "rsplit_once (''::'' @ n) w = None" by (rule rsplit_once_None [OF w])
  moreover have "\<not> starts_with (''::'' @ n) (CHR '':'' # w)"
    using w n by (cases w) (auto simp: starts_with_def)
  ultimately show ?case by (auto simp: starts_with_def)
next
  case (Cons c x)
  have across: "starts_with (''::'' @ n) (c # x @ ''::'' @ w) = starts_with (''::'' @ n) (c # x)"
    using marker_not_across [OF n, of "c # x" w] by simp
  show ?case
  proof (cases "rsplit_once (''::'' @ n) x")
    case None
    have "drop (length (''::'' @ n)) (c # x @ ''::'' @ w) = drop (length (''::'' @ n)) (c # x) @ ''::'' @ w"
      if "starts_with (''::'' @ n) (c # x)"
      using that unfolding starts_with_iff by auto
    with None Cons across show ?thesis by (simp split: option.splits)
  next
    case (Some pt)
    with Cons show ?thesis by (cases pt) (simp split: option.splits)
  qed
qed


subsection \<open>A hint with its markers\<close>

text \<open>What the dispatch appends: segments without colons, each behind two colons.\<close>

definition tagged :: "string \<Rightarrow> string list \<Rightarrow> string" where
  "tagged h ws = h @ concat (map (\<lambda>w. ''::'' @ w) ws)"

lemma tagged_Nil [simp]: "tagged h [] = h"
  by (simp add: tagged_def)

lemma tagged_snoc: "tagged h (ws @ [w]) = tagged h ws @ ''::'' @ w"
  by (simp add: tagged_def)

text \<open>The name of a marker, its two colons left out.\<close>

definition marker_name :: "string \<Rightarrow> bool" where
  "marker_name n \<longleftrightarrow> n \<noteq> [] \<and> colon_free n"

lemma tagged_hit:
  assumes "marker_name n" "colon_free v"
  shows "rsplit_once (''::'' @ n) (tagged h (ws @ [n @ v])) = Some (tagged h ws, v)"
  using rsplit_once_segment [of n "n @ v" "tagged h ws"] assms
  by (simp add: tagged_snoc marker_name_def starts_with_def)

lemma tagged_miss:
  assumes "marker_name n" "list_all colon_free ws" "list_all (\<lambda>w. \<not> starts_with n w) ws"
    and "rsplit_once (''::'' @ n) h = None"
  shows "rsplit_once (''::'' @ n) (tagged h ws) = None"
  using assms(2,3)
proof (induction ws rule: rev_induct)
  case (snoc w ws)
  then show ?case
    using rsplit_once_segment [of n w "tagged h ws"] assms(1) by (simp add: tagged_snoc marker_name_def)
next
  case Nil
  from assms(4) show ?case by simp
qed

lemmas tagged_simps = tagged_hit tagged_miss

lemma split_marker_hit:
  assumes "marker_name n" "colon_free v" "v \<noteq> []"
  shows "split_marker (tagged h (ws @ [n @ v])) (''::'' @ n) = (tagged h ws, Some v)"
  using assms by (simp add: split_marker_def tagged_hit del: append_Cons)

lemma split_marker_miss:
  assumes "marker_name n" "list_all colon_free ws" "list_all (\<lambda>w. \<not> starts_with n w) ws"
    and "rsplit_once (''::'' @ n) h = None"
  shows "split_marker (tagged h ws) (''::'' @ n) = (tagged h ws, None)"
  using tagged_miss [OF assms] by (simp add: split_marker_def del: append_Cons)

text \<open>What is relied on of base64: its decoder inverts its encoder, whose output is made of plain characters.\<close>

definition base64_laws :: "base64 \<Rightarrow> bool" where
  "base64_laws b64 \<longleftrightarrow>
     (\<forall>v. b64_decode b64 (b64_encode b64 v) = Some v) \<and> (\<forall>v. list_all plain_char (b64_encode b64 v)) \<and>
     b64_decode b64 [] = Some []"

lemma plain_colon_free: "list_all plain_char s \<Longrightarrow> colon_free s"
  by (auto simp: list_all_iff plain_char_simps)

lemma base64_lawsD:
  assumes "base64_laws b64"
  shows "b64_decode b64 (b64_encode b64 v) = Some v" "colon_free (b64_encode b64 v)"
    "b64_encode b64 v = [] \<Longrightarrow> v = []"
proof -
  show "b64_decode b64 (b64_encode b64 v) = Some v" "colon_free (b64_encode b64 v)"
    using assms plain_colon_free unfolding base64_laws_def by blast+
  have "b64_decode b64 (b64_encode b64 u) = Some u" "b64_decode b64 [] = Some []" for u
    using assms by (simp_all add: base64_laws_def)
  then show "b64_encode b64 v = [] \<Longrightarrow> v = []" by (metis option.inject)
qed

text \<open>The segment of a value under the marker names \<open>raw\<close> and \<open>enc\<close>.\<close>

definition value_segment :: "base64 \<Rightarrow> string \<Rightarrow> string \<Rightarrow> string \<Rightarrow> string" where
  "value_segment b64 raw enc v = (if is_plain_token v then raw @ v else enc @ b64_encode b64 v)"

lemma push_marker_tagged:
  "push_marker b64 (tagged h ws) (''::'' @ raw) (''::'' @ enc) v = tagged h (ws @ [value_segment b64 raw enc v])"
  by (simp add: push_marker_def value_segment_def tagged_snoc)

lemma value_segment_colon_free:
  assumes "base64_laws b64" "colon_free raw" "colon_free enc"
  shows "colon_free (value_segment b64 raw enc v)"
  using base64_lawsD(2) [OF assms(1)] plain_colon_free assms(2,3)
  by (auto simp: value_segment_def is_plain_token_def)

lemma split_value_marker_hit:
  assumes b: "base64_laws b64" and v: "v \<noteq> []" and n: "marker_name raw" "marker_name enc" "\<And>u. \<not> starts_with enc (raw @ u)"
    and ws: "list_all colon_free ws" "list_all (\<lambda>w. \<not> starts_with enc w) ws"
    and h: "rsplit_once (''::'' @ enc) h = None"
  shows "split_value_marker b64 (tagged h (ws @ [value_segment b64 raw enc v])) (''::'' @ raw) (''::'' @ enc)
    = (tagged h ws, Some v)"
proof (cases "is_plain_token v")
  case True
  then have cf: "colon_free v" by (auto simp: is_plain_token_def dest: plain_colon_free)
  have "rsplit_once (''::'' @ enc) (tagged h (ws @ [raw @ v])) = None"
    by (rule tagged_miss) (use n ws h cf in \<open>auto simp: marker_name_def\<close>)
  with split_marker_hit [OF n(1) cf v] True show ?thesis
    by (simp add: split_value_marker_def value_segment_def del: append_Cons)
next
  case False
  have "b64_encode b64 v \<noteq> []" using base64_lawsD(3) [OF b] v by blast
  with False tagged_hit [OF n(2) base64_lawsD(2) [OF b, of v]] base64_lawsD(1) [OF b, of v] show ?thesis
    by (simp add: split_value_marker_def value_segment_def del: append_Cons)
qed

lemma split_value_marker_miss:
  assumes "marker_name raw" "marker_name enc" "list_all colon_free ws"
    and "list_all (\<lambda>w. \<not> starts_with raw w \<and> \<not> starts_with enc w) ws"
    and "rsplit_once (''::'' @ raw) h = None" "rsplit_once (''::'' @ enc) h = None"
  shows "split_value_marker b64 (tagged h ws) (''::'' @ raw) (''::'' @ enc) = (tagged h ws, None)"
  using tagged_miss [of enc ws h] split_marker_miss [of raw ws h] assms
  by (simp add: split_value_marker_def list_all_iff del: append_Cons)


subsection \<open>Parsing what was built\<close>

definition MARKERS :: "string list" where
  "MARKERS = [''pack='', ''flow='', ''cnv='', ''cnv64='', ''thread='', ''thr64='', ''reply='', ''rpl64='', ''n='']"

text \<open>A hint that holds no marker.\<close>

definition bare_hint :: "string \<Rightarrow> bool" where
  "bare_hint h \<longleftrightarrow> list_all (\<lambda>n. rsplit_once (''::'' @ n) h = None) MARKERS"

definition value_segments :: "base64 \<Rightarrow> string \<Rightarrow> string \<Rightarrow> string option \<Rightarrow> string list" where
  "value_segments b64 raw enc x =
     (case x of Some v \<Rightarrow> if v \<noteq> [] then [value_segment b64 raw enc v] else [] | None \<Rightarrow> [])"

definition nonempty :: "string option \<Rightarrow> string option" where
  "nonempty x = (case x of Some v \<Rightarrow> if v \<noteq> [] then Some v else None | None \<Rightarrow> None)"

text \<open>A conversation goes into the id only when the hint does not show it plainly.\<close>

definition marked_conversation :: "reply_scope \<Rightarrow> string option" where
  "marked_conversation sc = (if is_plain_token (rs_conversation sc) then None else Some (rs_conversation sc))"

definition scope_segments :: "base64 \<Rightarrow> reply_scope \<Rightarrow> string list" where
  "scope_segments b64 sc =
     value_segments b64 ''cnv='' ''cnv64='' (marked_conversation sc) @
     value_segments b64 ''thread='' ''thr64='' (rs_thread sc) @ value_segments b64 ''reply='' ''rpl64='' (rs_reply_to sc)"

lemma push_marker_literal:
  "push_marker b64 (tagged h ws) ''::cnv='' ''::cnv64='' v = tagged h (ws @ [value_segment b64 ''cnv='' ''cnv64='' v])"
  "push_marker b64 (tagged h ws) ''::thread='' ''::thr64='' v = tagged h (ws @ [value_segment b64 ''thread='' ''thr64='' v])"
  "push_marker b64 (tagged h ws) ''::reply='' ''::rpl64='' v = tagged h (ws @ [value_segment b64 ''reply='' ''rpl64='' v])"
  using push_marker_tagged [of b64 h ws] by simp_all

lemma push_scope_markers_tagged:
  "push_scope_markers b64 (tagged h ws) sc = tagged h (ws @ scope_segments b64 sc)"
  by (auto simp: push_scope_markers_def scope_segments_def value_segments_def marked_conversation_def
      push_marker_literal Let_def split: option.splits)


lemma split_value_segments:
  assumes "base64_laws b64" "marker_name raw" "marker_name enc" "\<And>u. \<not> starts_with enc (raw @ u)"
    and "list_all colon_free ws" "list_all (\<lambda>w. \<not> starts_with raw w \<and> \<not> starts_with enc w) ws"
    and "rsplit_once (''::'' @ raw) h = None" "rsplit_once (''::'' @ enc) h = None"
  shows "split_value_marker b64 (tagged h (ws @ value_segments b64 raw enc x)) (''::'' @ raw) (''::'' @ enc)
    = (tagged h ws, nonempty x)"
proof (cases "nonempty x")
  case None
  then have "value_segments b64 raw enc x = []"
    by (simp add: nonempty_def value_segments_def split: option.splits if_splits)
  with None split_value_marker_miss [of raw enc ws h b64] assms show ?thesis by simp
next
  case (Some v)
  then have "x = Some v" "v \<noteq> []" by (auto simp: nonempty_def split: option.splits if_splits)
  with Some split_value_marker_hit [of b64 v raw enc ws h] assms show ?thesis
    by (simp add: value_segments_def list_all_iff)
qed

lemma value_segments_all:
  assumes "\<And>u. P (raw @ u)" "\<And>u. P (enc @ u)"
  shows "list_all P (value_segments b64 raw enc x)"
  using assms by (simp add: value_segments_def value_segment_def split: option.splits)

lemma value_segments_colon_free:
  assumes "base64_laws b64" "colon_free raw" "colon_free enc"
  shows "list_all colon_free (value_segments b64 raw enc x)"
  using value_segment_colon_free [OF assms] by (simp add: value_segments_def split: option.splits)

lemma bare_hintD: "bare_hint h \<Longrightarrow> n \<in> set MARKERS \<Longrightarrow> rsplit_once (''::'' @ n) h = None"
  by (simp add: bare_hint_def list_all_iff)

lemma marker_names: "list_all marker_name MARKERS"
  by (simp add: MARKERS_def marker_name_def)

text \<open>Taking the markers off, from the last to the first.\<close>

definition nonce_ok :: "string option \<Rightarrow> bool" where
  "nonce_ok x \<longleftrightarrow> (case x of Some n \<Rightarrow> length n = NONCE_HEX_LEN \<and> list_all lower_hex n | None \<Rightarrow> True)"

definition nonce_segments :: "string option \<Rightarrow> string list" where
  "nonce_segments x = (case x of Some n \<Rightarrow> [''n='' @ n] | None \<Rightarrow> [])"

lemma split_nonce:
  assumes "bare_hint h" "list_all colon_free ws" "list_all (\<lambda>w. \<not> starts_with ''n='' w) ws" "nonce_ok x"
  shows "split_dispatch_nonce (tagged h (ws @ nonce_segments x)) = (tagged h ws, x)"
proof (cases x)
  case None
  with tagged_miss [of "''n=''" ws h] bare_hintD [OF assms(1), of "''n=''"] assms(2,3) show ?thesis
    by (simp add: split_dispatch_nonce_def nonce_segments_def MARKERS_def marker_name_def)
next
  case (Some n)
  with assms(4) have "colon_free n"
    by (auto simp: nonce_ok_def list_all_iff lower_hex_def)
  with Some tagged_hit [of "''n=''" n h ws] assms(4) show ?thesis
    by (simp add: split_dispatch_nonce_def nonce_segments_def nonce_ok_def marker_name_def)
qed

lemma parse_tagged:
  fixes c t r :: "string option"
  assumes b: "base64_laws b64" and h: "bare_hint h" and ids: "is_plain_token p" "is_plain_token f" and x: "nonce_ok x"
  defines "W1 \<equiv> [''pack='' @ p, ''flow='' @ f]"
  defines "W2 \<equiv> W1 @ value_segments b64 ''cnv='' ''cnv64='' c"
  defines "W3 \<equiv> W2 @ value_segments b64 ''thread='' ''thr64='' t"
  defines "W4 \<equiv> W3 @ value_segments b64 ''reply='' ''rpl64='' r"
  shows "parse_correlation b64 (tagged h (W4 @ nonce_segments x)) =
    \<lparr>pr_bare_hint = h, pr_pack_id = Some p, pr_flow_id = Some f, pr_conversation = nonempty c,
     pr_thread = nonempty t, pr_reply_to = nonempty r, pr_nonce = x\<rparr>"
proof -
  have h': "rsplit_once (''::'' @ ''reply='') h = None" "rsplit_once (''::'' @ ''rpl64='') h = None"
    "rsplit_once (''::'' @ ''thread='') h = None" "rsplit_once (''::'' @ ''thr64='') h = None"
    "rsplit_once (''::'' @ ''cnv='') h = None" "rsplit_once (''::'' @ ''cnv64='') h = None"
    by (rule bare_hintD [OF h], simp add: MARKERS_def)+
  have ids': "colon_free p" "colon_free f" "p \<noteq> []" "f \<noteq> []"
    using ids by (auto simp: is_plain_token_def dest: plain_colon_free)
  have cf: "list_all colon_free W1" "list_all colon_free W2" "list_all colon_free W3" "list_all colon_free W4"
    using ids' value_segments_colon_free [OF b] by (auto simp: W1_def W2_def W3_def W4_def)
  have skip: "list_all (\<lambda>w. \<not> starts_with ''n='' w) W4"
    "list_all (\<lambda>w. \<not> starts_with ''reply='' w \<and> \<not> starts_with ''rpl64='' w) W3"
    "list_all (\<lambda>w. \<not> starts_with ''thread='' w \<and> \<not> starts_with ''thr64='' w) W2"
    "list_all (\<lambda>w. \<not> starts_with ''cnv='' w \<and> \<not> starts_with ''cnv64='' w) W1"
    by (simp_all add: W1_def W2_def W3_def W4_def starts_with_def value_segments_all)
  have "split_dispatch_nonce (tagged h (W4 @ nonce_segments x)) = (tagged h W4, x)"
    by (rule split_nonce [OF h cf(4) skip(1) x])
  moreover have "split_value_marker b64 (tagged h W4) (''::'' @ ''reply='') (''::'' @ ''rpl64='') = (tagged h W3, nonempty r)"
    unfolding W4_def
    by (rule split_value_segments [OF b _ _ _ cf(3) skip(2) h'(1,2)]) (simp_all add: marker_name_def starts_with_def)
  moreover have "split_value_marker b64 (tagged h W3) (''::'' @ ''thread='') (''::'' @ ''thr64='') = (tagged h W2, nonempty t)"
    unfolding W3_def
    by (rule split_value_segments [OF b _ _ _ cf(2) skip(3) h'(3,4)]) (simp_all add: marker_name_def starts_with_def)
  moreover have "split_value_marker b64 (tagged h W2) (''::'' @ ''cnv='') (''::'' @ ''cnv64='') = (tagged h W1, nonempty c)"
    unfolding W2_def
    by (rule split_value_segments [OF b _ _ _ cf(1) skip(4) h'(5,6)]) (simp_all add: marker_name_def starts_with_def)
  moreover have "split_marker (tagged h W1) (''::'' @ ''flow='') = (tagged h [''pack='' @ p], Some f)"
    using split_marker_hit [of "''flow=''" f h "[''pack='' @ p]"] ids' by (simp add: W1_def marker_name_def)
  moreover have "split_marker (tagged h [''pack='' @ p]) (''::'' @ ''pack='') = (h, Some p)"
    using split_marker_hit [of "''pack=''" p h "[]"] ids' by (simp add: marker_name_def)
  ultimately show ?thesis by (simp add: parse_correlation_def split_pack_suffix_def)
qed

lemma parse_bare_hint:
  assumes "bare_hint h"
  shows "pr_bare_hint (parse_correlation b64 h) = h"
proof -
  have "rsplit_once (''::'' @ n) h = None" if "n \<in> set MARKERS" for n
    using bare_hintD [OF assms that] .
  then show ?thesis
    by (simp add: parse_correlation_def split_dispatch_nonce_def split_value_marker_def split_marker_def
        split_pack_suffix_def MARKERS_def)
qed

lemma dispatch_correlation_tagged:
  assumes "bare_hint h"
  shows "dispatch_correlation b64 h p f scope x =
    tagged h (([''pack='' @ p, ''flow='' @ f] @ (case scope of Some sc \<Rightarrow> scope_segments b64 sc | None \<Rightarrow> [])) @ nonce_segments x)"
proof -
  have "h @ ''::pack='' @ p @ ''::flow='' @ f = tagged h [''pack='' @ p, ''flow='' @ f]"
    by (simp add: tagged_def)
  then show ?thesis
    using parse_bare_hint [OF assms, of b64] push_scope_markers_tagged [of b64 h "[''pack='' @ p, ''flow='' @ f]"]
    by (simp add: dispatch_correlation_def nonce_segments_def tagged_def split: option.splits)
qed

end
