(* ===== verification/Approval_Gate.thy ===== *)
theory Approval_Gate
  imports Engine_Route Correlation
begin

section \<open>Approval gates: tokens, decisions and admission\<close>

text \<open>
  \<open>crates/greentic-runner-host/src/runner/approval_token.rs\<close>, the decisions about an approval in
  \<open>engine.rs\<close>, and the admission of a response and the envelope it becomes in
  \<open>runtime_session_resumer.rs\<close>. SHA-256 is an argument; its hexadecimal text is not.
\<close>

subsection \<open>Hexadecimal text\<close>

definition nibble_char :: "nat \<Rightarrow> char" where
  "nibble_char d = char_of (if d < 10 then 48 + d else 87 + d)"

text \<open>A hexadecimal digit of either case, as \<open>hex::decode\<close> reads it.\<close>

definition nibble_of :: "char \<Rightarrow> nat option" where
  "nibble_of c =
     (let n = of_char c :: nat
      in if 48 \<le> n \<and> n \<le> 57 then Some (n - 48)
         else if 97 \<le> n \<and> n \<le> 102 then Some (n - 87)
         else if 65 \<le> n \<and> n \<le> 70 then Some (n - 55) else None)"

fun bytes_hex :: "string \<Rightarrow> string" where
  "bytes_hex [] = []"
| "bytes_hex (c # s) = nibble_char (of_char c div 16) # nibble_char (of_char c mod 16) # bytes_hex s"

fun hex_bytes :: "string \<Rightarrow> string option" where
  "hex_bytes [] = Some []"
| "hex_bytes [c] = None"
| "hex_bytes (c # d # s) =
     (case (nibble_of c, nibble_of d, hex_bytes s) of
        (Some a, Some b, Some r) \<Rightarrow> Some (char_of (16 * a + b) # r) | _ \<Rightarrow> None)"

lemma nibble_of_char: "d < 16 \<Longrightarrow> nibble_of (nibble_char d) = Some d"
  by (auto simp: nibble_of_def nibble_char_def Let_def)

lemma hex_bytes_hex: "hex_bytes (bytes_hex s) = Some s"
proof (induction s)
  case (Cons c s)
  have "of_char c < (256 :: nat)" by simp
  then have "of_char c div 16 < (16 :: nat)" by (simp add: less_mult_imp_div_less)
  moreover have "16 * (of_char c div 16) + of_char c mod 16 = (of_char c :: nat)" by simp
  ultimately show ?case using Cons by (simp add: nibble_of_char)
qed simp

subsection \<open>Tokens\<close>

record issued_token =
  it_token :: string
  it_fingerprint :: string

definition fingerprint :: "(string \<Rightarrow> string) \<Rightarrow> string \<Rightarrow> string" where
  "fingerprint sha token = bytes_hex (sha token)"

text \<open>\<open>issue\<close>, from the random bytes it draws.\<close>

definition issue_token :: "base64 \<Rightarrow> (string \<Rightarrow> string) \<Rightarrow> string \<Rightarrow> issued_token" where
  "issue_token b64 sha bytes =
     (let token = b64_encode b64 bytes in \<lparr>it_token = token, it_fingerprint = fingerprint sha token\<rparr>)"

definition verify_token :: "(string \<Rightarrow> string) \<Rightarrow> string option \<Rightarrow> string \<Rightarrow> bool" where
  "verify_token sha presented stored \<longleftrightarrow>
     (case presented of
        None \<Rightarrow> False
      | Some p \<Rightarrow>
          str_trim p \<noteq> [] \<and>
          (case hex_bytes stored of None \<Rightarrow> False | Some bytes \<Rightarrow> sha (str_trim p) = bytes))"

definition token_from_response :: "json \<Rightarrow> string option" where
  "token_from_response response = Option.bind (json_pointer [''output'', ''decision_token''] response) json_as_str"

definition strip_from_response :: "json \<Rightarrow> json" where
  "strip_from_response response =
     (case response of
        JObject fs \<Rightarrow> JObject (map (\<lambda>(k, v). (k, if k = ''output'' then obj_remove ''decision_token'' v else v)) fs)
      | _ \<Rightarrow> response)"

definition response_authenticates :: "(string \<Rightarrow> string) \<Rightarrow> json \<Rightarrow> parked_approval \<Rightarrow> bool" where
  "response_authenticates sha response parked \<longleftrightarrow>
     (case pa_token_fingerprint parked of
        None \<Rightarrow> True | Some fp \<Rightarrow> verify_token sha (token_from_response response) fp)"

lemma verify_fingerprint:
  "verify_token sha (Some p) (fingerprint sha token) \<longleftrightarrow> str_trim p \<noteq> [] \<and> sha (str_trim p) = sha token"
  by (simp add: verify_token_def fingerprint_def hex_bytes_hex)

subsection \<open>The gate and its decision\<close>

definition finite_number :: "json \<Rightarrow> string \<Rightarrow> 64 word option" where
  "finite_number input key =
     (case Option.bind (json_get key input) json_as_f64 of
        Some w \<Rightarrow> if f64_finite w then Some w else None | None \<Rightarrow> None)"

definition approval_requires_human :: "json \<Rightarrow> bool" where
  "approval_requires_human input =
     (let mode = (case get_str ''mode'' input of Some m \<Rightarrow> m | None \<Rightarrow> ''always'')
      in if mode = ''above_risk'' then
           (case (finite_number input ''risk'', finite_number input ''risk_threshold'') of
              (Some risk, Some threshold) \<Rightarrow> f64_cmp (\<ge>) risk threshold | _ \<Rightarrow> True)
         else if mode = ''above_confidence'' then
           (case (finite_number input ''confidence'', finite_number input ''confidence_threshold'') of
              (Some confidence, Some threshold) \<Rightarrow> f64_cmp (<) confidence threshold | _ \<Rightarrow> True)
         else True)"

definition entry_is_approval_response :: "json \<Rightarrow> bool" where
  "entry_is_approval_response entry \<longleftrightarrow> json_get ''ok'' entry \<noteq> None"

definition approval_outcome_from_entry :: "json \<Rightarrow> string" where
  "approval_outcome_from_entry entry =
     (if (case Option.bind (json_pointer [''error'', ''code''] entry) json_as_str of
            Some code \<Rightarrow> eq_ignore_ascii_case code ''timeout'' | None \<Rightarrow> False) then ''timeout''
      else if get_bool ''ok'' entry = Some False then ''denied''
      else
        (case Option.bind (json_pointer [''output'', ''decision''] entry) json_as_str of
           Some d \<Rightarrow> if eq_ignore_ascii_case d ''approved'' then ''approved'' else ''denied''
         | None \<Rightarrow> ''denied''))"

subsection \<open>Admission of a response\<close>

datatype admission_mode = Lenient | Strict

datatype admission = AdmResume | WrongGate | BadToken

definition admit_response_with ::
  "(string \<Rightarrow> string) \<Rightarrow> admission_mode \<Rightarrow> string \<Rightarrow> json \<Rightarrow> parked_approval list option \<Rightarrow> admission" where
  "admit_response_with sha mode correlation_id response parked =
     (let nonced = snd (split_dispatch_nonce correlation_id) \<noteq> None;
          strict = (nonced \<and> mode = Strict)
      in case parked of
           None \<Rightarrow> if strict then WrongGate else AdmResume
         | Some parked \<Rightarrow>
             (let candidates = filter (\<lambda>park.
                      \<not> nonced \<or>
                      (case pa_correlation_id park of
                         Some recorded \<Rightarrow> recorded = correlation_id | None \<Rightarrow> \<not> strict)) parked
              in if candidates = [] then if nonced then WrongGate else AdmResume
                 else if list_ex (response_authenticates sha response) candidates then AdmResume
                 else BadToken))"

subsection \<open>The envelope of a resume\<close>

text \<open>What \<open>build_resume_envelope\<close> derives from the correlation id.\<close>

record resume_envelope =
  re_pack_id :: "string option"
  re_flow_id :: string
  re_session_hint :: string
  re_provider :: "string option"
  re_channel :: "string option"
  re_conversation :: "string option"
  re_user :: "string option"
  re_endpoint_id :: "string option"
  re_reply_scope :: "reply_scope option"
  re_payload :: json

text \<open>\<open>split_once\<close> at two colons, and \<open>splitn\<close> at single ones.\<close>

fun split_colons :: "string \<Rightarrow> (string \<times> string) option" where
  "split_colons [] = None"
| "split_colons (c # s) =
     (if starts_with ''::'' (c # s) then Some ([], drop 2 (c # s))
      else map_option (\<lambda>(a, b). (c # a, b)) (split_colons s))"

definition split_endpoint_prefix :: "string \<Rightarrow> string option \<times> string" where
  "split_endpoint_prefix hint =
     (if starts_with ''ep='' hint then
        (case split_colons (drop 3 hint) of Some (eid, tail) \<Rightarrow> (Some eid, tail) | None \<Rightarrow> (None, hint))
      else (None, hint))"

fun splitn_colon :: "nat \<Rightarrow> string \<Rightarrow> string list" where
  "splitn_colon 0 s = []"
| "splitn_colon (Suc 0) s = [s]"
| "splitn_colon (Suc (Suc n)) s =
     (let a = takeWhile (\<lambda>c. c \<noteq> CHR '':'') s; r = dropWhile (\<lambda>c. c \<noteq> CHR '':'') s
      in if r = [] then [a] else a # splitn_colon (Suc n) (tl r))"

definition get_part :: "nat \<Rightarrow> string list \<Rightarrow> string option" where
  "get_part i xs = (if i < length xs then Some (xs ! i) else None)"

definition build_resume_envelope :: "base64 \<Rightarrow> string \<Rightarrow> json \<Rightarrow> resume_envelope" where
  "build_resume_envelope b64 correlation_id output =
     (let parsed = parse_correlation b64 correlation_id;
          (endpoint_id, body) = split_endpoint_prefix (pr_bare_hint parsed);
          parts = splitn_colon 5 body;
          conversation = or_else (pr_conversation parsed) (get_part 3 parts)
      in \<lparr>re_pack_id = pr_pack_id parsed,
          re_flow_id = (case or_else (pr_flow_id parsed) (pr_pack_id parsed) of Some f \<Rightarrow> f | None \<Rightarrow> ''resume.flow''),
          re_session_hint = pr_bare_hint parsed,
          re_provider = get_part 1 parts, re_channel = get_part 2 parts, re_conversation = conversation,
          re_user = get_part 4 parts, re_endpoint_id = endpoint_id,
          re_reply_scope = map_option (\<lambda>c. \<lparr>rs_conversation = c, rs_thread = pr_thread parsed, rs_reply_to = pr_reply_to parsed\<rparr>)
             conversation,
          re_payload = output\<rparr>)"


subsection \<open>Hints and the way back\<close>

definition canonical_session_hint ::
  "string \<Rightarrow> string option \<Rightarrow> string option \<Rightarrow> string option \<Rightarrow> string option \<Rightarrow> string" where
  "canonical_session_hint tenant provider channel conversation user =
     join_colon
       [tenant, unwrap_or ''provider'' provider, unwrap_or ''channel'' channel, unwrap_or ''conversation'' conversation,
        unwrap_or ''user'' user]"

text \<open>The endpoint prefix that \<open>canonicalize\<close> puts before a hint.\<close>

definition namespaced_hint :: "string option \<Rightarrow> string \<Rightarrow> string" where
  "namespaced_hint endpoint base =
     (case endpoint of
        Some eid \<Rightarrow>
          (let prefix = ''ep='' @ eid @ ''::'' in if starts_with prefix base then base else prefix @ base)
      | None \<Rightarrow> base)"

lemma colon_split:
  assumes "colon_free y"
  shows "takeWhile (\<lambda>c. c \<noteq> CHR '':'') (y @ CHR '':'' # r) = y"
    "dropWhile (\<lambda>c. c \<noteq> CHR '':'') (y @ CHR '':'' # r) = CHR '':'' # r"
  using assms by (induction y) auto

lemma splitn_colon_join:
  assumes "list_all colon_free xs" "ys \<noteq> []"
  shows "splitn_colon (Suc (length xs + n)) (join_colon (xs @ ys)) = xs @ splitn_colon (Suc n) (join_colon ys)"
  using assms
proof (induction xs)
  case (Cons x xs)
  have x: "takeWhile (\<lambda>c. c \<noteq> CHR '':'') (x @ CHR '':'' # r) = x"
    "dropWhile (\<lambda>c. c \<noteq> CHR '':'') (x @ CHR '':'' # r) = CHR '':'' # r" for r
    using Cons.prems colon_split [of x r] by simp_all
  obtain z zs where "xs @ ys = z # zs" using assms(2) by (cases "xs @ ys") auto
  with Cons x show ?case by simp
qed simp

lemma split_colons_append: "colon_free e \<Longrightarrow> split_colons (e @ ''::'' @ s) = Some (e, s)"
  by (induction e) (auto simp: starts_with_def)

lemma plain_not_ep: "is_plain_token t \<Longrightarrow> \<not> starts_with ''ep='' (t @ CHR '':'' # s)"
proof
  assume t: "is_plain_token t" and "starts_with ''ep='' (t @ CHR '':'' # s)"
  then have "take 3 (t @ CHR '':'' # s) = ''ep=''" by (simp add: starts_with_def eval_nat_numeral)
  with t show False
    by (cases t; cases "tl t"; cases "tl (tl t)") (auto simp: is_plain_token_def plain_char_simps eval_nat_numeral)
qed

lemma split_namespaced:
  assumes "is_plain_token t" "\<And>e. endpoint = Some e \<Longrightarrow> colon_free e"
  shows "split_endpoint_prefix (namespaced_hint endpoint (t @ CHR '':'' # s)) = (endpoint, t @ CHR '':'' # s)"
proof (cases endpoint)
  case None
  then show ?thesis using plain_not_ep [OF assms(1), of s] by (simp add: split_endpoint_prefix_def namespaced_hint_def)
next
  case (Some e)
  have "\<not> starts_with (''ep='' @ e @ ''::'') (t @ CHR '':'' # s)"
    using plain_not_ep [OF assms(1), of s] unfolding starts_with_iff by (metis append.assoc)
  then show ?thesis
    using Some split_colons_append [of e "t @ CHR '':'' # s"] assms(2)
    by (simp add: split_endpoint_prefix_def namespaced_hint_def starts_with_def)
qed

lemma hint_parts:
  assumes "list_all colon_free [tenant, unwrap_or ''provider'' provider, unwrap_or ''channel'' channel]"
  shows "get_part 1 (splitn_colon 5 (canonical_session_hint tenant provider channel (Some conversation) user)) =
      Some (unwrap_or ''provider'' provider)"
    "get_part 2 (splitn_colon 5 (canonical_session_hint tenant provider channel (Some conversation) user)) =
      Some (unwrap_or ''channel'' channel)"
    "colon_free conversation \<Longrightarrow>
       get_part 3 (splitn_colon 5 (canonical_session_hint tenant provider channel (Some conversation) user)) = Some conversation"
    "colon_free conversation \<Longrightarrow>
       get_part 4 (splitn_colon 5 (canonical_session_hint tenant provider channel (Some conversation) user)) =
       Some (unwrap_or ''user'' user)"
  using splitn_colon_join [OF assms, of "[conversation, unwrap_or ''user'' user]" 1]
    splitn_colon_join [of "[conversation]" "[unwrap_or ''user'' user]" 0]
  by (simp_all add: canonical_session_hint_def get_part_def eval_nat_numeral unwrap_or_def [of _ "Some conversation"])

lemma namespaced_canonical:
  assumes "is_plain_token tenant" "\<And>e. endpoint = Some e \<Longrightarrow> colon_free e"
  shows "split_endpoint_prefix (namespaced_hint endpoint (canonical_session_hint tenant provider channel conversation user))
    = (endpoint, canonical_session_hint tenant provider channel conversation user)"
  using split_namespaced [OF assms] by (simp add: canonical_session_hint_def)

text \<open>What a resume envelope takes from the id of a dispatch under a hint without markers.\<close>

lemma parse_dispatch:
  assumes "base64_laws b64" "bare_hint h" "is_plain_token p" "is_plain_token f" "nonce_ok x"
  shows "parse_correlation b64 (dispatch_correlation b64 h p f (Some sc) x) =
    \<lparr>pr_bare_hint = h, pr_pack_id = Some p, pr_flow_id = Some f, pr_conversation = nonempty (marked_conversation sc),
     pr_thread = nonempty (rs_thread sc), pr_reply_to = nonempty (rs_reply_to sc), pr_nonce = x\<rparr>"
  using parse_tagged [OF assms, of "marked_conversation sc" "rs_thread sc" "rs_reply_to sc"]
  by (simp add: dispatch_correlation_tagged [OF assms(2)] scope_segments_def)

end
