(* ===== verification/Engine_Dispatch.thy ===== *)
theory Engine_Dispatch
  imports Engine_Payload Approval_Gate
begin

section \<open>Dispatching a node\<close>

text \<open>
  \<open>dispatch_node\<close> of \<open>crates/greentic-runner-host/src/runner/engine.rs\<close> and the operations it calls. A node runs
  over the state of the run and a world \<open>'w\<close>; what the engine calls outside itself (the handlers set on it, the
  components, providers and assets of a pack, the state store, the template renderer, clocks and random bytes)
  is the record \<open>flow_engine\<close>. Observers and telemetry do not change what a node returns and are left out, and
  so is the text of an error that \<open>serde\<close> raises inside a context.
\<close>

record flow_ctx =
  fc_tenant :: string
  fc_pack_id :: string
  fc_flow_id :: string
  fc_session_id :: "string option"
  fc_provider_id :: "string option"
  fc_reply_scope :: "reply_scope option"
  fc_max_attempts :: nat
  fc_attempt :: nat
  fc_caller :: "json option"

record remote_dispatch =
  rd_tenant :: string
  rd_env :: string
  rd_runtime :: string
  rd_target :: string
  rd_operation :: string
  rd_await :: bool
  rd_correlation_id :: string
  rd_input :: json
  rd_deadline_ms :: "nat option"
  rd_decision_token :: "string option"

datatype remote_action = AwaitingResponse string | Dispatched

type_synonym ('w, 'a) io = "('w, flow_error, 'a) st_res"

record 'w kv_store =
  ks_get :: "string \<Rightarrow> string \<Rightarrow> ('w, json option) io"
  ks_set :: "string \<Rightarrow> string \<Rightarrow> json \<Rightarrow> ('w, unit) io"

record component_call =
  cc_component_ref :: string
  cc_operation :: string
  cc_input :: json
  cc_config :: json
  cc_has_error_route :: bool

record 'w flow_engine =
  en_tx :: text_lib
  en_b64 :: base64
  en_sha :: "string \<Rightarrow> string"
  en_env :: string
  en_registered :: "string \<Rightarrow> string \<Rightarrow> bool"
  en_load :: "string \<Rightarrow> string \<Rightarrow> ('w, host_flow) io"
  en_render :: "bool \<Rightarrow> json \<Rightarrow> json \<Rightarrow> (flow_error, json) result"
  en_now :: "'w \<Rightarrow> json"
  en_elapsed_ms :: "'w \<Rightarrow> nat"
  en_random :: "nat \<Rightarrow> 'w \<Rightarrow> string \<times> 'w"
  en_failure_text :: "json \<Rightarrow> string"
  en_component_issues :: "json \<Rightarrow> bool"
  en_tool_issues :: "json \<Rightarrow> bool"
  en_asset :: "flow_ctx \<Rightarrow> string \<Rightarrow> string option"
  en_component :: "flow_ctx \<Rightarrow> string \<Rightarrow> component_call \<Rightarrow> ('w, json) io"
  en_resolve_provider :: "flow_ctx \<Rightarrow> string option \<Rightarrow> string option \<Rightarrow> flow_error option"
  en_provider :: "flow_ctx \<Rightarrow> string \<Rightarrow> string option \<Rightarrow> string option \<Rightarrow> string \<Rightarrow> json \<Rightarrow> ('w, json) io"
  en_cross_pack :: "(string \<Rightarrow> string option \<Rightarrow> string \<Rightarrow> json \<Rightarrow> string \<Rightarrow> ('w, json) io) option"
  en_store :: "'w kv_store option"
  en_tenant_error :: "string \<Rightarrow> flow_error option"
  en_nats :: bool
  en_agent_session :: "string option \<Rightarrow> 'w \<Rightarrow> (string, string) result \<times> 'w"
  en_agent :: "(flow_ctx \<Rightarrow> string \<Rightarrow> string \<Rightarrow> json \<Rightarrow> bool \<Rightarrow> json option \<Rightarrow> ('w, json) io) option"
  en_graph :: "(flow_ctx \<Rightarrow> string \<Rightarrow> string \<Rightarrow> json \<Rightarrow> ('w, json) io) option"
  en_operala :: "(flow_ctx \<Rightarrow> string \<Rightarrow> string \<Rightarrow> string \<Rightarrow> json \<Rightarrow> ('w, json) io) option"
  en_sorla_http :: "(flow_ctx \<Rightarrow> string \<Rightarrow> json \<Rightarrow> string \<Rightarrow> 'w \<Rightarrow> (string, json option) result \<times> 'w) option"
  en_mcp :: "flow_ctx \<Rightarrow> string \<Rightarrow> string \<Rightarrow> json \<Rightarrow> 'w \<Rightarrow> json \<times> 'w"
  en_a2a_answer :: "json \<Rightarrow> json option"
  en_a2a :: "flow_ctx \<Rightarrow> string \<Rightarrow> json \<Rightarrow> json \<Rightarrow> 'w \<Rightarrow> json \<times> 'w"
  en_media :: "flow_ctx \<Rightarrow> json \<Rightarrow> 'w \<Rightarrow> json \<times> 'w"
  en_remote :: "(remote_dispatch \<Rightarrow> ('w, remote_action) io) option"
  en_approval_remote :: "(remote_dispatch \<Rightarrow> ('w, remote_action) io) option"

subsection \<open>Composition\<close>

text \<open>A node runs over the state of the run and the world.\<close>

type_synonym ('w, 'a) node_m = "(exec_state \<times> 'w, flow_error, 'a) st_res"

definition in_world :: "('w, 'a) io \<Rightarrow> ('w, 'a) node_m" where
  "in_world f = (\<lambda>(st, w). case f w of (r, w') \<Rightarrow> (r, st, w'))"

definition get_state :: "('w, exec_state) node_m" where
  "get_state = (\<lambda>(st, w). (Inr st, st, w))"

definition get_world :: "('w, 'w) node_m" where
  "get_world = (\<lambda>(st, w). (Inr w, st, w))"

definition modify_state :: "(exec_state \<Rightarrow> exec_state) \<Rightarrow> ('w, unit) node_m" where
  "modify_state f = (\<lambda>(st, w). (Inr (), f st, w))"

text \<open>An operation of the state that returns a value.\<close>

definition run_state :: "(exec_state \<Rightarrow> 'a \<times> exec_state) \<Rightarrow> ('w, 'a) node_m" where
  "run_state f = (\<lambda>(st, w). case f st of (a, st') \<Rightarrow> (Inr a, st', w))"

text \<open>A call that cannot fail.\<close>

definition pure_io :: "('w \<Rightarrow> 'a \<times> 'w) \<Rightarrow> ('w, 'a) io" where
  "pure_io f = (\<lambda>w. case f w of (a, w') \<Rightarrow> (Inr a, w'))"

text \<open>The errors of a step, changed by \<open>map_err\<close> or \<open>with_context\<close>.\<close>

definition smap_err :: "('e \<Rightarrow> 'f) \<Rightarrow> ('s, 'e, 'a) st_res \<Rightarrow> ('s, 'f, 'a) st_res" where
  "smap_err f m = (\<lambda>s. case m s of (r, s') \<Rightarrow> (map_err f r, s'))"

definition err_of :: "string \<Rightarrow> flow_error" where
  "err_of m = Leaf False m"

definition complete :: "node_output \<Rightarrow> dispatch_outcome" where
  "complete out = (out, Continue)"

subsection \<open>Payloads that serde reads\<close>

text \<open>
  A derived \<open>Deserialize\<close> takes an object by its field names, or an array by position: at least the fields
  without a default, at most all of them. A field under two of its names is refused.
\<close>

definition struct_fields :: "string list \<Rightarrow> nat \<Rightarrow> json \<Rightarrow> (string \<times> json) list option" where
  "struct_fields names least v =
     (case v of
        JObject fs \<Rightarrow> Some fs
      | JArray xs \<Rightarrow> if least \<le> length xs \<and> length xs \<le> length names then Some (zip names xs) else None
      | _ \<Rightarrow> None)"

definition one_field :: "string list \<Rightarrow> (string \<times> json) list \<Rightarrow> json option option" where
  "one_field names fs =
     (case filter (\<lambda>(k, v). List.member names k) fs of [] \<Rightarrow> Some None | [(k, v)] \<Rightarrow> Some (Some v) | _ \<Rightarrow> None)"

definition opt_string_field :: "string list \<Rightarrow> (string \<times> json) list \<Rightarrow> string option option" where
  "opt_string_field names fs =
     (case one_field names fs of
        Some None \<Rightarrow> Some None | Some (Some JNull) \<Rightarrow> Some None | Some (Some (JString s)) \<Rightarrow> Some (Some s) | _ \<Rightarrow> None)"

definition value_field :: "string \<Rightarrow> (string \<times> json) list \<Rightarrow> json" where
  "value_field name fs = unwrap_or JNull (map_of fs name)"

definition opt_u32_field :: "string \<Rightarrow> (string \<times> json) list \<Rightarrow> nat option option" where
  "opt_u32_field name fs =
     (case map_of fs name of
        None \<Rightarrow> Some None
      | Some JNull \<Rightarrow> Some None
      | Some (JInt n) \<Rightarrow> if 0 \<le> n \<and> n \<le> int u32_max then Some (Some (nat n)) else None
      | _ \<Rightarrow> None)"

definition invalid_payload :: "string \<Rightarrow> flow_error" where
  "invalid_payload m = Context m (err_of [])"

subsection \<open>Components\<close>

definition extract_operation_from_mapping :: "json \<Rightarrow> string option" where
  "extract_operation_from_mapping payload =
     trimmed (Option.bind (or_else (json_get ''operation'' payload) (json_get ''op'' payload)) json_as_str)"

definition split_operation_payload :: "json \<Rightarrow> json \<times> json" where
  "split_operation_payload payload =
     (case payload of
        JObject fs \<Rightarrow>
          (case map_of fs ''input'' of
             Some input \<Rightarrow>
               if list_all (\<lambda>(k, v). List.member [''input'', ''config'', ''operation'', ''op'', ''component'', ''component_ref''] k) fs
               then (input, unwrap_or JNull (map_of fs ''config''))
               else (payload, JNull)
           | None \<Rightarrow> (payload, JNull))
      | _ \<Rightarrow> (payload, JNull))"

definition resolve_component_operation ::
  "string \<Rightarrow> string \<Rightarrow> string option \<Rightarrow> string option \<Rightarrow> string option \<Rightarrow> (flow_error, string) result" where
  "resolve_component_operation node_id label payload_operation override in_mapping =
     (case or_else (trimmed override) (trimmed payload_operation) of
        Some op \<Rightarrow> Inr op
      | None \<Rightarrow>
          Inl (err_of (''missing operation for node `'' @ node_id @ ''` (component `'' @ label @
            ''`); expected node.component.operation to be set'' @
            (case in_mapping of
               Some found \<Rightarrow>
                 ''. Found operation in input.mapping (`'' @ found @
                 ''`) but this is not used; pack compiler must preserve node.component.operation.''
             | None \<Rightarrow> []))))"

definition not_registered :: "flow_ctx \<Rightarrow> flow_error" where
  "not_registered ctx = err_of (''flow '' @ fc_flow_id ctx @ '' (pack '' @ fc_pack_id ctx @ '') not registered'')"

definition session_metadata :: "flow_ctx \<Rightarrow> json" where
  "session_metadata ctx =
     json_obj ((''tenant_id'', JString (fc_tenant ctx)) #
       (case fc_session_id ctx of Some i \<Rightarrow> [(''session'', json_obj [(''id'', JString i)])] | None \<Rightarrow> []))"

definition component_envelope :: "flow_ctx \<Rightarrow> component_call \<Rightarrow> json" where
  "component_envelope ctx call =
     json_obj
       [(''component_id'', JString (cc_component_ref call)), (''operation'', JString (cc_operation call)),
        (''input'', cc_input call), (''config'', cc_config call), (''metadata'', session_metadata ctx)]"

definition tool_envelope :: "flow_ctx \<Rightarrow> string option \<Rightarrow> string option \<Rightarrow> string \<Rightarrow> json \<Rightarrow> json" where
  "tool_envelope ctx provider_id provider_type op input =
     json_obj
       [(''tool_id'', JString (unwrap_or ''provider.invoke'' (or_else provider_id provider_type))),
        (''operation'', JString op), (''input'', input), (''metadata'', session_metadata ctx)]"

text \<open>What the result of a component makes of the node.\<close>

definition component_result :: "component_call \<Rightarrow> json \<Rightarrow> (flow_error, node_output) result" where
  "component_result call v =
     (case component_error v of
        Some (code, message) \<Rightarrow>
          if cc_has_error_route call then Inr (errored v)
          else Inl (err_of (''component '' @ cc_component_ref call @ '' failed: '' @ code @ '': '' @ message))
      | None \<Rightarrow>
          (case mcp_tool_error v of
             Some (code, message) \<Rightarrow>
               if cc_has_error_route call then Inr (errored (normalize_mcp_tool_error v code message))
               else Inl (err_of (''component '' @ cc_component_ref call @ '' returned tool error: '' @ code @ '': '' @ message))
           | None \<Rightarrow> Inr (with_meta v (outcome_meta v))))"

definition invoke_component_call ::
  "'w flow_engine \<Rightarrow> flow_ctx \<Rightarrow> string \<Rightarrow> component_call \<Rightarrow> ('w, node_output) io" where
  "invoke_component_call en ctx node_id call =
     (if en_component_issues en (component_envelope ctx call) then sfail (err_of ''invocation_validation_failed'')
      else if \<not> en_registered en (fc_pack_id ctx) (fc_flow_id ctx) then sfail (not_registered ctx)
      else
        (let input = resolve_card_assets (en_tx en) (en_asset en ctx)
                       (promote_card_config_to_invocation (en_tx en) (cc_input call) (cc_config call))
         in sbind (en_component en ctx node_id (call\<lparr>cc_input := input\<rparr>)) (\<lambda>v. sres (component_result call v))))"

definition execute_component_exec ::
  "'w flow_engine \<Rightarrow> flow_ctx \<Rightarrow> string \<Rightarrow> host_node \<Rightarrow> json \<Rightarrow> string \<Rightarrow> ('w, node_output) io" where
  "execute_component_exec en ctx node_id node payload target =
     (case struct_fields [''component'', ''operation'', ''input'', ''config''] 2 payload of
        None \<Rightarrow> sfail (invalid_payload ''invalid payload for component.exec'')
      | Some fs \<Rightarrow>
          (case (opt_string_field [''component'', ''component_ref''] fs, opt_string_field [''operation'', ''op''] fs) of
             (Some _, Some operation) \<Rightarrow>
               sbind (sres (resolve_component_operation node_id (hn_component_id node) operation (hn_operation_name node)
                              (hn_operation_in_mapping node))) (\<lambda>op.
               invoke_component_call en ctx node_id
                 \<lparr>cc_component_ref = target, cc_operation = op, cc_input = value_field ''input'' fs,
                  cc_config = value_field ''config'' fs, cc_has_error_route = node_has_error_route (hn_routing node)\<rparr>)
           | _ \<Rightarrow> sfail (invalid_payload ''invalid payload for component.exec'')))"

definition execute_component_call ::
  "'w flow_engine \<Rightarrow> flow_ctx \<Rightarrow> string \<Rightarrow> host_node \<Rightarrow> json \<Rightarrow> string \<Rightarrow> ('w, node_output) io" where
  "execute_component_call en ctx node_id node payload component_ref =
     sbind (sres (resolve_component_operation node_id (hn_component_id node) (extract_operation_from_mapping payload)
                    (hn_operation_name node) (hn_operation_in_mapping node))) (\<lambda>op.
     invoke_component_call en ctx node_id
       \<lparr>cc_component_ref = component_ref, cc_operation = op, cc_input = fst (split_operation_payload payload),
        cc_config = snd (split_operation_payload payload), cc_has_error_route = node_has_error_route (hn_routing node)\<rparr>)"


subsection \<open>Providers\<close>

definition with_result_keys :: "json \<Rightarrow> json \<Rightarrow> json" where
  "with_result_keys base v =
     (case base of JObject fs \<Rightarrow> JObject (bt_insert ''result'' v (bt_insert ''input'' v fs)) | _ \<Rightarrow> base)"

definition try_invoke_cross_pack_resolver ::
  "'w flow_engine \<Rightarrow> string option \<Rightarrow> string option \<Rightarrow> string \<Rightarrow> json \<Rightarrow> string \<Rightarrow> ('w, node_output option) io" where
  "try_invoke_cross_pack_resolver en provider_id provider_type op input tenant =
     (case en_cross_pack en of
        None \<Rightarrow> sret None
      | Some resolver \<Rightarrow>
          sbind (resolver (unwrap_or ''unknown'' provider_id) provider_type op input tenant) (\<lambda>v.
          sret (Some (node_output_new v))))"

text \<open>The input of a provider call: its \<open>in_map\<close> rendered, or the input itself.\<close>

definition provider_input :: "'w flow_engine \<Rightarrow> json \<Rightarrow> json \<Rightarrow> json \<Rightarrow> (flow_error, json) result" where
  "provider_input en base_ctx input in_map =
     (if in_map \<noteq> JNull
      then map_err (Context ''failed to render provider.invoke in_map'') (en_render en True in_map (with_result_keys base_ctx input))
      else Inr input)"

definition provider_call ::
  "'w flow_engine \<Rightarrow> flow_ctx \<Rightarrow> string \<Rightarrow> json \<Rightarrow> string option \<Rightarrow> string option \<Rightarrow> string \<Rightarrow> json \<Rightarrow> json \<Rightarrow>
   ('w, node_output) io" where
  "provider_call en ctx node_id base_ctx provider_id provider_type op input out_map =
     sbind (en_provider en ctx node_id provider_id provider_type op input) (\<lambda>v.
     if out_map = JNull then sret (node_output_new v)
     else
       sres (rbind (map_err (Context ''failed to render provider.invoke out_map'')
                      (en_render en True out_map (with_result_keys base_ctx v))) (\<lambda>out. Inr (node_output_new out))))"

text \<open>The call once its input is known: every failure before the provider runs is marked.\<close>

definition provider_dispatch ::
  "'w flow_engine \<Rightarrow> flow_ctx \<Rightarrow> string \<Rightarrow> json \<Rightarrow> string option \<Rightarrow> string option \<Rightarrow> string \<Rightarrow> json \<Rightarrow> json \<Rightarrow>
   ('w, node_output) io" where
  "provider_dispatch en ctx node_id base_ctx pid ptype op input out_map =
     (if en_tool_issues en (tool_envelope ctx pid ptype op input) then sfail (pre_effect (err_of ''invocation_validation_failed''))
      else if \<not> en_registered en (fc_pack_id ctx) (fc_flow_id ctx) then sfail (pre_effect (not_registered ctx))
      else
        (case en_resolve_provider en ctx pid ptype of
           None \<Rightarrow> provider_call en ctx node_id base_ctx pid ptype op input out_map
         | Some e \<Rightarrow>
             sbind (try_invoke_cross_pack_resolver en pid ptype op input (fc_tenant ctx)) (\<lambda>r.
             case r of Some out \<Rightarrow> sret out | None \<Rightarrow> sfail (pre_effect e))))"

definition execute_provider_invoke ::
  "'w flow_engine \<Rightarrow> flow_ctx \<Rightarrow> string \<Rightarrow> exec_state \<Rightarrow> json \<Rightarrow> ('w, node_output) io" where
  "execute_provider_invoke en ctx node_id st payload =
     (let invalid = sfail (pre_effect (invalid_payload ''invalid payload for provider.invoke''))
      in case struct_fields [''provider_id'', ''provider_type'', ''op'', ''input'', ''in_map'', ''out_map''] 0 payload of
           None \<Rightarrow> invalid
         | Some fs \<Rightarrow>
             (case (opt_string_field [''provider_id''] fs, opt_string_field [''provider_type''] fs,
                    opt_string_field [''op'', ''operation''] fs) of
                (Some pid, Some ptype, Some (Some op)) \<Rightarrow>
                  if str_trim op = [] then sfail (pre_effect (err_of ''provider.invoke requires an op''))
                  else
                    (\<lambda>w. let base_ctx = template_context (en_tx en) (en_now en w) st (unwrap_or (JObject []) (xs_last_output st))
                         in sbind (sres (map_err pre_effect (provider_input en base_ctx (value_field ''input'' fs) (value_field ''in_map'' fs))))
                              (\<lambda>input. provider_dispatch en ctx node_id base_ctx pid ptype op input (value_field ''out_map'' fs)) w)
              | (Some pid, Some ptype, Some None) \<Rightarrow> sfail (pre_effect (err_of ''provider.invoke requires an op''))
              | _ \<Rightarrow> invalid))"

subsection \<open>The state store\<close>

definition extract_state_key_helper :: "json \<Rightarrow> (flow_error, string) result" where
  "extract_state_key_helper payload =
     (case get_str ''key'' payload of
        Some (c # k) \<Rightarrow> Inr (c # k) | _ \<Rightarrow> Inl (err_of ''state node payload missing required `key` (non-empty string)''))"

definition state_store_for :: "'w flow_engine \<Rightarrow> flow_ctx \<Rightarrow> (flow_error, 'w kv_store) result" where
  "state_store_for en ctx =
     (if \<not> en_registered en (fc_pack_id ctx) (fc_flow_id ctx) then Inl (not_registered ctx)
      else
        rbind (ok_or (err_of ''state store is not configured for this runtime'') (en_store en)) (\<lambda>store.
        case en_tenant_error en (fc_tenant ctx) of Some e \<Rightarrow> Inl e | None \<Rightarrow> Inr store))"

definition execute_state_get :: "'w flow_engine \<Rightarrow> flow_ctx \<Rightarrow> json \<Rightarrow> ('w, node_output) io" where
  "execute_state_get en ctx payload =
     sbind (sres (extract_state_key_helper payload)) (\<lambda>key.
     sbind (sres (state_store_for en ctx)) (\<lambda>store.
     sbind (smap_err (Context (''state.get failed for key `'' @ key @ ''`'')) (ks_get store (fc_tenant ctx) key)) (\<lambda>v.
     sret (node_output_new
       (json_obj [(''key'', JString key), (''value'', unwrap_or JNull v), (''found'', JBool (v \<noteq> None))])))))"

definition execute_state_set :: "'w flow_engine \<Rightarrow> flow_ctx \<Rightarrow> json \<Rightarrow> ('w, node_output) io" where
  "execute_state_set en ctx payload =
     sbind (sres (extract_state_key_helper payload)) (\<lambda>key.
     sbind (sres (state_store_for en ctx)) (\<lambda>store.
     (let v = unwrap_or JNull (json_get ''value'' payload)
      in sbind (smap_err (Context (''state.set failed for key `'' @ key @ ''`'')) (ks_set store (fc_tenant ctx) key v)) (\<lambda>_.
         sret (node_output_new (json_obj [(''key'', JString key), (''value'', v)]))))))"

subsection \<open>Remote dispatch\<close>

definition APPROVAL_RUNTIME :: string where "APPROVAL_RUNTIME = ''approval''"

definition dispatch_handler_for ::
  "'w flow_engine \<Rightarrow> string \<Rightarrow> (remote_dispatch \<Rightarrow> ('w, remote_action) io) option" where
  "dispatch_handler_for en runtime =
     (if runtime = APPROVAL_RUNTIME then or_else (en_approval_remote en) (en_remote en) else en_remote en)"

text \<open>The nonce of an approval: 16 random bytes in hexadecimal.\<close>

definition dispatch_nonce :: "'w flow_engine \<Rightarrow> string \<Rightarrow> 'w \<Rightarrow> string option \<times> 'w" where
  "dispatch_nonce en runtime w =
     (if runtime = APPROVAL_RUNTIME then (case en_random en 16 w of (bytes, w') \<Rightarrow> (Some (bytes_hex bytes), w'))
      else (None, w))"

definition remote_request ::
  "'w flow_engine \<Rightarrow> flow_ctx \<Rightarrow> string \<Rightarrow> string \<Rightarrow> json \<Rightarrow> string option \<Rightarrow> string option \<Rightarrow> remote_dispatch" where
  "remote_request en ctx runtime target payload nonce decision_token =
     \<lparr>rd_tenant = fc_tenant ctx, rd_env = en_env en, rd_runtime = runtime, rd_target = target,
      rd_operation = unwrap_or [] (get_str ''operation'' payload), rd_await = unwrap_or True (get_bool ''await'' payload),
      rd_correlation_id =
        dispatch_correlation (en_b64 en) (unwrap_or [] (fc_session_id ctx)) (fc_pack_id ctx) (fc_flow_id ctx) (fc_reply_scope ctx) nonce,
      rd_input = unwrap_or JNull (json_get ''input'' payload),
      rd_deadline_ms = Option.bind (json_get ''deadline_ms'' payload) json_as_u64,
      rd_decision_token = decision_token\<rparr>"

definition remote_outcome :: "bool \<Rightarrow> string \<Rightarrow> remote_action \<Rightarrow> dispatch_outcome" where
  "remote_outcome resume_at_self correlation_id action =
     (case action of
        AwaitingResponse c \<Rightarrow>
          (node_output_new (json_obj [(''pending'', JBool True), (''correlation_id'', JString c)]),
           if resume_at_self then AwaitHere (Some (''await-runtime:'' @ c)) c else Wait (Some (''await-runtime:'' @ c)))
      | Dispatched \<Rightarrow>
          complete (node_output_new (json_obj [(''dispatched'', JBool True), (''correlation_id'', JString correlation_id)])))"

definition execute_remote_dispatch_with_token ::
  "'w flow_engine \<Rightarrow> flow_ctx \<Rightarrow> string \<Rightarrow> string \<Rightarrow> json \<Rightarrow> bool \<Rightarrow> string option \<Rightarrow> ('w, dispatch_outcome) io" where
  "execute_remote_dispatch_with_token en ctx runtime target payload resume_at_self decision_token =
     (case dispatch_handler_for en runtime of
        None \<Rightarrow> sfail (pre_effect (err_of (runtime @ ''.call node dispatched but no RemoteDispatchHandler configured'')))
      | Some handler \<Rightarrow>
          sbind (pure_io (dispatch_nonce en runtime)) (\<lambda>nonce.
          (let req = remote_request en ctx runtime target payload nonce decision_token
           in sbind (handler req) (\<lambda>action. sret (remote_outcome resume_at_self (rd_correlation_id req) action)))))"

definition execute_remote_dispatch ::
  "'w flow_engine \<Rightarrow> flow_ctx \<Rightarrow> string \<Rightarrow> string \<Rightarrow> json \<Rightarrow> bool \<Rightarrow> ('w, dispatch_outcome) io" where
  "execute_remote_dispatch en ctx runtime target payload resume_at_self =
     execute_remote_dispatch_with_token en ctx runtime target payload resume_at_self None"

subsection \<open>Approvals\<close>

definition auto_approved :: dispatch_outcome where
  "auto_approved =
     complete (with_meta
       (json_obj [(''ok'', JBool True), (''output'', json_obj [(''decision'', JString ''approved''), (''auto'', JBool True)]),
                  (''error'', JNull)])
       (json_obj [(''outcome'', JString ''approved'')]))"

definition decided :: "json \<Rightarrow> dispatch_outcome" where
  "decided entry =
     (let response = strip_from_response entry
      in complete (with_meta response (json_obj [(''outcome'', JString (approval_outcome_from_entry response))])))"

definition still_parked :: dispatch_outcome where
  "still_parked =
     (node_output_new (json_obj [(''pending'', JBool True)]), AwaitHere (Some ''awaiting approval decision'') [])"

text \<open>The dispatch of a gate that needs a human: a fresh token, and the park when the runtime will answer.\<close>

definition park_approval :: "string \<Rightarrow> issued_token \<Rightarrow> dispatch_outcome \<Rightarrow> exec_state \<Rightarrow> exec_state" where
  "park_approval node_id issued outcome st =
     (case snd outcome of
        AwaitHere _ correlation_id \<Rightarrow>
          mark_approval_await node_id
            \<lparr>pa_correlation_id = (if correlation_id \<noteq> [] then Some correlation_id else None),
             pa_token_fingerprint = Some (it_fingerprint issued)\<rparr> st
      | _ \<Rightarrow> st)"

definition dispatch_approval ::
  "'w flow_engine \<Rightarrow> flow_ctx \<Rightarrow> string \<Rightarrow> string \<Rightarrow> json \<Rightarrow> ('w, dispatch_outcome) node_m" where
  "dispatch_approval en ctx node_id target payload =
     sbind (in_world (pure_io (en_random en 32))) (\<lambda>bytes.
     (let issued = issue_token (en_b64 en) (en_sha en) bytes
      in sbind (in_world (execute_remote_dispatch_with_token en ctx APPROVAL_RUNTIME target payload True (Some (it_token issued)))) (\<lambda>outcome.
         sbind (modify_state (park_approval node_id issued outcome)) (\<lambda>_. sret outcome))))"

definition execute_approval_call ::
  "'w flow_engine \<Rightarrow> flow_ctx \<Rightarrow> string \<Rightarrow> string \<Rightarrow> json \<Rightarrow> ('w, dispatch_outcome) node_m" where
  "execute_approval_call en ctx node_id target payload =
     sbind (run_state (take_approval_await node_id)) (\<lambda>parked.
     case parked of
       Some parked \<Rightarrow>
         sbind get_state (\<lambda>st.
         if entry_is_approval_response (xs_entry st) \<and> response_authenticates (en_sha en) (xs_entry st) parked
         then sret (decided (xs_entry st))
         else sbind (modify_state (mark_approval_await node_id parked)) (\<lambda>_. sret still_parked))
     | None \<Rightarrow>
         if \<not> approval_requires_human (unwrap_or JNull (json_get ''input'' payload)) then sret auto_approved
         else dispatch_approval en ctx node_id target payload)"


subsection \<open>Agents\<close>

definition MAX_PARK_TURNS :: nat where "MAX_PARK_TURNS = 100"

definition execute_dw_agent ::
  "'w flow_engine \<Rightarrow> flow_ctx \<Rightarrow> string \<Rightarrow> json \<Rightarrow> bool \<Rightarrow> json option \<Rightarrow> ('w, node_output) io" where
  "execute_dw_agent en ctx agent_id payload conversational resume_payload =
     (case en_agent en of
        None \<Rightarrow> sfail (pre_effect (err_of ''DwAgent node dispatched but no AgentNodeHandler configured on FlowEngine''))
      | Some handler \<Rightarrow>
          sbind (smap_err (\<lambda>m. pre_effect (err_of m)) (en_agent_session en (fc_session_id ctx))) (\<lambda>session_id.
          sbind (handler ctx agent_id session_id payload conversational resume_payload) (\<lambda>v.
          (\<lambda>w. (Inr (node_output_new
             (case v of JObject fs \<Rightarrow> JObject (bt_insert ''duration_ms'' (JInt (int (en_elapsed_ms en w))) fs) | _ \<Rightarrow> v)), w)))))"

text \<open>The end of a conversational turn: on to the next node, or park here for the next message.\<close>

definition conversation_turn :: "string \<Rightarrow> string \<Rightarrow> node_output \<Rightarrow> exec_state \<Rightarrow> dispatch_outcome \<times> exec_state" where
  "conversation_turn node_id reason out st =
     (if get_str ''terminated_by'' (no_payload out) = Some ''conversation_ended''
      then (complete out, reset_park_turns node_id st)
      else
        (case bump_park_turns node_id st of
           (turns, st') \<Rightarrow>
             if MAX_PARK_TURNS \<le> turns then (complete out, reset_park_turns node_id st')
             else ((out, LoopHere (Some reason)), st')))"

definition agent_response_turn ::
  "'w flow_engine \<Rightarrow> string \<Rightarrow> string \<Rightarrow> exec_state \<Rightarrow> dispatch_outcome \<times> exec_state" where
  "agent_response_turn en node_id agent_id st =
     (if \<not> unwrap_or False (get_bool ''ok'' (xs_entry st)) then
        ((node_output_new (agent_error_envelope_reply (en_failure_text en) (xs_entry st)),
          LoopHere (Some (''conversational dw.agent `'' @ agent_id @ ''` (nats) awaiting next user message after error response''))), st)
      else
        conversation_turn node_id (''conversational dw.agent `'' @ agent_id @ ''` (nats) awaiting next user message'')
          (node_output_new (unwrap_or JNull (json_get ''output'' (xs_entry st)))) st)"

definition agent_request :: "json \<Rightarrow> json" where
  "agent_request payload = json_obj [(''await'', JBool True), (''input'', payload)]"

definition dispatch_agent_nats ::
  "'w flow_engine \<Rightarrow> flow_ctx \<Rightarrow> string \<Rightarrow> string \<Rightarrow> bool \<Rightarrow> json \<Rightarrow> ('w, dispatch_outcome) node_m" where
  "dispatch_agent_nats en ctx node_id agent_id conversational payload =
     (if conversational then
        sbind get_state (\<lambda>st.
        sbind (if json_get ''ok'' (xs_entry st) \<noteq> None then run_state (take_agent_await node_id) else sret False) (\<lambda>awaited.
        if awaited then run_state (agent_response_turn en node_id agent_id)
        else
          sbind (modify_state (mark_agent_await node_id)) (\<lambda>_.
          in_world (execute_remote_dispatch en ctx ''agentic'' agent_id (agent_request payload) True))))
      else in_world (execute_remote_dispatch en ctx ''agentic'' agent_id (agent_request payload) False))"

definition dispatch_agent_in_process ::
  "'w flow_engine \<Rightarrow> flow_ctx \<Rightarrow> string \<Rightarrow> string \<Rightarrow> bool \<Rightarrow> json \<Rightarrow> ('w, dispatch_outcome) node_m" where
  "dispatch_agent_in_process en ctx node_id agent_id conversational payload =
     sbind (run_state (take_tool_await node_id)) (\<lambda>awaited.
     sbind get_state (\<lambda>st.
     (let resume = (if awaited \<and> is_card_submit (xs_entry st) then Some (xs_entry st) else None)
      in sbind (in_world (execute_dw_agent en ctx agent_id payload conversational resume)) (\<lambda>out.
         if awaiting_tool_input (no_payload out) then
           sbind (modify_state (mark_tool_await node_id)) (\<lambda>_.
           sret (out, LoopHere (Some (''dw.agent `'' @ agent_id @ ''` awaiting the user on a flow tool''))))
         else if conversational then
           run_state (conversation_turn node_id (''conversational dw.agent `'' @ agent_id @ ''` awaiting next user message'') out)
         else sret (complete out)))))"

definition execute_dw_agent_graph :: "'w flow_engine \<Rightarrow> flow_ctx \<Rightarrow> string \<Rightarrow> json \<Rightarrow> ('w, node_output) io" where
  "execute_dw_agent_graph en ctx graph_id payload =
     (case en_graph en of
        None \<Rightarrow> sfail (pre_effect (err_of ''DwAgentGraph node dispatched but no GraphNodeHandler configured on FlowEngine''))
      | Some handler \<Rightarrow>
          sbind (handler ctx graph_id (unwrap_or [] (fc_session_id ctx)) payload) (\<lambda>v. sret (node_output_new v)))"

subsection \<open>Calls to other runtimes and tools\<close>

definition sorla_failure :: "string \<Rightarrow> bool \<Rightarrow> (flow_error, dispatch_outcome) result" where
  "sorla_failure m has_error_route =
     (if has_error_route then Inr (complete (errored (json_obj [(''error'', JString m)]))) else Inl (err_of m))"

definition execute_sorla_call ::
  "'w flow_engine \<Rightarrow> flow_ctx \<Rightarrow> string \<Rightarrow> string \<Rightarrow> json \<Rightarrow> bool \<Rightarrow> ('w, dispatch_outcome) io" where
  "execute_sorla_call en ctx node_id target payload has_error_route =
     (\<lambda>w. case (case en_sorla_http en of
              Some http \<Rightarrow> http ctx target payload (''flow:'' @ fc_flow_id ctx @ ''/'' @ node_id) w
            | None \<Rightarrow> (Inr None, w)) of
        (Inr (Some v), w') \<Rightarrow> (Inr (complete (mcp_node_output (en_tx en) (bind_node_result payload v) v has_error_route)), w')
      | (Inr None, w') \<Rightarrow>
          if en_remote en \<noteq> None then execute_remote_dispatch en ctx ''sorla'' target payload False w'
          else
            (sorla_failure (''sorla_route_missing: no route document for SoR `'' @ target @ ''` and no NATS configured'')
               has_error_route, w')
      | (Inl m, w') \<Rightarrow> (sorla_failure m has_error_route, w'))"

definition execute_operala_call :: "'w flow_engine \<Rightarrow> flow_ctx \<Rightarrow> string \<Rightarrow> json \<Rightarrow> ('w, dispatch_outcome) io" where
  "execute_operala_call en ctx target payload =
     (case en_operala en of
        Some handler \<Rightarrow>
          (let raw = unwrap_or [] (get_str ''operation'' payload);
               operation = (if eq_ignore_ascii_case raw ''invoke'' then ''run'' else raw)
           in sbind (handler ctx target operation (unwrap_or [] (fc_session_id ctx)) (unwrap_or JNull (json_get ''input'' payload))) (\<lambda>v.
              sret (complete (node_output_new v))))
      | None \<Rightarrow> execute_remote_dispatch en ctx ''operala'' target payload False)"

definition execute_mcp :: "'w flow_engine \<Rightarrow> flow_ctx \<Rightarrow> string \<Rightarrow> string \<Rightarrow> json \<Rightarrow> bool \<Rightarrow> ('w, node_output) io" where
  "execute_mcp en ctx server_id tool payload has_error_route =
     sbind (pure_io (en_mcp en ctx (unwrap_or server_id (str_field payload ''server'')) (unwrap_or tool (str_field payload ''tool''))
              (unwrap_or (JObject []) (json_get ''arguments'' payload)))) (\<lambda>v.
     sret (mcp_node_output (en_tx en) (bind_node_result payload v) v has_error_route))"

definition call_error_value :: "string \<Rightarrow> string \<Rightarrow> json" where
  "call_error_value agent_id reason =
     json_obj [(''status'', JString ''error''), (''agent'', JString agent_id), (''error'', JString reason)]"

definition a2a_message_missing :: string where
  "a2a_message_missing =
     ''a2a node has no `message` to send (expected a non-empty `message` field in the node's config)''"

definition execute_a2a :: "'w flow_engine \<Rightarrow> flow_ctx \<Rightarrow> string \<Rightarrow> json \<Rightarrow> bool \<Rightarrow> ('w, node_output) io" where
  "execute_a2a en ctx agent_id payload has_error_route =
     (let agent_id = unwrap_or agent_id (str_field payload ''agent'');
          message = or_else (case json_get ''message'' payload of Some m \<Rightarrow> if is_blank m then None else Some m | None \<Rightarrow> None)
              (map_option (\<lambda>_. JString []) (en_a2a_answer en payload))
      in if \<not> en_registered en (fc_pack_id ctx) (fc_flow_id ctx) then sfail (pre_effect (not_registered ctx))
         else
           sbind (case message of
                    None \<Rightarrow> sret (call_error_value agent_id a2a_message_missing)
                  | Some m \<Rightarrow> pure_io (en_a2a en ctx agent_id m payload)) (\<lambda>v.
           sret (a2a_node_output (bind_node_result payload v) v has_error_route)))"

definition execute_media_create :: "'w flow_engine \<Rightarrow> flow_ctx \<Rightarrow> json \<Rightarrow> bool \<Rightarrow> ('w, node_output) io" where
  "execute_media_create en ctx payload has_error_route =
     sbind (pure_io (en_media en ctx payload)) (\<lambda>v.
     sret (media_node_output (bind_node_result payload v) v has_error_route))"

subsection \<open>Jumps and calls of flows\<close>

definition execute_flow_goto :: "json \<Rightarrow> (flow_error, dispatch_outcome) result" where
  "execute_flow_goto payload =
     (let invalid = Inl (invalid_payload ''invalid payload for flow.goto node'')
      in case struct_fields [''flow_id'', ''node'', ''input'', ''max_redirects'', ''reason''] 1 payload of
           None \<Rightarrow> invalid
         | Some fs \<Rightarrow>
             (case (one_field [''flow_id'', ''flow''] fs, opt_string_field [''node''] fs, opt_u32_field ''max_redirects'' fs,
                    opt_string_field [''reason''] fs) of
                (Some (Some (JString flow_id)), Some node, Some max_redirects, Some reason) \<Rightarrow>
                  if str_trim flow_id = [] then Inl (terminal_flow_error ''flow.goto requires a non-empty flow_id'')
                  else
                    (let j = \<lparr>jc_flow = str_trim flow_id, jc_node = trimmed node, jc_payload = value_field ''input'' fs,
                              jc_hints = JNull, jc_max_redirects = max_redirects,
                              jc_reason = or_else reason (Some ''flow.goto node'')\<rparr>
                     in Inr (with_meta (jc_payload j) (jc_hints j), Jump j))
              | _ \<Rightarrow> invalid))"

record flow_snapshot =
  sp_pack_id :: string
  sp_flow_id :: string
  sp_next_flow :: "string option"
  sp_next_node :: string
  sp_awaiting_submit :: bool
  sp_state :: exec_state

datatype flow_status = FlowCompleted | FlowWaiting "string option" flow_snapshot

record flow_execution =
  fx_output :: json
  fx_status :: flow_status
  fx_node_outputs :: "(string \<times> json) list"

definition MAX_FLOW_CALL_DEPTH :: nat where "MAX_FLOW_CALL_DEPTH = 16"

text \<open>
  \<open>flow.call\<close>, with the execution of a nested flow as an argument: \<open>None\<close> when the nesting is at its limit.
\<close>

type_synonym 'w nested_run = "(flow_ctx \<Rightarrow> json \<Rightarrow> ('w, flow_execution) io) option"

definition execute_flow_call :: "'w flow_engine \<Rightarrow> 'w nested_run \<Rightarrow> flow_ctx \<Rightarrow> json \<Rightarrow> ('w, node_output) io" where
  "execute_flow_call en nested ctx payload =
     (let invalid = sfail (invalid_payload ''invalid payload for flow.call node'')
      in case struct_fields [''flow_id'', ''input''] 1 payload of
           None \<Rightarrow> invalid
         | Some fs \<Rightarrow>
             (case one_field [''flow_id'', ''flow''] fs of
                Some (Some (JString flow_id)) \<Rightarrow>
                  if str_trim flow_id = [] then sfail (terminal_flow_error ''flow.call requires a non-empty flow_id'')
                  else
                    (case nested of
                       None \<Rightarrow>
                         sfail (terminal_flow_error
                           (''flow.call nesting exceeds '' @ show_nat MAX_FLOW_CALL_DEPTH @ '' levels (calling '' @ flow_id @ '')''))
                     | Some run \<Rightarrow>
                         sbind (smap_err (Context (''flow.call failed for '' @ flow_id))
                                  (run (ctx\<lparr>fc_flow_id := flow_id, fc_max_attempts := 1\<rparr>) (value_field ''input'' fs))) (\<lambda>x.
                         case fx_status x of
                           FlowCompleted \<Rightarrow> sret (node_output_new (fx_output x))
                         | FlowWaiting reason _ \<Rightarrow>
                             sfail (terminal_flow_error
                               (''flow.call cannot pause (flow '' @ flow_id @ '' waiting '' @ tx_debug (en_tx en) reason @ '')''))))
              | _ \<Rightarrow> invalid))"

subsection \<open>The dispatch\<close>

definition set_var :: "'w flow_engine \<Rightarrow> string \<Rightarrow> json \<Rightarrow> ('w, dispatch_outcome) node_m" where
  "set_var en name v =
     (let done = sret (complete (node_output_new (json_obj [(''ok'', JBool True)])))
      in if str_trim name = [] then done
         else
           sbind get_state (\<lambda>st.
           sbind get_world (\<lambda>w.
           sbind (sres (map_err (Context ''failed to render var_set value'')
                    (en_render en True v (template_context (en_tx en) (en_now en w) st (unwrap_or JNull (xs_last_output st)))))) (\<lambda>x.
           sbind (modify_state (\<lambda>st. st\<lparr>xs_vars := bt_insert name x (xs_vars st)\<rparr>)) (\<lambda>_. done)))))"

definition then_complete :: "('w, node_output) io \<Rightarrow> ('w, dispatch_outcome) node_m" where
  "then_complete m = in_world (sbind m (\<lambda>out. sret (complete out)))"

definition dispatch_node ::
  "'w flow_engine \<Rightarrow> 'w nested_run \<Rightarrow> flow_ctx \<Rightarrow> string \<Rightarrow> host_node \<Rightarrow> json \<Rightarrow> ('w, dispatch_outcome) node_m" where
  "dispatch_node en nested ctx node_id node raw_payload =
     sbind get_state (\<lambda>st.
     (let payload = inject_card_route (inject_card_locale raw_payload (xs_entry st)) (xs_entry st) node;
          has_error_route = node_has_error_route (hn_routing node)
      in case hn_kind node of
           Exec target \<Rightarrow>
             in_world (sbind (execute_component_exec en ctx node_id node payload target) (\<lambda>out. sres (component_dispatch_outcome out)))
         | PackComponent component_ref \<Rightarrow>
             in_world (sbind (execute_component_call en ctx node_id node payload component_ref) (\<lambda>out. sres (component_dispatch_outcome out)))
         | FlowCall \<Rightarrow> then_complete (execute_flow_call en nested ctx payload)
         | FlowGoto \<Rightarrow> sres (execute_flow_goto payload)
         | ProviderInvoke \<Rightarrow> then_complete (execute_provider_invoke en ctx node_id st payload)
         | BuiltinEmit _ \<Rightarrow> sbind (modify_state (push_egress payload)) (\<lambda>_. sret (complete (node_output_new payload)))
         | BuiltinStateGet \<Rightarrow> then_complete (execute_state_get en ctx payload)
         | BuiltinStateSet \<Rightarrow> then_complete (execute_state_set en ctx payload)
         | VarSet name v \<Rightarrow> set_var en name v
         | NodeWait \<Rightarrow> sret (node_output_new payload, Wait (extract_wait_reason payload))
         | DwAgent agent_id conversational \<Rightarrow>
             if en_nats en then dispatch_agent_nats en ctx node_id agent_id conversational payload
             else dispatch_agent_in_process en ctx node_id agent_id conversational payload
         | DwAgentGraph graph_id \<Rightarrow> then_complete (execute_dw_agent_graph en ctx graph_id payload)
         | SorlaCall target \<Rightarrow> in_world (execute_sorla_call en ctx node_id target payload has_error_route)
         | OperalaCall target \<Rightarrow> in_world (execute_operala_call en ctx target payload)
         | AgenticCall target \<Rightarrow> in_world (execute_remote_dispatch en ctx ''agentic'' target payload False)
         | TelcoXCall target \<Rightarrow> in_world (execute_remote_dispatch en ctx ''telco-x'' target payload False)
         | ApprovalCall target \<Rightarrow> execute_approval_call en ctx node_id target payload
         | Mcp server_id tool \<Rightarrow> then_complete (execute_mcp en ctx server_id tool payload has_error_route)
         | A2a agent_id \<Rightarrow> then_complete (execute_a2a en ctx agent_id payload has_error_route)
         | MediaCreate \<Rightarrow> then_complete (execute_media_create en ctx payload has_error_route)))"

end
