(* ===== verification/Engine_Drive.thy ===== *)
theory Engine_Drive
  imports Engine_Dispatch
begin

section \<open>Driving a flow\<close>

text \<open>
  \<open>FlowEngine\<close> of \<open>crates/greentic-runner-host/src/runner/engine.rs\<close>: the walk over the nodes of a flow in one turn,
  the parks it leaves behind, the retries of a turn, the resume of a parked one, and the nesting of
  \<open>flow.call\<close>. The walk counts its steps as the source does, and a nested call gets one level less than its
  caller, so every function here is total. A flow is loaded anew each time: the cache in front of
  \<open>load_flow\<close> is left out. The delay between attempts only passes time.
\<close>

type_synonym flow_failure = "flow_error \<times> (string \<times> json) list"

definition get_or_load_flow :: "'w flow_engine \<Rightarrow> string \<Rightarrow> string \<Rightarrow> ('w, host_flow) io" where
  "get_or_load_flow en pack_id flow_id =
     (if \<not> en_registered en pack_id flow_id
      then sfail (terminal_flow_error (''flow '' @ pack_id @ '':'' @ flow_id @ '' not registered''))
      else en_load en pack_id flow_id)"

definition start_node :: "host_flow \<Rightarrow> string option" where
  "start_node flow = or_else (hf_start flow) (case hf_nodes flow of (i, _) # _ \<Rightarrow> Some i | [] \<Rightarrow> None)"

definition node_id_from_str :: "'w flow_engine \<Rightarrow> string \<Rightarrow> (flow_error, string) result" where
  "node_id_from_str en i = (if tx_node_id (en_tx en) i then Inr i else Inl (err_of []))"

subsection \<open>After a node ran\<close>

text \<open>The outputs of the run, as they are handed to observers.\<close>

abbreviation run_outputs :: "'w flow_engine \<Rightarrow> exec_state \<Rightarrow> (string \<times> json) list" where
  "run_outputs en st \<equiv> outputs_map (tx_view (en_tx en)) st"

fun bind_vars ::
  "'w flow_engine \<Rightarrow> json \<Rightarrow> (string \<times> json) list \<Rightarrow> (string \<times> json) list \<Rightarrow> (flow_error, (string \<times> json) list) result" where
  "bind_vars en ctx [] vars = Inr vars"
| "bind_vars en ctx ((name, template) # bs) vars =
     rbind (map_err (Context (''failed to render vars_out binding `'' @ name @ ''`'')) (en_render en True template ctx)) (\<lambda>v.
     bind_vars en ctx bs (bt_insert name v vars))"

text \<open>Record the output of a node; whether it owned the submit of a card, and the output as it is recorded.\<close>

definition finish_node ::
  "'w flow_engine \<Rightarrow> string \<Rightarrow> host_node \<Rightarrow> node_output \<Rightarrow> 'w \<Rightarrow> exec_state \<Rightarrow> (flow_error, bool \<times> node_output \<times> exec_state) result" where
  "finish_node en node_id node out w st =
     (let (owned, out1, st1) = attach_pending_card_answers node_id node out st;
          st2 = note_created_artifacts (no_created out1) st1;
          out2 = out1\<lparr>no_created := []\<rparr>;
          st3 = (record_node_output node_id out2 st2)\<lparr>xs_last_output := Some (no_payload out2)\<rparr>
      in case hn_vars_out node of
           None \<Rightarrow> Inr (owned, out2, st3)
         | Some bindings \<Rightarrow>
             rbind (bind_vars en (template_context (en_tx en) (en_now en w) st3 (no_payload out2)) bindings (xs_vars st3)) (\<lambda>vars.
             Inr (owned, out2, st3\<lparr>xs_vars := vars\<rparr>)))"

subsection \<open>Parks\<close>

text \<open>The snapshot at a node: \<open>flow_id\<close> is the flow of the context, \<open>next_flow\<close> is set when the walk is in another.\<close>

definition snapshot_at :: "flow_ctx \<Rightarrow> string \<Rightarrow> string \<Rightarrow> bool \<Rightarrow> exec_state \<Rightarrow> flow_snapshot" where
  "snapshot_at ctx current_flow_id next_node awaiting_submit st =
     \<lparr>sp_pack_id = fc_pack_id ctx, sp_flow_id = fc_flow_id ctx,
      sp_next_flow = (if current_flow_id \<noteq> fc_flow_id ctx then Some current_flow_id else None),
      sp_next_node = next_node, sp_awaiting_submit = awaiting_submit, sp_state = clear_egress st\<rparr>"

definition waiting ::
  "'w flow_engine \<Rightarrow> flow_ctx \<Rightarrow> string \<Rightarrow> string \<Rightarrow> bool \<Rightarrow> string option \<Rightarrow> json option \<Rightarrow> exec_state \<Rightarrow> flow_execution" where
  "waiting en ctx current_flow_id next_node awaiting_submit reason final st =
     \<lparr>fx_output = finalize_with final st,
      fx_status = FlowWaiting reason (snapshot_at ctx current_flow_id next_node awaiting_submit st),
      fx_node_outputs = run_outputs en st\<rparr>"

definition completed :: "'w flow_engine \<Rightarrow> host_flow \<Rightarrow> json option \<Rightarrow> exec_state \<Rightarrow> flow_execution" where
  "completed en flow final st =
     \<lparr>fx_output = lift_node_error (finalize_with final st) (first_unhandled_failure (en_tx en) flow st),
      fx_status = FlowCompleted, fx_node_outputs = run_outputs en st\<rparr>"

subsection \<open>Jumps\<close>

definition jump_target_node :: "'w flow_engine \<Rightarrow> host_flow \<Rightarrow> string \<Rightarrow> string option \<Rightarrow> (flow_error, string) result" where
  "jump_target_node en flow target_flow node =
     (case node of
        Some i \<Rightarrow>
          if \<not> tx_node_id (en_tx en) i then Inl (terminal_flow_error (''unknown_node:'' @ i @ '': ''))
          else if map_of (hf_nodes flow) i = None then Inl (terminal_flow_error (''unknown_node:'' @ i))
          else Inr i
      | None \<Rightarrow>
          ok_or (terminal_flow_error (''jump_failed: flow '' @ target_flow @ '' has no start node'')) (start_node flow))"

definition apply_jump ::
  "'w flow_engine \<Rightarrow> flow_ctx \<Rightarrow> jump_control \<Rightarrow> ('w, host_flow \<times> string \<times> string) node_m" where
  "apply_jump en ctx j =
     (let target_flow = str_trim (jc_flow j)
      in if target_flow = [] then sfail (terminal_flow_error ''missing_flow'')
         else
           sbind (in_world (smap_err (Context (''unknown_flow:'' @ target_flow)) (get_or_load_flow en (fc_pack_id ctx) target_flow))) (\<lambda>flow.
           sbind (sres (jump_target_node en flow target_flow (jc_node j))) (\<lambda>target_node.
           sbind get_state (\<lambda>st.
           if unwrap_or 3 (jc_max_redirects j) \<le> xs_redirect_count st then sfail (terminal_flow_error ''redirect_limit'')
           else
             sbind (modify_state (\<lambda>st. (replace_input (jc_payload j) (increment_redirect_count st))\<lparr>xs_last_output := Some (jc_payload j)\<rparr>)) (\<lambda>_.
             sret (flow, target_flow, target_node))))))"

subsection \<open>One node of the walk\<close>

datatype walk_end = Finished flow_execution | GoOn host_flow string string

definition next_decision :: "'w flow_engine \<Rightarrow> host_node \<Rightarrow> string \<Rightarrow> node_output \<Rightarrow> exec_state \<Rightarrow> routing_decision" where
  "next_decision en node node_id out st =
     (case hn_routing node of
        RNext i \<Rightarrow> GoTo i
      | REnd \<Rightarrow> EndRun
      | RReply \<Rightarrow> EndRun
      | RBranch on_status dflt \<Rightarrow> (case routing_branch_target (en_tx en) on_status dflt out of Some i \<Rightarrow> GoTo i | None \<Rightarrow> EndRun)
      | RCustom raw \<Rightarrow> evaluate_custom_routing (en_tx en) raw out st node_id)"

definition continue_walk ::
  "'w flow_engine \<Rightarrow> flow_ctx \<Rightarrow> host_flow \<Rightarrow> string \<Rightarrow> string \<Rightarrow> host_node \<Rightarrow> bool \<Rightarrow> node_output \<Rightarrow> exec_state \<Rightarrow> walk_end \<times> exec_state" where
  "continue_walk en ctx flow current_flow_id node_id node owned out st =
     (let decision = next_decision en node node_id out st;
          st1 = (if owned then st\<lparr>xs_entry := consume_routing_action (xs_entry st)\<rparr> else st);
          st2 = st1\<lparr>xs_resumed_at := None\<rparr>
      in (case decision of
            GoTo i \<Rightarrow> GoOn flow current_flow_id i
          | EndRun \<Rightarrow> Finished (completed en flow (Some (no_payload out)) st2)
          | WaitHere \<Rightarrow>
              Finished (waiting en ctx current_flow_id node_id True (Some (''awaiting user submit at node `'' @ node_id @ ''`''))
                (Some (no_payload out)) st2), st2))"

definition wait_walk ::
  "'w flow_engine \<Rightarrow> flow_ctx \<Rightarrow> string \<Rightarrow> string \<Rightarrow> host_node \<Rightarrow> string option \<Rightarrow> node_output \<Rightarrow> exec_state \<Rightarrow> (flow_error, walk_end) result" where
  "wait_walk en ctx current_flow_id node_id node reason out st =
     (case next_decision en node node_id out st of
        GoTo i \<Rightarrow> Inr (Finished (waiting en ctx current_flow_id i False reason None st))
      | _ \<Rightarrow> Inl (err_of (''session.wait node '' @ node_id @ '' requires a non-empty route'')))"

definition respond_json :: "string option \<Rightarrow> nat list option \<Rightarrow> bool option \<Rightarrow> json" where
  "respond_json text card_cbor needs_user =
     json_obj
       [(''text'', json_opt_str text),
        (''card_cbor'', case card_cbor of Some bytes \<Rightarrow> JArray (map (\<lambda>n. JInt (int n)) bytes) | None \<Rightarrow> JNull),
        (''needs_user'', case needs_user of Some b \<Rightarrow> JBool b | None \<Rightarrow> JNull)]"

text \<open>What the control of a node does to the walk.\<close>

definition apply_control ::
  "'w flow_engine \<Rightarrow> flow_ctx \<Rightarrow> host_flow \<Rightarrow> string \<Rightarrow> string \<Rightarrow> host_node \<Rightarrow> bool \<Rightarrow> node_output \<Rightarrow> node_control \<Rightarrow>
   ('w, walk_end) node_m" where
  "apply_control en ctx flow current_flow_id node_id node owned out control =
     (case control of
        Continue \<Rightarrow> run_state (continue_walk en ctx flow current_flow_id node_id node owned out)
      | Wait reason \<Rightarrow> sbind get_state (\<lambda>st. sres (wait_walk en ctx current_flow_id node_id node reason out st))
      | LoopHere reason \<Rightarrow>
          sbind get_state (\<lambda>st.
          sret (Finished (waiting en ctx current_flow_id node_id False reason (Some (rendered_park (no_payload out))) st)))
      | AwaitHere reason _ \<Rightarrow>
          sbind get_state (\<lambda>st. sret (Finished (waiting en ctx current_flow_id node_id False reason None st)))
      | Jump j \<Rightarrow> sbind (apply_jump en ctx j) (\<lambda>(flow', flow_id', node'). sret (GoOn flow' flow_id' node'))
      | Respond text card_cbor needs_user \<Rightarrow>
          sbind (modify_state (push_egress (respond_json text card_cbor needs_user))) (\<lambda>_.
          sbind get_state (\<lambda>st. sret (Finished (completed en flow None st)))))"

text \<open>The payload of a node: its template rendered, with the slot definitions of the flow.\<close>

definition node_payload :: "'w flow_engine \<Rightarrow> host_flow \<Rightarrow> host_node \<Rightarrow> 'w \<Rightarrow> exec_state \<Rightarrow> (flow_error, json) result" where
  "node_payload en flow node w st =
     rbind (map_err (Context ''failed to render node input template'')
              (en_render en False (hn_payload_expr node)
                 (template_context (en_tx en) (en_now en w) st (unwrap_or (JObject []) (xs_last_output st))))) (\<lambda>payload.
     Inr (inject_slots flow node payload))"

text \<open>
  One iteration of \<open>drive_flow_tracked\<close> after its step budget: the result, and whether the node counts as
  having performed an external effect.
\<close>

definition node_turn ::
  "'w flow_engine \<Rightarrow> 'w nested_run \<Rightarrow> flow_ctx \<Rightarrow> host_flow \<Rightarrow> string \<Rightarrow> string \<Rightarrow> exec_state \<times> 'w \<Rightarrow>
   (flow_failure + walk_end) \<times> bool \<times> exec_state \<times> 'w" where
  "node_turn en nested ctx flow current_flow_id current s =
     (let step_ctx = ctx\<lparr>fc_flow_id := current_flow_id\<rparr>; early = (\<lambda>e. (Inl (e, []), False, s))
      in case map_of (hf_nodes flow) current of
           None \<Rightarrow> early (err_of (''node '' @ current @ '' not found''))
         | Some node \<Rightarrow>
             (case node_payload en flow node (snd s) (fst s) of
                Inl e \<Rightarrow> early e
              | Inr payload \<Rightarrow>
                  (case dispatch_node en nested step_ctx current node payload s of
                     (Inl e, st, w) \<Rightarrow>
                       (Inl (e, run_outputs en st), may_have_partial_effect_on_failure (hn_kind node) \<and> \<not> is_pre_effect_error e, st, w)
                   | (Inr (out, control), st, w) \<Rightarrow>
                       (let effect = performs_external_effect (hn_kind node)
                        in case finish_node en current node out w st of
                             Inl e \<Rightarrow> (Inl (e, []), effect, st, w)
                           | Inr (owned, out', st') \<Rightarrow>
                               (case apply_control en step_ctx flow current_flow_id current node owned out' control (st', w) of
                                  (Inl e, s') \<Rightarrow> (Inl (e, []), effect, s')
                                | (Inr end, s') \<Rightarrow> (Inr end, effect, s'))))))"

subsection \<open>The walk\<close>

definition MAX_STEPS_PER_TURN :: nat where "MAX_STEPS_PER_TURN = 10000"

definition step_limit_error :: "string \<Rightarrow> flow_error" where
  "step_limit_error flow_id =
     terminal_flow_error (''flow_step_limit_exceeded: flow `'' @ flow_id @ ''` ran more than '' @
       show_nat MAX_STEPS_PER_TURN @ '' nodes in one turn (routing cycle?)'')"

text \<open>\<open>steps_run\<close> nodes have run; \<open>effects\<close> tells whether one of them performed an external effect.\<close>

function drive_walk ::
  "'w flow_engine \<Rightarrow> 'w nested_run \<Rightarrow> flow_ctx \<Rightarrow> nat \<Rightarrow> bool \<Rightarrow> host_flow \<Rightarrow> string \<Rightarrow> string \<Rightarrow> exec_state \<times> 'w \<Rightarrow>
   (flow_failure + flow_execution) \<times> bool \<times> 'w" where
  "drive_walk en nested ctx steps_run effects flow current_flow_id current s =
     (if MAX_STEPS_PER_TURN < Suc steps_run then (Inl (step_limit_error (hf_id flow), []), effects, snd s)
      else
        (case node_turn en nested ctx flow current_flow_id current s of
           (Inl f, effect, s') \<Rightarrow> (Inl f, effects \<or> effect, snd s')
         | (Inr (Finished x), effect, s') \<Rightarrow> (Inr x, effects \<or> effect, snd s')
         | (Inr (GoOn flow' flow_id' node'), effect, s') \<Rightarrow>
             drive_walk en nested ctx (Suc steps_run) (effects \<or> effect) flow' flow_id' node' s'))"
  by pat_completeness auto
termination by (relation "measure (\<lambda>(en, nested, ctx, n, _). Suc MAX_STEPS_PER_TURN - n)") auto

declare drive_walk.simps [simp del]

definition drive_flow_tracked ::
  "'w flow_engine \<Rightarrow> 'w nested_run \<Rightarrow> flow_ctx \<Rightarrow> host_flow \<Rightarrow> exec_state \<Rightarrow> string option \<Rightarrow> string \<Rightarrow> 'w \<Rightarrow>
   (flow_failure + flow_execution) \<times> bool \<times> 'w" where
  "drive_flow_tracked en nested ctx flow st resume_from current_flow_id w =
     (case (case resume_from of
              Some i \<Rightarrow> map_err (Context (''invalid resume node id `'' @ i @ ''`'')) (node_id_from_str en i)
            | None \<Rightarrow> ok_or (terminal_flow_error (''flow '' @ hf_id flow @ '' has no start node'')) (start_node flow)) of
        Inl e \<Rightarrow> (Inl (e, []), False, w)
      | Inr current \<Rightarrow> drive_walk en nested ctx 0 False flow current_flow_id current (st, w))"

definition drive_flow ::
  "'w flow_engine \<Rightarrow> 'w nested_run \<Rightarrow> flow_ctx \<Rightarrow> host_flow \<Rightarrow> exec_state \<Rightarrow> string option \<Rightarrow> string \<Rightarrow>
   'w \<Rightarrow> (flow_failure + flow_execution) \<times> 'w" where
  "drive_flow en nested ctx flow st resume_from current_flow_id w =
     (case drive_flow_tracked en nested ctx flow st resume_from current_flow_id w of
        (Inl (e, outputs), effects, w') \<Rightarrow> (Inl (terminal_after_effects e effects, outputs), w')
      | (Inr x, effects, w') \<Rightarrow> (Inr x, w'))"

subsection \<open>Executing a flow\<close>

definition missing_required :: "host_flow \<Rightarrow> exec_state \<Rightarrow> string list \<times> exec_state" where
  "missing_required flow st =
     (let (missing, vars) = seed_vars_and_collect_missing_required (hf_vars_init flow) (hf_required_vars flow) (xs_vars st)
      in (missing, st\<lparr>xs_vars := vars\<rparr>))"

fun join_comma :: "string list \<Rightarrow> string" where
  "join_comma [] = []"
| "join_comma [x] = x"
| "join_comma (x # y # xs) = x @ '', '' @ join_comma (y # xs)"

definition execute_once ::
  "'w flow_engine \<Rightarrow> 'w nested_run \<Rightarrow> flow_ctx \<Rightarrow> json \<Rightarrow> string option \<Rightarrow> 'w \<Rightarrow> (flow_failure + flow_execution) \<times> 'w" where
  "execute_once en nested ctx input entry_node w =
     (case get_or_load_flow en (fc_pack_id ctx) (fc_flow_id ctx) w of
        (Inl e, w') \<Rightarrow> (Inl (e, []), w')
      | (Inr flow, w') \<Rightarrow>
          (case missing_required flow (exec_state_new input) of
             (missing, st) \<Rightarrow>
               if missing \<noteq> []
               then (Inl (terminal_flow_error (''required flow variable not provided: '' @ join_comma missing), []), w')
               else drive_flow en nested ctx flow st entry_node (fc_flow_id ctx) w'))"

definition surfaced_failure_execution :: "'w flow_engine \<Rightarrow> json \<Rightarrow> string \<Rightarrow> flow_error \<Rightarrow> (string \<times> json) list \<Rightarrow> flow_execution" where
  "surfaced_failure_execution en input flow_id e outputs =
     \<lparr>fx_output = json_obj
        [(''text'', JString (en_failure_text en input)),
         (''metadata'', json_obj
            [(''error_kind'', JString ''flow_execution_failed''), (''error_message'', JString (err_display e)),
             (''flow_id'', JString flow_id)])],
      fx_status = FlowCompleted, fx_node_outputs = outputs\<rparr>"

text \<open>The attempts of a turn; \<open>n\<close> of them were made before.\<close>

function attempts ::
  "'w flow_engine \<Rightarrow> 'w nested_run \<Rightarrow> flow_ctx \<Rightarrow> json \<Rightarrow> string option \<Rightarrow> bool \<Rightarrow> nat \<Rightarrow> ('w, flow_execution) io" where
  "attempts en nested ctx input entry_node surface_failures n w =
     (case execute_once en nested (ctx\<lparr>fc_attempt := Suc n\<rparr>) input entry_node w of
        (Inr x, w') \<Rightarrow> (Inr x, w')
      | (Inl (e, outputs), w') \<Rightarrow>
          if fc_max_attempts ctx \<le> Suc n \<or> \<not> should_retry (tx_lower (en_tx en)) e then
            if surface_failures \<and> fc_session_id ctx \<noteq> None
            then (Inr (surfaced_failure_execution en input (fc_flow_id ctx) e outputs), w')
            else (Inl e, w')
          else attempts en nested ctx input entry_node surface_failures (Suc n) w')"
  by pat_completeness auto
termination by (relation "measure (\<lambda>(_, _, ctx, _, _, _, n, _). fc_max_attempts ctx - n)") auto

declare attempts.simps [simp del]

definition check_entry :: "'w flow_engine \<Rightarrow> flow_ctx \<Rightarrow> string option \<Rightarrow> ('w, unit) io" where
  "check_entry en ctx entry_node =
     (case entry_node of
        None \<Rightarrow> sret ()
      | Some i \<Rightarrow>
          sbind (get_or_load_flow en (fc_pack_id ctx) (fc_flow_id ctx)) (\<lambda>flow.
          sbind (sres (map_err (Context (''invalid entry node id `'' @ i @ ''`'')) (node_id_from_str en i))) (\<lambda>i.
          if map_of (hf_nodes flow) i = None
          then sfail (terminal_flow_error (''flow '' @ fc_flow_id ctx @ '' has no node `'' @ i @ ''`''))
          else sret ())))"

definition execute_with_options ::
  "'w flow_engine \<Rightarrow> 'w nested_run \<Rightarrow> flow_ctx \<Rightarrow> json \<Rightarrow> string option \<Rightarrow> bool \<Rightarrow> ('w, flow_execution) io" where
  "execute_with_options en nested ctx input entry_node surface_failures =
     sbind (check_entry en ctx entry_node) (\<lambda>_. attempts en nested ctx input entry_node surface_failures 0)"

text \<open>
  The execution that \<open>flow.call\<close> makes, by the levels of nesting that are left: \<open>execute_propagating_failure\<close>.
\<close>

primrec nested_flow :: "'w flow_engine \<Rightarrow> nat \<Rightarrow> 'w nested_run" where
  "nested_flow en 0 = None"
| "nested_flow en (Suc d) = Some (\<lambda>ctx input. execute_with_options en (nested_flow en d) ctx input None False)"

abbreviation top_nested :: "'w flow_engine \<Rightarrow> 'w nested_run" where
  "top_nested en \<equiv> nested_flow en MAX_FLOW_CALL_DEPTH"

definition execute :: "'w flow_engine \<Rightarrow> flow_ctx \<Rightarrow> json \<Rightarrow> ('w, flow_execution) io" where
  "execute en ctx input = execute_with_options en (top_nested en) ctx input None True"

definition execute_from :: "'w flow_engine \<Rightarrow> flow_ctx \<Rightarrow> json \<Rightarrow> string \<Rightarrow> ('w, flow_execution) io" where
  "execute_from en ctx input entry_node = execute_with_options en (top_nested en) ctx input (Some entry_node) True"

subsection \<open>Resuming a flow\<close>

definition resumed_card_node :: "flow_snapshot \<Rightarrow> string option" where
  "resumed_card_node sp = (if sp_awaiting_submit sp then Some (sp_next_node sp) else None)"

definition pending_from_snapshot :: "flow_snapshot \<Rightarrow> json \<Rightarrow> pending_answers option" where
  "pending_from_snapshot sp input =
     (if sp_awaiting_submit sp then Some \<lparr>pc_node_id = sp_next_node sp, pc_answers = submitted_fields input\<rparr> else None)"

definition resumed_state :: "flow_snapshot \<Rightarrow> json \<Rightarrow> exec_state" where
  "resumed_state sp input =
     (replace_input input (reset_redirect_count ((sp_state sp)\<lparr>xs_resumed_at := resumed_card_node sp\<rparr>)))
       \<lparr>xs_card_answers := pending_from_snapshot sp input, xs_entry := input\<rparr>"

definition resume_flow_id :: "flow_snapshot \<Rightarrow> string" where
  "resume_flow_id sp = unwrap_or (sp_flow_id sp) (sp_next_flow sp)"

definition resume_with_options ::
  "'w flow_engine \<Rightarrow> flow_ctx \<Rightarrow> flow_snapshot \<Rightarrow> json \<Rightarrow> bool \<Rightarrow> ('w, flow_execution) io" where
  "resume_with_options en ctx sp input surface_after_effects w =
     (if sp_pack_id sp \<noteq> fc_pack_id ctx
      then (Inl (terminal_flow_error (''snapshot pack '' @ sp_pack_id sp @ '' does not match requested '' @ fc_pack_id ctx)), w)
      else
        (case get_or_load_flow en (fc_pack_id ctx) (resume_flow_id sp) w of
           (Inl e, w') \<Rightarrow> (Inl e, w')
         | (Inr flow, w') \<Rightarrow>
             (case drive_flow en (top_nested en) ctx flow (resumed_state sp input) (Some (sp_next_node sp)) (resume_flow_id sp) w' of
                (Inr x, w'') \<Rightarrow> (Inr x, w'')
              | (Inl (e, outputs), w'') \<Rightarrow>
                  if surface_after_effects \<and> fc_session_id ctx \<noteq> None \<and> is_after_effects_failure e
                  then (Inr (surfaced_failure_execution en input (fc_flow_id ctx) e outputs), w'')
                  else (Inl e, w''))))"

definition resume_flow :: "'w flow_engine \<Rightarrow> flow_ctx \<Rightarrow> flow_snapshot \<Rightarrow> json \<Rightarrow> ('w, flow_execution) io" where
  "resume_flow en ctx sp input = resume_with_options en ctx sp input False"

definition resume_surfacing_failures :: "'w flow_engine \<Rightarrow> flow_ctx \<Rightarrow> flow_snapshot \<Rightarrow> json \<Rightarrow> ('w, flow_execution) io" where
  "resume_surfacing_failures en ctx sp input = resume_with_options en ctx sp input True"

end
