(* ===== verification/Engine_Effects.thy ===== *)
theory Engine_Effects
  imports Engine_Drive
begin

section \<open>External effects of a turn\<close>

text \<open>
  Why a retry of a turn repeats no external effect. \<open>eff\<close> reads the effects that the engine tracks off the world,
  \<open>tracked\<close> says what the engine relies on of the code it calls: a failure that is marked as one before any
  effect has left none, and a lookup without a route document has sent nothing. The loading of a flow and
  random bytes leave nothing outside; the calls of components and the writes to the state store may, and a
  retry repeats them, but the source does not count them (\<open>performs_external_effect\<close>: it can not look into
  a component), so \<open>eff\<close> reads the effects other than theirs.
\<close>

named_theorems effect_intros

text \<open>A computation that leaves the effects as they are, and one that does so when it fails before them.\<close>

definition keeps_io :: "('s \<Rightarrow> 'e) \<Rightarrow> ('s, 'x, 'a) st_res \<Rightarrow> bool" where
  "keeps_io eff m \<longleftrightarrow> (\<forall>s. eff (snd (m s)) = eff s)"

definition pre_keeps :: "('s \<Rightarrow> 'e) \<Rightarrow> ('s, flow_error, 'a) st_res \<Rightarrow> bool" where
  "pre_keeps eff m \<longleftrightarrow> (\<forall>s e s'. m s = (Inl e, s') \<longrightarrow> is_pre_effect_error e \<longrightarrow> eff s' = eff s)"

definition unmarked :: "('s, flow_error, 'a) st_res \<Rightarrow> bool" where
  "unmarked m \<longleftrightarrow> (\<forall>s e s'. m s = (Inl e, s') \<longrightarrow> \<not> is_pre_effect_error e)"

definition tracked :: "'w flow_engine \<Rightarrow> ('w \<Rightarrow> 'e) \<Rightarrow> bool" where
  "tracked en eff \<longleftrightarrow>
     (\<forall>p f. keeps_io eff (en_load en p f)) \<and> (\<forall>n w. eff (snd (en_random en n w)) = eff w) \<and>
     (\<forall>c i call. keeps_io eff (en_component en c i call)) \<and>
     (\<forall>store. en_store en = Some store \<longrightarrow> (\<forall>t k. keeps_io eff (ks_get store t k)) \<and> (\<forall>t k v. keeps_io eff (ks_set store t k v))) \<and>
     (\<forall>b t v e. en_render en b t v = Inl e \<longrightarrow> \<not> is_pre_effect_error e) \<and>
     (\<forall>i. keeps_io eff (en_agent_session en i)) \<and>
     (\<forall>c i p q op v. pre_keeps eff (en_provider en c i p q op v)) \<and>
     (\<forall>f. en_cross_pack en = Some f \<longrightarrow> (\<forall>p q op v t. pre_keeps eff (f p q op v t))) \<and>
     (\<forall>f. en_agent en = Some f \<longrightarrow> (\<forall>c a i v b r. pre_keeps eff (f c a i v b r))) \<and>
     (\<forall>f. en_graph en = Some f \<longrightarrow> (\<forall>c g i v. pre_keeps eff (f c g i v))) \<and>
     (\<forall>f. en_operala en = Some f \<longrightarrow> (\<forall>c t op i v. pre_keeps eff (f c t op i v))) \<and>
     (\<forall>f. en_sorla_http en = Some f \<longrightarrow> (\<forall>c t v i w w'. f c t v i w = (Inr None, w') \<longrightarrow> eff w' = eff w)) \<and>
     (\<forall>f. en_remote en = Some f \<longrightarrow> (\<forall>r. pre_keeps eff (f r))) \<and>
     (\<forall>f. en_approval_remote en = Some f \<longrightarrow> (\<forall>r. pre_keeps eff (f r)))"

lemma trackedD:
  assumes "tracked en eff"
  shows "keeps_io eff (en_load en p f)" "eff (snd (en_random en n w)) = eff w" "keeps_io eff (en_component en c i call)"
    "en_store en = Some store \<Longrightarrow> keeps_io eff (ks_get store t k)"
    "en_store en = Some store \<Longrightarrow> keeps_io eff (ks_set store t k v)"
    "en_render en b x y = Inl e \<Longrightarrow> \<not> is_pre_effect_error e"
    "keeps_io eff (en_agent_session en s)"
    "pre_keeps eff (en_provider en c i pid ptype op v)"
    "en_cross_pack en = Some cross \<Longrightarrow> pre_keeps eff (cross q ptype op v t)"
    "en_agent en = Some agent \<Longrightarrow> pre_keeps eff (agent c a i v conv r)"
    "en_graph en = Some graph \<Longrightarrow> pre_keeps eff (graph c a i v)"
    "en_operala en = Some operala \<Longrightarrow> pre_keeps eff (operala c a op i v)"
    "en_sorla_http en = Some http \<Longrightarrow> http c a v i w = (Inr None, w') \<Longrightarrow> eff w' = eff w"
    "en_remote en = Some remote \<Longrightarrow> pre_keeps eff (remote req)"
    "en_approval_remote en = Some approval \<Longrightarrow> pre_keeps eff (approval req)"
  using assms unfolding tracked_def by simp_all

subsection \<open>Composition\<close>

lemma keeps_sret [effect_intros]: "keeps_io eff (sret a)"
  by (simp add: keeps_io_def sret_def)

lemma keeps_sfail [effect_intros]: "keeps_io eff (sfail e)"
  by (simp add: keeps_io_def sfail_def)

lemma keeps_sres [effect_intros]: "keeps_io eff (sres r)"
  by (simp add: keeps_io_def sres_def)

lemma keeps_io_sbind [effect_intros]: "keeps_io eff m \<Longrightarrow> (\<And>a. keeps_io eff (f a)) \<Longrightarrow> keeps_io eff (sbind m f)"
  by (auto simp: keeps_io_def sbind_def split: prod.splits sum.splits) (metis snd_conv)+

lemma keeps_smap_err [effect_intros]: "keeps_io eff m \<Longrightarrow> keeps_io eff (smap_err g m)"
  by (simp add: keeps_io_def smap_err_def split_beta)

lemma keeps_pure_io [effect_intros]: "(\<And>w. eff (snd (f w)) = eff w) \<Longrightarrow> keeps_io eff (pure_io f)"
  by (simp add: keeps_io_def pure_io_def split_beta)

lemma keeps_io_world [effect_intros]: "keeps_io eff m \<Longrightarrow> keeps_io (eff \<circ> snd) (in_world m)"
  by (simp add: keeps_io_def in_world_def split_beta)

lemma keeps_state [effect_intros]:
  "keeps_io (eff \<circ> snd) get_state" "keeps_io (eff \<circ> snd) get_world" "keeps_io (eff \<circ> snd) (modify_state g)"
  "keeps_io (eff \<circ> snd) (run_state h)"
  by (simp_all add: keeps_io_def get_state_def get_world_def modify_state_def run_state_def split_beta)

lemma pre_keeps_keeps: "keeps_io eff m \<Longrightarrow> pre_keeps eff m"
  unfolding keeps_io_def pre_keeps_def by (metis snd_conv)

lemma pre_keeps_unmarked: "unmarked m \<Longrightarrow> pre_keeps eff m"
  by (auto simp: unmarked_def pre_keeps_def)

lemma pre_keeps_sbind: "keeps_io eff m \<Longrightarrow> (\<And>a. pre_keeps eff (f a)) \<Longrightarrow> pre_keeps eff (sbind m f)"
  by (auto simp: keeps_io_def pre_keeps_def sbind_def split: prod.splits sum.splits) (metis snd_conv)+

lemma pre_keeps_then: "pre_keeps eff m \<Longrightarrow> (\<And>a. unmarked (f a)) \<Longrightarrow> pre_keeps eff (sbind m f)"
  by (auto simp: unmarked_def pre_keeps_def sbind_def split: prod.splits sum.splits) metis

lemma pre_keeps_on_world: "pre_keeps eff m \<Longrightarrow> pre_keeps (eff \<circ> snd) (in_world m)"
  by (auto simp: pre_keeps_def in_world_def split: prod.splits)

lemma unmarked_sret [effect_intros]: "unmarked (sret a)"
  by (simp add: unmarked_def sret_def)

lemma unmarked_Pair [effect_intros]: "unmarked (Pair (Inr a))"
  by (simp add: unmarked_def)

lemma unmarked_sres: "(\<And>e. r = Inl e \<Longrightarrow> \<not> is_pre_effect_error e) \<Longrightarrow> unmarked (sres r)"
  by (simp add: unmarked_def sres_def)

lemma unmarked_sbind [effect_intros]: "unmarked m \<Longrightarrow> (\<And>a. unmarked (f a)) \<Longrightarrow> unmarked (sbind m f)"
  by (auto simp: unmarked_def sbind_def split: prod.splits sum.splits)

lemma unmarked_state [effect_intros]: "unmarked get_state" "unmarked (modify_state g)" "unmarked (run_state h)"
  by (simp_all add: unmarked_def get_state_def modify_state_def run_state_def split: prod.splits)

lemma unmarked_pure_io [effect_intros]: "unmarked (pure_io f)"
  by (simp add: unmarked_def pure_io_def split: prod.splits)

lemma unmarked_on_world [effect_intros]: "unmarked m \<Longrightarrow> unmarked (in_world m)"
  by (auto simp: unmarked_def in_world_def split: prod.splits)

lemma err_of_unmarked [simp]: "\<not> is_pre_effect_error (err_of m)" "\<not> is_pre_effect_error (terminal_flow_error m)"
  by (simp_all add: is_pre_effect_error_def err_of_def terminal_flow_error_def)

lemmas pre_keeps_rules = pre_keeps_sbind pre_keeps_then pre_keeps_on_world

subsection \<open>Operations that keep the effects\<close>

lemma keeps_component: "tracked en eff \<Longrightarrow> keeps_io eff (invoke_component_call en ctx i call)"
  by (auto simp: invoke_component_call_def Let_def intro!: effect_intros trackedD(3))

lemma keeps_component_exec: "tracked en eff \<Longrightarrow> keeps_io eff (execute_component_exec en ctx i node payload target)"
  by (auto simp: execute_component_exec_def split: option.splits intro!: effect_intros keeps_component)

lemma keeps_component_call: "tracked en eff \<Longrightarrow> keeps_io eff (execute_component_call en ctx i node payload target)"
  by (auto simp: execute_component_call_def intro!: effect_intros keeps_component)

lemma state_store_for_Inr: "state_store_for en ctx = Inr store \<Longrightarrow> en_store en = Some store"
  by (auto simp: state_store_for_def ok_or_def rbind_def split: if_splits option.splits sum.splits)

lemma keeps_with_store:
  assumes "\<And>store. en_store en = Some store \<Longrightarrow> keeps_io eff (f store)"
  shows "keeps_io eff (sbind (sres (state_store_for en ctx)) f)"
  using assms state_store_for_Inr [of en ctx]
  by (cases "state_store_for en ctx") (auto simp: keeps_io_def sbind_def sres_def)

lemma keeps_state_get: "tracked en eff \<Longrightarrow> keeps_io eff (execute_state_get en ctx payload)"
  unfolding execute_state_get_def
  by (intro keeps_io_sbind keeps_sres keeps_with_store keeps_smap_err trackedD(4) keeps_sret)

lemma keeps_state_set: "tracked en eff \<Longrightarrow> keeps_io eff (execute_state_set en ctx payload)"
  unfolding execute_state_set_def Let_def
  by (intro keeps_io_sbind keeps_sres keeps_with_store keeps_smap_err trackedD(5) keeps_sret)

lemma keeps_set_var: "keeps_io (eff \<circ> snd) (set_var en name v)"
  by (auto simp: set_var_def Let_def intro!: effect_intros)

lemma keeps_then_complete: "keeps_io eff m \<Longrightarrow> keeps_io (eff \<circ> snd) (then_complete m)"
  by (simp add: then_complete_def effect_intros)

lemma keeps_get_or_load: "tracked en eff \<Longrightarrow> keeps_io eff (get_or_load_flow en p f)"
  by (simp add: get_or_load_flow_def effect_intros trackedD(1))

text \<open>A node whose kind performs no external effect leaves them as they are.\<close>

lemma keeps_dispatch:
  assumes "tracked en eff" "\<not> performs_external_effect (hn_kind node)"
  shows "keeps_io (eff \<circ> snd) (dispatch_node en nested ctx i node payload)"
  unfolding dispatch_node_def Let_def
  by (rule keeps_io_sbind [OF keeps_state(1)])
    (use assms in \<open>auto split: host_node_kind.splits intro!: effect_intros keeps_then_complete keeps_component_exec
      keeps_component_call keeps_state_get keeps_state_set keeps_set_var\<close>)

subsection \<open>Operations that fail before their effects\<close>

lemma pre_keeps_remote: "tracked en eff \<Longrightarrow> pre_keeps eff (execute_remote_dispatch_with_token en ctx runtime target payload b token)"
proof -
  assume tr: "tracked en eff"
  have nonce: "keeps_io eff (pure_io (dispatch_nonce en runtime))"
    using trackedD(2) [OF tr] by (intro keeps_pure_io) (simp add: dispatch_nonce_def split_beta)
  have "pre_keeps eff (handler req)" if "dispatch_handler_for en runtime = Some handler" for handler req
    using that trackedD(14,15) [OF tr]
    by (cases "en_approval_remote en") (auto simp: dispatch_handler_for_def split: if_splits)
  then show ?thesis
    unfolding execute_remote_dispatch_with_token_def Let_def
    by (auto split: option.splits intro!: pre_keeps_sbind [OF nonce] unmarked_sret pre_keeps_keeps [OF keeps_sfail]
        intro: pre_keeps_then)
qed

lemma pre_keeps_remote_plain: "tracked en eff \<Longrightarrow> pre_keeps eff (execute_remote_dispatch en ctx runtime target payload b)"
  by (simp add: execute_remote_dispatch_def pre_keeps_remote)

lemma provider_input_marks: "keeps_io eff (sres (map_err pre_effect (provider_input en base input in_map)))"
  by (rule keeps_sres)

lemma pre_keeps_provider_call: "tracked en eff \<Longrightarrow> pre_keeps eff (provider_call en ctx i base pid ptype op input out_map)"
  unfolding provider_call_def
  by (rule pre_keeps_then [OF trackedD(8)])
    (auto intro!: unmarked_sret unmarked_sres dest!: trackedD(6) [rotated]
      simp: rbind_def map_err_def split: sum.splits)

lemma pre_keeps_cross:
  assumes "tracked en eff"
  shows "pre_keeps eff (sbind (try_invoke_cross_pack_resolver en pid ptype op input t) (\<lambda>r.
    case r of Some out \<Rightarrow> sret out | None \<Rightarrow> sfail (pre_effect e)))"
proof (cases "en_cross_pack en")
  case None
  then show ?thesis
    by (auto simp: try_invoke_cross_pack_resolver_def pre_keeps_def sbind_def sret_def sfail_def)
next
  case (Some f)
  with trackedD(9) [OF assms Some] show ?thesis
    by (auto simp: try_invoke_cross_pack_resolver_def pre_keeps_def sbind_def sret_def split: prod.splits sum.splits)
qed


lemma pre_keeps_provider_dispatch:
  assumes "tracked en eff"
  shows "pre_keeps eff (provider_dispatch en ctx i base pid ptype op input out_map)"
  unfolding provider_dispatch_def
  by (auto simp del: not_None_eq split: option.split if_split intro!: pre_keeps_keeps [OF keeps_sfail]
      pre_keeps_provider_call [OF assms] pre_keeps_cross [OF assms])

lemma pre_keeps_provider:
  assumes "tracked en eff"
  shows "pre_keeps eff (execute_provider_invoke en ctx i st payload)"
proof -
  have run: "pre_keeps eff (\<lambda>w. sbind (sres (r w)) (f w) w)" if "\<And>w a. pre_keeps eff (f w a)"
    for r :: "'a \<Rightarrow> (flow_error, json) result" and f :: "'a \<Rightarrow> json \<Rightarrow> ('a, node_output) io"
    using that by (auto simp: pre_keeps_def sbind_def sres_def split: sum.splits)
  note fail = pre_keeps_keeps [OF keeps_sfail]
  show ?thesis
    unfolding execute_provider_invoke_def Let_def
    by (simp add: run fail pre_keeps_provider_dispatch [OF assms] split: option.split if_split)
qed

lemma pre_keeps_then_complete: "pre_keeps eff m \<Longrightarrow> pre_keeps (eff \<circ> snd) (then_complete m)"
  by (simp add: then_complete_def pre_keeps_on_world pre_keeps_then unmarked_sret)

lemma pre_keeps_agent:
  assumes tr: "tracked en eff"
  shows "pre_keeps eff (execute_dw_agent en ctx a payload conv r)"
proof (cases "en_agent en")
  case None
  then show ?thesis by (simp add: execute_dw_agent_def pre_keeps_keeps [OF keeps_sfail])
next
  case (Some handler)
  have last: "unmarked (\<lambda>w. (Inr (g w), w))" for g :: "'a \<Rightarrow> node_output"
    by (simp add: unmarked_def)
  show ?thesis
    unfolding execute_dw_agent_def Some option.case
    by (rule pre_keeps_sbind [OF keeps_smap_err [OF trackedD(7) [OF tr]]],
        rule pre_keeps_then [OF trackedD(10) [OF tr Some]], rule last)
qed

lemma pre_keeps_graph: "tracked en eff \<Longrightarrow> pre_keeps eff (execute_dw_agent_graph en ctx g payload)"
  unfolding execute_dw_agent_graph_def
  by (auto split: option.splits intro!: pre_keeps_keeps [OF keeps_sfail] pre_keeps_then unmarked_sret trackedD(11))

lemma pre_keeps_operala: "tracked en eff \<Longrightarrow> pre_keeps eff (execute_operala_call en ctx target payload)"
  unfolding execute_operala_call_def Let_def
  by (auto split: option.splits intro!: pre_keeps_then unmarked_sret trackedD(12) pre_keeps_remote_plain)

lemma sorla_failure_unmarked: "sorla_failure m b = Inl e \<Longrightarrow> \<not> is_pre_effect_error e"
  by (auto simp: sorla_failure_def split: if_splits)

lemma pre_keeps_sorla:
  assumes tr: "tracked en eff"
  shows "pre_keeps eff (execute_sorla_call en ctx i target payload b)"
  unfolding pre_keeps_def
proof (intro allI impI)
  fix w e w'
  assume run: "execute_sorla_call en ctx i target payload b w = (Inl e, w')" and e: "is_pre_effect_error e"
  define route where "route = (case en_sorla_http en of
      Some http \<Rightarrow> http ctx target payload (''flow:'' @ fc_flow_id ctx @ ''/'' @ i) w | None \<Rightarrow> (Inr None, w))"
  obtain r v where rv: "route = (r, v)" by (cases route)
  have lookup: "eff v = eff w" if "r = Inr None"
    using that rv trackedD(13) [OF tr] by (auto simp: route_def split: option.splits)
  have "execute_remote_dispatch en ctx ''sorla'' target payload False v = (Inl e, w')" "r = Inr None"
    using run rv e sorla_failure_unmarked
    by (auto simp: execute_sorla_call_def simp flip: route_def split: sum.splits option.splits if_splits)
  with pre_keeps_remote_plain [OF tr, of ctx "''sorla''" target payload False] e lookup show "eff w' = eff w"
    by (auto simp: pre_keeps_def)
qed

lemma pre_keeps_approval: "tracked en eff \<Longrightarrow> pre_keeps (eff \<circ> snd) (execute_approval_call en ctx i target payload)"
proof -
  assume tr: "tracked en eff"
  have random: "keeps_io eff (pure_io (en_random en n))" for n
    using trackedD(2) [OF tr] by (intro keeps_pure_io)
  have dispatch: "pre_keeps (eff \<circ> snd) (dispatch_approval en ctx i target payload)"
    unfolding dispatch_approval_def Let_def
    by (intro pre_keeps_sbind keeps_io_world random pre_keeps_then pre_keeps_on_world pre_keeps_remote [OF tr]
        unmarked_sbind unmarked_state unmarked_sret)
  show ?thesis
    unfolding execute_approval_call_def
    by (rule pre_keeps_sbind [OF keeps_state(4)])
      (auto split: option.splits intro!: dispatch pre_keeps_unmarked unmarked_sbind unmarked_state unmarked_sret)
qed

lemma pre_keeps_agent_nats: "tracked en eff \<Longrightarrow> pre_keeps (eff \<circ> snd) (dispatch_agent_nats en ctx i a conv payload)"
  unfolding dispatch_agent_nats_def
  by (auto intro!: pre_keeps_sbind keeps_state pre_keeps_on_world pre_keeps_remote_plain keeps_sret
      intro: pre_keeps_keeps [OF keeps_state(4)])

lemma pre_keeps_agent_in_process:
  "tracked en eff \<Longrightarrow> pre_keeps (eff \<circ> snd) (dispatch_agent_in_process en ctx i a conv payload)"
  unfolding dispatch_agent_in_process_def Let_def
  by (intro pre_keeps_sbind keeps_state pre_keeps_then pre_keeps_on_world pre_keeps_agent)
    (auto intro!: unmarked_sbind unmarked_state unmarked_sret)

lemma unmarked_tools:
  "unmarked (execute_mcp en ctx srv tool payload b)" "unmarked (execute_media_create en ctx payload b)"
  by (simp_all add: execute_mcp_def execute_media_create_def effect_intros)

lemma pre_keeps_a2a: "pre_keeps eff (execute_a2a en ctx a payload b)"
  unfolding execute_a2a_def Let_def
  by (auto split: option.splits intro!: pre_keeps_keeps [OF keeps_sfail] pre_keeps_unmarked effect_intros)

lemma pre_keeps_dispatch:
  assumes tr: "tracked en eff" and kind: "hn_kind node \<noteq> FlowCall"
  shows "pre_keeps (eff \<circ> snd) (dispatch_node en nested ctx i node payload)"
proof (cases "performs_external_effect (hn_kind node)")
  case False
  then show ?thesis by (intro pre_keeps_keeps keeps_dispatch [OF tr])
next
  case True
  show ?thesis
    unfolding dispatch_node_def Let_def
    by (rule pre_keeps_sbind [OF keeps_state(1)])
      (use True kind tr in \<open>auto split: host_node_kind.splits intro!: pre_keeps_then_complete pre_keeps_on_world
        pre_keeps_provider pre_keeps_agent_nats pre_keeps_agent_in_process pre_keeps_graph pre_keeps_sorla
        pre_keeps_operala pre_keeps_remote_plain pre_keeps_approval pre_keeps_a2a pre_keeps_unmarked [OF unmarked_tools(1)]
        pre_keeps_unmarked [OF unmarked_tools(2)]\<close>)
qed


subsection \<open>Nested flows\<close>

text \<open>A nested run that fails is terminal, or has left the effects as they were.\<close>

definition nested_ok :: "('w \<Rightarrow> 'e) \<Rightarrow> 'w nested_run \<Rightarrow> bool" where
  "nested_ok eff nested \<longleftrightarrow>
     (\<forall>run ctx input w e w'. nested = Some run \<longrightarrow> run ctx input w = (Inl e, w') \<longrightarrow>
        is_terminal_flow_error e \<or> eff w' = eff w)"

lemma is_terminal_of_terminal [simp]: "is_terminal_flow_error (terminal_flow_error m)"
  by (simp add: terminal_flow_error_def is_terminal_Terminal)

lemma flow_call_effects:
  assumes "nested_ok eff nested" "execute_flow_call en nested ctx payload w = (Inl e, w')"
  shows "is_terminal_flow_error e \<or> eff w' = eff w"
proof -
  have run: "is_terminal_flow_error e \<or> eff w' = eff w"
    if "nested = Some run" "sbind (smap_err (Context m) (run c input)) (\<lambda>x. case fx_status x of
        FlowCompleted \<Rightarrow> sret (node_output_new (fx_output x)) | FlowWaiting reason _ \<Rightarrow> sfail (terminal_flow_error (t reason))) w = (Inl e, w')"
    for run m c input t
    using that assms(1)
    by (auto simp: nested_ok_def sbind_def smap_err_def sret_def sfail_def map_err_def
        split: prod.splits sum.splits flow_status.splits) blast
  from assms(2) show ?thesis
    unfolding execute_flow_call_def Let_def
    by (auto simp: sfail_def dest: run split: option.splits json.splits if_splits)
qed

lemma keeps_apply_jump: "tracked en eff \<Longrightarrow> keeps_io (eff \<circ> snd) (apply_jump en ctx j)"
  unfolding apply_jump_def Let_def
  by (auto intro!: effect_intros keeps_get_or_load)

lemma keeps_apply_control: "tracked en eff \<Longrightarrow> keeps_io (eff \<circ> snd) (apply_control en ctx flow fid i node owned out control)"
  unfolding apply_control_def
  by (auto split: node_control.splits prod.splits intro!: effect_intros keeps_apply_jump)

lemma dispatch_failure_no_call:
  assumes tr: "tracked en eff" and kind: "hn_kind node \<noteq> FlowCall"
    and run: "dispatch_node en nested ctx i node payload (st, w) = (Inl e, st', w')"
  shows "may_have_partial_effect_on_failure (hn_kind node) \<and> \<not> is_pre_effect_error e \<or> eff w' = eff w"
proof (cases "performs_external_effect (hn_kind node)")
  case True
  with pre_keeps_dispatch [OF tr kind] run kind show ?thesis
    by (auto simp: may_have_partial_effect_on_failure_def pre_keeps_def)
next
  case pure: False
  from keeps_dispatch [OF tr pure] run show ?thesis unfolding keeps_io_def by (metis comp_apply snd_conv)
qed

lemma dispatch_failure_effects:
  assumes tr: "tracked en eff" and nested: "nested_ok eff nested"
    and run: "dispatch_node en nested ctx i node payload (st, w) = (Inl e, st', w')"
  shows "may_have_partial_effect_on_failure (hn_kind node) \<and> \<not> is_pre_effect_error e \<or>
    is_terminal_flow_error e \<or> eff w' = eff w"
proof (cases "hn_kind node = FlowCall")
  case True
  with run flow_call_effects [OF nested, of en ctx] show ?thesis
    by (auto simp: dispatch_node_def then_complete_def in_world_def get_state_def sbind_def sret_def Let_def
        split: prod.splits sum.splits)
next
  case False
  with dispatch_failure_no_call [OF tr False run] show ?thesis by blast
qed

text \<open>One node of the walk: it counts as an effect, or has left none, or has failed for good.\<close>

definition fails_clean ::
  "'w flow_engine \<Rightarrow> 'w nested_run \<Rightarrow> ('w \<Rightarrow> 'e) \<Rightarrow> (flow_error \<Rightarrow> bool) \<Rightarrow> host_node \<Rightarrow> bool" where
  "fails_clean en nested eff T node \<longleftrightarrow>
     (\<forall>ctx i payload st w e st' w'. dispatch_node en nested ctx i node payload (st, w) = (Inl e, st', w') \<longrightarrow>
        may_have_partial_effect_on_failure (hn_kind node) \<and> \<not> is_pre_effect_error e \<or> T e \<or> eff w' = eff w)"

lemma fails_clean_terminal: "tracked en eff \<Longrightarrow> nested_ok eff nested \<Longrightarrow> fails_clean en nested eff is_terminal_flow_error node"
  unfolding fails_clean_def by (intro allI impI) (rule dispatch_failure_effects)

lemma fails_clean_no_call: "tracked en eff \<Longrightarrow> hn_kind node \<noteq> FlowCall \<Longrightarrow> fails_clean en nested eff (\<lambda>_. False) node"
  unfolding fails_clean_def simp_thms by (intro allI impI) (rule dispatch_failure_no_call)

lemma node_turn_effects:
  assumes tr: "tracked en eff" and clean: "\<And>node. map_of (hf_nodes flow) i = Some node \<Longrightarrow> fails_clean en nested eff T node"
    and run: "node_turn en nested ctx flow fid i (st, w) = (r, effect, st', w')"
  shows "effect \<or> eff w' = eff w \<or> (\<exists>e outs. r = Inl (e, outs) \<and> T e)"
proof -
  define c where "c = ctx\<lparr>fc_flow_id := fid\<rparr>"
  show ?thesis
  proof (cases "map_of (hf_nodes flow) i")
    case None
    with run show ?thesis by (auto simp: node_turn_def)
  next
    case node: (Some node)
    show ?thesis
    proof (cases "node_payload en flow node w st")
      case (Inl e)
      with node run show ?thesis by (auto simp: node_turn_def)
    next
      case payload: (Inr payload)
      obtain d st1 w1 where d: "dispatch_node en nested c i node payload (st, w) = (d, st1, w1)"
        by (metis prod_cases3)
      show ?thesis
      proof (cases d)
        case (Inl e)
        with d clean [OF node] have "may_have_partial_effect_on_failure (hn_kind node) \<and> \<not> is_pre_effect_error e \<or> T e \<or> eff w1 = eff w"
          unfolding fails_clean_def by blast
        with Inl d node payload run show ?thesis by (auto simp: node_turn_def c_def)
      next
        case (Inr oc)
        have pure: "eff w1 = eff w" if "\<not> performs_external_effect (hn_kind node)"
          using keeps_dispatch [OF tr that] d unfolding keeps_io_def by (metis comp_apply snd_conv)
        have control: "eff (snd (snd (apply_control en c flow fid i node owned out x (st2, w1)))) = eff w1" for owned out x st2
          using keeps_apply_control [OF tr, of c flow fid i node owned out x] by (simp add: keeps_io_def)
        show ?thesis
        proof (cases "finish_node en i node (fst oc) w1 st1")
          case (Inl e)
          with Inr d node payload run pure show ?thesis
            by (cases oc) (auto simp: node_turn_def c_def Let_def)
        next
          case fin: (Inr z)
          obtain owned out st2 where z: "z = (owned, out, st2)" by (metis prod_cases3)
          obtain r' st3 w3 where ac: "apply_control en c flow fid i node owned out (snd oc) (st2, w1) = (r', st3, w3)"
            by (metis prod_cases3)
          with control [of owned out "snd oc" st2] have "eff w3 = eff w1" by simp
          with Inr d node payload run pure fin z ac show ?thesis
            by (cases oc; cases r') (auto simp: node_turn_def c_def Let_def)
        qed
      qed
    qed
  qed
qed

subsection \<open>The walk and its attempts\<close>

text \<open>The walk goes on in its flow or in one that was loaded.\<close>

definition loaded :: "'w flow_engine \<Rightarrow> host_flow \<Rightarrow> bool" where
  "loaded en flow \<longleftrightarrow> (\<exists>p f w w'. en_load en p f w = (Inr flow, w'))"

lemma get_or_load_loaded: "get_or_load_flow en p f w = (Inr flow, w') \<Longrightarrow> loaded en flow"
  by (auto simp: get_or_load_flow_def loaded_def sfail_def split: if_splits)

lemma apply_jump_loaded: "apply_jump en ctx j s = (Inr (flow, fid, i), s') \<Longrightarrow> loaded en flow"
  by (auto simp: apply_jump_def sbind_def in_world_def smap_err_def map_err_def sres_def sfail_def sret_def get_state_def
      modify_state_def Let_def dest: get_or_load_loaded split: if_splits prod.splits sum.splits)

lemma node_turn_loaded:
  assumes "node_turn en nested ctx flow fid i s = (Inr (GoOn flow' fid' i'), effect, s')"
  shows "flow' = flow \<or> loaded en flow'"
proof -
  have "flow' = flow \<or> loaded en flow'"
    if "apply_control en c flow fid i node owned out control s1 = (Inr (GoOn flow' fid' i'), s')" for c node owned out control s1
    using that
    by (auto simp: apply_control_def continue_walk_def wait_walk_def run_state_def get_state_def modify_state_def sbind_def sret_def
        sres_def Let_def dest: apply_jump_loaded
        split: node_control.splits routing_decision.splits prod.splits sum.splits)
  with assms show ?thesis
    by (auto simp: node_turn_def Let_def split: option.splits sum.splits prod.splits)
qed

text \<open>The nodes of the flows a walk may come to fail cleanly.\<close>

definition clean_flow :: "'w flow_engine \<Rightarrow> 'w nested_run \<Rightarrow> ('w \<Rightarrow> 'e) \<Rightarrow> (flow_error \<Rightarrow> bool) \<Rightarrow> host_flow \<Rightarrow> bool" where
  "clean_flow en nested eff T flow \<longleftrightarrow> (\<forall>i node. map_of (hf_nodes flow) i = Some node \<longrightarrow> fails_clean en nested eff T node)"

lemma drive_walk_effects:
  assumes tr: "tracked en eff" and loads: "\<And>f. loaded en f \<Longrightarrow> clean_flow en nested eff T f"
    and "clean_flow en nested eff T flow"
    and "drive_walk en nested ctx n effects flow fid i s = (r, effects', w')"
  shows "(effects \<longrightarrow> effects') \<and> (effects' \<or> eff w' = eff (snd s) \<or> (\<exists>e outs. r = Inl (e, outs) \<and> T e))"
  using assms(3,4)
proof (induction "Suc MAX_STEPS_PER_TURN - n" arbitrary: n effects flow fid i s rule: less_induct)
  case less
  show ?case
  proof (cases "MAX_STEPS_PER_TURN < Suc n")
    case True
    with less.prems show ?thesis by (auto simp: drive_walk.simps [of en nested ctx n])
  next
    case False
    obtain r1 effect st1 w1 where turn: "node_turn en nested ctx flow fid i s = (r1, effect, st1, w1)"
      by (metis prod_cases4)
    have eff1: "effect \<or> eff w1 = eff (snd s) \<or> (\<exists>e outs. r1 = Inl (e, outs) \<and> T e)"
      using node_turn_effects [OF tr, of flow i nested T ctx fid "fst s" "snd s" r1 effect st1 w1] turn less.prems(1)
      by (simp add: clean_flow_def)
    show ?thesis
    proof (cases r1)
      case (Inl f)
      with turn False less.prems eff1 show ?thesis
        by (cases f) (auto simp: drive_walk.simps [of en nested ctx n])
    next
      case (Inr x)
      show ?thesis
      proof (cases x)
        case (Finished y)
        with Inr turn False less.prems eff1 show ?thesis by (auto simp: drive_walk.simps [of en nested ctx n])
      next
        case (GoOn flow' fid' i')
        with Inr turn False less.prems
        have "drive_walk en nested ctx (Suc n) (effects \<or> effect) flow' fid' i' (st1, w1) = (r, effects', w')"
          by (simp add: drive_walk.simps [of en nested ctx n])
        moreover have "Suc MAX_STEPS_PER_TURN - Suc n < Suc MAX_STEPS_PER_TURN - n" using False by simp
        moreover have "clean_flow en nested eff T flow'"
          using node_turn_loaded [of en nested ctx flow fid i s flow' fid' i'] turn Inr GoOn loads less.prems(1) by auto
        ultimately show ?thesis using less.hyps [of "Suc n"] eff1 Inr by fastforce
      qed
    qed
  qed
qed

lemma drive_flow_effects_gen:
  assumes tr: "tracked en eff" and loads: "\<And>f. loaded en f \<Longrightarrow> clean_flow en nested eff T f"
    and flow: "clean_flow en nested eff T flow"
    and run: "drive_flow en nested ctx flow st from fid w = (Inl (e, outs), w')"
  shows "is_after_effects_failure e \<or> T e \<or> eff w' = eff w"
proof -
  obtain r effects w1 where tracked: "drive_flow_tracked en nested ctx flow st from fid w = (r, effects, w1)"
    by (metis prod_cases3)
  with run obtain e1 where r: "r = Inl (e1, outs)" "e = terminal_after_effects e1 effects" "w' = w1"
    by (auto simp: drive_flow_def split: sum.splits)
  have "effects \<or> eff w1 = eff w \<or> T e1"
    using tracked r drive_walk_effects [OF tr loads flow, of ctx 0 False fid _ "(st, w)"]
    by (fastforce simp: drive_flow_tracked_def split: sum.splits)
  then show ?thesis
    using r terminal_after_effects_marks [of e1] by (cases effects) auto
qed

lemma drive_flow_effects:
  assumes tr: "tracked en eff" and nested: "nested_ok eff nested"
    and run: "drive_flow en nested ctx flow st from fid w = (Inl (e, outs), w')"
  shows "is_terminal_flow_error e \<or> eff w' = eff w"
proof -
  have "clean_flow en nested eff is_terminal_flow_error f" for f
    using fails_clean_terminal [OF tr nested] by (simp add: clean_flow_def)
  from drive_flow_effects_gen [OF tr this this run] after_effects_terminal show ?thesis by blast
qed

lemma execute_once_effects:
  assumes tr: "tracked en eff" and nested: "nested_ok eff nested"
    and run: "execute_once en nested ctx input entry w = (Inl (e, outs), w')"
  shows "is_terminal_flow_error e \<or> eff w' = eff w"
proof -
  have load: "eff (snd (get_or_load_flow en p f w)) = eff w" for p f
    using keeps_get_or_load [OF tr] by (simp add: keeps_io_def)
  obtain r w1 where l: "get_or_load_flow en (fc_pack_id ctx) (fc_flow_id ctx) w = (r, w1)" by fastforce
  with load [of "fc_pack_id ctx" "fc_flow_id ctx"] have "eff w1 = eff w" by simp
  with l run drive_flow_effects [OF tr nested] show ?thesis
    by (fastforce simp: execute_once_def split: sum.splits if_splits prod.splits)
qed

text \<open>What the caller sees of the last attempt.\<close>

definition attempt_result ::
  "'w flow_engine \<Rightarrow> flow_ctx \<Rightarrow> json \<Rightarrow> bool \<Rightarrow> flow_failure + flow_execution \<Rightarrow> flow_error + flow_execution" where
  "attempt_result en ctx input surface_failures r =
     (case r of
        Inr x \<Rightarrow> Inr x
      | Inl (e, outs) \<Rightarrow>
          if surface_failures \<and> fc_session_id ctx \<noteq> None
          then Inr (surfaced_failure_execution en input (fc_flow_id ctx) e outs) else Inl e)"

lemma attempts_once:
  assumes tr: "tracked en eff" and nested: "nested_ok eff nested"
    and "attempts en nested ctx input entry surface n w = (r, w')"
  shows "\<exists>k w0 r0. n \<le> k \<and> (k = n \<or> k < fc_max_attempts ctx) \<and> eff w0 = eff w \<and>
    execute_once en nested (ctx\<lparr>fc_attempt := Suc k\<rparr>) input entry w0 = (r0, w') \<and> r = attempt_result en ctx input surface r0"
  using assms(3)
proof (induction "fc_max_attempts ctx - n" arbitrary: n w rule: less_induct)
  case less
  obtain r1 w1 where one: "execute_once en nested (ctx\<lparr>fc_attempt := Suc n\<rparr>) input entry w = (r1, w1)" by fastforce
  show ?case
  proof (cases "\<exists>e outs. r1 = Inl (e, outs) \<and> Suc n < fc_max_attempts ctx \<and> should_retry (tx_lower (en_tx en)) e")
    case False
    with one less.prems have "r = attempt_result en ctx input surface r1" "w' = w1"
      by (auto simp: attempts.simps [of en nested ctx input entry surface n w] attempt_result_def not_less
          split: sum.splits prod.splits if_splits)
    with one show ?thesis by blast
  next
    case True
    then obtain e outs where e: "r1 = Inl (e, outs)" "Suc n < fc_max_attempts ctx" "should_retry (tx_lower (en_tx en)) e"
      by blast
    with execute_once_effects [OF tr nested one [unfolded e]] terminal_not_retried have same: "eff w1 = eff w" by blast
    from e one less.prems have "attempts en nested ctx input entry surface (Suc n) w1 = (r, w')"
      by (simp add: attempts.simps [of en nested ctx input entry surface n w])
    from less.hyps [OF _ this] e(2) obtain k w0 r0 where "Suc n \<le> k" "k = Suc n \<or> k < fc_max_attempts ctx"
      and "eff w0 = eff w1" "execute_once en nested (ctx\<lparr>fc_attempt := Suc k\<rparr>) input entry w0 = (r0, w')"
      and "r = attempt_result en ctx input surface r0" by (metis diff_less_mono2 lessI Suc_lessD)
    with e(2) same show ?thesis by (metis Suc_leD)
  qed
qed

lemma nested_flow_ok: "tracked en eff \<Longrightarrow> nested_ok eff (nested_flow en d)"
proof (induction d)
  case 0
  then show ?case by (simp add: nested_ok_def)
next
  case (Suc d)
  have "is_terminal_flow_error e \<or> eff w' = eff w"
    if run: "execute_with_options en (nested_flow en d) ctx input None False w = (Inl e, w')" for ctx input w e w'
  proof -
    have "attempts en (nested_flow en d) ctx input None False 0 w = (Inl e, w')"
      using run by (simp add: execute_with_options_def check_entry_def sbind_def sret_def)
    from attempts_once [OF Suc.prems Suc.IH [OF Suc.prems] this]
    obtain k w0 r0 where "eff w0 = eff w" "execute_once en (nested_flow en d) (ctx\<lparr>fc_attempt := Suc k\<rparr>) input None w0 = (r0, w')"
      "Inl e = attempt_result en ctx input False r0" by blast
    with execute_once_effects [OF Suc.prems Suc.IH [OF Suc.prems]] show ?thesis
      by (fastforce simp: attempt_result_def split: sum.splits)
  qed
  then show ?case by (simp add: nested_ok_def)
qed


text \<open>Without \<open>flow.call\<close>, a failure that does not say so has left no effect.\<close>

definition no_flow_calls :: "'w flow_engine \<Rightarrow> bool" where
  "no_flow_calls en \<longleftrightarrow> (\<forall>flow i node. loaded en flow \<longrightarrow> map_of (hf_nodes flow) i = Some node \<longrightarrow> hn_kind node \<noteq> FlowCall)"

lemma drive_flow_no_calls:
  assumes tr: "tracked en eff" and calls: "no_flow_calls en" and flow: "loaded en flow"
    and run: "drive_flow en nested ctx flow st from fid w = (Inl (e, outs), w')"
  shows "is_after_effects_failure e \<or> eff w' = eff w"
proof -
  have "clean_flow en nested eff (\<lambda>_. False) f" if "loaded en f" for f
    using that calls fails_clean_no_call [OF tr] by (simp add: clean_flow_def no_flow_calls_def)
  from drive_flow_effects_gen [OF tr this this [OF flow] run] show ?thesis by blast
qed

end
