(* ===== verification/Engine_Parks.thy ===== *)
theory Engine_Parks
  imports Engine_Effects
begin

section \<open>Parked turns\<close>

text \<open>
  What a turn that waits leaves behind, how often a conversation parks at its agent, and how long an approval
  gate stays closed: the lemmas behind the claims on the flow engine of
  \<open>crates/greentic-runner-host/src/runner/engine.rs\<close>.
\<close>

subsection \<open>Snapshots\<close>

text \<open>The flow that was loaded for a pack under an id, in some state of the world.\<close>

definition loaded_as :: "'w flow_engine \<Rightarrow> string \<Rightarrow> string \<Rightarrow> host_flow \<Rightarrow> bool" where
  "loaded_as en p fid flow \<longleftrightarrow> (\<exists>w w'. get_or_load_flow en p fid w = (Inr flow, w'))"

text \<open>
  A snapshot stands in the flow it names: that flow was loaded for the pack, it has the node the walk
  stopped at, and the turn to come begins at this node or at the one its routing leads to.
\<close>

definition stands_in_flow :: "'w flow_engine \<Rightarrow> flow_snapshot \<Rightarrow> bool" where
  "stands_in_flow en sp \<longleftrightarrow> (\<exists>flow i node.
     loaded_as en (sp_pack_id sp) (sp_flow_id sp) flow \<and> map_of (hf_nodes flow) i = Some node \<and>
     (sp_next_node sp = i \<or> (\<exists>out st. next_decision en node i out st = GoTo (sp_next_node sp))))"

text \<open>A snapshot of a context: it goes on in the flow it was taken in, and carries no reply of the turn.\<close>

definition clean_snapshot :: "'w flow_engine \<Rightarrow> flow_ctx \<Rightarrow> flow_snapshot \<Rightarrow> bool" where
  "clean_snapshot en ctx sp \<longleftrightarrow>
     sp_pack_id sp = fc_pack_id ctx \<and> sp_next_flow sp = None \<and> resume_flow_id sp = sp_flow_id sp \<and>
     stands_in_flow en sp \<and> xs_egress (sp_state sp) = [] \<and> xs_created (sp_state sp) = []"

definition clean_execution :: "'w flow_engine \<Rightarrow> flow_ctx \<Rightarrow> flow_execution \<Rightarrow> bool" where
  "clean_execution en ctx x \<longleftrightarrow>
     (case fx_status x of FlowCompleted \<Rightarrow> True | FlowWaiting _ sp \<Rightarrow> clean_snapshot en ctx sp)"

lemma clean_waiting:
  assumes "loaded_as en (fc_pack_id ctx) fid flow" "map_of (hf_nodes flow) i = Some node"
    and "n = i \<or> (\<exists>out st. next_decision en node i out st = GoTo n)"
  shows "clean_execution en ctx (waiting en (ctx\<lparr>fc_flow_id := fid\<rparr>) fid n b reason final st)"
proof -
  let ?sp = "snapshot_at (ctx\<lparr>fc_flow_id := fid\<rparr>) fid n b st"
  have "stands_in_flow en ?sp"
    unfolding stands_in_flow_def
    by (rule exI [of _ flow], rule exI [of _ i], rule exI [of _ node]) (use assms in \<open>simp add: snapshot_at_def\<close>)
  then have "clean_snapshot en ctx ?sp"
    by (simp add: clean_snapshot_def snapshot_at_def clear_egress_def resume_flow_id_def unwrap_or_def)
  then show ?thesis by (simp add: clean_execution_def waiting_def)
qed

lemma clean_completed: "clean_execution en ctx (completed en flow final st)"
  by (simp add: clean_execution_def completed_def)

lemma clean_surfaced: "clean_execution en ctx (surfaced_failure_execution en input fid e outs)"
  by (simp add: clean_execution_def surfaced_failure_execution_def)

lemma clean_execution_cong:
  "fc_pack_id ctx = fc_pack_id ctx' \<Longrightarrow> clean_execution en ctx x = clean_execution en ctx' x"
  by (simp add: clean_execution_def clean_snapshot_def split: flow_status.splits)

text \<open>What one node does: it ends the turn with a clean snapshot, or goes on in a flow loaded under its id.\<close>

definition walk_clean :: "'w flow_engine \<Rightarrow> flow_ctx \<Rightarrow> walk_end \<Rightarrow> bool" where
  "walk_clean en ctx e \<longleftrightarrow>
     (case e of Finished x \<Rightarrow> clean_execution en ctx x | GoOn flow fid i \<Rightarrow> loaded_as en (fc_pack_id ctx) fid flow)"

lemma apply_jump_loaded_as:
  "apply_jump en ctx j s = (Inr (flow, fid, i), s') \<Longrightarrow> loaded_as en (fc_pack_id ctx) fid flow"
  by (auto simp: apply_jump_def loaded_as_def sbind_def in_world_def smap_err_def map_err_def sres_def sfail_def sret_def
      get_state_def modify_state_def Let_def split: if_splits prod.splits sum.splits)

lemma apply_control_clean:
  assumes "loaded_as en (fc_pack_id ctx) fid flow" "map_of (hf_nodes flow) i = Some node"
    and "apply_control en (ctx\<lparr>fc_flow_id := fid\<rparr>) flow fid i node owned out control s = (Inr e, s')"
  shows "walk_clean en ctx e"
proof -
  obtain st w where s: "s = (st, w)" by fastforce
  have here: "clean_execution en ctx (waiting en (ctx\<lparr>fc_flow_id := fid\<rparr>) fid i b reason final st')" for b reason final st'
    by (rule clean_waiting [OF assms(1,2)]) simp
  have there: "clean_execution en ctx (waiting en (ctx\<lparr>fc_flow_id := fid\<rparr>) fid n b reason final st')"
    if "next_decision en node i out st = GoTo n" for n b reason final st'
    using that by (intro clean_waiting [OF assms(1,2)]) blast
  show ?thesis
  proof (cases control)
    case (Jump j)
    with assms(3) obtain flow' fid' i' where e: "e = GoOn flow' fid' i'"
      and jump: "apply_jump en (ctx\<lparr>fc_flow_id := fid\<rparr>) j s = (Inr (flow', fid', i'), s')"
      by (auto simp: apply_control_def sbind_def sret_def split: prod.splits sum.splits)
    from apply_jump_loaded_as [OF jump] e show ?thesis by (simp add: walk_clean_def)
  qed (use assms(1,3) s here there in
      \<open>auto simp: apply_control_def continue_walk_def wait_walk_def walk_clean_def get_state_def modify_state_def run_state_def
        sbind_def sret_def sres_def clean_completed Let_def split: routing_decision.splits\<close>)
qed

lemma node_turn_clean:
  assumes "loaded_as en (fc_pack_id ctx) fid flow"
    and "node_turn en nested ctx flow fid i s = (Inr e, effect, s')"
  shows "walk_clean en ctx e"
  using assms
  by (auto simp: node_turn_def Let_def dest: apply_control_clean split: option.splits sum.splits prod.splits)

lemma drive_walk_clean:
  "loaded_as en (fc_pack_id ctx) fid flow \<Longrightarrow>
   drive_walk en nested ctx n effects flow fid i s = (Inr x, effects', w') \<Longrightarrow> clean_execution en ctx x"
proof (induction "Suc MAX_STEPS_PER_TURN - n" arbitrary: n effects flow fid i s rule: less_induct)
  case less
  then have n: "\<not> MAX_STEPS_PER_TURN < Suc n"
    by (auto simp: drive_walk.simps [of en nested ctx n])
  obtain r1 effect s1 where turn: "node_turn en nested ctx flow fid i s = (r1, effect, s1)" by (metis prod_cases3)
  with n less.prems(2) obtain e where e: "r1 = Inr e"
    by (cases r1) (auto simp: drive_walk.simps [of en nested ctx n])
  note c = node_turn_clean [OF less.prems(1) turn [unfolded e]]
  show ?case
  proof (cases e)
    case (Finished y)
    with turn e n less.prems(2) c show ?thesis by (simp add: drive_walk.simps [of en nested ctx n] walk_clean_def)
  next
    case (GoOn flow' fid' i')
    with turn e n less.prems(2)
    have "drive_walk en nested ctx (Suc n) (effects \<or> effect) flow' fid' i' s1 = (Inr x, effects', w')"
      by (simp add: drive_walk.simps [of en nested ctx n])
    moreover from c GoOn have "loaded_as en (fc_pack_id ctx) fid' flow'" by (simp add: walk_clean_def)
    ultimately show ?thesis using less.hyps [of "Suc n"] n by simp
  qed
qed

lemma drive_flow_clean:
  "loaded_as en (fc_pack_id ctx) fid flow \<Longrightarrow> drive_flow en nested ctx flow st from fid w = (Inr x, w') \<Longrightarrow>
   clean_execution en ctx x"
  by (auto simp: drive_flow_def drive_flow_tracked_def dest: drive_walk_clean split: sum.splits prod.splits)

lemma loaded_asI: "get_or_load_flow en p fid w = (Inr flow, w') \<Longrightarrow> loaded_as en p fid flow"
  unfolding loaded_as_def by blast

lemma execute_once_clean: "execute_once en nested ctx input entry w = (Inr x, w') \<Longrightarrow> clean_execution en ctx x"
  by (auto simp: execute_once_def dest!: loaded_asI dest: drive_flow_clean split: sum.splits prod.splits if_splits)

lemma resume_clean: "resume_with_options en ctx parked input surface w = (Inr x, w') \<Longrightarrow> clean_execution en ctx x"
  by (auto simp: resume_with_options_def clean_surfaced dest!: loaded_asI dest: drive_flow_clean
      split: if_splits sum.splits prod.splits)

lemma attempts_clean: "attempts en nested ctx input entry surface n w = (Inr x, w') \<Longrightarrow> clean_execution en ctx x"
proof (induction "fc_max_attempts ctx - n" arbitrary: n w rule: less_induct)
  case less
  obtain r1 w1 where one: "execute_once en nested (ctx\<lparr>fc_attempt := Suc n\<rparr>) input entry w = (r1, w1)" by fastforce
  show ?case
  proof (cases "\<exists>e outs. r1 = Inl (e, outs) \<and> Suc n < fc_max_attempts ctx \<and> should_retry (tx_lower (en_tx en)) e")
    case False
    with one less.prems show ?thesis
      using execute_once_clean [of en nested "ctx\<lparr>fc_attempt := Suc n\<rparr>"] clean_execution_cong [of ctx "ctx\<lparr>fc_attempt := Suc n\<rparr>" en]
      by (auto simp: attempts.simps [of en nested ctx input entry surface n w] clean_surfaced not_less
          split: sum.splits prod.splits if_splits)
  next
    case True
    with one less.prems have "attempts en nested ctx input entry surface (Suc n) w1 = (Inr x, w')"
      by (auto simp: attempts.simps [of en nested ctx input entry surface n w])
    with True less.hyps [of "Suc n"] show ?thesis by auto
  qed
qed

subsection \<open>Conversations\<close>

text \<open>A row of turns of a conversational agent, with the control each of them ends in.\<close>

fun conversation_turns :: "string \<Rightarrow> string \<Rightarrow> node_output list \<Rightarrow> exec_state \<Rightarrow> node_control list \<times> exec_state" where
  "conversation_turns i reason [] st = ([], st)"
| "conversation_turns i reason (out # outs) st =
     (let (outcome, st1) = conversation_turn i reason out st; (rest, st2) = conversation_turns i reason outs st1
      in (snd outcome # rest, st2))"

definition not_ended :: "node_output \<Rightarrow> bool" where
  "not_ended out \<longleftrightarrow> get_str ''terminated_by'' (no_payload out) \<noteq> Some ''conversation_ended''"

definition park_count :: "string \<Rightarrow> exec_state \<Rightarrow> nat" where
  "park_count i st = hm_get_or 0 (xs_park_turns st) i"

lemma bump_park_turns_count:
  assumes "park_count i st < MAX_PARK_TURNS"
  shows "bump_park_turns i st = (Suc (park_count i st), st\<lparr>xs_park_turns := hput i (Suc (park_count i st)) (xs_park_turns st)\<rparr>)"
  using assms
  by (simp add: bump_park_turns_def park_count_def sat_add32_def u32_max_def MAX_PARK_TURNS_def Let_def)

lemma park_count_simps [simp]:
  "park_count i (st\<lparr>xs_park_turns := hput i n (xs_park_turns st)\<rparr>) = n" "park_count i (reset_park_turns i st) = 0"
  by (simp_all add: park_count_def reset_park_turns_def hm_get_or_def hm_simps)

lemma conversation_turn_counts:
  assumes "not_ended out" "park_count i st < MAX_PARK_TURNS"
  shows "snd (fst (conversation_turn i reason out st)) =
      (if Suc (park_count i st) = MAX_PARK_TURNS then Continue else LoopHere (Some reason))"
    "park_count i (snd (conversation_turn i reason out st)) = Suc (park_count i st) mod MAX_PARK_TURNS"
  using assms
  by (cases "Suc (park_count i st) = MAX_PARK_TURNS";
      simp add: conversation_turn_def not_ended_def bump_park_turns_count complete_def)+

lemma conversation_turns_controls:
  assumes "list_all not_ended outs" "park_count i st < MAX_PARK_TURNS" "k < length outs"
  shows "fst (conversation_turns i reason outs st) ! k =
    (if Suc (park_count i st + k) mod MAX_PARK_TURNS = 0 then Continue else LoopHere (Some reason))"
  using assms
proof (induction outs arbitrary: st k)
  case (Cons out outs)
  note one = conversation_turn_counts [of out i st reason]
  obtain outcome st1 where t: "conversation_turn i reason out st = (outcome, st1)" by fastforce
  have "0 < MAX_PARK_TURNS" by (simp add: MAX_PARK_TURNS_def)
  then have c1: "park_count i st1 = Suc (park_count i st) mod MAX_PARK_TURNS" "park_count i st1 < MAX_PARK_TURNS"
    using one(2) t Cons.prems by auto
  show ?case
  proof (cases k)
    case 0
    have "Suc (park_count i st) mod MAX_PARK_TURNS = 0 \<longleftrightarrow> Suc (park_count i st) = MAX_PARK_TURNS"
      using Cons.prems(2) by (simp add: mod_Suc)
    with 0 one(1) t Cons.prems show ?thesis by (simp split: prod.splits)
  next
    case (Suc j)
    have "Suc (park_count i st1 + j) mod MAX_PARK_TURNS = Suc (park_count i st + k) mod MAX_PARK_TURNS"
      using c1(1) Suc mod_add_left_eq [of "Suc (park_count i st)" MAX_PARK_TURNS "Suc j"] by simp
    with Suc t c1(2) Cons.prems Cons.IH [of st1 j] show ?thesis by (simp add: split_beta)
  qed
qed simp

lemma conversation_turns_count:
  assumes "list_all not_ended outs" "park_count i st < MAX_PARK_TURNS"
  shows "park_count i (snd (conversation_turns i reason outs st)) = (park_count i st + length outs) mod MAX_PARK_TURNS"
  using assms
proof (induction outs arbitrary: st)
  case (Cons out outs)
  obtain outcome st1 where t: "conversation_turn i reason out st = (outcome, st1)" by fastforce
  then have c1: "park_count i st1 = Suc (park_count i st) mod MAX_PARK_TURNS" "park_count i st1 < MAX_PARK_TURNS"
    using conversation_turn_counts(2) [of out i st reason] Cons.prems by (auto simp: MAX_PARK_TURNS_def)
  with Cons.IH [of st1] Cons.prems have
    "park_count i (snd (conversation_turns i reason outs st1)) = (Suc (park_count i st) + length outs) mod MAX_PARK_TURNS"
    by (simp add: mod_add_left_eq)
  with t show ?case by (simp add: split_beta)
qed simp

lemma conversation_turn_ended:
  "\<not> not_ended out \<Longrightarrow>
     snd (fst (conversation_turn i reason out st)) = Continue \<and> park_count i (snd (conversation_turn i reason out st)) = 0"
  by (simp add: conversation_turn_def not_ended_def complete_def)

subsection \<open>Approval gates\<close>

text \<open>A response that carries the token of a gate, or another with the same digest.\<close>

definition carries_token :: "(string \<Rightarrow> string) \<Rightarrow> string \<Rightarrow> json \<Rightarrow> bool" where
  "carries_token sha token entry \<longleftrightarrow>
     entry_is_approval_response entry \<and>
     (case token_from_response entry of None \<Rightarrow> False | Some p \<Rightarrow> str_trim p \<noteq> [] \<and> sha (str_trim p) = sha token)"

text \<open>The turns of a gate: each is an inbound entry with the payload rendered for it.\<close>

fun gate_turns ::
  "'w flow_engine \<Rightarrow> flow_ctx \<Rightarrow> string \<Rightarrow> string \<Rightarrow> (json \<times> json) list \<Rightarrow> exec_state \<times> 'w \<Rightarrow>
   (flow_error, dispatch_outcome) result list \<times> exec_state \<times> 'w" where
  "gate_turns en ctx i target [] s = ([], s)"
| "gate_turns en ctx i target ((entry, payload) # es) s =
     (let (r, s1) = execute_approval_call en ctx i target payload ((fst s)\<lparr>xs_entry := entry\<rparr>, snd s);
          (rs, s2) = gate_turns en ctx i target es s1
      in (r # rs, s2))"

lemma parked_at_entry [simp]: "parked_at (st\<lparr>xs_entry := e\<rparr>) i = parked_at st i"
  by (simp add: parked_at_def take_approval_await_def split: option.splits)

lemma take_approval_entry [simp]: "xs_entry (snd (take_approval_await i st)) = xs_entry st"
  by (simp add: take_approval_await_def split: option.splits)

text \<open>A parked gate is decided by a response that authenticates, and by nothing else; no dispatch is made.\<close>

lemma parked_gate_turn:
  assumes "parked_at st i = Some p"
  shows "execute_approval_call en ctx i target payload (st, w) =
    (if entry_is_approval_response (xs_entry st) \<and> response_authenticates (en_sha en) (xs_entry st) p
     then (Inr (decided (xs_entry st)), snd (take_approval_await i st), w)
     else (Inr still_parked, mark_approval_await i p (snd (take_approval_await i st)), w))"
proof -
  from assms obtain st1 where "take_approval_await i st = (Some p, st1)"
    unfolding parked_at_def by (metis prod.collapse)
  then show ?thesis
    using take_approval_entry [of i st]
    by (simp add: execute_approval_call_def run_state_def get_state_def modify_state_def sbind_def sret_def)
qed

lemma token_gate_turn:
  assumes "parked_at st i = Some p" "pa_token_fingerprint p = Some (fingerprint (en_sha en) token)"
  shows "execute_approval_call en ctx i target payload (st\<lparr>xs_entry := entry\<rparr>, w) =
    (if carries_token (en_sha en) token entry
     then (Inr (decided entry), snd (take_approval_await i (st\<lparr>xs_entry := entry\<rparr>)), w)
     else (Inr still_parked, mark_approval_await i p (snd (take_approval_await i (st\<lparr>xs_entry := entry\<rparr>))), w))"
proof -
  have "response_authenticates (en_sha en) entry p \<longleftrightarrow>
      (case token_from_response entry of None \<Rightarrow> False | Some q \<Rightarrow> str_trim q \<noteq> [] \<and> en_sha en (str_trim q) = en_sha en token)"
    using assms(2)
    by (cases "token_from_response entry") (simp_all add: response_authenticates_def verify_fingerprint verify_token_def [of _ None])
  moreover have "parked_at (st\<lparr>xs_entry := entry\<rparr>) i = Some p" using assms(1) by simp
  ultimately show ?thesis by (simp add: parked_gate_turn carries_token_def cong: if_cong)
qed

lemma gate_stays_parked:
  assumes "parked_at st i = Some p" "pa_token_fingerprint p = Some (fingerprint (en_sha en) token)"
    and "list_all (\<lambda>(entry, payload). \<not> carries_token (en_sha en) token entry) es"
  shows "\<exists>st'. gate_turns en ctx i target es (st, w) = (replicate (length es) (Inr still_parked), st', w) \<and>
    parked_at st' i = Some p"
  using assms(1,3)
proof (induction es arbitrary: st)
  case (Cons ep es)
  obtain entry payload where ep: "ep = (entry, payload)" by fastforce
  define st1 where "st1 = mark_approval_await i p (snd (take_approval_await i (st\<lparr>xs_entry := entry\<rparr>)))"
  have "execute_approval_call en ctx i target payload (st\<lparr>xs_entry := entry\<rparr>, w) = (Inr still_parked, st1, w)"
    using token_gate_turn [OF Cons.prems(1) assms(2)] Cons.prems(2) ep by (simp add: st1_def)
  moreover obtain st' where "gate_turns en ctx i target es (st1, w) = (replicate (length es) (Inr still_parked), st', w)"
    "parked_at st' i = Some p"
    using Cons.IH [of st1] Cons.prems by (auto simp: st1_def)
  ultimately show ?case by (simp add: ep)
qed simp

text \<open>A gate that was not parked and parks now has drawn a token, and its park holds the fingerprint of it.\<close>

lemma gate_parks:
  assumes "parked_at st i = None"
    and "execute_approval_call en ctx i target payload (st, w) = (Inr (out, AwaitHere reason c), st', w')"
  shows "\<exists>p. parked_at st' i = Some p \<and>
    pa_token_fingerprint p = Some (fingerprint (en_sha en) (b64_encode (en_b64 en) (fst (en_random en 32 w))))"
proof -
  from assms(1) have taken: "take_approval_await i st = (None, st)"
    by (auto simp: parked_at_def take_approval_await_def split: option.splits)
  show ?thesis
    using assms(2) taken
    by (auto simp: execute_approval_call_def dispatch_approval_def run_state_def modify_state_def in_world_def pure_io_def
        sbind_def sret_def auto_approved_def complete_def park_approval_def issue_token_def Let_def
        split: if_splits prod.splits sum.splits)
qed

end
