(* ===== verification/Engine_Claims.thy ===== *)
theory Engine_Claims
  imports Engine_Parks
begin

section \<open>Claims on the flow engine\<close>

text \<open>
  The properties of the flow engine and of the correlation ids it dispatches under, with a small engine that
  shows that what they assume can hold: its world counts the external effects and the calls of a graph
  handler that is busy at first.
\<close>

subsection \<open>An engine\<close>

definition ex_text :: text_lib where
  "ex_text =
     \<lparr>tx_lower = map ascii_lower, tx_json = (\<lambda>_. []), tx_parse_f64 = (\<lambda>_. None), tx_node_id = (\<lambda>s. s \<noteq> []),
      tx_view = (\<lambda>v. v), tx_debug = (\<lambda>_. []), tx_parse = (\<lambda>_. None)\<rparr>"

definition ex_node :: "host_node_kind \<Rightarrow> json \<Rightarrow> routing \<Rightarrow> host_node" where
  "ex_node kind payload routing =
     \<lparr>hn_kind = kind, hn_component = ''node'', hn_component_id = ''node'', hn_operation_name = None,
      hn_operation_in_mapping = None, hn_payload_expr = payload, hn_routing = routing, hn_vars_out = None,
      hn_response_timeout_secs = None\<rparr>"

definition ex_flow :: "string \<Rightarrow> (string \<times> host_node) list \<Rightarrow> host_flow" where
  "ex_flow i nodes =
     \<lparr>hf_id = i, hf_start = None, hf_nodes = nodes, hf_vars_init = [], hf_required_vars = [], hf_slot_schema = None\<rparr>"

definition ex_menu :: host_flow where
  "ex_menu = ex_flow ''menu'' [(''ask'', ex_node FlowCall (JObject [(''flow_id'', JString ''sub'')]) REnd)]"

definition ex_sub :: host_flow where
  "ex_sub = ex_flow ''sub''
     [(''work'', ex_node (DwAgentGraph ''g'') JNull (RNext ''hold'')), (''hold'', ex_node NodeWait JNull (RNext ''work''))]"

definition ex_hex :: base64 where
  "ex_hex = \<lparr>b64_encode = bytes_hex, b64_decode = hex_bytes\<rparr>"

definition ex_engine :: "(nat \<times> nat) flow_engine" where
  "ex_engine =
     \<lparr>en_tx = ex_text, en_b64 = ex_hex, en_sha = (\<lambda>s. s), en_env = ''prod'', en_registered = (\<lambda>_ _. True),
      en_load = (\<lambda>_ f. sret (if f = ''menu'' then ex_menu else ex_sub)), en_render = (\<lambda>_ t _. Inr t),
      en_now = (\<lambda>_. JNull), en_elapsed_ms = (\<lambda>_. 0), en_random = (\<lambda>n w. (replicate n (CHR ''r''), w)),
      en_failure_text = (\<lambda>_. ''failed''), en_component_issues = (\<lambda>_. False), en_tool_issues = (\<lambda>_. False),
      en_asset = (\<lambda>_ _. None), en_component = (\<lambda>_ _ _. sret JNull), en_resolve_provider = (\<lambda>_ _ _. None),
      en_provider = (\<lambda>_ _ _ _ _ _ w. (Inr JNull, (Suc (fst w), snd w))), en_cross_pack = None, en_store = None,
      en_tenant_error = (\<lambda>_. None), en_nats = False, en_agent_session = (\<lambda>i. sret (unwrap_or [] i)), en_agent = None,
      en_graph = Some (\<lambda>_ _ _ _ w. if snd w = 0 then (Inl (PreEffect (Leaf True ''busy'')), (fst w, 1))
                                     else (Inr JNull, (Suc (fst w), Suc (snd w)))),
      en_operala = None, en_sorla_http = None, en_mcp = (\<lambda>_ _ _ _ w. (JNull, (Suc (fst w), snd w))),
      en_a2a_answer = (\<lambda>_. None), en_a2a = (\<lambda>_ _ _ _ w. (JNull, (Suc (fst w), snd w))),
      en_media = (\<lambda>_ _ w. (JNull, (Suc (fst w), snd w))),
      en_remote = Some (\<lambda>r w. (Inr (AwaitingResponse (rd_correlation_id r)), (Suc (fst w), snd w))),
      en_approval_remote = None\<rparr>"

definition ex_ctx :: flow_ctx where
  "ex_ctx =
     \<lparr>fc_tenant = ''acme'', fc_pack_id = ''p'', fc_flow_id = ''sub'', fc_session_id = Some ''acme:web:c:v:u'',
      fc_provider_id = None, fc_reply_scope = None, fc_max_attempts = 3, fc_attempt = 0, fc_caller = None\<rparr>"

definition ex_snapshot :: "string \<Rightarrow> string \<Rightarrow> flow_snapshot" where
  "ex_snapshot f i =
     \<lparr>sp_pack_id = ''p'', sp_flow_id = f, sp_next_flow = None, sp_next_node = i, sp_awaiting_submit = False,
      sp_state = exec_state_new JNull\<rparr>"

lemma ex_tracked: "tracked ex_engine fst"
  by (simp add: tracked_def ex_engine_def keeps_io_def pre_keeps_def sret_def)

lemma ex_base64: "base64_laws ex_hex"
proof -
  have "plain_char (nibble_char d)" if "d < 16" for d
    using that unfolding nibble_char_def plain_char_simps by (auto simp: less_eq_char_def)
  then have "list_all plain_char (bytes_hex s)" for s
    by (induction s) (auto simp: less_mult_imp_div_less)
  then show ?thesis by (simp add: base64_laws_def ex_hex_def hex_bytes_hex)
qed


subsection \<open>Running it\<close>

lemmas ex_defs = ex_engine_def ex_ctx_def ex_text_def ex_menu_def ex_sub_def ex_flow_def ex_node_def ex_snapshot_def

lemmas engine_defs = get_or_load_flow_def drive_flow_def drive_flow_tracked_def drive_walk.simps node_turn_def
  node_id_from_str_def map_err_def sret_def sfail_def sres_def sbind_def resume_flow_id_def unwrap_or_def node_payload_def
  MAX_STEPS_PER_TURN_def execute_once_def missing_required_def seed_vars_and_collect_missing_required_def start_node_def
  exec_state_new_def

lemmas node_defs = dispatch_node_def get_state_def then_complete_def in_world_def execute_flow_call_def struct_fields_def one_field_def
  execute_dw_agent_graph_def inject_slots_def inject_card_locale_def inject_card_route_def is_card_invocation_def has_key_def
  finish_node_def attach_pending_card_answers_def apply_control_def continue_walk_def wait_walk_def next_decision_def
  run_state_def starts_with_def extract_wait_reason_def complete_def node_output_new_def note_created_artifacts_def
  record_node_output_def may_have_partial_effect_on_failure_def

text \<open>The flow \<open>sub\<close> calls the graph and waits: a busy graph fails the first attempt without an effect.\<close>

lemma ex_sub_waits:
  "\<exists>x reason sp. execute_once ex_engine nested (ex_ctx\<lparr>fc_max_attempts := m, fc_attempt := a\<rparr>) JNull None (n, Suc t) =
     (Inr x, (Suc n, Suc (Suc t))) \<and> fx_status x = FlowWaiting reason sp"
  by (simp add: engine_defs ex_defs node_defs Let_def waiting_def)

lemma ex_gone:
  "resume_surfacing_failures (ex_engine\<lparr>en_load := \<lambda>_ _. sret ex_sub\<rparr>) ex_ctx (ex_snapshot ''sub'' ''gone'') JNull (0, 0) =
     (Inl (err_of ''node gone not found''), (0, 0))"
  by (simp add: resume_surfacing_failures_def resume_with_options_def engine_defs ex_defs terminal_after_effects_def Let_def
    is_after_effects_failure_def err_of_def error_causes.simps)

subsection \<open>Retries\<close>

text \<open>
  C14. A retry repeats no external effect, in the sense \<open>performs_external_effect\<close> has in the source:
  the attempts before the last one of \<open>execute\<close> leave these effects as they were. The calls of pack
  components and the writes to the state store are not among them: the engine can not tell a component that
  formats from one that writes, a retry runs both again, and \<open>tracked\<close> takes the observed effects to be
  others than theirs. The last attempt runs from a world with the effects of the start, is within the number
  of attempts of the context, and its outcome is what the caller gets, a failure of a session as the message
  for the user.
\<close>

theorem retried_turn_effects_once:
  assumes "tracked en eff" "execute en ctx input w = (r, w')"
  shows "\<exists>k w0 r0. (k = 0 \<or> k < fc_max_attempts ctx) \<and> eff w0 = eff w \<and>
    execute_once en (top_nested en) (ctx\<lparr>fc_attempt := Suc k\<rparr>) input None w0 = (r0, w') \<and>
    r = attempt_result en ctx input True r0"
proof -
  have "attempts en (top_nested en) ctx input None True 0 w = (r, w')"
    using assms(2) by (simp add: execute_def execute_with_options_def check_entry_def sbind_def sret_def)
  from attempts_once [OF assms(1) nested_flow_ok [OF assms(1)] this] show ?thesis by auto
qed

theorem retried_turn_effects_once_witness:
  "\<exists>k w0 r0. (k = 0 \<or> k < 3) \<and> fst w0 = 0 \<and>
     execute_once ex_engine (top_nested ex_engine) (ex_ctx\<lparr>fc_attempt := Suc k\<rparr>) JNull None w0 =
       (r0, snd (execute ex_engine ex_ctx JNull (0, 0))) \<and>
     fst (execute ex_engine ex_ctx JNull (0, 0)) = attempt_result ex_engine ex_ctx JNull True r0"
proof -
  obtain r w' where run: "execute ex_engine ex_ctx JNull (0, 0) = (r, w')" by (metis surj_pair)
  have "fc_max_attempts ex_ctx = 3" by (simp add: ex_ctx_def)
  with retried_turn_effects_once [OF ex_tracked run] run show ?thesis by simp
qed

subsection \<open>Parks\<close>



text \<open>
  C34. When a resumed session turn fails and its park is kept, so that the next message resumes the same
  snapshot, no tracked effect was performed, provided that no flow of the engine calls another with
  \<open>flow.call\<close>.
\<close>

theorem kept_park_no_effect:
  assumes "tracked en eff" "no_flow_calls en" "fc_session_id ctx \<noteq> None"
    and "resume_surfacing_failures en ctx sp input w = (Inl e, w')"
  shows "eff w' = eff w"
proof (cases "sp_pack_id sp = fc_pack_id ctx")
  case False
  with assms(4) show ?thesis by (auto simp: resume_surfacing_failures_def resume_with_options_def)
next
  case pack: True
  obtain l w1 where load: "get_or_load_flow en (fc_pack_id ctx) (resume_flow_id sp) w = (l, w1)" by (metis surj_pair)
  have w1: "eff w1 = eff w"
    using keeps_get_or_load [OF assms(1)] load unfolding keeps_io_def by (metis snd_conv)
  show ?thesis
  proof (cases l)
    case (Inl e1)
    with load pack assms(4) w1 show ?thesis by (simp add: resume_surfacing_failures_def resume_with_options_def)
  next
    case (Inr flow)
    obtain outs where "drive_flow en (top_nested en) ctx flow (resumed_state sp input) (Some (sp_next_node sp)) (resume_flow_id sp) w1 =
        (Inl (e, outs), w')" "\<not> is_after_effects_failure e"
      using Inr load pack assms(3,4)
      by (auto simp: resume_surfacing_failures_def resume_with_options_def split: sum.splits prod.splits if_splits)
    moreover have "loaded en flow"
      using get_or_load_loaded [of en "fc_pack_id ctx" "resume_flow_id sp" w flow w1] load Inr by simp
    ultimately show ?thesis using drive_flow_no_calls [OF assms(1,2)] w1 by metis
  qed
qed

theorem kept_park_no_effect_witness:
  "fst (snd (resume_surfacing_failures (ex_engine\<lparr>en_load := \<lambda>_ _. sret ex_sub\<rparr>) ex_ctx (ex_snapshot ''sub'' ''gone'') JNull (0, 0))) =
     fst (0 :: nat, 0 :: nat)"
proof -
  let ?en = "ex_engine\<lparr>en_load := \<lambda>_ _. sret ex_sub\<rparr>"
  have "tracked ?en fst" using ex_tracked by (simp add: tracked_def keeps_io_def sret_def)
  moreover have "no_flow_calls ?en"
    by (auto simp: no_flow_calls_def loaded_def sret_def ex_sub_def ex_flow_def ex_node_def split: if_splits)
  moreover have "fc_session_id ex_ctx \<noteq> None" by (simp add: ex_ctx_def)
  ultimately show ?thesis using kept_park_no_effect [OF _ _ _ ex_gone] ex_gone by simp
qed

text \<open>
  With \<open>flow.call\<close> it is otherwise: the call of a flow that performs an effect and then waits fails, the failure is not
  marked as one after effects, the park is kept, and every further message performs the effect again.
\<close>

lemma top_nested_Some:
  "top_nested en = Some (\<lambda>ctx input. execute_with_options en (nested_flow en 15) ctx input None False)"
proof -
  have depth: "MAX_FLOW_CALL_DEPTH = Suc 15" by (simp add: MAX_FLOW_CALL_DEPTH_def)
  show ?thesis unfolding depth by (rule nested_flow.simps(2))
qed

lemma ex_sub_nested:
  "\<exists>x reason sp. execute_with_options ex_engine (nested_flow ex_engine 15) (ex_ctx\<lparr>fc_flow_id := ''sub'', fc_max_attempts := 1\<rparr>) JNull None False (n, Suc t)
     = (Inr x, (Suc n, Suc (Suc t))) \<and> fx_status x = FlowWaiting reason sp"
proof -
  have "ex_ctx\<lparr>fc_flow_id := ''sub'', fc_max_attempts := 1, fc_attempt := Suc 0\<rparr> = ex_ctx\<lparr>fc_max_attempts := 1, fc_attempt := Suc 0\<rparr>"
    by (simp add: ex_ctx_def)
  with ex_sub_waits [of "nested_flow ex_engine 15" 1 "Suc 0" n t] show ?thesis
    by (auto simp: execute_with_options_def check_entry_def sbind_def sret_def attempts.simps)
qed

lemma str_trim_sub: "str_trim ''sub'' \<noteq> []"
  by (simp add: str_trim_visible visible_def)

lemma flow_call_pauses:
  assumes "run (ctx\<lparr>fc_flow_id := fid, fc_max_attempts := 1\<rparr>) JNull w = (Inr x, w')" "fx_status x = FlowWaiting reason sp"
    and "str_trim fid \<noteq> []"
  shows "\<exists>m. execute_flow_call en (Some run) ctx (JObject [(''flow_id'', JString fid)]) w = (Inl (terminal_flow_error m), w')"
  using assms
  by (simp add: execute_flow_call_def struct_fields_def one_field_def value_field_def unwrap_or_def smap_err_def map_err_def sbind_def sfail_def) blast

lemma ex_menu_fails:
  assumes "run (ex_ctx\<lparr>fc_flow_id := ''sub'', fc_max_attempts := 1\<rparr>) JNull w = (Inr x, w')" "fx_status x = FlowWaiting reason sp"
  shows "\<exists>m outs. drive_flow ex_engine (Some run) (ex_ctx\<lparr>fc_flow_id := ''menu''\<rparr>) ex_menu (resumed_state (ex_snapshot ''menu'' ''ask'') JNull)
    (Some ''ask'') ''menu'' w = (Inl (terminal_flow_error m, outs), w')"
proof -
  let ?ctx = "ex_ctx\<lparr>fc_flow_id := ''menu''\<rparr>"
  have "?ctx\<lparr>fc_flow_id := ''sub'', fc_max_attempts := 1\<rparr> = ex_ctx\<lparr>fc_flow_id := ''sub'', fc_max_attempts := 1\<rparr>" by simp
  with flow_call_pauses [where ctx = ?ctx, OF _ assms(2) str_trim_sub] assms(1)
  obtain m where call: "execute_flow_call ex_engine (Some run) ?ctx (JObject [(''flow_id'', JString ''sub'')]) w = (Inl (terminal_flow_error m), w')"
    by metis
  have render: "en_render ex_engine b t c = Inr t" for b t c by (simp add: ex_engine_def)
  have "\<exists>st. node_turn ex_engine (Some run) ?ctx ex_menu ''menu'' ''ask'' (resumed_state (ex_snapshot ''menu'' ''ask'') JNull, w) =
      (Inl (terminal_flow_error m, run_outputs ex_engine st), False, st, w')"
    using call
    by (simp add: node_turn_def render node_payload_def map_err_def ex_menu_def ex_flow_def ex_node_def inject_slots_def inject_card_locale_def
        inject_card_route_def is_card_invocation_def has_key_def dispatch_node_def then_complete_def in_world_def sbind_def
        get_state_def starts_with_def may_have_partial_effect_on_failure_def Let_def)
  then obtain st where "node_turn ex_engine (Some run) ?ctx ex_menu ''menu'' ''ask'' (resumed_state (ex_snapshot ''menu'' ''ask'') JNull, w) =
      (Inl (terminal_flow_error m, run_outputs ex_engine st), False, st, w')" by blast
  moreover have "tx_node_id (en_tx ex_engine) ''ask''" by (simp add: ex_engine_def ex_text_def)
  ultimately show ?thesis
    by (auto simp: drive_flow_def drive_flow_tracked_def drive_walk.simps node_id_from_str_def MAX_STEPS_PER_TURN_def sret_def terminal_after_effects_def)
qed

lemma terminal_flow_error_unmarked: "\<not> is_after_effects_failure (terminal_flow_error m)"
  by (simp add: is_after_effects_failure_def terminal_flow_error_def error_causes.simps)

theorem flow_call_pause_repeats:
  "\<exists>m. resume_surfacing_failures ex_engine (ex_ctx\<lparr>fc_flow_id := ''menu''\<rparr>) (ex_snapshot ''menu'' ''ask'') JNull (n, Suc t) =
     (Inl (terminal_flow_error m), (Suc n, Suc (Suc t)))"
proof -
  let ?ctx = "ex_ctx\<lparr>fc_flow_id := ''menu''\<rparr>" and ?sp = "ex_snapshot ''menu'' ''ask''"
  obtain x reason sp where
    "execute_with_options ex_engine (nested_flow ex_engine 15) (ex_ctx\<lparr>fc_flow_id := ''sub'', fc_max_attempts := 1\<rparr>) JNull None False (n, Suc t)
       = (Inr x, (Suc n, Suc (Suc t)))" "fx_status x = FlowWaiting reason sp"
    using ex_sub_nested by blast
  from ex_menu_fails [of "\<lambda>ctx input. execute_with_options ex_engine (nested_flow ex_engine 15) ctx input None False", OF this]
  obtain m outs where "drive_flow ex_engine (top_nested ex_engine) ?ctx ex_menu (resumed_state ?sp JNull) (Some ''ask'') ''menu'' (n, Suc t) =
      (Inl (terminal_flow_error m, outs), (Suc n, Suc (Suc t)))"
    unfolding top_nested_Some by blast
  moreover have "get_or_load_flow ex_engine (fc_pack_id ?ctx) (resume_flow_id ?sp) (n, Suc t) = (Inr ex_menu, (n, Suc t))"
    "sp_pack_id ?sp = fc_pack_id ?ctx" "sp_next_node ?sp = ''ask''" "resume_flow_id ?sp = ''menu''"
    by (simp_all add: get_or_load_flow_def sret_def ex_engine_def ex_snapshot_def ex_ctx_def resume_flow_id_def unwrap_or_def)
  ultimately show ?thesis
    by (auto simp: resume_surfacing_failures_def resume_with_options_def terminal_flow_error_unmarked)
qed

subsection \<open>Conversations and approvals\<close>

text \<open>
  A conversational agent that is not parked yet parks for the next message after each turn, except after
  every hundredth, when the walk goes on, and the count of its parks is the number of turns modulo hundred. A
  turn that ends the conversation goes on and clears the count.
\<close>

theorem conversation_cap:
  assumes "list_all not_ended outs" "park_count i st = 0" "\<not> not_ended out"
  shows "(\<forall>k < length outs. fst (conversation_turns i reason outs st) ! k =
        (if Suc k mod 100 = 0 then Continue else LoopHere (Some reason))) \<and>
      park_count i (snd (conversation_turns i reason outs st)) = length outs mod 100 \<and>
      snd (fst (conversation_turn i reason out (snd (conversation_turns i reason outs st)))) = Continue \<and>
      park_count i (snd (conversation_turn i reason out (snd (conversation_turns i reason outs st)))) = 0"
  using conversation_turns_controls [OF assms(1), of i st] conversation_turns_count [OF assms(1), of i st]
    conversation_turn_ended [OF assms(3)] assms(2)
  by (simp add: MAX_PARK_TURNS_def)

definition ex_ended :: node_output where
  "ex_ended = node_output_new (JObject [(''terminated_by'', JString ''conversation_ended'')])"

theorem conversation_cap_witness:
  "fst (conversation_turns ''a'' ''r'' (replicate 150 (node_output_new JNull)) (exec_state_new JNull)) ! 99 = Continue \<and>
   fst (conversation_turns ''a'' ''r'' (replicate 150 (node_output_new JNull)) (exec_state_new JNull)) ! 98 = LoopHere (Some ''r'') \<and>
   park_count ''a'' (snd (conversation_turns ''a'' ''r'' (replicate 150 (node_output_new JNull)) (exec_state_new JNull))) = 50"
proof -
  have "list_all not_ended (replicate 150 (node_output_new JNull))"
    by (simp add: list_all_iff not_ended_def node_output_new_def)
  moreover have "park_count ''a'' (exec_state_new JNull) = 0" by (simp add: park_count_def exec_state_new_def hm_get_or_def hm_simps)
  moreover have "\<not> not_ended ex_ended" by (simp add: ex_ended_def not_ended_def node_output_new_def)
  ultimately show ?thesis using conversation_cap [of "replicate 150 (node_output_new JNull)" "''a''" "exec_state_new JNull" ex_ended "''r''"]
    by simp
qed

text \<open>
  C17. An approval gate that parks has drawn a token from 32 random bytes. While no response carries the token, or
  another one with its digest, every further turn leaves the gate parked and the world as it was, so
  nothing is dispatched again; a response that carries it decides the gate with that response and ends the park.
\<close>

theorem approval_gate:
  fixes en :: "'w flow_engine" and w :: 'w
  defines "token \<equiv> b64_encode (en_b64 en) (fst (en_random en 32 w))"
  assumes "parked_at st i = None"
    and "execute_approval_call en ctx i target payload (st, w) = (Inr (out, AwaitHere reason c), st1, w1)"
    and "list_all (\<lambda>(entry, payload). \<not> carries_token (en_sha en) token entry) es"
  shows "\<exists>p st2. pa_token_fingerprint p = Some (fingerprint (en_sha en) token) \<and>
      gate_turns en ctx i target es (st1, w1) = (replicate (length es) (Inr still_parked), st2, w1) \<and> parked_at st2 i = Some p \<and>
      (\<forall>entry payload'. carries_token (en_sha en) token entry \<longrightarrow>
        (\<exists>st3. execute_approval_call en ctx i target payload' (st2\<lparr>xs_entry := entry\<rparr>, w1) = (Inr (decided entry), st3, w1) \<and>
          parked_at st3 i = None))"
proof -
  obtain p where p: "parked_at st1 i = Some p" "pa_token_fingerprint p = Some (fingerprint (en_sha en) token)"
    using gate_parks [OF assms(2,3)] by (auto simp: token_def)
  obtain st2 where turns: "gate_turns en ctx i target es (st1, w1) = (replicate (length es) (Inr still_parked), st2, w1)"
    and st2: "parked_at st2 i = Some p"
    using gate_stays_parked [OF p assms(4)] by blast
  have "\<exists>st3. execute_approval_call en ctx i target payload' (st2\<lparr>xs_entry := entry\<rparr>, w1) = (Inr (decided entry), st3, w1) \<and>
      parked_at st3 i = None" if "carries_token (en_sha en) token entry" for entry payload'
    using token_gate_turn [OF st2 p(2)] that by simp
  with p(2) turns st2 show ?thesis by blast
qed

definition ex_asked :: json where
  "ex_asked = JObject [(''input'', JObject [])]"

lemma ex_gate_parks:
  "\<exists>out reason c st1 w1. execute_approval_call ex_engine ex_ctx ''gate'' ''ops'' ex_asked (exec_state_new JNull, (0, 0)) =
     (Inr (out, AwaitHere reason c), st1, w1)"
  by (simp add: execute_approval_call_def dispatch_approval_def run_state_def modify_state_def in_world_def pure_io_def sbind_def sret_def
      exec_state_new_def take_approval_await_def hm_simps ex_asked_def approval_requires_human_def unwrap_or_def
      execute_remote_dispatch_with_token_def dispatch_handler_for_def APPROVAL_RUNTIME_def dispatch_nonce_def
      remote_outcome_def ex_engine_def Let_def)

definition ex_token :: string where
  "ex_token = bytes_hex (replicate 32 (CHR ''r''))"

definition ex_answer :: json where
  "ex_answer = JObject [(''ok'', JBool True), (''output'', JObject [(''decision_token'', JString ex_token)])]"

lemma ex_answer_carries: "carries_token (\<lambda>s. s) ex_token ex_answer"
proof -
  have "list_all visible (bytes_hex (replicate n (CHR ''r'')))" for n
    by (induction n) (simp_all add: nibble_char_def visible_def)
  then have "str_trim ex_token = ex_token" unfolding ex_token_def by (rule str_trim_visible)
  moreover have "bytes_hex s = [] \<longleftrightarrow> s = []" for s by (cases s) simp_all
  then have "ex_token \<noteq> []" by (simp add: ex_token_def)
  ultimately show ?thesis
    by (simp add: carries_token_def entry_is_approval_response_def token_from_response_def ex_answer_def)
qed

definition ex_turns :: "(json \<times> json) list" where
  "ex_turns = [(JNull, ex_asked), (JObject [(''ok'', JBool True)], ex_asked)]"

theorem approval_gate_witness:
  "\<exists>st1 st2 st3 w1 :: nat \<times> nat. gate_turns ex_engine ex_ctx ''gate'' ''ops'' ex_turns (st1, w1) = (replicate (length ex_turns) (Inr still_parked), st2, w1) \<and>
     execute_approval_call ex_engine ex_ctx ''gate'' ''ops'' ex_asked (st2\<lparr>xs_entry := ex_answer\<rparr>, w1) = (Inr (decided ex_answer), st3, w1)"
proof -
  obtain out reason c st1 and w1 :: "nat \<times> nat" where
    call: "execute_approval_call ex_engine ex_ctx ''gate'' ''ops'' ex_asked (exec_state_new JNull, (0, 0)) =
      (Inr (out, AwaitHere reason c), st1, w1)"
    using ex_gate_parks by blast
  have unparked: "parked_at (exec_state_new JNull) ''gate'' = None"
    by (simp add: parked_at_def take_approval_await_def exec_state_new_def hm_simps)
  have token: "b64_encode (en_b64 ex_engine) (fst (en_random ex_engine 32 (0, 0))) = ex_token" "en_sha ex_engine = (\<lambda>s. s)"
    by (simp_all add: ex_engine_def ex_hex_def ex_token_def)
  have "list_all (\<lambda>(entry, payload). \<not> carries_token (\<lambda>s. s) ex_token entry) ex_turns"
    by (simp add: ex_turns_def carries_token_def entry_is_approval_response_def token_from_response_def)
  from approval_gate [OF unparked call, unfolded token, OF this] ex_answer_carries show ?thesis by blast
qed

subsection \<open>The way back of a dispatch\<close>

text \<open>
  C23. The envelope that resumes a dispatch is rebuilt from its correlation id. The session hint is the
  canonical one, possibly with an endpoint before it, and holds no marker of the correlation syntax; tenant,
  pack and flow are plain tokens, provider, channel and endpoint have no colon, and the nonce is a valid one.
  Then the envelope has the hint, the pack, the flow, the endpoint, the provider, the channel and the reply scope of
  the dispatch, with any characters in the thread and message ids and with a conversation that may have colons;
  the user comes back when the conversation has no colon. A conversation id that holds a marker is cut off,
  see \<open>marker_conversation_hint\<close>.
\<close>

theorem resume_envelope_roundtrip:
  assumes hint: "hint = namespaced_hint endpoint (canonical_session_hint tenant provider channel (Some (rs_conversation sc)) user)"
    and env: "env = build_resume_envelope b64 (dispatch_correlation b64 hint pack flow (Some sc) nonce) output"
    and "base64_laws b64" "is_plain_token tenant" "colon_free (unwrap_or ''provider'' provider)" "colon_free (unwrap_or ''channel'' channel)"
    and "\<And>e. endpoint = Some e \<Longrightarrow> colon_free e" "bare_hint hint"
    and "is_plain_token pack" "is_plain_token flow" "nonce_ok nonce" "rs_conversation sc \<noteq> []"
  shows "re_session_hint env = hint \<and> re_pack_id env = Some pack \<and> re_flow_id env = flow \<and> re_endpoint_id env = endpoint \<and>
    re_provider env = Some (unwrap_or ''provider'' provider) \<and> re_channel env = Some (unwrap_or ''channel'' channel) \<and> re_conversation env = Some (rs_conversation sc) \<and>
    re_reply_scope env = Some (sc\<lparr>rs_thread := nonempty (rs_thread sc), rs_reply_to := nonempty (rs_reply_to sc)\<rparr>) \<and>
    (colon_free (rs_conversation sc) \<longrightarrow> re_user env = Some (unwrap_or ''user'' user)) \<and> re_payload env = output"
proof -
  have "colon_free tenant" using assms(4) by (auto simp: is_plain_token_def dest: plain_colon_free)
  then have parts: "list_all colon_free [tenant, unwrap_or ''provider'' provider, unwrap_or ''channel'' channel]" using assms(5,6) by simp
  note part = hint_parts [OF parts, of "rs_conversation sc" user]
  have split: "split_endpoint_prefix hint = (endpoint, canonical_session_hint tenant provider channel (Some (rs_conversation sc)) user)"
    unfolding hint by (rule namespaced_canonical [OF assms(4,7)])
  note parse = parse_dispatch [OF assms(3,8-11), of sc]
  have conv: "or_else (nonempty (marked_conversation sc))
      (get_part 3 (splitn_colon 5 (canonical_session_hint tenant provider channel (Some (rs_conversation sc)) user))) = Some (rs_conversation sc)"
  proof (cases "is_plain_token (rs_conversation sc)")
    case True
    then have "colon_free (rs_conversation sc)" by (auto simp: is_plain_token_def dest: plain_colon_free)
    with True part(3) show ?thesis by (simp add: marked_conversation_def nonempty_def)
  next
    case False
    with assms(12) show ?thesis by (simp add: marked_conversation_def nonempty_def)
  qed
  show ?thesis
    using split parse part conv by (simp add: env build_resume_envelope_def Let_def)
qed

definition ex_scope :: reply_scope where
  "ex_scope = \<lparr>rs_conversation = ''19:meeting'', rs_thread = Some ''t'', rs_reply_to = None\<rparr>"

lemma ex_hint:
  "namespaced_hint (Some ''e'') (canonical_session_hint ''acme'' (Some ''web'') (Some ''c'') (Some (rs_conversation ex_scope)) (Some ''u'')) =
     ''ep=e::acme:web:c:19:meeting:u''"
  by (simp add: namespaced_hint_def canonical_session_hint_def starts_with_def ex_scope_def unwrap_or_def)

theorem resume_envelope_roundtrip_witness:
  "re_session_hint (build_resume_envelope ex_hex (dispatch_correlation ex_hex ''ep=e::acme:web:c:19:meeting:u'' ''p'' ''f'' (Some ex_scope) None) JNull)
     = ''ep=e::acme:web:c:19:meeting:u''"
proof -
  have "is_plain_token ''acme''" "is_plain_token ''p''" "is_plain_token ''f''"
    by (simp_all add: is_plain_token_def plain_char_simps less_eq_char_def)
  moreover have "bare_hint ''ep=e::acme:web:c:19:meeting:u''" by (simp add: bare_hint_def MARKERS_def starts_with_def)
  moreover have "colon_free (unwrap_or ''provider'' (Some ''web''))" "colon_free (unwrap_or ''channel'' (Some ''c''))" "colon_free e"
    if "Some ''e'' = Some e" for e using that by (auto simp: unwrap_or_def)
  moreover have "nonce_ok None" "rs_conversation ex_scope \<noteq> []" by (simp_all add: nonce_ok_def ex_scope_def)
  ultimately show ?thesis
    using resume_envelope_roundtrip [OF ex_hint [symmetric] refl ex_base64, of "''p''" "''f''" None JNull] by simp
qed

text \<open>
  The limits of the scheme: a conversation with a colon makes the rest of it part of the user, and one that
  holds a marker is cut out of the hint when the id is built, so that the envelope names another session.
\<close>

lemma colon_conversation_user:
  "re_user (build_resume_envelope ex_hex (dispatch_correlation ex_hex (canonical_session_hint ''acme'' (Some ''web'') (Some ''c'') (Some ''19:meeting'') (Some ''u'')) ''p'' ''f'' (Some ex_scope) None) JNull)
     = Some ''meeting:u''"
  by code_simp

lemma marker_conversation_hint:
  "re_session_hint (build_resume_envelope ex_hex (dispatch_correlation ex_hex (canonical_session_hint ''acme'' (Some ''web'') (Some ''c'') (Some ''a::reply=b'') (Some ''u'')) ''p'' ''f'' None None) JNull)
     = ''acme:web:c:a''"
  by code_simp

end
