(* ===== verification/Guardrail.thy ===== *)
theory Guardrail
  imports Tenant
begin

section \<open>Guardrails\<close>

text \<open>
  \<open>crates/greentic-aw-runtime/src/guardrail.rs\<close> (the chain of guardrails of a turn, its assembly and its run) and
  \<open>attachment_guard.rs\<close> (the same chain over the text of a document). The capability registry and the
  evaluator, a WASM component, are parameters; the evaluator acts on an outside world and may panic. Then:
  a chain passes content only when no enforcing guardrail denied it and no mandatory one failed, and a
  document is shown only when in addition no guardrail at all failed on it.
\<close>

subsection \<open>Data\<close>

datatype guardrail_direction = Inbound | Outbound

record guardrail_deny_info =
  gd_code :: string
  gd_message :: string
  gd_details :: "string option"

datatype guardrail_verdict = Accept | Update string | Deny guardrail_deny_info

datatype guardrail_mode = Enforce | Monitor

record guardrail_ref =
  gf_cap_id :: string
  gf_offer_id :: "string option"
  gf_config :: json
  gf_mode :: guardrail_mode

record guardrail_input =
  gi_direction :: guardrail_direction
  gi_content :: string
  gi_agent_id :: string
  gi_session_id :: string
  gi_tenant_id :: string
  gi_env_id :: string
  gi_context :: "string option"

record resolved_guardrail =
  gr_extension_id :: string
  gr_cap_id :: string
  gr_mandatory :: bool
  gr_mode :: guardrail_mode
  gr_config :: json

record guardrail_run_ctx =
  gx_agent_id :: string
  gx_session_id :: string
  gx_tenant_id :: string
  gx_env_id :: string

datatype guardrail_action = BlockedAction | MonitoredAction

record guardrail_observation =
  go_cap_id :: string
  go_extension_id :: string
  go_direction :: guardrail_direction
  go_code :: string
  go_action :: guardrail_action

datatype chain_outcome =
    PassOutcome string "guardrail_observation list"
  | DeniedOutcome guardrail_deny_info guardrail_direction guardrail_observation

text \<open>What an evaluation comes to: a verdict, an error, or a panic that unwinds the chain.\<close>

datatype evaluation = Evaluated guardrail_verdict | EvalFailed string | EvalPanicked

type_synonym 'w evaluator = "string \<Rightarrow> guardrail_input \<Rightarrow> 'w \<Rightarrow> evaluation \<times> 'w"

subsection \<open>Assembly\<close>

text \<open>
  \<open>binding\<close> is what the registry resolves a capability id to; it has none for an id that does not parse.
\<close>

definition resolve_one :: "(string \<Rightarrow> string option) \<Rightarrow> guardrail_ref \<Rightarrow> bool \<Rightarrow> resolved_guardrail option" where
  "resolve_one binding r is_mandatory =
     (case binding (gf_cap_id r) of
        None \<Rightarrow> None
      | Some ext \<Rightarrow> Some \<lparr>gr_extension_id = ext, gr_cap_id = gf_cap_id r, gr_mandatory = is_mandatory,
                         gr_mode = gf_mode r, gr_config = gf_config r\<rparr>)"

fun resolve_mandatory ::
  "(string \<Rightarrow> string option) \<Rightarrow> guardrail_ref list \<Rightarrow> resolved_guardrail list \<times> string list" where
  "resolve_mandatory binding [] = ([], [])"
| "resolve_mandatory binding (r # rs) =
     (let (chain, unresolved) = resolve_mandatory binding rs in
      case resolve_one binding r True of
        Some g \<Rightarrow> (g # chain, unresolved)
      | None \<Rightarrow> (chain, gf_cap_id r # unresolved))"

definition assemble_chain ::
  "(string \<Rightarrow> string option) \<Rightarrow> guardrail_ref list \<Rightarrow> guardrail_ref list \<Rightarrow>
     (string list, resolved_guardrail list) result" where
  "assemble_chain binding mandatory agent =
     (let (chain, unresolved) = resolve_mandatory binding mandatory in
      if unresolved \<noteq> [] then Inl unresolved
      else Inr (chain @ List.map_filter (\<lambda>r. resolve_one binding r False) agent))"

subsection \<open>Running the chain\<close>

definition internal_deny :: guardrail_deny_info where
  "internal_deny =
     \<lparr>gd_code = ''internal'', gd_message = ''A required guardrail is unavailable.'', gd_details = None\<rparr>"

definition guardrail_context :: "(json \<Rightarrow> string) \<Rightarrow> resolved_guardrail \<Rightarrow> string option" where
  "guardrail_context to_text g = (if gr_config g = JNull then None else Some (to_text (gr_config g)))"

definition guardrail_input_of ::
  "(json \<Rightarrow> string) \<Rightarrow> guardrail_direction \<Rightarrow> guardrail_run_ctx \<Rightarrow> resolved_guardrail \<Rightarrow> string \<Rightarrow> guardrail_input" where
  "guardrail_input_of to_text d ctx g content =
     \<lparr>gi_direction = d, gi_content = content, gi_agent_id = gx_agent_id ctx,
      gi_session_id = gx_session_id ctx, gi_tenant_id = gx_tenant_id ctx, gi_env_id = gx_env_id ctx,
      gi_context = guardrail_context to_text g\<rparr>"

definition observed ::
  "resolved_guardrail \<Rightarrow> guardrail_direction \<Rightarrow> string \<Rightarrow> guardrail_action \<Rightarrow> guardrail_observation" where
  "observed g d code action =
     \<lparr>go_cap_id = gr_cap_id g, go_extension_id = gr_extension_id g, go_direction = d, go_code = code,
      go_action = action\<rparr>"

text \<open>The loop of \<open>run_chain\<close>; no outcome stands for a panic.\<close>

fun run_chain_from ::
  "(json \<Rightarrow> string) \<Rightarrow> 'w evaluator \<Rightarrow> guardrail_direction \<Rightarrow> guardrail_run_ctx \<Rightarrow> resolved_guardrail list \<Rightarrow>
     string \<Rightarrow> guardrail_observation list \<Rightarrow> 'w \<Rightarrow> chain_outcome option \<times> 'w" where
  "run_chain_from to_text evaluate d ctx [] content obs w = (Some (PassOutcome content obs), w)"
| "run_chain_from to_text evaluate d ctx (g # gs) content obs w =
     (case evaluate (gr_extension_id g) (guardrail_input_of to_text d ctx g content) w of
        (EvalPanicked, w') \<Rightarrow> (None, w')
      | (Evaluated Accept, w') \<Rightarrow> run_chain_from to_text evaluate d ctx gs content obs w'
      | (Evaluated (Update new), w') \<Rightarrow> run_chain_from to_text evaluate d ctx gs new obs w'
      | (Evaluated (Deny info), w') \<Rightarrow>
          (case gr_mode g of
             Enforce \<Rightarrow> (Some (DeniedOutcome info d (observed g d (gd_code info) BlockedAction)), w')
           | Monitor \<Rightarrow> run_chain_from to_text evaluate d ctx gs content
                         (obs @ [observed g d (gd_code info) MonitoredAction]) w')
      | (EvalFailed e, w') \<Rightarrow>
          (if gr_mandatory g
           then (Some (DeniedOutcome internal_deny d (observed g d (gd_code internal_deny) BlockedAction)), w')
           else run_chain_from to_text evaluate d ctx gs content obs w'))"

definition run_chain ::
  "(json \<Rightarrow> string) \<Rightarrow> 'w evaluator \<Rightarrow> guardrail_direction \<Rightarrow> guardrail_run_ctx \<Rightarrow> resolved_guardrail list \<Rightarrow>
     string \<Rightarrow> 'w \<Rightarrow> chain_outcome option \<times> 'w" where
  "run_chain to_text evaluate d ctx chain content w = run_chain_from to_text evaluate d ctx chain content [] w"

definition run_chain_blocking ::
  "(json \<Rightarrow> string) \<Rightarrow> 'w evaluator \<Rightarrow> guardrail_direction \<Rightarrow> guardrail_run_ctx \<Rightarrow> resolved_guardrail list \<Rightarrow>
     string \<Rightarrow> 'w \<Rightarrow> chain_outcome \<times> 'w" where
  "run_chain_blocking to_text evaluate d ctx chain content w =
     (case run_chain to_text evaluate d ctx chain content w of
        (Some out, w') \<Rightarrow> (out, w')
      | (None, w') \<Rightarrow>
          (DeniedOutcome internal_deny d
             \<lparr>go_cap_id = [], go_extension_id = [], go_direction = d, go_code = gd_code internal_deny,
              go_action = BlockedAction\<rparr>, w'))"

subsection \<open>Documents\<close>

datatype attachment_text_verdict = AllowText string | WithholdText

text \<open>
  \<open>ErrorTracking\<close> remembers that an evaluation failed: the flag is a part of the world the tracked
  evaluator acts on. A panic of the evaluator unwinds through \<open>check\<close>.
\<close>

definition error_tracking :: "'w evaluator \<Rightarrow> (bool \<times> 'w) evaluator" where
  "error_tracking evaluate ext input bw =
     (let (v, w') = evaluate ext input (snd bw) in
      (v, (case v of EvalFailed _ \<Rightarrow> True | _ \<Rightarrow> fst bw, w')))"

definition inbound_guard_for_turn :: "resolved_guardrail list \<Rightarrow> guardrail_run_ctx \<Rightarrow>
     (resolved_guardrail list \<times> guardrail_run_ctx) option" where
  "inbound_guard_for_turn chain ctx = (if chain = [] then None else Some (chain, ctx))"

definition attachment_check ::
  "(json \<Rightarrow> string) \<Rightarrow> 'w evaluator \<Rightarrow> resolved_guardrail list \<times> guardrail_run_ctx \<Rightarrow> string \<Rightarrow> 'w \<Rightarrow>
     attachment_text_verdict option \<times> 'w" where
  "attachment_check to_text evaluate guard text w =
     (case run_chain to_text (error_tracking evaluate) Inbound (snd guard) (fst guard) text (False, w) of
        (None, bw) \<Rightarrow> (None, snd bw)
      | (Some (PassOutcome content obs), bw) \<Rightarrow>
          (Some (if fst bw then WithholdText else AllowText content), snd bw)
      | (Some (DeniedOutcome info d ob), bw) \<Rightarrow> (Some WithholdText, snd bw))"

subsection \<open>What a chain lets through\<close>

text \<open>
  The reference: the content after each guardrail, and whether every guardrail let the turn go on. The
  verdicts are those the evaluator gives as the chain runs.
\<close>

inductive chain_passes ::
  "(json \<Rightarrow> string) \<Rightarrow> 'w evaluator \<Rightarrow> guardrail_direction \<Rightarrow> guardrail_run_ctx \<Rightarrow> resolved_guardrail list \<Rightarrow>
     string \<Rightarrow> 'w \<Rightarrow> string \<Rightarrow> 'w \<Rightarrow> bool"
  for to_text evaluate d ctx where
  finish: "chain_passes to_text evaluate d ctx [] c w c w"
| accept: "evaluate (gr_extension_id g) (guardrail_input_of to_text d ctx g c) w = (Evaluated Accept, w1) \<Longrightarrow>
    chain_passes to_text evaluate d ctx gs c w1 c' w' \<Longrightarrow> chain_passes to_text evaluate d ctx (g # gs) c w c' w'"
| update: "evaluate (gr_extension_id g) (guardrail_input_of to_text d ctx g c) w = (Evaluated (Update n), w1) \<Longrightarrow>
    chain_passes to_text evaluate d ctx gs n w1 c' w' \<Longrightarrow> chain_passes to_text evaluate d ctx (g # gs) c w c' w'"
| monitor: "evaluate (gr_extension_id g) (guardrail_input_of to_text d ctx g c) w = (Evaluated (Deny i), w1) \<Longrightarrow>
    gr_mode g = Monitor \<Longrightarrow>
    chain_passes to_text evaluate d ctx gs c w1 c' w' \<Longrightarrow> chain_passes to_text evaluate d ctx (g # gs) c w c' w'"
| failed: "evaluate (gr_extension_id g) (guardrail_input_of to_text d ctx g c) w = (EvalFailed e, w1) \<Longrightarrow>
    \<not> gr_mandatory g \<Longrightarrow>
    chain_passes to_text evaluate d ctx gs c w1 c' w' \<Longrightarrow> chain_passes to_text evaluate d ctx (g # gs) c w c' w'"

inductive_cases chain_passes_NilE: "chain_passes to_text evaluate d ctx [] c w c' w'"
inductive_cases chain_passes_ConsE: "chain_passes to_text evaluate d ctx (g # gs) c w c' w'"

lemma run_chain_from_passes:
  "run_chain_from to_text evaluate d ctx gs c obs w = (Some (PassOutcome c' obs'), w') \<Longrightarrow>
   chain_passes to_text evaluate d ctx gs c w c' w'"
proof (induction gs arbitrary: c obs w)
  case Nil
  then show ?case by (auto intro: chain_passes.finish)
next
  case (Cons g gs)
  obtain v w1 where v: "evaluate (gr_extension_id g) (guardrail_input_of to_text d ctx g c) w = (v, w1)"
    by fastforce
  show ?case
  proof (cases v)
    case (Evaluated x)
    with Cons v show ?thesis
      by (cases x) (auto split: guardrail_mode.splits intro: chain_passes.intros)
  qed (use Cons v in \<open>auto split: if_splits intro: chain_passes.intros\<close>)
qed

lemma passes_run_chain_from:
  "chain_passes to_text evaluate d ctx gs c w c' w' \<Longrightarrow>
   \<exists>obs'. run_chain_from to_text evaluate d ctx gs c obs w = (Some (PassOutcome c' obs'), w')"
  by (induction arbitrary: obs rule: chain_passes.induct) auto

lemma chain_blocking_passes:
  "(\<exists>obs. run_chain_blocking to_text evaluate d ctx gs c w = (PassOutcome c' obs, w')) \<longleftrightarrow>
   chain_passes to_text evaluate d ctx gs c w c' w'"
proof
  assume "\<exists>obs. run_chain_blocking to_text evaluate d ctx gs c w = (PassOutcome c' obs, w')"
  then obtain obs where "run_chain_from to_text evaluate d ctx gs c [] w = (Some (PassOutcome c' obs), w')"
    by (auto simp: run_chain_blocking_def run_chain_def split: prod.splits option.splits)
  then show "chain_passes to_text evaluate d ctx gs c w c' w'" by (rule run_chain_from_passes)
next
  assume "chain_passes to_text evaluate d ctx gs c w c' w'"
  from passes_run_chain_from [OF this, of "[]"]
  show "\<exists>obs. run_chain_blocking to_text evaluate d ctx gs c w = (PassOutcome c' obs, w')"
    by (auto simp: run_chain_blocking_def run_chain_def)
qed

text \<open>Under the tracking evaluator the flag is up exactly when some evaluation failed.\<close>

lemma tracked_passes:
  assumes "chain_passes to_text (error_tracking evaluate) d ctx gs c bw c' bw'"
  shows "chain_passes to_text evaluate d ctx gs c (snd bw) c' (snd bw') \<and> (fst bw \<longrightarrow> fst bw')"
  using assms
  by (induction rule: chain_passes.induct)
    (auto simp: error_tracking_def Let_def split: prod.splits evaluation.splits intro: chain_passes.intros)

text \<open>The chain in which every guardrail is mandatory.\<close>

definition all_mandatory :: "resolved_guardrail list \<Rightarrow> resolved_guardrail list" where
  "all_mandatory gs = map (\<lambda>g. g\<lparr>gr_mandatory := True\<rparr>) gs"

lemma input_of_mandatory [simp]:
  "guardrail_input_of to_text d ctx (g\<lparr>gr_mandatory := b\<rparr>) c = guardrail_input_of to_text d ctx g c"
  by (simp add: guardrail_input_of_def guardrail_context_def)

lemma unflagged_strict:
  assumes "chain_passes to_text (error_tracking evaluate) d ctx gs c bw c' bw'" and "\<not> fst bw'"
  shows "chain_passes to_text evaluate d ctx (all_mandatory gs) c (snd bw) c' (snd bw')"
  using assms
proof (induction rule: chain_passes.induct)
  case (failed g c bw e bw1 gs c' bw')
  then have "fst bw1" by (auto simp: error_tracking_def Let_def split: prod.splits evaluation.splits)
  with tracked_passes [OF failed.hyps(3)] failed.prems show ?case by simp
qed (auto simp: all_mandatory_def error_tracking_def Let_def split: prod.splits evaluation.splits
      intro: chain_passes.intros)

lemma mandatory_all: "chain_passes to_text evaluate d ctx (all_mandatory gs) c w c' w' \<Longrightarrow>
    chain_passes to_text (error_tracking evaluate) d ctx gs c (b, w) c' (b, w')"
proof (induction gs arbitrary: c w)
  case Nil
  then show ?case by (auto simp: all_mandatory_def elim: chain_passes_NilE intro: chain_passes.finish)
next
  case (Cons g gs)
  from Cons.prems have "chain_passes to_text evaluate d ctx (g\<lparr>gr_mandatory := True\<rparr> # all_mandatory gs) c w c' w'"
    by (simp add: all_mandatory_def)
  then show ?case
    by (rule chain_passes_ConsE)
      (auto dest!: Cons.IH simp: error_tracking_def intro: chain_passes.intros)
qed

lemma attachment_shown_iff:
  "attachment_check to_text evaluate (gs, ctx) text w = (Some (AllowText t), w') \<longleftrightarrow>
   chain_passes to_text evaluate Inbound ctx (all_mandatory gs) text w t w'"
proof
  assume "attachment_check to_text evaluate (gs, ctx) text w = (Some (AllowText t), w')"
  then obtain obs where "run_chain_from to_text (error_tracking evaluate) Inbound ctx gs text [] (False, w) =
      (Some (PassOutcome t obs), (False, w'))"
    by (auto simp: attachment_check_def run_chain_def split: prod.splits option.splits chain_outcome.splits if_splits)
  from unflagged_strict [OF run_chain_from_passes [OF this]]
  show "chain_passes to_text evaluate Inbound ctx (all_mandatory gs) text w t w'" by simp
next
  assume "chain_passes to_text evaluate Inbound ctx (all_mandatory gs) text w t w'"
  from passes_run_chain_from [OF mandatory_all [OF this, of False], of "[]"]
  show "attachment_check to_text evaluate (gs, ctx) text w = (Some (AllowText t), w')"
    by (auto simp: attachment_check_def run_chain_def)
qed

subsection \<open>What assembly promises\<close>

lemma resolve_mandatory_facts:
  "resolve_mandatory binding rs = (chain, unresolved) \<Longrightarrow>
   unresolved = filter (\<lambda>c. binding c = None) (map gf_cap_id rs) \<and>
   (unresolved = [] \<longrightarrow> map gr_cap_id chain = map gf_cap_id rs) \<and> list_all gr_mandatory chain"
  by (induction rs arbitrary: chain unresolved)
    (auto simp: resolve_one_def split: prod.splits option.splits)

lemma assemble_chain_facts:
  "assemble_chain binding mandatory agent =
     (if \<exists>r \<in> set mandatory. binding (gf_cap_id r) = None
      then Inl (filter (\<lambda>c. binding c = None) (map gf_cap_id mandatory))
      else Inr (fst (resolve_mandatory binding mandatory) @ List.map_filter (\<lambda>r. resolve_one binding r False) agent))"
proof -
  obtain chain un where r: "resolve_mandatory binding mandatory = (chain, un)" by fastforce
  with resolve_mandatory_facts [OF r] show ?thesis
    by (auto simp: assemble_chain_def filter_empty_conv)
qed

end
