(* ===== verification/Agent_Types.thy ===== *)
theory Agent_Types
  imports Guardrail Run_Trace Parked_Tool
begin

section \<open>What an agent is made of\<close>

text \<open>
  The configuration of an agent (\<open>crates/greentic-aw-runtime/src/config.rs\<close>), the errors a turn ends with (\<open>error.rs\<close>),
  its input and output (\<open>lib.rs\<close>), and the language-model interface with its retries (\<open>llm.rs\<close>). A duration is a
  number of nanoseconds. The lemmas bound the number of requests a retried call makes.
\<close>

subsection \<open>Configuration\<close>

record tool_ref =
  tl_extension_id :: string
  tl_tool_name :: string
  tl_description :: "string option"
  tl_input_schema :: "json option"
  tl_usage_note :: "string option"

record llm_provider_ref =
  lp_provider :: string
  lp_model :: string
  lp_credential_ref :: "string option"

record memory_provider_ref =
  mp_provider :: string
  mp_capability :: string
  mp_params :: "(string \<times> json) list"
  mp_credential_ref :: "string option"

record memory_settings =
  ms_short_term :: "memory_provider_ref option"
  ms_long_term :: "memory_provider_ref option"

record knowledge_settings =
  ks_knowledge :: "memory_provider_ref option"
  ks_embedding :: "memory_provider_ref option"
  ks_top_k :: nat

definition default_knowledge_top_k :: nat where "default_knowledge_top_k = 5"

record agent_limits =
  al_max_iter :: nat
  al_timeout :: nat
  al_max_history_turns :: nat
  al_llm_retry_attempts :: nat
  al_llm_retry_backoff :: nat
  al_provider_failure_message :: "string option"
  al_daily_token_cap_per_tenant :: "nat option"

definition default_limits :: agent_limits where
  "default_limits =
     \<lparr>al_max_iter = 8, al_timeout = 60 * 1000000000, al_max_history_turns = 20,
      al_llm_retry_attempts = 3, al_llm_retry_backoff = 250 * 1000000,
      al_provider_failure_message = None, al_daily_token_cap_per_tenant = None\<rparr>"

record agent_config =
  ag_agent_id :: string
  ag_system_prompt :: string
  ag_tools :: "tool_ref list"
  ag_guardrails :: "guardrail_ref list"
  ag_llm :: llm_provider_ref
  ag_limits :: agent_limits
  ag_memory :: "memory_settings option"
  ag_knowledge :: "knowledge_settings option"
  ag_conversational :: bool
  ag_on_text_while_parked :: parked_text_policy
  ag_opening_message :: "string option"

subsection \<open>Errors\<close>

datatype llm_error =
    ServiceUnavailable
  | BadRequest string
  | RateLimited string
  | TransportError string
  | LlmDecodeError string

fun is_retryable :: "llm_error \<Rightarrow> bool" where
  "is_retryable ServiceUnavailable = True"
| "is_retryable (RateLimited _) = True"
| "is_retryable (TransportError _) = True"
| "is_retryable _ = False"

datatype config_error = AgentNotFound string | Misconfigured string | ConfigInternal string

datatype agent_error =
    AgStateLoad state_error
  | AgStateUnavailable state_error
  | AgLlmProviderUnavailable
  | AgLlm llm_error
  | AgConfig config_error
  | AgToolDispatch string
  | AgTokenBudgetExceeded
  | AgCreditBudgetExceeded
  | AgLockTimeout
  | AgLockLost
  | AgMaxIterations
  | AgTimeout
  | AgInternal string
  | AgGuardrailDenied guardrail_direction string string "string option"

fun from_state_error :: "state_error \<Rightarrow> agent_error" where
  "from_state_error RedisError = AgStateUnavailable RedisError"
| "from_state_error other = AgStateLoad other"

fun user_facing_message :: "agent_limits \<Rightarrow> agent_error \<Rightarrow> string" where
  "user_facing_message l AgLlmProviderUnavailable =
     (case al_provider_failure_message l of Some m \<Rightarrow> m
      | None \<Rightarrow> ''I'' @ [CHR 0x27] @ ''m having trouble reaching my reasoning system. Please try again in a moment.'')"
| "user_facing_message l (AgLlm _) =
     (case al_provider_failure_message l of Some m \<Rightarrow> m
      | None \<Rightarrow> ''I'' @ [CHR 0x27] @ ''m having trouble reaching my reasoning system. Please try again in a moment.'')"
| "user_facing_message l AgTokenBudgetExceeded =
     ''Daily usage limit reached. Please try again tomorrow or contact your administrator.''"
| "user_facing_message l AgCreditBudgetExceeded =
     ''Your account has no remaining credits. Please top up your balance or contact your administrator.''"
| "user_facing_message l AgTimeout =
     ''I'' @ [CHR 0x27] @ ''m taking longer than expected '' @ [CHR 0xE2, CHR 0x80, CHR 0x94] @
     '' please try a simpler request.''"
| "user_facing_message l AgMaxIterations =
     ''I wasn'' @ [CHR 0x27] @ ''t able to finish reasoning about that. Could you rephrase or break it into smaller steps?''"
| "user_facing_message l _ = ''Something went wrong. Please try again.''"

subsection \<open>Input and output of a turn\<close>

record agent_input =
  ai_text :: string
  ai_conversational :: bool
  ai_resume_payload :: "json option"
  ai_attachments :: "attachment_ref list"

record step_usage =
  us_tokens_in :: nat
  us_tokens_out :: nat
  us_iterations :: nat

record retrieved_chunk =
  rk_text :: string
  rk_score :: "64 word"
  rk_doc_id :: "string option"
  rk_chunk_index :: "nat option"
  rk_metadata :: "(string \<times> json) list"

datatype agent_step =
    LlmCallStep string nat nat
  | ToolCallStep tool_step
  | ToolCallReusedStep string string
  | ToolCallBlockedStep string string
  | ReplyStep string
  | KnowledgeRetrievalStep "retrieved_chunk list"

record agent_output =
  ao_reply :: string
  ao_trail :: "agent_step list"
  ao_terminated_by :: termination_reason
  ao_usage :: step_usage
  ao_pending_presentation :: "json option"
  ao_side_turn :: bool

subsection \<open>The language model\<close>

definition MALFORMED_ARGS_KEY :: string where "MALFORMED_ARGS_KEY = ''__malformed_arguments''"

record llm_tool_schema =
  sm_extension_id :: string
  sm_tool_name :: string
  sm_description :: string
  sm_parameters :: json

record llm_request =
  rq_system_prompt :: string
  rq_history :: "chat_message list"
  rq_tools :: "llm_tool_schema list"
  rq_provider :: llm_provider_ref
  rq_attachment_guard :: "(resolved_guardrail list \<times> guardrail_run_ctx) option"

record llm_response =
  lr_content :: "string option"
  lr_tool_calls :: "tool_call_record list"
  lr_tokens_in :: nat
  lr_tokens_out :: nat

text \<open>
  A backend acts on an outside world. A streaming completion also says whether any text reached the
  consumer; \<open>sleep\<close> is the pause between two attempts.
\<close>

record 'w llm_backend =
  lb_is_retrying :: bool
  lb_complete :: "llm_request \<Rightarrow> 'w \<Rightarrow> (llm_error, llm_response) result \<times> 'w"
  lb_streaming :: "llm_request \<Rightarrow> 'w \<Rightarrow> (bool \<times> (llm_error, llm_response) result) \<times> 'w"
  lb_sleep :: "nat \<Rightarrow> 'w \<Rightarrow> 'w"

definition DURATION_MAX :: nat where "DURATION_MAX = (2 ^ 64 - 1) * 1000000000 + 999999999"

definition sat_double :: "nat \<Rightarrow> nat" where
  "sat_double d = min (2 * d) DURATION_MAX"

text \<open>
  The attempts of \<open>RetryingLlmBackend\<close>. One loop serves both ways of completing: \<open>ask\<close> says whether text has
  been emitted, which \<open>complete\<close> never does, and after that an error is final.
\<close>

primrec llm_retry_loop ::
  "nat \<Rightarrow> ('w \<Rightarrow> (bool \<times> (llm_error, 'a) result) \<times> 'w) \<Rightarrow> (nat \<Rightarrow> 'w \<Rightarrow> 'w) \<Rightarrow> nat \<Rightarrow> nat \<Rightarrow> nat \<Rightarrow>
     llm_error option \<Rightarrow> 'w \<Rightarrow> (llm_error, 'a) result \<times> 'w" where
  "llm_retry_loop 0 ask sleep attempts attempt delay last_err w =
     (Inl (case last_err of Some e \<Rightarrow> e | None \<Rightarrow> ServiceUnavailable), w)"
| "llm_retry_loop (Suc n) ask sleep attempts attempt delay last_err w =
     (case ask w of
        ((out, Inr r), w1) \<Rightarrow> (Inr r, w1)
      | ((out, Inl e), w1) \<Rightarrow>
          (if \<not> is_retryable e then (Inl e, w1)
           else if out then (Inl e, w1)
           else if attempt + 1 < attempts
           then llm_retry_loop n ask sleep attempts (attempt + 1) (sat_double delay) (Some e) (sleep delay w1)
           else llm_retry_loop n ask sleep attempts (attempt + 1) delay (Some e) w1))"

definition retrying_complete ::
  "'w llm_backend \<Rightarrow> agent_limits \<Rightarrow> llm_request \<Rightarrow> 'w \<Rightarrow> (llm_error, llm_response) result \<times> 'w" where
  "retrying_complete b l req w =
     (if lb_is_retrying b then lb_complete b req w
      else llm_retry_loop (max 1 (al_llm_retry_attempts l)) (\<lambda>w. let (r, w') = lb_complete b req w in ((False, r), w'))
             (lb_sleep b) (al_llm_retry_attempts l) 0 (al_llm_retry_backoff l) None w)"

definition retrying_streaming ::
  "'w llm_backend \<Rightarrow> agent_limits \<Rightarrow> llm_request \<Rightarrow> 'w \<Rightarrow> (llm_error, llm_response) result \<times> 'w" where
  "retrying_streaming b l req w =
     (if lb_is_retrying b then (let ((out, r), w') = lb_streaming b req w in (r, w'))
      else llm_retry_loop (max 1 (al_llm_retry_attempts l)) (lb_streaming b req)
             (lb_sleep b) (al_llm_retry_attempts l) 0 (al_llm_retry_backoff l) None w)"

text \<open>The call the loop makes: it streams only for an observer that consumes the text.\<close>

definition llm_call ::
  "'w llm_backend \<Rightarrow> agent_limits \<Rightarrow> bool \<Rightarrow> llm_request \<Rightarrow> 'w \<Rightarrow> (llm_error, llm_response) result \<times> 'w" where
  "llm_call b l wants_streaming req w =
     (if wants_streaming then retrying_streaming b l req w else retrying_complete b l req w)"

subsection \<open>How often the model is asked\<close>

text \<open>
  A quantity that one request raises by at most one and a pause leaves alone is raised by at most the
  number of attempts.
\<close>

lemma llm_retry_loop_bound:
  assumes "\<And>w r w1. ask w = (r, w1) \<Longrightarrow> f w1 \<le> Suc (f w)" and "\<And>d w. f (sleep d w) = f w"
    and "llm_retry_loop n ask sleep attempts attempt delay last_err w = (r, w')"
  shows "f w' \<le> f w + n"
  using assms(3)
proof (induction n arbitrary: attempt delay last_err w)
  case (Suc n)
  obtain x w1 where x: "ask w = (x, w1)" by fastforce
  with assms(1) have f: "f w1 \<le> Suc (f w)" by blast
  obtain out y where y: "x = (out, y)" by fastforce
  from Suc.prems x y f assms(2) show ?case
    by (auto split: sum.splits if_splits dest!: Suc.IH)
qed simp

lemma llm_call_bound:
  assumes "\<And>q w r w1. lb_complete b q w = (r, w1) \<Longrightarrow> f w1 \<le> Suc (f w)"
    and "\<And>q w r w1. lb_streaming b q w = (r, w1) \<Longrightarrow> f w1 \<le> Suc (f w)" and "\<And>d w. f (lb_sleep b d w) = f w"
    and "llm_call b l s req w = (r, w')"
  shows "f w' \<le> f w + max 1 (al_llm_retry_attempts l)"
proof -
  let ?n = "max 1 (al_llm_retry_attempts l)"
  have single: "f w1 \<le> Suc (f w) \<Longrightarrow> f w1 \<le> f w + ?n" for w1 by simp
  show ?thesis
  proof (cases "lb_is_retrying b")
    case True
    with assms(4) show ?thesis
      by (auto simp: llm_call_def retrying_streaming_def retrying_complete_def split: if_splits prod.splits
          intro!: single dest: assms(1,2))
  next
    case False
    have c: "f w1 \<le> Suc (f w)"
      if "(let (r, w') = lb_complete b req w in ((False, r), w')) = (x, w1)" for w x w1
      using that by (auto split: prod.splits dest: assms(1))
    show ?thesis
    proof (cases s)
      case True
      with False assms(4) show ?thesis
        by (auto simp: llm_call_def retrying_streaming_def
            intro!: llm_retry_loop_bound [where f = f, OF assms(2) assms(3)])
    next
      case s: False
      with False assms(4) have "llm_retry_loop ?n (\<lambda>w. let (r, w') = lb_complete b req w in ((False, r), w')) (lb_sleep b)
          (al_llm_retry_attempts l) 0 (al_llm_retry_backoff l) None w = (r, w')"
        by (simp add: llm_call_def retrying_complete_def)
      note bound = llm_retry_loop_bound [where f = f and sleep = "lb_sleep b" and
          ask = "\<lambda>w. let (r, w') = lb_complete b req w in ((False, r), w')", OF _ assms(3) this]
      show ?thesis by (rule bound) (rule c)
    qed
  qed
qed

end
