(* ===== verification/Tool_Calls.thy ===== *)
theory Tool_Calls
  imports Agent_Types
begin

section \<open>The tools of an agent\<close>

text \<open>
  \<open>crates/greentic-aw-runtime/src/tools.rs\<close>, \<open>tool_call_frame.rs\<close> and \<open>tool_session.rs\<close>: which tools the model is shown and which
  of the declared ones are missing, the dispatch of a call to the catalog its extension id names, the caller that is
  stamped on its arguments, the ids of calls and the ledger of results. The extension runtime and the catalogs are
  parameters that act on an outside world; \<open>to_text\<close> and \<open>parse\<close> write and read JSON text. A dispatch that fails
  carries the text of its \<open>AgentError::ToolDispatch\<close>.
\<close>

subsection \<open>Catalogs\<close>

definition strip_prefix :: "string \<Rightarrow> string \<Rightarrow> string option" where
  "strip_prefix p s = (if starts_with p s then Some (drop (length p) s) else None)"

record tool_entry =
  te_description :: string
  te_parameters :: json

record tool_def =
  td_name :: string
  td_description :: string
  td_input_schema_json :: string

record host_call_context =
  hc_tenant :: "string option"
  hc_user_email :: "string option"

datatype invoke_outcome = InvokeOk string | InvokeFailed string | InvokePanicked string

record 'w ext_runtime =
  ex_list_tools :: "string \<Rightarrow> (string, tool_def list) result"
  ex_invoke_tool_ctx :: "string \<Rightarrow> string \<Rightarrow> string \<Rightarrow> host_call_context \<Rightarrow> 'w \<Rightarrow> invoke_outcome \<times> 'w"

text \<open>The route of an MCP tool, where there is one, is what calling it does for a tenant.\<close>

record 'w mcp_catalog =
  mc_entry :: "string \<Rightarrow> string \<Rightarrow> tool_entry option"
  mc_route :: "string \<Rightarrow> string \<Rightarrow> (string \<Rightarrow> tenant_context \<Rightarrow> 'w \<Rightarrow> json \<times> 'w) option"
  mc_server_error :: "string \<Rightarrow> string option"

record 'w keyed_catalog =
  kc_entry :: "string \<Rightarrow> string \<Rightarrow> tool_entry option"
  kc_dispatch :: "string \<Rightarrow> string \<Rightarrow> string \<Rightarrow> 'w \<Rightarrow> json \<times> 'w"

record tool_call_frame =
  fr_session_id :: "string option"
  fr_call_id :: string
  fr_caller :: verified_caller

text \<open>A nested flow or playbook runs under a run context, and an interactive flow under the frame of its call.\<close>

record 'w flow_catalog =
  fw_entry :: "string \<Rightarrow> tool_entry option"
  fw_dispatch :: "run_context option \<Rightarrow> string \<Rightarrow> string \<Rightarrow> 'w \<Rightarrow> json \<times> 'w"
  fw_interactive :: "run_context option \<Rightarrow> tool_call_frame \<Rightarrow> string \<Rightarrow> string \<Rightarrow> 'w \<Rightarrow> flow_invoke_outcome \<times> 'w"
  fw_resume :: "run_context option \<Rightarrow> tool_call_frame \<Rightarrow> string \<Rightarrow> json \<Rightarrow> json \<Rightarrow> 'w \<Rightarrow> flow_invoke_outcome \<times> 'w"

record 'w playbook_catalog =
  pb_entry :: "string \<Rightarrow> tool_entry option"
  pb_dispatch :: "run_context option \<Rightarrow> string \<Rightarrow> string \<Rightarrow> 'w \<Rightarrow> json \<times> 'w"

record 'w a2a_catalog =
  aa_is_configured :: "string \<Rightarrow> bool"
  aa_entry :: "string \<Rightarrow> tool_entry option"
  aa_dispatch :: "string \<Rightarrow> json \<Rightarrow> 'w \<Rightarrow> json \<times> 'w"
  aa_dispatch_in_conversation ::
    "string \<Rightarrow> json \<Rightarrow> tenant_context \<Rightarrow> a2a_continuations \<Rightarrow> instant \<Rightarrow> 'w \<Rightarrow> (json \<times> a2a_continuations) \<times> 'w"

record 'w tool_catalogs =
  cg_mcp :: "'w mcp_catalog option"
  cg_components :: "'w keyed_catalog option"
  cg_flows :: "'w flow_catalog option"
  cg_playbooks :: "'w playbook_catalog option"
  cg_sorla :: "'w keyed_catalog option"
  cg_a2a :: "'w a2a_catalog option"

subsection \<open>What the model is shown\<close>

definition with_usage_note :: "string \<Rightarrow> string option \<Rightarrow> string" where
  "with_usage_note description note =
     (case note of
        Some n \<Rightarrow> if trim_white n \<noteq> [] then description @ [CHR 0x0A, CHR 0x0A] @ trim_white n else description
      | None \<Rightarrow> description)"

definition is_tool_allowed :: "tool_call_record \<Rightarrow> tool_ref list \<Rightarrow> bool" where
  "is_tool_allowed call allowed =
     list_ex (\<lambda>t. tl_extension_id t = tk_extension_id call \<and> tl_tool_name t = tk_tool_name call) allowed"

definition schema_of :: "tool_ref \<Rightarrow> string \<Rightarrow> json \<Rightarrow> llm_tool_schema" where
  "schema_of t description parameters =
     \<lparr>sm_extension_id = tl_extension_id t, sm_tool_name = tl_tool_name t,
      sm_description = with_usage_note description (tl_usage_note t), sm_parameters = parameters\<rparr>"

definition schema_from :: "tool_ref \<Rightarrow> string option \<Rightarrow> json option \<Rightarrow> llm_tool_schema option" where
  "schema_from t description parameters =
     (case (description, parameters) of
        (Some d, Some p) \<Rightarrow> Some (schema_of t d p)
      | _ \<Rightarrow> None)"

definition catalog_first :: "tool_ref \<Rightarrow> tool_entry option \<Rightarrow> llm_tool_schema option" where
  "catalog_first t entry =
     schema_from t (or_else (map_option te_description entry) (tl_description t))
       (or_else (map_option te_parameters entry) (tl_input_schema t))"

definition contract_first :: "tool_ref \<Rightarrow> tool_entry option \<Rightarrow> llm_tool_schema option" where
  "contract_first t entry =
     schema_from t (or_else (tl_description t) (map_option te_description entry))
       (or_else (tl_input_schema t) (map_option te_parameters entry))"

definition catalog_only :: "tool_ref \<Rightarrow> tool_entry option \<Rightarrow> llm_tool_schema option" where
  "catalog_only t entry = map_option (\<lambda>e. schema_of t (te_description e) (te_parameters e)) entry"

definition configured_a2a :: "'w tool_catalogs \<Rightarrow> string \<Rightarrow> 'w a2a_catalog option" where
  "configured_a2a cat agent_id =
     Option.bind (cg_a2a cat) (\<lambda>c. if aa_is_configured c agent_id then Some c else None)"

definition extension_schema ::
  "(string \<Rightarrow> (string, json) result) \<Rightarrow> 'w ext_runtime \<Rightarrow> tool_ref \<Rightarrow> llm_tool_schema option" where
  "extension_schema parse ext t =
     (case ex_list_tools ext (tl_extension_id t) of
        Inl e \<Rightarrow> None
      | Inr defs \<Rightarrow>
          map_option (\<lambda>d. schema_of t (td_description d)
            (case parse (td_input_schema_json d) of
               Inr v \<Rightarrow> v
             | Inl e \<Rightarrow> json_obj [(''type'', JString ''object''), (''properties'', JObject [])]))
          (find (\<lambda>d. td_name d = tl_tool_name t) defs))"

text \<open>One turn of the loop of \<open>list_tools_for_llm\<close>.\<close>

definition tool_schema_for ::
  "(string \<Rightarrow> (string, json) result) \<Rightarrow> 'w ext_runtime \<Rightarrow> 'w tool_catalogs \<Rightarrow> tool_ref \<Rightarrow> llm_tool_schema option" where
  "tool_schema_for parse ext cat t =
     (let x = tl_extension_id t; n = tl_tool_name t in
      case strip_prefix ''mcp:'' x of
        Some server \<Rightarrow> catalog_first t (Option.bind (cg_mcp cat) (\<lambda>c. mc_entry c server n))
      | None \<Rightarrow>
      (case strip_prefix ''component:'' x of
        Some r \<Rightarrow> catalog_only t (Option.bind (cg_components cat) (\<lambda>c. kc_entry c r n))
      | None \<Rightarrow>
      (case strip_prefix ''sorla:'' x of
        Some pack \<Rightarrow> catalog_only t (Option.bind (cg_sorla cat) (\<lambda>c. kc_entry c pack n))
      | None \<Rightarrow>
      (case strip_prefix ''flow:'' x of
        Some r \<Rightarrow> contract_first t (Option.bind (cg_flows cat) (\<lambda>c. fw_entry c r))
      | None \<Rightarrow>
      (case strip_prefix ''playbook:'' x of
        Some p \<Rightarrow> catalog_first t (Option.bind (cg_playbooks cat) (\<lambda>c. pb_entry c p))
      | None \<Rightarrow>
      (case strip_prefix ''a2a:'' x of
        Some agent \<Rightarrow>
          (case configured_a2a cat agent of
             None \<Rightarrow> None
           | Some c \<Rightarrow> schema_from t (or_else (map_option te_description (aa_entry c agent)) (tl_description t))
                        (tl_input_schema t))
      | None \<Rightarrow> extension_schema parse ext t))))))"

definition list_tools_for_llm ::
  "(string \<Rightarrow> (string, json) result) \<Rightarrow> 'w ext_runtime \<Rightarrow> 'w tool_catalogs \<Rightarrow> tool_ref list \<Rightarrow> llm_tool_schema list" where
  "list_tools_for_llm parse ext cat allowed = List.map_filter (tool_schema_for parse ext cat) allowed"

record missing_tool =
  mt_extension_id :: string
  mt_tool_name :: string
  mt_reason :: string

definition missing_unless :: "bool \<Rightarrow> string \<Rightarrow> string option" where
  "missing_unless ok reason = (if ok then None else Some reason)"

text \<open>One turn of the loop of \<open>missing_tools\<close>: the reason, when the tool counts as missing.\<close>

definition missing_reason ::
  "'w ext_runtime \<Rightarrow> 'w tool_catalogs \<Rightarrow> tool_ref \<Rightarrow> string option" where
  "missing_reason ext cat t =
     (let x = tl_extension_id t; n = tl_tool_name t in
      case strip_prefix ''mcp:'' x of
        Some server \<Rightarrow>
          missing_unless
            (Option.bind (cg_mcp cat) (\<lambda>c. mc_entry c server n) \<noteq> None \<or>
             tl_description t \<noteq> None \<and> tl_input_schema t \<noteq> None)
            ''MCP tool not found in the tenant catalog, and the agent config carries no description + input schema for it''
      | None \<Rightarrow>
      (case strip_prefix ''component:'' x of
        Some r \<Rightarrow> missing_unless (Option.bind (cg_components cat) (\<lambda>c. kc_entry c r n) \<noteq> None)
                   ''component tool not found in the catalog''
      | None \<Rightarrow>
      (case strip_prefix ''sorla:'' x of
        Some pack \<Rightarrow> missing_unless (Option.bind (cg_sorla cat) (\<lambda>c. kc_entry c pack n) \<noteq> None)
                      ''sorla tool not found in the catalog''
      | None \<Rightarrow>
      (case strip_prefix ''flow:'' x of
        Some r \<Rightarrow> missing_unless (Option.bind (cg_flows cat) (\<lambda>c. fw_entry c r) \<noteq> None)
                   ''flow tool not found in the catalog''
      | None \<Rightarrow>
      (case strip_prefix ''playbook:'' x of
        Some p \<Rightarrow> missing_unless (Option.bind (cg_playbooks cat) (\<lambda>c. pb_entry c p) \<noteq> None)
                   ''playbook tool not found in the catalog''
      | None \<Rightarrow>
      (case strip_prefix ''a2a:'' x of
        Some agent \<Rightarrow>
          (case configured_a2a cat agent of
             None \<Rightarrow> Some ''a2a agent is not configured for this worker''
           | Some c \<Rightarrow>
               missing_unless ((aa_entry c agent \<noteq> None \<or> tl_description t \<noteq> None) \<and> tl_input_schema t \<noteq> None)
                 ''a2a agent card unavailable, or the agent config carries no input schema for it'')
      | None \<Rightarrow>
          (case ex_list_tools ext x of
             Inr defs \<Rightarrow> missing_unless (list_ex (\<lambda>d. td_name d = n) defs)
                          ''extension loaded but does not expose this tool''
           | Inl e \<Rightarrow> Some (''extension failed to load: '' @ e))))))))"

definition missing_tools :: "'w ext_runtime \<Rightarrow> 'w tool_catalogs \<Rightarrow> tool_ref list \<Rightarrow> missing_tool list" where
  "missing_tools ext cat allowed =
     List.map_filter (\<lambda>t. map_option (\<lambda>r. \<lparr>mt_extension_id = tl_extension_id t, mt_tool_name = tl_tool_name t, mt_reason = r\<rparr>)
       (missing_reason ext cat t)) allowed"

subsection \<open>Stamping the caller\<close>

definition host_ctx_from_tenant :: "tenant_context \<Rightarrow> host_call_context" where
  "host_ctx_from_tenant t =
     \<lparr>hc_tenant = (if tc_tenant_id t = [] then None else Some (tc_tenant_id t)), hc_user_email = tc_user_email t\<rparr>"

definition CALLER_ARG_KEY :: string where "CALLER_ARG_KEY = ''_caller''"

text \<open>The serialised caller: absent options and an empty list of groups are left out.\<close>

definition opt_field :: "string \<Rightarrow> string option \<Rightarrow> (string \<times> json) list" where
  "opt_field k v = (case v of None \<Rightarrow> [] | Some s \<Rightarrow> [(k, JString s)])"

definition caller_value :: "verified_caller \<Rightarrow> json" where
  "caller_value c =
     json_obj ((''user_verified'', JBool (vc_user_verified c)) # opt_field ''sub'' (vc_sub c) @
       (if vc_groups c = [] then [] else [(''groups'', JArray (map JString (vc_groups c)))]) @
       opt_field ''team'' (vc_team c) @ opt_field ''role'' (vc_role c) @ opt_field ''iss'' (vc_iss c))"

fun stamp_caller :: "json \<Rightarrow> verified_caller \<Rightarrow> json" where
  "stamp_caller (JObject fs) c = JObject (bt_insert CALLER_ARG_KEY (caller_value c) fs)"
| "stamp_caller v c = v"

definition frame_new :: "string option \<Rightarrow> string \<Rightarrow> tool_call_frame" where
  "frame_new session_id call_id =
     \<lparr>fr_session_id = Option.bind session_id (\<lambda>s. if s \<noteq> [] then Some s else None), fr_call_id = call_id,
      fr_caller = anonymous_caller\<rparr>"

definition frame_with_caller :: "verified_caller \<Rightarrow> tool_call_frame \<Rightarrow> tool_call_frame" where
  "frame_with_caller c f = f\<lparr>fr_caller := c\<rparr>"

subsection \<open>Dispatch\<close>

definition quoted :: "string \<Rightarrow> string" where
  "quoted s = [CHR 0x27] @ s @ [CHR 0x27]"

definition error_value :: "string \<Rightarrow> json" where
  "error_value msg = json_obj [(''error'', JString msg)]"

definition dispatch_mcp ::
  "(json \<Rightarrow> string) \<Rightarrow> 'w mcp_catalog option \<Rightarrow> tenant_context \<Rightarrow> tool_call_record \<Rightarrow> string \<Rightarrow> 'w \<Rightarrow> json \<times> 'w" where
  "dispatch_mcp to_text mcp t call server w =
     (case Option.bind mcp (\<lambda>c. mc_route c server (tk_tool_name call)) of
        Some route \<Rightarrow> route (to_text (tk_args call)) t w
      | None \<Rightarrow>
          (error_value
             (case Option.bind mcp (\<lambda>c. mc_server_error c server) of
                Some detail \<Rightarrow> ''mcp tool '' @ quoted (server @ ''/'' @ tk_tool_name call) @
                  '' is unavailable: mcp server '' @ quoted server @ '' has '' @ detail
              | None \<Rightarrow> ''unknown mcp tool '' @ quoted (server @ ''/'' @ tk_tool_name call)), w))"

definition dispatch_extension ::
  "(json \<Rightarrow> string) \<Rightarrow> (string \<Rightarrow> (string, json) result) \<Rightarrow> 'w ext_runtime \<Rightarrow> tenant_context \<Rightarrow> tool_call_record \<Rightarrow> 'w \<Rightarrow>
     (string, json) result \<times> 'w" where
  "dispatch_extension to_text parse ext t call w =
     (let (raw, w') = ex_invoke_tool_ctx ext (tk_extension_id call) (tk_tool_name call)
                        (to_text (stamp_caller (tk_args call) (caller_or_anonymous t))) (host_ctx_from_tenant t) w in
      (case raw of
         InvokePanicked e \<Rightarrow> Inl (''join: '' @ e)
       | InvokeFailed e \<Rightarrow> Inl (''invoke: '' @ e)
       | InvokeOk text \<Rightarrow> map_err (\<lambda>e. ''decode: '' @ e) (parse text), w'))"

text \<open>
  \<open>dispatch_tool_call_in_conversation\<close>: the continuations are those of the caller's conversation, when it has one, and
  \<open>current\<close> is the run context the call is made in.
\<close>

definition dispatch_tool_call_in_conversation ::
  "(json \<Rightarrow> string) \<Rightarrow> (string \<Rightarrow> (string, json) result) \<Rightarrow> 'w ext_runtime \<Rightarrow> 'w tool_catalogs \<Rightarrow> run_context option \<Rightarrow>
     instant \<Rightarrow> tenant_context \<Rightarrow> tool_call_record \<Rightarrow> a2a_continuations option \<Rightarrow> 'w \<Rightarrow>
     (string, json) result \<times> a2a_continuations option \<times> 'w" where
  "dispatch_tool_call_in_conversation to_text parse ext cat current now t call conts w =
     (let x = tk_extension_id call; n = tk_tool_name call; args = to_text (tk_args call);
          value = (\<lambda>(v, w'). (Inr v, conts, w')) in
      case strip_prefix ''mcp:'' x of
        Some server \<Rightarrow> value (dispatch_mcp to_text (cg_mcp cat) t call server w)
      | None \<Rightarrow>
      (case strip_prefix ''component:'' x of
        Some r \<Rightarrow>
          value (case cg_components cat of
                   Some c \<Rightarrow> kc_dispatch c r n (to_text (stamp_caller (tk_args call) (caller_or_anonymous t))) w
                 | None \<Rightarrow> (error_value (''unknown component tool '' @ quoted (r @ ''/'' @ n)), w))
      | None \<Rightarrow>
      (case strip_prefix ''sorla:'' x of
        Some pack \<Rightarrow>
          value (case cg_sorla cat of
                   Some c \<Rightarrow> kc_dispatch c pack n args w
                 | None \<Rightarrow> (error_value (''unknown sorla tool '' @ quoted (pack @ ''/'' @ n)), w))
      | None \<Rightarrow>
      (case strip_prefix ''flow:'' x of
        Some r \<Rightarrow>
          value (case cg_flows cat of
                   Some c \<Rightarrow> fw_dispatch c (under_binding x current) r args w
                 | None \<Rightarrow> (error_value (''unknown flow tool '' @ quoted r), w))
      | None \<Rightarrow>
      (case strip_prefix ''playbook:'' x of
        Some p \<Rightarrow>
          value (case cg_playbooks cat of
                   Some c \<Rightarrow> pb_dispatch c (under_binding x current) p args w
                 | None \<Rightarrow> (error_value (''unknown playbook tool '' @ quoted p), w))
      | None \<Rightarrow>
      (case strip_prefix ''a2a:'' x of
        Some agent \<Rightarrow>
          (case cg_a2a cat of
             Some c \<Rightarrow>
               (case conts of
                  Some m \<Rightarrow>
                    (let ((v, m'), w') = aa_dispatch_in_conversation c agent (tk_args call) t m now w in
                     (Inr v, Some m', w'))
                | None \<Rightarrow> value (aa_dispatch c agent (tk_args call) w))
           | None \<Rightarrow>
               (Inr (json_obj [(''status'', JString ''error''), (''agent'', JString agent),
                       (''error'', JString (''unknown a2a agent '' @ quoted agent))]), conts, w))
      | None \<Rightarrow>
          (let (r, w') = dispatch_extension to_text parse ext t call w in (r, conts, w'))))))))"

definition dispatch_tool_call ::
  "(json \<Rightarrow> string) \<Rightarrow> (string \<Rightarrow> (string, json) result) \<Rightarrow> 'w ext_runtime \<Rightarrow> 'w tool_catalogs \<Rightarrow> run_context option \<Rightarrow>
     instant \<Rightarrow> tenant_context \<Rightarrow> tool_call_record \<Rightarrow> 'w \<Rightarrow> (string, json) result \<times> 'w" where
  "dispatch_tool_call to_text parse ext cat current now t call w =
     (let (r, m, w') = dispatch_tool_call_in_conversation to_text parse ext (cat\<lparr>cg_playbooks := None\<rparr>) current now t call
                         None w in (r, w'))"

datatype flow_tool_dispatch = FlowValue json | FlowSuspend json json

definition dispatch_flow_tool_interactive ::
  "(json \<Rightarrow> string) \<Rightarrow> 'w flow_catalog option \<Rightarrow> run_context option \<Rightarrow> tool_call_frame \<Rightarrow> string \<Rightarrow> tool_call_record \<Rightarrow>
     'w \<Rightarrow> flow_tool_dispatch \<times> 'w" where
  "dispatch_flow_tool_interactive to_text flows current frame flow_ref call w =
     (case flows of
        None \<Rightarrow> (FlowValue (error_value (''unknown flow tool '' @ quoted flow_ref)), w)
      | Some c \<Rightarrow>
          (case fw_interactive c (under_binding (tk_extension_id call) current) frame flow_ref (to_text (tk_args call)) w of
             (Completed v, w') \<Rightarrow> (FlowValue v, w')
           | (Waiting snapshot presentation, w') \<Rightarrow> (FlowSuspend snapshot presentation, w')))"


subsection \<open>Ids of calls\<close>

text \<open>
  \<open>uuid\<close> is the sequence of fresh identifiers the loop draws; a call whose id is blank or taken gets the next one.
\<close>

fun unique_ids_from :: "(nat \<Rightarrow> string) \<Rightarrow> nat \<Rightarrow> string list \<Rightarrow> tool_call_record list \<Rightarrow> tool_call_record list" where
  "unique_ids_from uuid k seen [] = []"
| "unique_ids_from uuid k seen (c # cs) =
     (if trim_white (tk_call_id c) = [] \<or> tk_call_id c \<in> set seen
      then (let i = ''call_'' @ uuid k in c\<lparr>tk_call_id := i\<rparr> # unique_ids_from uuid (Suc k) (i # seen) cs)
      else c # unique_ids_from uuid k (tk_call_id c # seen) cs)"

definition ensure_unique_call_ids :: "(nat \<Rightarrow> string) \<Rightarrow> tool_call_record list \<Rightarrow> tool_call_record list" where
  "ensure_unique_call_ids uuid calls = unique_ids_from uuid 0 [] calls"

definition hex_lower :: "nat \<Rightarrow> char" where
  "hex_lower d = char_of (if d < 10 then 48 + d else 87 + d :: nat)"

definition hex_byte :: "byte \<Rightarrow> string" where
  "hex_byte b = [hex_lower (unat b div 16), hex_lower (unat b mod 16)]"

text \<open>\<open>sha256\<close> is the digest function of the \<open>sha2\<close> crate.\<close>

definition ledger_call_id :: "(string \<Rightarrow> byte list) \<Rightarrow> (json \<Rightarrow> string) \<Rightarrow> tool_call_record \<Rightarrow> string" where
  "ledger_call_id sha256 to_text call =
     tk_call_id call @ '':'' @
     concat (map hex_byte (take 8 (sha256
       (tk_extension_id call @ [CHR 0x1F] @ tk_tool_name call @ [CHR 0x1F] @ to_text (tk_args call)))))"

definition is_error_result :: "json \<Rightarrow> bool" where
  "is_error_result result \<longleftrightarrow> json_get ''error'' result \<noteq> None"

subsection \<open>The ledger of results\<close>

record 'w tool_ledger =
  lg_get :: "tenant_context \<Rightarrow> string \<Rightarrow> string \<Rightarrow> 'w \<Rightarrow> (state_error, json option) result \<times> 'w"
  lg_record :: "tenant_context \<Rightarrow> string \<Rightarrow> string \<Rightarrow> json \<Rightarrow> 'w \<Rightarrow> (state_error, unit) result \<times> 'w"

definition ledger_key :: "tenant_context \<Rightarrow> string \<Rightarrow> string \<Rightarrow> string" where
  "ledger_key t session_id call_id =
     key_prefix t @ '':'' @ show_nat (length session_id) @ ''.'' @ session_id @ '':tool_calls:'' @
     show_nat (length call_id) @ ''.'' @ call_id"

definition KV_LEDGER_TTL :: nat where "KV_LEDGER_TTL = 7 * 24 * 60 * 60 * 1000"

record 'b ledger_codec =
  lc_to :: "json \<Rightarrow> 'b option"
  lc_from :: "'b \<Rightarrow> json option"

definition kv_ledger_get ::
  "('s, 'b) kv_ops \<Rightarrow> 'b ledger_codec \<Rightarrow> nat \<Rightarrow> tenant_context \<Rightarrow> string \<Rightarrow> string \<Rightarrow> ('s, state_error, json option) st_res" where
  "kv_ledger_get kv lc now t session_id call_id =
     sbind (kv_get kv now (ledger_key t session_id call_id)) (\<lambda>v.
       case v of
         None \<Rightarrow> sret None
       | Some bytes \<Rightarrow> sbind (sres (ok_or DecodeError (lc_from lc bytes))) (\<lambda>result. sret (Some result)))"

definition kv_ledger_record ::
  "('s, 'b) kv_ops \<Rightarrow> 'b ledger_codec \<Rightarrow> nat \<Rightarrow> tenant_context \<Rightarrow> string \<Rightarrow> string \<Rightarrow> json \<Rightarrow> ('s, state_error, unit) st_res" where
  "kv_ledger_record kv lc now t session_id call_id result =
     sbind (sres (ok_or DecodeError (lc_to lc result))) (\<lambda>bytes.
       kv_set_ex kv now (ledger_key t session_id call_id) bytes KV_LEDGER_TTL)"

subsection \<open>Calls from outside the agent loop\<close>

datatype tool_session_error = SessionNotAllowed string string string | SessionDispatch string

text \<open>
  \<open>ToolSession::call_with_id\<close>; \<open>decode\<close> is the inverse of the wire names. The continuations are those of the session. The
  dispatch runs within the frame of the call, which the tools of a catalog can read.
\<close>

definition session_ledger_hit ::
  "'w tool_ledger \<Rightarrow> tenant_context \<Rightarrow> string option \<Rightarrow> string \<Rightarrow> 'w \<Rightarrow> json option \<times> 'w" where
  "session_ledger_hit lg t session_id call_id w =
     (case session_id of
        None \<Rightarrow> (None, w)
      | Some s \<Rightarrow>
          (case lg_get lg t s call_id w of
             (Inr cached, w') \<Rightarrow> (cached, w')
           | (Inl e, w') \<Rightarrow> (None, w')))"

definition session_call_with_id ::
  "(json \<Rightarrow> string) \<Rightarrow> (string \<Rightarrow> (string, json) result) \<Rightarrow> 'w ext_runtime \<Rightarrow> (tool_call_frame \<Rightarrow> 'w tool_catalogs) \<Rightarrow> 'w tool_ledger \<Rightarrow>
     (string \<Rightarrow> string \<times> string) \<Rightarrow> run_context option \<Rightarrow> instant \<Rightarrow> tenant_context \<Rightarrow> tool_ref list \<Rightarrow> string option \<Rightarrow>
     string \<Rightarrow> string \<Rightarrow> json \<Rightarrow> a2a_continuations \<Rightarrow> 'w \<Rightarrow>
     (tool_session_error, json) result \<times> a2a_continuations \<times> 'w" where
  "session_call_with_id to_text parse ext cat lg decode current now t allowed session_id call_id wire_name args a2a w =
     (let call = \<lparr>tk_call_id = call_id, tk_extension_id = fst (decode wire_name), tk_tool_name = snd (decode wire_name),
                  tk_args = args\<rparr> in
      if \<not> is_tool_allowed call allowed
      then (Inl (SessionNotAllowed wire_name (tk_extension_id call) (tk_tool_name call)), a2a, w)
      else
        (case session_ledger_hit lg t session_id call_id w of
           (Some cached, w1) \<Rightarrow> (Inr cached, a2a, w1)
         | (None, w1) \<Rightarrow>
             (case dispatch_tool_call_in_conversation to_text parse ext
                     (cat (frame_with_caller (caller_or_anonymous t) (frame_new session_id call_id))) current now t call (Some a2a) w1 of
                (Inl e, m, w2) \<Rightarrow> (Inl (SessionDispatch e), case m of Some a \<Rightarrow> a | None \<Rightarrow> a2a, w2)
              | (Inr result, m, w2) \<Rightarrow>
                  (Inr result, case m of Some a \<Rightarrow> a | None \<Rightarrow> a2a,
                   case session_id of
                     None \<Rightarrow> w2
                   | Some s \<Rightarrow> snd (lg_record lg t s call_id result w2)))))"

subsection \<open>What the stamp does\<close>

lemma stamped_caller: "json_get CALLER_ARG_KEY (stamp_caller (JObject fs) c) = Some (caller_value c)"
  by simp

lemma stamp_keeps: "k \<noteq> CALLER_ARG_KEY \<Longrightarrow> json_get k (stamp_caller v c) = json_get k v"
  by (cases v) auto

text \<open>What the model wrote under the key has no effect.\<close>

lemma bt_insert_twice: "sorted_wrt (<) (map fst fs) \<Longrightarrow> bt_insert k v (bt_insert k u fs) = bt_insert k v fs"
  by (induction k u fs rule: bt_insert.induct) auto

lemma stamp_overwrites:
  "sorted_wrt (<) (map fst fs) \<Longrightarrow>
   stamp_caller (JObject (bt_insert CALLER_ARG_KEY forged fs)) c = stamp_caller (JObject fs) c"
  by (simp add: bt_insert_twice)

subsection \<open>What the ids are\<close>

lemma unique_ids_length [simp]: "length (unique_ids_from uuid k seen calls) = length calls"
  by (induction uuid k seen calls rule: unique_ids_from.induct) (auto simp: Let_def)

lemma unique_ids_rest:
  "map (\<lambda>c. (tk_extension_id c, tk_tool_name c, tk_args c)) (unique_ids_from uuid k seen calls) =
   map (\<lambda>c. (tk_extension_id c, tk_tool_name c, tk_args c)) calls"
  by (induction uuid k seen calls rule: unique_ids_from.induct) (auto simp: Let_def)

lemma unique_ids_distinct:
  assumes "inj uuid"
  shows "(\<And>j. ''call_'' @ uuid j \<notin> tk_call_id ` set calls) \<Longrightarrow> (\<And>j. k \<le> j \<Longrightarrow> ''call_'' @ uuid j \<notin> set seen) \<Longrightarrow>
    distinct (map tk_call_id (unique_ids_from uuid k seen calls)) \<and>
    tk_call_id ` set (unique_ids_from uuid k seen calls) \<inter> set seen = {} \<and>
    [] \<notin> tk_call_id ` set (unique_ids_from uuid k seen calls)"
proof (induction calls arbitrary: k seen)
  case (Cons c cs)
  let ?i = "''call_'' @ uuid k"
  from Cons.prems(1) have fresh: "''call_'' @ uuid j \<notin> tk_call_id ` set cs" "''call_'' @ uuid j \<noteq> tk_call_id c" for j
    by auto
  show ?case
  proof (cases "trim_white (tk_call_id c) = [] \<or> tk_call_id c \<in> set seen")
    case True
    have "''call_'' @ uuid j \<notin> set (?i # seen)" if "Suc k \<le> j" for j
      using Cons.prems(2) [of j] that injD [OF assms, of j k] by auto
    from Cons.IH [OF fresh(1) this] True Cons.prems(2) [of k] show ?thesis by (auto simp: Let_def)
  next
    case False
    have "''call_'' @ uuid j \<notin> set (tk_call_id c # seen)" if "k \<le> j" for j
      using Cons.prems(2) [of j] that fresh(2) [of j] by auto
    moreover have "tk_call_id c \<noteq> []" using False by (auto simp: trim_white_def)
    ultimately show ?thesis using Cons.IH [OF fresh(1), of k "tk_call_id c # seen"] False by auto
  qed
qed simp

lemma ensure_unique_call_ids_ok:
  assumes "inj uuid" and "\<And>j. ''call_'' @ uuid j \<notin> tk_call_id ` set calls"
  shows "distinct (map tk_call_id (ensure_unique_call_ids uuid calls)) \<and>
    [] \<notin> tk_call_id ` set (ensure_unique_call_ids uuid calls)"
  using unique_ids_distinct [OF assms, of 0 "[]"] by (simp add: ensure_unique_call_ids_def)

subsection \<open>Keys of the ledger\<close>

lemma dot_split: "CHR ''.'' \<notin> set a \<Longrightarrow> CHR ''.'' \<notin> set b \<Longrightarrow> a @ ''.'' @ x = b @ ''.'' @ y \<longleftrightarrow> a = b \<and> x = y"
  by (auto simp: append_eq_append_conv2 append_eq_Cons_conv Cons_eq_append_conv)

lemma digit_char_not_dot: "d < 10 \<Longrightarrow> digit_char d \<noteq> CHR ''.''"
proof
  assume d: "d < 10" and eq: "digit_char d = CHR ''.''"
  from eq have "of_char (digit_char d) = (46 :: nat)" by simp
  with of_char_digit_char [OF d] show False by simp
qed

lemma show_nat_dot_free: "CHR ''.'' \<notin> set (show_nat n)"
proof (induction n rule: show_nat.induct)
  case (1 n)
  then show ?case by (subst show_nat.simps) (auto simp: digit_char_not_dot [symmetric])
qed

lemma length_prefixed: "show_nat (length s) @ ''.'' @ s @ x = show_nat (length s') @ ''.'' @ s' @ x' \<longleftrightarrow> s = s' \<and> x = x'"
proof
  assume eq: "show_nat (length s) @ ''.'' @ s @ x = show_nat (length s') @ ''.'' @ s' @ x'"
  from dot_split [OF show_nat_dot_free show_nat_dot_free, THEN iffD1, OF eq]
  have "show_nat (length s) = show_nat (length s')" and r: "s @ x = s' @ x'" by simp_all
  then have "length s = length s'" by (auto dest: show_nat_inject)
  with r show "s = s' \<and> x = x'" by simp
qed simp

lemma ledger_key_inject:
  "key_prefix t = key_prefix t' \<Longrightarrow> ledger_key t s c = ledger_key t' s' c' \<longleftrightarrow> s = s' \<and> c = c'"
proof -
  assume p: "key_prefix t = key_prefix t'"
  have "ledger_key t s c = ledger_key t' s' c' \<longleftrightarrow>
      s = s' \<and> show_nat (length c) @ ''.'' @ c @ [] = show_nat (length c') @ ''.'' @ c' @ []"
    using length_prefixed [of s "'':tool_calls:'' @ show_nat (length c) @ ''.'' @ c @ []" s'
        "'':tool_calls:'' @ show_nat (length c') @ ''.'' @ c' @ []"]
    by (simp add: ledger_key_def p)
  then show ?thesis using length_prefixed [of c "[]" c' "[]"] by simp
qed

text \<open>Over any key-value store: a recorded result is read back until it expires, and no other one is touched.\<close>

context aw_kv
begin

lemma ledger_record_live:
  assumes "invar s" and "lc_to lc result = Some b"
  shows "\<exists>s'. kv_ledger_record kv lc now t i c result s = (Inr (), s') \<and> invar s' \<and>
    (\<forall>u \<ge> now. live s' u = (live s u)(ledger_key t i c := ttl_view now KV_LEDGER_TTL b u))"
  using set_ex [OF assms(1), of now "ledger_key t i c" b KV_LEDGER_TTL] assms(2)
  by (simp add: kv_ledger_record_def)

lemma ledger_get_live:
  assumes "invar s"
  shows "\<exists>s'. invar s' \<and> (\<forall>u \<ge> now. live s' u = live s u) \<and>
    kv_ledger_get kv lc now t i c s =
      ((case live s now (ledger_key t i c) of
          None \<Rightarrow> Inr None
        | Some b \<Rightarrow> rbind (ok_or DecodeError (lc_from lc b)) (\<lambda>r. Inr (Some r))), s')"
proof -
  from get [OF assms] obtain s' where "kv_get kv now (ledger_key t i c) s = (Inr (live s now (ledger_key t i c)), s')"
    "invar s'" "\<forall>u \<ge> now. live s' u = live s u" by blast
  then show ?thesis
    by (intro exI [of _ s']) (auto simp: kv_ledger_get_def sbind_def ok_or_def rbind_def sret_def split: option.splits)
qed

end

end
