(* ===== verification/Agent_Env.thy ===== *)
theory Agent_Env
  imports Tool_Calls
begin

section \<open>The surroundings of a turn\<close>

text \<open>
  What one turn of an agent works with (\<open>crates/greentic-aw-runtime/src/lib.rs\<close>: \<open>AgentRuntime\<close>): the stores, meters, memories,
  guardrails, catalogs and the language model, each a parameter that acts on an outside world \<open>'w\<close>, which also holds the clocks and
  the shared traces. Then the host's own tools and the pieces the system prompt is put together from (\<open>loop.rs\<close>,
  \<open>long_term.rs\<close>, \<open>short_term.rs\<close>, \<open>knowledge.rs\<close>, \<open>end_conversation.rs\<close>).
\<close>

subsection \<open>The runtime\<close>

record recalled_fact =
  rf_fact :: string
  rf_relation :: string
  rf_valid_at :: "string option"
  rf_value :: json

datatype knowledge_error = KnowledgeBackend string | KnowledgeInvalidTenant string | KnowledgeNotConfigured

text \<open>
  A recall and an ingest are given the tenant in the form of \<open>greentic-types\<close>; \<open>rt_types_tenant\<close> says why an id does not have it. The
  text of an error stands for the error.
\<close>

record 'w long_term_memory =
  lm_recall :: "tenant_context \<Rightarrow> string \<Rightarrow> nat option \<Rightarrow> 'w \<Rightarrow> (string, recalled_fact list) result \<times> 'w"
  lm_ingest :: "tenant_context \<Rightarrow> string \<Rightarrow> string \<Rightarrow> instant \<Rightarrow> 'w \<Rightarrow> 'w"

record 'w short_term_memory =
  sh_remember :: "tenant_context \<Rightarrow> string \<Rightarrow> string \<Rightarrow> string \<Rightarrow> 'w \<Rightarrow> (string, unit) result \<times> 'w"
  sh_recall :: "tenant_context \<Rightarrow> string \<Rightarrow> string \<Rightarrow> 'w \<Rightarrow> (string, string option) result \<times> 'w"

record step_telemetry =
  sx_tenant_id :: string
  sx_env_id :: string
  sx_session_id :: string
  sx_agent_id :: string
  sx_terminated_by :: termination_reason
  sx_iterations :: nat
  sx_total_tokens :: nat
  sx_duration :: nat

text \<open>
  \<open>rt_llm_cut\<close> and \<open>rt_tool_cut\<close> say whether the time that remains runs out before a call returns, and what the dropped call
  leaves behind. Keeping the session lock alive during a long call is a part of what that call does to the world.
\<close>

record 'w agent_runtime =
  rt_agent_config :: "tenant_context \<Rightarrow> string \<Rightarrow> 'w \<Rightarrow> (config_error, agent_config) result \<times> 'w"
  rt_share_modes_for :: "string \<Rightarrow> binding_modes option"
  rt_tokens_used :: "tenant_context \<Rightarrow> 'w \<Rightarrow> (state_error, nat) result \<times> 'w"
  rt_tokens_add :: "tenant_context \<Rightarrow> nat \<Rightarrow> 'w \<Rightarrow> (state_error, unit) result \<times> 'w"
  rt_over_budget :: "tenant_context \<Rightarrow> 'w \<Rightarrow> bool \<times> 'w"
  rt_billing_emit :: "tenant_context \<Rightarrow> nat \<Rightarrow> nat \<Rightarrow> string \<Rightarrow> string \<Rightarrow> 'w \<Rightarrow> 'w"
  rt_acquire_lock :: "tenant_context \<Rightarrow> string \<Rightarrow> 'w \<Rightarrow> (state_error, unit) result \<times> 'w"
  rt_refresh_lock :: "tenant_context \<Rightarrow> string \<Rightarrow> 'w \<Rightarrow> (state_error, unit) result \<times> 'w"
  rt_release_lock :: "tenant_context \<Rightarrow> string \<Rightarrow> 'w \<Rightarrow> 'w"
  rt_load :: "tenant_context \<Rightarrow> string \<Rightarrow> 'w \<Rightarrow> (state_error, conversation_state) result \<times> 'w"
  rt_save :: "tenant_context \<Rightarrow> string \<Rightarrow> conversation_state \<Rightarrow> 'w \<Rightarrow> (state_error, unit) result \<times> 'w"
  rt_mandatory_guardrails :: "tenant_context \<Rightarrow> 'w \<Rightarrow> (string, guardrail_ref list) result \<times> 'w"
  rt_capability :: "'w \<Rightarrow> string \<Rightarrow> string option"
  rt_evaluate :: "'w evaluator"
  rt_ledger_turn :: "tenant_context \<Rightarrow> string \<Rightarrow> agent_input \<Rightarrow> 'w \<Rightarrow> nat option"
  rt_ledger_view :: "nat \<Rightarrow> 'w \<Rightarrow> string option \<times> 'w"
  rt_ledger_reply :: "nat \<Rightarrow> string \<Rightarrow> 'w \<Rightarrow> 'w"
  rt_types_tenant :: "tenant_context \<Rightarrow> (string, unit) result"
  rt_long_term :: "'w long_term_memory option"
  rt_short_term :: "'w short_term_memory option"
  rt_knowledge :: "(tenant_context \<Rightarrow> string \<Rightarrow> nat option \<Rightarrow> memory_provider_ref option \<Rightarrow> 'w \<Rightarrow>
      (knowledge_error, retrieved_chunk list) result \<times> 'w) option"
  rt_catalogs :: "tenant_context \<Rightarrow> tool_ref list \<Rightarrow> llm_provider_ref \<Rightarrow> 'w \<Rightarrow> 'w tool_catalogs \<times> 'w"
  rt_ext :: "'w ext_runtime"
  rt_llm :: "'w llm_backend"
  rt_llm_cut :: "nat \<Rightarrow> llm_request \<Rightarrow> 'w \<Rightarrow> 'w option"
  rt_tool_cut :: "nat \<Rightarrow> tool_call_record \<Rightarrow> a2a_continuations \<Rightarrow> 'w \<Rightarrow> (a2a_continuations \<times> 'w) option"
  rt_ledger :: "'w tool_ledger"
  rt_trace :: "nat \<Rightarrow> 'w \<Rightarrow> trace_event list"
  rt_put_trace :: "nat \<Rightarrow> trace_event list \<Rightarrow> 'w \<Rightarrow> 'w"
  rt_record_step :: "step_telemetry \<Rightarrow> 'w \<Rightarrow> 'w"
  rt_clock :: "'w \<Rightarrow> nat"
  rt_now :: "'w \<Rightarrow> instant"
  rt_step_id :: "'w \<Rightarrow> nat \<times> 'w"
  rt_uuid :: "'w \<Rightarrow> nat \<Rightarrow> string"
  rt_to_text :: "json \<Rightarrow> string"
  rt_parse :: "string \<Rightarrow> (string, json) result"
  rt_sha256 :: "string \<Rightarrow> byte list"
  rt_wants_streaming :: bool

subsection \<open>Which features are on\<close>

definition long_term_active :: "bool \<Rightarrow> agent_config \<Rightarrow> bool" where
  "long_term_active has_provider config \<longleftrightarrow> has_provider \<and> Option.bind (ag_memory config) ms_long_term \<noteq> None"

definition short_term_active :: "bool \<Rightarrow> agent_config \<Rightarrow> bool" where
  "short_term_active has_provider config \<longleftrightarrow> has_provider \<and> Option.bind (ag_memory config) ms_short_term \<noteq> None"

definition knowledge_active :: "bool \<Rightarrow> agent_config \<Rightarrow> bool" where
  "knowledge_active has_provider config \<longleftrightarrow> has_provider \<and> Option.bind (ag_knowledge config) ks_knowledge \<noteq> None"

definition auto_top_k :: "agent_config \<Rightarrow> nat" where
  "auto_top_k config =
     max 1 (case ag_knowledge config of Some k \<Rightarrow> ks_top_k k | None \<Rightarrow> default_knowledge_top_k)"

subsection \<open>Tools of the host\<close>

definition HOST_EXTENSION_ID :: string where "HOST_EXTENSION_ID = ''host''"
definition RECALL_MEMORY_TOOL :: string where "RECALL_MEMORY_TOOL = ''recall_memory''"
definition REMEMBER_TOOL :: string where "REMEMBER_TOOL = ''remember''"
definition RECALL_TOOL :: string where "RECALL_TOOL = ''recall''"
definition END_CONVERSATION_TOOL :: string where "END_CONVERSATION_TOOL = ''end_conversation''"

definition AUTO_INJECT_K :: nat where "AUTO_INJECT_K = 5"
definition TOOL_LIMIT :: nat where "TOOL_LIMIT = 10"

definition is_host_tool :: "tool_call_record \<Rightarrow> string \<Rightarrow> bool" where
  "is_host_tool call name \<longleftrightarrow> tk_extension_id call = HOST_EXTENSION_ID \<and> tk_tool_name call = name"

definition property_field :: "string \<Rightarrow> string \<Rightarrow> string \<Rightarrow> string \<times> json" where
  "property_field name ty description =
     (name, json_obj [(''type'', JString ty), (''description'', JString description)])"

definition recall_memory_tool_schema :: llm_tool_schema where
  "recall_memory_tool_schema =
     \<lparr>sm_extension_id = HOST_EXTENSION_ID, sm_tool_name = RECALL_MEMORY_TOOL,
      sm_description = ''Search the agent'' @ [CHR 0x27] @ ''s long-term memory for facts relevant to a query. Use when you need to recall something from earlier interactions.'',
      sm_parameters = json_obj [(''type'', JString ''object''),
        (''properties'', json_obj [property_field ''query'' ''string'' ''Natural-language search query.'',
           property_field ''limit'' ''integer'' ''Max facts to return (default 10).'']),
        (''required'', JArray [JString ''query''])]\<rparr>"

definition remember_tool_schema :: llm_tool_schema where
  "remember_tool_schema =
     \<lparr>sm_extension_id = HOST_EXTENSION_ID, sm_tool_name = REMEMBER_TOOL,
      sm_description = ''Store a short-term (working-memory) value under a key for this conversation. Use to remember things the user tells you within this session.'',
      sm_parameters = json_obj [(''type'', JString ''object''),
        (''properties'', json_obj [property_field ''key'' ''string'' ''Identifier to store the value under.'',
           property_field ''value'' ''string'' ''The value to remember.'']),
        (''required'', JArray [JString ''key'', JString ''value''])]\<rparr>"

definition recall_tool_schema :: llm_tool_schema where
  "recall_tool_schema =
     \<lparr>sm_extension_id = HOST_EXTENSION_ID, sm_tool_name = RECALL_TOOL,
      sm_description = ''Read a short-term (working-memory) value back by the key it was stored under in this conversation.'',
      sm_parameters = json_obj [(''type'', JString ''object''),
        (''properties'', json_obj [property_field ''key'' ''string'' ''Identifier the value was stored under.'']),
        (''required'', JArray [JString ''key''])]\<rparr>"

definition em_dash :: string where "em_dash = [CHR 0xE2, CHR 0x80, CHR 0x94]"

definition end_conversation_tool_schema :: llm_tool_schema where
  "end_conversation_tool_schema =
     \<lparr>sm_extension_id = HOST_EXTENSION_ID, sm_tool_name = END_CONVERSATION_TOOL,
      sm_description = ''End the current conversation when it has reached a natural conclusion '' @ em_dash @
        '' the user'' @ [CHR 0x27] @ ''s goal is met, they say goodbye, or there is nothing left to do. Optionally include a brief closing message.'',
      sm_parameters = json_obj [(''type'', JString ''object''),
        (''properties'', json_obj [property_field ''final_message'' ''string'' ''Optional short closing message shown to the user.''])]\<rparr>"

definition arg_text :: "string \<Rightarrow> json \<Rightarrow> string" where
  "arg_text k args = (case Option.bind (json_get k args) json_as_str of Some s \<Rightarrow> s | None \<Rightarrow> [])"

text \<open>\<open>Value::as_u64\<close>.\<close>

fun json_u64 :: "json \<Rightarrow> nat option" where
  "json_u64 (JInt i) = (if 0 \<le> i \<and> i < 2 ^ 64 then Some (nat i) else None)"
| "json_u64 _ = None"

definition recall_long_term ::
  "'w agent_runtime \<Rightarrow> tenant_context \<Rightarrow> string \<Rightarrow> nat option \<Rightarrow> 'w \<Rightarrow> (string, recalled_fact list) result \<times> 'w" where
  "recall_long_term rt t query limit w =
     (case rt_long_term rt of
        None \<Rightarrow> (Inl ''long-term memory not wired'', w)
      | Some m \<Rightarrow>
          (case rt_types_tenant rt t of
             Inl e \<Rightarrow> (Inl e, w)
           | Inr _ \<Rightarrow> lm_recall m t query limit w))"

definition search_knowledge ::
  "'w agent_runtime \<Rightarrow> tenant_context \<Rightarrow> string \<Rightarrow> nat option \<Rightarrow> memory_provider_ref option \<Rightarrow> 'w \<Rightarrow>
     (knowledge_error, retrieved_chunk list) result \<times> 'w" where
  "search_knowledge rt t query limit binding w =
     (case rt_knowledge rt of
        None \<Rightarrow> (Inl KnowledgeNotConfigured, w)
      | Some search \<Rightarrow>
          (case rt_types_tenant rt t of
             Inl e \<Rightarrow> (Inl (KnowledgeInvalidTenant e), w)
           | Inr _ \<Rightarrow> search t query limit binding w))"

definition host_recall_memory ::
  "'w agent_runtime \<Rightarrow> tenant_context \<Rightarrow> tool_call_record \<Rightarrow> 'w \<Rightarrow> json \<times> 'w" where
  "host_recall_memory rt t call w =
     (let limit = (case Option.bind (json_get ''limit'' (tk_args call)) json_u64 of Some n \<Rightarrow> n | None \<Rightarrow> TOOL_LIMIT) in
      case recall_long_term rt t (arg_text ''query'' (tk_args call)) (Some limit) w of
        (Inr facts, w') \<Rightarrow> (json_obj [(''facts'', JArray (map rf_value facts))], w')
      | (Inl e, w') \<Rightarrow> (error_value e, w'))"

definition host_remember ::
  "'w agent_runtime \<Rightarrow> tenant_context \<Rightarrow> string \<Rightarrow> tool_call_record \<Rightarrow> 'w \<Rightarrow> json \<times> 'w" where
  "host_remember rt t session_id call w =
     (case rt_short_term rt of
        None \<Rightarrow> (error_value ''short-term memory not configured'', w)
      | Some m \<Rightarrow>
          (let key = arg_text ''key'' (tk_args call); val = arg_text ''value'' (tk_args call) in
           if key = [] then (error_value (''missing '' @ quoted ''key''), w)
           else if val = [] then (error_value (''missing '' @ quoted ''value''), w)
           else
             (case sh_remember m t session_id key val w of
                (Inr _, w') \<Rightarrow> (json_obj [(''ok'', JBool True)], w')
              | (Inl e, w') \<Rightarrow> (error_value e, w'))))"

definition host_recall ::
  "'w agent_runtime \<Rightarrow> tenant_context \<Rightarrow> string \<Rightarrow> tool_call_record \<Rightarrow> 'w \<Rightarrow> json \<times> 'w" where
  "host_recall rt t session_id call w =
     (case rt_short_term rt of
        None \<Rightarrow> (error_value ''short-term memory not configured'', w)
      | Some m \<Rightarrow>
          (let key = arg_text ''key'' (tk_args call) in
           if key = [] then (error_value (''missing '' @ quoted ''key''), w)
           else
             (case sh_recall m t session_id key w of
                (Inr (Some v), w') \<Rightarrow> (json_obj [(''value'', JString v)], w')
              | (Inr None, w') \<Rightarrow> (json_obj [(''value'', JNull)], w')
              | (Inl e, w') \<Rightarrow> (error_value e, w'))))"

subsection \<open>The system prompt\<close>

definition newline :: string where "newline = [CHR 0x0A]"

definition fact_line :: "recalled_fact \<Rightarrow> string" where
  "fact_line f = ''- '' @ rf_fact f @
     (if rf_relation f \<noteq> [] then '' ('' @ rf_relation f @ '')'' else []) @
     (case rf_valid_at f of Some v \<Rightarrow> '' [valid '' @ v @ '']'' | None \<Rightarrow> []) @ newline"

definition augment_with_facts :: "string \<Rightarrow> recalled_fact list \<Rightarrow> string" where
  "augment_with_facts base facts =
     (if facts = [] then base
      else base @ newline @ newline @ ''<long_term_memory>'' @ newline @
        ''Relevant facts recalled from earlier interactions:'' @ newline @
        concat (map fact_line facts) @ ''</long_term_memory>'')"

definition augment_with_chunks :: "string \<Rightarrow> retrieved_chunk list \<Rightarrow> string" where
  "augment_with_chunks base chunks =
     (if chunks = [] then base
      else base @ newline @ newline @ ''<knowledge>'' @ newline @
        ''Relevant passages retrieved from the agent'' @ [CHR 0x27] @ ''s knowledge base:'' @ newline @
        concat (map (\<lambda>c. ''- '' @ trim_white (rk_text c) @ newline) chunks) @ ''</knowledge>'')"

definition augment_conversational :: "string \<Rightarrow> string" where
  "augment_conversational base = base @ newline @ newline @
     ''When the conversation has reached a natural end '' @ em_dash @ '' the user'' @ [CHR 0x27] @
     ''s goal is met, they say goodbye, or there is nothing left to do '' @ em_dash @
     '' call the `end_conversation` tool with a brief `final_message`. Do not call it while the user still needs help. '' @
     ''If a tool or backend system fails or is unavailable, do NOT end the conversation: clearly tell the user which capability failed '' @
     ''and that it looks like a configuration or availability problem, then stay available so they can respond or retry. '' @
     ''A tool failure is a blocker to surface, not a reason to say goodbye.''"

definition RESUME_AFTER_SIDE_TURNS_NOTE :: string where
  "RESUME_AFTER_SIDE_TURNS_NOTE = ''The form step the user was asked to complete has now finished; its result is the tool result in the conversation. Reply about that result, not about the earlier side questions.''"

definition SIDE_TURN_NOTE :: string where
  "SIDE_TURN_NOTE = ''A form step is waiting for the user to fill it in. Do not start that step again. Answer the user'' @ [CHR 0x27] @
     ''s question, then mention that the form can be continued.''"

definition with_note_if :: "bool \<Rightarrow> string \<Rightarrow> string \<Rightarrow> string" where
  "with_note_if b note base = (if b then base @ newline @ newline @ note else base)"

end
