(* ===== verification/Agent_Loop.thy ===== *)
theory Agent_Loop
  imports Agent_Env
begin

section \<open>A turn of an agent\<close>

text \<open>
  \<open>crates/greentic-aw-runtime/src/loop.rs\<close>: the turn, from the gates over the state, the parked tool, the guardrails and the prompt to the
  loop that asks the model and runs its tool calls, the reply and the save. Every early return is an \<open>Inl\<close>. What only
  reports, to the log or to the observer, is left out.
\<close>

subsection \<open>What a turn carries\<close>

record 'w turn_env =
  tn_rt :: "'w agent_runtime"
  tn_tenant :: tenant_context
  tn_session_id :: string
  tn_agent_id :: string
  tn_config :: agent_config
  tn_started :: nat
  tn_step_id :: nat
  tn_current :: "run_context option"
  tn_run_trace :: "nat option"
  tn_record_to :: "nat option"
  tn_chain :: "resolved_guardrail list"
  tn_guardrail_ctx :: guardrail_run_ctx
  tn_ledger_turn :: "nat option"
  tn_user_message :: string
  tn_lt_active :: bool
  tn_st_active :: bool
  tn_conv_active :: bool
  tn_side_pending :: bool
  tn_system_prompt :: string
  tn_catalogs :: "'w tool_catalogs"

record turn_state =
  tu_state :: conversation_state
  tu_trail :: "agent_step list"
  tu_terminated_by :: termination_reason
  tu_iterations :: nat
  tu_reply :: string
  tu_had_tool_error :: bool
  tu_timed_out :: bool
  tu_suspension :: "json option"
  tu_total_tokens :: nat
  tu_tokens_in :: nat
  tu_tokens_out :: nat

definition elapsed :: "'w turn_env \<Rightarrow> 'w \<Rightarrow> nat" where
  "elapsed env w = rt_clock (tn_rt env) w - tn_started env"

definition time_left :: "'w turn_env \<Rightarrow> 'w \<Rightarrow> nat" where
  "time_left env w = al_timeout (ag_limits (tn_config env)) - elapsed env w"

definition ensure_lock_held ::
  "'w agent_runtime \<Rightarrow> tenant_context \<Rightarrow> string \<Rightarrow> 'w \<Rightarrow> (agent_error, unit) result \<times> 'w" where
  "ensure_lock_held rt t session_id w =
     (case rt_refresh_lock rt t session_id w of
        (Inr _, w') \<Rightarrow> (Inr (), w')
      | (Inl LockLost, w') \<Rightarrow> (Inl AgLockLost, w')
      | (Inl e, w') \<Rightarrow> (Inr (), w'))"

definition step_telemetry_of :: "'w turn_env \<Rightarrow> termination_reason \<Rightarrow> turn_state \<Rightarrow> 'w \<Rightarrow> step_telemetry" where
  "step_telemetry_of env reason ts w =
     \<lparr>sx_tenant_id = tc_tenant_id (tn_tenant env), sx_env_id = tc_env_id (tn_tenant env),
      sx_session_id = tn_session_id env, sx_agent_id = tn_agent_id env, sx_terminated_by = reason,
      sx_iterations = tu_iterations ts, sx_total_tokens = tu_total_tokens ts, sx_duration = elapsed env w\<rparr>"

definition record_error_exit :: "'w turn_env \<Rightarrow> turn_state \<Rightarrow> 'w \<Rightarrow> 'w" where
  "record_error_exit env ts w = rt_record_step (tn_rt env) (step_telemetry_of env ErrorEnd ts w) w"

subsection \<open>One tool call\<close>

definition push_chat :: "chat_message \<Rightarrow> turn_state \<Rightarrow> turn_state" where
  "push_chat m ts = ts\<lparr>tu_state := (tu_state ts)\<lparr>cs_messages := cs_messages (tu_state ts) @ [m]\<rparr>\<rparr>"

definition push_step :: "agent_step \<Rightarrow> turn_state \<Rightarrow> turn_state" where
  "push_step s ts = ts\<lparr>tu_trail := tu_trail ts @ [s]\<rparr>"

definition call_step :: "tool_call_record \<Rightarrow> json \<Rightarrow> nat \<Rightarrow> agent_step" where
  "call_step call result ms =
     ToolCallStep \<lparr>ts_name = tk_tool_name call, ts_call_id = tk_call_id call, ts_args = tk_args call,
       ts_result = result, ts_duration_ms = ms\<rparr>"

definition millis_between :: "nat \<Rightarrow> nat \<Rightarrow> nat" where
  "millis_between t0 t1 = (t1 - t0) div 1000000"

definition answer_call :: "tool_call_record \<Rightarrow> json \<Rightarrow> turn_state \<Rightarrow> turn_state" where
  "answer_call call content ts = push_chat (ToolMsg (tk_call_id call) content) ts"

text \<open>The model's arguments were not valid JSON.\<close>

definition malformed_call :: "tool_call_record \<Rightarrow> json \<Rightarrow> turn_state \<Rightarrow> turn_state" where
  "malformed_call call raw ts =
     (let err = json_obj [(''error'', JString ''tool arguments were not valid JSON; re-issue the call with a valid JSON object''),
                          (''received'', raw)] in
      (push_step (call_step call err 0) (answer_call call err ts))\<lparr>tu_had_tool_error := True\<rparr>)"

definition refused_call :: "tool_call_record \<Rightarrow> turn_state \<Rightarrow> turn_state" where
  "refused_call call ts =
     (let (st, steps) = refuse_behind_suspension call (tu_state ts) [] in
      ts\<lparr>tu_state := st, tu_trail := tu_trail ts @ map ToolCallStep steps\<rparr>)"

definition blocked_call :: "tool_call_record \<Rightarrow> turn_state \<Rightarrow> turn_state" where
  "blocked_call call ts =
     (push_step (ToolCallBlockedStep (tk_tool_name call) ''not in allow-list'')
        (answer_call call (error_value ''tool not allowed for this agent'') ts))\<lparr>tu_had_tool_error := True\<rparr>"

definition reused_call :: "'w turn_env \<Rightarrow> tool_call_record \<Rightarrow> json \<Rightarrow> turn_state \<Rightarrow> turn_state" where
  "reused_call env call cached ts =
     push_step (ToolCallReusedStep (tk_tool_name call) (tk_call_id call))
       (answer_call call (cap_tool_result (rt_to_text (tn_rt env)) cached) ts)"

definition host_call ::
  "'w turn_env \<Rightarrow> tool_call_record \<Rightarrow> ('w \<Rightarrow> json \<times> 'w) \<Rightarrow> turn_state \<Rightarrow> 'w \<Rightarrow> turn_state \<times> 'w" where
  "host_call env call run ts w =
     (let (result, w') = run w in
      (push_step (call_step call result (millis_between (rt_clock (tn_rt env) w) (rt_clock (tn_rt env) w')))
         (answer_call call result ts), w'))"

definition trace_outcome :: "'w turn_env \<Rightarrow> string \<Rightarrow> tool_outcome \<Rightarrow> json \<Rightarrow> 'w \<Rightarrow> 'w" where
  "trace_outcome env tool outcome result w =
     (case tn_record_to env of
        None \<Rightarrow> w
      | Some t \<Rightarrow>
          rt_put_trace (tn_rt env) t
            (append_tool_outcome (tn_step_id env) (tn_agent_id env) tool outcome
               (summarise_result (rt_to_text (tn_rt env)) tool result) (rt_trace (tn_rt env) t w)) w)"

text \<open>The flow parked on the user: the turn will end and wait.\<close>

definition park_call :: "'w turn_env \<Rightarrow> tool_call_record \<Rightarrow> string \<Rightarrow> json \<Rightarrow> json \<Rightarrow> turn_state \<Rightarrow> 'w \<Rightarrow> turn_state" where
  "park_call env call flow_ref snapshot presentation ts w =
     (let now = rt_now (tn_rt env) w;
          p = \<lparr>pt_call_id = tk_call_id call, pt_tool_name = tk_tool_name call, pt_extension_id = tk_extension_id call,
               pt_args = tk_args call, pt_flow_ref = flow_ref, pt_flow_snapshot = snapshot,
               pt_iterations_used = tu_iterations ts, pt_expires_at = expiry_from now,
               pt_presentation = Some presentation, pt_parked_at = Some now, pt_side_turns = 0,
               pt_unannounced_attachments = 0\<rparr>;
          ts1 = ts\<lparr>tu_state := (tu_state ts)\<lparr>cs_pending_tool := Some p\<rparr>\<rparr>;
          ts2 = (if ag_on_text_while_parked (tn_config env) = SideTurnPolicy
                 then answer_call call (json_obj [(''status'', JString AWAITING_PLACEHOLDER)]) ts1 else ts1) in
      ts2\<lparr>tu_suspension := Some presentation\<rparr>)"

text \<open>A dispatch that returned: a failure is told to the model, a result is recorded unless it reports an error.\<close>

definition failed_call :: "'w turn_env \<Rightarrow> tool_call_record \<Rightarrow> nat \<Rightarrow> string \<Rightarrow> turn_state \<Rightarrow> 'w \<Rightarrow> turn_state \<times> 'w" where
  "failed_call env call t0 e ts w =
     (let err = error_value (''tool dispatch error: '' @ e) in
      ((push_step (call_step call err (millis_between t0 (rt_clock (tn_rt env) w))) (answer_call call err ts))
         \<lparr>tu_had_tool_error := True\<rparr>,
       trace_outcome env (tk_tool_name call) OutcomeFailed err w))"

definition completed_call ::
  "'w turn_env \<Rightarrow> tool_call_record \<Rightarrow> nat \<Rightarrow> string \<Rightarrow> json \<Rightarrow> turn_state \<Rightarrow> 'w \<Rightarrow> turn_state \<times> 'w" where
  "completed_call env call t0 ledger_id result ts w =
     (let rt = tn_rt env;
          w1 = trace_outcome env (tk_tool_name call) (tool_outcome_of result) result w;
          w2 = (if is_error_result result then w1
                else snd (lg_record (rt_ledger rt) (tn_tenant env) (tn_session_id env) ledger_id result w1)) in
      (push_step (call_step call result (millis_between t0 (rt_clock rt w)))
         (answer_call call (cap_tool_result (rt_to_text rt) result) ts), w2))"

definition flow_frame :: "'w turn_env \<Rightarrow> string \<Rightarrow> tool_call_frame" where
  "flow_frame env call_id =
     frame_with_caller (caller_or_anonymous (tn_tenant env)) (frame_new (Some (tn_session_id env)) call_id)"

definition dispatch_call ::
  "'w turn_env \<Rightarrow> tool_call_record \<Rightarrow> string \<Rightarrow> turn_state \<Rightarrow> 'w \<Rightarrow> turn_state \<times> 'w" where
  "dispatch_call env call ledger_id ts w =
     (let rt = tn_rt env; t0 = rt_clock rt w in
      case strip_prefix ''flow:'' (tk_extension_id call) of
        Some flow_ref \<Rightarrow>
          (case dispatch_flow_tool_interactive (rt_to_text rt) (cg_flows (tn_catalogs env)) (tn_current env)
                  (flow_frame env (tk_call_id call)) flow_ref call w of
             (FlowSuspend snapshot presentation, w1) \<Rightarrow> (park_call env call flow_ref snapshot presentation ts w1, w1)
           | (FlowValue v, w1) \<Rightarrow> completed_call env call t0 ledger_id v ts w1)
      | None \<Rightarrow>
          (case rt_tool_cut rt (time_left env w) call (cs_a2a (tu_state ts)) w of
             Some (a2a, w1) \<Rightarrow>
               failed_call env call t0 ''tool call exceeded the step timeout''
                 (ts\<lparr>tu_state := (tu_state ts)\<lparr>cs_a2a := a2a\<rparr>, tu_timed_out := True\<rparr>) w1
           | None \<Rightarrow>
               (case dispatch_tool_call_in_conversation (rt_to_text rt) (rt_parse rt) (rt_ext rt) (tn_catalogs env)
                       (tn_current env) (rt_now rt w) (tn_tenant env) call (Some (cs_a2a (tu_state ts))) w of
                  (out, m, w1) \<Rightarrow>
                    (let ts1 = ts\<lparr>tu_state := (tu_state ts)\<lparr>cs_a2a := (case m of Some a \<Rightarrow> a | None \<Rightarrow> cs_a2a (tu_state ts))\<rparr>\<rparr> in
                     case out of
                       Inl e \<Rightarrow> failed_call env call t0 e ts1 w1
                     | Inr v \<Rightarrow> completed_call env call t0 ledger_id v ts1 w1))))"

definition ledgered_call :: "'w turn_env \<Rightarrow> tool_call_record \<Rightarrow> turn_state \<Rightarrow> 'w \<Rightarrow> turn_state \<times> 'w" where
  "ledgered_call env call ts w =
     (let rt = tn_rt env; ledger_id = ledger_call_id (rt_sha256 rt) (rt_to_text rt) call in
      case lg_get (rt_ledger rt) (tn_tenant env) (tn_session_id env) ledger_id w of
        (Inr (Some cached), w1) \<Rightarrow>
          (if is_error_result cached then dispatch_call env call ledger_id ts w1
           else (reused_call env call cached ts, w1))
      | (_, w1) \<Rightarrow> dispatch_call env call ledger_id ts w1)"

definition run_call :: "'w turn_env \<Rightarrow> tool_call_record \<Rightarrow> turn_state \<Rightarrow> 'w \<Rightarrow> turn_state \<times> 'w" where
  "run_call env call ts w =
     (if tu_timed_out ts then (answer_call call (error_value ''step timed out before this tool ran'') ts, w)
      else
        case json_get MALFORMED_ARGS_KEY (tk_args call) of
          Some raw \<Rightarrow> (malformed_call call raw ts, w)
        | None \<Rightarrow>
            if tu_suspension ts \<noteq> None \<or> tn_side_pending env \<and> starts_with ''flow:'' (tk_extension_id call)
            then (refused_call call ts, w)
            else if tn_lt_active env \<and> is_host_tool call RECALL_MEMORY_TOOL
            then host_call env call (host_recall_memory (tn_rt env) (tn_tenant env) call) ts w
            else if tn_st_active env \<and> is_host_tool call REMEMBER_TOOL
            then host_call env call (host_remember (tn_rt env) (tn_tenant env) (tn_session_id env) call) ts w
            else if tn_st_active env \<and> is_host_tool call RECALL_TOOL
            then host_call env call (host_recall (tn_rt env) (tn_tenant env) (tn_session_id env) call) ts w
            else if \<not> is_tool_allowed call (ag_tools (tn_config env)) then (blocked_call call ts, w)
            else ledgered_call env call ts w)"

primrec run_calls :: "'w turn_env \<Rightarrow> tool_call_record list \<Rightarrow> turn_state \<Rightarrow> 'w \<Rightarrow> turn_state \<times> 'w" where
  "run_calls env [] ts w = (ts, w)"
| "run_calls env (c # cs) ts w = (let (ts1, w1) = run_call env c ts w in run_calls env cs ts1 w1)"

subsection \<open>One iteration\<close>

definition build_request :: "'w turn_env \<Rightarrow> conversation_state \<Rightarrow> 'w \<Rightarrow> llm_request" where
  "build_request env st w =
     (let rt = tn_rt env; config = tn_config env in
      \<lparr>rq_system_prompt = augment_with_view (tn_system_prompt env)
         (Option.bind (tn_run_trace env) (\<lambda>t. render_view_for (Some (tn_step_id env)) (rt_trace rt t w))),
       rq_history = cs_messages st,
       rq_tools = list_tools_for_llm (rt_parse rt) (rt_ext rt) (tn_catalogs env) (ag_tools config) @
         (if tn_lt_active env then [recall_memory_tool_schema] else []) @
         (if tn_st_active env then [remember_tool_schema, recall_tool_schema] else []) @
         (if tn_conv_active env then [end_conversation_tool_schema] else []),
       rq_provider = ag_llm config,
       rq_attachment_guard = inbound_guard_for_turn (tn_chain env) (tn_guardrail_ctx env)\<rparr>)"

text \<open>The model failed: the bounded history is saved unless the lock is gone.\<close>

definition llm_failed ::
  "'w turn_env \<Rightarrow> llm_error \<Rightarrow> turn_state \<Rightarrow> 'w \<Rightarrow> (agent_error, turn_state) result \<times> 'w" where
  "llm_failed env e ts w =
     (let rt = tn_rt env;
          st = truncate_history (al_max_history_turns (ag_limits (tn_config env))) (tu_state ts);
          (held, w1) = ensure_lock_held rt (tn_tenant env) (tn_session_id env) w;
          w2 = (case held of Inr _ \<Rightarrow> snd (rt_save rt (tn_tenant env) (tn_session_id env) st w1) | Inl _ \<Rightarrow> w1) in
      (Inl (case e of ServiceUnavailable \<Rightarrow> AgLlmProviderUnavailable | _ \<Rightarrow> AgLlm e), record_error_exit env ts w2))"

definition count_tokens :: "'w turn_env \<Rightarrow> llm_response \<Rightarrow> turn_state \<Rightarrow> 'w \<Rightarrow> turn_state \<times> 'w" where
  "count_tokens env resp ts w =
     (let rt = tn_rt env; i = lr_tokens_in resp; out = lr_tokens_out resp in
      (push_step (LlmCallStep (case lr_content resp of Some c \<Rightarrow> c | None \<Rightarrow> []) i out)
         (ts\<lparr>tu_total_tokens := tu_total_tokens ts + (i + out), tu_tokens_in := tu_tokens_in ts + i,
             tu_tokens_out := tu_tokens_out ts + out\<rparr>),
       rt_billing_emit rt (tn_tenant env) i out (tn_agent_id env) (lp_model (ag_llm (tn_config env)))
         (snd (rt_tokens_add rt (tn_tenant env) (i + out) w))))"

definition closing_message :: "llm_response \<Rightarrow> tool_call_record \<Rightarrow> string" where
  "closing_message resp call =
     (case Option.bind (json_get ''final_message'' (tk_args call)) json_as_str of
        Some m \<Rightarrow> if m \<noteq> [] then m else (case lr_content resp of Some c \<Rightarrow> c | None \<Rightarrow> [])
      | None \<Rightarrow> (case lr_content resp of Some c \<Rightarrow> c | None \<Rightarrow> []))"

definition end_conversation :: "llm_response \<Rightarrow> tool_call_record \<Rightarrow> turn_state \<Rightarrow> turn_state" where
  "end_conversation resp call ts =
     (push_step (call_step call (json_obj [(''ok'', JBool True)]) 0) ts)
       \<lparr>tu_reply := closing_message resp call,
        tu_terminated_by := (if tu_had_tool_error ts then FinalReply else ConversationEnded)\<rparr>"

text \<open>What a response leads to: whether the loop goes on.\<close>

definition tool_batch ::
  "'w turn_env \<Rightarrow> llm_response \<Rightarrow> tool_call_record list \<Rightarrow> turn_state \<Rightarrow> 'w \<Rightarrow> bool \<times> turn_state \<times> 'w" where
  "tool_batch env resp calls ts w =
     (let (ts1, w1) = run_calls env calls
            ((push_chat (AssistantMsg (case lr_content resp of Some c \<Rightarrow> c | None \<Rightarrow> []) calls) ts)\<lparr>tu_timed_out := False\<rparr>) w in
      if tu_timed_out ts1 then (False, ts1\<lparr>tu_terminated_by := Timeout\<rparr>, w1)
      else if tu_suspension ts1 \<noteq> None
      then (False, ts1\<lparr>tu_reply := (case lr_content resp of Some c \<Rightarrow> c | None \<Rightarrow> []), tu_terminated_by := AwaitingToolInput\<rparr>, w1)
      else (True, ts1, w1))"

definition handle_response ::
  "'w turn_env \<Rightarrow> llm_response \<Rightarrow> turn_state \<Rightarrow> 'w \<Rightarrow> bool \<times> turn_state \<times> 'w" where
  "handle_response env resp ts w =
     (if lr_tool_calls resp = []
      then (False, ts\<lparr>tu_reply := (case lr_content resp of Some c \<Rightarrow> c | None \<Rightarrow> []), tu_terminated_by := FinalReply\<rparr>, w)
      else
        let calls = ensure_unique_call_ids (rt_uuid (tn_rt env) w) (lr_tool_calls resp) in
        case (if tn_conv_active env then find (\<lambda>c. is_host_tool c END_CONVERSATION_TOOL) calls else None) of
          Some call \<Rightarrow> (False, end_conversation resp call ts, w)
        | None \<Rightarrow> tool_batch env resp calls ts w)"

primrec iterate ::
  "nat \<Rightarrow> 'w turn_env \<Rightarrow> nat \<Rightarrow> turn_state \<Rightarrow> 'w \<Rightarrow> (agent_error, turn_state) result \<times> 'w" where
  "iterate 0 env iter ts w = (Inr ts, w)"
| "iterate (Suc n) env iter ts w =
     (let rt = tn_rt env; limits = ag_limits (tn_config env); ts1 = ts\<lparr>tu_iterations := iter + 1\<rparr> in
      case ensure_lock_held rt (tn_tenant env) (tn_session_id env) w of
        (Inl e, w1) \<Rightarrow> (Inl e, record_error_exit env ts1 w1)
      | (Inr _, w1) \<Rightarrow>
          if al_timeout limits \<le> elapsed env w1 then (Inr (ts1\<lparr>tu_terminated_by := Timeout\<rparr>), w1)
          else
            let st = truncate_history (al_max_history_turns limits) (tu_state ts1); ts2 = ts1\<lparr>tu_state := st\<rparr>;
                req = build_request env st w1 in
            case rt_llm_cut rt (time_left env w1) req w1 of
              Some w2 \<Rightarrow> (Inr (ts2\<lparr>tu_terminated_by := Timeout\<rparr>), w2)
            | None \<Rightarrow>
                (case llm_call (rt_llm rt) limits (rt_wants_streaming rt) req w1 of
                   (Inl e, w2) \<Rightarrow> llm_failed env e ts2 w2
                 | (Inr resp, w2) \<Rightarrow>
                     (let (ts3, w3) = count_tokens env resp ts2 w2;
                          (goes_on, ts4, w4) = handle_response env resp ts3 w3 in
                      if goes_on then iterate n env (iter + 1) ts4 w4 else (Inr ts4, w4))))"

subsection \<open>The end of a turn\<close>

definition guardrail_denied :: "guardrail_direction \<Rightarrow> guardrail_deny_info \<Rightarrow> agent_error" where
  "guardrail_denied d info = AgGuardrailDenied d (gd_code info) (gd_message info) (gd_details info)"

definition side_finish ::
  "'w turn_env \<Rightarrow> turn_state \<Rightarrow> bool \<times> conversation_state \<times> termination_reason \<times> json option" where
  "side_finish env ts =
     (if tn_side_pending env then finish_side_turn (tu_state ts) (tu_terminated_by ts) (tu_suspension ts)
      else (False, tu_state ts, tu_terminated_by ts, tu_suspension ts))"

definition step_output :: "string \<Rightarrow> bool \<Rightarrow> turn_state \<Rightarrow> agent_output" where
  "step_output reply side ts =
     \<lparr>ao_reply = reply, ao_trail = tu_trail ts, ao_terminated_by = tu_terminated_by ts,
      ao_usage = \<lparr>us_tokens_in = tu_tokens_in ts, us_tokens_out = tu_tokens_out ts, us_iterations = tu_iterations ts\<rparr>,
      ao_pending_presentation = tu_suspension ts, ao_side_turn = side\<rparr>"

text \<open>What follows the save of a reply: the episode, the shared trace and the user's ledger, each only for a reply that says something.\<close>

definition ingest_reply :: "'w turn_env \<Rightarrow> string \<Rightarrow> 'w \<Rightarrow> 'w" where
  "ingest_reply env reply w =
     (if reply \<noteq> [] \<and> tn_lt_active env
      then case rt_long_term (tn_rt env) of
             None \<Rightarrow> w
           | Some m \<Rightarrow>
               (case rt_types_tenant (tn_rt env) (tn_tenant env) of
                  Inl _ \<Rightarrow> w
                | Inr _ \<Rightarrow> lm_ingest m (tn_tenant env) (tn_session_id env @ '':turn'')
                            (tn_user_message env @ newline @ newline @ reply) (rt_now (tn_rt env) w) w)
      else w)"

definition trace_reply :: "'w turn_env \<Rightarrow> string \<Rightarrow> 'w \<Rightarrow> 'w" where
  "trace_reply env reply w =
     (case tn_record_to env of
        Some t \<Rightarrow> if reply \<noteq> []
                  then rt_put_trace (tn_rt env) t
                         (trace_append (tn_agent_id env) ''reply'' reply (rt_trace (tn_rt env) t w)) w
                  else w
      | None \<Rightarrow> w)"

definition ledger_reply :: "'w turn_env \<Rightarrow> string \<Rightarrow> 'w \<Rightarrow> 'w" where
  "ledger_reply env reply w =
     (case tn_ledger_turn env of
        Some h \<Rightarrow> if reply \<noteq> [] then rt_ledger_reply (tn_rt env) h reply w else w
      | None \<Rightarrow> w)"

definition save_turn ::
  "'w turn_env \<Rightarrow> turn_state \<Rightarrow> 'w \<Rightarrow> (agent_error, unit) result \<times> 'w" where
  "save_turn env ts w =
     (let rt = tn_rt env;
          st = truncate_history (al_max_history_turns (ag_limits (tn_config env))) (tu_state ts) in
      case ensure_lock_held rt (tn_tenant env) (tn_session_id env) w of
        (Inl e, w1) \<Rightarrow> (Inl e, w1)
      | (Inr _, w1) \<Rightarrow> (Inr (), snd (rt_save rt (tn_tenant env) (tn_session_id env) st w1)))"

definition finish_reply ::
  "'w turn_env \<Rightarrow> turn_state \<Rightarrow> 'w \<Rightarrow> (agent_error, agent_output) result \<times> 'w" where
  "finish_reply env ts w =
     (let rt = tn_rt env in
      case run_chain_blocking (rt_to_text rt) (rt_evaluate rt) Outbound (tn_guardrail_ctx env) (tn_chain env) (tu_reply ts) w of
        (DeniedOutcome info d ob, w1) \<Rightarrow> (Inl (guardrail_denied d info), w1)
      | (PassOutcome reply obs, w1) \<Rightarrow>
          (let (side, st, reason, offer) = side_finish env ts;
               ts1 = push_step (ReplyStep reply) (push_chat (AssistantMsg reply [])
                       (ts\<lparr>tu_state := st, tu_terminated_by := reason, tu_suspension := offer\<rparr>)) in
           case save_turn env ts1 w1 of
             (Inl e, w2) \<Rightarrow> (Inl e, w2)
           | (Inr _, w2) \<Rightarrow>
               (let w3 = ledger_reply env reply (trace_reply env reply (ingest_reply env reply w2)) in
                (Inr (step_output reply side ts1), rt_record_step rt (step_telemetry_of env reason ts1 w3) w3))))"

definition finish_quiet ::
  "'w turn_env \<Rightarrow> turn_state \<Rightarrow> 'w \<Rightarrow> (agent_error, agent_output) result \<times> 'w" where
  "finish_quiet env ts w =
     (let (side, st, reason, offer) = side_finish env ts;
          ts1 = ts\<lparr>tu_state := st, tu_terminated_by := reason, tu_suspension := offer\<rparr> in
      case save_turn env ts1 w of
        (Inl e, w1) \<Rightarrow> (Inl e, w1)
      | (Inr _, w1) \<Rightarrow>
          (Inr (step_output (tu_reply ts1) side ts1), rt_record_step (tn_rt env) (step_telemetry_of env reason ts1 w1) w1))"

definition finish_turn ::
  "'w turn_env \<Rightarrow> turn_state \<Rightarrow> 'w \<Rightarrow> (agent_error, agent_output) result \<times> 'w" where
  "finish_turn env ts w =
     (if tu_terminated_by ts = FinalReply \<or> tu_terminated_by ts = ConversationEnded
      then finish_reply env ts w else finish_quiet env ts w)"

subsection \<open>The start of a turn\<close>

definition budget_gate ::
  "'w agent_runtime \<Rightarrow> tenant_context \<Rightarrow> agent_config \<Rightarrow> 'w \<Rightarrow> (agent_error, unit) result \<times> 'w" where
  "budget_gate rt t config w =
     (let (capped, w1) =
        (case al_daily_token_cap_per_tenant (ag_limits config) of
           None \<Rightarrow> (Inr (), w)
         | Some cap \<Rightarrow>
             (case rt_tokens_used rt t w of
                (Inl e, w1) \<Rightarrow> (Inl (AgStateLoad e), w1)
              | (Inr used, w1) \<Rightarrow> (if cap \<le> used then Inl AgTokenBudgetExceeded else Inr (), w1))) in
      case capped of
        Inl e \<Rightarrow> (Inl e, w1)
      | Inr _ \<Rightarrow> (let (over, w2) = rt_over_budget rt t w1 in
                 (if over then Inl AgCreditBudgetExceeded else Inr (), w2)))"

fun lock_error :: "state_error \<Rightarrow> agent_error" where
  "lock_error (LockTimeout _) = AgLockTimeout"
| "lock_error e = from_state_error e"

text \<open>The greeting of a first turn without text.\<close>

definition opening_of :: "agent_config \<Rightarrow> agent_input \<Rightarrow> conversation_state \<Rightarrow> string option" where
  "opening_of config message st =
     (if cs_messages st = [] \<and> trim_white (ai_text message) = []
      then Option.bind (map_option trim_white (ag_opening_message config)) (\<lambda>m. if m \<noteq> [] then Some m else None)
      else None)"

definition opening_output :: "string \<Rightarrow> agent_output" where
  "opening_output opening =
     \<lparr>ao_reply = opening, ao_trail = [], ao_terminated_by = FinalReply,
      ao_usage = \<lparr>us_tokens_in = 0, us_tokens_out = 0, us_iterations = 0\<rparr>,
      ao_pending_presentation = None, ao_side_turn = False\<rparr>"

definition opening_turn ::
  "'w agent_runtime \<Rightarrow> tenant_context \<Rightarrow> string \<Rightarrow> string \<Rightarrow> conversation_state \<Rightarrow> 'w \<Rightarrow>
     (agent_error, agent_output) result \<times> 'w" where
  "opening_turn rt t session_id opening st w =
     (Inr (opening_output opening),
      snd (rt_save rt t session_id (st\<lparr>cs_messages := cs_messages st @ [AssistantMsg opening []]\<rparr>) w))"

definition unavailable_guardrail :: "(json \<Rightarrow> string) \<Rightarrow> string \<Rightarrow> json \<Rightarrow> agent_error" where
  "unavailable_guardrail to_text key v =
     AgGuardrailDenied Inbound ''internal'' ''A required guardrail is unavailable.''
       (Some (to_text (json_obj [(key, v)])))"

definition guardrail_chain ::
  "'w agent_runtime \<Rightarrow> tenant_context \<Rightarrow> agent_config \<Rightarrow> 'w \<Rightarrow> (agent_error, resolved_guardrail list) result \<times> 'w" where
  "guardrail_chain rt t config w =
     (case rt_mandatory_guardrails rt t w of
        (Inl e, w1) \<Rightarrow> (Inl (unavailable_guardrail (rt_to_text rt) ''policy_unavailable'' (JBool True)), w1)
      | (Inr mandatory, w1) \<Rightarrow>
          (case assemble_chain (rt_capability rt w1) mandatory (ag_guardrails config) of
             Inl unresolved \<Rightarrow>
               (Inl (unavailable_guardrail (rt_to_text rt) ''unresolved_mandatory'' (JArray (map JString unresolved))), w1)
           | Inr chain \<Rightarrow> (Inr chain, w1)))"

text \<open>The user's message through the inbound guardrails; the answer to a parked flow goes to the flow instead.\<close>

definition receive_message ::
  "'w agent_runtime \<Rightarrow> guardrail_run_ctx \<Rightarrow> resolved_guardrail list \<Rightarrow> bool \<Rightarrow> agent_input \<Rightarrow> conversation_state \<Rightarrow> 'w \<Rightarrow>
     (agent_error, string \<times> conversation_state) result \<times> 'w" where
  "receive_message rt gctx chain resuming message st w =
     (if resuming then (Inr (last_user_text st, st), w)
      else
        case run_chain_blocking (rt_to_text rt) (rt_evaluate rt) Inbound gctx chain (ai_text message) w of
          (DeniedOutcome info d ob, w1) \<Rightarrow> (Inl (guardrail_denied d info), w1)
        | (PassOutcome content obs, w1) \<Rightarrow>
            (Inr (content, st\<lparr>cs_messages := cs_messages st @ [UserMsg content (ai_attachments message)]\<rparr>), w1))"

definition recall_facts ::
  "'w agent_runtime \<Rightarrow> tenant_context \<Rightarrow> bool \<Rightarrow> string \<Rightarrow> 'w \<Rightarrow> recalled_fact list \<times> 'w" where
  "recall_facts rt t lt_active user_message w =
     (if lt_active
      then (case recall_long_term rt t user_message (Some AUTO_INJECT_K) w of
              (Inr facts, w1) \<Rightarrow> (facts, w1)
            | (Inl e, w1) \<Rightarrow> ([], w1))
      else ([], w))"

definition retrieve_chunks ::
  "'w agent_runtime \<Rightarrow> tenant_context \<Rightarrow> agent_config \<Rightarrow> string \<Rightarrow> 'w \<Rightarrow> retrieved_chunk list \<times> 'w" where
  "retrieve_chunks rt t config user_message w =
     (if knowledge_active (rt_knowledge rt \<noteq> None) config
      then (case search_knowledge rt t user_message (Some (auto_top_k config))
                   (Option.bind (ag_knowledge config) ks_knowledge) w of
              (Inr chunks, w1) \<Rightarrow> (chunks, w1)
            | (Inl e, w1) \<Rightarrow> ([], w1))
      else ([], w))"

definition turn_prompt ::
  "agent_config \<Rightarrow> recalled_fact list \<Rightarrow> retrieved_chunk list \<Rightarrow> bool \<Rightarrow> bool \<Rightarrow> bool \<Rightarrow> string option \<Rightarrow> string" where
  "turn_prompt config facts chunks conv_active resumed_after_side_turns side_pending view =
     (let p1 = augment_with_chunks (augment_with_facts (ag_system_prompt config) facts) chunks;
          p2 = (if conv_active then augment_conversational p1 else p1);
          p3 = with_note_if resumed_after_side_turns RESUME_AFTER_SIDE_TURNS_NOTE p2;
          p4 = with_note_if side_pending SIDE_TURN_NOTE p3 in
      augment_with_view p4 view)"

text \<open>The parked flow is resumed with the answer; files that came with it are announced, or counted when it parks again.\<close>

definition parked_flow ::
  "'w turn_env \<Rightarrow> pending_tool_call \<Rightarrow> (string \<Rightarrow> json \<Rightarrow> json \<Rightarrow> 'w \<Rightarrow> flow_invoke_outcome \<times> 'w) option" where
  "parked_flow env p =
     map_option (\<lambda>c. fw_resume c
       (under_binding (if pt_extension_id p = [] then ''flow:'' @ pt_flow_ref p else pt_extension_id p) (tn_current env))
       (flow_frame env (pt_call_id p))) (cg_flows (tn_catalogs env))"

definition resume_turn ::
  "'w turn_env \<Rightarrow> pending_tool_call \<Rightarrow> json \<Rightarrow> nat \<Rightarrow> turn_state \<Rightarrow> 'w \<Rightarrow> turn_state \<times> 'w" where
  "resume_turn env p payload attachment_count ts w =
     (let rt = tn_rt env;
          flows = parked_flow env p;
          w1 = (case flows of Some resume \<Rightarrow> snd (resume (pt_flow_ref p) (pt_flow_snapshot p) payload w) | None \<Rightarrow> w);
          (shown, st, steps, w2) =
            resume_pending flows (\<lambda>t i c r u. snd (lg_record (rt_ledger rt) t i c r u)) (rt_now rt w1)
              (millis_between (rt_clock rt w) (rt_clock rt w1)) (tn_tenant env) (tn_session_id env) p payload (tu_state ts) [] w;
          st1 = (case cs_pending_tool st of
                   Some q \<Rightarrow>
                     if shown \<noteq> None
                     then st\<lparr>cs_pending_tool := Some (q\<lparr>pt_unannounced_attachments :=
                            sat_add32 (pt_unannounced_attachments q) (min attachment_count u32_max)\<rparr>)\<rparr>
                     else announce_unread_attachments (pt_call_id p) (pt_unannounced_attachments p + attachment_count) st
                 | None \<Rightarrow> announce_unread_attachments (pt_call_id p) (pt_unannounced_attachments p + attachment_count) st) in
      (ts\<lparr>tu_state := st1, tu_trail := tu_trail ts @ map ToolCallStep steps, tu_suspension := shown,
          tu_iterations := pt_iterations_used p,
          tu_terminated_by := (if shown \<noteq> None then AwaitingToolInput else tu_terminated_by ts)\<rparr>, w2))"

definition iterations_left :: "agent_limits \<Rightarrow> nat \<Rightarrow> turn_state \<Rightarrow> nat" where
  "iterations_left limits first_iter ts =
     (if tu_suspension ts \<noteq> None then 0
      else (if 0 < first_iter then max (al_max_iter limits) (sat_add32 first_iter 1) else al_max_iter limits) - first_iter)"

definition first_turn_state :: "conversation_state \<Rightarrow> retrieved_chunk list \<Rightarrow> tool_step option \<Rightarrow> turn_state" where
  "first_turn_state st chunks cancelled =
     \<lparr>tu_state = st,
      tu_trail = (if chunks \<noteq> [] then [KnowledgeRetrievalStep chunks] else []) @
        (case cancelled of Some s \<Rightarrow> [ToolCallStep s] | None \<Rightarrow> []),
      tu_terminated_by = MaxIterations, tu_iterations = 0, tu_reply = [], tu_had_tool_error = False,
      tu_timed_out = False, tu_suspension = None, tu_total_tokens = 0, tu_tokens_in = 0, tu_tokens_out = 0\<rparr>"

definition prepare_env ::
  "'w agent_runtime \<Rightarrow> run_context option \<Rightarrow> tenant_context \<Rightarrow> string \<Rightarrow> string \<Rightarrow> agent_config \<Rightarrow> nat \<Rightarrow> nat \<Rightarrow>
     resolved_guardrail list \<Rightarrow> guardrail_run_ctx \<Rightarrow> nat option \<Rightarrow> agent_input \<Rightarrow> taken \<Rightarrow> string \<Rightarrow> 'w \<Rightarrow>
     'w turn_env \<times> retrieved_chunk list \<times> 'w" where
  "prepare_env rt current t session_id agent_id config started step_id chain gctx ledger message tk user_message w =
     (let lt = long_term_active (rt_long_term rt \<noteq> None) config;
          st = short_term_active (rt_short_term rt \<noteq> None) config;
          conv = ai_conversational message \<or> ag_conversational config;
          (facts, w1) = recall_facts rt t lt user_message w;
          (chunks, w2) = retrieve_chunks rt t config user_message w1;
          (view, w3) = (case ledger of Some h \<Rightarrow> rt_ledger_view rt h w2 | None \<Rightarrow> (None, w2));
          (cat, w4) = rt_catalogs rt t (ag_tools config) (ag_llm config) w3;
          after_side = (case tk of Resume p _ \<Rightarrow> 0 < pt_side_turns p | _ \<Rightarrow> False) in
      (\<lparr>tn_rt = rt, tn_tenant = t, tn_session_id = session_id, tn_agent_id = agent_id, tn_config = config,
        tn_started = started, tn_step_id = step_id, tn_current = current,
        tn_run_trace = view_trace (tc_tenant_id t) current, tn_record_to = record_trace (tc_tenant_id t) current,
        tn_chain = chain, tn_guardrail_ctx = gctx, tn_ledger_turn = ledger, tn_user_message = user_message,
        tn_lt_active = lt, tn_st_active = st, tn_conv_active = conv, tn_side_pending = (tk = Side),
        tn_system_prompt = turn_prompt config facts chunks conv after_side (tk = Side) view, tn_catalogs = cat\<rparr>,
       chunks, w4))"

text \<open>The turn once everything is prepared.\<close>

definition drive_turn ::
  "'w turn_env \<Rightarrow> taken \<Rightarrow> nat \<Rightarrow> turn_state \<Rightarrow> 'w \<Rightarrow> (agent_error, agent_output) result \<times> 'w" where
  "drive_turn env tk attachment_count ts w =
     (let (first_iter, ts1, w1) =
            (case tk of
               Resume p payload \<Rightarrow> (pt_iterations_used p, resume_turn env p payload attachment_count ts w)
             | _ \<Rightarrow> (0, ts, w)) in
      case iterate (iterations_left (ag_limits (tn_config env)) first_iter ts1) env first_iter ts1 w1 of
        (Inl e, w2) \<Rightarrow> (Inl e, w2)
      | (Inr ts2, w2) \<Rightarrow> finish_turn env ts2 w2)"

definition locked_step ::
  "'w agent_runtime \<Rightarrow> run_context option \<Rightarrow> tenant_context \<Rightarrow> string \<Rightarrow> string \<Rightarrow> agent_config \<Rightarrow> nat \<Rightarrow> nat \<Rightarrow> agent_input \<Rightarrow>
     'w \<Rightarrow> (agent_error, agent_output) result \<times> 'w" where
  "locked_step rt current t session_id agent_id config started step_id message w =
     (case rt_load rt t session_id w of
        (Inl e, w1) \<Rightarrow> (Inl (from_state_error e), w1)
      | (Inr st, w1) \<Rightarrow>
      (case opening_of config message st of
        Some opening \<Rightarrow> opening_turn rt t session_id opening st w1
      | None \<Rightarrow>
          (let (tk, st1) = take_pending (ai_resume_payload message) (rt_now rt w1) (ag_on_text_while_parked config) st;
               gctx = \<lparr>gx_agent_id = agent_id, gx_session_id = session_id, gx_tenant_id = tc_tenant_id t,
                       gx_env_id = tc_env_id t\<rparr>;
               resuming = (case tk of Resume _ _ \<Rightarrow> True | _ \<Rightarrow> False) in
           case guardrail_chain rt t config w1 of
             (Inl e, w2) \<Rightarrow> (Inl e, w2)
           | (Inr chain, w2) \<Rightarrow>
               (let ledger = rt_ledger_turn rt t agent_id message w2 in
                case receive_message rt gctx chain resuming message st1 w2 of
                  (Inl e, w3) \<Rightarrow> (Inl e, w3)
                | (Inr (user_message, st2), w3) \<Rightarrow>
                    (let (env, chunks, w4) = prepare_env rt current t session_id agent_id config started step_id chain gctx
                                               ledger message tk user_message w3;
                         cancelled = (case tk of Cancelled s \<Rightarrow> Some s | _ \<Rightarrow> None) in
                     drive_turn env tk (if resuming then length (ai_attachments message) else 0)
                       (first_turn_state st2 chunks cancelled) w4)))))"

definition run_step_scoped ::
  "'w agent_runtime \<Rightarrow> run_context option \<Rightarrow> tenant_context \<Rightarrow> string \<Rightarrow> string \<Rightarrow> agent_input \<Rightarrow> 'w \<Rightarrow>
     (agent_error, agent_output) result \<times> 'w" where
  "run_step_scoped rt current t session_id agent_id message w =
     (case rt_agent_config rt t agent_id w of
        (Inl e, w1) \<Rightarrow> (Inl (AgConfig e), w1)
      | (Inr config, w1) \<Rightarrow>
          (let (step_id, w2) = rt_step_id rt w1 in
           case budget_gate rt t config w2 of
             (Inl e, w3) \<Rightarrow> (Inl e, w3)
           | (Inr _, w3) \<Rightarrow>
               (case rt_acquire_lock rt t session_id w3 of
                  (Inl e, w4) \<Rightarrow> (Inl (lock_error e), w4)
                | (Inr _, w4) \<Rightarrow>
                    (let (out, w5) = locked_step rt current t session_id agent_id config (rt_clock rt w) step_id message w4 in
                     (out, rt_release_lock rt t session_id w5)))))"

definition run_step ::
  "'w agent_runtime \<Rightarrow> run_context option \<Rightarrow> tenant_context \<Rightarrow> string \<Rightarrow> string \<Rightarrow> agent_input \<Rightarrow> 'w \<Rightarrow>
     (agent_error, agent_output) result \<times> 'w" where
  "run_step rt current t session_id agent_id message w =
     run_step_scoped rt (step_context (rt_share_modes_for rt) (tc_tenant_id t) agent_id current) t session_id agent_id message w"

text \<open>\<open>AgentRuntime::parked_card\<close>: the card of a live park.\<close>

definition parked_card :: "'w agent_runtime \<Rightarrow> tenant_context \<Rightarrow> string \<Rightarrow> 'w \<Rightarrow> json option \<times> 'w" where
  "parked_card rt t session_id w =
     (case rt_load rt t session_id w of
        (Inl e, w1) \<Rightarrow> (None, w1)
      | (Inr st, w1) \<Rightarrow>
          (Option.bind (cs_pending_tool st)
             (\<lambda>p. if is_expired (rt_now rt w1) p then None else pt_presentation p), w1))"

end
