(* ===== verification/Parked_History.thy ===== *)
theory Parked_History
  imports Parked_Tool
begin

section \<open>Histories with a parked call\<close>

text \<open>
  What a stored conversation keeps to: every tool result answers a call of its turn, and the only call
  without a result is the parked one, at its latest site. Taking up the parked call, resuming it and
  truncation keep to it, and the first two make the history one that can be sent.
\<close>

subsection \<open>Patching, at the site of the call\<close>

fun put_result :: "string \<Rightarrow> json \<Rightarrow> chat_message list \<Rightarrow> chat_message list" where
  "put_result i c [] = [ToolMsg i c]"
| "put_result i c (m # ms) = (if answers_call i m then ToolMsg i c # ms else m # put_result i c ms)"

definition call_site_of :: "string \<Rightarrow> chat_message list \<Rightarrow> chat_message \<Rightarrow> chat_message list \<Rightarrow> chat_message list \<Rightarrow> bool" where
  "call_site_of i pre a run rest \<longleftrightarrow> makes_call i a \<and> list_all is_tool run \<and>
     (rest = [] \<or> \<not> is_tool (hd rest)) \<and> list_all (\<lambda>m. \<not> makes_call i m) rest"

lemma put_result_update:
  "m < length run \<Longrightarrow> answers_call i (run ! m) \<Longrightarrow> (\<And>j. j < m \<Longrightarrow> \<not> answers_call i (run ! j)) \<Longrightarrow>
   put_result i c run = run[m := ToolMsg i c]"
proof (induction run arbitrary: m)
  case (Cons x run)
  show ?case
  proof (cases m)
    case 0
    with Cons.prems show ?thesis by simp
  next
    case (Suc n)
    with Cons.prems have "\<not> answers_call i x" and "\<And>j. j < n \<Longrightarrow> \<not> answers_call i (run ! j)"
      by force+
    with Cons.IH [of n] Cons.prems Suc show ?thesis by simp
  qed
qed simp

lemma put_result_none: "list_all (\<lambda>m. \<not> answers_call i m) run \<Longrightarrow> put_result i c run = run @ [ToolMsg i c]"
  by (induction run) simp_all

lemma tools_put_result:
  "list_all is_tool run \<Longrightarrow> list_all is_tool (put_result i c run) \<and> tool_ids (put_result i c run) = insert i (tool_ids run)"
proof (induction run)
  case (Cons m run)
  then obtain j d where m: "m = ToolMsg j d" by (cases m) auto
  with Cons show ?case by auto
qed simp

lemma run_end_stops: "e \<le> length ms \<Longrightarrow> tool_run_end_from ms e < length ms \<Longrightarrow> \<not> is_tool (ms ! tool_run_end_from ms e)"
proof (induction ms e rule: tool_run_end_from.induct)
  case (1 ms e)
  then show ?case by (cases "e < length ms \<and> is_tool (ms ! e)") (auto simp: tool_run_end_from.simps [of ms e])
qed

lemma site_run_end:
  assumes "call_site_of i pre a run rest"
  shows "tool_run_end (pre @ a # run @ rest) (length pre) = Suc (length pre) + length run"
proof -
  let ?ms = "pre @ a # run @ rest" and ?e = "Suc (length pre)"
  have run: "list_all is_tool run" and rest: "rest = [] \<or> \<not> is_tool (hd rest)"
    using assms by (auto simp: call_site_of_def)
  have nth: "?ms ! (?e + k) = run ! k" if "k < length run" for k using that by (simp add: nth_append)
  have "?e + length run \<le> tool_run_end_from ?ms ?e"
  proof (rule run_end_from_ge)
    fix j
    assume "?e \<le> j" "j < ?e + length run"
    then have "?ms ! j = run ! (j - ?e)" "j - ?e < length run" using nth [of "j - ?e"] by simp_all
    with run show "is_tool (?ms ! j)" by (simp add: list_all_length)
  qed simp_all
  moreover have "\<not> ?e + length run < tool_run_end_from ?ms ?e"
  proof
    assume less: "?e + length run < tool_run_end_from ?ms ?e"
    from run_end_from [of ?e ?ms] have "tool_run_end_from ?ms ?e \<le> length ?ms"
      and t: "is_tool (?ms ! (?e + length run))" using less by auto
    with less have "rest \<noteq> []" by auto
    then have "?ms ! (?e + length run) = hd rest" by (simp add: nth_append hd_conv_nth)
    with t rest \<open>rest \<noteq> []\<close> show False by simp
  qed
  ultimately show ?thesis by (simp add: tool_run_end_def)
qed

lemma site_latest:
  assumes "call_site_of i pre a run rest"
  shows "latest_assistant_with (pre @ a # run @ rest) i = Some (length pre)"
  using assms latest_at [of i a "run @ rest" pre] tools_make_no_call [of run i] by (auto simp: call_site_of_def)

lemma patch_at_site:
  assumes "call_site_of i pre a run rest"
  shows "patch_messages i c (pre @ a # run @ rest) = pre @ a # put_result i c run @ rest"
proof -
  let ?ms = "pre @ a # run @ rest" and ?n = "length pre"
  note l = site_latest [OF assms] and e = site_run_end [OF assms]
  show ?thesis
  proof (cases "result_slot ?ms ?n i")
    case None
    from slot_None_ids [OF None refl refl e] have "i \<notin> tool_ids run" .
    then have "list_all (\<lambda>m. \<not> answers_call i m) run"
      by (auto simp: list_all_iff tool_ids_def elim!: answers_call.elims)
    moreover have "list_insert (Suc ?n + length run) (ToolMsg i c) ?ms = pre @ a # run @ ToolMsg i c # rest"
      using insert_at [of "Suc ?n + length run" "pre @ a # run"] by simp
    ultimately show ?thesis using None l e by (simp add: patch_messages_def put_result_none)
  next
    case (Some k)
    then obtain m where m: "m < length run" "k = Suc ?n + m" "answers_call i (?ms ! k)"
      "\<And>j. j < m \<Longrightarrow> \<not> answers_call i (?ms ! (Suc ?n + j))"
      unfolding result_slot_def e find_Some_iff by (auto simp del: upt_Suc)
    have nth: "?ms ! (Suc ?n + j) = run ! j" if "j < length run" for j using that by (simp add: nth_append)
    have "put_result i c run = run[m := ToolMsg i c]"
      using m nth by (intro put_result_update) auto
    moreover have "?ms[k := x] = pre @ a # run[m := x] @ rest" for x
      using m(1,2) by (simp add: list_update_append)
    ultimately show ?thesis using Some l by (simp add: patch_messages_def)
  qed
qed

lemma site_exists:
  assumes "latest_assistant_with ms i = Some at"
  obtains pre a run rest where "ms = pre @ a # run @ rest" and "call_site_of i pre a run rest" and "length pre = at"
proof (rule call_site [OF assms])
  fix pre a run rest
  assume S: "ms = pre @ a # run @ rest" "length pre = at" "makes_call i a" "list_all is_tool run"
    "list_all (\<lambda>m. \<not> makes_call i m) rest" "tool_run_end ms at = Suc at + length run"
  have "\<not> is_tool (hd rest)" if "rest \<noteq> []"
  proof -
    have "ms ! (Suc at + length run) = hd rest" using S(1,2) that by (simp add: nth_append hd_conv_nth)
    moreover have "Suc at + length run < length ms" using S(1,2) that by simp
    moreover have "Suc at \<le> length ms" using S(1,2) by simp
    ultimately show ?thesis using run_end_stops [of "Suc at" ms] S(6) by (simp add: tool_run_end_def)
  qed
  with S show thesis by (intro that [of pre a run rest]) (auto simp: call_site_of_def)
qed

text \<open>What the site looks like inside makes no difference, only which calls are answered there.\<close>

lemma site_unanswered:
  assumes "call_site_of i pre a run rest" and "list_all is_tool run'" and "tool_ids run' = insert i (tool_ids run)"
  shows "unanswered (pre @ a # run' @ rest) = unanswered (patch_messages i JNull (pre @ a # run @ rest))"
proof -
  let ?p = "put_result i JNull run"
  from assms(1) have a: "makes_call i a" and run: "list_all is_tool run" by (auto simp: call_site_of_def)
  from tools_put_result [OF run, of i JNull] assms(3) have p: "list_all is_tool ?p" "tool_ids ?p = tool_ids run'" by auto
  from site_swap(2) [OF a p(1) assms(2), of pre rest] site_swap(2) [OF a assms(2) p(1), of pre rest] p(2)
  show ?thesis unfolding patch_at_site [OF assms(1)] by auto
qed

lemma patch_unanswered:
  assumes "latest_assistant_with ms i = Some at"
  shows "unanswered (patch_messages i c ms) = unanswered (patch_messages i JNull ms)"
proof (rule site_exists [OF assms])
  fix pre a run rest
  assume ms: "ms = pre @ a # run @ rest" and s: "call_site_of i pre a run rest"
  then have "list_all is_tool run" by (simp add: call_site_of_def)
  from site_unanswered [OF s conjunct1 conjunct2, OF tools_put_result tools_put_result, OF this this]
  show ?thesis unfolding ms by (simp add: patch_at_site [OF s])
qed

subsection \<open>Truncation\<close>

lemma latest_None: "latest_assistant_with ms i = None \<longleftrightarrow> list_all (\<lambda>m. \<not> makes_call i m) ms"
  by (auto simp: latest_assistant_with_def find_None_iff list_all_length)

lemma makes_mentions: "makes_call i m \<Longrightarrow> mentions_call i m \<and> \<not> is_system m \<and> \<not> is_user m"
  by (cases m) auto

lemma user_not_tool: "is_user m \<Longrightarrow> \<not> is_tool m" "is_system m \<Longrightarrow> \<not> is_tool m" "is_user m \<Longrightarrow> \<not> makes_call i m"
  by (cases m; simp)+

lemma dropped_patched:
  assumes "turn_dropped (Some i) ms ms'" and "latest_assistant_with ms i \<noteq> None"
  shows "latest_assistant_with ms' i \<noteq> None \<and> turn_dropped (Some i) (patch_messages i c ms) (patch_messages i c ms')"
  using assms
proof (induction rule: turn_dropped.induct)
  case (turn_dropped m u mid pre suf)
  note h = turn_dropped.hyps
  let ?f = "filter is_system mid"
  show ?case
  proof (cases "latest_assistant_with suf i")
    case (Some k)
    then show ?thesis
    proof (rule site_exists)
      fix p a run rest
      assume suf: "suf = p @ a # run @ rest" and s: "call_site_of i p a run rest"
      then have s': "call_site_of i q a run rest" for q by (simp add: call_site_of_def)
      have old: "patch_messages i c (pre @ m # mid @ u # suf) = pre @ m # mid @ u # p @ a # put_result i c run @ rest"
        using patch_at_site [OF s', of c "pre @ m # mid @ u # p"] by (simp add: suf)
      have new: "patch_messages i c (pre @ ?f @ u # suf) = pre @ ?f @ u # p @ a # put_result i c run @ rest"
        using patch_at_site [OF s', of c "pre @ ?f @ u # p"] by (simp add: suf)
      have "latest_assistant_with (pre @ ?f @ u # suf) i \<noteq> None"
        using site_latest [OF s', of "pre @ ?f @ u # p"] by (simp add: suf)
      then show ?thesis unfolding old new using h by (auto intro: turn_dropped.turn_dropped)
    qed
  next
    case None
    have away: "list_all (\<lambda>x. \<not> makes_call i x) (m # mid @ u # suf)"
      using None h(2,4) makes_mentions user_not_tool(3)
      by (auto simp: latest_None list_all_iff holds_protected_def list_ex_iff)
    with turn_dropped.prems have "latest_assistant_with pre i \<noteq> None"
      by (auto simp: latest_None list_all_iff)
    then obtain k where "latest_assistant_with pre i = Some k" by blast
    then show ?thesis
    proof (rule site_exists)
      fix p a run rest
      assume pre: "pre = p @ a # run @ rest" and s: "call_site_of i p a run rest"
      then have "\<not> list_all is_system pre" by (auto simp: call_site_of_def dest!: makes_mentions)
      with h(5) have user: "is_user m" by simp
      have s1: "call_site_of i p a run (rest @ m # mid @ u # suf)"
        using s away user_not_tool(1) [OF user] by (cases rest) (auto simp: call_site_of_def)
      have "list_all (\<lambda>x. \<not> makes_call i x) (?f @ u # suf)" using away by (auto simp: list_all_iff)
      moreover have "\<not> is_tool (hd (?f @ u # suf))"
      proof (cases "?f")
        case (Cons x xs)
        then have "x \<in> set ?f" by simp
        then have "is_system x" by simp
        with Cons user_not_tool(2) show ?thesis by simp
      qed (use user_not_tool(1) [OF h(2)] in simp)
      ultimately have s2: "call_site_of i p a run (rest @ ?f @ u # suf)"
        using s by (cases rest) (auto simp: call_site_of_def)
      have old: "patch_messages i c (pre @ m # mid @ u # suf) = (p @ a # put_result i c run @ rest) @ m # mid @ u # suf"
        using patch_at_site [OF s1, of c] by (simp add: pre)
      have new: "patch_messages i c (pre @ ?f @ u # suf) = (p @ a # put_result i c run @ rest) @ ?f @ u # suf"
        using patch_at_site [OF s2, of c] by (simp add: pre)
      have "latest_assistant_with (pre @ ?f @ u # suf) i \<noteq> None" using site_latest [OF s2] by (simp add: pre)
      then show ?thesis unfolding old new using h user by (intro conjI turn_dropped.turn_dropped) auto
    qed
  qed
qed

lemma dropped_star_patched:
  assumes "(turn_dropped (Some i))\<^sup>*\<^sup>* ms ms'" and "latest_assistant_with ms i \<noteq> None"
  shows "latest_assistant_with ms' i \<noteq> None \<and> unanswered (patch_messages i c ms') \<subseteq> unanswered (patch_messages i c ms)"
  using assms
proof induction
  case (step y z)
  with dropped_patched [OF step.hyps(2), of c] show ?case by (auto dest: unanswered_dropped)
qed simp

subsection \<open>Stored conversations\<close>

text \<open>A history a provider accepts, a state that may be sent, and a state that may be stored.\<close>

definition calls_settled :: "chat_message list \<Rightarrow> bool" where
  "calls_settled ms \<longleftrightarrow> paired {} ms \<and> unanswered ms = {}"

definition parked_linked :: "conversation_state \<Rightarrow> bool" where
  "parked_linked st \<longleftrightarrow>
     (\<forall>p. cs_pending_tool st = Some p \<longrightarrow> latest_assistant_with (cs_messages st) (pt_call_id p) \<noteq> None)"

definition sendable :: "conversation_state \<Rightarrow> bool" where
  "sendable st \<longleftrightarrow> calls_settled (cs_messages st) \<and> parked_linked st"

definition storable :: "conversation_state \<Rightarrow> bool" where
  "storable st \<longleftrightarrow> paired {} (cs_messages st) \<and> parked_linked st \<and>
     (case cs_pending_tool st of
        None \<Rightarrow> unanswered (cs_messages st) = {}
      | Some p \<Rightarrow> unanswered (patch_messages (pt_call_id p) JNull (cs_messages st)) = {})"

lemma history_ok_settled: "history_ok ms ms' \<Longrightarrow> calls_settled ms \<Longrightarrow> calls_settled ms'"
  by (auto simp: history_ok_def calls_settled_def)

lemma sendable_storable: "sendable st \<Longrightarrow> storable st"
proof -
  assume st: "sendable st"
  have "unanswered (patch_messages (pt_call_id p) JNull (cs_messages st)) = {}" if p: "cs_pending_tool st = Some p" for p
  proof -
    from st p obtain at where "latest_assistant_with (cs_messages st) (pt_call_id p) = Some at"
      by (auto simp: sendable_def parked_linked_def)
    from patch_answers [OF this, of JNull] st show ?thesis by (auto simp: sendable_def calls_settled_def history_ok_def)
  qed
  with st show ?thesis by (auto simp: storable_def sendable_def calls_settled_def split: option.splits)
qed

lemma truncate_storable: "storable st \<Longrightarrow> storable (truncate_history n st)"
proof -
  assume st: "storable st"
  let ?p = "map_option pt_call_id (cs_pending_tool st)"
  note reach = truncate_reaches [of ?p "cs_messages st" n]
  from dropped_star(3) [OF reach, of "{}"] st have pr: "paired {} (truncate_loop n ?p (cs_messages st))"
    by (simp add: storable_def)
  show ?thesis
  proof (cases "cs_pending_tool st")
    case None
    with st pr dropped_star(4) [OF reach] show ?thesis
      by (simp add: storable_def truncate_history_def parked_linked_def)
  next
    case (Some p)
    from reach Some have "(turn_dropped (Some (pt_call_id p)))\<^sup>*\<^sup>* (cs_messages st) (truncate_loop n ?p (cs_messages st))" by simp
    from dropped_star_patched [OF this, of JNull] st Some pr show ?thesis
      by (simp add: storable_def truncate_history_def parked_linked_def)
  qed
qed

lemma truncate_sendable: "sendable st \<Longrightarrow> sendable (truncate_history n st)"
proof -
  assume st: "sendable st"
  then have "storable (truncate_history n st)" by (intro truncate_storable sendable_storable)
  then have "parked_linked (truncate_history n st)" by (simp add: storable_def)
  moreover have "calls_settled (cs_messages (truncate_history n st))"
    using st dropped_star(3,4) [OF truncate_reaches [of "map_option pt_call_id (cs_pending_tool st)" "cs_messages st" n]]
    by (auto simp: sendable_def calls_settled_def truncate_history_def)
  ultimately show ?thesis by (simp add: sendable_def)
qed

subsection \<open>Taking up and resuming\<close>

lemma patched_settled:
  assumes "storable st" and "cs_pending_tool st = Some p"
  shows "calls_settled (patch_messages (pt_call_id p) c (cs_messages st))"
    and "\<exists>at. latest_assistant_with (cs_messages st) (pt_call_id p) = Some at"
proof -
  from assms obtain at where at: "latest_assistant_with (cs_messages st) (pt_call_id p) = Some at"
    by (auto simp: storable_def parked_linked_def)
  then show "\<exists>at. latest_assistant_with (cs_messages st) (pt_call_id p) = Some at" ..
  from patch_unanswered [OF at, of c] patch_answers [OF at, of c] assms
  show "calls_settled (patch_messages (pt_call_id p) c (cs_messages st))"
    by (auto simp: storable_def calls_settled_def history_ok_def)
qed

lemma announce_settled:
  assumes "calls_settled (patch_messages i c ms)" and "latest_assistant_with ms i = Some at"
    and "cs_messages st = patch_messages i c ms"
  shows "calls_settled (cs_messages (announce_unread_attachments i n st)) \<and>
    cs_pending_tool (announce_unread_attachments i n st) = cs_pending_tool st"
proof -
  from patch_answers [OF assms(2), of c] assms(3) have "latest_assistant_with (cs_messages st) i = Some at"
    "call_answered (cs_messages st) i" by simp_all
  from announce_keeps [OF this, of n] assms show ?thesis by (auto intro: history_ok_settled)
qed

lemma placeholder_settled:
  assumes "storable st" and "cs_pending_tool st = Some p"
  shows "calls_settled (cs_messages (snd (ensure_placeholder st))) \<and>
    latest_assistant_with (cs_messages (snd (ensure_placeholder st))) (pt_call_id p) \<noteq> None"
proof -
  let ?i = "pt_call_id p"
  from patched_settled(2) [OF assms] obtain at where at: "latest_assistant_with (cs_messages st) ?i = Some at" ..
  note P = placeholder_answers [OF assms(2) at]
  have linked: "latest_assistant_with (cs_messages (snd (ensure_placeholder st))) ?i \<noteq> None"
    using P by (auto simp: call_answered_def split: option.splits)
  have "unanswered (cs_messages (snd (ensure_placeholder st))) = unanswered (patch_messages ?i JNull (cs_messages st))"
  proof (rule site_exists [OF at])
    fix pre a run rest
    assume ms: "cs_messages st = pre @ a # run @ rest" and s: "call_site_of ?i pre a run rest" and n: "length pre = at"
    then have run: "list_all is_tool run" by (simp add: call_site_of_def)
    let ?t = "ToolMsg ?i (json_obj [(''status'', JString AWAITING_PLACEHOLDER)])"
    show ?thesis
    proof (cases "result_slot (cs_messages st) at ?i")
      case (Some k)
      from slot_Some [OF Some ms n] site_run_end [OF s] obtain m d where "m < length run" "run ! m = ToolMsg ?i d"
        using ms n by metis
      then have "?i \<in> tool_ids run" by (auto simp: tool_ids_def in_set_conv_nth)
      then have "tool_ids run = insert ?i (tool_ids run)" by auto
      from site_unanswered [OF s run this] Some at assms(2) show ?thesis
        by (simp add: ensure_placeholder_def Let_def ms)
    next
      case None
      have "list_insert (Suc at) ?t (cs_messages st) = pre @ a # (?t # run) @ rest"
        using insert_at [of "Suc at" "pre @ [a]" ?t "run @ rest"] ms n by simp
      with site_unanswered [OF s, of "?t # run"] run None at assms(2) show ?thesis
        by (simp add: ensure_placeholder_def Let_def ms)
    qed
  qed
  with P assms linked show ?thesis by (auto simp: calls_settled_def storable_def history_ok_def)
qed

lemma cancel_sendable:
  assumes "storable st" and "cs_pending_tool st = Some p" and "cancel_pending now p st = (tk, st')"
  shows "sendable st' \<and> cs_pending_tool st' = None \<and> (\<exists>s. tk = Cancelled s)"
proof -
  let ?i = "pt_call_id p" and ?c = "cancelled_value (cancel_reason now p)"
  from patched_settled(2) [OF assms(1,2)] obtain at where at: "latest_assistant_with (cs_messages st) ?i = Some at" ..
  from announce_settled [OF patched_settled(1) [OF assms(1,2)] at,
      of "patch_tool_result ?i ?c (st\<lparr>cs_pending_tool := None\<rparr>)" ?c "pt_unannounced_attachments p"] assms(3)
  show ?thesis by (auto simp: cancel_pending_def Let_def patch_tool_result_def sendable_def parked_linked_def)
qed

lemma take_pending_sendable:
  assumes "storable st" and "take_pending payload now policy st = (tk, st')"
  shows "case tk of
      Resume p v \<Rightarrow> cs_pending_tool st' = None \<and> storable (st'\<lparr>cs_pending_tool := Some p\<rparr>) \<and> payload = Some v
    | _ \<Rightarrow> sendable st' \<and> (tk \<noteq> Side \<longrightarrow> cs_pending_tool st' = None)"
proof (cases "cs_pending_tool st")
  case None
  with assms show ?thesis by (auto simp: take_pending_def storable_def sendable_def calls_settled_def)
next
  case (Some p)
  show ?thesis
  proof (cases "tk = Side")
    case True
    with assms(2) Some have "st' = (snd (ensure_placeholder st))\<lparr>cs_pending_tool := Some (begin_side_turn now p)\<rparr>"
      by (auto simp: take_pending_def cancel_pending_def Let_def split: if_splits option.splits)
    with placeholder_settled [OF assms(1) Some] True show ?thesis
      by (simp add: sendable_def parked_linked_def begin_side_turn_def)
  next
    case False
    show ?thesis
    proof (cases "\<exists>q v. tk = Resume q v")
      case True
      then obtain q v where tk: "tk = Resume q v" by blast
      with assms(2) Some have "q = p" "st' = st\<lparr>cs_pending_tool := None\<rparr>" "payload = Some v"
        by (auto simp: take_pending_def cancel_pending_def Let_def split: if_splits option.splits)
      moreover have "st\<lparr>cs_pending_tool := Some p\<rparr> = st" using Some by simp
      ultimately show ?thesis using assms(1) tk by simp
    next
      case noresume: False
      from assms(2) Some False noresume have "cancel_pending now p st = (tk, st')"
        by (auto simp: take_pending_def split: if_splits option.splits)
      from cancel_sendable [OF assms(1) Some this] show ?thesis by auto
    qed
  qed
qed

text \<open>The parked call is resumed: the answer settles the history, or the call stays parked.\<close>

lemma resume_settles_call:
  assumes "storable (st\<lparr>cs_pending_tool := Some p\<rparr>)" and "cs_pending_tool st = None"
    and "resume_pending flows rec now el t i p v st trail env = (shown, st', trail', env')"
  shows "case shown of
      None \<Rightarrow> cs_pending_tool st' = None \<and> sendable (announce_unread_attachments (pt_call_id p) n st') \<and>
        cs_pending_tool (announce_unread_attachments (pt_call_id p) n st') = None
    | Some w \<Rightarrow> \<exists>q. cs_pending_tool st' = Some q \<and> pt_call_id q = pt_call_id p \<and> cs_messages st' = cs_messages st"
proof -
  let ?st = "st\<lparr>cs_pending_tool := Some p\<rparr>"
  have p: "cs_pending_tool ?st = Some p" by simp
  from patched_settled(2) [OF assms(1) p] obtain at where at: "latest_assistant_with (cs_messages st) (pt_call_id p) = Some at"
    by auto
  obtain o1 e1 where o1: "(case flows of
      Some resume \<Rightarrow> resume (pt_flow_ref p) (pt_flow_snapshot p) v env
    | None \<Rightarrow> (Completed (json_obj [(''error'',
        JString (''unknown flow tool '' @ [CHR 0x27] @ pt_flow_ref p @ [CHR 0x27]))]), env)) = (o1, e1)"
    by fastforce
  show ?thesis
  proof (cases o1)
    case (Completed result)
    with assms(3) o1 have eq: "shown = None" "st' = patch_tool_result (pt_call_id p) result st"
      by (auto simp: resume_pending_def)
    have s: "calls_settled (patch_messages (pt_call_id p) result (cs_messages st))"
      using patched_settled(1) [OF assms(1) p, of result] by simp
    from announce_settled [OF s at, of st' n] eq assms(2) show ?thesis
      by (auto simp: patch_tool_result_def sendable_def parked_linked_def)
  next
    case (Waiting snap pres)
    with assms(3) o1 show ?thesis by (auto simp: resume_pending_def)
  qed
qed

end
