(* ===== verification/Agent_History.thy ===== *)
theory Agent_History
  imports Agent_Loop Parked_History
begin

section \<open>What a turn does to the history\<close>

text \<open>
  The tool calls of a response are all answered, or one of them is parked and the rest are; so every history the model is sent is one it
  accepts, and every state that is saved can be taken up again. The loop is shown to keep to this from
  any stored state that does.
\<close>

subsection \<open>One call, and a batch\<close>

definition answered_with :: "string \<Rightarrow> turn_state \<Rightarrow> turn_state \<Rightarrow> bool" where
  "answered_with i ts ts' \<longleftrightarrow>
     (\<exists>c. cs_messages (tu_state ts') = cs_messages (tu_state ts) @ [ToolMsg i c]) \<and>
     cs_pending_tool (tu_state ts') = cs_pending_tool (tu_state ts) \<and> tu_suspension ts' = tu_suspension ts"

definition parked_with :: "string \<Rightarrow> turn_state \<Rightarrow> turn_state \<Rightarrow> bool" where
  "parked_with i ts ts' \<longleftrightarrow> tu_suspension ts = None \<and> tu_suspension ts' \<noteq> None \<and>
     (\<exists>run p. cs_messages (tu_state ts') = cs_messages (tu_state ts) @ run \<and> list_all is_tool run \<and> tool_ids run \<subseteq> {i} \<and>
        cs_pending_tool (tu_state ts') = Some p \<and> pt_call_id p = i)"

lemmas call_defs = malformed_call_def refused_call_def blocked_call_def reused_call_def answer_call_def push_chat_def
  push_step_def refuse_behind_suspension_def Let_def

lemma failed_answered: "failed_call env call t0 e ts w = (ts', w') \<Longrightarrow> answered_with (tk_call_id call) ts ts'"
  by (auto simp: failed_call_def call_defs answered_with_def)

lemma completed_answered: "completed_call env call t0 l v ts w = (ts', w') \<Longrightarrow> answered_with (tk_call_id call) ts ts'"
  by (auto simp: completed_call_def call_defs answered_with_def)

lemma a2a_answered: "answered_with i (ts\<lparr>tu_state := (tu_state ts)\<lparr>cs_a2a := a\<rparr>, tu_timed_out := b\<rparr>) ts' \<Longrightarrow> answered_with i ts ts'"
  "answered_with i (ts\<lparr>tu_state := (tu_state ts)\<lparr>cs_a2a := a\<rparr>\<rparr>) ts' \<Longrightarrow> answered_with i ts ts'"
  by (auto simp: answered_with_def)

lemma park_parked: "tu_suspension ts = None \<Longrightarrow> parked_with (tk_call_id call) ts (park_call env call f s pr ts w)"
  by (auto simp: park_call_def parked_with_def call_defs)

lemma dispatch_effect:
  assumes "dispatch_call env call l ts w = (ts', w')" and "tu_suspension ts = None"
  shows "answered_with (tk_call_id call) ts ts' \<or> parked_with (tk_call_id call) ts ts'"
proof (cases "strip_prefix ''flow:'' (tk_extension_id call)")
  case (Some r)
  with assms show ?thesis
    by (auto simp: dispatch_call_def Let_def split: prod.splits flow_tool_dispatch.splits
        intro: park_parked dest!: completed_answered)
next
  case None
  show ?thesis
  proof (cases "rt_tool_cut (tn_rt env) (time_left env w) call (cs_a2a (tu_state ts)) w")
    case (Some x)
    with None assms show ?thesis
      by (auto simp: dispatch_call_def Let_def split: prod.splits dest!: failed_answered a2a_answered(1))
  next
    case no_cut: None
    with None assms show ?thesis
      by (auto simp: dispatch_call_def Let_def split: prod.splits sum.splits
          dest!: failed_answered completed_answered a2a_answered(2))
  qed
qed

lemma run_call_effect:
  assumes "run_call env call ts w = (ts', w')"
  shows "answered_with (tk_call_id call) ts ts' \<or> parked_with (tk_call_id call) ts ts'"
proof -
  have simple: "answered_with (tk_call_id call) ts (malformed_call call raw ts)"
    "answered_with (tk_call_id call) ts (refused_call call ts)" "answered_with (tk_call_id call) ts (blocked_call call ts)"
    "answered_with (tk_call_id call) ts (reused_call env call c ts)" "answered_with (tk_call_id call) ts (answer_call call v ts)" for raw c v
    by (auto simp: call_defs answered_with_def)
  have host: "answered_with (tk_call_id call) ts ts'" if "host_call env call run ts w = (ts', w')" for run
    using that by (auto simp: host_call_def call_defs answered_with_def split: prod.splits)
  have led: "answered_with (tk_call_id call) ts ts' \<or> parked_with (tk_call_id call) ts ts'"
    if "ledgered_call env call ts w = (ts', w')" "tu_suspension ts = None"
    using that simple(4)
    by (auto simp: ledgered_call_def Let_def split: prod.splits sum.splits option.splits if_splits dest!: dispatch_effect)
  show ?thesis
    using assms simple host led
    by (auto simp: run_call_def split: if_splits option.splits)
qed

definition batch_effect :: "tool_call_record list \<Rightarrow> turn_state \<Rightarrow> turn_state \<Rightarrow> bool" where
  "batch_effect calls ts ts' \<longleftrightarrow>
     (\<exists>run. cs_messages (tu_state ts') = cs_messages (tu_state ts) @ run \<and> list_all is_tool run \<and>
        tool_ids run \<subseteq> tk_call_id ` set calls \<and>
        (tu_suspension ts' = tu_suspension ts \<and> cs_pending_tool (tu_state ts') = cs_pending_tool (tu_state ts) \<and>
           tk_call_id ` set calls \<subseteq> tool_ids run \<or>
         tu_suspension ts = None \<and> tu_suspension ts' \<noteq> None \<and>
           (\<exists>p. cs_pending_tool (tu_state ts') = Some p \<and> pt_call_id p \<in> tk_call_id ` set calls \<and>
              tk_call_id ` set calls \<subseteq> insert (pt_call_id p) (tool_ids run))))"

lemma run_calls_effect: "run_calls env calls ts w = (ts', w') \<Longrightarrow> batch_effect calls ts ts'"
proof (induction calls arbitrary: ts w)
  case Nil
  then show ?case by (auto simp: batch_effect_def intro: exI [of _ "[]"])
next
  case (Cons call calls)
  let ?i = "tk_call_id call"
  define D where "D = tk_call_id ` set calls"
  have ids: "tk_call_id ` set (call # calls) = insert ?i D" by (simp add: D_def)
  from Cons.prems obtain ts1 w1 where 1: "run_call env call ts w = (ts1, w1)" "run_calls env calls ts1 w1 = (ts', w')"
    by (auto split: prod.splits)
  from Cons.IH [OF 1(2)] obtain run where run: "cs_messages (tu_state ts') = cs_messages (tu_state ts1) @ run"
    "list_all is_tool run" "tool_ids run \<subseteq> D"
    "tu_suspension ts' = tu_suspension ts1 \<and> cs_pending_tool (tu_state ts') = cs_pending_tool (tu_state ts1) \<and>
       D \<subseteq> tool_ids run \<or>
     tu_suspension ts1 = None \<and> tu_suspension ts' \<noteq> None \<and>
       (\<exists>p. cs_pending_tool (tu_state ts') = Some p \<and> pt_call_id p \<in> D \<and>
          D \<subseteq> insert (pt_call_id p) (tool_ids run))"
    unfolding batch_effect_def D_def [symmetric] by blast
  from run_call_effect [OF 1(1)] show ?case
  proof
    assume "answered_with ?i ts ts1"
    then obtain c where c: "cs_messages (tu_state ts1) = cs_messages (tu_state ts) @ [ToolMsg ?i c]"
      "cs_pending_tool (tu_state ts1) = cs_pending_tool (tu_state ts)" "tu_suspension ts1 = tu_suspension ts"
      by (auto simp: answered_with_def)
    with run show ?thesis unfolding batch_effect_def ids by (intro exI [of _ "ToolMsg ?i c # run"]) auto
  next
    assume "parked_with ?i ts ts1"
    then obtain r p where r: "cs_messages (tu_state ts1) = cs_messages (tu_state ts) @ r" "list_all is_tool r"
      "tool_ids r \<subseteq> {?i}" "cs_pending_tool (tu_state ts1) = Some p" "pt_call_id p = ?i" "tu_suspension ts = None"
      "tu_suspension ts1 \<noteq> None" by (auto simp: parked_with_def)
    with run show ?thesis unfolding batch_effect_def ids by (intro exI [of _ "r @ run"]) (auto simp: tool_ids_append)
  qed
qed

subsection \<open>The history after a batch\<close>

lemma turn_results_append: "turn_results xs \<subseteq> turn_results (xs @ ys)"
  by (induction xs rule: turn_results.induct) auto

lemma unanswered_append: "unanswered (xs @ ys) \<subseteq> unanswered xs \<union> unanswered ys"
proof (induction xs rule: unanswered.induct)
  case (1 c cs ms)
  with turn_results_append [of ms ys] show ?case by auto
qed auto

lemma settled_plain: "calls_settled ms \<Longrightarrow> calls_settled (ms @ [AssistantMsg c []])" "calls_settled ms \<Longrightarrow> calls_settled (ms @ [UserMsg c as])"
  using unanswered_append [of ms "[AssistantMsg c []]"] unanswered_append [of ms "[UserMsg c as]"]
  by (auto simp: calls_settled_def paired_append)

lemma settled_batch:
  assumes "calls_settled ms" and "list_all is_tool run" and "tool_ids run = tk_call_id ` set calls"
  shows "calls_settled (ms @ AssistantMsg c calls # run)"
proof -
  note R = run_facts [OF assms(2), where rest = "[]", simplified]
  have "unanswered (AssistantMsg c calls # run) = {}" using R(2,3) assms(3) by simp
  moreover have "paired k (AssistantMsg c calls # run)" for k using R(1) assms(3) by simp
  ultimately show ?thesis
    using assms(1) unanswered_append [of ms "AssistantMsg c calls # run"] by (auto simp: calls_settled_def paired_append)
qed

lemma parked_batch:
  assumes "calls_settled ms" and "list_all is_tool run" and "tool_ids run \<subseteq> tk_call_id ` set calls"
    and "pt_call_id p \<in> tk_call_id ` set calls" and "tk_call_id ` set calls \<subseteq> insert (pt_call_id p) (tool_ids run)"
    and "cs_messages st = ms @ AssistantMsg c calls # run" and "cs_pending_tool st = Some p"
  shows "storable st"
proof -
  let ?a = "AssistantMsg c calls" and ?i = "pt_call_id p"
  have "makes_call ?i ?a" using assms(4) by (auto simp: list_ex_iff)
  with assms(2) have s: "call_site_of ?i ms ?a run []" by (simp add: call_site_of_def)
  have "calls_settled (patch_messages ?i JNull (ms @ ?a # run @ []))"
    unfolding patch_at_site [OF s]
    using tools_put_result [OF assms(2), of ?i JNull] assms by (simp, intro settled_batch) auto
  moreover have "paired k (?a # run)" for k
    using run_facts(1) [OF assms(2), where rest = "[]", simplified] assms(3) by (simp add: le_supI2)
  ultimately show ?thesis
    using assms(1,6,7) site_latest [OF s] by (auto simp: storable_def parked_linked_def calls_settled_def paired_append)
qed

lemma linked_append:
  "latest_assistant_with ms i \<noteq> None \<Longrightarrow> latest_assistant_with (ms @ ys) i \<noteq> None"
  by (simp only: latest_None) auto

lemma tool_batch_ok:
  assumes "sendable (tu_state ts)" and "tu_suspension ts = None" and "tool_batch env resp calls ts w = (goes_on, ts', w')"
  shows "if goes_on then sendable (tu_state ts') \<and> tu_suspension ts' = None
    else storable (tu_state ts') \<and> tu_terminated_by ts' \<in> {Timeout, AwaitingToolInput}"
proof -
  let ?ms = "cs_messages (tu_state ts)" and ?c = "case lr_content resp of Some c \<Rightarrow> c | None \<Rightarrow> []"
  let ?ts = "(push_chat (AssistantMsg ?c calls) ts)\<lparr>tu_timed_out := False\<rparr>"
  obtain ts1 w1 where 1: "run_calls env calls ?ts w = (ts1, w1)" by fastforce
  from run_calls_effect [OF 1] assms(2) obtain run where
    run: "cs_messages (tu_state ts1) = ?ms @ AssistantMsg ?c calls # run" "list_all is_tool run"
      "tool_ids run \<subseteq> tk_call_id ` set calls"
    and cases: "tu_suspension ts1 = None \<and> cs_pending_tool (tu_state ts1) = cs_pending_tool (tu_state ts) \<and>
        tk_call_id ` set calls \<subseteq> tool_ids run \<or>
      tu_suspension ts1 \<noteq> None \<and> (\<exists>p. cs_pending_tool (tu_state ts1) = Some p \<and> pt_call_id p \<in> tk_call_id ` set calls \<and>
        tk_call_id ` set calls \<subseteq> insert (pt_call_id p) (tool_ids run))"
    by (auto simp: batch_effect_def push_chat_def)
  have ms: "calls_settled ?ms" using assms(1) by (simp add: sendable_def)
  have quiet: "sendable (tu_state ts1)" if "tu_suspension ts1 = None"
  proof -
    from that cases run(3) have "tool_ids run = tk_call_id ` set calls"
      "cs_pending_tool (tu_state ts1) = cs_pending_tool (tu_state ts)" by auto
    with settled_batch [OF ms run(2)] run(1) assms(1) linked_append show ?thesis
      by (auto simp: sendable_def parked_linked_def)
  qed
  have parked: "storable (tu_state ts1)" if "tu_suspension ts1 \<noteq> None"
    using that cases parked_batch [OF ms run(2,3) _ _ run(1)] by auto
  have "storable (tu_state ts1)" using quiet parked sendable_storable by blast
  with assms(3) 1 quiet show ?thesis by (auto simp: tool_batch_def split: if_splits)
qed

lemma handle_response_ok:
  assumes "sendable (tu_state ts)" and "tu_suspension ts = None" and "handle_response env resp ts w = (goes_on, ts', w')"
  shows "if goes_on then sendable (tu_state ts') \<and> tu_suspension ts' = None
    else storable (tu_state ts') \<and> (tu_terminated_by ts' \<in> {FinalReply, ConversationEnded} \<longrightarrow> sendable (tu_state ts'))"
proof (cases "\<exists>calls. tool_batch env resp calls ts w = (goes_on, ts', w')")
  case True
  with tool_batch_ok [OF assms(1,2)] show ?thesis by fastforce
next
  case False
  with assms sendable_storable show ?thesis
    by (auto simp: handle_response_def end_conversation_def push_step_def Let_def split: if_splits option.splits)
qed

lemma count_tokens_state: "count_tokens env resp ts w = (ts', w') \<Longrightarrow>
    tu_state ts' = tu_state ts \<and> tu_suspension ts' = tu_suspension ts \<and> tu_terminated_by ts' = tu_terminated_by ts"
  by (auto simp: count_tokens_def push_step_def Let_def)

end
