(* ===== verification/Agent_Safety.thy ===== *)
theory Agent_Safety
  imports Agent_History
begin

section \<open>What reaches the model and the store\<close>

text \<open>
  A runtime that answers calls_settled requests and stores storable states the way another does cannot be told from it by a turn:
  no other request is ever made, and no other state is ever saved. The proof swaps the model and the store of
  the runtime and follows the turn.
\<close>

named_theorems swap_simps \<open>a turn with another model and store\<close>

definition swap_rt ::
  "(tenant_context \<Rightarrow> string \<Rightarrow> conversation_state \<Rightarrow> 'w \<Rightarrow> (state_error, unit) result \<times> 'w) \<Rightarrow> 'w llm_backend \<Rightarrow>
     (nat \<Rightarrow> llm_request \<Rightarrow> 'w \<Rightarrow> 'w option) \<Rightarrow> 'w agent_runtime \<Rightarrow> 'w agent_runtime" where
  "swap_rt sv lb lc rt = rt\<lparr>rt_save := sv, rt_llm := lb, rt_llm_cut := lc\<rparr>"

definition swap_env ::
  "(tenant_context \<Rightarrow> string \<Rightarrow> conversation_state \<Rightarrow> 'w \<Rightarrow> (state_error, unit) result \<times> 'w) \<Rightarrow> 'w llm_backend \<Rightarrow>
     (nat \<Rightarrow> llm_request \<Rightarrow> 'w \<Rightarrow> 'w option) \<Rightarrow> 'w turn_env \<Rightarrow> 'w turn_env" where
  "swap_env sv lb lc env = env\<lparr>tn_rt := swap_rt sv lb lc (tn_rt env)\<rparr>"

lemma swap_env_fields [swap_simps]:
  "tn_rt (swap_env sv lb lc env) = swap_rt sv lb lc (tn_rt env)" "tn_tenant (swap_env sv lb lc env) = tn_tenant env"
  "tn_session_id (swap_env sv lb lc env) = tn_session_id env" "tn_agent_id (swap_env sv lb lc env) = tn_agent_id env"
  "tn_config (swap_env sv lb lc env) = tn_config env" "tn_started (swap_env sv lb lc env) = tn_started env"
  "tn_step_id (swap_env sv lb lc env) = tn_step_id env" "tn_current (swap_env sv lb lc env) = tn_current env"
  "tn_run_trace (swap_env sv lb lc env) = tn_run_trace env" "tn_record_to (swap_env sv lb lc env) = tn_record_to env"
  "tn_chain (swap_env sv lb lc env) = tn_chain env" "tn_guardrail_ctx (swap_env sv lb lc env) = tn_guardrail_ctx env"
  "tn_ledger_turn (swap_env sv lb lc env) = tn_ledger_turn env" "tn_user_message (swap_env sv lb lc env) = tn_user_message env"
  "tn_lt_active (swap_env sv lb lc env) = tn_lt_active env" "tn_st_active (swap_env sv lb lc env) = tn_st_active env"
  "tn_conv_active (swap_env sv lb lc env) = tn_conv_active env" "tn_side_pending (swap_env sv lb lc env) = tn_side_pending env"
  "tn_system_prompt (swap_env sv lb lc env) = tn_system_prompt env" "tn_catalogs (swap_env sv lb lc env) = tn_catalogs env"
  by (simp_all add: swap_env_def)

lemma swap_rt_fields [swap_simps]:
  "rt_agent_config (swap_rt sv lb lc rt) = rt_agent_config rt" "rt_share_modes_for (swap_rt sv lb lc rt) = rt_share_modes_for rt"
  "rt_tokens_used (swap_rt sv lb lc rt) = rt_tokens_used rt" "rt_tokens_add (swap_rt sv lb lc rt) = rt_tokens_add rt"
  "rt_over_budget (swap_rt sv lb lc rt) = rt_over_budget rt" "rt_billing_emit (swap_rt sv lb lc rt) = rt_billing_emit rt"
  "rt_acquire_lock (swap_rt sv lb lc rt) = rt_acquire_lock rt" "rt_refresh_lock (swap_rt sv lb lc rt) = rt_refresh_lock rt"
  "rt_release_lock (swap_rt sv lb lc rt) = rt_release_lock rt" "rt_load (swap_rt sv lb lc rt) = rt_load rt"
  "rt_save (swap_rt sv lb lc rt) = sv" "rt_mandatory_guardrails (swap_rt sv lb lc rt) = rt_mandatory_guardrails rt"
  "rt_capability (swap_rt sv lb lc rt) = rt_capability rt" "rt_evaluate (swap_rt sv lb lc rt) = rt_evaluate rt"
  "rt_ledger_turn (swap_rt sv lb lc rt) = rt_ledger_turn rt" "rt_ledger_view (swap_rt sv lb lc rt) = rt_ledger_view rt"
  "rt_ledger_reply (swap_rt sv lb lc rt) = rt_ledger_reply rt" "rt_types_tenant (swap_rt sv lb lc rt) = rt_types_tenant rt"
  "rt_long_term (swap_rt sv lb lc rt) = rt_long_term rt" "rt_short_term (swap_rt sv lb lc rt) = rt_short_term rt"
  "rt_knowledge (swap_rt sv lb lc rt) = rt_knowledge rt" "rt_catalogs (swap_rt sv lb lc rt) = rt_catalogs rt"
  "rt_ext (swap_rt sv lb lc rt) = rt_ext rt" "rt_llm (swap_rt sv lb lc rt) = lb" "rt_llm_cut (swap_rt sv lb lc rt) = lc"
  "rt_tool_cut (swap_rt sv lb lc rt) = rt_tool_cut rt" "rt_ledger (swap_rt sv lb lc rt) = rt_ledger rt"
  "rt_trace (swap_rt sv lb lc rt) = rt_trace rt" "rt_put_trace (swap_rt sv lb lc rt) = rt_put_trace rt"
  "rt_record_step (swap_rt sv lb lc rt) = rt_record_step rt" "rt_clock (swap_rt sv lb lc rt) = rt_clock rt"
  "rt_now (swap_rt sv lb lc rt) = rt_now rt" "rt_step_id (swap_rt sv lb lc rt) = rt_step_id rt"
  "rt_uuid (swap_rt sv lb lc rt) = rt_uuid rt" "rt_to_text (swap_rt sv lb lc rt) = rt_to_text rt"
  "rt_parse (swap_rt sv lb lc rt) = rt_parse rt" "rt_sha256 (swap_rt sv lb lc rt) = rt_sha256 rt"
  "rt_wants_streaming (swap_rt sv lb lc rt) = rt_wants_streaming rt"
  by (simp_all add: swap_rt_def)

lemma swap_clock [swap_simps]:
  "elapsed (swap_env sv lb lc env) = elapsed env" "time_left (swap_env sv lb lc env) = time_left env"
  "ensure_lock_held (swap_rt sv lb lc rt) = ensure_lock_held rt"
  by (intro ext; (unfold elapsed_def time_left_def ensure_lock_held_def Let_def swap_simps, rule refl))+

lemma swap_telemetry [swap_simps]:
  "step_telemetry_of (swap_env sv lb lc env) = step_telemetry_of env"
  "record_error_exit (swap_env sv lb lc env) = record_error_exit env"
  by (intro ext; (unfold step_telemetry_of_def record_error_exit_def Let_def swap_simps, rule refl))+

lemma swap_host_tools [swap_simps]:
  "recall_long_term (swap_rt sv lb lc rt) = recall_long_term rt" "search_knowledge (swap_rt sv lb lc rt) = search_knowledge rt"
  "host_remember (swap_rt sv lb lc rt) = host_remember rt" "host_recall (swap_rt sv lb lc rt) = host_recall rt"
  "host_recall_memory (swap_rt sv lb lc rt) = host_recall_memory rt"
  by (intro ext; (unfold recall_long_term_def search_knowledge_def host_remember_def host_recall_def host_recall_memory_def Let_def swap_simps, rule refl))+

lemma swap_trace [swap_simps]:
  "trace_outcome (swap_env sv lb lc env) = trace_outcome env" "flow_frame (swap_env sv lb lc env) = flow_frame env"
  "ingest_reply (swap_env sv lb lc env) = ingest_reply env" "trace_reply (swap_env sv lb lc env) = trace_reply env"
  "ledger_reply (swap_env sv lb lc env) = ledger_reply env" "side_finish (swap_env sv lb lc env) = side_finish env"
  by (intro ext; (unfold trace_outcome_def flow_frame_def ingest_reply_def trace_reply_def ledger_reply_def side_finish_def Let_def swap_simps, rule refl))+

lemma swap_calls [swap_simps]:
  "host_call (swap_env sv lb lc env) = host_call env" "park_call (swap_env sv lb lc env) = park_call env"
  "reused_call (swap_env sv lb lc env) = reused_call env" "failed_call (swap_env sv lb lc env) = failed_call env"
  "completed_call (swap_env sv lb lc env) = completed_call env"
  by (intro ext; (unfold host_call_def park_call_def reused_call_def failed_call_def completed_call_def Let_def swap_simps, rule refl))+

lemma swap_dispatch [swap_simps]:
  "dispatch_call (swap_env sv lb lc env) = dispatch_call env"
  by (intro ext; (unfold dispatch_call_def Let_def swap_simps, rule refl))+

lemma swap_run_call [swap_simps]:
  "ledgered_call (swap_env sv lb lc env) = ledgered_call env" "run_call (swap_env sv lb lc env) = run_call env"
  by (intro ext; (unfold ledgered_call_def run_call_def Let_def swap_simps, rule refl))+

lemma swap_run_calls [swap_simps]: "run_calls (swap_env sv lb lc env) calls = run_calls env calls"
proof (induction calls)
  case (Cons c calls)
  show ?case by (intro ext) (unfold run_calls.simps swap_simps Cons.IH, rule refl)
qed (simp add: fun_eq_iff)

lemma swap_response [swap_simps]:
  "build_request (swap_env sv lb lc env) = build_request env" "count_tokens (swap_env sv lb lc env) = count_tokens env"
  "tool_batch (swap_env sv lb lc env) = tool_batch env" "handle_response (swap_env sv lb lc env) = handle_response env"
  by (intro ext; (unfold build_request_def count_tokens_def tool_batch_def handle_response_def Let_def swap_simps, rule refl))+

lemma swap_prepare [swap_simps]:
  "budget_gate (swap_rt sv lb lc rt) = budget_gate rt" "guardrail_chain (swap_rt sv lb lc rt) = guardrail_chain rt"
  "receive_message (swap_rt sv lb lc rt) = receive_message rt" "recall_facts (swap_rt sv lb lc rt) = recall_facts rt"
  "retrieve_chunks (swap_rt sv lb lc rt) = retrieve_chunks rt" "parked_flow (swap_env sv lb lc env) = parked_flow env"
  "resume_turn (swap_env sv lb lc env) = resume_turn env"
  by (intro ext; (unfold budget_gate_def guardrail_chain_def receive_message_def recall_facts_def retrieve_chunks_def parked_flow_def resume_turn_def Let_def swap_simps, rule refl))+

lemma swap_prepare_env [swap_simps]:
  "prepare_env (swap_rt sv lb lc rt) current t i a config started step_id chain gctx ledger message tk um w =
     (let (env, chunks, w') = prepare_env rt current t i a config started step_id chain gctx ledger message tk um w in
      (swap_env sv lb lc env, chunks, w'))"
  unfolding prepare_env_def swap_simps Let_def by (simp add: swap_env_def split_def)

subsection \<open>The loop\<close>

text \<open>The two runtimes agree on what a turn may ask and save.\<close>

definition agree_on_settled ::
  "(tenant_context \<Rightarrow> string \<Rightarrow> conversation_state \<Rightarrow> 'w \<Rightarrow> (state_error, unit) result \<times> 'w) \<Rightarrow> 'w llm_backend \<Rightarrow>
     (nat \<Rightarrow> llm_request \<Rightarrow> 'w \<Rightarrow> 'w option) \<Rightarrow> 'w agent_runtime \<Rightarrow> bool" where
  "agree_on_settled sv lb lc rt \<longleftrightarrow>
     (\<forall>t i st w. storable st \<longrightarrow> sv t i st w = rt_save rt t i st w) \<and>
     (\<forall>n req w. calls_settled (rq_history req) \<longrightarrow> lc n req w = rt_llm_cut rt n req w) \<and>
     lb_is_retrying lb = lb_is_retrying (rt_llm rt) \<and> lb_sleep lb = lb_sleep (rt_llm rt) \<and>
     (\<forall>req w. calls_settled (rq_history req) \<longrightarrow>
        lb_complete lb req w = lb_complete (rt_llm rt) req w \<and> lb_streaming lb req w = lb_streaming (rt_llm rt) req w)"

lemma agree_llm_call:
  assumes "agree_on_settled sv lb lc rt" and "calls_settled (rq_history req)"
  shows "llm_call lb limits s req w = llm_call (rt_llm rt) limits s req w"
proof -
  have "lb_complete lb req = lb_complete (rt_llm rt) req" "lb_streaming lb req = lb_streaming (rt_llm rt) req"
    using assms by (auto simp: agree_on_settled_def)
  with assms(1) show ?thesis
    by (simp add: llm_call_def retrying_complete_def retrying_streaming_def agree_on_settled_def)
qed

lemma agree_save: "agree_on_settled sv lb lc rt \<Longrightarrow> storable st \<Longrightarrow> sv t i st w = rt_save rt t i st w"
  by (simp add: agree_on_settled_def)

lemma swap_llm_failed:
  assumes "agree_on_settled sv lb lc (tn_rt env)" and "sendable (tu_state ts)"
  shows "llm_failed (swap_env sv lb lc env) e ts w = llm_failed env e ts w"
proof -
  have "storable (truncate_history n (tu_state ts))" for n
    using assms(2) by (intro truncate_storable sendable_storable)
  then have e: "sv t i (truncate_history n (tu_state ts)) = rt_save (tn_rt env) t i (truncate_history n (tu_state ts))" for t i n
    using agree_save [OF assms(1)] by (simp add: fun_eq_iff)
  show ?thesis unfolding llm_failed_def swap_simps Let_def e by (rule refl)
qed

lemma swap_iterate:
  assumes "agree_on_settled sv lb lc (tn_rt env)"
  shows "sendable (tu_state ts) \<Longrightarrow> tu_suspension ts = None \<Longrightarrow>
    iterate n (swap_env sv lb lc env) k ts w = iterate n env k ts w \<and>
    (\<forall>ts' w'. iterate n env k ts w = (Inr ts', w') \<longrightarrow> storable (tu_state ts') \<and>
       (tu_terminated_by ts' \<in> {FinalReply, ConversationEnded} \<longrightarrow> sendable (tu_state ts')))"
proof (induction n arbitrary: k ts w)
  case 0
  then show ?case by (auto intro: sendable_storable)
next
  case (Suc n)
  let ?rt = "tn_rt env" and ?l = "ag_limits (tn_config env)" and ?ts1 = "ts\<lparr>tu_iterations := k + 1\<rparr>"
  let ?st = "truncate_history (al_max_history_turns ?l) (tu_state ts)"
  let ?ts2 = "?ts1\<lparr>tu_state := ?st\<rparr>"
  have st: "sendable ?st" using Suc.prems(1) by (rule truncate_sendable)
  obtain held w1 where held: "ensure_lock_held ?rt (tn_tenant env) (tn_session_id env) w = (held, w1)" by fastforce
  let ?req = "build_request env ?st w1"
  have req: "calls_settled (rq_history ?req)" using st by (simp add: build_request_def sendable_def Let_def)
  have cut: "lc m ?req w1 = rt_llm_cut ?rt m ?req w1" for m using assms req by (simp add: agree_on_settled_def)
  note llm = agree_llm_call [OF assms req]
  show ?case
  proof (cases "held = Inr () \<and> \<not> al_timeout ?l \<le> elapsed env w1 \<and> rt_llm_cut ?rt (time_left env w1) ?req w1 = None")
    case False
    have "iterate (Suc n) (swap_env sv lb lc env) k ts w = iterate (Suc n) env k ts w"
      unfolding iterate.simps Let_def swap_simps using False held cut by (cases held) auto
    moreover have "storable (tu_state ts') \<and> tu_terminated_by ts' = Timeout"
      if "iterate (Suc n) env k ts w = (Inr ts', w')" for ts' w'
      using that False held st Suc.prems(1) sendable_storable
      by (cases held) (auto simp: Let_def split: if_splits)
    ultimately show ?thesis by auto
  next
    case True
    obtain r w2 where r: "llm_call (rt_llm ?rt) ?l (rt_wants_streaming ?rt) ?req w1 = (r, w2)" by fastforce
    show ?thesis
    proof (cases r)
      case (Inl e)
      have fail: "llm_failed (swap_env sv lb lc env) e ?ts2 w2 = llm_failed env e ?ts2 w2"
        using st by (intro swap_llm_failed [OF assms]) simp
      have inl: "\<exists>d. fst (llm_failed env e ?ts2 w2) = Inl d" by (simp add: llm_failed_def Let_def split: prod.splits)
      have "iterate (Suc n) env k ts w = llm_failed env e ?ts2 w2"
        using True held r Inl by (simp add: Let_def)
      moreover have "iterate (Suc n) (swap_env sv lb lc env) k ts w = llm_failed env e ?ts2 w2"
        unfolding iterate.simps Let_def swap_simps using True held r Inl cut llm fail by simp
      ultimately show ?thesis using inl by auto
    next
      case (Inr resp)
      obtain ts3 w3 where c: "count_tokens env resp ?ts2 w2 = (ts3, w3)" by fastforce
      from count_tokens_state [OF this] st Suc.prems(2) have ts3: "sendable (tu_state ts3)" "tu_suspension ts3 = None" by auto
      obtain go ts4 w4 where h: "handle_response env resp ts3 w3 = (go, ts4, w4)" by (metis surj_pair)
      have eq: "iterate (Suc n) env k ts w = (if go then iterate n env (k + 1) ts4 w4 else (Inr ts4, w4))"
        using True held r Inr c h by (simp add: Let_def)
      have eq': "iterate (Suc n) (swap_env sv lb lc env) k ts w =
          (if go then iterate n (swap_env sv lb lc env) (k + 1) ts4 w4 else (Inr ts4, w4))"
        unfolding iterate.simps Let_def swap_simps using True held r Inr c h cut llm by simp
      note H = handle_response_ok [OF ts3 h]
      show ?thesis
      proof (cases go)
        case go: True
        with H have "sendable (tu_state ts4)" "tu_suspension ts4 = None" by simp_all
        from Suc.IH [OF this, of "k + 1" w4] show ?thesis unfolding eq eq' if_P [OF go] .
      next
        case stop: False
        with H have "storable (tu_state ts4) \<and>
            (tu_terminated_by ts4 \<in> {FinalReply, ConversationEnded} \<longrightarrow> sendable (tu_state ts4))" by simp
        then show ?thesis unfolding eq eq' if_not_P [OF stop] by simp
      qed
    qed
  qed
qed

subsection \<open>The whole turn\<close>

lemma side_finish_ok:
  assumes "side_finish env ts = (side, st, reason, offer)"
  shows "sendable (tu_state ts) \<Longrightarrow> sendable st"
    and "tu_terminated_by ts \<noteq> ConversationEnded \<Longrightarrow> st = tu_state ts"
proof -
  show "sendable st" if s: "sendable (tu_state ts)"
  proof (cases "\<exists>p. cs_pending_tool (tu_state ts) = Some p \<and>
      st = patch_tool_result (pt_call_id p) (cancelled_value ''the conversation ended'') ((tu_state ts)\<lparr>cs_pending_tool := None\<rparr>)")
    case True
    then obtain p where p: "cs_pending_tool (tu_state ts) = Some p"
      "st = patch_tool_result (pt_call_id p) (cancelled_value ''the conversation ended'') ((tu_state ts)\<lparr>cs_pending_tool := None\<rparr>)"
      by blast
    from patched_settled(1) [OF sendable_storable [OF s] p(1)] p(2) show ?thesis
      by (simp add: sendable_def patch_tool_result_def parked_linked_def)
  next
    case False
    with assms s show ?thesis
      by (auto simp: side_finish_def finish_side_turn_def split: if_splits option.splits)
  qed
  show "st = tu_state ts" if "tu_terminated_by ts \<noteq> ConversationEnded"
    using assms that by (auto simp: side_finish_def finish_side_turn_def split: if_splits option.splits)
qed

lemma swap_save_turn:
  assumes "agree_on_settled sv lb lc (tn_rt env)" and "storable (tu_state ts)"
  shows "save_turn (swap_env sv lb lc env) ts w = save_turn env ts w"
proof -
  have e: "sv t i (truncate_history n (tu_state ts)) = rt_save (tn_rt env) t i (truncate_history n (tu_state ts))" for t i n
    using agree_save [OF assms(1) truncate_storable [OF assms(2)]] by (simp add: fun_eq_iff)
  show ?thesis unfolding save_turn_def swap_simps Let_def e by (rule refl)
qed

lemma swap_finish:
  assumes "agree_on_settled sv lb lc (tn_rt env)" and "storable (tu_state ts)"
    and "tu_terminated_by ts \<in> {FinalReply, ConversationEnded} \<longrightarrow> sendable (tu_state ts)"
  shows "finish_turn (swap_env sv lb lc env) ts w = finish_turn env ts w"
proof -
  obtain side st reason offer where f: "side_finish env ts = (side, st, reason, offer)" by (metis prod_cases4)
  show ?thesis
  proof (cases "tu_terminated_by ts \<in> {FinalReply, ConversationEnded}")
    case True
    with assms(3) side_finish_ok(1) [OF f] have "sendable st" by blast
    then have "sendable (st\<lparr>cs_messages := cs_messages st @ [AssistantMsg reply []]\<rparr>)" for reply
      using settled_plain(1) linked_append by (auto simp: sendable_def parked_linked_def)
    then have "storable (st\<lparr>cs_messages := cs_messages st @ [AssistantMsg reply []]\<rparr>)" for reply
      by (rule sendable_storable)
    then have s: "storable (tu_state (push_step (ReplyStep reply) (push_chat (AssistantMsg reply [])
        (ts\<lparr>tu_state := st, tu_terminated_by := reason, tu_suspension := offer\<rparr>))))" for reply
      by (simp add: push_step_def push_chat_def)
    have eq: "save_turn (swap_env sv lb lc env) (push_step (ReplyStep reply) (push_chat (AssistantMsg reply [])
        (ts\<lparr>tu_state := st, tu_terminated_by := reason, tu_suspension := offer\<rparr>))) w =
      save_turn env (push_step (ReplyStep reply) (push_chat (AssistantMsg reply [])
        (ts\<lparr>tu_state := st, tu_terminated_by := reason, tu_suspension := offer\<rparr>))) w" for reply w
      by (rule swap_save_turn [OF assms(1) s])
    have "finish_reply (swap_env sv lb lc env) ts w = finish_reply env ts w"
      unfolding finish_reply_def swap_simps Let_def f prod.case eq by (rule refl)
    with True show ?thesis by (simp add: finish_turn_def)
  next
    case False
    with side_finish_ok(2) [OF f] assms(2) have "storable st" by auto
    then have "storable (tu_state (ts\<lparr>tu_state := st, tu_terminated_by := reason, tu_suspension := offer\<rparr>))" by simp
    from swap_save_turn [OF assms(1) this] have "finish_quiet (swap_env sv lb lc env) ts w = finish_quiet env ts w"
      unfolding finish_quiet_def swap_simps Let_def f prod.case by simp
    with False show ?thesis by (simp add: finish_turn_def)
  qed
qed

text \<open>The state a turn starts from, resumed or not.\<close>

definition turn_ready :: "taken \<Rightarrow> conversation_state \<Rightarrow> bool" where
  "turn_ready tk st \<longleftrightarrow>
     (case tk of
        Resume p _ \<Rightarrow> cs_pending_tool st = None \<and> storable (st\<lparr>cs_pending_tool := Some p\<rparr>)
      | _ \<Rightarrow> sendable st)"

lemma resume_turn_ok:
  assumes "turn_ready (Resume p v) (tu_state ts)" and "resume_turn env p v n ts w = (ts', w')"
  shows "storable (tu_state ts') \<and> (tu_suspension ts' = None \<longrightarrow> sendable (tu_state ts')) \<and>
    (tu_suspension ts' \<noteq> None \<longrightarrow> tu_terminated_by ts' = AwaitingToolInput)"
proof -
  let ?rt = "tn_rt env" and ?flows = "parked_flow env p"
  let ?w1 = "case ?flows of Some resume \<Rightarrow> snd (resume (pt_flow_ref p) (pt_flow_snapshot p) v w) | None \<Rightarrow> w"
  obtain shown st steps w2 where r: "resume_pending ?flows (\<lambda>t i c r u. snd (lg_record (rt_ledger ?rt) t i c r u)) (rt_now ?rt ?w1)
      (millis_between (rt_clock ?rt w) (rt_clock ?rt ?w1)) (tn_tenant env) (tn_session_id env) p v (tu_state ts) [] w =
      (shown, st, steps, w2)" by (metis prod_cases4)
  from assms(1) have ok: "storable ((tu_state ts)\<lparr>cs_pending_tool := Some p\<rparr>)" "cs_pending_tool (tu_state ts) = None"
    by (simp_all add: turn_ready_def)
  note R = resume_settles_call [OF ok r, of "pt_unannounced_attachments p + n"]
  show ?thesis
  proof (cases shown)
    case None
    with R have "sendable (announce_unread_attachments (pt_call_id p) (pt_unannounced_attachments p + n) st)"
      "cs_pending_tool st = None" by simp_all
    with assms(2) r None sendable_storable show ?thesis by (auto simp: resume_turn_def Let_def)
  next
    case (Some x)
    with R obtain q where "cs_pending_tool st = Some q" "pt_call_id q = pt_call_id p" "cs_messages st = cs_messages (tu_state ts)"
      by auto
    with assms(2) r Some ok show ?thesis by (auto simp: resume_turn_def Let_def storable_def parked_linked_def)
  qed
qed

lemma swap_drive_turn:
  assumes "agree_on_settled sv lb lc (tn_rt env)" and "turn_ready tk (tu_state ts)"
    and "tu_suspension ts = None" and "tu_terminated_by ts = MaxIterations"
  shows "drive_turn (swap_env sv lb lc env) tk n ts w = drive_turn env tk n ts w"
proof -
  define x where "x = (case tk of
      Resume p payload \<Rightarrow> (pt_iterations_used p, resume_turn env p payload n ts w) | _ \<Rightarrow> (0, ts, w))"
  obtain k ts1 w1 where xk: "x = (k, ts1, w1)" by (metis prod_cases3)
  have ts1: "storable (tu_state ts1)" "tu_suspension ts1 = None \<longrightarrow> sendable (tu_state ts1)"
    "tu_suspension ts1 \<noteq> None \<longrightarrow> tu_terminated_by ts1 = AwaitingToolInput"
  proof (atomize (full), cases "\<exists>p v. tk = Resume p v")
    case True
    then obtain p v where tk: "tk = Resume p v" by blast
    with xk x_def have "resume_turn env p v n ts w = (ts1, w1)" by simp
    from resume_turn_ok [OF assms(2) [unfolded tk] this] show "storable (tu_state ts1) \<and>
      (tu_suspension ts1 = None \<longrightarrow> sendable (tu_state ts1)) \<and>
      (tu_suspension ts1 \<noteq> None \<longrightarrow> tu_terminated_by ts1 = AwaitingToolInput)" .
  next
    case False
    with xk x_def assms(2,3) sendable_storable show "storable (tu_state ts1) \<and>
      (tu_suspension ts1 = None \<longrightarrow> sendable (tu_state ts1)) \<and>
      (tu_suspension ts1 \<noteq> None \<longrightarrow> tu_terminated_by ts1 = AwaitingToolInput)"
      by (cases tk) (auto simp: turn_ready_def)
  qed
  let ?m = "iterations_left (ag_limits (tn_config env)) k ts1"
  have it: "iterate ?m (swap_env sv lb lc env) k ts1 w1 = iterate ?m env k ts1 w1 \<and>
    (\<forall>ts' w'. iterate ?m env k ts1 w1 = (Inr ts', w') \<longrightarrow> storable (tu_state ts') \<and>
       (tu_terminated_by ts' \<in> {FinalReply, ConversationEnded} \<longrightarrow> sendable (tu_state ts')))"
  proof (cases "tu_suspension ts1 = None")
    case True
    with swap_iterate [OF assms(1)] ts1(2) show ?thesis by blast
  next
    case False
    with ts1 show ?thesis by (simp add: iterations_left_def)
  qed
  have "drive_turn env tk n ts w = (case iterate ?m env k ts1 w1 of (Inl e, w2) \<Rightarrow> (Inl e, w2) | (Inr ts2, w2) \<Rightarrow> finish_turn env ts2 w2)"
    using xk x_def by (simp add: drive_turn_def)
  moreover have "drive_turn (swap_env sv lb lc env) tk n ts w =
      (case iterate ?m (swap_env sv lb lc env) k ts1 w1 of (Inl e, w2) \<Rightarrow> (Inl e, w2) | (Inr ts2, w2) \<Rightarrow> finish_turn (swap_env sv lb lc env) ts2 w2)"
    unfolding drive_turn_def swap_simps using xk x_def by simp
  ultimately show ?thesis
    using it swap_finish [OF assms(1)] by (auto split: prod.splits sum.splits)
qed

lemma opening_storable:
  assumes "storable st" and "opening_of config message st = Some m"
  shows "storable (st\<lparr>cs_messages := cs_messages st @ [AssistantMsg m' []]\<rparr>)"
proof -
  from assms have "cs_messages st = []" by (auto simp: opening_of_def split: if_splits)
  with assms(1) have "cs_pending_tool st = None"
    by (cases "cs_pending_tool st") (auto simp: storable_def parked_linked_def latest_assistant_with_def)
  with \<open>cs_messages st = []\<close> show ?thesis by (simp add: storable_def parked_linked_def)
qed

lemma receive_ready:
  assumes "turn_ready tk st" and "receive_message rt gctx chain (case tk of Resume _ _ \<Rightarrow> True | _ \<Rightarrow> False) message st w = (Inr (um, st'), w')"
  shows "turn_ready tk st'"
proof (cases "\<exists>p v. tk = Resume p v")
  case True
  with assms show ?thesis by (auto simp: receive_message_def)
next
  case False
  with assms obtain content where st: "st' = st\<lparr>cs_messages := cs_messages st @ [UserMsg content (ai_attachments message)]\<rparr>"
    by (cases tk) (auto simp: receive_message_def split: prod.splits chain_outcome.splits)
  from False assms(1) have "sendable st" by (cases tk) (auto simp: turn_ready_def)
  then have "sendable st'" using settled_plain(2) linked_append by (auto simp: st sendable_def parked_linked_def)
  with False show ?thesis by (cases tk) (auto simp: turn_ready_def)
qed

lemma take_ready: "storable st \<Longrightarrow> take_pending payload now policy st = (tk, st') \<Longrightarrow> turn_ready tk st'"
  using take_pending_sendable [of st payload now policy tk st'] by (cases tk) (auto simp: turn_ready_def)

lemma prepare_env_rt:
  "prepare_env rt current t i a config started step_id chain gctx ledger message tk um w = (env, chunks, w') \<Longrightarrow> tn_rt env = rt"
  by (auto simp: prepare_env_def Let_def split: prod.splits)

lemma swap_locked_step:
  assumes "agree_on_settled sv lb lc rt" and "\<And>st w'. rt_load rt t i w = (Inr st, w') \<Longrightarrow> storable st"
  shows "locked_step (swap_rt sv lb lc rt) current t i a config started step_id message w =
    locked_step rt current t i a config started step_id message w"
proof -
  obtain r w1 where load: "rt_load rt t i w = (r, w1)" by fastforce
  show ?thesis
  proof (cases r)
    case (Inl e)
    with load show ?thesis by (simp add: locked_step_def swap_simps)
  next
    case (Inr st)
    with load assms(2) have st: "storable st" by simp
    show ?thesis
    proof (cases "opening_of config message st")
      case (Some m)
      have e: "sv t i (st\<lparr>cs_messages := cs_messages st @ [AssistantMsg m' []]\<rparr>) w = rt_save rt t i (st\<lparr>cs_messages := cs_messages st @ [AssistantMsg m' []]\<rparr>) w" for m' w
        by (rule agree_save [OF assms(1) opening_storable [OF st Some]])
      with Some Inr load show ?thesis by (simp add: locked_step_def opening_turn_def swap_simps)
    next
      case None
      obtain tk st1 where tk: "take_pending (ai_resume_payload message) (rt_now rt w1) (ag_on_text_while_parked config) st = (tk, st1)"
        by fastforce
      note ready = take_ready [OF st this]
      let ?g = "\<lparr>gx_agent_id = a, gx_session_id = i, gx_tenant_id = tc_tenant_id t, gx_env_id = tc_env_id t\<rparr>"
      let ?res = "case tk of Resume _ _ \<Rightarrow> True | _ \<Rightarrow> False"
      obtain gr w2 where gr: "guardrail_chain rt t config w1 = (gr, w2)" by fastforce
      show ?thesis
      proof (cases gr)
        case (Inl e)
        with gr tk None Inr load show ?thesis by (simp add: locked_step_def swap_simps Let_def)
      next
        case chain: (Inr chain)
        obtain rm w3 where rm: "receive_message rt ?g chain ?res message st1 w2 = (rm, w3)" by fastforce
        show ?thesis
        proof (cases rm)
          case (Inl e)
          with rm chain gr tk None Inr load show ?thesis by (simp add: locked_step_def swap_simps Let_def)
        next
          case rmi: (Inr x)
          obtain um st2 where x: "x = (um, st2)" by fastforce
          have ready2: "turn_ready tk st2" by (rule receive_ready [OF ready]) (use rm rmi x in simp)
          let ?l = "rt_ledger_turn rt t a message w2"
          obtain env chunks w4 where env: "prepare_env rt current t i a config started step_id chain ?g ?l message tk um w3 = (env, chunks, w4)"
            by (metis prod_cases3)
          let ?ts = "first_turn_state st2 chunks (case tk of Cancelled s \<Rightarrow> Some s | _ \<Rightarrow> None)"
          have "agree_on_settled sv lb lc (tn_rt env)" using assms(1) prepare_env_rt [OF env] by simp
          then have d: "drive_turn (swap_env sv lb lc env) tk n ?ts w4 = drive_turn env tk n ?ts w4" for n
            using ready2 by (intro swap_drive_turn) (simp_all add: first_turn_state_def)
          show ?thesis
            unfolding locked_step_def swap_simps load Inr Let_def
            using None tk gr chain rm rmi x env d by simp
        qed
      qed
    qed
  qed
qed

lemma swap_run_step:
  assumes "agree_on_settled sv lb lc rt" and "\<And>st w w'. rt_load rt t i w = (Inr st, w') \<Longrightarrow> storable st"
  shows "run_step (swap_rt sv lb lc rt) current t i a message w = run_step rt current t i a message w"
proof -
  have e: "locked_step (swap_rt sv lb lc rt) c t i a config started step_id message w =
      locked_step rt c t i a config started step_id message w" for c config started step_id w
    using assms by (intro swap_locked_step)
  show ?thesis unfolding run_step_def run_step_scoped_def swap_simps e by (rule refl)
qed

end
