(* ===== verification/Agent_Replies.thy ===== *)
theory Agent_Replies
  imports Agent_Safety
begin

section \<open>Where a reply comes from\<close>

text \<open>
  The text a turn answers with has passed the outbound guardrails, is the configured greeting, is empty, or accompanied a call that parked.
  And what a tool call may do: a call that is refused does nothing, and one that was recorded is not made again.
\<close>

subsection \<open>Guardrails\<close>

lemma assemble_mandatory:
  assumes "assemble_chain binding mandatory agent = Inr chain" and "r \<in> set mandatory"
  shows "\<exists>g \<in> set chain. gr_cap_id g = gf_cap_id r \<and> gr_mandatory g"
proof -
  obtain ch un where m: "resolve_mandatory binding mandatory = (ch, un)" by fastforce
  with assms(1) have un: "un = []" and chain: "set ch \<subseteq> set chain" by (auto simp: assemble_chain_def split: if_splits)
  from resolve_mandatory_facts [OF m] un have caps: "map gr_cap_id ch = map gf_cap_id mandatory" and all: "list_all gr_mandatory ch"
    by auto
  from assms(2) have "gf_cap_id r \<in> set (map gf_cap_id mandatory)" by simp
  with caps have "gf_cap_id r \<in> set (map gr_cap_id ch)" by simp
  then obtain g where "g \<in> set ch" "gr_cap_id g = gf_cap_id r" by auto
  with all chain show ?thesis by (auto simp: list_all_iff)
qed

subsection \<open>A side turn starts no flow\<close>

lemma strip_prefix_Some: "strip_prefix p s = Some r \<Longrightarrow> starts_with p s"
  by (simp add: strip_prefix_def split: if_splits)

lemma side_dispatch:
  assumes "dispatch_call env call l ts w = (ts', w')" and "\<not> starts_with ''flow:'' (tk_extension_id call)"
  shows "tu_suspension ts' = tu_suspension ts"
proof -
  have "strip_prefix ''flow:'' (tk_extension_id call) = None" using assms(2) by (simp add: strip_prefix_def)
  with assms(1) show ?thesis
    by (auto simp: dispatch_call_def Let_def split: prod.splits option.splits sum.splits
        dest!: failed_answered completed_answered simp: answered_with_def)
qed

lemma side_run_call:
  assumes "run_call env call ts w = (ts', w')" and "tn_side_pending env"
  shows "tu_suspension ts' = tu_suspension ts"
proof (cases "answered_with (tk_call_id call) ts ts'")
  case False
  with run_call_effect [OF assms(1)] have parked: "tu_suspension ts = None" by (auto simp: parked_with_def)
  have "\<exists>l w1. dispatch_call env call l ts w1 = (ts', w') \<and> \<not> starts_with ''flow:'' (tk_extension_id call)"
    using assms False parked
    by (auto simp: run_call_def ledgered_call_def host_call_def Let_def answered_with_def call_defs
        split: if_splits option.splits prod.splits sum.splits)
  then obtain l w1 where "dispatch_call env call l ts w1 = (ts', w')" "\<not> starts_with ''flow:'' (tk_extension_id call)" by blast
  then show ?thesis by (rule side_dispatch)
qed (simp add: answered_with_def)

lemma side_run_calls:
  "run_calls env calls ts w = (ts', w') \<Longrightarrow> tn_side_pending env \<Longrightarrow> tu_suspension ts' = tu_suspension ts"
proof (induction calls arbitrary: ts w)
  case (Cons c calls)
  then show ?case by (auto split: prod.splits dest!: side_run_call)
qed simp

subsection \<open>The reply of the loop\<close>

definition same_reply :: "turn_state \<Rightarrow> turn_state \<Rightarrow> bool" where
  "same_reply ts ts' \<longleftrightarrow> tu_reply ts' = tu_reply ts \<and> tu_terminated_by ts' = tu_terminated_by ts"

lemma host_keeps_reply: "same_reply ts (fst (host_call env call run ts w))"
  by (simp add: same_reply_def host_call_def call_defs split: prod.splits)

lemma failed_keeps_reply: "same_reply ts (fst (failed_call env call t0 e ts w))"
  by (simp add: same_reply_def failed_call_def call_defs Let_def)

lemma completed_keeps_reply: "same_reply ts (fst (completed_call env call t0 l v ts w))"
  by (simp add: same_reply_def completed_call_def call_defs Let_def)

lemma park_keeps_reply: "same_reply ts (park_call env call flow_ref snapshot presentation ts w)"
  by (simp add: same_reply_def park_call_def call_defs Let_def)

lemma same_reply_state: "same_reply (ts\<lparr>tu_state := st\<rparr>) ts' = same_reply ts ts'"
  and same_reply_timed_out: "same_reply (ts\<lparr>tu_timed_out := b\<rparr>) ts' = same_reply ts ts'"
  by (simp_all add: same_reply_def)

lemmas keeps_reply = host_keeps_reply failed_keeps_reply completed_keeps_reply park_keeps_reply

lemma failed_keeps_reply_after: "same_reply ts (fst (failed_call env call t0 e (ts\<lparr>tu_state := st, tu_timed_out := b\<rparr>) w))"
  "same_reply ts (fst (failed_call env call t0 e (ts\<lparr>tu_state := st\<rparr>) w))"
  using failed_keeps_reply [of "ts\<lparr>tu_state := st, tu_timed_out := b\<rparr>"] failed_keeps_reply [of "ts\<lparr>tu_state := st\<rparr>"]
  by (simp_all add: same_reply_def)

lemma completed_keeps_reply_after: "same_reply ts (fst (completed_call env call t0 l v (ts\<lparr>tu_state := st\<rparr>) w))"
  using completed_keeps_reply [of "ts\<lparr>tu_state := st\<rparr>"] by (simp add: same_reply_def)

lemma dispatch_keeps_reply: "same_reply ts (fst (dispatch_call env call l ts w))"
  by (simp add: dispatch_call_def Let_def keeps_reply failed_keeps_reply_after completed_keeps_reply_after
      split: prod.splits option.splits sum.splits flow_tool_dispatch.splits)

lemma ledgered_keeps_reply: "same_reply ts (fst (ledgered_call env call ts w))"
proof -
  have "same_reply ts (reused_call env call v ts)" for v by (simp add: same_reply_def call_defs)
  then show ?thesis
    by (simp add: ledgered_call_def Let_def dispatch_keeps_reply split: prod.splits option.splits sum.splits)
qed

lemma call_keeps_reply:
  assumes "run_call env call ts w = (ts', w')"
  shows "tu_reply ts' = tu_reply ts \<and> tu_terminated_by ts' = tu_terminated_by ts"
proof -
  have "same_reply ts (answer_call call v ts)" "same_reply ts (malformed_call call v ts)" "same_reply ts (refused_call call ts)"
    "same_reply ts (blocked_call call ts)" for v
    by (simp_all add: same_reply_def call_defs refused_call_def Let_def split: prod.splits)
  then have "same_reply ts (fst (run_call env call ts w))"
    by (simp add: run_call_def host_keeps_reply ledgered_keeps_reply split: option.splits)
  with assms show ?thesis by (simp add: same_reply_def)
qed

lemma calls_keep_reply:
  "run_calls env calls ts w = (ts', w') \<Longrightarrow> tu_reply ts' = tu_reply ts \<and> tu_terminated_by ts' = tu_terminated_by ts"
proof (induction calls arbitrary: ts w)
  case (Cons c calls)
  then show ?case by (auto split: prod.splits dest!: call_keeps_reply)
qed simp

text \<open>A text is left to say only by a final reply, the end of the conversation, or a call that parked outside a side turn.\<close>

definition reply_due :: "'w turn_env \<Rightarrow> turn_state \<Rightarrow> bool" where
  "reply_due env ts \<longleftrightarrow> tu_reply ts = [] \<or> tu_terminated_by ts \<in> {FinalReply, ConversationEnded} \<or>
     tu_terminated_by ts = AwaitingToolInput \<and> \<not> tn_side_pending env"

lemma handle_response_due:
  assumes "tu_reply ts = []" and "tu_suspension ts = None" and "handle_response env resp ts w = (go, ts', w')"
  shows "if go then tu_reply ts' = [] \<and> tu_suspension ts' = None else reply_due env ts'"
proof (cases "\<exists>calls. tool_batch env resp calls ts w = (go, ts', w')")
  case True
  then obtain calls where b: "tool_batch env resp calls ts w = (go, ts', w')" by blast
  let ?ts = "(push_chat (AssistantMsg (case lr_content resp of Some c \<Rightarrow> c | None \<Rightarrow> []) calls) ts)\<lparr>tu_timed_out := False\<rparr>"
  obtain ts1 w1 where 1: "run_calls env calls ?ts w = (ts1, w1)" by fastforce
  from calls_keep_reply [OF 1] assms(1) have r: "tu_reply ts1 = []" by (simp add: push_chat_def)
  from side_run_calls [OF 1] assms(2) have s: "tn_side_pending env \<Longrightarrow> tu_suspension ts1 = None" by (simp add: push_chat_def)
  from b 1 r s show ?thesis by (auto simp: tool_batch_def reply_due_def split: if_splits)
next
  case False
  with assms show ?thesis
    by (auto simp: handle_response_def end_conversation_def push_step_def reply_due_def Let_def split: if_splits option.splits)
qed

lemma count_tokens_reply: "count_tokens env resp ts w = (ts', w') \<Longrightarrow> tu_reply ts' = tu_reply ts"
  by (auto simp: count_tokens_def push_step_def Let_def)

lemma iterate_due:
  "tu_reply ts = [] \<Longrightarrow> tu_suspension ts = None \<Longrightarrow> iterate n env k ts w = (Inr ts', w') \<Longrightarrow> reply_due env ts'"
proof (induction n arbitrary: k ts w)
  case 0
  then show ?case by (simp add: reply_due_def)
next
  case (Suc n)
  let ?rt = "tn_rt env" and ?l = "ag_limits (tn_config env)" and ?ts1 = "ts\<lparr>tu_iterations := k + 1\<rparr>"
  let ?st = "truncate_history (al_max_history_turns ?l) (tu_state ts)"
  let ?ts2 = "?ts1\<lparr>tu_state := ?st\<rparr>"
  obtain held w1 where held: "ensure_lock_held ?rt (tn_tenant env) (tn_session_id env) w = (held, w1)" by fastforce
  let ?req = "build_request env ?st w1"
  show ?case
  proof (cases "held = Inr () \<and> \<not> al_timeout ?l \<le> elapsed env w1 \<and> rt_llm_cut ?rt (time_left env w1) ?req w1 = None")
    case False
    with Suc.prems held show ?thesis
      by (cases held) (auto simp: Let_def reply_due_def split: if_splits)
  next
    case True
    obtain r w2 where r: "llm_call (rt_llm ?rt) ?l (rt_wants_streaming ?rt) ?req w1 = (r, w2)" by fastforce
    show ?thesis
    proof (cases r)
      case (Inl e)
      with True held r Suc.prems(3) show ?thesis by (simp add: Let_def llm_failed_def split: prod.splits)
    next
      case (Inr resp)
      obtain ts3 w3 where c: "count_tokens env resp ?ts2 w2 = (ts3, w3)" by fastforce
      from count_tokens_state [OF c] count_tokens_reply [OF c] Suc.prems(1,2)
      have ts3: "tu_reply ts3 = []" "tu_suspension ts3 = None" by simp_all
      obtain go ts4 w4 where h: "handle_response env resp ts3 w3 = (go, ts4, w4)" by (metis surj_pair)
      have eq: "iterate (Suc n) env k ts w = (if go then iterate n env (k + 1) ts4 w4 else (Inr ts4, w4))"
        using True held r Inr c h by (simp add: Let_def)
      note H = handle_response_due [OF ts3 h]
      show ?thesis
      proof (cases go)
        case go: True
        with H have "tu_reply ts4 = []" "tu_suspension ts4 = None" by simp_all
        moreover have "iterate n env (k + 1) ts4 w4 = (Inr ts', w')" using Suc.prems(3) unfolding eq if_P [OF go] .
        ultimately show ?thesis by (rule Suc.IH)
      next
        case stop: False
        with H Suc.prems(3) show ?thesis unfolding eq by simp
      qed
    qed
  qed
qed

subsection \<open>The reply of a turn\<close>

definition passed_outbound :: "'w turn_env \<Rightarrow> string \<Rightarrow> bool" where
  "passed_outbound env reply \<longleftrightarrow>
     (\<exists>raw w1 w2. chain_passes (rt_to_text (tn_rt env)) (rt_evaluate (tn_rt env)) Outbound (tn_guardrail_ctx env) (tn_chain env)
        raw w1 reply w2)"

lemma finish_passed:
  assumes "reply_due env ts" and "finish_turn env ts w = (Inr out, w')"
  shows "passed_outbound env (ao_reply out) \<or> ao_reply out = [] \<or>
    ao_terminated_by out = AwaitingToolInput \<and> \<not> ao_side_turn out"
proof (cases "tu_terminated_by ts = FinalReply \<or> tu_terminated_by ts = ConversationEnded")
  case True
  with assms(2) obtain reply obs w1 where
    pass: "run_chain_blocking (rt_to_text (tn_rt env)) (rt_evaluate (tn_rt env)) Outbound (tn_guardrail_ctx env) (tn_chain env)
      (tu_reply ts) w = (PassOutcome reply obs, w1)" and "ao_reply out = reply"
    by (auto simp: finish_turn_def finish_reply_def step_output_def Let_def split: prod.splits chain_outcome.splits sum.splits)
  with chain_blocking_passes show ?thesis unfolding passed_outbound_def by metis
next
  case False
  with assms show ?thesis
    by (auto simp: finish_turn_def finish_quiet_def step_output_def reply_due_def side_finish_def Let_def
        split: prod.splits sum.splits if_splits)
qed

lemma resume_turn_reply: "resume_turn env p v n ts w = (ts', w') \<Longrightarrow> tu_reply ts' = tu_reply ts"
  by (auto simp: resume_turn_def Let_def split: prod.splits)

lemma drive_passed:
  assumes "tu_reply ts = []" and "tu_suspension ts = None" and "drive_turn env tk n ts w = (Inr out, w')"
  shows "passed_outbound env (ao_reply out) \<or> ao_reply out = [] \<or>
    ao_terminated_by out = AwaitingToolInput \<and> \<not> ao_side_turn out"
proof -
  define x where "x = (case tk of
      Resume p payload \<Rightarrow> (pt_iterations_used p, resume_turn env p payload n ts w) | _ \<Rightarrow> (0, ts, w))"
  obtain k ts1 w1 where xk: "x = (k, ts1, w1)" by (metis prod_cases3)
  have r: "tu_reply ts1 = []"
    using xk x_def assms(1) by (cases tk) (auto dest: resume_turn_reply)
  let ?m = "iterations_left (ag_limits (tn_config env)) k ts1"
  have "drive_turn env tk n ts w = (case iterate ?m env k ts1 w1 of (Inl e, w2) \<Rightarrow> (Inl e, w2) | (Inr ts2, w2) \<Rightarrow> finish_turn env ts2 w2)"
    using xk x_def by (simp add: drive_turn_def)
  with assms(3) obtain ts2 w2 where it: "iterate ?m env k ts1 w1 = (Inr ts2, w2)" "finish_turn env ts2 w2 = (Inr out, w')"
    by (auto split: prod.splits sum.splits)
  have "reply_due env ts2"
  proof (cases "tu_suspension ts1 = None")
    case True
    show ?thesis by (rule iterate_due [OF r True it(1)])
  next
    case False
    with it(1) r show ?thesis by (auto simp: iterations_left_def reply_due_def)
  qed
  from finish_passed [OF this it(2)] show ?thesis .
qed

lemma locked_passed:
  assumes "locked_step rt current t i a config started step_id message w = (Inr out, w')"
  shows "(\<exists>m. ag_opening_message config = Some m \<and> out = opening_output (trim_white m)) \<or> ao_reply out = [] \<or> ao_terminated_by out = AwaitingToolInput \<and> \<not> ao_side_turn out \<or>
    (\<exists>mandatory chain raw w0 wm w1 w2. rt_mandatory_guardrails rt t w0 = (Inr mandatory, wm) \<and>
       assemble_chain (rt_capability rt wm) mandatory (ag_guardrails config) = Inr chain \<and>
       chain_passes (rt_to_text rt) (rt_evaluate rt) Outbound
         \<lparr>gx_agent_id = a, gx_session_id = i, gx_tenant_id = tc_tenant_id t, gx_env_id = tc_env_id t\<rparr> chain raw w1 (ao_reply out) w2)"
proof -
  let ?g = "\<lparr>gx_agent_id = a, gx_session_id = i, gx_tenant_id = tc_tenant_id t, gx_env_id = tc_env_id t\<rparr>"
  from assms obtain st w1 where load: "rt_load rt t i w = (Inr st, w1)"
    by (auto simp: locked_step_def split: prod.splits sum.splits)
  show ?thesis
  proof (cases "opening_of config message st")
    case (Some m)
    then obtain m' where "ag_opening_message config = Some m'" "m = trim_white m'"
      by (auto simp: opening_of_def bind_eq_Some_conv split: if_splits)
    with Some assms load show ?thesis by (auto simp: locked_step_def opening_turn_def)
  next
    case None
    obtain tk st1 where tk: "take_pending (ai_resume_payload message) (rt_now rt w1) (ag_on_text_while_parked config) st = (tk, st1)"
      by fastforce
    let ?res = "case tk of Resume _ _ \<Rightarrow> True | _ \<Rightarrow> False"
    from assms load None tk obtain chain w2 where gr: "guardrail_chain rt t config w1 = (Inr chain, w2)"
      by (auto simp: locked_step_def Let_def split: prod.splits sum.splits)
    from assms load None tk gr obtain um st2 w3 where rm: "receive_message rt ?g chain ?res message st1 w2 = (Inr (um, st2), w3)"
      by (auto simp: locked_step_def Let_def split: prod.splits sum.splits)
    let ?l = "rt_ledger_turn rt t a message w2"
    obtain env chunks w4 where env: "prepare_env rt current t i a config started step_id chain ?g ?l message tk um w3 = (env, chunks, w4)"
      by (metis prod_cases3)
    let ?ts = "first_turn_state st2 chunks (case tk of Cancelled s \<Rightarrow> Some s | _ \<Rightarrow> None)"
    from assms load None tk gr rm env obtain n where d: "drive_turn env tk n ?ts w4 = (Inr out, w')"
      by (simp add: locked_step_def Let_def)
    have fields: "tn_rt env = rt" "tn_chain env = chain" "tn_guardrail_ctx env = ?g"
      using env by (auto simp: prepare_env_def Let_def split: prod.splits)
    from gr obtain mandatory where "rt_mandatory_guardrails rt t w1 = (Inr mandatory, w2)"
      "assemble_chain (rt_capability rt w2) mandatory (ag_guardrails config) = Inr chain"
      by (auto simp: guardrail_chain_def split: prod.splits sum.splits)
    with drive_passed [OF _ _ d] show ?thesis
      unfolding passed_outbound_def fields by (auto simp: first_turn_state_def)
  qed
qed

lemma run_step_locked:
  assumes "run_step rt current t i a message w = (Inr out, w')"
  shows "\<exists>current' config started step_id w1 w2 w3. rt_agent_config rt t a w = (Inr config, w1) \<and>
    locked_step rt current' t i a config started step_id message w2 = (Inr out, w3)"
  using assms unfolding run_step_def run_step_scoped_def Let_def
  by (fastforce split: prod.splits sum.splits)

end
