(* ===== verification/Tool_Replay.thy ===== *)
theory Tool_Replay
  imports Agent_Replies
begin

section \<open>Tool calls are made once\<close>

text \<open>
  The interface of the ledger of tool results (the trait \<open>ToolLedger\<close> of \<open>tools.rs\<close>) as a locale, the loop's calls over any ledger that
  keeps it, and its instance with the key-value ledger of \<open>tools.rs\<close> over the in-process backend: a batch of calls that was carried out
  and is asked for again is answered from the ledger, with the same results and without a call.
\<close>

subsection \<open>The interface\<close>

text \<open>
  \<open>clock\<close> reads the time off the world, \<open>recorded w u\<close> is what a read at the time \<open>u\<close> returns when nothing is written until then, \<open>enc\<close> are
  the values that survive being written and read, \<open>ttl\<close> is how long an entry lives, and \<open>outside\<close> is everything but the ledger.
\<close>

locale tool_ledger_store =
  fixes lg :: "'w tool_ledger"
    and clock :: "'w \<Rightarrow> nat"
    and recorded :: "'w \<Rightarrow> nat \<Rightarrow> tenant_context \<Rightarrow> string \<Rightarrow> string \<rightharpoonup> json"
    and ok :: "'w \<Rightarrow> bool"
    and enc :: "json \<Rightarrow> bool"
    and ttl :: nat
    and outside :: "'w \<Rightarrow> 'x"
  assumes get_keeps: "ok w \<Longrightarrow> lg_get lg t i c w = (r, w') \<Longrightarrow>
      ok w' \<and> clock w' = clock w \<and> (\<forall>u \<ge> clock w. recorded w' u = recorded w u) \<and> outside w' = outside w"
    and get_value: "ok w \<Longrightarrow> lg_get lg t i c w = (r, w') \<Longrightarrow> r = Inr (Some v) \<longleftrightarrow> recorded w (clock w) t i c = Some v"
    and record_value: "ok w \<Longrightarrow> enc v \<Longrightarrow> lg_record lg t i c v w = (q, w') \<Longrightarrow>
      ok w' \<and> clock w' = clock w \<and>
      (\<forall>u. clock w \<le> u \<longrightarrow> u < clock w + ttl \<longrightarrow> recorded w' u t i = (recorded w u t i)(c \<mapsto> v))"

subsection \<open>The ledger over a key-value store\<close>

text \<open>A world with the store, its clock, and the rest.\<close>

definition kv_tool_ledger :: "('s, 'b) kv_ops \<Rightarrow> 'b ledger_codec \<Rightarrow> ('s \<times> nat \<times> 'x) tool_ledger" where
  "kv_tool_ledger kv lc =
     \<lparr>lg_get = (\<lambda>t i c (s, now, x). let (r, s') = kv_ledger_get kv lc now t i c s in (r, s', now, x)),
      lg_record = (\<lambda>t i c v (s, now, x). let (r, s') = kv_ledger_record kv lc now t i c v s in (r, s', now, x))\<rparr>"

definition kv_recorded ::
  "('s \<Rightarrow> nat \<Rightarrow> string \<Rightarrow> 'b option) \<Rightarrow> 'b ledger_codec \<Rightarrow> 's \<times> nat \<times> 'x \<Rightarrow> nat \<Rightarrow> tenant_context \<Rightarrow> string \<Rightarrow> string \<rightharpoonup> json" where
  "kv_recorded live lc w u t i c = Option.bind (live (fst w) u (ledger_key t i c)) (lc_from lc)"

abbreviation world_clock :: "'s \<times> nat \<times> 'x \<Rightarrow> nat" where
  "world_clock w \<equiv> fst (snd w)"

definition codes :: "'b ledger_codec \<Rightarrow> json \<Rightarrow> bool" where
  "codes lc v \<longleftrightarrow> Option.bind (lc_to lc v) (lc_from lc) = Some v"

context aw_kv
begin

lemma kv_ledger_store:
  "tool_ledger_store (kv_tool_ledger kv lc) world_clock (kv_recorded live lc) (\<lambda>w. invar (fst w)) (codes lc) KV_LEDGER_TTL (\<lambda>w. snd (snd w))"
proof
  fix w :: "'s \<times> nat \<times> 'x" and t i c r w' v
  assume inv: "invar (fst w)" and g: "lg_get (kv_tool_ledger kv lc) t i c w = (r, w')"
  obtain s now x where w: "w = (s, now, x)" by (metis prod_cases3)
  from inv w ledger_get_live [of s now lc t i c] obtain s' where s': "invar s'" "\<forall>u \<ge> now. live s' u = live s u"
    "kv_ledger_get kv lc now t i c s = ((case live s now (ledger_key t i c) of
          None \<Rightarrow> Inr None | Some b \<Rightarrow> rbind (ok_or DecodeError (lc_from lc b)) (\<lambda>r. Inr (Some r))), s')"
    by auto
  with g w have r: "r = (case live s now (ledger_key t i c) of
      None \<Rightarrow> Inr None | Some b \<Rightarrow> rbind (ok_or DecodeError (lc_from lc b)) (\<lambda>r. Inr (Some r)))" "w' = (s', now, x)"
    by (auto simp: kv_tool_ledger_def)
  from s' w r(2) show "invar (fst w') \<and> world_clock w' = world_clock w \<and>
      (\<forall>u \<ge> world_clock w. kv_recorded live lc w' u = kv_recorded live lc w u) \<and> snd (snd w') = snd (snd w)"
    by (simp add: kv_recorded_def fun_eq_iff)
  from w r(1) show "r = Inr (Some v) \<longleftrightarrow> kv_recorded live lc w (world_clock w) t i c = Some v"
    by (auto simp: kv_recorded_def ok_or_def rbind_def split: option.splits)
next
  fix w :: "'s \<times> nat \<times> 'x" and t i c r w' v
  assume inv: "invar (fst w)" and v: "codes lc v" and p: "lg_record (kv_tool_ledger kv lc) t i c v w = (r, w')"
  obtain s now x where w: "w = (s, now, x)" by (metis prod_cases3)
  from v obtain b where b: "lc_to lc v = Some b" "lc_from lc b = Some v" by (auto simp: codes_def bind_eq_Some_conv)
  from inv w ledger_record_live [OF _ b(1), of s now t i c] obtain s' where s': "invar s'"
    "\<forall>u \<ge> now. live s' u = (live s u)(ledger_key t i c := ttl_view now KV_LEDGER_TTL b u)"
    "kv_ledger_record kv lc now t i c v s = (Inr (), s')" by auto
  from p w s'(3) have "w' = (s', now, x)" by (auto simp: kv_tool_ledger_def)
  with s'(1,2) w b(2) show "invar (fst w') \<and> world_clock w' = world_clock w \<and> (\<forall>u. world_clock w \<le> u \<longrightarrow>
      u < world_clock w + KV_LEDGER_TTL \<longrightarrow> kv_recorded live lc w' u t i = (kv_recorded live lc w u t i)(c \<mapsto> v))"
    by (auto simp: kv_recorded_def fun_eq_iff ledger_key_inject ttl_view_def)
qed

end

interpretation memory_ledger: tool_ledger_store "kv_tool_ledger memory_kv lc" world_clock "kv_recorded mem_live lc"
  "\<lambda>w. mem_inv (fst w)" "codes lc" KV_LEDGER_TTL "\<lambda>w. snd (snd w)" for lc
  by (rule memory.kv_ledger_store)


subsection \<open>Calls that reach the ledger\<close>

text \<open>A call that passes the gates of the loop and is not one of the host's own tools.\<close>

definition plain_call :: "'w turn_env \<Rightarrow> tool_call_record \<Rightarrow> bool" where
  "plain_call env call \<longleftrightarrow> json_get MALFORMED_ARGS_KEY (tk_args call) = None \<and>
     \<not> (tn_side_pending env \<and> starts_with ''flow:'' (tk_extension_id call)) \<and>
     \<not> (tn_lt_active env \<and> is_host_tool call RECALL_MEMORY_TOOL) \<and>
     \<not> (tn_st_active env \<and> (is_host_tool call REMEMBER_TOOL \<or> is_host_tool call RECALL_TOOL)) \<and>
     is_tool_allowed call (ag_tools (tn_config env))"

definition call_key :: "'w turn_env \<Rightarrow> tool_call_record \<Rightarrow> string" where
  "call_key env call = ledger_call_id (rt_sha256 (tn_rt env)) (rt_to_text (tn_rt env)) call"

definition succeeded :: "agent_step \<Rightarrow> bool" where
  "succeeded s = (case s of ToolCallStep x \<Rightarrow> \<not> is_error_result (ts_result x) | ToolCallReusedStep _ _ \<Rightarrow> True | _ \<Rightarrow> False)"

lemma plain_run_call:
  "plain_call env call \<Longrightarrow> \<not> tu_timed_out ts \<Longrightarrow> tu_suspension ts = None \<Longrightarrow> run_call env call ts w = ledgered_call env call ts w"
  by (auto simp: plain_call_def run_call_def)

text \<open>
  The tools and the trace leave the entries of the ledger of the session alone: time may pass while they run, and what a later read finds is
  what it would have found without them.
\<close>

definition leaves_ledger ::
  "('w \<Rightarrow> nat) \<Rightarrow> ('w \<Rightarrow> nat \<Rightarrow> tenant_context \<Rightarrow> string \<Rightarrow> string \<rightharpoonup> json) \<Rightarrow> ('w \<Rightarrow> bool) \<Rightarrow> 'w turn_env \<Rightarrow> bool" where
  "leaves_ledger clock recorded ok env \<longleftrightarrow>
     (let rt = tn_rt env; keep = (\<lambda>w w'. ok w \<longrightarrow> ok w' \<and> clock w \<le> clock w' \<and> (\<forall>u \<ge> clock w'.
            recorded w' u (tn_tenant env) (tn_session_id env) = recorded w u (tn_tenant env) (tn_session_id env))) in
      (\<forall>n es w. keep w (rt_put_trace rt n es w)) \<and>
      (\<forall>n call m w m' w'. rt_tool_cut rt n call m w = Some (m', w') \<longrightarrow> keep w w') \<and>
      (\<forall>call m w. keep w (snd (snd (dispatch_tool_call_in_conversation (rt_to_text rt) (rt_parse rt) (rt_ext rt) (tn_catalogs env)
         (tn_current env) (rt_now rt w) (tn_tenant env) call (Some m) w)))) \<and>
      (\<forall>frame flow_ref call w. keep w (snd (dispatch_flow_tool_interactive (rt_to_text rt) (cg_flows (tn_catalogs env)) (tn_current env)
         frame flow_ref call w))))"

text \<open>Nothing that a read finds at the start of a span of time, or that is written in it, expires before its end.\<close>

definition unexpired ::
  "('w \<Rightarrow> nat) \<Rightarrow> ('w \<Rightarrow> nat \<Rightarrow> tenant_context \<Rightarrow> string \<Rightarrow> string \<rightharpoonup> json) \<Rightarrow> nat \<Rightarrow> 'w turn_env \<Rightarrow> nat \<Rightarrow> 'w \<Rightarrow> bool" where
  "unexpired clock recorded ttl env u w \<longleftrightarrow> u < clock w + ttl \<and> (\<forall>v. clock w \<le> v \<longrightarrow> v \<le> u \<longrightarrow>
     recorded w v (tn_tenant env) (tn_session_id env) = recorded w u (tn_tenant env) (tn_session_id env))"

lemma unexpiredD:
  assumes "unexpired clock recorded ttl env u w"
  shows "u < clock w + ttl"
    and "clock w \<le> v \<Longrightarrow> v \<le> u \<Longrightarrow>
      recorded w v (tn_tenant env) (tn_session_id env) = recorded w u (tn_tenant env) (tn_session_id env)"
  using assms unfolding unexpired_def by blast+

lemma unexpiredI:
  assumes "u < clock w + ttl"
    and "\<And>v. clock w \<le> v \<Longrightarrow> v \<le> u \<Longrightarrow>
      recorded w v (tn_tenant env) (tn_session_id env) = recorded w u (tn_tenant env) (tn_session_id env)"
  shows "unexpired clock recorded ttl env u w"
  using assms unfolding unexpired_def by blast

text \<open>Each call only adds to the trail, and one that parked stays parked for the rest of its batch.\<close>

definition trail_grows :: "turn_state \<Rightarrow> turn_state \<Rightarrow> bool" where
  "trail_grows ts ts' \<longleftrightarrow> (\<exists>steps. tu_trail ts' = tu_trail ts @ steps)"

lemma trail_grows_by: "tu_trail ts' = tu_trail ts @ steps \<Longrightarrow> trail_grows ts ts'"
  by (auto simp: trail_grows_def)

lemma host_trail: "trail_grows ts (fst (host_call env call run ts w))"
  by (auto simp: trail_grows_def host_call_def call_defs split: prod.splits)

lemma failed_trail: "tu_trail ts' = tu_trail ts \<Longrightarrow> trail_grows ts (fst (failed_call env call t0 e ts' w))"
  by (auto simp: trail_grows_def failed_call_def call_defs)

lemma completed_trail: "tu_trail ts' = tu_trail ts \<Longrightarrow> trail_grows ts (fst (completed_call env call t0 l v ts' w))"
  by (auto simp: trail_grows_def completed_call_def call_defs)

lemma park_trail: "trail_grows ts (park_call env call f s p ts w)"
  by (auto simp: trail_grows_def park_call_def call_defs)

lemma dispatch_trail: "trail_grows ts (fst (dispatch_call env call l ts w))"
  by (simp add: dispatch_call_def Let_def park_trail failed_trail completed_trail
      split: prod.splits option.splits sum.splits flow_tool_dispatch.splits)

lemma ledgered_trail: "trail_grows ts (fst (ledgered_call env call ts w))"
proof -
  have "trail_grows ts (reused_call env call v ts)" for v by (simp add: trail_grows_def call_defs)
  then show ?thesis by (simp add: ledgered_call_def Let_def dispatch_trail split: prod.splits option.splits sum.splits)
qed

lemma call_trail: "trail_grows ts (fst (run_call env call ts w))"
proof -
  have "trail_grows ts (answer_call call v ts)" "trail_grows ts (malformed_call call v ts)" "trail_grows ts (refused_call call ts)"
    "trail_grows ts (blocked_call call ts)" for v
    by (auto simp: trail_grows_def call_defs split: prod.splits)
  then show ?thesis by (simp add: run_call_def host_trail ledgered_trail split: option.splits)
qed

lemma parked_call_stays: "tu_suspension ts \<noteq> None \<Longrightarrow> tu_suspension (fst (run_call env call ts w)) = tu_suspension ts"
  by (auto simp: run_call_def call_defs split: option.splits prod.splits)

lemma parked_calls_stay: "tu_suspension ts \<noteq> None \<Longrightarrow> tu_suspension (fst (run_calls env calls ts w)) = tu_suspension ts"
proof (induction calls arbitrary: ts w)
  case (Cons c calls)
  then show ?case using parked_call_stays [of ts env c w] by (auto split: prod.splits)
qed simp

lemma calls_trail: "trail_grows ts (fst (run_calls env calls ts w))"
proof (induction calls arbitrary: ts w)
  case (Cons c calls)
  obtain ts1 w1 where "run_call env c ts w = (ts1, w1)" by fastforce
  with call_trail [of ts env c w] Cons.IH [of ts1 w1] show ?case by (auto simp: trail_grows_def)
qed (simp add: trail_grows_def)


subsection \<open>What a carried out call leaves in the ledger\<close>

definition answers :: "'w turn_env \<Rightarrow> tool_call_record list \<Rightarrow> json list \<Rightarrow> chat_message list" where
  "answers env calls vs = map2 (\<lambda>c v. ToolMsg (tk_call_id c) (cap_tool_result (rt_to_text (tn_rt env)) v)) calls vs"

lemma answers_simps [simp]:
  "answers env [] vs = []"
  "answers env (c # calls) (v # vs) = ToolMsg (tk_call_id c) (cap_tool_result (rt_to_text (tn_rt env)) v) # answers env calls vs"
  by (simp_all add: answers_def)

context tool_ledger_store
begin

abbreviation entries :: "'w turn_env \<Rightarrow> nat \<Rightarrow> 'w \<Rightarrow> string \<rightharpoonup> json" where
  "entries env u w \<equiv> recorded w u (tn_tenant env) (tn_session_id env)"

abbreviation fresh :: "'w turn_env \<Rightarrow> nat \<Rightarrow> 'w \<Rightarrow> bool" where
  "fresh \<equiv> unexpired clock recorded ttl"

text \<open>From one world to a later one, as a read at the time \<open>u\<close> sees it.\<close>

definition kept :: "'w turn_env \<Rightarrow> nat \<Rightarrow> 'w \<Rightarrow> 'w \<Rightarrow> bool" where
  "kept env u w w' \<longleftrightarrow> ok w' \<and> clock w \<le> clock w' \<and> (clock w' \<le> u \<longrightarrow> fresh env u w \<longrightarrow> fresh env u w' \<and>
     (\<forall>c v. entries env u w c = Some v \<longrightarrow> \<not> is_error_result v \<longrightarrow> entries env u w' c = Some v))"

definition holds :: "'w turn_env \<Rightarrow> nat \<Rightarrow> 'w \<Rightarrow> tool_call_record \<Rightarrow> json \<Rightarrow> bool" where
  "holds env u w call v \<longleftrightarrow> entries env u w (call_key env call) = Some v \<and> \<not> is_error_result v"

lemma kept_trans: "kept env u w w1 \<Longrightarrow> kept env u w1 w2 \<Longrightarrow> kept env u w w2"
  by (auto simp: kept_def)

lemma kept_holds: "kept env u w w' \<Longrightarrow> clock w' \<le> u \<Longrightarrow> fresh env u w \<Longrightarrow> holds env u w call v \<Longrightarrow> holds env u w' call v"
  by (simp add: kept_def holds_def)

lemma fresh_same:
  assumes "clock w \<le> clock w'" and "\<forall>v \<ge> clock w'. entries env v w' = entries env v w" and "clock w' \<le> u" and "fresh env u w"
  shows "fresh env u w'"
proof (rule unexpiredI)
  from unexpiredD(1) [OF assms(4)] assms(1) show "u < clock w' + ttl" by simp
  fix v assume v: "clock w' \<le> v" "v \<le> u"
  with unexpiredD(2) [OF assms(4), of v] assms(1) have "entries env v w = entries env u w" by simp
  with v(1) assms(2,3) show "entries env v w' = entries env u w'" by simp
qed

text \<open>Time passes and the entries stay.\<close>

definition passed :: "'w turn_env \<Rightarrow> 'w \<Rightarrow> 'w \<Rightarrow> bool" where
  "passed env w w' \<longleftrightarrow> ok w' \<and> clock w \<le> clock w' \<and> (\<forall>u \<ge> clock w'. entries env u w' = entries env u w)"

lemma passed_kept: "passed env w w' \<Longrightarrow> kept env u w w'"
  unfolding kept_def passed_def using fresh_same by auto

lemma passed_holds: "passed env w w' \<Longrightarrow> clock w' \<le> u \<Longrightarrow> holds env u w' call v \<longleftrightarrow> holds env u w call v"
  by (simp add: passed_def holds_def)

lemma passed_trans: "passed env w w1 \<Longrightarrow> passed env w1 w2 \<Longrightarrow> passed env w w2"
  by (auto simp: passed_def)

lemma trace_passed: "leaves_ledger clock recorded ok env \<Longrightarrow> ok w \<Longrightarrow> passed env w (trace_outcome env tool outcome result w)"
  by (simp add: trace_outcome_def leaves_ledger_def passed_def Let_def split: option.splits)

lemma leaves_cut:
  "leaves_ledger clock recorded ok env \<Longrightarrow> ok w \<Longrightarrow> rt_tool_cut (tn_rt env) n call m w = Some (m', w') \<Longrightarrow> passed env w w'"
  unfolding leaves_ledger_def passed_def Let_def by blast

lemma leaves_tool:
  "leaves_ledger clock recorded ok env \<Longrightarrow> ok w \<Longrightarrow>
   passed env w (snd (snd (dispatch_tool_call_in_conversation (rt_to_text (tn_rt env)) (rt_parse (tn_rt env)) (rt_ext (tn_rt env))
     (tn_catalogs env) (tn_current env) (rt_now (tn_rt env) w) (tn_tenant env) call (Some m) w)))"
  unfolding leaves_ledger_def passed_def Let_def by blast

lemma leaves_flow:
  "leaves_ledger clock recorded ok env \<Longrightarrow> ok w \<Longrightarrow>
   passed env w (snd (dispatch_flow_tool_interactive (rt_to_text (tn_rt env)) (cg_flows (tn_catalogs env)) (tn_current env)
     frame flow_ref call w))"
  unfolding leaves_ledger_def passed_def Let_def by blast

lemma get_passed: "ok w \<Longrightarrow> lg_get lg (tn_tenant env) (tn_session_id env) c w = (r, w') \<Longrightarrow> passed env w w'"
  unfolding passed_def using get_keeps by (metis order_refl)

text \<open>A record adds one entry, for any read before it expires.\<close>

lemma record_adds:
  assumes "ok w" and "enc result" and "lg_record lg (tn_tenant env) (tn_session_id env) c result w = (q, w')"
  shows "ok w' \<and> clock w' = clock w \<and> (clock w \<le> u \<longrightarrow> fresh env u w \<longrightarrow>
    fresh env u w' \<and> entries env u w' = (entries env u w)(c \<mapsto> result))"
proof -
  from record_value [OF assms] have w': "ok w'" "clock w' = clock w"
    "\<And>v. clock w \<le> v \<Longrightarrow> v < clock w + ttl \<Longrightarrow> entries env v w' = (entries env v w)(c \<mapsto> result)" by simp_all
  have "fresh env u w' \<and> entries env u w' = (entries env u w)(c \<mapsto> result)" if "clock w \<le> u" "fresh env u w"
  proof -
    note f = unexpiredD [OF that(2)]
    from w'(3) [OF that(1) f(1)] have eq: "entries env u w' = (entries env u w)(c \<mapsto> result)" .
    moreover have "fresh env u w'"
    proof (rule unexpiredI)
      from f(1) w'(2) show "u < clock w' + ttl" by simp
      fix v assume v: "clock w' \<le> v" "v \<le> u"
      with w'(2) f(1) have "entries env v w' = (entries env v w)(c \<mapsto> result)" by (intro w'(3)) simp_all
      with f(2) [of v] v w'(2) eq show "entries env v w' = entries env u w'" by simp
    qed
    ultimately show ?thesis by simp
  qed
  with w' show ?thesis by blast
qed

text \<open>What a call that is dispatched leaves behind.\<close>

definition carried :: "'w turn_env \<Rightarrow> nat \<Rightarrow> tool_call_record \<Rightarrow> turn_state \<Rightarrow> 'w \<Rightarrow> turn_state \<times> 'w \<Rightarrow> bool" where
  "carried env u call ts w r \<longleftrightarrow> kept env u w (snd r) \<and>
     (tu_suspension (fst r) = None \<longrightarrow> list_all succeeded (drop (length (tu_trail ts)) (tu_trail (fst r))) \<longrightarrow>
       \<not> tu_timed_out (fst r) \<and>
       (clock (snd r) \<le> u \<longrightarrow> fresh env u w \<longrightarrow>
         (\<exists>v. holds env u (snd r) call v \<and> cs_messages (tu_state (fst r)) = cs_messages (tu_state ts) @ answers env [call] [v])))"

lemma carried_after: "kept env u w w1 \<Longrightarrow> carried env u call ts w1 r \<Longrightarrow> carried env u call ts w r"
  unfolding carried_def kept_def by (auto dest: order_trans)

lemma failed_carried:
  assumes "leaves_ledger clock recorded ok env" and "ok w" and "tu_trail ts1 = tu_trail ts"
  shows "carried env u call ts w (failed_call env call t0 e ts1 w)"
proof -
  have "\<not> succeeded (call_step call (error_value m) d)" for m d
    by (simp add: succeeded_def call_step_def error_value_def is_error_result_def json_obj_def)
  with passed_kept [OF trace_passed [OF assms(1,2)]] assms(3) show ?thesis
    by (simp add: carried_def failed_call_def call_defs)
qed

lemma completed_carried:
  assumes "leaves_ledger clock recorded ok env" and "rt_ledger (tn_rt env) = lg" and "\<And>v. enc v" and "passed env w w1"
    and "tu_trail ts1 = tu_trail ts" and "cs_messages (tu_state ts1) = cs_messages (tu_state ts)" and "\<not> tu_timed_out ts1"
    and new: "\<And>v. clock w \<le> u \<Longrightarrow> fresh env u w \<Longrightarrow> \<not> holds env u w call v"
  shows "carried env u call ts w (completed_call env call t0 (call_key env call) result ts1 w1)"
proof -
  let ?w2 = "trace_outcome env (tk_tool_name call) (tool_outcome_of result) result w1"
  have w2: "passed env w ?w2"
    using passed_trans [OF assms(4) trace_passed [OF assms(1)]] assms(4) by (simp add: passed_def)
  show ?thesis
  proof (cases "is_error_result result")
    case True
    then have "\<not> succeeded (call_step call result d)" for d by (simp add: succeeded_def call_step_def)
    with True passed_kept [OF w2] assms(5) show ?thesis by (simp add: carried_def completed_call_def call_defs)
  next
    case False
    obtain q w3 where q: "lg_record lg (tn_tenant env) (tn_session_id env) (call_key env call) result ?w2 = (q, w3)" by (metis surj_pair)
    from record_adds [OF _ assms(3) q, of u] w2 have w3: "ok w3" "clock w \<le> clock w3" "clock ?w2 = clock w3"
      "clock ?w2 \<le> u \<longrightarrow> fresh env u ?w2 \<longrightarrow> fresh env u w3 \<and> entries env u w3 = (entries env u ?w2)(call_key env call \<mapsto> result)"
      by (simp_all add: passed_def)
    have add: "fresh env u w3 \<and> entries env u w3 = (entries env u w)(call_key env call \<mapsto> result)"
      if "clock w3 \<le> u" "fresh env u w"
      using that w2 w3(3,4) passed_kept [OF w2, of u] by (simp add: kept_def passed_def)
    have "x \<noteq> call_key env call" if "clock w3 \<le> u" "fresh env u w" "entries env u w x = Some v" "\<not> is_error_result v" for x v
      using new [of v] that w3(2) by (auto simp: holds_def)
    with add w3(1,2) have "kept env u w w3" by (auto simp: kept_def)
    moreover have "holds env u w3 call result" if "clock w3 \<le> u" "fresh env u w"
      using add [OF that] False by (simp add: holds_def)
    ultimately show ?thesis using False q assms(2,6,7) by (auto simp: carried_def completed_call_def call_defs)
  qed
qed

lemma dispatch_carried:
  assumes "leaves_ledger clock recorded ok env" and "rt_ledger (tn_rt env) = lg" and "\<And>v. enc v" and "ok w"
    and "\<not> tu_timed_out ts" and new: "\<And>v. clock w \<le> u \<Longrightarrow> fresh env u w \<Longrightarrow> \<not> holds env u w call v"
  shows "carried env u call ts w (dispatch_call env call (call_key env call) ts w)"
proof -
  note failed = failed_carried [OF assms(1)]
  note completed = completed_carried [OF assms(1-3) _ _ _ _ new]
  show ?thesis
  proof (cases "strip_prefix ''flow:'' (tk_extension_id call)")
    case (Some flow_ref)
    obtain d w1 where d: "dispatch_flow_tool_interactive (rt_to_text (tn_rt env)) (cg_flows (tn_catalogs env)) (tn_current env)
        (flow_frame env (tk_call_id call)) flow_ref call w = (d, w1)" by fastforce
    have p: "passed env w w1"
      using leaves_flow [OF assms(1,4), of "flow_frame env (tk_call_id call)" flow_ref call] d by simp
    show ?thesis
    proof (cases d)
      case (FlowValue v)
      with Some d completed [OF p refl refl assms(5)] show ?thesis by (simp add: dispatch_call_def Let_def)
    next
      case (FlowSuspend s q)
      with Some d passed_kept [OF p] show ?thesis by (simp add: dispatch_call_def Let_def carried_def park_call_def)
    qed
  next
    case None
    show ?thesis
    proof (cases "rt_tool_cut (tn_rt env) (time_left env w) call (cs_a2a (tu_state ts)) w")
      case (Some x)
      then obtain m w1 where x: "rt_tool_cut (tn_rt env) (time_left env w) call (cs_a2a (tu_state ts)) w = Some (m, w1)" by fastforce
      note p = leaves_cut [OF assms(1,4) x]
      then have "ok w1" by (simp add: passed_def)
      from carried_after [OF passed_kept [OF p] failed [OF this]] None x show ?thesis by (simp add: dispatch_call_def Let_def)
    next
      case no_cut: None
      obtain out m w1 where d: "dispatch_tool_call_in_conversation (rt_to_text (tn_rt env)) (rt_parse (tn_rt env)) (rt_ext (tn_rt env))
          (tn_catalogs env) (tn_current env) (rt_now (tn_rt env) w) (tn_tenant env) call (Some (cs_a2a (tu_state ts))) w = (out, m, w1)"
        by (metis prod_cases3)
      have p: "passed env w w1" using leaves_tool [OF assms(1,4), of call "cs_a2a (tu_state ts)"] d by simp
      let ?ts = "ts\<lparr>tu_state := (tu_state ts)\<lparr>cs_a2a := (case m of Some a \<Rightarrow> a | None \<Rightarrow> cs_a2a (tu_state ts))\<rparr>\<rparr>"
      show ?thesis
      proof (cases out)
        case (Inl e)
        from p have "ok w1" by (simp add: passed_def)
        from carried_after [OF passed_kept [OF p] failed [OF this, of ?ts]] Inl None no_cut d show ?thesis
          by (simp add: dispatch_call_def Let_def)
      next
        case (Inr v)
        from completed [OF p, of ?ts ts] assms(5) Inr None no_cut d show ?thesis by (simp add: dispatch_call_def Let_def)
      qed
    qed
  qed
qed

end

subsection \<open>A batch, and the same batch again\<close>

context tool_ledger_store
begin

lemma ledgered_carried:
  assumes "leaves_ledger clock recorded ok env" and "rt_ledger (tn_rt env) = lg" and "\<And>v. enc v" and "ok w" and "\<not> tu_timed_out ts"
  shows "carried env u call ts w (ledgered_call env call ts w)"
proof -
  obtain r w1 where g: "lg_get lg (tn_tenant env) (tn_session_id env) (call_key env call) w = (r, w1)" by (metis surj_pair)
  note p = get_passed [OF assms(4) g] and read = get_value [OF assms(4) g]
  have now: "entries env (clock w) w = entries env u w" if "clock w \<le> u" "fresh env u w"
    using unexpiredD(2) [OF that(2) order_refl that(1)] .
  show ?thesis
  proof (cases "\<exists>v. r = Inr (Some v) \<and> \<not> is_error_result v")
    case True
    then obtain v where r: "r = Inr (Some v)" "\<not> is_error_result v" by blast
    have "holds env u w1 call v" if "clock w1 \<le> u" "fresh env u w"
      using that p r read [of v] now passed_holds [OF p that(1)] by (simp add: passed_def holds_def)
    with passed_kept [OF p] r g assms(2,5) show ?thesis
      by (auto simp: ledgered_call_def Let_def carried_def call_defs call_key_def)
  next
    case False
    from p have w1: "ok w1" "clock w \<le> clock w1" by (simp_all add: passed_def)
    have eq: "ledgered_call env call ts w = dispatch_call env call (call_key env call) ts w1"
      using False g assms(2) by (auto simp: ledgered_call_def Let_def call_key_def split: sum.splits option.splits)
    have "\<not> holds env u w1 call v" if "clock w1 \<le> u" "fresh env u w1" for v
    proof -
      from get_keeps [OF assms(4) g] assms(4) have "passed env w1 w" by (simp add: passed_def)
      from passed_kept [OF this, of u] that get_keeps [OF assms(4) g] have "fresh env u w" by (simp add: kept_def)
      with now that w1(2) read [of v] False passed_holds [OF p that(1)] show ?thesis by (auto simp: holds_def)
    qed
    from carried_after [OF passed_kept [OF p] dispatch_carried [OF assms(1-3) w1(1) assms(5) this]] show ?thesis unfolding eq .
  qed
qed

lemma batch_recorded:
  assumes "leaves_ledger clock recorded ok env" and "rt_ledger (tn_rt env) = lg" and "\<And>v. enc v"
  shows "ok w \<Longrightarrow> \<not> tu_timed_out ts \<Longrightarrow> tu_suspension ts = None \<Longrightarrow> list_all (plain_call env) calls \<Longrightarrow>
    run_calls env calls ts w = (ts', w') \<Longrightarrow> tu_suspension ts' = None \<Longrightarrow>
    tu_trail ts' = tu_trail ts @ steps \<Longrightarrow> list_all succeeded steps \<Longrightarrow>
    kept env u w w' \<and> (clock w' \<le> u \<longrightarrow> fresh env u w \<longrightarrow> (\<exists>vs. list_all2 (holds env u w') calls vs \<and>
      cs_messages (tu_state ts') = cs_messages (tu_state ts) @ answers env calls vs))"
proof (induction calls arbitrary: ts w steps)
  case Nil
  then show ?case by (simp add: kept_def)
next
  case (Cons c calls)
  obtain ts1 w1 where 1: "run_call env c ts w = (ts1, w1)" by fastforce
  with Cons.prems(5) have rest: "run_calls env calls ts1 w1 = (ts', w')" by simp
  from parked_calls_stay [of ts1 env calls w1] rest Cons.prems(6) have s1: "tu_suspension ts1 = None"
    by (cases "tu_suspension ts1") simp_all
  from call_trail [of ts env c w] 1 obtain steps1 where t1: "tu_trail ts1 = tu_trail ts @ steps1" by (auto simp: trail_grows_def)
  from calls_trail [of ts1 env calls w1] rest obtain steps2 where t2: "tu_trail ts' = tu_trail ts1 @ steps2"
    by (auto simp: trail_grows_def)
  with t1 Cons.prems(7,8) have ok12: "list_all succeeded steps1" "list_all succeeded steps2" by auto
  from Cons.prems(4) have plain: "plain_call env c" "list_all (plain_call env) calls" by simp_all
  from ledgered_carried [OF assms Cons.prems(1,2), of u c] 1 plain_run_call [OF plain(1) Cons.prems(2,3), of w]
  have "carried env u c ts w (ts1, w1)" by simp
  with s1 t1 ok12(1) have k1: "kept env u w w1" and to1: "\<not> tu_timed_out ts1"
    and one: "clock w1 \<le> u \<longrightarrow> fresh env u w \<longrightarrow>
      (\<exists>v. holds env u w1 c v \<and> cs_messages (tu_state ts1) = cs_messages (tu_state ts) @ answers env [c] [v])"
    by (simp_all add: carried_def)
  from k1 have "ok w1" by (simp add: kept_def)
  from Cons.IH [OF this to1 s1 plain(2) rest Cons.prems(6) t2 ok12(2)] have k2: "kept env u w1 w'"
    and later: "clock w' \<le> u \<longrightarrow> fresh env u w1 \<longrightarrow> (\<exists>vs. list_all2 (holds env u w') calls vs \<and>
      cs_messages (tu_state ts') = cs_messages (tu_state ts1) @ answers env calls vs)" by blast+
  have "\<exists>vs. list_all2 (holds env u w') (c # calls) vs \<and>
      cs_messages (tu_state ts') = cs_messages (tu_state ts) @ answers env (c # calls) vs"
    if t: "clock w' \<le> u" and f: "fresh env u w"
  proof -
    from k1 k2 t f have "clock w1 \<le> u" "fresh env u w1" by (auto simp: kept_def)
    with one later t f obtain v vs where "holds env u w1 c v" "list_all2 (holds env u w') calls vs"
      and m: "cs_messages (tu_state ts1) = cs_messages (tu_state ts) @ answers env [c] [v]"
        "cs_messages (tu_state ts') = cs_messages (tu_state ts1) @ answers env calls vs" by blast
    with kept_holds [OF k2 t \<open>fresh env u w1\<close>] have "list_all2 (holds env u w') (c # calls) (v # vs)" by simp
    moreover have "cs_messages (tu_state ts') = cs_messages (tu_state ts) @ answers env (c # calls) (v # vs)" using m by simp
    ultimately show ?thesis by blast
  qed
  with kept_trans [OF k1 k2] show ?case by blast
qed

lemma batch_reused:
  assumes "rt_ledger (tn_rt env) = lg"
  shows "ok w \<Longrightarrow> \<not> tu_timed_out ts \<Longrightarrow> tu_suspension ts = None \<Longrightarrow> list_all (plain_call env) calls \<Longrightarrow>
    list_all2 (holds env (clock w) w) calls vs \<Longrightarrow> run_calls env calls ts w = (ts', w') \<Longrightarrow>
    cs_messages (tu_state ts') = cs_messages (tu_state ts) @ answers env calls vs \<and>
    tu_trail ts' = tu_trail ts @ map (\<lambda>c. ToolCallReusedStep (tk_tool_name c) (tk_call_id c)) calls \<and> outside w' = outside w"
proof (induction calls arbitrary: ts w vs)
  case Nil
  then show ?case by simp
next
  case (Cons c calls)
  from Cons.prems(5) obtain v vs' where v: "vs = v # vs'" "holds env (clock w) w c v" "list_all2 (holds env (clock w) w) calls vs'"
    by (auto simp: list_all2_Cons1)
  from Cons.prems(4) have plain: "plain_call env c" "list_all (plain_call env) calls" by simp_all
  obtain r w1 where g: "lg_get lg (tn_tenant env) (tn_session_id env) (call_key env c) w = (r, w1)" by (metis surj_pair)
  from get_keeps [OF Cons.prems(1) g] have w1: "ok w1" "clock w1 = clock w" "recorded w1 (clock w) = recorded w (clock w)"
    "outside w1 = outside w" by simp_all
  from get_value [OF Cons.prems(1) g, of v] v(2) have r: "r = Inr (Some v)" "\<not> is_error_result v" by (simp_all add: holds_def)
  let ?ts1 = "reused_call env c v ts"
  have "run_call env c ts w = (?ts1, w1)"
    using plain_run_call [OF plain(1) Cons.prems(2,3)] r g assms by (simp add: ledgered_call_def Let_def call_key_def)
  with Cons.prems(6) have rest: "run_calls env calls ?ts1 w1 = (ts', w')" by simp
  have ts1: "\<not> tu_timed_out ?ts1" "tu_suspension ?ts1 = None"
    "cs_messages (tu_state ?ts1) = cs_messages (tu_state ts) @ answers env [c] [v]"
    "tu_trail ?ts1 = tu_trail ts @ [ToolCallReusedStep (tk_tool_name c) (tk_call_id c)]"
    using Cons.prems(2,3) by (simp_all add: call_defs)
  have "holds env (clock w1) w1 = holds env (clock w) w" using w1(2,3) by (simp add: holds_def fun_eq_iff)
  with v(3) have "list_all2 (holds env (clock w1) w1) calls vs'" by simp
  from Cons.IH [OF w1(1) ts1(1,2) plain(2) this rest] ts1(3,4) w1(4) v(1) show ?case by simp
qed

text \<open>
  The two together: the second time may be another process, with other tools, as long as its ledger has every entry that a read found
  when the first batch was done.
\<close>

lemma batch_replayed:
  assumes "leaves_ledger clock recorded ok env" and "rt_ledger (tn_rt env) = lg" and "\<And>v. enc v"
    and "ok w" and "\<not> tu_timed_out ts" and "tu_suspension ts = None" and "list_all (plain_call env) calls"
    and "run_calls env calls ts w = (ts1, w1)" and "tu_suspension ts1 = None"
    and "tu_trail ts1 = tu_trail ts @ steps" and "list_all succeeded steps" and "unexpired clock recorded ttl env (clock w1) w"
    and env2: "rt_ledger (tn_rt env2) = lg" "rt_sha256 (tn_rt env2) = rt_sha256 (tn_rt env)"
      "rt_to_text (tn_rt env2) = rt_to_text (tn_rt env)" "tn_tenant env2 = tn_tenant env" "tn_session_id env2 = tn_session_id env"
    and "ok w2" and le: "recorded w1 (clock w1) (tn_tenant env) (tn_session_id env) \<subseteq>\<^sub>m recorded w2 (clock w2) (tn_tenant env) (tn_session_id env)"
    and "\<not> tu_timed_out ts2" and "tu_suspension ts2 = None" and "list_all (plain_call env2) calls"
    and "run_calls env2 calls ts2 w2 = (ts3, w3)"
  shows "\<exists>results. cs_messages (tu_state ts1) = cs_messages (tu_state ts) @ results \<and>
    cs_messages (tu_state ts3) = cs_messages (tu_state ts2) @ results \<and>
    tu_trail ts3 = tu_trail ts2 @ map (\<lambda>c. ToolCallReusedStep (tk_tool_name c) (tk_call_id c)) calls \<and> outside w3 = outside w2"
proof -
  from batch_recorded [OF assms(1-11), of "clock w1"] assms(12) obtain vs where vs: "list_all2 (holds env (clock w1) w1) calls vs"
    and m: "cs_messages (tu_state ts1) = cs_messages (tu_state ts) @ answers env calls vs" by blast
  have "holds env2 (clock w2) w2 c v" if "holds env (clock w1) w1 c v" for c v
    using that le unfolding holds_def call_key_def env2 map_le_def by (metis domI)
  with vs have "list_all2 (holds env2 (clock w2) w2) calls vs" by (simp add: list_all2_mono)
  from batch_reused [OF env2(1) assms(18,20-22) this assms(23)] m env2(3) show ?thesis by (auto simp: answers_def)
qed

end

end
