(* ===== verification/Tool_Confine.thy ===== *)
theory Tool_Confine
  imports Tool_Replay
begin

section \<open>Tools outside the allow-list\<close>

text \<open>
  The loop offers the model the tools of the agent's configuration and the host's own, and whatever the model asks for, a tool outside
  that list does not matter: the loop runs alike over tool sources that agree on the tools in it.
\<close>

definition swap_tools ::
  "'w tool_catalogs \<Rightarrow> 'w ext_runtime \<Rightarrow> (nat \<Rightarrow> tool_call_record \<Rightarrow> a2a_continuations \<Rightarrow> 'w \<Rightarrow> (a2a_continuations \<times> 'w) option) \<Rightarrow>
     'w turn_env \<Rightarrow> 'w turn_env" where
  "swap_tools cat ext cutoff env = env\<lparr>tn_catalogs := cat, tn_rt := (tn_rt env)\<lparr>rt_ext := ext, rt_tool_cut := cutoff\<rparr>\<rparr>"

definition agree_on_allowed ::
  "'w tool_catalogs \<Rightarrow> 'w ext_runtime \<Rightarrow> (nat \<Rightarrow> tool_call_record \<Rightarrow> a2a_continuations \<Rightarrow> 'w \<Rightarrow> (a2a_continuations \<times> 'w) option) \<Rightarrow>
     'w turn_env \<Rightarrow> bool" where
  "agree_on_allowed cat ext cutoff env \<longleftrightarrow>
     (let rt = tn_rt env; allowed = ag_tools (tn_config env) in
      (\<forall>call. is_tool_allowed call allowed \<longrightarrow>
         (\<forall>n m w. cutoff n call m w = rt_tool_cut rt n call m w) \<and>
         (\<forall>now m w. dispatch_tool_call_in_conversation (rt_to_text rt) (rt_parse rt) ext cat (tn_current env) now (tn_tenant env) call m w =
            dispatch_tool_call_in_conversation (rt_to_text rt) (rt_parse rt) (rt_ext rt) (tn_catalogs env) (tn_current env) now
              (tn_tenant env) call m w) \<and>
         (\<forall>frame r w. strip_prefix ''flow:'' (tk_extension_id call) = Some r \<longrightarrow>
            dispatch_flow_tool_interactive (rt_to_text rt) (cg_flows cat) (tn_current env) frame r call w =
            dispatch_flow_tool_interactive (rt_to_text rt) (cg_flows (tn_catalogs env)) (tn_current env) frame r call w)) \<and>
      (\<forall>x \<in> set allowed. tool_schema_for (rt_parse rt) ext cat x = tool_schema_for (rt_parse rt) (rt_ext rt) (tn_catalogs env) x))"

lemma swap_tools_fields:
  "tn_tenant (swap_tools cat ext cutoff env) = tn_tenant env" "tn_session_id (swap_tools cat ext cutoff env) = tn_session_id env"
  "tn_agent_id (swap_tools cat ext cutoff env) = tn_agent_id env" "tn_config (swap_tools cat ext cutoff env) = tn_config env"
  "tn_started (swap_tools cat ext cutoff env) = tn_started env" "tn_step_id (swap_tools cat ext cutoff env) = tn_step_id env"
  "tn_current (swap_tools cat ext cutoff env) = tn_current env" "tn_run_trace (swap_tools cat ext cutoff env) = tn_run_trace env"
  "tn_record_to (swap_tools cat ext cutoff env) = tn_record_to env" "tn_chain (swap_tools cat ext cutoff env) = tn_chain env"
  "tn_guardrail_ctx (swap_tools cat ext cutoff env) = tn_guardrail_ctx env"
  "tn_lt_active (swap_tools cat ext cutoff env) = tn_lt_active env" "tn_st_active (swap_tools cat ext cutoff env) = tn_st_active env"
  "tn_conv_active (swap_tools cat ext cutoff env) = tn_conv_active env" "tn_side_pending (swap_tools cat ext cutoff env) = tn_side_pending env"
  "tn_system_prompt (swap_tools cat ext cutoff env) = tn_system_prompt env" "tn_catalogs (swap_tools cat ext cutoff env) = cat"
  "tn_rt (swap_tools cat ext cutoff env) = (tn_rt env)\<lparr>rt_ext := ext, rt_tool_cut := cutoff\<rparr>"
  by (simp_all add: swap_tools_def)

lemma rt_tools_fields:
  "rt_clock (rt\<lparr>rt_ext := ext, rt_tool_cut := cutoff\<rparr>) = rt_clock rt" "rt_now (rt\<lparr>rt_ext := ext, rt_tool_cut := cutoff\<rparr>) = rt_now rt"
  "rt_trace (rt\<lparr>rt_ext := ext, rt_tool_cut := cutoff\<rparr>) = rt_trace rt" "rt_put_trace (rt\<lparr>rt_ext := ext, rt_tool_cut := cutoff\<rparr>) = rt_put_trace rt"
  "rt_to_text (rt\<lparr>rt_ext := ext, rt_tool_cut := cutoff\<rparr>) = rt_to_text rt" "rt_parse (rt\<lparr>rt_ext := ext, rt_tool_cut := cutoff\<rparr>) = rt_parse rt"
  "rt_sha256 (rt\<lparr>rt_ext := ext, rt_tool_cut := cutoff\<rparr>) = rt_sha256 rt" "rt_ledger (rt\<lparr>rt_ext := ext, rt_tool_cut := cutoff\<rparr>) = rt_ledger rt"
  "rt_uuid (rt\<lparr>rt_ext := ext, rt_tool_cut := cutoff\<rparr>) = rt_uuid rt" "rt_llm (rt\<lparr>rt_ext := ext, rt_tool_cut := cutoff\<rparr>) = rt_llm rt"
  "rt_llm_cut (rt\<lparr>rt_ext := ext, rt_tool_cut := cutoff\<rparr>) = rt_llm_cut rt" "rt_save (rt\<lparr>rt_ext := ext, rt_tool_cut := cutoff\<rparr>) = rt_save rt"
  "rt_refresh_lock (rt\<lparr>rt_ext := ext, rt_tool_cut := cutoff\<rparr>) = rt_refresh_lock rt"
  "rt_record_step (rt\<lparr>rt_ext := ext, rt_tool_cut := cutoff\<rparr>) = rt_record_step rt"
  "rt_wants_streaming (rt\<lparr>rt_ext := ext, rt_tool_cut := cutoff\<rparr>) = rt_wants_streaming rt"
  "rt_tokens_add (rt\<lparr>rt_ext := ext, rt_tool_cut := cutoff\<rparr>) = rt_tokens_add rt"
  "rt_billing_emit (rt\<lparr>rt_ext := ext, rt_tool_cut := cutoff\<rparr>) = rt_billing_emit rt"
  "rt_long_term (rt\<lparr>rt_ext := ext, rt_tool_cut := cutoff\<rparr>) = rt_long_term rt"
  "rt_short_term (rt\<lparr>rt_ext := ext, rt_tool_cut := cutoff\<rparr>) = rt_short_term rt"
  "rt_types_tenant (rt\<lparr>rt_ext := ext, rt_tool_cut := cutoff\<rparr>) = rt_types_tenant rt"
  "rt_ext (rt\<lparr>rt_ext := ext, rt_tool_cut := cutoff\<rparr>) = ext" "rt_tool_cut (rt\<lparr>rt_ext := ext, rt_tool_cut := cutoff\<rparr>) = cutoff"
  by simp_all

lemmas swap_tools_simps = swap_tools_fields rt_tools_fields

lemma swap_tools_parts:
  "trace_outcome (swap_tools cat ext cutoff env) = trace_outcome env"
  "failed_call (swap_tools cat ext cutoff env) = failed_call env"
  "completed_call (swap_tools cat ext cutoff env) = completed_call env"
  "park_call (swap_tools cat ext cutoff env) = park_call env"
  "host_call (swap_tools cat ext cutoff env) = host_call env"
  "reused_call (swap_tools cat ext cutoff env) = reused_call env"
  "flow_frame (swap_tools cat ext cutoff env) = flow_frame env"
  "elapsed (swap_tools cat ext cutoff env) = elapsed env"
  "time_left (swap_tools cat ext cutoff env) = time_left env"
  "count_tokens (swap_tools cat ext cutoff env) = count_tokens env"
  "llm_failed (swap_tools cat ext cutoff env) = llm_failed env"
  "record_error_exit (swap_tools cat ext cutoff env) = record_error_exit env"
  by (simp_all only: fun_eq_iff trace_outcome_def failed_call_def completed_call_def park_call_def host_call_def reused_call_def
      flow_frame_def time_left_def elapsed_def count_tokens_def llm_failed_def record_error_exit_def step_telemetry_of_def
      ensure_lock_held_def swap_tools_simps Let_def simp_thms)

lemma swap_tools_dispatch:
  assumes "agree_on_allowed cat ext cutoff env" and "is_tool_allowed call (ag_tools (tn_config env))"
  shows "dispatch_call (swap_tools cat ext cutoff env) call l ts w = dispatch_call env call l ts w"
proof (cases "strip_prefix ''flow:'' (tk_extension_id call)")
  case (Some r)
  with assms have "dispatch_flow_tool_interactive (rt_to_text (tn_rt env)) (cg_flows cat) (tn_current env) frame r call w =
      dispatch_flow_tool_interactive (rt_to_text (tn_rt env)) (cg_flows (tn_catalogs env)) (tn_current env) frame r call w" for frame
    by (simp add: agree_on_allowed_def Let_def)
  with Some show ?thesis unfolding dispatch_call_def Let_def swap_tools_parts swap_tools_simps by simp
next
  case None
  have cut_eq: "cutoff n call m w = rt_tool_cut (tn_rt env) n call m w"
    and eq: "dispatch_tool_call_in_conversation (rt_to_text (tn_rt env)) (rt_parse (tn_rt env)) ext cat (tn_current env) now (tn_tenant env)
        call m' w =
      dispatch_tool_call_in_conversation (rt_to_text (tn_rt env)) (rt_parse (tn_rt env)) (rt_ext (tn_rt env)) (tn_catalogs env)
        (tn_current env) now (tn_tenant env) call m' w" for n m m' now
    using assms by (simp_all add: agree_on_allowed_def Let_def)
  show ?thesis unfolding dispatch_call_def Let_def swap_tools_parts swap_tools_simps None option.case cut_eq eq ..
qed


lemma swap_tools_run_calls:
  assumes "agree_on_allowed cat ext cutoff env"
  shows "run_calls (swap_tools cat ext cutoff env) calls ts w = run_calls env calls ts w"
proof (induction calls arbitrary: ts w)
  case (Cons c calls)
  have led: "ledgered_call (swap_tools cat ext cutoff env) c ts w = ledgered_call env c ts w"
    if "is_tool_allowed c (ag_tools (tn_config env))"
    unfolding ledgered_call_def Let_def swap_tools_dispatch [OF assms that] swap_tools_parts swap_tools_simps ..
  have host: "host_recall_memory (tn_rt (swap_tools cat ext cutoff env)) = host_recall_memory (tn_rt env)"
    "host_remember (tn_rt (swap_tools cat ext cutoff env)) = host_remember (tn_rt env)"
    "host_recall (tn_rt (swap_tools cat ext cutoff env)) = host_recall (tn_rt env)"
    by (simp_all only: fun_eq_iff host_recall_memory_def recall_long_term_def host_remember_def host_recall_def swap_tools_simps simp_thms)
  have "run_call (swap_tools cat ext cutoff env) c ts w = run_call env c ts w"
  proof (cases "is_tool_allowed c (ag_tools (tn_config env))")
    case True
    show ?thesis unfolding run_call_def swap_tools_parts host swap_tools_fields(1-17) led [OF True] ..
  next
    case False
    show ?thesis
      unfolding run_call_def swap_tools_parts host swap_tools_fields(1-17)
      by (simp only: False not_False_eq_True if_True cong: if_cong option.case_cong)
  qed
  with Cons.IH show ?case by simp
qed simp

lemma swap_tools_request:
  assumes "agree_on_allowed cat ext cutoff env"
  shows "build_request (swap_tools cat ext cutoff env) = build_request env"
proof -
  from assms have "list_tools_for_llm (rt_parse (tn_rt env)) ext cat (ag_tools (tn_config env)) =
      list_tools_for_llm (rt_parse (tn_rt env)) (rt_ext (tn_rt env)) (tn_catalogs env) (ag_tools (tn_config env))"
    by (simp add: agree_on_allowed_def Let_def list_tools_for_llm_def List.map_filter_def cong: map_cong filter_cong)
  then show ?thesis unfolding fun_eq_iff build_request_def Let_def swap_tools_simps by simp
qed

lemma swap_iterate_tools:
  assumes "agree_on_allowed cat ext cutoff env"
  shows "iterate n (swap_tools cat ext cutoff env) k ts w = iterate n env k ts w"
proof (induction n arbitrary: k ts w)
  case (Suc n)
  have h: "handle_response (swap_tools cat ext cutoff env) = handle_response env"
    unfolding fun_eq_iff handle_response_def tool_batch_def swap_tools_run_calls [OF assms] swap_tools_simps by simp
  have l: "ensure_lock_held ((tn_rt env)\<lparr>rt_ext := ext, rt_tool_cut := cutoff\<rparr>) = ensure_lock_held (tn_rt env)"
    unfolding fun_eq_iff ensure_lock_held_def swap_tools_simps by simp
  show ?case unfolding iterate.simps h l swap_tools_parts swap_tools_request [OF assms] Suc Let_def swap_tools_simps ..
qed simp

lemma offered_tools:
  assumes "s \<in> set (rq_tools (build_request env st w))"
  shows "sm_extension_id s = HOST_EXTENSION_ID \<or>
    (\<exists>x \<in> set (ag_tools (tn_config env)). sm_extension_id s = tl_extension_id x \<and> sm_tool_name s = tl_tool_name x)"
proof -
  have schema: "\<exists>d q. r = schema_of x d q" if "tool_schema_for p e c x = Some r" for p e c x r
    using that by (cases "ex_list_tools e (tl_extension_id x)")
      (auto simp: tool_schema_for_def catalog_first_def catalog_only_def contract_first_def schema_from_def
        extension_schema_def Let_def split: option.splits)
  have "sm_extension_id r = tl_extension_id x \<and> sm_tool_name r = tl_tool_name x" if "tool_schema_for p e c x = Some r" for p e c x r
    using schema [OF that] by (auto simp: schema_of_def)
  with assms show ?thesis
    by (fastforce simp: build_request_def Let_def list_tools_for_llm_def map_filter_def recall_memory_tool_schema_def
        remember_tool_schema_def recall_tool_schema_def end_conversation_tool_schema_def split: if_splits)
qed

end
