(* ===== verification/Agent_Example.thy ===== *)
theory Agent_Example
  imports Tool_Confine
begin

section \<open>An agent\<close>

text \<open>
  A runtime that runs: a model that looks the weather up and then answers, one mandatory guardrail, and the tool ledger over the in-process
  key-value store. The world is that store, its clock, and a log of what was done outside.
\<close>

type_synonym demo_world = "json mem_state \<times> nat \<times> string list"

definition demo_log :: "string \<Rightarrow> demo_world \<Rightarrow> demo_world" where
  "demo_log line w = (fst w, fst (snd w), snd (snd w) @ [line])"

definition demo_start :: demo_world where
  "demo_start = (mem_kv_new, 0, [])"

definition demo_tool :: tool_ref where
  "demo_tool = \<lparr>tl_extension_id = ''weather'', tl_tool_name = ''today'', tl_description = None, tl_input_schema = None, tl_usage_note = None\<rparr>"

definition demo_call :: tool_call_record where
  "demo_call = \<lparr>tk_call_id = ''c1'', tk_extension_id = ''weather'', tk_tool_name = ''today'', tk_args = JObject []\<rparr>"

definition demo_config :: agent_config where
  "demo_config =
     \<lparr>ag_agent_id = ''guide'', ag_system_prompt = ''Help.'', ag_tools = [demo_tool], ag_guardrails = [],
      ag_llm = \<lparr>lp_provider = ''p'', lp_model = ''m'', lp_credential_ref = None\<rparr>, ag_limits = default_limits, ag_memory = None,
      ag_knowledge = None, ag_conversational = False, ag_on_text_while_parked = SideTurnPolicy, ag_opening_message = None\<rparr>"

text \<open>One model answers at once, the other one looks the weather up first.\<close>

definition demo_answer :: "llm_request \<Rightarrow> demo_world \<Rightarrow> (llm_error, llm_response) result \<times> demo_world" where
  "demo_answer req w =
     (Inr \<lparr>lr_content = Some ''sunny'', lr_tool_calls = [], lr_tokens_in = 2, lr_tokens_out = 1\<rparr>, demo_log ''asked'' w)"

definition demo_ask :: "llm_request \<Rightarrow> demo_world \<Rightarrow> (llm_error, llm_response) result \<times> demo_world" where
  "demo_ask req w =
     (if list_ex is_tool (rq_history req) then demo_answer req w
      else (Inr \<lparr>lr_content = None, lr_tool_calls = [demo_call], lr_tokens_in = 1, lr_tokens_out = 1\<rparr>, demo_log ''asked'' w))"

definition demo_llm :: "(llm_request \<Rightarrow> demo_world \<Rightarrow> (llm_error, llm_response) result \<times> demo_world) \<Rightarrow> demo_world llm_backend" where
  "demo_llm ask = \<lparr>lb_is_retrying = True, lb_complete = ask, lb_streaming = (\<lambda>req w. let (r, w') = ask req w in ((False, r), w')),
     lb_sleep = (\<lambda>d w. w)\<rparr>"

definition demo_ext :: "demo_world ext_runtime" where
  "demo_ext = \<lparr>ex_list_tools = (\<lambda>x. Inr [\<lparr>td_name = ''today'', td_description = ''Weather.'', td_input_schema_json = []\<rparr>]),
     ex_invoke_tool_ctx = (\<lambda>x n args ctx w. (InvokeOk ''sun'', demo_log n w))\<rparr>"

definition demo_catalogs :: "demo_world tool_catalogs" where
  "demo_catalogs = \<lparr>cg_mcp = None, cg_components = None, cg_flows = None, cg_playbooks = None, cg_sorla = None, cg_a2a = None\<rparr>"

definition demo_guard :: guardrail_ref where
  "demo_guard = \<lparr>gf_cap_id = ''polite'', gf_offer_id = None, gf_config = JNull, gf_mode = Enforce\<rparr>"

definition demo_codec :: "json ledger_codec" where
  "demo_codec = \<lparr>lc_to = Some, lc_from = Some\<rparr>"

definition demo_runtime :: "demo_world llm_backend \<Rightarrow> demo_world agent_runtime" where
  "demo_runtime llm =
     \<lparr>rt_agent_config = (\<lambda>t a w. (Inr demo_config, w)), rt_share_modes_for = (\<lambda>a. None),
      rt_tokens_used = (\<lambda>t w. (Inr 0, w)), rt_tokens_add = (\<lambda>t n w. (Inr (), w)), rt_over_budget = (\<lambda>t w. (False, w)),
      rt_billing_emit = (\<lambda>t i out a m w. w), rt_acquire_lock = (\<lambda>t i w. (Inr (), w)), rt_refresh_lock = (\<lambda>t i w. (Inr (), w)),
      rt_release_lock = (\<lambda>t i w. w), rt_load = (\<lambda>t i w. (Inr (conversation_empty 0 t i), w)),
      rt_save = (\<lambda>t i st w. (Inr (), demo_log ''saved'' w)), rt_mandatory_guardrails = (\<lambda>t w. (Inr [demo_guard], w)),
      rt_capability = (\<lambda>w c. Some c), rt_evaluate = (\<lambda>x i w. (Evaluated Accept, w)), rt_ledger_turn = (\<lambda>t a m w. None),
      rt_ledger_view = (\<lambda>h w. (None, w)), rt_ledger_reply = (\<lambda>h r w. w), rt_types_tenant = (\<lambda>t. Inr ()),
      rt_long_term = None, rt_short_term = None, rt_knowledge = None, rt_catalogs = (\<lambda>t ts l w. (demo_catalogs, w)),
      rt_ext = demo_ext, rt_llm = llm, rt_llm_cut = (\<lambda>n req w. None), rt_tool_cut = (\<lambda>n c m w. None),
      rt_ledger = kv_tool_ledger memory_kv demo_codec, rt_trace = (\<lambda>n w. []), rt_put_trace = (\<lambda>n es w. w),
      rt_record_step = (\<lambda>x w. w), rt_clock = (\<lambda>w. 0), rt_now = (\<lambda>w. 0), rt_step_id = (\<lambda>w. (0, w)),
      rt_uuid = (\<lambda>w n. show_nat n), rt_to_text = (\<lambda>v. ''{}''), rt_parse = (\<lambda>s. Inr (JString s)), rt_sha256 = (\<lambda>s. []),
      rt_wants_streaming = False\<rparr>"

definition demo_tenant :: tenant_context where "demo_tenant = tenant_new ''t'' ''prod''"

definition demo_input :: agent_input where
  "demo_input = \<lparr>ai_text = ''weather?'', ai_conversational = False, ai_resume_payload = None, ai_attachments = []\<rparr>"

lemmas demo_defs = demo_log_def demo_start_def demo_tool_def demo_call_def demo_config_def demo_answer_def demo_llm_def demo_ext_def
  demo_catalogs_def demo_guard_def demo_codec_def demo_runtime_def demo_tenant_def demo_input_def

text \<open>The turn, up to the loop.\<close>

definition demo_chain :: "resolved_guardrail list" where
  "demo_chain = [\<lparr>gr_extension_id = ''polite'', gr_cap_id = ''polite'', gr_mandatory = True, gr_mode = Enforce, gr_config = JNull\<rparr>]"

lemma demo_chain: "guardrail_chain (demo_runtime llm) t c w = (Inr (demo_chain @ List.map_filter (\<lambda>r. resolve_one Some r False) (ag_guardrails c)), w)"
  by (simp add: guardrail_chain_def assemble_chain_def resolve_one_def demo_defs demo_chain_def)

lemma demo_passes: "run_chain_blocking (rt_to_text (demo_runtime llm)) (rt_evaluate (demo_runtime llm)) d g demo_chain c w = (PassOutcome c [], w)"
  by (simp add: run_chain_blocking_def run_chain_def demo_chain_def demo_runtime_def)

definition demo_env :: "demo_world llm_backend \<Rightarrow> demo_world turn_env" where
  "demo_env llm =
     \<lparr>tn_rt = demo_runtime llm, tn_tenant = demo_tenant, tn_session_id = ''s'', tn_agent_id = ''guide'', tn_config = demo_config,
      tn_started = 0, tn_step_id = 0, tn_current = None, tn_run_trace = None, tn_record_to = None, tn_chain = demo_chain,
      tn_guardrail_ctx = \<lparr>gx_agent_id = ''guide'', gx_session_id = ''s'', gx_tenant_id = ''t'', gx_env_id = ''prod''\<rparr>,
      tn_ledger_turn = None, tn_user_message = ''weather?'', tn_lt_active = False, tn_st_active = False, tn_conv_active = False,
      tn_side_pending = False, tn_system_prompt = ''Help.'', tn_catalogs = demo_catalogs\<rparr>"

definition demo_state :: turn_state where
  "demo_state = first_turn_state ((conversation_empty 0 demo_tenant ''s'')\<lparr>cs_messages := [UserMsg ''weather?'' []]\<rparr>) [] None"

lemma demo_prepared:
  "locked_step (demo_runtime llm) None demo_tenant ''s'' ''guide'' demo_config 0 0 demo_input w =
    (case iterate 8 (demo_env llm) 0 demo_state w of (Inl e, w') \<Rightarrow> (Inl e, w') | (Inr ts, w') \<Rightarrow> finish_turn (demo_env llm) ts w')"
proof -
  have o: "opening_of demo_config demo_input st = None" for st by (simp add: opening_of_def demo_config_def)
  have p: "prepare_env (demo_runtime llm) None demo_tenant ''s'' ''guide'' demo_config 0 0 demo_chain (tn_guardrail_ctx (demo_env llm)) None demo_input
      Nothing ''weather?'' w = (demo_env llm, [], w)" for w
    by (simp add: prepare_env_def demo_env_def demo_defs long_term_active_def short_term_active_def recall_facts_def retrieve_chunks_def
        knowledge_active_def view_trace_def record_trace_def turn_prompt_def augment_with_facts_def augment_with_chunks_def with_note_if_def
        augment_with_view_def tenant_new_def)
  let ?st = "conversation_empty 0 demo_tenant ''s''"
  have load: "rt_load (demo_runtime llm) demo_tenant ''s'' w = (Inr ?st, w)" by (simp add: demo_runtime_def)
  have tk: "take_pending x y z ?st = (Nothing, ?st)" for x y z by (simp add: take_pending_def conversation_empty_def)
  have rm: "receive_message (demo_runtime llm) g demo_chain False demo_input ?st w =
      (Inr (''weather?'', ?st\<lparr>cs_messages := [UserMsg ''weather?'' []]\<rparr>), w)" for g
    by (simp add: receive_message_def demo_passes) (simp add: demo_input_def conversation_empty_def)
  have gc: "guardrail_chain (demo_runtime llm) demo_tenant demo_config w = (Inr demo_chain, w)"
    by (simp add: demo_chain demo_config_def)
  have l: "rt_ledger_turn (demo_runtime llm) t a m w = None" for t a m by (simp add: demo_runtime_def)
  have g: "\<lparr>gx_agent_id = ''guide'', gx_session_id = ''s'', gx_tenant_id = tc_tenant_id demo_tenant, gx_env_id = tc_env_id demo_tenant\<rparr> =
      tn_guardrail_ctx (demo_env llm)" by (simp add: demo_env_def demo_tenant_def tenant_new_def)
  have n: "iterations_left (ag_limits (tn_config (demo_env llm))) 0 demo_state = 8"
    by (simp add: iterations_left_def demo_env_def demo_config_def default_limits_def demo_state_def first_turn_state_def)
  show ?thesis
    by (simp add: locked_step_def load o tk gc rm l g p drive_turn_def n flip: demo_state_def)
qed


lemma demo_iterate:
  "iterate 8 (demo_env (demo_llm demo_answer)) 0 demo_state w =
    (Inr (demo_state\<lparr>tu_iterations := 1, tu_trail := [LlmCallStep ''sunny'' 2 1], tu_reply := ''sunny'', tu_terminated_by := FinalReply,
       tu_total_tokens := 3, tu_tokens_in := 2, tu_tokens_out := 1\<rparr>), demo_log ''asked'' w)"
proof -
  have e: "iterate 8 env 0 ts w = iterate (Suc 7) env 0 ts w" for env :: "demo_world turn_env" and ts by simp
  have t: "truncate_history 20 (tu_state demo_state) = tu_state demo_state"
    by (simp add: truncate_history_def demo_state_def first_turn_state_def truncate_loop.simps non_system_def)
  show ?thesis
    unfolding e iterate.simps
    by (simp add: Let_def ensure_lock_held_def elapsed_def time_left_def llm_call_def retrying_complete_def count_tokens_def
        handle_response_def push_step_def demo_env_def demo_runtime_def demo_llm_def demo_answer_def demo_config_def default_limits_def t)
      (simp add: demo_state_def first_turn_state_def)
qed

lemma demo_finish:
  assumes "tu_terminated_by ts = FinalReply"
  shows "\<exists>out w'. finish_turn (demo_env llm) ts w = (Inr out, w') \<and> ao_reply out = tu_reply ts"
proof -
  have fields: "tn_rt (demo_env llm) = demo_runtime llm" "tn_chain (demo_env llm) = demo_chain" "tn_side_pending (demo_env llm) = False"
    by (simp_all add: demo_env_def)
  let ?ts = "push_step (ReplyStep (tu_reply ts)) (push_chat (AssistantMsg (tu_reply ts) [])
      (ts\<lparr>tu_state := tu_state ts, tu_terminated_by := tu_terminated_by ts, tu_suspension := tu_suspension ts\<rparr>))"
  have "fst (save_turn (demo_env llm) ?ts w) = Inr ()"
    by (simp add: save_turn_def Let_def ensure_lock_held_def fields demo_runtime_def)
  then obtain w2 where "save_turn (demo_env llm) ?ts w = (Inr (), w2)" by (metis prod.collapse)
  with assms show ?thesis
    by (simp add: finish_turn_def finish_reply_def Let_def fields demo_passes side_finish_def step_output_def del: split_paired_Ex)
qed

lemma demo_reply:
  "\<exists>out w'. run_step (demo_runtime (demo_llm demo_answer)) None demo_tenant ''s'' ''guide'' demo_input demo_start = (Inr out, w') \<and>
    ao_reply out = ''sunny''"
proof -
  let ?rt = "demo_runtime (demo_llm demo_answer)"
  obtain out w' where f: "locked_step ?rt None demo_tenant ''s'' ''guide'' demo_config 0 0 demo_input demo_start = (Inr out, w')"
    "ao_reply out = ''sunny''"
    using demo_finish [of "demo_state\<lparr>tu_iterations := 1, tu_trail := [LlmCallStep ''sunny'' 2 1], tu_reply := ''sunny'',
        tu_terminated_by := FinalReply, tu_total_tokens := 3, tu_tokens_in := 2, tu_tokens_out := 1\<rparr>"
        "demo_llm demo_answer" "demo_log ''asked'' demo_start"]
    unfolding demo_prepared demo_iterate by auto
  have "budget_gate ?rt demo_tenant demo_config w = (Inr (), w)" for w
    by (simp add: budget_gate_def demo_config_def default_limits_def demo_runtime_def)
  moreover have "rt_agent_config ?rt t a w = (Inr demo_config, w)" "rt_step_id ?rt w = (0, w)" "rt_clock ?rt w = 0"
    "rt_acquire_lock ?rt t i w = (Inr (), w)" "rt_release_lock ?rt t i w = w" for t a i w
    by (simp_all add: demo_runtime_def)
  ultimately show ?thesis using f by (simp add: run_step_def run_step_scoped_def step_context_def del: split_paired_Ex)
qed

lemma demo_plain: "plain_call (demo_env llm) demo_call"
  by (simp add: plain_call_def demo_call_def demo_env_def demo_config_def demo_tool_def is_tool_allowed_def)

lemma demo_batch:
  "run_calls (demo_env llm) [demo_call] demo_state demo_start =
    (push_step (call_step demo_call (JString ''sun'') 0)
       (answer_call demo_call (cap_tool_result (\<lambda>v. ''{}'') (JString ''sun'')) (demo_state\<lparr>tu_state := (tu_state demo_state)\<lparr>cs_a2a := []\<rparr>\<rparr>)),
     snd (lg_record (kv_tool_ledger memory_kv demo_codec) demo_tenant ''s'' (call_key (demo_env llm) demo_call) (JString ''sun'')
       (demo_log ''today'' demo_start)))"
proof -
  have g: "lg_get (kv_tool_ledger memory_kv demo_codec) t i c demo_start = (Inr None, demo_start)" for t i c
    by (simp add: kv_tool_ledger_def demo_start_def kv_ledger_get_def memory_kv_def mem_get_def mem_kv_new_def with_map_def sbind_def sret_def
        Let_def)
  have fields: "tn_rt (demo_env llm) = demo_runtime llm" "tn_tenant (demo_env llm) = demo_tenant" "tn_session_id (demo_env llm) = ''s''"
    "tn_record_to (demo_env llm) = None" "tn_catalogs (demo_env llm) = demo_catalogs" "rt_ledger (demo_runtime llm) = kv_tool_ledger memory_kv demo_codec"
    "rt_tool_cut (demo_runtime llm) n c m w = None" "rt_clock (demo_runtime llm) w = 0"
    "rt_ext (demo_runtime llm) = demo_ext" "rt_parse (demo_runtime llm) = (\<lambda>s. Inr (JString s))" "rt_to_text (demo_runtime llm) = (\<lambda>v. ''{}'')"
    for n c m w
    by (simp_all add: demo_env_def demo_runtime_def)
  have x: "strip_prefix ''flow:'' (tk_extension_id demo_call) = None" "strip_prefix ''mcp:'' (tk_extension_id demo_call) = None"
    "strip_prefix ''component:'' (tk_extension_id demo_call) = None" "strip_prefix ''sorla:'' (tk_extension_id demo_call) = None"
    "strip_prefix ''playbook:'' (tk_extension_id demo_call) = None" "strip_prefix ''a2a:'' (tk_extension_id demo_call) = None"
    by (simp_all add: strip_prefix_def starts_with_def demo_call_def)
  have d: "dispatch_tool_call_in_conversation (\<lambda>v. ''{}'') (\<lambda>s. Inr (JString s)) demo_ext cat cur now t demo_call m w =
      (Inr (JString ''sun''), m, demo_log ''today'' w)" for cat cur now t m w
    unfolding dispatch_tool_call_in_conversation_def Let_def x
    by (simp add: dispatch_extension_def demo_ext_def demo_call_def map_err_def)
  have s: "\<not> tu_timed_out demo_state" "tu_suspension demo_state = None" "cs_a2a (tu_state demo_state) = []"
    by (simp_all add: demo_state_def first_turn_state_def conversation_empty_def)
  have "ledgered_call (demo_env llm) demo_call demo_state demo_start =
      dispatch_call (demo_env llm) demo_call (call_key (demo_env llm) demo_call) demo_state demo_start"
    unfolding ledgered_call_def Let_def fields g call_key_def by simp
  also have "\<dots> = completed_call (demo_env llm) demo_call 0 (call_key (demo_env llm) demo_call) (JString ''sun'')
      (demo_state\<lparr>tu_state := (tu_state demo_state)\<lparr>cs_a2a := []\<rparr>\<rparr>) (demo_log ''today'' demo_start)"
    unfolding dispatch_call_def Let_def fields x option.case d s(3) by simp
  finally show ?thesis
    unfolding run_calls.simps plain_run_call [OF demo_plain s(1,2)]
    by (simp add: completed_call_def Let_def fields trace_outcome_def is_error_result_def millis_between_def)
qed


lemma demo_leaves: "leaves_ledger world_clock (kv_recorded live lc) (\<lambda>w. inva (fst w)) (demo_env llm)"
proof -
  have d: "fst (snd (snd (dispatch_tool_call_in_conversation tt p demo_ext demo_catalogs cur now t call m w))) = fst w"
    "fst (snd (snd (snd (dispatch_tool_call_in_conversation tt p demo_ext demo_catalogs cur now t call m w)))) = fst (snd w)"
    for tt p cur now t call m w
    by (auto simp: dispatch_tool_call_in_conversation_def Let_def demo_catalogs_def dispatch_mcp_def dispatch_extension_def demo_ext_def
        demo_log_def split: option.splits)
  have f: "snd (dispatch_flow_tool_interactive tt None cur frame r call w) = w" for tt cur frame r call and w :: demo_world
    by (simp add: dispatch_flow_tool_interactive_def)
  have fields: "tn_rt (demo_env llm) = demo_runtime llm" "tn_catalogs (demo_env llm) = demo_catalogs" "cg_flows demo_catalogs = None"
    "rt_put_trace (demo_runtime llm) n es w = w" "rt_tool_cut (demo_runtime llm) k c m w = None" "rt_ext (demo_runtime llm) = demo_ext"
    for n es w k c m
    by (simp_all add: demo_env_def demo_runtime_def demo_catalogs_def)
  show ?thesis
    by (simp add: leaves_ledger_def Let_def fields f kv_recorded_def fun_eq_iff d)
qed

lemma demo_batch_inv:
  "mem_inv (fst (snd (run_calls (demo_env llm) [demo_call] demo_state demo_start))) \<and>
   world_clock (snd (run_calls (demo_env llm) [demo_call] demo_state demo_start)) = world_clock demo_start"
proof -
  let ?w = "demo_log ''today'' demo_start" and ?k = "call_key (demo_env llm) demo_call"
  have i: "mem_inv (fst ?w)" by (simp add: demo_log_def demo_start_def mem_inv_def mem_kv_new_def)
  obtain q w' where r: "lg_record (kv_tool_ledger memory_kv demo_codec) demo_tenant ''s'' ?k (JString ''sun'') ?w = (q, w')"
    by (metis surj_pair)
  have "codes demo_codec (JString ''sun'')" by (simp add: codes_def demo_codec_def)
  from memory_ledger.record_value [OF i this r] r show ?thesis unfolding demo_batch by (simp add: demo_log_def)
qed

end
