(* ===== verification/Agent_Claims.thy ===== *)
theory Agent_Claims
  imports Agent_Example Attachments
begin

section \<open>Properties of the agent loop\<close>

text \<open>
  C11. Whatever the model, the tools and the flows do, a turn that starts from a state that may be stored asks the model only with
  histories in which every tool call is answered and every result belongs to a call, and stores only states that a
  later turn can take up. So a provider that treats any other history differently, or fails on it, and a store that treats any other state differently,
  make no difference to the turn, whose every outcome, effect and error stays the same.
\<close>

theorem model_sees_settled:
  assumes "\<And>st w w'. rt_load rt t i w = (Inr st, w') \<Longrightarrow> storable st"
    and "\<And>t i st w. storable st \<Longrightarrow> sv t i st w = rt_save rt t i st w"
    and "\<And>n req w. calls_settled (rq_history req) \<Longrightarrow> lc n req w = rt_llm_cut rt n req w"
    and "lb_is_retrying lb = lb_is_retrying (rt_llm rt)" and "lb_sleep lb = lb_sleep (rt_llm rt)"
    and "\<And>req w. calls_settled (rq_history req) \<Longrightarrow>
      lb_complete lb req w = lb_complete (rt_llm rt) req w \<and> lb_streaming lb req w = lb_streaming (rt_llm rt) req w"
  shows "run_step (rt\<lparr>rt_save := sv, rt_llm := lb, rt_llm_cut := lc\<rparr>) current t i a message w = run_step rt current t i a message w"
proof -
  have "agree_on_settled sv lb lc rt" using assms(2-6) by (auto simp: agree_on_settled_def)
  from swap_run_step [OF this assms(1)] show ?thesis by (simp add: swap_rt_def)
qed

definition strict_ask :: "llm_request \<Rightarrow> demo_world \<Rightarrow> (llm_error, llm_response) result \<times> demo_world" where
  "strict_ask req w = (if calls_settled (rq_history req) then demo_ask req w else (Inl (BadRequest ''unanswered call''), w))"

theorem model_sees_settled_witness:
  "run_step ((demo_runtime (demo_llm demo_ask))\<lparr>rt_save := \<lambda>t i st w. (Inr (), demo_log ''saved'' w), rt_llm := demo_llm strict_ask,
       rt_llm_cut := \<lambda>n req w. None\<rparr>) None demo_tenant ''s'' ''guide'' demo_input demo_start =
   run_step (demo_runtime (demo_llm demo_ask)) None demo_tenant ''s'' ''guide'' demo_input demo_start"
proof (rule model_sees_settled)
  fix st w w' assume "rt_load (demo_runtime (demo_llm demo_ask)) demo_tenant ''s'' w = (Inr st, w')"
  then show "storable st" by (auto simp: demo_runtime_def conversation_empty_def storable_def parked_linked_def)
qed (simp_all add: demo_runtime_def demo_llm_def strict_ask_def)

text \<open>
  C12. The text a turn answers with is the greeting of the agent's configuration, is empty, accompanies a tool call that is
  waiting for the user outside a side turn, or has passed the outbound chain of guardrails: that chain holds every guardrail the
  tenant's policy makes mandatory, and it ran to its end in the order of the chain, each guardrail on what the one before it left.
\<close>

theorem reply_guarded:
  assumes "run_step rt current t i a message w = (Inr out, w')"
  shows "(\<exists>config w1 m. rt_agent_config rt t a w = (Inr config, w1) \<and> ag_opening_message config = Some m \<and> out = opening_output (trim_white m)) \<or>
    ao_reply out = [] \<or> ao_terminated_by out = AwaitingToolInput \<and> \<not> ao_side_turn out \<or>
    (\<exists>mandatory chain raw w0 wm w1 w2. rt_mandatory_guardrails rt t w0 = (Inr mandatory, wm) \<and>
       (\<forall>r \<in> set mandatory. \<exists>g \<in> set chain. gr_cap_id g = gf_cap_id r \<and> gr_mandatory g) \<and>
       chain_passes (rt_to_text rt) (rt_evaluate rt) Outbound
         \<lparr>gx_agent_id = a, gx_session_id = i, gx_tenant_id = tc_tenant_id t, gx_env_id = tc_env_id t\<rparr> chain raw w1 (ao_reply out) w2)"
proof -
  from run_step_locked [OF assms] obtain cur config started step_id w1 w2 w3 where c: "rt_agent_config rt t a w = (Inr config, w1)"
    and l: "locked_step rt cur t i a config started step_id message w2 = (Inr out, w3)" by blast
  from locked_passed [OF l] c show ?thesis by (blast dest: assemble_mandatory)
qed

theorem reply_guarded_witness:
  "\<exists>out w'. run_step (demo_runtime (demo_llm demo_answer)) None demo_tenant ''s'' ''guide'' demo_input demo_start = (Inr out, w') \<and>
    ao_reply out = ''sunny'' \<and>
    ((\<exists>config w1 m. rt_agent_config (demo_runtime (demo_llm demo_answer)) demo_tenant ''guide'' demo_start = (Inr config, w1) \<and>
        ag_opening_message config = Some m \<and> out = opening_output (trim_white m)) \<or>
     ao_reply out = [] \<or> ao_terminated_by out = AwaitingToolInput \<and> \<not> ao_side_turn out \<or>
     (\<exists>mandatory chain raw w0 wm w1 w2. rt_mandatory_guardrails (demo_runtime (demo_llm demo_answer)) demo_tenant w0 = (Inr mandatory, wm) \<and>
       (\<forall>r \<in> set mandatory. \<exists>g \<in> set chain. gr_cap_id g = gf_cap_id r \<and> gr_mandatory g) \<and>
       chain_passes (rt_to_text (demo_runtime (demo_llm demo_answer))) (rt_evaluate (demo_runtime (demo_llm demo_answer))) Outbound
         \<lparr>gx_agent_id = ''guide'', gx_session_id = ''s'', gx_tenant_id = tc_tenant_id demo_tenant, gx_env_id = tc_env_id demo_tenant\<rparr>
         chain raw w1 (ao_reply out) w2))"
proof -
  obtain out w' where r: "run_step (demo_runtime (demo_llm demo_answer)) None demo_tenant ''s'' ''guide'' demo_input demo_start = (Inr out, w')"
    "ao_reply out = ''sunny''" using demo_reply by blast
  from reply_guarded [OF r(1)] r show ?thesis by blast
qed

text \<open>
  C15. A batch of tool calls that was carried out is not carried out again. The calls of a response all succeeded, and a later turn of the session, in this process
  or another, is asked for the same calls, while its ledger has every entry that a read found when the batch was done. Then it adds the same results to
  the history, reports every call as reused, and touches nothing outside the ledger. This is about calls that reach the ledger in both turns: of tools both turns allow,
  with arguments that could be parsed, not to a flow in a side turn, and not to the memory tools of the host (remember and recall run again). The tools leave the entries of that ledger
  alone while time passes, no entry expires before the batch is done, and the stored form of a value reads back as the value.
\<close>

theorem calls_made_once:
  fixes env env2 :: "('b mem_state \<times> nat \<times> 'x) turn_env"
  assumes "leaves_ledger world_clock (kv_recorded mem_live lc) (\<lambda>w. mem_inv (fst w)) env" and "rt_ledger (tn_rt env) = kv_tool_ledger memory_kv lc"
    and "\<And>v. codes lc v" and "mem_inv (fst w)" and "\<not> tu_timed_out ts" and "tu_suspension ts = None"
    and "list_all (plain_call env) calls" and "run_calls env calls ts w = (ts1, w1)" and "tu_suspension ts1 = None"
    and "tu_trail ts1 = tu_trail ts @ steps" and "list_all succeeded steps"
    and "unexpired world_clock (kv_recorded mem_live lc) KV_LEDGER_TTL env (world_clock w1) w"
    and "rt_ledger (tn_rt env2) = kv_tool_ledger memory_kv lc" and "rt_sha256 (tn_rt env2) = rt_sha256 (tn_rt env)"
    and "rt_to_text (tn_rt env2) = rt_to_text (tn_rt env)" and "tn_tenant env2 = tn_tenant env" and "tn_session_id env2 = tn_session_id env"
    and "mem_inv (fst w2)"
    and "kv_recorded mem_live lc w1 (world_clock w1) (tn_tenant env) (tn_session_id env) \<subseteq>\<^sub>m
      kv_recorded mem_live lc w2 (world_clock w2) (tn_tenant env) (tn_session_id env)"
    and "\<not> tu_timed_out ts2" and "tu_suspension ts2 = None" and "list_all (plain_call env2) calls"
    and "run_calls env2 calls ts2 w2 = (ts3, w3)"
  shows "\<exists>results. cs_messages (tu_state ts1) = cs_messages (tu_state ts) @ results \<and>
    cs_messages (tu_state ts3) = cs_messages (tu_state ts2) @ results \<and>
    tu_trail ts3 = tu_trail ts2 @ map (\<lambda>c. ToolCallReusedStep (tk_tool_name c) (tk_call_id c)) calls \<and> snd (snd w3) = snd (snd w2)"
  by (rule memory_ledger.batch_replayed [OF assms])

theorem calls_made_once_witness:
  "\<exists>ts1 w1 ts3 w3. run_calls (demo_env (demo_llm demo_ask)) [demo_call] demo_state demo_start = (ts1, w1) \<and>
    run_calls (demo_env (demo_llm demo_answer)) [demo_call] demo_state w1 = (ts3, w3) \<and> snd (snd w3) = snd (snd w1) \<and>
    cs_messages (tu_state ts3) = cs_messages (tu_state ts1)"
proof -
  let ?env = "demo_env (demo_llm demo_ask)" and ?env2 = "demo_env (demo_llm demo_answer)"
  have rts: "tn_rt (demo_env llm) = demo_runtime llm" for llm by (simp add: demo_env_def)
  have codec: "codes demo_codec v" for v by (simp add: codes_def demo_codec_def)
  have ledger: "rt_ledger (tn_rt (demo_env llm)) = kv_tool_ledger memory_kv demo_codec" for llm by (simp add: rts demo_runtime_def)
  obtain ts1 w1 where 1: "run_calls ?env [demo_call] demo_state demo_start = (ts1, w1)" by (metis surj_pair)
  obtain ts3 w3 where 3: "run_calls ?env2 [demo_call] demo_state w1 = (ts3, w3)" by (metis surj_pair)
  have ts1: "tu_suspension ts1 = None" "tu_trail ts1 = tu_trail demo_state @ [call_step demo_call (JString ''sun'') 0]"
    using 1 unfolding demo_batch by (auto simp: push_step_def answer_call_def push_chat_def demo_state_def first_turn_state_def)
  have inv0: "mem_inv (fst demo_start)" by (simp add: demo_start_def mem_inv_def mem_kv_new_def)
  from demo_batch_inv [of "demo_llm demo_ask"] 1 have inv1: "mem_inv (fst w1)" "world_clock w1 = world_clock demo_start" by simp_all
  have fresh: "unexpired world_clock (kv_recorded mem_live demo_codec) KV_LEDGER_TTL ?env (world_clock w1) demo_start"
    unfolding inv1(2) by (rule unexpiredI) (simp_all add: KV_LEDGER_TTL_def)
  have s: "\<not> tu_timed_out demo_state" "tu_suspension demo_state = None" by (simp_all add: demo_state_def first_turn_state_def)
  have ok: "list_all succeeded [call_step demo_call (JString ''sun'') 0]"
    by (simp add: succeeded_def call_step_def is_error_result_def)
  have plain: "list_all (plain_call (demo_env llm)) [demo_call]" for llm by (simp add: demo_plain)
  from calls_made_once [OF demo_leaves ledger codec inv0 s plain 1 ts1 ok fresh ledger _ _ _ _ inv1(1) map_le_refl s plain 3]
  obtain results where "cs_messages (tu_state ts1) = cs_messages (tu_state demo_state) @ results"
    "cs_messages (tu_state ts3) = cs_messages (tu_state demo_state) @ results" "snd (snd w3) = snd (snd w1)"
    by (auto simp: rts demo_runtime_def demo_env_def)
  with 1 3 show ?thesis by (metis (no_types))
qed


text \<open>
  C20. The model is offered the tools of the agent's configuration and tools of the host, and nothing else reaches a tool: whatever the
  model answers, however often, the loop of a turn runs alike over any tool catalogs, extensions and time limits that agree on the configured tools,
  in what they are described as and in what calling them does. A call the model makes up does nothing.
\<close>

theorem tools_confined:
  assumes "agree_on_allowed cat ext cutoff env"
  shows "iterate n (env\<lparr>tn_catalogs := cat, tn_rt := (tn_rt env)\<lparr>rt_ext := ext, rt_tool_cut := cutoff\<rparr>\<rparr>) k ts w = iterate n env k ts w \<and>
    (\<forall>s \<in> set (rq_tools (build_request env st w)). sm_extension_id s = HOST_EXTENSION_ID \<or>
       (\<exists>x \<in> set (ag_tools (tn_config env)). sm_extension_id s = tl_extension_id x \<and> sm_tool_name s = tl_tool_name x))"
  by (intro conjI ballI) (rule swap_iterate_tools [OF assms, unfolded swap_tools_def], erule offered_tools)

text \<open>The extensions of the example, with every other tool broken.\<close>

definition broken_ext :: "demo_world ext_runtime" where
  "broken_ext = demo_ext\<lparr>ex_invoke_tool_ctx := (\<lambda>x n args ctx w.
     if x = ''weather'' \<and> n = ''today'' then ex_invoke_tool_ctx demo_ext x n args ctx w else (InvokePanicked ''broken'', demo_log ''broken'' w))\<rparr>"

lemma broken_agrees: "agree_on_allowed demo_catalogs broken_ext (\<lambda>n c m w. None) (demo_env llm)"
proof -
  have x: "strip_prefix ''flow:'' ''weather'' = None" "strip_prefix ''mcp:'' ''weather'' = None"
    "strip_prefix ''component:'' ''weather'' = None" "strip_prefix ''sorla:'' ''weather'' = None"
    "strip_prefix ''playbook:'' ''weather'' = None" "strip_prefix ''a2a:'' ''weather'' = None"
    by (simp_all add: strip_prefix_def starts_with_def)
  have e: "ex_invoke_tool_ctx broken_ext ''weather'' ''today'' = ex_invoke_tool_ctx demo_ext ''weather'' ''today''"
    "ex_list_tools broken_ext = ex_list_tools demo_ext" by (simp_all add: broken_ext_def fun_eq_iff)
  have d: "dispatch_tool_call_in_conversation tt p broken_ext cat cur now t call m w =
      dispatch_tool_call_in_conversation tt p demo_ext cat cur now t call m w"
    if "tk_extension_id call = ''weather''" "tk_tool_name call = ''today''" for tt p cat cur now t call m w
    unfolding dispatch_tool_call_in_conversation_def Let_def that x dispatch_extension_def e ..
  have fields: "tn_rt (demo_env llm) = demo_runtime llm" "ag_tools (tn_config (demo_env llm)) = [demo_tool]" "rt_ext (demo_runtime llm) = demo_ext"
    "rt_tool_cut (demo_runtime llm) = (\<lambda>n c m w. None)" "tn_catalogs (demo_env llm) = demo_catalogs"
    by (simp_all add: demo_env_def demo_runtime_def demo_config_def)
  have allowed: "is_tool_allowed call [demo_tool] \<longleftrightarrow> tk_extension_id call = ''weather'' \<and> tk_tool_name call = ''today''" for call
    by (auto simp: is_tool_allowed_def demo_tool_def)
  have schema: "tool_schema_for p broken_ext c demo_tool = tool_schema_for p demo_ext c demo_tool" for p c
    unfolding tool_schema_for_def extension_schema_def Let_def e ..
  show ?thesis unfolding agree_on_allowed_def Let_def fields allowed by (simp add: d schema)
qed

theorem tools_confined_witness:
  "iterate 8 ((demo_env (demo_llm demo_ask))\<lparr>tn_catalogs := demo_catalogs, tn_rt := (tn_rt (demo_env (demo_llm demo_ask)))\<lparr>rt_ext := broken_ext,
       rt_tool_cut := \<lambda>n c m w. None\<rparr>\<rparr>) 0 demo_state demo_start = iterate 8 (demo_env (demo_llm demo_ask)) 0 demo_state demo_start"
  using tools_confined [OF broken_agrees] by blast

text \<open>
  C32. What a step of a run is shown of the others is confined, whatever was recorded: the trace keeps at most 64 events, and the view shows at most
  2000 characters of them, as lines with a newline between them. Each line stands for one event of the trace, and no character of it is an angle bracket or a control
  character, U+0080 to U+009F included (so that a recorded text can neither close the block it stands in nor start a line of its own). Of a tool call the view says
  whether it was ok or failed, and it is otherwise the same whatever the detail of the results was, for every viewer, the owner of the call included.
\<close>

datatype trace_op = Said string string string | Called nat string string tool_outcome string

fun apply_op :: "trace_op \<Rightarrow> trace_event list \<Rightarrow> trace_event list" where
  "apply_op (Said actor kind summary) es = trace_append actor kind summary es"
| "apply_op (Called owner actor tool outcome detail) es = append_tool_outcome owner actor tool outcome detail es"

fun with_detail :: "(string \<Rightarrow> string) \<Rightarrow> trace_op \<Rightarrow> trace_op" where
  "with_detail f (Called owner actor tool outcome detail) = Called owner actor tool outcome (f detail)"
| "with_detail f x = x"

lemma apply_op_ok: "trace_ok es \<Longrightarrow> trace_ok (apply_op x es)"
  by (cases x) (simp_all add: trace_append_ok append_tool_outcome_ok)

lemma fold_ops_ok: "trace_ok es \<Longrightarrow> trace_ok (fold apply_op ops es)"
  by (induction ops arbitrary: es) (simp_all add: apply_op_ok)

lemma apply_op_lines:
  assumes "map event_line es = map event_line es'"
  shows "map event_line (apply_op (with_detail f x) es) = map event_line (apply_op x es')"
proof -
  from assms have l: "length es = length es'" by (metis length_map)
  have p: "map event_line (trace_push a es) = map event_line (trace_push b es')" if "event_line a = event_line b" for a b
    using that assms l by (simp add: trace_push_def Let_def flip: drop_map)
  show ?thesis by (cases x) (auto simp: trace_append_def append_tool_outcome_def event_line_def intro!: p)
qed

lemma fold_ops_lines: "map event_line es = map event_line es' \<Longrightarrow>
    map event_line (fold apply_op (map (with_detail f) ops) es) = map event_line (fold apply_op ops es')"
  by (induction ops arbitrary: es es') (simp_all add: apply_op_lines)

theorem run_view_confined:
  "length (fold apply_op ops []) \<le> MAX_EVENTS \<and> char_count (view_body (fold apply_op ops [])) \<le> MAX_VIEW_CHARS \<and>
   (\<exists>ls. view_body (fold apply_op ops []) = join_with [CHR 0x0A] ls \<and> set ls \<subseteq> event_line ` set (fold apply_op ops []) \<and>
      list_all (\<lambda>l. list_all inert (chars_of l)) ls) \<and>
   render_view_for viewer (fold apply_op ops []) = render_view_for viewer' (fold apply_op (map (with_detail f) ops) [])"
proof -
  let ?es = "fold apply_op ops []"
  have ok: "trace_ok ?es" by (rule fold_ops_ok) (simp add: trace_ok_def)
  then have "length ?es \<le> MAX_EVENTS" by (simp add: trace_ok_def)
  moreover have "render_view_for viewer ?es = render_view_for viewer' (fold apply_op (map (with_detail f) ops) [])"
    by (rule render_view_cong) (simp add: fold_ops_lines)
  ultimately show ?thesis using view_body_facts [OF ok] by blast
qed

text \<open>
  A call nested in another shares no more than every level above it allows: below the bindings of a path the mode is at most the mode at its start and
  at most what each caller's policy gives the binding, the tenant stays, and the trace is the one of the start or none.
\<close>

fun nested_context :: "(string \<times> binding_modes option) list \<Rightarrow> run_context \<Rightarrow> run_context" where
  "nested_context [] ctx = ctx"
| "nested_context ((binding, policy) # path) ctx = nested_context path (for_nested_binding binding (with_caller_policy policy ctx))"

definition binding_mode :: "string \<times> binding_modes option \<Rightarrow> share_mode" where
  "binding_mode bp = share_for_binding (fst bp) (case Option.bind (snd bp) (\<lambda>p. p (fst bp)) of Some m \<Rightarrow> m | None \<Rightarrow> ShareNone)"

theorem nested_context_confined:
  "rc_mode (nested_context path ctx) = fold (\<lambda>bp m. min (binding_mode bp) m) path (rc_mode ctx) \<and>
   rc_tenant_id (nested_context path ctx) = rc_tenant_id ctx \<and> rc_trace (nested_context path ctx) \<in> {None, rc_trace ctx}"
proof (induction path ctx rule: nested_context.induct)
  case (2 binding policy path ctx)
  have "rc_mode (for_nested_binding binding (with_caller_policy policy ctx)) = min (binding_mode (binding, policy)) (rc_mode ctx)"
    by (simp add: nested_mode binding_mode_def with_caller_policy_def)
  moreover have "rc_tenant_id (with_caller_policy policy ctx) = rc_tenant_id ctx" "rc_trace (with_caller_policy policy ctx) = rc_trace ctx"
    by (simp_all add: with_caller_policy_def)
  ultimately show ?case using 2 nested_trace [of binding "with_caller_policy policy ctx"] by (auto split: if_splits)
qed simp

text \<open>
  C37. The text of an attached document reaches the model only through the inbound guardrails of the turn. What would be shown of it is sanitised and cut to the
  limits first, and that text is checked with every guardrail mandatory: a guardrail that only fails to answer lets a message of the user through when the
  tenant's policy does not require it, but never a document. The document is shown exactly when the chain passes it and something is left of it; what is shown is the text the
  chain left, sanitised and cut again when the chain changed it, within 15000 characters, the characters left for the message and the bytes left for it, without the characters the markers are
  made of and without the stripped ones. Otherwise one of four fixed sentences stands for the document, and nothing of its text. (When the guard panics, nothing is appended.)
\<close>

theorem attachment_guarded:
  assumes "inbound_guard_for_turn chain ctx = Some guard" and "at_kind r = DocumentAttachment"
    and "push_document cat nonce (Some (attachment_check to_text evaluate guard)) n r got chars_left bytes_left out w =
      (Some (added, chars_left', out'), w')"
  shows "added = 0 \<and> chars_left' = chars_left \<and>
      (\<nexists>shown. document_kept cat (\<lambda>b t. chain_passes to_text evaluate Inbound ctx (map (\<lambda>g. g\<lparr>gr_mandatory := True\<rparr>) chain) b w t w')
         got chars_left bytes_left shown) \<and>
      (\<exists>reason \<in> set DOCUMENT_REASONS. out' = push_text (file_note n DocumentAttachment reason) out) \<or>
    (\<exists>body taken cut_off.
      document_kept cat (\<lambda>b t. chain_passes to_text evaluate Inbound ctx (map (\<lambda>g. g\<lparr>gr_mandatory := True\<rparr>) chain) b w t w')
        got chars_left bytes_left (body, taken, cut_off) \<and>
      0 < taken \<and> taken \<le> DOC_CHAR_CAP \<and> length body \<le> bytes_left \<and> added = length body \<and> chars_left' + taken = chars_left \<and>
      (\<exists>cs. body = concat cs \<and> taken = length cs \<and> list_all (shown_char cat) cs) \<and>
      out' = push_text (document_block cat nonce n r body taken cut_off) out)"
proof -
  let ?lets = "\<lambda>b t. chain_passes to_text evaluate Inbound ctx (map (\<lambda>g. g\<lparr>gr_mandatory := True\<rparr>) chain) b w t w'"
  from assms(1) have guard: "guard = (chain, ctx)" by (auto simp: inbound_guard_for_turn_def split: if_splits)
  have "(\<lambda>b t. attachment_check to_text evaluate guard b w = (Some (AllowText t), w')) = ?lets"
    unfolding guard attachment_shown_iff all_mandatory_def by (rule refl)
  from push_document_cases [OF assms(2,3), unfolded this] show ?thesis
  proof (elim disjE exE conjE)
    fix body taken cut_off
    assume kept: "document_kept cat ?lets got chars_left bytes_left (body, taken, cut_off)"
      and rest: "added = length body" "chars_left' = chars_left - taken" "out' = push_text (document_block cat nonce n r body taken cut_off) out"
    from document_kept_spec [OF kept] rest(2) have "0 < taken \<and> taken \<le> DOC_CHAR_CAP \<and> length body \<le> bytes_left \<and> chars_left' + taken = chars_left \<and>
      (\<exists>cs. body = concat cs \<and> taken = length cs \<and> list_all (shown_char cat) cs)" by simp
    with kept rest show ?thesis by blast
  qed blast
qed

theorem attachment_guarded_witness:
  "\<exists>out' reason. push_document (\<lambda>c. OtherCategory) ''n0''
       (Some (attachment_check (\<lambda>v. []) (\<lambda>x i w. (EvalFailed ''timeout'', w)) (demo_chain, tn_guardrail_ctx (demo_env (demo_llm demo_ask)))))
       1 \<lparr>at_id = ''artifact://0'', at_mime_type = ''text/plain'', at_name = None, at_size_bytes = None, at_kind = DocumentAttachment, at_text_ref = None\<rparr>
       \<lparr>ab_mime_type = ''text/plain'', ab_name = None, ab_bytes = ''hi''\<rparr> 5 100 \<lparr>mz_images = [], mz_text = []\<rparr> () = (Some (0, 5, out'), ()) \<and>
     mz_text out' = file_note 1 DocumentAttachment reason \<and> reason \<in> set DOCUMENT_REASONS"
proof -
  let ?guard = "(demo_chain, tn_guardrail_ctx (demo_env (demo_llm demo_ask)))"
  let ?evaluate = "\<lambda>x i (w :: unit). (EvalFailed ''timeout'', w)"
  let ?r = "\<lparr>at_id = ''artifact://0'', at_mime_type = ''text/plain'', at_name = None, at_size_bytes = None, at_kind = DocumentAttachment, at_text_ref = None\<rparr>"
  let ?got = "\<lparr>ab_mime_type = ''text/plain'', ab_name = None, ab_bytes = ''hi''\<rparr>"
  let ?run = "push_document (\<lambda>c. OtherCategory) ''n0'' (Some (attachment_check (\<lambda>v. []) ?evaluate ?guard)) 1 ?r ?got 5 100 \<lparr>mz_images = [], mz_text = []\<rparr> ()"
  have "attachment_check (\<lambda>v. []) ?evaluate ?guard b () = (Some WithholdText, ())" for b
    by (simp add: attachment_check_def run_chain_def demo_chain_def error_tracking_def)
  then have "fst ?run \<noteq> None"
    by (auto simp: push_document_def guard_text_def Let_def split: prod.splits guarded_text.splits if_splits)
  then obtain added left' out' where run: "?run = (Some (added, left', out'), ())" by (cases "fst ?run") (auto simp: prod_eq_iff)
  have no: "\<not> chain_passes (\<lambda>v. []) ?evaluate Inbound (snd ?guard) (map (\<lambda>g. g\<lparr>gr_mandatory := True\<rparr>) demo_chain) b () t ()" for b t
    by (auto simp: demo_chain_def elim: chain_passes_ConsE)
  from attachment_guarded [OF _ _ run, of demo_chain "snd ?guard"] no
  have "added = 0 \<and> left' = 5 \<and> (\<exists>reason \<in> set DOCUMENT_REASONS. out' = push_text (file_note 1 DocumentAttachment reason) \<lparr>mz_images = [], mz_text = []\<rparr>)"
    by (auto simp: inbound_guard_for_turn_def demo_chain_def document_kept_def Let_def)
  with run show ?thesis by (auto simp: push_text_def)
qed

end
