(* ===== verification/Ingress.thy ===== *)
theory Ingress
  imports Engine_Dispatch Flow_Host
begin

section \<open>Ingress envelopes\<close>

text \<open>
  \<open>IngressEnvelope\<close> of \<open>crates/greentic-runner-host/src/engine/runtime.rs\<close>: an inbound message with the session it
  addresses, its canonical form, its tenant context and its JSON form. The ids of \<open>greentic_types\<close>, which check the
  text they are built from, its \<open>ReplyScope\<close> (\<open>scope_hash\<close> and serde form) and SHA-256 are the record
  \<open>types_lib\<close>.
\<close>

text \<open>\<open>greentic_types::ReplyScope\<close> with all its fields.\<close>

record wait_scope = reply_scope +
  rs_correlation :: "string option"

record types_lib =
  ty_env_id :: "string \<Rightarrow> (string, string) result"
  ty_tenant_id :: "string \<Rightarrow> (string, string) result"
  ty_user_id :: "string \<Rightarrow> (string, string) result"
  ty_flow_id :: "string \<Rightarrow> (string, string) result"
  ty_pack_id :: "string \<Rightarrow> (string, string) result"
  ty_scope_hash :: "wait_scope \<Rightarrow> string"
  ty_scope_json :: "wait_scope \<Rightarrow> json"
  ty_scope_of_json :: "json \<Rightarrow> (string, wait_scope) result"
  ty_sha256 :: "string \<Rightarrow> string"

text \<open>The tenant context with what a session store is told.\<close>

record store_ctx = tenant_ctx +
  tc_flow :: "string option"
  tc_provider :: "string option"
  tc_session :: "string option"
  tc_user :: "string option"
  tc_endpoint :: "string option"

record ingress_envelope =
  ie_tenant :: string
  ie_env :: "string option"
  ie_pack_id :: "string option"
  ie_flow_id :: string
  ie_flow_type :: "string option"
  ie_action :: "string option"
  ie_session_hint :: "string option"
  ie_provider :: "string option"
  ie_endpoint_id :: "string option"
  ie_channel :: "string option"
  ie_conversation :: "string option"
  ie_user :: "string option"
  ie_entry_node :: "string option"
  ie_activity_id :: "string option"
  ie_timestamp :: "string option"
  ie_payload :: json
  ie_metadata :: "json option"
  ie_reply_scope :: "wait_scope option"

subsection \<open>The canonical form\<close>

definition endpoint_id_is_valid :: "string \<Rightarrow> bool" where
  "endpoint_id_is_valid raw \<longleftrightarrow> raw \<noteq> [] \<and> length raw \<le> 128 \<and> list_all plain_char raw"

definition envelope_hint :: "ingress_envelope \<Rightarrow> string" where
  "envelope_hint e =
     canonical_session_hint (ie_tenant e) (ie_provider e) (ie_channel e) (ie_conversation e) (ie_user e)"

definition plain_scope :: "string \<Rightarrow> wait_scope" where
  "plain_scope conversation =
     \<lparr>rs_conversation = conversation, rs_thread = None, rs_reply_to = None, rs_correlation = None\<rparr>"

definition canonicalize :: "ingress_envelope \<Rightarrow> ingress_envelope" where
  "canonicalize e =
     (let e = e\<lparr>ie_provider := or_else (ie_provider e) (Some ''provider'')\<rparr>;
          e = e\<lparr>ie_channel := or_else (ie_channel e) (Some (ie_flow_id e))\<rparr>;
          e = e\<lparr>ie_conversation := or_else (ie_conversation e) (ie_channel e)\<rparr>;
          e = e\<lparr>ie_user := or_else (ie_user e) (or_else (ie_session_hint e) (or_else (ie_activity_id e) (Some ''user'')))\<rparr>;
          e = e\<lparr>ie_endpoint_id :=
                 (case ie_endpoint_id e of Some i \<Rightarrow> if endpoint_id_is_valid i then Some i else None | None \<Rightarrow> None)\<rparr>;
          base = unwrap_or (envelope_hint e) (ie_session_hint e);
          e = e\<lparr>ie_session_hint := Some (namespaced_hint (ie_endpoint_id e) base)\<rparr>
      in e\<lparr>ie_reply_scope := or_else (ie_reply_scope e) (map_option plain_scope (ie_conversation e))\<rparr>)"

lemma or_else_Some: "or_else a (Some b) = Some (unwrap_or b a)"
  by (cases a) (simp_all add: unwrap_or_def)

lemma canonical_fields:
  shows "ie_tenant (canonicalize e) = ie_tenant e" "ie_env (canonicalize e) = ie_env e"
    "ie_pack_id (canonicalize e) = ie_pack_id e" "ie_flow_id (canonicalize e) = ie_flow_id e"
    "ie_entry_node (canonicalize e) = ie_entry_node e" "ie_payload (canonicalize e) = ie_payload e"
    "ie_action (canonicalize e) = ie_action e"
  by (simp_all add: canonicalize_def Let_def)

text \<open>In an envelope in canonical form the fields that have a default are set, and the hint has its prefix.\<close>

definition is_canonical :: "ingress_envelope \<Rightarrow> bool" where
  "is_canonical e \<longleftrightarrow> ie_provider e \<noteq> None \<and> ie_channel e \<noteq> None \<and> ie_conversation e \<noteq> None \<and> ie_user e \<noteq> None \<and>
     (\<forall>i. ie_endpoint_id e = Some i \<longrightarrow> endpoint_id_is_valid i) \<and>
     (\<exists>h. ie_session_hint e = Some (namespaced_hint (ie_endpoint_id e) h)) \<and> ie_reply_scope e \<noteq> None"

lemma namespaced_idem: "namespaced_hint ep (namespaced_hint ep h) = namespaced_hint ep h"
  by (cases ep) (auto simp: namespaced_hint_def Let_def starts_with_def)

lemma is_canonical: "is_canonical (canonicalize e)"
  unfolding is_canonical_def canonicalize_def Let_def by (auto simp: or_else_Some split: option.splits)

lemma canonical_id: "is_canonical e \<Longrightarrow> canonicalize e = e"
  by (cases e) (auto simp: is_canonical_def canonicalize_def Let_def namespaced_idem unwrap_or_def split: option.splits)

lemma canonicalize_idem [simp]: "canonicalize (canonicalize e) = canonicalize e"
  by (rule canonical_id) (rule is_canonical)

lemma canonicalE:
  assumes "is_canonical e"
  obtains h sc where "ie_session_hint e = Some h" "ie_reply_scope e = Some sc"
  using assms unfolding is_canonical_def by blast

text \<open>The hints of two endpoints differ, whatever hints their messages carry.\<close>

lemma valid_endpoint_colon_free: "endpoint_id_is_valid i \<Longrightarrow> colon_free i"
  by (auto simp: endpoint_id_is_valid_def list_all_iff plain_char_simps)

lemma namespaced_prefix: "\<exists>t. namespaced_hint (Some i) h = ''ep='' @ i @ ''::'' @ t"
  by (auto simp: namespaced_hint_def Let_def starts_with_iff)

lemma endpoint_hints_differ:
  assumes "is_canonical e" "is_canonical f" "ie_endpoint_id e = Some i" "ie_endpoint_id f = Some j" "i \<noteq> j"
  shows "ie_session_hint e \<noteq> ie_session_hint f"
proof
  assume "ie_session_hint e = ie_session_hint f"
  then obtain s t where "i @ ''::'' @ s = j @ ''::'' @ t"
    using assms namespaced_prefix unfolding is_canonical_def by (metis append_same_eq option.sel same_append_eq)
  moreover have "colon_free i" "colon_free j"
    using assms valid_endpoint_colon_free unfolding is_canonical_def by blast+
  ultimately have "Some (i, s) = Some (j, t)" by (metis split_colons_append)
  with assms(5) show False by simp
qed

subsection \<open>The tenant context\<close>

definition DEFAULT_ENV :: string where "DEFAULT_ENV = ''local''"

definition envelope_ctx :: "types_lib \<Rightarrow> ingress_envelope \<Rightarrow> (runner_error, store_ctx) result" where
  "envelope_ctx ty e =
     (let env_raw = unwrap_or DEFAULT_ENV (ie_env e) in
      rbind (map_err (\<lambda>m. SessionErr (''invalid env id `'' @ env_raw @ ''`: '' @ m)) (ty_env_id ty env_raw)) (\<lambda>env.
      rbind (map_err (\<lambda>m. SessionErr (''invalid tenant id `'' @ ie_tenant e @ ''`: '' @ m)) (ty_tenant_id ty (ie_tenant e))) (\<lambda>tenant.
      Inr \<lparr>tx_env = env, tx_tenant = tenant, tx_trace_id = None, tc_flow = Some (ie_flow_id e), tc_provider = ie_provider e,
           tc_session = ie_session_hint e, tc_user = None, tc_endpoint = ie_endpoint_id e\<rparr>)))"

subsection \<open>The JSON form\<close>

text \<open>The fields that are there, in the order of the struct, and the object serde makes of them.\<close>

definition present :: "('k \<times> 'v option) list \<Rightarrow> ('k \<times> 'v) list" where
  "present fs = concat (map (\<lambda>(k, v). case v of None \<Rightarrow> [] | Some x \<Rightarrow> [(k, x)]) fs)"

definition envelope_fields :: "types_lib \<Rightarrow> ingress_envelope \<Rightarrow> (string \<times> json option) list" where
  "envelope_fields ty e =
     [(''tenant'', Some (JString (ie_tenant e))), (''env'', map_option JString (ie_env e)),
      (''pack_id'', map_option JString (ie_pack_id e)), (''flow_id'', Some (JString (ie_flow_id e))),
      (''flow_type'', map_option JString (ie_flow_type e)), (''action'', map_option JString (ie_action e)),
      (''session_hint'', map_option JString (ie_session_hint e)), (''provider'', map_option JString (ie_provider e)),
      (''messaging_endpoint_id'', map_option JString (ie_endpoint_id e)), (''channel'', map_option JString (ie_channel e)),
      (''conversation'', map_option JString (ie_conversation e)), (''user'', map_option JString (ie_user e)),
      (''entry_node'', map_option JString (ie_entry_node e)), (''activity_id'', map_option JString (ie_activity_id e)),
      (''timestamp'', map_option JString (ie_timestamp e)), (''payload'', Some (ie_payload e)),
      (''metadata'', ie_metadata e), (''reply_scope'', map_option (ty_scope_json ty) (ie_reply_scope e))]"

definition envelope_json :: "types_lib \<Rightarrow> ingress_envelope \<Rightarrow> json" where
  "envelope_json ty e = json_obj (present (envelope_fields ty e))"

text \<open>Reading it back: a missing or null optional field is none, any other JSON in its place is an error.\<close>

definition envelope_names :: "string list" where
  "envelope_names =
     [''tenant'', ''env'', ''pack_id'', ''flow_id'', ''flow_type'', ''action'', ''session_hint'', ''provider'',
      ''messaging_endpoint_id'', ''channel'', ''conversation'', ''user'', ''entry_node'', ''activity_id'', ''timestamp'',
      ''payload'', ''metadata'', ''reply_scope'']"

fun required_string :: "json option \<Rightarrow> (string, string) result" where
  "required_string (Some (JString s)) = Inr s"
| "required_string _ = Inl []"

fun optional_string :: "json option \<Rightarrow> (string, string option) result" where
  "optional_string None = Inr None"
| "optional_string (Some JNull) = Inr None"
| "optional_string (Some (JString s)) = Inr (Some s)"
| "optional_string _ = Inl []"

fun optional_value :: "json option \<Rightarrow> json option" where
  "optional_value (Some JNull) = None"
| "optional_value v = v"

definition optional_scope :: "types_lib \<Rightarrow> json option \<Rightarrow> (string, wait_scope option) result" where
  "optional_scope ty v = (case optional_value v of None \<Rightarrow> Inr None | Some x \<Rightarrow> map_sum id Some (ty_scope_of_json ty x))"

definition envelope_of_json :: "types_lib \<Rightarrow> json \<Rightarrow> (string, ingress_envelope) result" where
  "envelope_of_json ty v =
     (case struct_fields envelope_names 4 v of
        None \<Rightarrow> Inl []
      | Some fs \<Rightarrow>
          (let field = map_of fs; opt = (\<lambda>k. optional_string (field k)) in
           rbind (required_string (field ''tenant'')) (\<lambda>tenant.
           rbind (opt ''env'') (\<lambda>env.
           rbind (opt ''pack_id'') (\<lambda>pack_id.
           rbind (required_string (field ''flow_id'')) (\<lambda>flow_id.
           rbind (opt ''flow_type'') (\<lambda>flow_type.
           rbind (opt ''action'') (\<lambda>action.
           rbind (opt ''session_hint'') (\<lambda>session_hint.
           rbind (opt ''provider'') (\<lambda>provider.
           rbind (opt ''messaging_endpoint_id'') (\<lambda>endpoint_id.
           rbind (opt ''channel'') (\<lambda>channel.
           rbind (opt ''conversation'') (\<lambda>conversation.
           rbind (opt ''user'') (\<lambda>user.
           rbind (opt ''entry_node'') (\<lambda>entry_node.
           rbind (opt ''activity_id'') (\<lambda>activity_id.
           rbind (opt ''timestamp'') (\<lambda>timestamp.
           rbind (optional_scope ty (field ''reply_scope'')) (\<lambda>reply_scope.
           Inr \<lparr>ie_tenant = tenant, ie_env = env, ie_pack_id = pack_id, ie_flow_id = flow_id, ie_flow_type = flow_type,
                ie_action = action, ie_session_hint = session_hint, ie_provider = provider, ie_endpoint_id = endpoint_id,
                ie_channel = channel, ie_conversation = conversation, ie_user = user, ie_entry_node = entry_node,
                ie_activity_id = activity_id, ie_timestamp = timestamp, ie_payload = unwrap_or JNull (field ''payload''),
                ie_metadata = optional_value (field ''metadata''), ie_reply_scope = reply_scope\<rparr>))))))))))))))))))"

text \<open>serde reads back the reply scope it wrote, which is an object.\<close>

definition scope_codec :: "types_lib \<Rightarrow> bool" where
  "scope_codec ty \<longleftrightarrow> (\<forall>sc. ty_scope_of_json ty (ty_scope_json ty sc) = Inr sc \<and> ty_scope_json ty sc \<noteq> JNull)"

lemma map_of_fold_bt_insert: "map_of (fold (\<lambda>(k, v). bt_insert k v) fs acc) = map_of acc ++ map_of (rev fs)"
  by (induction fs arbitrary: acc) (auto simp: map_add_assoc [symmetric])

lemma map_of_rev_distinct: "distinct (map fst fs) \<Longrightarrow> map_of (rev fs) = map_of fs"
proof (induction fs)
  case (Cons x fs)
  then have "map_of fs (fst x) = None" by (simp add: map_of_eq_None_iff)
  with Cons show ?case by (cases x) (auto simp: map_add_def fun_eq_iff split: option.splits)
qed simp

lemma fst_present: "fst ` set (present fs) \<subseteq> fst ` set fs"
  by (auto simp: present_def split: option.splits) force+

lemma distinct_present: "distinct (map fst fs) \<Longrightarrow> distinct (map fst (present fs))"
proof (induction fs)
  case (Cons x fs)
  then have "fst x \<notin> fst ` set (present fs)" using fst_present [of fs] by auto
  with Cons show ?case by (cases x) (auto simp: present_def split: option.splits)
qed (simp add: present_def)

lemma map_of_present: "distinct (map fst fs) \<Longrightarrow> map_of (present fs) k = Option.bind (map_of fs k) (\<lambda>v. v)"
proof (induction fs)
  case (Cons x fs)
  then have "fst x \<notin> fst ` set (present fs)" using fst_present [of fs] by auto
  then have "map_of (present fs) (fst x) = None" by (simp add: map_of_eq_None_iff)
  with Cons show ?case by (cases x) (auto simp: present_def split: option.splits)
qed (simp add: present_def)

lemma json_obj_present:
  "distinct (map fst fs) \<Longrightarrow> \<exists>gs. json_obj (present fs) = JObject gs \<and> (\<forall>k. map_of gs k = Option.bind (map_of fs k) (\<lambda>v. v))"
  using distinct_present [of fs]
  by (simp add: json_obj_def map_of_fold_bt_insert map_of_rev_distinct map_of_present)

lemma optional_string_map [simp]: "optional_string (map_option JString v) = Inr v"
  by (cases v) simp_all

lemma optional_scope_map: "scope_codec ty \<Longrightarrow> optional_scope ty (map_option (ty_scope_json ty) sc) = Inr sc"
proof (cases sc)
  case (Some s)
  assume "scope_codec ty"
  then have "ty_scope_json ty s \<noteq> JNull" and read: "ty_scope_of_json ty (ty_scope_json ty s) = Inr s"
    unfolding scope_codec_def by blast+
  then have "optional_value (Some (ty_scope_json ty s)) = Some (ty_scope_json ty s)"
    by (cases "ty_scope_json ty s") simp_all
  with Some read show ?thesis by (simp add: optional_scope_def)
qed (simp add: optional_scope_def)

lemma envelope_json_roundtrip:
  assumes "scope_codec ty"
  shows "envelope_of_json ty (envelope_json ty e) = Inr (e\<lparr>ie_metadata := optional_value (ie_metadata e)\<rparr>)"
proof -
  have "distinct (map fst (envelope_fields ty e))" by (simp add: envelope_fields_def)
  then obtain gs where gs: "envelope_json ty e = JObject gs"
    "\<And>k. map_of gs k = Option.bind (map_of (envelope_fields ty e) k) (\<lambda>v. v)"
    using json_obj_present unfolding envelope_json_def by blast
  show ?thesis
    by (simp add: envelope_of_json_def gs struct_fields_def Let_def envelope_fields_def optional_scope_map [OF assms] unwrap_or_def)
qed

end
