(* ===== verification/Flow_Resume.thy ===== *)
theory Flow_Resume
  imports Ingress
begin

section \<open>The store of parked flows\<close>

text \<open>
  \<open>FlowResumeStore\<close> of \<open>crates/greentic-runner-host/src/engine/runtime.rs\<close>: a parked flow is kept as a wait of the
  session store, under the tenant, a user id that is derived from the session hint, and the reply scope of the
  envelope. The store is \<open>greentic_session\<close>, whose operations over the world \<open>'w\<close> are the record \<open>wait_ops\<close>;
  the locale \<open>wait_store\<close> states what its documentation promises of them. serde's text of a record and random bytes are
  arguments too. A blocking call that panics is left out.
\<close>

text \<open>The marker of a run (\<open>run_outcome/turn.rs\<close>) and the record that is stored with a wait.\<close>

record run_marker =
  rk_run_id :: string
  rk_started_at :: string
  rk_agentic :: bool
  rk_seq :: nat
  rk_agent_ref :: "string option"

record resume_record =
  rc_snapshot :: flow_snapshot
  rc_reason :: "string option"
  rc_run :: "run_marker option"

text \<open>\<open>greentic_session::SessionData\<close>.\<close>

record session_data =
  sd_ctx :: store_ctx
  sd_flow_id :: string
  sd_pack_id :: "string option"
  sd_node_pointer :: string
  sd_wait_reason :: "string option"
  sd_outbox_marker :: "string option"
  sd_context_json :: string

record 'w wait_ops =
  wo_register :: "store_ctx \<Rightarrow> string \<Rightarrow> wait_scope \<Rightarrow> string \<Rightarrow> session_data \<Rightarrow> nat option \<Rightarrow> ('w, string, unit) st_res"
  wo_find :: "store_ctx \<Rightarrow> string \<Rightarrow> wait_scope \<Rightarrow> ('w, string, string option) st_res"
  wo_get :: "string \<Rightarrow> ('w, string, session_data option) st_res"
  wo_clear :: "store_ctx \<Rightarrow> string \<Rightarrow> wait_scope \<Rightarrow> ('w, string, unit) st_res"

record 'w resume_store =
  fr_ty :: types_lib
  fr_ops :: "'w wait_ops"
  fr_encode :: "resume_record \<Rightarrow> (string, string) result"
  fr_decode :: "string \<Rightarrow> (string, resume_record) result"
  fr_random :: "nat \<Rightarrow> 'w \<Rightarrow> string \<times> 'w"

subsection \<open>Keys\<close>

definition derive_user_id :: "types_lib \<Rightarrow> string \<Rightarrow> (runner_error, string) result" where
  "derive_user_id ty hint = map_err SessionErr (ty_user_id ty (''sess'' @ bytes_hex (take 8 (ty_sha256 ty hint))))"

definition store_hint :: "ingress_envelope \<Rightarrow> string" where
  "store_hint e =
     (let base_hint = unwrap_or (envelope_hint e) (ie_session_hint e)
      in case ie_pack_id e of Some pack_id \<Rightarrow> base_hint @ ''::pack='' @ pack_id | None \<Rightarrow> base_hint)"

definition build_store_ctx :: "types_lib \<Rightarrow> ingress_envelope \<Rightarrow> (runner_error, store_ctx \<times> string \<times> string \<times> wait_scope) result" where
  "build_store_ctx ty e =
     (let hint = store_hint e in
      rbind (derive_user_id ty hint) (\<lambda>user.
      rbind (ok_or (SessionErr ''Cannot suspend: reply_scope missing; provider plugin must supply ReplyScope'') (ie_reply_scope e)) (\<lambda>scope.
      rbind (envelope_ctx ty e) (\<lambda>ctx.
      Inr (ctx\<lparr>tc_session := Some hint, tc_user := Some user\<rparr>, user, hint, scope)))))"

definition base_scope :: "wait_scope \<Rightarrow> wait_scope" where
  "base_scope sc = sc\<lparr>rs_correlation := None\<rparr>"

definition lookup_scopes :: "wait_scope \<Rightarrow> wait_scope list" where
  "lookup_scopes sc = sc # (if rs_correlation sc \<noteq> None then [base_scope sc] else [])"

definition record_to_session_data ::
  "'w resume_store \<Rightarrow> resume_record \<Rightarrow> store_ctx \<Rightarrow> string \<Rightarrow> string \<Rightarrow> (runner_error, session_data) result" where
  "record_to_session_data rs r ctx user hint =
     rbind (map_err SessionErr (ty_flow_id (fr_ty rs) (sp_flow_id (rc_snapshot r)))) (\<lambda>flow.
     rbind (map_err SessionErr (ty_pack_id (fr_ty rs) (sp_pack_id (rc_snapshot r)))) (\<lambda>pack.
     rbind (map_err (\<lambda>m. SessionErr (''failed to encode flow resume snapshot: '' @ m)) (fr_encode rs r)) (\<lambda>json.
     Inr \<lparr>sd_ctx = ctx\<lparr>tc_user := Some user, tc_session := Some hint, tc_flow := Some (sp_flow_id (rc_snapshot r))\<rparr>,
          sd_flow_id = flow, sd_pack_id = Some pack, sd_node_pointer = sp_next_node (rc_snapshot r),
          sd_wait_reason = rc_reason r, sd_outbox_marker = None, sd_context_json = json\<rparr>)))"

definition generate_correlation_id :: "'w resume_store \<Rightarrow> 'w \<Rightarrow> string \<times> 'w" where
  "generate_correlation_id rs w = (case fr_random rs 16 w of (bytes, w') \<Rightarrow> (bytes_hex bytes, w'))"

subsection \<open>Operations\<close>

text \<open>One scope: the wait's record, after the checks; nothing when no wait or no data is there.\<close>

definition check_pack :: "string option \<Rightarrow> resume_record \<Rightarrow> (string, resume_record) result" where
  "check_pack expected_pack r =
     (case expected_pack of
        Some pack_id \<Rightarrow>
          if sp_pack_id (rc_snapshot r) \<noteq> pack_id
          then Inl (''resume pack mismatch: expected '' @ pack_id @ '', found '' @ sp_pack_id (rc_snapshot r))
          else Inr r
      | None \<Rightarrow> Inr r)"

definition read_record :: "'w resume_store \<Rightarrow> string option \<Rightarrow> session_data \<Rightarrow> (string, resume_record) result" where
  "read_record rs expected_pack data =
     rbind (map_err (\<lambda>m. ''failed to decode flow resume snapshot: '' @ m) (fr_decode rs (sd_context_json data)))
       (check_pack expected_pack)"

definition fetch_scope ::
  "'w resume_store \<Rightarrow> string option \<Rightarrow> store_ctx \<Rightarrow> string \<Rightarrow> wait_scope \<Rightarrow> ('w, string, resume_record option) st_res" where
  "fetch_scope rs expected_pack ctx user lookup =
     sbind (wo_find (fr_ops rs) ctx user lookup) (\<lambda>key.
       case key of
         None \<Rightarrow> sret None
       | Some key \<Rightarrow>
           sbind (wo_get (fr_ops rs) key) (\<lambda>data.
             case data of
               None \<Rightarrow> sret None
             | Some data \<Rightarrow> sbind (sres (read_record rs expected_pack data)) (\<lambda>r. sret (Some r))))"

fun fetch_scopes ::
  "'w resume_store \<Rightarrow> string option \<Rightarrow> store_ctx \<Rightarrow> string \<Rightarrow> wait_scope list \<Rightarrow> ('w, string, resume_record option) st_res" where
  "fetch_scopes rs expected_pack ctx user [] = sret None"
| "fetch_scopes rs expected_pack ctx user (lookup # scopes) =
     sbind (fetch_scope rs expected_pack ctx user lookup) (\<lambda>r.
       case r of None \<Rightarrow> fetch_scopes rs expected_pack ctx user scopes | Some r \<Rightarrow> sret (Some r))"

definition fetch_record :: "'w resume_store \<Rightarrow> ingress_envelope \<Rightarrow> ('w, runner_error, resume_record option) st_res" where
  "fetch_record rs e =
     sbind (sres (build_store_ctx (fr_ty rs) e)) (\<lambda>(ctx, user, hint, scope).
     smap_err SessionErr (fetch_scopes rs (ie_pack_id e) (ctx\<lparr>tc_user := Some user\<rparr>) user (lookup_scopes scope)))"

definition fetch_with_run ::
  "'w resume_store \<Rightarrow> ingress_envelope \<Rightarrow> ('w, runner_error, (flow_snapshot \<times> run_marker option) option) st_res" where
  "fetch_with_run rs e = sbind (fetch_record rs e) (\<lambda>r. sret (map_option (\<lambda>r. (rc_snapshot r, rc_run r)) r))"

definition fetch_parked :: "'w resume_store \<Rightarrow> ingress_envelope \<Rightarrow> ('w, runner_error, flow_snapshot option) st_res" where
  "fetch_parked rs e = sbind (fetch_with_run rs e) (\<lambda>r. sret (map_option fst r))"

definition save_with_run ::
  "'w resume_store \<Rightarrow> ingress_envelope \<Rightarrow> string option \<Rightarrow> flow_snapshot \<Rightarrow> run_marker option \<Rightarrow> ('w, runner_error, wait_scope) st_res" where
  "save_with_run rs e reason sp run =
     sbind (sres (build_store_ctx (fr_ty rs) e)) (\<lambda>(ctx, user, hint, scope).
     sbind (sres (record_to_session_data rs \<lparr>rc_snapshot = sp, rc_reason = reason, rc_run = run\<rparr> ctx user hint)) (\<lambda>data.
     sbind (\<lambda>w. if rs_correlation scope = None
              then (case generate_correlation_id rs w of (i, w') \<Rightarrow> (Inr (scope\<lparr>rs_correlation := Some i\<rparr>), w'))
              else (Inr scope, w)) (\<lambda>reply_scope.
       let store_scope = base_scope scope; key = hint @ ''::'' @ ty_scope_hash (fr_ty rs) store_scope in
       sbind (smap_err SessionErr (wo_register (fr_ops rs) ctx user store_scope key data None)) (\<lambda>_. sret reply_scope))))"

definition save_parked :: "'w resume_store \<Rightarrow> ingress_envelope \<Rightarrow> string option \<Rightarrow> flow_snapshot \<Rightarrow> ('w, runner_error, wait_scope) st_res" where
  "save_parked rs e reason sp = save_with_run rs e reason sp None"

definition restamp_run :: "'w resume_store \<Rightarrow> ingress_envelope \<Rightarrow> run_marker \<Rightarrow> ('w, runner_error, unit) st_res" where
  "restamp_run rs e run =
     sbind (fetch_record rs e) (\<lambda>r.
       case r of
         None \<Rightarrow> sret ()
       | Some r \<Rightarrow> sbind (save_with_run rs e (rc_reason r) (rc_snapshot r) (Some run)) (\<lambda>_. sret ()))"

fun clear_scopes :: "'w resume_store \<Rightarrow> store_ctx \<Rightarrow> string \<Rightarrow> wait_scope list \<Rightarrow> ('w, string, unit) st_res" where
  "clear_scopes rs ctx user [] = sret ()"
| "clear_scopes rs ctx user (lookup # scopes) =
     sbind (wo_clear (fr_ops rs) ctx user lookup) (\<lambda>_. clear_scopes rs ctx user scopes)"

definition clear_parked :: "'w resume_store \<Rightarrow> ingress_envelope \<Rightarrow> ('w, runner_error, unit) st_res" where
  "clear_parked rs e =
     sbind (sres (build_store_ctx (fr_ty rs) e)) (\<lambda>(ctx, user, hint, scope).
     smap_err SessionErr (clear_scopes rs ctx user (lookup_scopes scope)))"

definition turn_key :: "types_lib \<Rightarrow> ingress_envelope \<Rightarrow> (runner_error, string) result" where
  "turn_key ty e =
     rbind (build_store_ctx ty e) (\<lambda>(ctx, user, hint, scope). Inr (tx_env ctx @ '':'' @ tx_tenant ctx @ '':'' @ user))"

definition contact_identity :: "types_lib \<Rightarrow> ingress_envelope \<Rightarrow> (runner_error, store_ctx \<times> string) result" where
  "contact_identity ty e = rbind (build_store_ctx ty e) (\<lambda>(ctx, user, hint, scope). Inr (ctx, user))"

text \<open>\<open>DefaultWaitTtl\<close> of \<open>storage/session.rs\<close>: a wait without a lifetime of its own gets the configured one.\<close>

definition default_wait_ttl :: "nat \<Rightarrow> 'w wait_ops \<Rightarrow> 'w wait_ops" where
  "default_wait_ttl ttl inner =
     inner\<lparr>wo_register := \<lambda>ctx user scope key data t. wo_register inner ctx user scope key data (or_else t (Some ttl))\<rparr>"

subsection \<open>What the session store promises\<close>

text \<open>
  A wait is found by environment, tenant, user and the hash of its scope. \<open>waits\<close> reads the live waits off the
  world, each with its session key and its data. A session key is the identity of an entry: a registration under the
  key of another wait may drop that wait, and so may clearing it. A failed call says nothing about its own slot.
\<close>

type_synonym wait_slot = "string \<times> string \<times> string \<times> string"

type_synonym 'w wait_view = "'w \<Rightarrow> wait_slot \<Rightarrow> (string \<times> session_data) option"

definition slot_of :: "types_lib \<Rightarrow> store_ctx \<Rightarrow> string \<Rightarrow> wait_scope \<Rightarrow> wait_slot" where
  "slot_of ty ctx user scope = (tx_env ctx, tx_tenant ctx, user, ty_scope_hash ty scope)"

locale wait_store =
  fixes ty :: types_lib and ops :: "'w wait_ops" and waits :: "'w wait_view"
  assumes register_ok: "wo_register ops ctx u sc k d t w = (Inr (), w') \<Longrightarrow> waits w' (slot_of ty ctx u sc) = Some (k, d)"
    and register_other: "wo_register ops ctx u sc k d t w = (r1, w') \<Longrightarrow> s \<noteq> slot_of ty ctx u sc \<Longrightarrow>
      \<forall>d'. waits w s \<noteq> Some (k, d') \<Longrightarrow> waits w' s = waits w s"
    and find_keeps: "wo_find ops ctx u sc w = (r2, w') \<Longrightarrow> waits w' = waits w"
    and find_ok: "wo_find ops ctx u sc w = (Inr x, w') \<Longrightarrow> x = map_option fst (waits w (slot_of ty ctx u sc))"
    and get_keeps: "wo_get ops k w = (r3, w') \<Longrightarrow> waits w' = waits w"
    and get_ok: "wo_get ops k w = (Inr y, w') \<Longrightarrow> waits w s = Some (k, d) \<Longrightarrow> y = Some d"
    and clear_own: "wo_clear ops ctx u sc w = (r1, w') \<Longrightarrow> waits w' (slot_of ty ctx u sc) \<in> {None, waits w (slot_of ty ctx u sc)}"
    and clear_ok: "wo_clear ops ctx u sc w = (Inr (), w') \<Longrightarrow> waits w' (slot_of ty ctx u sc) = None"
    and clear_other: "wo_clear ops ctx u sc w = (r1, w') \<Longrightarrow> s \<noteq> slot_of ty ctx u sc \<Longrightarrow>
      \<forall>k d d'. waits w (slot_of ty ctx u sc) = Some (k, d) \<longrightarrow> waits w s \<noteq> Some (k, d') \<Longrightarrow> waits w' s = waits w s"

text \<open>The decorator keeps the contract of the store it wraps.\<close>

lemma default_wait_ttl_store:
  assumes "wait_store ty ops waits"
  shows "wait_store ty (default_wait_ttl ttl ops) waits"
  using assms unfolding wait_store_def default_wait_ttl_def by simp

subsection \<open>The park an envelope addresses\<close>

text \<open>
  The abstract view: an envelope addresses the slot of its reply scope and the one without the correlation id, and
  the first of them with a wait holds its park. \<open>persisted\<close> is what serde reads back: files of the turn are not
  written, and a null last output is read as none.
\<close>

definition persisted :: "resume_record \<Rightarrow> resume_record" where
  "persisted r =
     (let sp = rc_snapshot r; st = sp_state sp in
      r\<lparr>rc_snapshot := sp\<lparr>sp_state := st\<lparr>xs_created := [], xs_last_output := optional_value (xs_last_output st),
          xs_nodes := map (\<lambda>(i, out). (i, out\<lparr>no_created := []\<rparr>)) (xs_nodes st)\<rparr>\<rparr>\<rparr>)"

definition resume_codec :: "'w resume_store \<Rightarrow> bool" where
  "resume_codec rs \<longleftrightarrow> (\<forall>r s. fr_encode rs r = Inr s \<longrightarrow> fr_decode rs s = Inr (persisted r))"

fun first_wait :: "(wait_slot \<Rightarrow> (string \<times> session_data) option) \<Rightarrow> wait_slot list \<Rightarrow> session_data option" where
  "first_wait view [] = None"
| "first_wait view (s # ss) = (case view s of Some (k, d) \<Rightarrow> Some d | None \<Rightarrow> first_wait view ss)"

definition envelope_slots :: "types_lib \<Rightarrow> ingress_envelope \<Rightarrow> wait_slot list" where
  "envelope_slots ty e =
     (case build_store_ctx ty e of Inl _ \<Rightarrow> [] | Inr (ctx, user, hint, sc) \<Rightarrow> map (slot_of ty ctx user) (lookup_scopes sc))"

definition home_slot :: "types_lib \<Rightarrow> ingress_envelope \<Rightarrow> wait_slot option" where
  "home_slot ty e =
     (case build_store_ctx ty e of Inl _ \<Rightarrow> None | Inr (ctx, user, hint, sc) \<Rightarrow> Some (slot_of ty ctx user (base_scope sc)))"

definition park_of :: "'w resume_store \<Rightarrow> (wait_slot \<Rightarrow> (string \<times> session_data) option) \<Rightarrow> ingress_envelope \<Rightarrow> resume_record option" where
  "park_of rs view e =
     Option.bind (first_wait view (envelope_slots (fr_ty rs) e)) (\<lambda>d.
       case fr_decode rs (sd_context_json d) of Inr r \<Rightarrow> Some r | Inl _ \<Rightarrow> None)"

text \<open>No wait of another kind stands before the slot that parks are saved in.\<close>

definition unshadowed :: "types_lib \<Rightarrow> (wait_slot \<Rightarrow> (string \<times> session_data) option) \<Rightarrow> ingress_envelope \<Rightarrow> bool" where
  "unshadowed ty view e \<longleftrightarrow> (\<forall>s \<in> set (envelope_slots ty e). Some s = home_slot ty e \<or> view s = None)"

lemma slot_of_user [simp]: "slot_of ty (ctx\<lparr>tc_user := x\<rparr>) = slot_of ty ctx"
  by (simp add: slot_of_def fun_eq_iff)

lemma base_scope_id: "rs_correlation sc = None \<Longrightarrow> base_scope sc = sc"
  by (simp add: base_scope_def)

lemma home_in_slots: "home_slot ty e = Some s \<Longrightarrow> s \<in> set (envelope_slots ty e)"
proof -
  have "base_scope sc \<in> set (lookup_scopes sc)" for sc by (auto simp: lookup_scopes_def base_scope_id)
  then show "home_slot ty e = Some s \<Longrightarrow> s \<in> set (envelope_slots ty e)"
    by (auto simp: home_slot_def envelope_slots_def split: sum.splits)
qed

lemma first_wait_home:
  assumes "unshadowed ty view e" "home_slot ty e = Some s" "view s = Some (k, d)"
  shows "first_wait view (envelope_slots ty e) = Some d"
proof -
  have "first_wait view ss = Some d" if "\<forall>x \<in> set ss. x = s \<or> view x = None" "s \<in> set ss" for ss
    using that assms(3) by (induction ss) auto
  moreover have "\<forall>x \<in> set (envelope_slots ty e). x = s \<or> view x = None"
    using assms(1,2) by (auto simp: unshadowed_def)
  ultimately show ?thesis using home_in_slots [OF assms(2)] by blast
qed

lemma first_wait_None: "first_wait view ss = None \<longleftrightarrow> (\<forall>s \<in> set ss. view s = None)"
  by (induction ss) (auto split: option.splits)

lemma read_record_Inr:
  assumes "read_record rs pack d = Inr y"
  shows "fr_decode rs (sd_context_json d) = Inr y" and "pack = Some p \<Longrightarrow> sp_pack_id (rc_snapshot y) = p"
  using assms by (auto simp: read_record_def check_pack_def rbind_eq_Inr map_err_def split: sum.splits option.splits if_splits)

text \<open>Two envelopes with the same slot take the same turn lock.\<close>

lemma turn_key_of_slot:
  assumes "home_slot ty e = Some s" "home_slot ty f = Some s"
  shows "turn_key ty e = turn_key ty f"
  using assms by (auto simp: home_slot_def turn_key_def slot_of_def split: sum.splits)

lemma home_slot_parts:
  assumes "home_slot ty e = Some s" 
  shows "\<exists>env tenant user sc. s = (env, tenant, user, ty_scope_hash ty (base_scope sc)) \<and> ie_reply_scope e = Some sc \<and>
    ty_env_id ty (unwrap_or DEFAULT_ENV (ie_env e)) = Inr env \<and> ty_tenant_id ty (ie_tenant e) = Inr tenant \<and>
    derive_user_id ty (store_hint e) = Inr user"
  using assms
  by (auto simp: home_slot_def build_store_ctx_def envelope_ctx_def slot_of_def Let_def ok_or_def map_err_def rbind_def
      split: sum.splits option.splits)

context wait_store
begin

text \<open>\<open>rs\<close> uses the store of the contract.\<close>

lemma fetch_scope_refines:
  assumes "fr_ops rs = ops" "fetch_scope rs pack ctx user sc w = (r, w')"
  shows "waits w' = waits w"
    and "r = Inr None \<Longrightarrow> waits w (slot_of ty ctx user sc) = None"
    and "r = Inr (Some y) \<Longrightarrow> \<exists>k d. waits w (slot_of ty ctx user sc) = Some (k, d) \<and> read_record rs pack d = Inr y"
proof -
  obtain k w1 where find: "wo_find ops ctx user sc w = (k, w1)" by (metis surj_pair)
  note w1 = find_keeps [OF find]
  have key: "\<And>x. k = Inr x \<Longrightarrow> x = map_option fst (waits w (slot_of ty ctx user sc))" using find_ok find by blast
  have "waits w' = waits w \<and> (r = Inr None \<longrightarrow> waits w (slot_of ty ctx user sc) = None) \<and>
    (\<forall>y. r = Inr (Some y) \<longrightarrow> (\<exists>k d. waits w (slot_of ty ctx user sc) = Some (k, d) \<and> read_record rs pack d = Inr y))"
  proof (cases "\<exists>key. k = Inr (Some key)")
    case True
    then obtain key where k: "k = Inr (Some key)" ..
    with key [OF k] obtain d where d: "k = Inr (Some key)" "waits w (slot_of ty ctx user sc) = Some (key, d)"
      by (cases "waits w (slot_of ty ctx user sc)") auto
    obtain g w2 where get: "wo_get ops key w1 = (g, w2)" by (metis surj_pair)
    have "waits w2 = waits w" using get_keeps [OF get] w1 by simp
    moreover have "\<And>y. g = Inr y \<Longrightarrow> y = Some d" using get_ok get d(2) w1 by metis
    ultimately show ?thesis using assms find d get
      by (cases g; cases "read_record rs pack d") (auto simp: fetch_scope_def sbind_def sres_def sret_def)
  next
    case False
    then show ?thesis using assms find w1 key
      by (cases k) (auto simp: fetch_scope_def sbind_def sret_def split: option.splits)
  qed
  then show "waits w' = waits w" "r = Inr None \<Longrightarrow> waits w (slot_of ty ctx user sc) = None"
    "r = Inr (Some y) \<Longrightarrow> \<exists>k d. waits w (slot_of ty ctx user sc) = Some (k, d) \<and> read_record rs pack d = Inr y"
    by blast+
qed

lemma fetch_scopes_refines:
  assumes "fr_ops rs = ops" "fetch_scopes rs pack ctx user scopes w = (r, w')"
  shows "waits w' = waits w \<and>
    (r = Inr None \<longrightarrow> first_wait (waits w) (map (slot_of ty ctx user) scopes) = None) \<and>
    (\<forall>y. r = Inr (Some y) \<longrightarrow> (\<exists>d. first_wait (waits w) (map (slot_of ty ctx user) scopes) = Some d \<and> read_record rs pack d = Inr y))"
  using assms(2)
proof (induction scopes arbitrary: w)
  case (Cons sc scopes)
  obtain q w1 where one: "fetch_scope rs pack ctx user sc w = (q, w1)" by (metis surj_pair)
  note f = fetch_scope_refines [OF assms(1) one]
  show ?case
  proof (cases "q = Inr None")
    case True
    with Cons.prems one have "fetch_scopes rs pack ctx user scopes w1 = (r, w')" by (simp add: sbind_def)
    from Cons.IH [OF this] f(1) f(2) [OF True] show ?thesis by simp
  next
    case False
    then show ?thesis using Cons.prems one f(1) f(3)
      by (cases q) (fastforce simp: sbind_def sret_def split: option.splits)+
  qed
qed (auto simp: sret_def)

lemma fetch_record_refines:
  assumes "fr_ty rs = ty" "fr_ops rs = ops" "fetch_record rs e w = (r, w')"
  shows "waits w' = waits w \<and> (\<forall>x. r = Inr x \<longrightarrow> home_slot ty e \<noteq> None \<and> x = park_of rs (waits w) e \<and>
    (\<forall>y p. x = Some y \<longrightarrow> ie_pack_id e = Some p \<longrightarrow> sp_pack_id (rc_snapshot y) = p))"
proof (cases "build_store_ctx ty e")
  case (Inl m)
  then show ?thesis using assms by (auto simp: fetch_record_def sbind_def sres_def)
next
  case (Inr b)
  obtain ctx user hint sc where b: "b = (ctx, user, hint, sc)" by (metis prod_cases4)
  obtain q where q: "fetch_scopes rs (ie_pack_id e) (ctx\<lparr>tc_user := Some user\<rparr>) user (lookup_scopes sc) w = (q, w')"
    "r = map_err SessionErr q"
    using assms Inr b by (auto simp: fetch_record_def smap_err_def split: prod.splits)
  note f = fetch_scopes_refines [OF assms(2) q(1), unfolded slot_of_user]
  have slots: "envelope_slots ty e = map (slot_of ty ctx user) (lookup_scopes sc)" and home: "home_slot ty e \<noteq> None"
    using Inr b by (simp_all add: envelope_slots_def home_slot_def)
  show ?thesis
  proof (cases q)
    case (Inl m)
    with q(2) f show ?thesis by (simp add: map_err_def)
  next
    case (Inr x)
    with q(2) f slots home assms(1) show ?thesis
      by (cases x) (auto simp: map_err_def park_of_def dest: read_record_Inr)
  qed
qed

lemma save_refines:
  assumes "fr_ty rs = ty" "fr_ops rs = ops" "resume_codec rs" "save_with_run rs e reason sp run w = (Inr scope, w')"
  shows "\<exists>s k d w1. home_slot ty e = Some s \<and> waits w' s = Some (k, d) \<and>
    fr_decode rs (sd_context_json d) = Inr (persisted \<lparr>rc_snapshot = sp, rc_reason = reason, rc_run = run\<rparr>)"
proof -
  obtain ctx user hint sc where b: "build_store_ctx ty e = Inr (ctx, user, hint, sc)"
    using assms by (auto simp: save_with_run_def sbind_def sres_def split: sum.splits)
  obtain d where d: "record_to_session_data rs \<lparr>rc_snapshot = sp, rc_reason = reason, rc_run = run\<rparr> ctx user hint = Inr d"
    using assms b by (auto simp: save_with_run_def sbind_def sres_def split: sum.splits)
  obtain w1 where "wo_register ops ctx user (base_scope sc) (hint @ ''::'' @ ty_scope_hash ty (base_scope sc)) d None w1 = (Inr (), w')"
    using assms b d by (auto simp: save_with_run_def smap_err_def map_err_def sret_def Let_def elim!: sbind_eq_InrE split: sum.splits prod.splits)
  from register_ok [OF this] have "waits w' (slot_of ty ctx user (base_scope sc)) = Some (hint @ ''::'' @ ty_scope_hash ty (base_scope sc), d)" .
  moreover have "fr_decode rs (sd_context_json d) = Inr (persisted \<lparr>rc_snapshot = sp, rc_reason = reason, rc_run = run\<rparr>)"
    using d assms(3) by (auto simp: record_to_session_data_def resume_codec_def rbind_eq_Inr map_err_def split: sum.splits)
  ultimately show ?thesis using b by (auto simp: home_slot_def)
qed

lemma save_park:
  assumes "fr_ty rs = ty" "fr_ops rs = ops" "resume_codec rs" "save_with_run rs e reason sp run w = (Inr scope, w')"
    "unshadowed ty (waits w') e"
  shows "park_of rs (waits w') e = Some (persisted \<lparr>rc_snapshot = sp, rc_reason = reason, rc_run = run\<rparr>)"
  using save_refines [OF assms(1-4)] first_wait_home [OF assms(5)] assms(1) by (fastforce simp: park_of_def)

lemma clear_scopes_refines:
  assumes "fr_ops rs = ops" "clear_scopes rs ctx user scopes w = (Inr (), w')"
  shows "\<forall>sc \<in> set scopes. waits w' (slot_of ty ctx user sc) = None"
proof -
  have keep: "waits v' (slot_of ty ctx user sc) = None"
    if "clear_scopes rs ctx user scs v = (Inr (), v')" "waits v (slot_of ty ctx user sc) = None" for sc scs v v'
    using that
  proof (induction scs arbitrary: v)
    case (Cons x scs)
    then obtain v1 where one: "wo_clear ops ctx user x v = (Inr (), v1)" "clear_scopes rs ctx user scs v1 = (Inr (), v')"
      using assms(1) by (auto elim: sbind_eq_InrE)
    have "waits v1 (slot_of ty ctx user sc) = None"
      using clear_ok [OF one(1)] clear_other [OF one(1), of "slot_of ty ctx user sc"] Cons.prems(2)
      by (cases "slot_of ty ctx user sc = slot_of ty ctx user x") auto
    with Cons.IH [OF one(2)] show ?case .
  qed (simp add: sret_def)
  from assms(2) show ?thesis
  proof (induction scopes arbitrary: w)
    case (Cons x scs)
    then obtain w1 where one: "wo_clear ops ctx user x w = (Inr (), w1)" "clear_scopes rs ctx user scs w1 = (Inr (), w')"
      using assms(1) by (auto elim: sbind_eq_InrE)
    from keep [OF one(2) clear_ok [OF one(1)]] Cons.IH [OF one(2)] show ?case by simp
  qed simp
qed

lemma clear_park:
  assumes "fr_ty rs = ty" "fr_ops rs = ops" "clear_parked rs e w = (Inr (), w')"
  shows "park_of rs (waits w') e = None"
proof -
  obtain ctx user hint sc where b: "build_store_ctx ty e = Inr (ctx, user, hint, sc)"
    using assms by (auto simp: clear_parked_def sbind_def sres_def split: sum.splits)
  have "clear_scopes rs ctx user (lookup_scopes sc) w = (Inr (), w')"
    using assms b by (auto simp: clear_parked_def smap_err_def map_err_def split: sum.splits prod.splits)
  from clear_scopes_refines [OF assms(2) this] b have "first_wait (waits w') (envelope_slots ty e) = None"
    by (simp add: first_wait_None envelope_slots_def)
  with assms(1) show ?thesis by (simp add: park_of_def)
qed

end

end
