(* ===== verification/Run_Outcome.thy ===== *)
theory Run_Outcome
  imports Flow_Resume Engine_Drive
begin

section \<open>The report of a turn\<close>

text \<open>
  \<open>crates/greentic-runner-host/src/run_outcome\<close>: \<open>path.rs\<close> (the steps of a turn), \<open>wait.rs\<close> (what a parked run waits
  for) and \<open>turn.rs\<close> (the observer of a turn, the report it is turned into, and the scope that holds a failure until
  the retries of its turn are over). The engine's calls of the observer are a list of events; minting an id, the
  clock, the environment and the sink are functions over the world \<open>'w\<close>. A deadline is in milliseconds. The
  reference and the redacted excerpt of a technical error are not modelled.
\<close>

subsection \<open>The path of a turn\<close>

definition MAX_PATH_STEPS :: nat where "MAX_PATH_STEPS = 32"

record path_mark =
  pm_len :: nat
  pm_truncated :: bool

record step_path =
  pt_steps :: "string list"
  pt_truncated :: bool
  pt_walks :: "path_mark list"

definition path_new :: step_path where
  "path_new = \<lparr>pt_steps = [], pt_truncated = False, pt_walks = []\<rparr>"

definition path_attempt :: "nat \<Rightarrow> step_path \<Rightarrow> step_path" where
  "path_attempt n p =
     (if n \<le> 1 then p\<lparr>pt_walks := pt_walks p @ [\<lparr>pm_len = length (pt_steps p), pm_truncated = pt_truncated p\<rparr>]\<rparr>
      else
        (let mark = (if pt_walks p = [] then \<lparr>pm_len = 0, pm_truncated = False\<rparr> else last (pt_walks p))
         in p\<lparr>pt_steps := take (pm_len mark) (pt_steps p), pt_truncated := pm_truncated mark\<rparr>))"

definition path_exit :: "step_path \<Rightarrow> step_path" where
  "path_exit p = p\<lparr>pt_walks := butlast (pt_walks p)\<rparr>"

definition path_push :: "string \<Rightarrow> step_path \<Rightarrow> step_path" where
  "path_push i p =
     (if pt_steps p \<noteq> [] \<and> last (pt_steps p) = i then p
      else if MAX_PATH_STEPS \<le> length (pt_steps p) then p\<lparr>pt_truncated := True\<rparr>
      else p\<lparr>pt_steps := pt_steps p @ [i]\<rparr>)"

subsection \<open>What a park waits for\<close>

record parked_node =
  pn_approval :: bool
  pn_timeout_secs :: "nat option"

datatype wait_kind = UserInput | WaitApproval | Processing

record wait_report =
  wr_kind :: wait_kind
  wr_due_at :: "nat option"

definition DEFAULT_RESPONSE_TIMEOUT_SECS :: nat where "DEFAULT_RESPONSE_TIMEOUT_SECS = 24 * 60 * 60"

definition wait_kind_of :: "string option \<Rightarrow> parked_node option \<Rightarrow> wait_kind" where
  "wait_kind_of reason parked =
     (if (case parked of Some n \<Rightarrow> pn_approval n | None \<Rightarrow> False) then WaitApproval
      else if (case reason of Some r \<Rightarrow> starts_with ''await-runtime:'' r | None \<Rightarrow> False) then Processing
      else UserInput)"

text \<open>\<open>str::parse::<u64>\<close>: digits after at most one plus sign, with a value that fits.\<close>

definition digit_value :: "char \<Rightarrow> nat" where
  "digit_value c = of_char c - 48"

definition parse_u64 :: "string \<Rightarrow> nat option" where
  "parse_u64 s =
     (let ds = (case s of c # t \<Rightarrow> if c = CHR ''+'' then t else s | [] \<Rightarrow> []);
          n = foldl (\<lambda>acc c. 10 * acc + digit_value c) 0 ds
      in if ds \<noteq> [] \<and> list_all (ascii_within (CHR ''0'') (CHR ''9'')) ds \<and> n \<le> u64_max then Some n else None)"

definition positive :: "nat option \<Rightarrow> nat option" where
  "positive n = (case n of Some k \<Rightarrow> if 0 < k then Some k else None | None \<Rightarrow> None)"

definition response_timeout_secs :: "parked_node option \<Rightarrow> string option \<Rightarrow> nat" where
  "response_timeout_secs parked env_ttl =
     unwrap_or DEFAULT_RESPONSE_TIMEOUT_SECS
       (or_else (positive (Option.bind parked pn_timeout_secs)) (positive (Option.bind (map_option str_trim env_ttl) parse_u64)))"

definition wait_state_at :: "string option \<Rightarrow> parked_node option \<Rightarrow> nat \<Rightarrow> string option \<Rightarrow> wait_report" where
  "wait_state_at reason parked now env_ttl =
     (let kind = wait_kind_of reason parked in
      \<lparr>wr_kind = kind,
       wr_due_at =
         (if kind = UserInput
          then Some (now + 1000 * min (min (response_timeout_secs parked env_ttl) (2 ^ 63 - 1)) (100 * 365 * 86400)) else None)\<rparr>)"

subsection \<open>The observer\<close>

record node_info =
  ni_approval :: bool
  ni_timeout_secs :: "nat option"
  ni_agentic :: bool
  ni_agent_ref :: "string option"

text \<open>A call of the observer: the node, its flow and, for an error, the text of its chain.\<close>

datatype run_event =
    NodeStart string string node_info
  | NodeEnd string string
  | NodeError string string string
  | FlowAttempt nat
  | FlowExit

record observed_turn =
  ob_last_node :: "string option"
  ob_failed_node :: "string option"
  ob_failed_class :: "string option"
  ob_saw_agentic :: bool
  ob_failed_chain :: "string option"
  ob_agent_ref :: "string option"
  ob_parked :: "parked_node option"
  ob_flow_id :: "string option"
  ob_path :: step_path

definition observed_new :: observed_turn where
  "observed_new =
     \<lparr>ob_last_node = None, ob_failed_node = None, ob_failed_class = None, ob_saw_agentic = False, ob_failed_chain = None,
      ob_agent_ref = None, ob_parked = None, ob_flow_id = None, ob_path = path_new\<rparr>"

definition classify_error_text :: "string \<Rightarrow> string" where
  "classify_error_text t =
     (let lower = map ascii_lower t; has = (\<lambda>n. str_contains n lower) in
      if has ''timed out'' \<or> has ''timeout'' \<or> has ''deadline'' then ''timeout''
      else if has ''secret'' then ''secret_missing''
      else if has ''rate limit'' \<or> has ''too many requests'' then ''rate_limited''
      else if has ''component'' then ''component_failed''
      else ''node_failed'')"

fun on_event :: "run_event \<Rightarrow> observed_turn \<Rightarrow> observed_turn" where
  "on_event (NodeStart node flow info) seen =
     seen\<lparr>ob_last_node := Some node, ob_flow_id := Some flow, ob_path := path_push node (ob_path seen),
          ob_parked := Some \<lparr>pn_approval = ni_approval info, pn_timeout_secs = ni_timeout_secs info\<rparr>,
          ob_saw_agentic := (ob_saw_agentic seen \<or> ni_agentic info),
          ob_agent_ref := (if ni_agentic info then or_else (ob_agent_ref seen) (ni_agent_ref info) else ob_agent_ref seen)\<rparr>"
| "on_event (NodeEnd node flow) seen = seen\<lparr>ob_last_node := Some node, ob_flow_id := Some flow\<rparr>"
| "on_event (NodeError node flow chain) seen =
     seen\<lparr>ob_failed_node := Some node, ob_flow_id := Some flow, ob_failed_class := Some (classify_error_text chain),
          ob_failed_chain := Some chain\<rparr>"
| "on_event (FlowAttempt n) seen = seen\<lparr>ob_path := path_attempt n (ob_path seen)\<rparr>"
| "on_event FlowExit seen = seen\<lparr>ob_path := path_exit (ob_path seen)\<rparr>"

definition observe :: "run_event list \<Rightarrow> observed_turn" where
  "observe events = fold on_event events observed_new"

subsection \<open>Turning a turn into its report\<close>

datatype run_kind = RunFlow | RunAgentic

datatype outcome_status = RunInProgress | RunCompleted | TechnicalError

record worker_identity =
  wi_id :: "string option"
  wi_name :: "string option"
  wi_version :: "string option"

definition no_worker :: worker_identity where
  "no_worker = \<lparr>wi_id = None, wi_name = None, wi_version = None\<rparr>"

record run_outcome =
  ro_run_id :: string
  ro_flow_id :: string
  ro_kind :: run_kind
  ro_status :: outcome_status
  ro_last_step :: "string option"
  ro_user_ref :: "string option"
  ro_user_verified :: bool
  ro_channel :: "string option"
  ro_error_code :: "string option"
  ro_started_at :: string
  ro_seq :: nat
  ro_wait :: "wait_report option"
  ro_worker :: worker_identity
  ro_path :: "string list"
  ro_path_truncated :: bool

record turn_context =
  tn_marker :: run_marker
  tn_flow_id :: string
  tn_user_ref :: "string option"
  tn_user_verified :: bool
  tn_channel :: "string option"
  tn_pack :: worker_identity
  tn_retries :: nat

definition PLACEHOLDER_PROVIDER :: string where "PLACEHOLDER_PROVIDER = ''provider''"
definition MAX_ERROR_CODE_LEN :: nat where "MAX_ERROR_CODE_LEN = 64"
definition FLOW_EXECUTION_FAILED :: string where "FLOW_EXECUTION_FAILED = ''flow_execution_failed''"

definition trimmed_nonempty :: "string option \<Rightarrow> string option" where
  "trimmed_nonempty s = (case map_option str_trim s of Some t \<Rightarrow> if t = [] then None else Some t | None \<Rightarrow> None)"

definition user_ref :: "ingress_envelope \<Rightarrow> json option \<Rightarrow> string option \<times> bool" where
  "user_ref e caller =
     (case Option.bind caller (\<lambda>b. trimmed_nonempty (get_str ''sub'' b)) of
        Some sub \<Rightarrow>
          (Some sub, unwrap_or False (Option.bind (Option.bind caller (json_get ''user_verified'')) json_as_bool))
      | None \<Rightarrow>
          (let provider = unwrap_or PLACEHOLDER_PROVIDER (trimmed_nonempty (ie_provider e))
           in (map_option (\<lambda>u. provider @ '':'' @ u) (trimmed_nonempty (ie_user e)), False)))"

definition turn_begin :: "ingress_envelope \<Rightarrow> json option \<Rightarrow> run_marker \<Rightarrow> string \<Rightarrow> turn_context" where
  "turn_begin e caller marker flow_id =
     \<lparr>tn_marker = marker, tn_flow_id = flow_id, tn_user_ref = fst (user_ref e caller), tn_user_verified = snd (user_ref e caller),
      tn_channel = (case trimmed_nonempty (ie_provider e) of Some p \<Rightarrow> if p = PLACEHOLDER_PROVIDER then None else Some p | None \<Rightarrow> None),
      tn_pack = no_worker, tn_retries = 0\<rparr>"

definition with_pack :: "string \<Rightarrow> string option \<Rightarrow> string \<Rightarrow> turn_context \<Rightarrow> turn_context" where
  "with_pack pack_id name version turn =
     turn\<lparr>tn_pack := \<lparr>wi_id = Some pack_id, wi_name = name, wi_version = Some version\<rparr>\<rparr>"

definition turn_seq :: "turn_context \<Rightarrow> nat" where
  "turn_seq turn = sat_add64 (rk_seq (tn_marker turn)) 1"

definition turn_agent_ref :: "turn_context \<Rightarrow> observed_turn \<Rightarrow> string option" where
  "turn_agent_ref turn ob = or_else (rk_agent_ref (tn_marker turn)) (ob_agent_ref ob)"

definition marker_after :: "turn_context \<Rightarrow> observed_turn \<Rightarrow> run_marker" where
  "marker_after turn ob =
     (tn_marker turn)\<lparr>rk_agentic := (rk_agentic (tn_marker turn) \<or> ob_saw_agentic ob), rk_seq := turn_seq turn,
                      rk_agent_ref := turn_agent_ref turn ob\<rparr>"

definition outcome_of :: "turn_context \<Rightarrow> observed_turn \<Rightarrow> outcome_status \<Rightarrow> run_outcome" where
  "outcome_of turn ob status =
     (let agentic = (rk_agentic (tn_marker turn) \<or> ob_saw_agentic ob) in
      \<lparr>ro_run_id = rk_run_id (tn_marker turn), ro_flow_id = unwrap_or (tn_flow_id turn) (ob_flow_id ob),
       ro_kind = (if agentic then RunAgentic else RunFlow), ro_status = status, ro_last_step = None,
       ro_user_ref = tn_user_ref turn, ro_user_verified = tn_user_verified turn, ro_channel = tn_channel turn,
       ro_error_code = None, ro_started_at = rk_started_at (tn_marker turn), ro_seq = turn_seq turn, ro_wait = None,
       ro_worker =
         (if agentic then \<lparr>wi_id = turn_agent_ref turn ob, wi_name = None, wi_version = wi_version (tn_pack turn)\<rparr> else tn_pack turn),
       ro_path = pt_steps (ob_path ob), ro_path_truncated = pt_truncated (ob_path ob)\<rparr>)"

definition technical_error :: "turn_context \<Rightarrow> observed_turn \<Rightarrow> string option \<Rightarrow> string \<Rightarrow> run_outcome" where
  "technical_error turn ob node code =
     (outcome_of turn ob TechnicalError)\<lparr>ro_last_step := node, ro_error_code := Some code\<rparr>"

definition sanitize_code :: "string \<Rightarrow> string option" where
  "sanitize_code raw =
     (if raw \<noteq> [] \<and> length raw \<le> MAX_ERROR_CODE_LEN \<and>
         list_all (\<lambda>c. ascii_within (CHR ''a'') (CHR ''z'') c \<or> ascii_within (CHR ''0'') (CHR ''9'') c \<or> c = CHR ''_'') raw
      then Some raw else None)"

definition turn_completed :: "turn_context \<Rightarrow> observed_turn \<Rightarrow> json \<Rightarrow> run_outcome" where
  "turn_completed turn ob output =
     (let metadata = json_get ''metadata'' output in
      case Option.bind metadata (get_str ''error_kind'') of
        Some kind \<Rightarrow>
          technical_error turn ob
            (or_else (Option.bind metadata (get_str ''node_id'')) (or_else (ob_failed_node ob) (ob_last_node ob)))
            (unwrap_or FLOW_EXECUTION_FAILED (or_else (ob_failed_class ob) (sanitize_code kind)))
      | None \<Rightarrow> (outcome_of turn ob RunCompleted)\<lparr>ro_last_step := ob_last_node ob\<rparr>)"

definition turn_waiting :: "turn_context \<Rightarrow> observed_turn \<Rightarrow> string option \<Rightarrow> flow_snapshot \<Rightarrow> nat \<Rightarrow> string option \<Rightarrow> run_outcome" where
  "turn_waiting turn ob reason sp now env_ttl =
     (outcome_of turn ob RunInProgress)\<lparr>ro_flow_id := resume_flow_id sp, ro_last_step := Some (sp_next_node sp),
        ro_wait := Some (wait_state_at reason (ob_parked ob) now env_ttl)\<rparr>"

definition chain_text :: "flow_error \<Rightarrow> string" where
  "chain_text e =
     (case map err_display (err_chain e) of
        [] \<Rightarrow> [] | m # ms \<Rightarrow> m @ concat (map (\<lambda>t. CHR 0x0A # ''caused by: '' @ t) ms))"

definition turn_failed :: "turn_context \<Rightarrow> observed_turn \<Rightarrow> flow_error \<Rightarrow> run_outcome" where
  "turn_failed turn ob e =
     (let class = classify_error_text (chain_text e) in
      technical_error turn ob (or_else (ob_failed_node ob) (ob_last_node ob))
        (unwrap_or (if class = ''node_failed'' then FLOW_EXECUTION_FAILED else class) (ob_failed_class ob)))"

subsection \<open>The scope of a turn\<close>

text \<open>
  One inbound turn over all its attempts. The scope is task-local: a world is paired with the scope that is
  open, if any.
\<close>

record turn_scope =
  ts_marker :: "run_marker option"
  ts_pending :: "run_outcome option"
  ts_attempts :: nat

type_synonym 'w scoped = "turn_scope option \<times> 'w"

definition turn_scope_new :: turn_scope where
  "turn_scope_new = \<lparr>ts_marker = None, ts_pending = None, ts_attempts = 0\<rparr>"

record 'w reporter =
  rp_sink :: "run_outcome \<Rightarrow> 'w \<Rightarrow> 'w"
  rp_mint :: "'w \<Rightarrow> (string \<times> string) \<times> 'w"
  rp_now :: "'w \<Rightarrow> nat"
  rp_env_ttl :: "string option"

definition mint_marker :: "'w reporter \<Rightarrow> 'w \<Rightarrow> run_marker \<times> 'w" where
  "mint_marker rp w =
     (case rp_mint rp w of
        ((run_id, started_at), w') \<Rightarrow>
          (\<lparr>rk_run_id = run_id, rk_started_at = started_at, rk_agentic = False, rk_seq = 0, rk_agent_ref = None\<rparr>, w'))"

definition retried_marker :: "'w scoped \<Rightarrow> run_marker option" where
  "retried_marker s = Option.bind (fst s) ts_marker"

definition remember_marker :: "run_marker \<Rightarrow> 'w scoped \<Rightarrow> nat \<times> 'w scoped" where
  "remember_marker marker s =
     (case fst s of
        Some scope \<Rightarrow> (ts_attempts scope, Some (scope\<lparr>ts_marker := Some marker, ts_attempts := sat_add32 (ts_attempts scope) 1\<rparr>), snd s)
      | None \<Rightarrow> (0, s))"

definition report :: "'w reporter \<Rightarrow> run_outcome \<Rightarrow> 'w scoped \<Rightarrow> 'w scoped" where
  "report rp out s = (map_option (\<lambda>scope. scope\<lparr>ts_pending := None\<rparr>) (fst s), rp_sink rp out (snd s))"

definition report_failure :: "'w reporter \<Rightarrow> run_outcome \<Rightarrow> 'w scoped \<Rightarrow> 'w scoped" where
  "report_failure rp out s =
     (case fst s of
        Some scope \<Rightarrow> (Some (scope\<lparr>ts_pending := Some out\<rparr>), snd s)
      | None \<Rightarrow> (None, rp_sink rp out (snd s)))"

subsection \<open>The path is that of the last attempt\<close>

text \<open>What an event does to the path; the path stays short and has no step twice in a row.\<close>

fun path_event :: "run_event \<Rightarrow> step_path \<Rightarrow> step_path" where
  "path_event (NodeStart node flow info) p = path_push node p"
| "path_event (FlowAttempt n) p = path_attempt n p"
| "path_event FlowExit p = path_exit p"
| "path_event _ p = p"

lemma path_of_event: "ob_path (on_event ev seen) = path_event ev (ob_path seen)"
  by (cases ev) simp_all

lemma path_of_events: "ob_path (fold on_event evs seen) = fold path_event evs (ob_path seen)"
  by (induction evs arbitrary: seen) (simp_all add: path_of_event)

definition path_ok :: "step_path \<Rightarrow> bool" where
  "path_ok p \<longleftrightarrow> length (pt_steps p) \<le> MAX_PATH_STEPS \<and> successively (\<noteq>) (pt_steps p)"

lemma successively_take: "successively P xs \<Longrightarrow> successively P (take n xs)"
  by (metis append_take_drop_id successively_append_iff)

lemma path_event_ok: "path_ok p \<Longrightarrow> path_ok (path_event ev p)"
  by (cases ev) (auto simp: path_ok_def path_push_def path_attempt_def path_exit_def Let_def successively_append_iff successively_take
      min.coboundedI1 split: if_splits)

lemma path_events_ok: "path_ok p \<Longrightarrow> path_ok (fold path_event evs p)"
  by (induction evs arbitrary: p) (simp_all add: path_event_ok)

text \<open>
  The events of a walk: its attempts, each with the events of its nodes and the walks of the flows they call, and
  the exit.
\<close>

fun retry_events :: "nat \<Rightarrow> run_event list list \<Rightarrow> run_event list" where
  "retry_events n [] = []"
| "retry_events n (b # bs) = FlowAttempt n # b @ retry_events (Suc n) bs"

definition walk_events :: "run_event list list \<Rightarrow> run_event list" where
  "walk_events bs = retry_events 1 bs @ [FlowExit]"

fun is_node_event :: "run_event \<Rightarrow> bool" where
  "is_node_event (FlowAttempt _) = False"
| "is_node_event FlowExit = False"
| "is_node_event _ = True"

inductive attempt_body :: "run_event list \<Rightarrow> bool" where
  nothing: "attempt_body []"
| node: "is_node_event ev \<Longrightarrow> attempt_body es \<Longrightarrow> attempt_body (ev # es)"
| walk: "bs \<noteq> [] \<Longrightarrow> (\<And>b. b \<in> set bs \<Longrightarrow> attempt_body b) \<Longrightarrow> attempt_body es \<Longrightarrow> attempt_body (walk_events bs @ es)"

definition extends :: "step_path \<Rightarrow> step_path \<Rightarrow> bool" where
  "extends p q \<longleftrightarrow> pt_walks q = pt_walks p \<and> (\<exists>ext. pt_steps q = pt_steps p @ ext)"

lemma retry_rewinds:
  assumes "extends (path_attempt 1 p) q" "1 < n"
  shows "path_attempt n q = path_attempt 1 p"
  using assms by (cases q) (auto simp: extends_def path_attempt_def Let_def)

lemma retry_events_last:
  assumes "\<forall>b \<in> set bs. extends (path_attempt 1 p) (fold path_event b (path_attempt 1 p))"
    and "extends (path_attempt 1 p) q" "1 < n" "bs \<noteq> []"
  shows "fold path_event (retry_events n bs) q = fold path_event (last bs) (path_attempt 1 p)"
  using assms
proof (induction bs arbitrary: n q)
  case (Cons b bs)
  have "path_attempt n q = path_attempt 1 p" using retry_rewinds Cons.prems(2,3) by blast
  with Cons show ?case by (cases "bs = []") simp_all
qed simp

lemma walk_last:
  assumes "bs \<noteq> []" "\<forall>b \<in> set bs. extends (path_attempt 1 p) (fold path_event b (path_attempt 1 p))"
  shows "fold path_event (walk_events bs) p = path_exit (fold path_event (last bs) (path_attempt 1 p))"
proof (cases bs)
  case (Cons b cs)
  show ?thesis
  proof (cases "cs = []")
    case False
    with retry_events_last [of cs p "fold path_event b (path_attempt 1 p)" 2] assms(2) Cons show ?thesis
      by (simp add: walk_events_def eval_nat_numeral)
  qed (simp add: Cons walk_events_def)
qed (use assms in simp)

lemma exit_extends: "extends (path_attempt 1 p) q \<Longrightarrow> extends p (path_exit q)"
  by (auto simp: extends_def path_attempt_def path_exit_def)

lemma extends_trans: "extends p q \<Longrightarrow> extends q r \<Longrightarrow> extends p r"
  by (auto simp: extends_def)

lemma body_extends: "attempt_body es \<Longrightarrow> extends p (fold path_event es p)"
proof (induction es arbitrary: p rule: attempt_body.induct)
  case nothing
  then show ?case by (simp add: extends_def)
next
  case (node ev es)
  have "extends p (path_event ev p)" using node.hyps(1) by (cases ev) (auto simp: extends_def path_push_def)
  with node.IH show ?case by (auto intro: extends_trans)
next
  case (walk bs es)
  have "extends (path_attempt 1 p) (fold path_event b (path_attempt 1 p))" if "b \<in> set bs" for b
    using walk.IH(1) that by blast
  then have "extends p (fold path_event (walk_events bs) p)"
    using walk_last [of bs p] walk.hyps(1) exit_extends by (metis last_in_set)
  with walk.IH(2) show ?case by (auto intro: extends_trans)
qed

lemma walk_path:
  assumes "bs \<noteq> []" "\<And>b. b \<in> set bs \<Longrightarrow> attempt_body b"
  shows "fold path_event (walk_events bs) p = fold path_event (walk_events [last bs]) p"
  using assms by (simp add: walk_last body_extends)

text \<open>The nodes an attempt has started, in order.\<close>

fun started :: "run_event list \<Rightarrow> string list" where
  "started [] = []"
| "started (NodeStart i flow info # evs) = i # started evs"
| "started (_ # evs) = started evs"

lemma path_of_nodes: "list_all is_node_event evs \<Longrightarrow> fold path_event evs p = fold path_push (started evs) p"
proof (induction evs arbitrary: p)
  case (Cons ev evs)
  then show ?case by (cases ev) simp_all
qed simp

lemma remdups_adj_snoc: "remdups_adj (xs @ [x]) = (if xs \<noteq> [] \<and> last xs = x then remdups_adj xs else remdups_adj xs @ [x])"
  by (cases "xs = []") (simp_all add: remdups_adj_append'')

lemma pushed_path:
  assumes "pt_steps p = []" "\<not> pt_truncated p"
  shows "pt_steps (fold path_push xs p) = take MAX_PATH_STEPS (remdups_adj xs) \<and>
    (pt_truncated (fold path_push xs p) \<longleftrightarrow> MAX_PATH_STEPS < length (remdups_adj xs))"
proof (induction xs rule: rev_induct)
  case Nil
  with assms show ?case by simp
next
  case (snoc x xs)
  have last: "last (remdups_adj xs) = last xs" if "xs \<noteq> []" using that by simp
  show ?case
  proof (cases "length (remdups_adj xs) \<le> MAX_PATH_STEPS")
    case True
    with snoc last show ?thesis by (auto simp: remdups_adj_snoc path_push_def)
  next
    case False
    with snoc show ?thesis by (auto simp: remdups_adj_snoc path_push_def)
  qed
qed

subsection \<open>Markers\<close>

lemma marker_after_fields:
  "rk_run_id (marker_after turn ob) = rk_run_id (tn_marker turn)"
  "rk_started_at (marker_after turn ob) = rk_started_at (tn_marker turn)"
  "rk_seq (marker_after turn ob) = turn_seq turn"
  by (simp_all add: marker_after_def)

lemma outcome_fields [simp]:
  "ro_run_id (outcome_of turn ob st) = rk_run_id (tn_marker turn)" "ro_seq (outcome_of turn ob st) = turn_seq turn"
  by (simp_all add: outcome_of_def Let_def)

lemma report_numbers:
  "ro_run_id (turn_completed turn ob output) = rk_run_id (tn_marker turn)" "ro_seq (turn_completed turn ob output) = turn_seq turn"
  "ro_run_id (turn_waiting turn ob reason sp now ttl) = rk_run_id (tn_marker turn)"
  "ro_seq (turn_waiting turn ob reason sp now ttl) = turn_seq turn"
  "ro_run_id (turn_failed turn ob e) = rk_run_id (tn_marker turn)" "ro_seq (turn_failed turn ob e) = turn_seq turn"
  by (simp_all add: turn_completed_def turn_waiting_def turn_failed_def technical_error_def Let_def split: option.splits)

end
