(* ===== verification/Pack_Flow.thy ===== *)
theory Pack_Flow
  imports Run_Outcome Flow_Turns
begin

section \<open>The pack-flow adapter and the runtime\<close>

text \<open>
  \<open>PackFlowAdapter\<close> and \<open>StateMachineRuntime\<close> of \<open>crates/greentic-runner-host/src/engine/runtime.rs\<close>: a message is an
  ingress envelope; the adapter reads the park that the envelope addresses, resumes it or starts the flow, reports
  the turn, and clears the park or saves the new one. The runtime runs the adapter as the only step of each flow of
  the state machine. The world of the state machine is the world of the engine with the scope of the turn in front.
  The trace recorder, which observes the run, and the telemetry spans are left out; what the engine tells an observer
  during a run is the argument \<open>pk_events\<close>.
\<close>

record 'w pack_adapter =
  pk_tenant :: string
  pk_engine :: "'w flow_engine"
  pk_flows :: "flow_descriptor list"
  pk_resume :: "'w resume_store"
  pk_max_attempts :: nat
  pk_platform :: "'w platform"
  pk_reporter :: "'w reporter option"
  pk_events :: "'w \<Rightarrow> 'w \<Rightarrow> run_event list"
  pk_identity :: "string \<Rightarrow> (string \<times> string option \<times> string) option"

subsection \<open>The snapshot in the outcome\<close>

definition hash_json :: "('v \<Rightarrow> json) \<Rightarrow> (string \<times> 'v) list \<Rightarrow> json" where
  "hash_json f m = json_obj (map (\<lambda>(k, v). (k, f v)) m)"

definition opt_json :: "string option \<Rightarrow> json" where
  "opt_json s = (case s of None \<Rightarrow> JNull | Some t \<Rightarrow> JString t)"

definition node_output_json :: "node_output \<Rightarrow> json" where
  "node_output_json out = json_obj [(''ok'', JBool (no_ok out)), (''payload'', no_payload out), (''meta'', no_meta out)]"

definition exec_state_json :: "exec_state \<Rightarrow> json" where
  "exec_state_json st =
     json_obj (present
       [(''entry'', Some (xs_entry st)), (''input'', Some (xs_input st)),
        (''nodes'', Some (hash_json node_output_json (xs_nodes st))),
        (''node_order'', if xs_node_order st = [] then None else Some (JArray (map JString (xs_node_order st)))),
        (''egress'', Some (JArray (xs_egress st))), (''last_output'', xs_last_output st),
        (''redirect_count'', Some (JInt (int (xs_redirect_count st)))), (''vars'', Some (JObject (xs_vars st))),
        (''park_turns'', Some (hash_json (\<lambda>n. JInt (int n)) (xs_park_turns st))),
        (''pending_agent_await'', Some (hash_json (\<lambda>_. JNull) (xs_agent_await st))),
        (''pending_approval_await'', Some (hash_json opt_json (xs_approval_await st))),
        (''pending_approval_token'', Some (hash_json JString (xs_approval_token st))),
        (''pending_tool_await'', Some (hash_json (\<lambda>_. JNull) (xs_tool_await st))),
        (''pending_card_answers'',
           map_option (\<lambda>c. json_obj [(''node_id'', JString (pc_node_id c)), (''answers'', JObject (pc_answers c))]) (xs_card_answers st)),
        (''resumed_at'', map_option JString (xs_resumed_at st))])"

definition snapshot_json :: "flow_snapshot \<Rightarrow> json" where
  "snapshot_json sp =
     json_obj (present
       [(''pack_id'', Some (JString (sp_pack_id sp))), (''flow_id'', Some (JString (sp_flow_id sp))),
        (''next_flow'', map_option JString (sp_next_flow sp)), (''next_node'', Some (JString (sp_next_node sp))),
        (''awaiting_submit'', Some (JBool (sp_awaiting_submit sp))), (''state'', Some (exec_state_json (sp_state sp)))])"

definition parked_outcome :: "types_lib \<Rightarrow> string option \<Rightarrow> flow_snapshot \<Rightarrow> wait_scope \<Rightarrow> json \<Rightarrow> json" where
  "parked_outcome ty reason sp scope output =
     json_obj
       [(''status'', JString ''pending''), (''reason'', opt_json reason), (''resume'', snapshot_json sp),
        (''reply_scope'', ty_scope_json ty scope), (''response'', output)]"

subsection \<open>Errors\<close>

fun runner_display :: "runner_error \<Rightarrow> string" where
  "runner_display (FlowNotFound f) = ''flow '' @ [CHR 0x27] @ f @ [CHR 0x27] @ '' not registered''"
| "runner_display (AdapterMissing a) = ''adapter '' @ [CHR 0x27] @ a @ [CHR 0x27] @ '' not registered''"
| "runner_display (AdapterCallFailed m) = ''adapter call failed: '' @ m"
| "runner_display (SessionErr m) = ''session error: '' @ m"
| "runner_display (StateErr m) = ''state error: '' @ m"
| "runner_display (PolicyErr m) = ''policy violation: '' @ m"
| "runner_display (TelemetryErr m) = ''telemetry error: '' @ m"
| "runner_display (SecretsErr m) = ''secret error: '' @ m"
| "runner_display (SerializationErr m) = ''serialization error: '' @ m"
| "runner_display (PostEffectPersistence m) = ''persisting flow state after execution failed: '' @ m"
| "runner_display (FlowTerminal m) = ''adapter call failed: '' @ m"

definition full_text :: "flow_error \<Rightarrow> string" where
  "full_text e =
     (case map err_display (err_chain e) of [] \<Rightarrow> [] | m # ms \<Rightarrow> m @ concat (map (\<lambda>t. '': '' @ t) ms))"

definition classify_flow_error :: "flow_error \<Rightarrow> runner_error" where
  "classify_flow_error e =
     (if is_terminal_flow_error e then FlowTerminal (full_text e) else AdapterCallFailed (full_text e))"

definition persist_after_effects :: "'w platform \<Rightarrow> ('w, runner_error, 'a) st_res \<Rightarrow> ('w, runner_error, 'a) st_res" where
  "persist_after_effects pf op =
     smap_err (\<lambda>e. PostEffectPersistence (runner_display e)) (retry_with_jitter pf retry_policy_default op)"

subsection \<open>One turn of the adapter\<close>

definition flow_by_key :: "flow_descriptor list \<Rightarrow> string \<Rightarrow> string \<Rightarrow> flow_descriptor option" where
  "flow_by_key flows pack_id flow_id = find (\<lambda>d. ds_pack_id d = pack_id \<and> ds_id d = flow_id) flows"

definition flow_by_id :: "flow_descriptor list \<Rightarrow> string \<Rightarrow> flow_descriptor option" where
  "flow_by_id flows flow_id = (case filter (\<lambda>d. ds_id d = flow_id) flows of [d] \<Rightarrow> Some d | _ \<Rightarrow> None)"

definition effective_flow :: "string \<Rightarrow> flow_snapshot option \<Rightarrow> string" where
  "effective_flow operation parked = (case parked of Some sp \<Rightarrow> resume_flow_id sp | None \<Rightarrow> operation)"

definition effective_pack ::
  "flow_descriptor list \<Rightarrow> ingress_envelope \<Rightarrow> string \<Rightarrow> flow_snapshot option \<Rightarrow> (runner_error, string) result" where
  "effective_pack flows e flow_id parked =
     (case parked of
        Some sp \<Rightarrow> Inr (sp_pack_id sp)
      | None \<Rightarrow>
          (case ie_pack_id e of
             Some pack_id \<Rightarrow>
               if flow_by_key flows pack_id flow_id = None
               then Inl (AdapterCallFailed (''flow '' @ flow_id @ '' not registered for pack '' @ pack_id))
               else Inr pack_id
           | None \<Rightarrow>
               (case flow_by_id flows flow_id of
                  Some d \<Rightarrow> Inr (ds_pack_id d)
                | None \<Rightarrow> Inl (AdapterCallFailed (''flow '' @ flow_id @ '' is ambiguous; pack_id is required'')))))"

definition CALLER_EXT_KEY :: string where "CALLER_EXT_KEY = ''caller''"

definition caller_block :: "json \<Rightarrow> json option" where
  "caller_block payload =
     (case Option.bind (json_get ''extensions'' payload) (json_get CALLER_EXT_KEY) of
        Some b \<Rightarrow> if is_object b then Some b else None | None \<Rightarrow> None)"

definition session_of :: "ingress_envelope \<Rightarrow> string" where
  "session_of e = unwrap_or (envelope_hint e) (ie_session_hint e)"

definition turn_flow_ctx :: "'w pack_adapter \<Rightarrow> ingress_envelope \<Rightarrow> string \<Rightarrow> string \<Rightarrow> flow_ctx" where
  "turn_flow_ctx ad e flow_id pack_id =
     \<lparr>fc_tenant = pk_tenant ad, fc_pack_id = pack_id, fc_flow_id = flow_id, fc_session_id = Some (session_of e),
      fc_provider_id = ie_provider e, fc_reply_scope = map_option reply_scope.truncate (ie_reply_scope e),
      fc_max_attempts = max 1 (pk_max_attempts ad), fc_attempt = 1, fc_caller = caller_block (ie_payload e)\<rparr>"

text \<open>Open the run of the turn: an earlier attempt's marker, else the one stored with the park, else a new one.\<close>

definition open_turn ::
  "'w pack_adapter \<Rightarrow> 'w reporter \<Rightarrow> ingress_envelope \<Rightarrow> run_marker option \<Rightarrow> string \<Rightarrow> string \<Rightarrow> 'w scoped \<Rightarrow> turn_context \<times> 'w scoped" where
  "open_turn ad rp e resume_run flow_id pack_id s =
     (let (marker, s) = (case or_else (retried_marker s) resume_run of
            Some m \<Rightarrow> (m, s) | None \<Rightarrow> (case mint_marker rp (snd s) of (m, w) \<Rightarrow> (m, fst s, w)));
          turn = turn_begin e (caller_block (ie_payload e)) marker flow_id;
          turn = (case pk_identity ad pack_id of Some (i, name, version) \<Rightarrow> with_pack i name version turn | None \<Rightarrow> turn);
          (retries, s) = remember_marker marker s
      in (turn\<lparr>tn_retries := retries\<rparr>, s))"

definition run_turn ::
  "'w pack_adapter \<Rightarrow> ingress_envelope \<Rightarrow> flow_ctx \<Rightarrow> flow_snapshot option \<Rightarrow> ('w, flow_error, flow_execution) st_res" where
  "run_turn ad e ctx parked =
     (case parked of
        Some sp \<Rightarrow>
          resume_surfacing_failures (pk_engine ad) (ctx\<lparr>fc_pack_id := sp_pack_id sp, fc_flow_id := resume_flow_id sp\<rparr>) sp (ie_payload e)
      | None \<Rightarrow>
          (case ie_entry_node e of
             Some entry \<Rightarrow> execute_from (pk_engine ad) ctx (ie_payload e) entry
           | None \<Rightarrow> execute (pk_engine ad) ctx (ie_payload e)))"

text \<open>After the run: the failure, the end of the flow, or the park.\<close>

definition fail_turn ::
  "'w pack_adapter \<Rightarrow> ingress_envelope \<Rightarrow> turn_context option \<Rightarrow> bool \<Rightarrow> observed_turn \<Rightarrow> flow_error \<Rightarrow> 'w scoped \<Rightarrow> 'w scoped" where
  "fail_turn ad e turn was_resume ob err s =
     (case (pk_reporter ad, turn) of
        (Some rp, Some turn) \<Rightarrow>
          (case report_failure rp (turn_failed turn ob err) s of
             (scope, w) \<Rightarrow>
               if was_resume then (scope, snd (restamp_run (pk_resume ad) e (marker_after turn ob) w)) else (scope, w))
      | _ \<Rightarrow> s)"

definition report_turn :: "'w pack_adapter \<Rightarrow> turn_context option \<Rightarrow> (turn_context \<Rightarrow> 'w reporter \<Rightarrow> 'w \<Rightarrow> run_outcome) \<Rightarrow> 'w scoped \<Rightarrow> 'w scoped" where
  "report_turn ad turn f s =
     (case (pk_reporter ad, turn) of (Some rp, Some turn) \<Rightarrow> report rp (f turn rp (snd s)) s | _ \<Rightarrow> s)"

definition in_turn :: "('w, 'e, 'a) st_res \<Rightarrow> ('w scoped, 'e, 'a) st_res" where
  "in_turn m = (\<lambda>(scope, w). case m w of (r, w') \<Rightarrow> (r, scope, w'))"

definition finish_turn_run ::
  "'w pack_adapter \<Rightarrow> ingress_envelope \<Rightarrow> turn_context option \<Rightarrow> observed_turn \<Rightarrow> flow_execution \<Rightarrow>
   ('w scoped, runner_error, json \<times> node_map) st_res" where
  "finish_turn_run ad e turn ob x s =
     (case fx_status x of
        FlowCompleted \<Rightarrow>
          sbind (in_turn (persist_after_effects (pk_platform ad) (clear_parked (pk_resume ad) e)))
            (\<lambda>_. sret (fx_output x, fx_node_outputs x))
            (report_turn ad turn (\<lambda>turn rp w. turn_completed turn ob (fx_output x)) s)
      | FlowWaiting reason sp \<Rightarrow>
          sbind (in_turn (persist_after_effects (pk_platform ad)
              (save_with_run (pk_resume ad) e reason sp (map_option (\<lambda>turn. marker_after turn ob) turn)))) (\<lambda>scope s.
            (Inr (parked_outcome (fr_ty (pk_resume ad)) reason sp scope (fx_output x), fx_node_outputs x),
             report_turn ad turn (\<lambda>turn rp w. turn_waiting turn ob reason sp (rp_now rp w) (rp_env_ttl rp)) s)) s)"

definition start_turn ::
  "'w pack_adapter \<Rightarrow> ingress_envelope \<Rightarrow> (flow_snapshot \<times> run_marker option) option \<Rightarrow> string \<Rightarrow> string \<Rightarrow> 'w scoped \<Rightarrow>
   turn_context option \<times> 'w scoped" where
  "start_turn ad e found flow_id pack_id s =
     (case pk_reporter ad of
        None \<Rightarrow> (None, s)
      | Some rp \<Rightarrow> (case open_turn ad rp e (Option.bind found snd) flow_id pack_id s of (turn, s') \<Rightarrow> (Some turn, s')))"

definition settle_turn ::
  "'w pack_adapter \<Rightarrow> ingress_envelope \<Rightarrow> turn_context option \<Rightarrow> bool \<Rightarrow> observed_turn \<Rightarrow> flow_error + flow_execution \<Rightarrow>
   ('w scoped, runner_error, json \<times> node_map) st_res" where
  "settle_turn ad e turn was_resume ob r s =
     (case r of
        Inl err \<Rightarrow> (Inl (classify_flow_error err), fail_turn ad e turn was_resume ob err s)
      | Inr x \<Rightarrow> finish_turn_run ad e turn ob x s)"

definition turn_observed :: "'w pack_adapter \<Rightarrow> turn_context option \<Rightarrow> 'w \<Rightarrow> 'w \<Rightarrow> observed_turn" where
  "turn_observed ad turn w w' = (if turn = None then observed_new else observe (pk_events ad w w'))"

definition resume_or_start ::
  "'w pack_adapter \<Rightarrow> string \<Rightarrow> ingress_envelope \<Rightarrow> (flow_snapshot \<times> run_marker option) option \<Rightarrow>
   ('w scoped, runner_error, json \<times> node_map) st_res" where
  "resume_or_start ad operation e found s0 =
     (let parked = map_option fst found; flow_id = effective_flow operation parked in
      case effective_pack (pk_flows ad) e flow_id parked of
        Inl err \<Rightarrow> (Inl err, s0)
      | Inr pack_id \<Rightarrow>
          (case start_turn ad e found flow_id pack_id s0 of
             (turn, scope, w) \<Rightarrow>
               (case run_turn ad e (turn_flow_ctx ad e flow_id pack_id) parked w of
                  (r, w') \<Rightarrow> settle_turn ad e turn (parked \<noteq> None) (turn_observed ad turn w w') r (scope, w'))))"

definition call_traced_unlocked :: "'w pack_adapter \<Rightarrow> 'w scoped adapter" where
  "call_traced_unlocked ad call =
     sbind (sres (map_err (\<lambda>m. AdapterCallFailed (''invalid ingress payload: '' @ m))
         (envelope_of_json (fr_ty (pk_resume ad)) (ac_payload call)))) (\<lambda>e0.
       let e = canonicalize e0 in
       sbind (in_turn (fetch_with_run (pk_resume ad) e)) (resume_or_start ad (ac_operation call) e))"

definition turn_key_for_payload :: "types_lib \<Rightarrow> json \<Rightarrow> string option" where
  "turn_key_for_payload ty payload =
     (case envelope_of_json ty payload of
        Inl _ \<Rightarrow> None
      | Inr e \<Rightarrow> (case turn_key ty (canonicalize e) of Inl _ \<Rightarrow> None | Inr k \<Rightarrow> Some k))"

subsection \<open>The runtime\<close>

text \<open>The platform of the state machine, over the world with a scope in front.\<close>

definition scoped_platform :: "'w platform \<Rightarrow> 'w scoped platform" where
  "scoped_platform pf =
     \<lparr>pf_now = (\<lambda>s. pf_now pf (snd s)),
      pf_random = (\<lambda>n s. case pf_random pf n (snd s) of (x, w) \<Rightarrow> (x, fst s, w)),
      pf_sleep = (\<lambda>n s. (fst s, pf_sleep pf n (snd s))), pf_to_vec = pf_to_vec pf, pf_sha256_hex = pf_sha256_hex pf\<rparr>"

definition from_flow_engine ::
  "'w pack_adapter \<Rightarrow> 's session_ops \<Rightarrow> 't state_ops \<Rightarrow> runner_error + ('s, 't, 'w scoped) state_machine" where
  "from_flow_engine ad session state =
     build_runner (scoped_platform (pk_platform ad))
       (fold with_flow (build_flow_definitions (pk_flows ad))
         (with_policy policy_default
           (with_adapters (register_adapter pack_flow_adapter (call_traced_unlocked ad) [])
             (with_host \<lparr>hb_emit = (\<lambda>_ _. sret ()), hb_session = session, hb_state = state\<rparr> builder_new))))"

text \<open>\<open>scoped\<close>: open a scope, run the turn, report the failure it left when it failed.\<close>

definition scoped_turn ::
  "'w reporter \<Rightarrow> (('s, 't, 'w scoped) hosts, 'e, 'a) st_res \<Rightarrow> (('s, 't, 'w scoped) hosts, 'e, 'a) st_res" where
  "scoped_turn rp turn =
     (\<lambda>(s, t, outer, w). case turn (s, t, Some turn_scope_new, w) of
        (r, s', t', scope, w') \<Rightarrow>
          (r, s', t', outer,
           case (r, Option.bind scope ts_pending) of (Inl _, Some out) \<Rightarrow> rp_sink rp out w' | _ \<Rightarrow> w'))"

definition run_flow_for ::
  "'w pack_adapter \<Rightarrow> ('s, 't, 'w scoped) state_machine \<Rightarrow> ingress_envelope \<Rightarrow> (('s, 't, 'w scoped) hosts, string, run_flow_result) st_res" where
  "run_flow_for ad m e =
     sbind (sres (map_err runner_display (envelope_ctx (fr_ty (pk_resume ad)) e))) (\<lambda>ctx.
     sbind (sres (ok_or ''pack_id missing; ingress must specify pack_id for multi-pack flows'' (ie_pack_id e))) (\<lambda>pack_id.
       let run = run_flow m
             \<lparr>rr_tenant = tenant_ctx.truncate ctx, rr_pack_id = pack_id, rr_flow_id = ie_flow_id e,
              rr_input = envelope_json (fr_ty (pk_resume ad)) e, rr_session_hint = Some (session_of e)\<rparr>
       in smap_err (\<lambda>err. ''flow execution failed: '' @ runner_display err)
            (case pk_reporter ad of Some rp \<Rightarrow> scoped_turn rp run | None \<Rightarrow> run)))"

definition response_of :: "json \<Rightarrow> json" where
  "response_of outcome = unwrap_or outcome (json_get ''response'' outcome)"

definition handle_traced ::
  "'w pack_adapter \<Rightarrow> ('s, 't, 'w scoped) state_machine \<Rightarrow> ingress_envelope \<Rightarrow> (('s, 't, 'w scoped) hosts, string, json \<times> json) st_res" where
  "handle_traced ad m e =
     sbind (run_flow_for ad m e) (\<lambda>result. sret (response_of (rf_outcome result), rf_node_outputs result))"

definition handle ::
  "'w pack_adapter \<Rightarrow> ('s, 't, 'w scoped) state_machine \<Rightarrow> ingress_envelope \<Rightarrow> (('s, 't, 'w scoped) hosts, string, json) st_res" where
  "handle ad m e = sbind (run_flow_for ad m e) (\<lambda>result. sret (response_of (rf_outcome result)))"

definition parked_approvals ::
  "'w resume_store option \<Rightarrow> ingress_envelope \<Rightarrow> ('w, string, parked_approval list option) st_res" where
  "parked_approvals resume e =
     (case resume of
        None \<Rightarrow> sret None
      | Some rs \<Rightarrow>
          sbind (smap_err (\<lambda>m. ''failed to read the parked flow: '' @ runner_display m) (fetch_parked rs (canonicalize e))) (\<lambda>sp.
          sret (map_option (\<lambda>sp. pending_approvals (sp_state sp)) sp)))"

definition turn_lock_key :: "'w resume_store option \<Rightarrow> ingress_envelope \<Rightarrow> string option" where
  "turn_lock_key resume e =
     (case resume of
        None \<Rightarrow> None
      | Some rs \<Rightarrow> (case turn_key (fr_ty rs) (canonicalize e) of Inl _ \<Rightarrow> None | Inr k \<Rightarrow> Some k))"

end
