(* ===== verification/Pack_Turns.thy ===== *)
theory Pack_Turns
  imports Pack_Flow Engine_Effects
begin

section \<open>Turns over the park of a session\<close>

text \<open>
  What a turn of the pack-flow adapter does to the park its envelope addresses.
\<close>

subsection \<open>Stages of a turn\<close>

lemma call_stages:
  assumes "call_traced_unlocked ad call (scope, w) = (r, s')"
  obtains (bad) m where "envelope_of_json (fr_ty (pk_resume ad)) (ac_payload call) = Inl m"
      "r = Inl (AdapterCallFailed (''invalid ingress payload: '' @ m))" "s' = (scope, w)"
    | (unread) e0 err w1 where "envelope_of_json (fr_ty (pk_resume ad)) (ac_payload call) = Inr e0"
      "fetch_with_run (pk_resume ad) (canonicalize e0) w = (Inl err, w1)" "r = Inl err" "s' = (scope, w1)"
    | (unknown) e0 found w1 err where "envelope_of_json (fr_ty (pk_resume ad)) (ac_payload call) = Inr e0"
      "fetch_with_run (pk_resume ad) (canonicalize e0) w = (Inr found, w1)"
      "effective_pack (pk_flows ad) (canonicalize e0) (effective_flow (ac_operation call) (map_option fst found)) (map_option fst found) = Inl err"
      "r = Inl err" "s' = (scope, w1)"
    | (ran) e0 found w1 pack turn scope2 w2 x w3 where "envelope_of_json (fr_ty (pk_resume ad)) (ac_payload call) = Inr e0"
      "fetch_with_run (pk_resume ad) (canonicalize e0) w = (Inr found, w1)"
      "effective_pack (pk_flows ad) (canonicalize e0) (effective_flow (ac_operation call) (map_option fst found)) (map_option fst found) = Inr pack"
      "start_turn ad (canonicalize e0) found (effective_flow (ac_operation call) (map_option fst found)) pack (scope, w1) = (turn, scope2, w2)"
      "run_turn ad (canonicalize e0) (turn_flow_ctx ad (canonicalize e0) (effective_flow (ac_operation call) (map_option fst found)) pack)
         (map_option fst found) w2 = (x, w3)"
      "settle_turn ad (canonicalize e0) turn (found \<noteq> None) (turn_observed ad turn w2 w3) x (scope2, w3) = (r, s')"
proof (cases "envelope_of_json (fr_ty (pk_resume ad)) (ac_payload call)")
  case (Inl m)
  with assms bad show ?thesis by (simp add: call_traced_unlocked_def map_err_def)
next
  case parsed: (Inr e0)
  let ?e = "canonicalize e0"
  obtain q w1 where fetch: "fetch_with_run (pk_resume ad) ?e w = (q, w1)" by (metis surj_pair)
  show ?thesis
  proof (cases q)
    case (Inl err)
    with assms parsed fetch unread show ?thesis by (simp add: call_traced_unlocked_def map_err_def in_turn_def sbind_def sres_def Let_def)
  next
    case found: (Inr found)
    let ?p = "map_option fst found" let ?f = "effective_flow (ac_operation call) ?p"
    have stage: "resume_or_start ad (ac_operation call) ?e found (scope, w1) = (r, s')"
      using assms parsed fetch found by (simp add: call_traced_unlocked_def map_err_def in_turn_def sbind_def Let_def)
    show ?thesis
    proof (cases "effective_pack (pk_flows ad) ?e ?f ?p")
      case (Inl err)
      with stage have "r = Inl err" "s' = (scope, w1)" by (simp_all add: resume_or_start_def Let_def)
      with unknown [OF parsed fetch [unfolded found] Inl] show ?thesis by blast
    next
      case (Inr pack)
      obtain turn scope2 w2 where st: "start_turn ad ?e found ?f pack (scope, w1) = (turn, scope2, w2)" by (metis prod_cases3)
      obtain x w3 where run: "run_turn ad ?e (turn_flow_ctx ad ?e ?f pack) ?p w2 = (x, w3)" by (metis surj_pair)
      have "settle_turn ad ?e turn (found \<noteq> None) (turn_observed ad turn w2 w3) x (scope2, w3) = (r, s')"
        using stage Inr st run by (simp add: resume_or_start_def Let_def)
      with ran [OF parsed fetch [unfolded found] Inr st run] show ?thesis by blast
    qed
  qed
qed

lemma persist_ok:
  assumes "persist_after_effects pf op w = (Inr a, w')"
  shows "\<exists>v. op v = (Inr a, w')"
proof -
  have "retry_loop pf retry_policy_default op 0 w = (Inr a, w')"
    using assms by (auto simp: persist_after_effects_def retry_with_jitter_def smap_err_def map_err_def split: sum.splits prod.splits)
  with retry_loop_attempts [of 0 retry_policy_default pf op w] show ?thesis by (force simp: retry_policy_default_def)
qed

lemma persist_failed: "persist_after_effects pf op w = (Inl err, w') \<Longrightarrow> \<exists>m. err = PostEffectPersistence m"
  by (auto simp: persist_after_effects_def smap_err_def map_err_def split: sum.splits prod.splits)

lemma in_turn_eq: "in_turn m (scope, w) = (r, s') \<longleftrightarrow> (\<exists>w'. m w = (r, w') \<and> s' = (scope, w'))"
  by (auto simp: in_turn_def split: prod.splits)

lemma finish_stages:
  assumes "finish_turn_run ad e turn ob x (scope, w) = (r, scope', w')"
  shows "(\<exists>m. r = Inl (PostEffectPersistence m)) \<or>
    (case fx_status x of
       FlowCompleted \<Rightarrow> r = Inr (fx_output x, fx_node_outputs x) \<and> (\<exists>v. clear_parked (pk_resume ad) e v = (Inr (), w'))
     | FlowWaiting reason sp \<Rightarrow>
         \<exists>sc v v'. save_with_run (pk_resume ad) e reason sp (map_option (\<lambda>turn. marker_after turn ob) turn) v = (Inr sc, v') \<and>
           r = Inr (parked_outcome (fr_ty (pk_resume ad)) reason sp sc (fx_output x), fx_node_outputs x) \<and>
           (w' = v' \<or> (\<exists>rp out. pk_reporter ad = Some rp \<and> w' = rp_sink rp out v')))"
proof (cases "fx_status x")
  case FlowCompleted
  obtain scope1 w1 where rep: "report_turn ad turn (\<lambda>turn rp w. turn_completed turn ob (fx_output x)) (scope, w) = (scope1, w1)"
    by (metis surj_pair)
  obtain q w2 where "persist_after_effects (pk_platform ad) (clear_parked (pk_resume ad) e) w1 = (q, w2)" by (metis surj_pair)
  with assms FlowCompleted rep show ?thesis
    by (cases q) (auto simp: finish_turn_run_def sbind_def in_turn_def sret_def dest: persist_failed persist_ok)
next
  case (FlowWaiting reason sp)
  obtain q w2 where p: "persist_after_effects (pk_platform ad)
      (save_with_run (pk_resume ad) e reason sp (map_option (\<lambda>turn. marker_after turn ob) turn)) w = (q, w2)" by (metis surj_pair)
  show ?thesis
  proof (cases q)
    case (Inl err)
    with assms FlowWaiting p persist_failed [of _ _ w err w2] show ?thesis by (auto simp: finish_turn_run_def sbind_def in_turn_def)
  next
    case (Inr sc)
    with assms FlowWaiting p have "r = Inr (parked_outcome (fr_ty (pk_resume ad)) reason sp sc (fx_output x), fx_node_outputs x)"
      "w' = w2 \<or> (\<exists>rp out. pk_reporter ad = Some rp \<and> w' = rp_sink rp out w2)"
      by (auto simp: finish_turn_run_def sbind_def in_turn_def report_turn_def report_def split: option.splits)
    moreover obtain v where "save_with_run (pk_resume ad) e reason sp (map_option (\<lambda>turn. marker_after turn ob) turn) v = (Inr sc, w2)"
      using persist_ok [OF p [unfolded Inr]] by blast
    ultimately show ?thesis using FlowWaiting by simp metis
  qed
qed

subsection \<open>What a turn does to the park\<close>

text \<open>The report of a turn leaves the waits of the session store alone.\<close>

definition reports_apart :: "'w pack_adapter \<Rightarrow> 'w wait_view \<Rightarrow> bool" where
  "reports_apart ad waits \<longleftrightarrow>
     (\<forall>rp. pk_reporter ad = Some rp \<longrightarrow> (\<forall>out w. waits (rp_sink rp out w) = waits w) \<and> (\<forall>w. waits (snd (rp_mint rp w)) = waits w))"

lemma open_turn_waits:
  assumes "reports_apart ad waits" "pk_reporter ad = Some rp" "open_turn ad rp e run flow pack (scope, w) = (turn, scope', w')"
  shows "waits w' = waits w"
proof -
  have "waits (snd (mint_marker rp w)) = waits w"
    using assms(1,2) by (auto simp: reports_apart_def mint_marker_def split: prod.splits) (metis snd_conv)
  with assms(3) show ?thesis
    by (auto simp: open_turn_def remember_marker_def Let_def split: option.splits prod.splits)
qed

lemma start_turn_waits:
  assumes "reports_apart ad waits" "start_turn ad e found flow pack (scope, w) = (turn, scope', w')"
  shows "waits w' = waits w" and "turn = None \<longleftrightarrow> pk_reporter ad = None"
  using assms open_turn_waits [OF assms(1)] by (auto simp: start_turn_def split: option.splits prod.splits)

text \<open>
  The contract of a turn, over the park before it: the flow resumes the park or starts afresh, and afterwards the park
  is gone, or it is the one the flow waits with, or, when the run failed, the one from before with at most
  another run marker.
\<close>

definition turn_contract ::
  "'w pack_adapter \<Rightarrow> 'w wait_view \<Rightarrow> ingress_envelope \<Rightarrow> flow_error + flow_execution \<Rightarrow> 'w \<Rightarrow> runner_error + (json \<times> node_map) \<Rightarrow> 'w \<Rightarrow> bool" where
  "turn_contract ad waits e x w r w' \<longleftrightarrow>
     (let rs = pk_resume ad in
      case x of
        Inr fx \<Rightarrow>
          (\<exists>m. r = Inl (PostEffectPersistence m)) \<or>
          (case fx_status fx of
             FlowCompleted \<Rightarrow> r = Inr (fx_output fx, fx_node_outputs fx) \<and> park_of rs (waits w') e = None
           | FlowWaiting reason sp \<Rightarrow>
               \<exists>sc run. r = Inr (parked_outcome (fr_ty rs) reason sp sc (fx_output fx), fx_node_outputs fx) \<and>
                 (run = None \<longleftrightarrow> pk_reporter ad = None) \<and>
                 park_of rs (waits w') e = Some (persisted \<lparr>rc_snapshot = sp, rc_reason = reason, rc_run = run\<rparr>))
      | Inl err \<Rightarrow>
          r = Inl (classify_flow_error err) \<and>
          (waits w' = waits w \<or>
           (\<exists>run w1 q. pk_reporter ad \<noteq> None \<and> waits w1 = waits w \<and> restamp_run rs e run w1 = (q, w') \<and>
             (q = Inr () \<longrightarrow> park_of rs (waits w') e = map_option (\<lambda>p. persisted (p\<lparr>rc_run := Some run\<rparr>)) (park_of rs (waits w) e)))))"

context wait_store
begin

lemma fetch_with_run_refines:
  assumes "fr_ty rs = ty" "fr_ops rs = ops" "fetch_with_run rs e w = (r, w')"
  shows "waits w' = waits w \<and> (\<forall>x. r = Inr x \<longrightarrow> x = map_option (\<lambda>p. (rc_snapshot p, rc_run p)) (park_of rs (waits w) e))"
proof -
  obtain q where "fetch_record rs e w = (q, w')" "r = map_sum id (map_option (\<lambda>p. (rc_snapshot p, rc_run p))) q"
    using assms(3) by (cases "fetch_record rs e w") (auto simp: fetch_with_run_def sbind_def sret_def split: sum.splits)
  with fetch_record_refines [OF assms(1,2)] show ?thesis by (cases q) auto
qed

lemma restamp_refines:
  assumes rs: "fr_ty rs = ty" "fr_ops rs = ops" "resume_codec rs" and sc: "unshadowed ty (waits w') e"
    and run: "restamp_run rs e m w = (q, w')" "q = Inr ()"
  shows "park_of rs (waits w') e = map_option (\<lambda>p. persisted (p\<lparr>rc_run := Some m\<rparr>)) (park_of rs (waits w) e)"
proof -
  obtain f w1 where fetch: "fetch_record rs e w = (f, w1)" by (metis surj_pair)
  note f = fetch_record_refines [OF rs(1,2) fetch]
  from run fetch obtain x where x: "f = Inr x" by (cases f) (auto simp: restamp_run_def sbind_def)
  show ?thesis
  proof (cases x)
    case None
    with run fetch x f show ?thesis by (simp add: restamp_run_def sbind_def sret_def)
  next
    case (Some p)
    then obtain scope where "save_with_run rs e (rc_reason p) (rc_snapshot p) (Some m) w1 = (Inr scope, w')"
      using run fetch x by (auto simp: restamp_run_def sbind_def sret_def split: sum.splits prod.splits)
    from save_park [OF rs this sc] have "park_of rs (waits w') e = Some (persisted (p\<lparr>rc_run := Some m\<rparr>))" by (cases p) simp
    moreover have "park_of rs (waits w) e = Some p" using f x Some by metis
    ultimately show ?thesis by simp
  qed
qed

lemma turn_meets_contract:
  assumes rs: "fr_ty (pk_resume ad) = ty" "fr_ops (pk_resume ad) = ops" "resume_codec (pk_resume ad)"
    and apart: "reports_apart ad waits" and sc: "\<And>view. unshadowed ty view e"
    and turn: "turn = None \<longleftrightarrow> pk_reporter ad = None"
    and settle: "settle_turn ad e turn resumed ob x (scope, w) = (r, scope', w')"
  shows "turn_contract ad waits e x w r w'"
proof (cases x)
  case (Inl err)
  then have r: "r = Inl (classify_flow_error err)" and s: "fail_turn ad e turn resumed ob err (scope, w) = (scope', w')"
    using settle by (simp_all add: settle_turn_def)
  show ?thesis
  proof (cases "pk_reporter ad")
    case None
    with s r Inl show ?thesis by (simp add: turn_contract_def fail_turn_def Let_def)
  next
    case (Some rp)
    with turn obtain tc where tc: "turn = Some tc" by auto
    obtain sc1 w1 where rep: "report_failure rp (turn_failed tc ob err) (scope, w) = (sc1, w1)" by (metis surj_pair)
    have w1: "waits w1 = waits w"
      using apart Some rep by (auto simp: reports_apart_def report_failure_def split: option.splits)
    show ?thesis
    proof (cases resumed)
      case False
      with s Some tc rep w1 r Inl show ?thesis by (simp add: turn_contract_def fail_turn_def Let_def)
    next
      case True
      obtain q where q: "restamp_run (pk_resume ad) e (marker_after tc ob) w1 = (q, w')"
        using s Some tc rep True by (cases "restamp_run (pk_resume ad) e (marker_after tc ob) w1") (simp add: fail_turn_def)
      from restamp_refines [OF rs sc q] w1 q Some r Inl show ?thesis
        by (auto simp: turn_contract_def Let_def)
    qed
  qed
next
  case (Inr fx)
  then have "finish_turn_run ad e turn ob fx (scope, w) = (r, scope', w')" using settle by (simp add: settle_turn_def)
  note st = finish_stages [OF this]
  show ?thesis
  proof (cases "\<exists>m. r = Inl (PostEffectPersistence m)")
    case True
    with Inr show ?thesis by (simp add: turn_contract_def)
  next
    case False
    show ?thesis
    proof (cases "fx_status fx")
      case FlowCompleted
      with False st obtain v where "r = Inr (fx_output fx, fx_node_outputs fx)" "clear_parked (pk_resume ad) e v = (Inr (), w')" by auto
      with clear_park [OF rs(1,2)] Inr FlowCompleted show ?thesis by (auto simp: turn_contract_def Let_def)
    next
      case (FlowWaiting reason sp)
      let ?run = "map_option (\<lambda>turn. marker_after turn ob) turn"
      have "\<exists>sc1 v v'. save_with_run (pk_resume ad) e reason sp ?run v = (Inr sc1, v') \<and>
          r = Inr (parked_outcome ty reason sp sc1 (fx_output fx), fx_node_outputs fx) \<and>
          (w' = v' \<or> (\<exists>rp out. pk_reporter ad = Some rp \<and> w' = rp_sink rp out v'))"
        using False st FlowWaiting rs(1) by simp
      then obtain sc1 v v' where save: "save_with_run (pk_resume ad) e reason sp ?run v = (Inr sc1, v')"
        and r: "r = Inr (parked_outcome ty reason sp sc1 (fx_output fx), fx_node_outputs fx)"
        and w': "w' = v' \<or> (\<exists>rp out. pk_reporter ad = Some rp \<and> w' = rp_sink rp out v')" by (elim exE conjE)
      have "waits w' = waits v'" using w' apart by (auto simp: reports_apart_def)
      with save_park [OF rs save sc] have "park_of (pk_resume ad) (waits w') e =
          Some (persisted \<lparr>rc_snapshot = sp, rc_reason = reason, rc_run = ?run\<rparr>)" by simp
      moreover have "?run = None \<longleftrightarrow> pk_reporter ad = None" using turn by simp
      ultimately show ?thesis using Inr FlowWaiting r rs(1) unfolding turn_contract_def Let_def by auto
    qed
  qed
qed

end

end
