(* ===== verification/Message_Effects.thy ===== *)
theory Message_Effects
  imports Pack_Turns
begin

section \<open>The attempts of a message\<close>

text \<open>
  The state machine retries the pack-flow adapter. Which effects a message performs over all its attempts, and what the
  runtime answers.
\<close>

subsection \<open>Effects of a message over its attempts\<close>

text \<open>
  What stands around the engine is not among the tracked effects: the session store, random bytes and sleeping, and
  the reports of a turn.
\<close>

definition stores_keep :: "'w pack_adapter \<Rightarrow> ('w \<Rightarrow> 'e) \<Rightarrow> bool" where
  "stores_keep ad eff \<longleftrightarrow>
     (let rs = pk_resume ad; ops = fr_ops rs; pf = pk_platform ad in
      (\<forall>ctx u sc k d t. keeps_io eff (wo_register ops ctx u sc k d t)) \<and> (\<forall>ctx u sc. keeps_io eff (wo_find ops ctx u sc)) \<and>
      (\<forall>k. keeps_io eff (wo_get ops k)) \<and> (\<forall>ctx u sc. keeps_io eff (wo_clear ops ctx u sc)) \<and>
      (\<forall>n w. eff (snd (fr_random rs n w)) = eff w) \<and>
      (\<forall>n w. eff (snd (pf_random pf n w)) = eff w) \<and> (\<forall>n w. eff (pf_sleep pf n w) = eff w))"

definition mint_keeps :: "'w pack_adapter \<Rightarrow> ('w \<Rightarrow> 'e) \<Rightarrow> bool" where
  "mint_keeps ad eff \<longleftrightarrow> (\<forall>rp w. pk_reporter ad = Some rp \<longrightarrow> eff (snd (rp_mint rp w)) = eff w)"

definition sink_keeps :: "'w pack_adapter \<Rightarrow> ('w \<Rightarrow> 'e) \<Rightarrow> bool" where
  "sink_keeps ad eff \<longleftrightarrow> (\<forall>rp out w. pk_reporter ad = Some rp \<longrightarrow> eff (rp_sink rp out w) = eff w)"

lemma stores_keepD:
  assumes "stores_keep ad eff"
  shows "keeps_io eff (wo_register (fr_ops (pk_resume ad)) ctx u sc k d t)" "keeps_io eff (wo_find (fr_ops (pk_resume ad)) ctx u sc)"
    "keeps_io eff (wo_get (fr_ops (pk_resume ad)) k)" "keeps_io eff (wo_clear (fr_ops (pk_resume ad)) ctx u sc)"
    "eff (snd (fr_random (pk_resume ad) n w)) = eff w"
    "eff (snd (pf_random (pk_platform ad) n w)) = eff w" "eff (pf_sleep (pk_platform ad) n w) = eff w"
  using assms unfolding stores_keep_def Let_def by simp_all

definition surroundings_keep :: "'w pack_adapter \<Rightarrow> ('w \<Rightarrow> 'e) \<Rightarrow> bool" where
  "surroundings_keep ad eff \<longleftrightarrow> stores_keep ad eff \<and> mint_keeps ad eff \<and> sink_keeps ad eff"

lemma keeps_ioD: "keeps_io eff m \<Longrightarrow> m w = (r, w') \<Longrightarrow> eff w' = eff w"
  unfolding keeps_io_def by (metis snd_conv)

lemma keeps_fetch_scope: "stores_keep ad eff \<Longrightarrow> keeps_io eff (fetch_scope (pk_resume ad) pack ctx u sc)"
  unfolding fetch_scope_def by (auto intro!: effect_intros stores_keepD split: option.splits)

lemma keeps_fetch_scopes: "stores_keep ad eff \<Longrightarrow> keeps_io eff (fetch_scopes (pk_resume ad) pack ctx u scs)"
  by (induction scs) (auto intro!: effect_intros keeps_fetch_scope split: option.splits)

lemma keeps_fetch_record: "stores_keep ad eff \<Longrightarrow> keeps_io eff (fetch_record (pk_resume ad) e)"
  unfolding fetch_record_def by (auto intro!: effect_intros keeps_fetch_scopes split: prod.splits)

lemma keeps_fetch_with_run: "stores_keep ad eff \<Longrightarrow> keeps_io eff (fetch_with_run (pk_resume ad) e)"
  unfolding fetch_with_run_def by (intro effect_intros keeps_fetch_record)

lemma keeps_save: "stores_keep ad eff \<Longrightarrow> keeps_io eff (save_with_run (pk_resume ad) e reason sp run)"
proof -
  assume around: "stores_keep ad eff"
  have "keeps_io eff (\<lambda>w. if rs_correlation scope = None
              then (case generate_correlation_id (pk_resume ad) w of (i, w') \<Rightarrow> (Inr (scope\<lparr>rs_correlation := Some i\<rparr>), w'))
              else (Inr scope, w))" for scope
    using stores_keepD(5) [OF around]
    by (auto simp: keeps_io_def generate_correlation_id_def split: prod.splits) (metis snd_conv)
  then show ?thesis
    unfolding save_with_run_def Let_def
    by (auto intro!: effect_intros stores_keepD [OF around] split: prod.splits)
qed

lemma keeps_restamp: "stores_keep ad eff \<Longrightarrow> keeps_io eff (restamp_run (pk_resume ad) e run)"
  unfolding restamp_run_def by (auto intro!: effect_intros keeps_fetch_record keeps_save split: option.splits)

lemma keeps_clear: "stores_keep ad eff \<Longrightarrow> keeps_io eff (clear_parked (pk_resume ad) e)"
proof -
  assume st: "stores_keep ad eff"
  have "keeps_io eff (clear_scopes (pk_resume ad) ctx u scs)" for ctx u scs
  proof (induction scs)
    case Nil
    then show ?case by (simp only: clear_scopes.simps keeps_sret)
  next
    case (Cons sc scs)
    then show ?case by (auto intro!: effect_intros stores_keepD [OF st])
  qed
  then show ?thesis unfolding clear_parked_def by (auto intro!: effect_intros split: prod.splits)
qed

lemma keeps_backoff:
  assumes "\<And>n w. eff (snd (pf_random pf n w)) = eff w"
  shows "eff (snd (backoff_with_jitter pf p n w)) = eff w"
  using assms [of "max (backoff_base p n) 1" w] by (auto simp: backoff_with_jitter_def Let_def split: prod.splits)

lemma keeps_persist:
  assumes "stores_keep ad eff" "keeps_io eff op"
  shows "keeps_io eff (persist_after_effects (pk_platform ad) op)"
proof -
  let ?pf = "pk_platform ad"
  have "eff (attempt_world ?pf p op a k w) = eff w" for p a k w
  proof (induction k arbitrary: a w)
    case (Suc k)
    obtain b w2 where b: "backoff_with_jitter ?pf p (Suc a) (snd (op w)) = (b, w2)" by (metis surj_pair)
    have "eff w2 = eff w"
      using keeps_backoff [of eff ?pf p "Suc a" "snd (op w)"] stores_keepD(6) [OF assms(1)] b assms(2) by (simp add: keeps_io_def)
    with b Suc show ?case by (simp add: stores_keepD(7) [OF assms(1)])
  qed simp
  moreover have "\<exists>k. retry_loop ?pf retry_policy_default op 0 w = op (attempt_world ?pf retry_policy_default op 0 k w)" for w
    using retry_loop_attempts [of 0 retry_policy_default ?pf op w] by (auto simp: retry_policy_default_def)
  ultimately have "keeps_io eff (retry_with_jitter ?pf retry_policy_default op)"
    using assms(2) unfolding keeps_io_def retry_with_jitter_def by metis
  then show ?thesis unfolding persist_after_effects_def by (rule keeps_smap_err)
qed

lemma start_turn_keeps:
  assumes "mint_keeps ad eff" "start_turn ad e found flow pack (scope, w) = (turn, scope', w')"
  shows "eff w' = eff w"
proof (cases "pk_reporter ad")
  case None
  with assms(2) show ?thesis by (simp add: start_turn_def)
next
  case (Some rp)
  have "eff (snd (mint_marker rp w)) = eff w"
    using assms(1) Some unfolding mint_keeps_def mint_marker_def by (metis (mono_tags, lifting) case_prod_beta snd_conv)
  with assms(2) Some show ?thesis
    by (auto simp: start_turn_def open_turn_def remember_marker_def Let_def split: option.splits prod.splits)
qed

lemma fail_turn_keeps:
  assumes around: "surroundings_keep ad eff" and "fail_turn ad e turn resumed ob err (scope, w) = (scope', w')"
  shows "eff w' = eff w"
proof (cases "pk_reporter ad = None \<or> turn = None")
  case True
  with assms(2) show ?thesis by (auto simp: fail_turn_def split: option.splits)
next
  case False
  then obtain rp tc where rp: "pk_reporter ad = Some rp" "turn = Some tc" by auto
  obtain sc1 w1 where rep: "report_failure rp (turn_failed tc ob err) (scope, w) = (sc1, w1)" by (metis surj_pair)
  have "eff w1 = eff w"
    using rep around rp(1) by (auto simp: surroundings_keep_def sink_keeps_def report_failure_def split: option.splits)
  moreover have "eff (snd (restamp_run (pk_resume ad) e (marker_after tc ob) w1)) = eff w1"
    using keeps_restamp [OF around [unfolded surroundings_keep_def, THEN conjunct1]] by (simp add: keeps_io_def)
  ultimately show ?thesis using assms(2) rp rep by (auto simp: fail_turn_def split: if_splits)
qed

lemma run_turn_effects:
  assumes tr: "tracked (pk_engine ad) eff" and "fc_session_id ctx \<noteq> None" and run: "run_turn ad e ctx parked w = (Inl err, w')"
  shows "is_terminal_flow_error err \<or> eff w' = eff w"
proof (cases parked)
  case (Some sp)
  let ?ctx = "ctx\<lparr>fc_pack_id := sp_pack_id sp, fc_flow_id := resume_flow_id sp\<rparr>"
  obtain l w1 where load: "get_or_load_flow (pk_engine ad) (sp_pack_id sp) (resume_flow_id sp) w = (l, w1)" by (metis surj_pair)
  have w1: "eff w1 = eff w" using keeps_ioD [OF keeps_get_or_load [OF tr] load] .
  show ?thesis
  proof (cases l)
    case (Inl e1)
    with Some load run w1 show ?thesis by (simp add: run_turn_def resume_surfacing_failures_def resume_with_options_def)
  next
    case (Inr flow)
    with Some load run obtain outs where
      "drive_flow (pk_engine ad) (top_nested (pk_engine ad)) ?ctx flow (resumed_state sp (ie_payload e)) (Some (sp_next_node sp))
         (resume_flow_id sp) w1 = (Inl (err, outs), w')"
      by (auto simp: run_turn_def resume_surfacing_failures_def resume_with_options_def split: sum.splits prod.splits if_splits)
    from drive_flow_effects [OF tr nested_flow_ok [OF tr] this] w1 show ?thesis by simp
  qed
next
  case None
  then obtain entry where ex: "execute_with_options (pk_engine ad) (top_nested (pk_engine ad)) ctx (ie_payload e) entry True w = (Inl err, w')"
    using run by (auto simp: run_turn_def execute_def execute_from_def split: option.splits)
  have "keeps_io eff (check_entry (pk_engine ad) ctx entry)"
    unfolding check_entry_def by (auto intro!: effect_intros keeps_get_or_load [OF tr] split: option.splits)
  moreover have False if "attempts (pk_engine ad) (top_nested (pk_engine ad)) ctx (ie_payload e) entry True 0 v = (Inl err, w')" for v
  proof -
    have "attempt_result (pk_engine ad) ctx (ie_payload e) True r0 \<noteq> Inl err" for r0
      using assms(2) by (cases r0) (auto simp: attempt_result_def)
    with attempts_once [OF tr nested_flow_ok [OF tr] that] show False by metis
  qed
  ultimately show ?thesis
    using ex by (auto simp: execute_with_options_def elim!: sbind_eq_InlE dest: keeps_ioD)
qed

lemma settle_retryable:
  assumes "settle_turn ad e turn resumed ob x s = (r, s')" "retryable r"
  obtains err where "x = Inl err" "\<not> is_terminal_flow_error err" "s' = fail_turn ad e turn resumed ob err s"
proof (cases x)
  case (Inl err)
  with assms that show ?thesis by (auto simp: settle_turn_def classify_flow_error_def retryable_def split: if_splits)
next
  case (Inr fx)
  obtain scope w scope' w' where s: "s = (scope, w)" "s' = (scope', w')" by (metis surj_pair)
  from finish_stages [of ad e turn ob fx scope w r scope' w'] assms Inr s have False
    by (auto simp: settle_turn_def retryable_def split: flow_status.splits)
  then show ?thesis ..
qed

lemma retryable_attempt:
  assumes tr: "tracked (pk_engine ad) eff" and around: "surroundings_keep ad eff"
    and "call_traced_unlocked ad call s = (r, s')" "retryable r"
  shows "eff (snd s') = eff (snd s)"
proof -
  note stores = around [unfolded surroundings_keep_def, THEN conjunct1]
  note mint = around [unfolded surroundings_keep_def, THEN conjunct2, THEN conjunct1]
  obtain scope w where s: "s = (scope, w)" by (metis surj_pair)
  from assms(3) [unfolded s] show ?thesis
  proof (cases rule: call_stages)
    case (ran e0 found w1 pack turn scope2 w2 x w3)
    from settle_retryable [OF ran(6) assms(4)] obtain err where x: "x = Inl err" "\<not> is_terminal_flow_error err"
      "s' = fail_turn ad (canonicalize e0) turn (found \<noteq> None) (turn_observed ad turn w2 w3) err (scope2, w3)" by metis
    have "eff w1 = eff w" using keeps_ioD [OF keeps_fetch_with_run [OF stores] ran(2)] .
    moreover have "eff w2 = eff w1" using start_turn_keeps [OF mint ran(4)] .
    moreover have "eff w3 = eff w2" using run_turn_effects [OF tr _ ran(5) [unfolded x(1)]] x(2) by (simp add: turn_flow_ctx_def)
    moreover have "eff (snd s') = eff w3" using fail_turn_keeps [OF around] x(3) by (metis surj_pair snd_conv)
    ultimately show ?thesis using s by simp
  qed (use s keeps_ioD [OF keeps_fetch_with_run [OF stores]] in auto)
qed

text \<open>
  The result of a retry loop is that of its last attempt, which starts where everything holds that the attempts that
  are retried, the random delay and the pause keep.
\<close>

lemma retry_last_attempt:
  assumes start: "P s" and step: "\<And>s r s'. P s \<Longrightarrow> op s = (r, s') \<Longrightarrow> retryable r \<Longrightarrow> P s'"
    and random: "\<And>n s. P s \<Longrightarrow> P (snd (pf_random pf n s))" and sleep: "\<And>n s. P s \<Longrightarrow> P (pf_sleep pf n s)"
  shows "\<exists>s0. P s0 \<and> retry_with_jitter pf p op s = op s0"
proof -
  have keep: "P (attempt_world pf p op a k s)" if "P s" "\<forall>j<k. retryable (fst (op (attempt_world pf p op a j s)))" for a k s
    using that
  proof (induction k arbitrary: a s)
    case (Suc k)
    obtain r s1 where call: "op s = (r, s1)" by (metis surj_pair)
    obtain b s2 where b: "backoff_with_jitter pf p (Suc a) s1 = (b, s2)" by (metis surj_pair)
    have "retryable r" using Suc.prems(2) call by force
    with step [OF Suc.prems(1) call] have "P s1" .
    with random have "P s2" using b by (auto simp: backoff_with_jitter_def Let_def split: prod.splits) (metis snd_conv)
    then have "P (pf_sleep pf b s2)" by (rule sleep)
    moreover have "attempt_world pf p op a (Suc j) s = attempt_world pf p op (Suc a) j (pf_sleep pf b s2)" for j
      using call b by simp
    ultimately show ?case using Suc.IH [of "pf_sleep pf b s2" "Suc a"] Suc.prems(2) by (metis Suc_less_eq)
  qed simp
  have "0 < max (rp_max_attempts p) 1" by simp
  from retry_loop_attempts [OF this, of pf op s] keep [OF start] show ?thesis unfolding retry_with_jitter_def by blast
qed

lemma last_attempt:
  assumes "tracked (pk_engine ad) eff" and around: "surroundings_keep ad eff"
  shows "\<exists>s0. eff (snd s0) = eff (snd s) \<and>
    retry_with_jitter (scoped_platform (pk_platform ad)) p (call_traced_unlocked ad call) s = call_traced_unlocked ad call s0"
proof (rule retry_last_attempt)
  note stores = around [unfolded surroundings_keep_def, THEN conjunct1]
  let ?pf = "scoped_platform (pk_platform ad)"
  show "eff (snd (snd (pf_random ?pf n s1))) = eff (snd s)" if "eff (snd s1) = eff (snd s)" for n s1
    using stores_keepD(6) [OF stores, of n "snd s1"] that by (auto simp: scoped_platform_def split: prod.splits)
  show "eff (snd (pf_sleep ?pf n s1)) = eff (snd s)" if "eff (snd s1) = eff (snd s)" for n s1
    using that by (simp add: scoped_platform_def stores_keepD(7) [OF stores])
  show "eff (snd s') = eff (snd s)" if "eff (snd s1) = eff (snd s)" "call_traced_unlocked ad call s1 = (r, s')" "retryable r" for s1 r s'
    using retryable_attempt [OF assms that(2,3)] that(1) by simp
qed simp

subsection \<open>The assembled runtime\<close>

lemma fold_with_flow: "fold with_flow ds b = b\<lparr>rb_flows := rb_flows b @ ds\<rparr>"
  by (induction ds arbitrary: b) (simp_all add: with_flow_def)

lemma fold_register_flow:
  "sm_host (fold register_flow ds m) = sm_host m" "sm_adapters (fold register_flow ds m) = sm_adapters m"
  "sm_policy (fold register_flow ds m) = sm_policy m" "sm_platform (fold register_flow ds m) = sm_platform m"
  by (induction ds arbitrary: m) (simp_all add: register_flow_def)

definition flow_key :: "flow_descriptor \<Rightarrow> string \<times> string" where
  "flow_key d = (ds_pack_id d, ds_id d)"

lemma hget_register:
  "hget (sm_flows (register_flow (build_flow_definition d) m)) k =
     (if k = flow_key d then Some (build_flow_definition d) else hget (sm_flows m) k)"
  by (simp add: build_flow_definition_def flow_key_def register_flow_def hm_simps)

lemma hget_unregistered:
  "k \<notin> flow_key ` set ds \<Longrightarrow> hget (sm_flows (fold register_flow (map build_flow_definition ds) m)) k = hget (sm_flows m) k"
  by (induction ds arbitrary: m) (simp_all add: hget_register)

lemma hget_registered:
  assumes "distinct (map flow_key ds)" "d \<in> set ds"
  shows "hget (sm_flows (fold register_flow (build_flow_definitions ds) m)) (flow_key d) = Some (build_flow_definition d)"
  using assms
proof (induction ds arbitrary: m)
  case (Cons x ds)
  show ?case
  proof (cases "d = x")
    case True
    with Cons.prems(1) show ?thesis by (simp add: build_flow_definitions_def hget_unregistered hget_register)
  qed (use Cons in \<open>simp add: build_flow_definitions_def\<close>)
qed simp

lemma assembled:
  assumes "from_flow_engine ad session state = Inr m"
  shows "hb_session (sm_host m) = session" "hb_state (sm_host m) = state" "hb_emit (sm_host m) span fs v = (Inr (), v)"
    "sm_policy m = policy_default" "sm_platform m = scoped_platform (pk_platform ad)"
    "hget (sm_adapters m) pack_flow_adapter = Some (call_traced_unlocked ad)"
    "distinct (map flow_key (pk_flows ad)) \<Longrightarrow> d \<in> set (pk_flows ad) \<Longrightarrow> hget (sm_flows m) (flow_key d) = Some (build_flow_definition d)"
proof -
  have m: "m = fold register_flow (build_flow_definitions (pk_flows ad))
      (state_machine_new \<lparr>hb_emit = (\<lambda>_ _. sret ()), hb_session = session, hb_state = state\<rparr>
        (register_adapter pack_flow_adapter (call_traced_unlocked ad) []) policy_default (scoped_platform (pk_platform ad)))"
    using assms by (simp add: from_flow_engine_def build_runner_def fold_with_flow with_policy_def with_adapters_def with_host_def builder_new_def Let_def)
  then show "hb_session (sm_host m) = session" "hb_state (sm_host m) = state" "hb_emit (sm_host m) span fs v = (Inr (), v)"
    "sm_policy m = policy_default" "sm_platform m = scoped_platform (pk_platform ad)"
    "hget (sm_adapters m) pack_flow_adapter = Some (call_traced_unlocked ad)"
    by (simp_all add: fold_register_flow state_machine_new_def register_adapter_def sret_def hm_simps)
  show "hget (sm_flows m) (flow_key d) = Some (build_flow_definition d)"
    if "distinct (map flow_key (pk_flows ad))" "d \<in> set (pk_flows ad)"
    unfolding m by (rule hget_registered [OF that])
qed

lemma assembles: "\<exists>m. from_flow_engine ad session state = Inr m"
  by (simp add: from_flow_engine_def build_runner_def fold_with_flow with_policy_def with_adapters_def with_host_def builder_new_def Let_def)

text \<open>A message the runtime accepts: its flow is registered, its context is valid and its JSON fits.\<close>

definition accepted :: "'w pack_adapter \<Rightarrow> flow_descriptor \<Rightarrow> ingress_envelope \<Rightarrow> bool" where
  "accepted ad d e \<longleftrightarrow>
     distinct (map flow_key (pk_flows ad)) \<and> d \<in> set (pk_flows ad) \<and> ie_pack_id e = Some (ds_pack_id d) \<and> ie_flow_id e = ds_id d \<and>
     (\<exists>ctx. envelope_ctx (fr_ty (pk_resume ad)) e = Inr ctx) \<and>
     (\<exists>bytes. pf_to_vec (pk_platform ad) (envelope_json (fr_ty (pk_resume ad)) e) = Inr bytes \<and> length bytes \<le> 512 * 1024)"

definition message_call :: "'w pack_adapter \<Rightarrow> flow_descriptor \<Rightarrow> ingress_envelope \<Rightarrow> adapter_call" where
  "message_call ad d e = pack_call d (envelope_json (fr_ty (pk_resume ad)) e)"

definition turn_start :: "'w pack_adapter \<Rightarrow> 'w scoped \<Rightarrow> 'w scoped" where
  "turn_start ad s = (if pk_reporter ad = None then s else (Some turn_scope_new, snd s))"

text \<open>The report that a failed turn leaves.\<close>

definition close_turn :: "'w pack_adapter \<Rightarrow> 'w scoped \<Rightarrow> bool \<Rightarrow> 'w scoped \<Rightarrow> 'w scoped" where
  "close_turn ad outer failed s =
     (case pk_reporter ad of
        None \<Rightarrow> s
      | Some rp \<Rightarrow>
          (fst outer, case Option.bind (fst s) ts_pending of Some out \<Rightarrow> if failed then rp_sink rp out (snd s) else snd s | None \<Rightarrow> snd s))"

lemma handle_message:
  assumes m: "from_flow_engine ad discard_sessions state = Inr m" and ok: "accepted ad d e"
    and state: "\<And>k v u. fst (to_set_json state k v u) = Inr ()"
  shows "case retry_with_jitter (scoped_platform (pk_platform ad)) retry_policy_default (call_traced_unlocked ad (message_call ad d e))
        (turn_start ad (scope, w)) of
      (Inl err, s1) \<Rightarrow> handle ad m e (s, t, scope, w) =
        (Inl (''flow execution failed: '' @ runner_display err), s, t, close_turn ad (scope, w) True s1)
    | (Inr (response, nodes), s1) \<Rightarrow> \<exists>t1. handle ad m e (s, t, scope, w) = (Inr response, s, t1, close_turn ad (scope, w) False s1)"
proof -
  let ?in = "envelope_json (fr_ty (pk_resume ad)) e"
  obtain ctx bytes where ctx: "envelope_ctx (fr_ty (pk_resume ad)) e = Inr ctx"
    and bytes: "pf_to_vec (pk_platform ad) ?in = Inr bytes" "length bytes \<le> 512 * 1024" using ok by (auto simp: accepted_def)
  let ?step = "step m (tenant_ctx.truncate ctx) (ds_pack_id d) (ds_id d) (Some (session_of e)) ?in"
  have turn: "case retry_with_jitter (scoped_platform (pk_platform ad)) retry_policy_default (call_traced_unlocked ad (message_call ad d e)) s0 of
      (Inl err, s1) \<Rightarrow> ?step (s, t, s0) = (Inl err, (s, t, s1))
    | (Inr (response, nodes), s1) \<Rightarrow> \<exists>t1. ?step (s, t, s0) = (Inr (done_outcome response, extend_nodes [] nodes), (s, t1, s1))" for s0
  proof -
    have "hget (sm_flows m) (ds_pack_id d, ds_id d) = Some (build_flow_definition d)"
      using assembled(7) [OF m] ok by (simp add: accepted_def flow_key_def)
    moreover have "after_id (scoped_platform (pk_platform ad)) (Some (session_of e)) s0 = s0" by (simp add: after_id_def)
    ultimately show ?thesis
      using pack_turn [where m = m and d = d and input = ?in and hint = "Some (session_of e)" and w = s0 and s = s and t = t
          and tenant = "tenant_ctx.truncate ctx" and adapter = "call_traced_unlocked ad" and bytes = bytes and pack_id = "ds_pack_id d" and flow_id = "ds_id d"]
        assembled(1-6) [OF m] bytes state
      by (simp add: policy_default_def message_call_def scoped_platform_def)
  qed
  obtain r s1 where run: "retry_with_jitter (scoped_platform (pk_platform ad)) retry_policy_default
      (call_traced_unlocked ad (message_call ad d e)) (turn_start ad (scope, w)) = (r, s1)" by (metis surj_pair)
  obtain sc1 w1 where s1: "s1 = (sc1, w1)" by (metis surj_pair)
  have defs: "ie_pack_id e = Some (ds_pack_id d)" "ie_flow_id e = ds_id d" using ok by (simp_all add: accepted_def)
  have response: "json_get ''response'' (done_outcome v) = Some v" for v by (simp add: done_outcome_def json_obj_def)
  show ?thesis
    using turn [of "turn_start ad (scope, w)"] run s1
    by (cases "pk_reporter ad"; cases r)
      (auto simp: handle_def run_flow_for_def run_flow_def ctx defs map_err_def sbind_def sret_def smap_err_def Let_def
        turn_start_def close_turn_def scoped_turn_def response_of_def response unwrap_or_def split: option.splits)
qed

end
