(* ===== verification/Engine_Frame.thy ===== *)
theory Engine_Frame
  imports Engine_Effects
begin

section \<open>What a turn leaves alone\<close>

text \<open>
  The engine reaches the world only through the handlers it is given: what all of them leave alone, a turn leaves
  alone, whether it completes, waits or fails. This is the frame rule by which the reports and the waits of the host
  are apart from a run of the engine.
\<close>

definition handlers_keep :: "'w flow_engine \<Rightarrow> ('w \<Rightarrow> 'e) \<Rightarrow> bool" where
  "handlers_keep en eff \<longleftrightarrow> tracked en eff \<and>
     (\<forall>c i p q op v. keeps_io eff (en_provider en c i p q op v)) \<and>
     (\<forall>f. en_cross_pack en = Some f \<longrightarrow> (\<forall>p q op v t. keeps_io eff (f p q op v t))) \<and>
     (\<forall>f. en_agent en = Some f \<longrightarrow> (\<forall>c a i v b r. keeps_io eff (f c a i v b r))) \<and>
     (\<forall>f. en_graph en = Some f \<longrightarrow> (\<forall>c g i v. keeps_io eff (f c g i v))) \<and>
     (\<forall>f. en_operala en = Some f \<longrightarrow> (\<forall>c t op i v. keeps_io eff (f c t op i v))) \<and>
     (\<forall>f. en_sorla_http en = Some f \<longrightarrow> (\<forall>c t v i. keeps_io eff (f c t v i))) \<and>
     (\<forall>c s t v w. eff (snd (en_mcp en c s t v w)) = eff w) \<and> (\<forall>c a v x w. eff (snd (en_a2a en c a v x w)) = eff w) \<and>
     (\<forall>c v w. eff (snd (en_media en c v w)) = eff w) \<and>
     (\<forall>f. en_remote en = Some f \<longrightarrow> (\<forall>r. keeps_io eff (f r))) \<and>
     (\<forall>f. en_approval_remote en = Some f \<longrightarrow> (\<forall>r. keeps_io eff (f r)))"

lemma handlers_keepD:
  assumes "handlers_keep en eff"
  shows "tracked en eff" "keeps_io eff (en_provider en c i p q op v)"
    "en_cross_pack en = Some cross \<Longrightarrow> keeps_io eff (cross pid q op v t)"
    "en_agent en = Some agent \<Longrightarrow> keeps_io eff (agent c a i v b r)"
    "en_graph en = Some graph \<Longrightarrow> keeps_io eff (graph c a i v)"
    "en_operala en = Some operala \<Longrightarrow> keeps_io eff (operala c a op i v)"
    "en_sorla_http en = Some http \<Longrightarrow> keeps_io eff (http c a v i)"
    "eff (snd (en_mcp en c s a v w)) = eff w" "eff (snd (en_a2a en c a v x w)) = eff w" "eff (snd (en_media en c v w)) = eff w"
    "en_remote en = Some remote \<Longrightarrow> keeps_io eff (remote req)"
    "en_approval_remote en = Some approval \<Longrightarrow> keeps_io eff (approval req)"
  using assms unfolding handlers_keep_def by simp_all

lemma keeps_Pair: "keeps_io eff (Pair r)"
  by (simp add: keeps_io_def)

subsection \<open>Nodes\<close>

lemma frame_remote: "handlers_keep en eff \<Longrightarrow> keeps_io eff (execute_remote_dispatch_with_token en ctx runtime target payload b token)"
proof -
  assume q: "handlers_keep en eff"
  have nonce: "keeps_io eff (pure_io (dispatch_nonce en runtime))"
    using trackedD(2) [OF handlers_keepD(1) [OF q]] by (intro keeps_pure_io) (simp add: dispatch_nonce_def split_beta)
  have "keeps_io eff (handler req)" if "dispatch_handler_for en runtime = Some handler" for handler req
    using that handlers_keepD(11,12) [OF q]
    by (cases "en_approval_remote en") (auto simp: dispatch_handler_for_def split: if_splits)
  then show ?thesis
    unfolding execute_remote_dispatch_with_token_def Let_def
    by (auto split: option.splits intro!: effect_intros nonce)
qed

lemma frame_remote_plain: "handlers_keep en eff \<Longrightarrow> keeps_io eff (execute_remote_dispatch en ctx runtime target payload b)"
  by (simp add: execute_remote_dispatch_def frame_remote)

lemma frame_provider:
  assumes "handlers_keep en eff"
  shows "keeps_io eff (execute_provider_invoke en ctx i st payload)"
proof -
  have "keeps_io eff (try_invoke_cross_pack_resolver en pid ptype op input t)" for pid ptype op input t
    unfolding try_invoke_cross_pack_resolver_def by (auto split: option.splits intro!: effect_intros handlers_keepD(3) [OF assms])
  then have dispatch: "keeps_io eff (provider_dispatch en ctx i base pid ptype op input out_map)" for base pid ptype op input out_map
    unfolding provider_dispatch_def provider_call_def
    by (auto split: option.split if_split intro!: effect_intros handlers_keepD(2) [OF assms])
  have run: "keeps_io eff (\<lambda>w. sbind (sres (r w)) (f w) w)" if "\<And>w a. keeps_io eff (f w a)"
    for r :: "'a \<Rightarrow> (flow_error, json) result" and f :: "'a \<Rightarrow> json \<Rightarrow> ('a, node_output) io"
    using that by (auto simp: keeps_io_def sbind_def sres_def split: sum.splits)
  show ?thesis
    unfolding execute_provider_invoke_def Let_def
    by (simp add: run keeps_sfail dispatch split: option.split if_split)
qed

lemma frame_dw_agent: "handlers_keep en eff \<Longrightarrow> keeps_io eff (execute_dw_agent en ctx a payload conv r)"
proof -
  assume q: "handlers_keep en eff"
  have read: "keeps_io eff (\<lambda>w. (Inr (f w), w))" for f :: "'a \<Rightarrow> node_output" by (simp add: keeps_io_def)
  show ?thesis
  proof (cases "en_agent en")
    case None
    then show ?thesis by (simp add: execute_dw_agent_def keeps_sfail)
  next
    case (Some handler)
    show ?thesis
      unfolding execute_dw_agent_def Some option.case
      by (rule keeps_io_sbind [OF keeps_smap_err [OF trackedD(7) [OF handlers_keepD(1) [OF q]]]], rule keeps_io_sbind [OF handlers_keepD(4) [OF q Some]], rule read)
  qed
qed

lemma frame_calls:
  assumes "handlers_keep en eff"
  shows "keeps_io eff (execute_dw_agent_graph en ctx g payload)" "keeps_io eff (execute_operala_call en ctx target payload)"
    "keeps_io eff (execute_mcp en ctx srv tool payload b)" "keeps_io eff (execute_media_create en ctx payload b)"
    "keeps_io eff (execute_a2a en ctx x payload b)"
proof -
  have pure: "keeps_io eff (pure_io (en_mcp en c s a v))" "keeps_io eff (pure_io (en_media en c v))" "keeps_io eff (pure_io (en_a2a en c a v y))"
    for c s a v y by (rule keeps_pure_io, simp add: handlers_keepD(8-10) [OF assms])+
  show "keeps_io eff (execute_dw_agent_graph en ctx g payload)"
    unfolding execute_dw_agent_graph_def by (auto split: option.splits intro!: effect_intros handlers_keepD(5) [OF assms])
  show "keeps_io eff (execute_operala_call en ctx target payload)"
    unfolding execute_operala_call_def Let_def
    by (auto split: option.splits intro!: keeps_io_sbind keeps_sret handlers_keepD(6) [OF assms] frame_remote_plain [OF assms])
  show "keeps_io eff (execute_mcp en ctx srv tool payload b)" "keeps_io eff (execute_media_create en ctx payload b)"
    unfolding execute_mcp_def execute_media_create_def by (auto intro!: keeps_io_sbind keeps_sret pure)
  show "keeps_io eff (execute_a2a en ctx x payload b)"
    unfolding execute_a2a_def Let_def
    by (auto split: option.splits intro!: keeps_io_sbind keeps_Pair keeps_sret keeps_sfail pure)
qed

lemma frame_sorla: "handlers_keep en eff \<Longrightarrow> keeps_io eff (execute_sorla_call en ctx i target payload b)"
proof -
  assume q: "handlers_keep en eff"
  have http: "eff (snd (http c a v i w)) = eff w" if "en_sorla_http en = Some http" for http c a v i w
    using handlers_keepD(7) [OF q that] by (simp add: keeps_io_def)
  have "eff (snd (execute_remote_dispatch en ctx r target payload c w)) = eff w" for r c w
    using frame_remote_plain [OF q] by (simp add: keeps_io_def)
  with http show ?thesis
    unfolding keeps_io_def
    by (auto simp: execute_sorla_call_def split: option.splits prod.splits sum.splits if_splits) (metis snd_conv)+
qed

lemma frame_approval: "handlers_keep en eff \<Longrightarrow> keeps_io (eff \<circ> snd) (execute_approval_call en ctx i target payload)"
proof -
  assume q: "handlers_keep en eff"
  have random: "keeps_io eff (pure_io (en_random en n))" for n
    using trackedD(2) [OF handlers_keepD(1) [OF q]] by (intro keeps_pure_io)
  show ?thesis
    unfolding execute_approval_call_def dispatch_approval_def Let_def
    by (auto split: option.splits intro!: effect_intros random frame_remote [OF q])
qed

lemma frame_agent:
  assumes "handlers_keep en eff"
  shows "keeps_io (eff \<circ> snd) (dispatch_agent_nats en ctx i a conv payload)"
    "keeps_io (eff \<circ> snd) (dispatch_agent_in_process en ctx i a conv payload)"
  unfolding dispatch_agent_nats_def dispatch_agent_in_process_def Let_def
  by (auto intro!: effect_intros frame_remote_plain [OF assms] frame_dw_agent [OF assms])

text \<open>Nested runs that leave it alone.\<close>

definition nested_keeps :: "('w \<Rightarrow> 'e) \<Rightarrow> 'w nested_run \<Rightarrow> bool" where
  "nested_keeps eff nested \<longleftrightarrow> (\<forall>run ctx input. nested = Some run \<longrightarrow> keeps_io eff (run ctx input))"

lemma frame_flow_call:
  assumes "nested_keeps eff nested"
  shows "keeps_io eff (execute_flow_call en nested ctx payload)"
  using assms unfolding execute_flow_call_def Let_def nested_keeps_def
  by (auto split: option.splits json.splits flow_status.splits intro!: effect_intros)

lemma frame_dispatch:
  assumes q: "handlers_keep en eff" and nested: "nested_keeps eff nested"
  shows "keeps_io (eff \<circ> snd) (dispatch_node en nested ctx i node payload)"
proof (cases "performs_external_effect (hn_kind node)")
  case False
  then show ?thesis by (rule keeps_dispatch [OF handlers_keepD(1) [OF q]])
next
  case True
  show ?thesis
    unfolding dispatch_node_def Let_def
    by (rule keeps_io_sbind [OF keeps_state(1)])
      (use True q nested in \<open>auto split: host_node_kind.splits intro!: keeps_then_complete keeps_io_world frame_provider
        frame_agent frame_calls frame_dw_agent frame_sorla frame_approval frame_remote_plain frame_flow_call\<close>)
qed

lemma frame_node_turn:
  assumes q: "handlers_keep en eff" and nested: "nested_keeps eff nested"
    and run: "node_turn en nested ctx flow fid i (st, w) = (r, effect, st', w')"
  shows "eff w' = eff w"
proof -
  define c where "c = ctx\<lparr>fc_flow_id := fid\<rparr>"
  have dispatch: "eff (snd (snd (dispatch_node en nested c i node payload (st, w)))) = eff w" for node payload
    using frame_dispatch [OF q nested] by (simp add: keeps_io_def)
  have control: "eff (snd (snd (apply_control en c flow fid i node owned out x (st2, w1)))) = eff w1" for node owned out x st2 w1
    using keeps_apply_control [OF handlers_keepD(1) [OF q], of c flow fid i node owned out x] by (simp add: keeps_io_def)
  from run show ?thesis
    using dispatch control
    by (auto simp: node_turn_def Let_def c_def [symmetric] split: option.splits sum.splits prod.splits) (metis snd_conv)+
qed

subsection \<open>Turns\<close>

lemma frame_walk:
  assumes q: "handlers_keep en eff" and nested: "nested_keeps eff nested"
    and "drive_walk en nested ctx n effects flow fid i s = (r, effects', w')"
  shows "eff w' = eff (snd s)"
  using assms(3)
proof (induction "Suc MAX_STEPS_PER_TURN - n" arbitrary: n effects flow fid i s rule: less_induct)
  case less
  show ?case
  proof (cases "MAX_STEPS_PER_TURN < Suc n")
    case True
    with less.prems show ?thesis by (auto simp: drive_walk.simps [of en nested ctx n])
  next
    case False
    obtain r1 effect st1 w1 where turn: "node_turn en nested ctx flow fid i s = (r1, effect, st1, w1)"
      by (metis prod_cases4)
    have w1: "eff w1 = eff (snd s)"
      using frame_node_turn [OF q nested, of ctx flow fid i "fst s" "snd s" r1 effect st1 w1] turn by simp
    show ?thesis
    proof (cases "\<exists>flow' fid' i'. r1 = Inr (GoOn flow' fid' i')")
      case True
      then obtain flow' fid' i' where "r1 = Inr (GoOn flow' fid' i')" by blast
      with turn False less.prems have "drive_walk en nested ctx (Suc n) (effects \<or> effect) flow' fid' i' (st1, w1) = (r, effects', w')"
        by (simp add: drive_walk.simps [of en nested ctx n])
      from less.hyps [OF _ this] False w1 show ?thesis by simp
    next
      case stop: False
      show ?thesis
      proof (cases r1)
        case (Inl f)
        with turn False less.prems w1 show ?thesis by (cases f) (auto simp: drive_walk.simps [of en nested ctx n])
      next
        case (Inr x)
        with stop obtain y where "x = Finished y" by (cases x) auto
        with Inr turn False less.prems w1 show ?thesis by (auto simp: drive_walk.simps [of en nested ctx n])
      qed
    qed
  qed
qed

lemma frame_drive:
  assumes "handlers_keep en eff" "nested_keeps eff nested" "drive_flow en nested ctx flow st from fid w = (r, w')"
  shows "eff w' = eff w"
proof -
  obtain r1 effects w1 where run: "drive_flow_tracked en nested ctx flow st from fid w = (r1, effects, w1)" by (metis prod_cases3)
  have "eff w1 = eff w"
    using run frame_walk [OF assms(1,2), of ctx 0 False flow fid _ "(st, w)" r1 effects w1] by (auto simp: drive_flow_tracked_def split: sum.splits)
  with run assms(3) show ?thesis by (auto simp: drive_flow_def split: sum.splits)
qed

lemma frame_once:
  assumes "handlers_keep en eff" "nested_keeps eff nested" "execute_once en nested ctx input entry w = (r, w')"
  shows "eff w' = eff w"
proof -
  obtain l w1 where load: "get_or_load_flow en (fc_pack_id ctx) (fc_flow_id ctx) w = (l, w1)" by (metis surj_pair)
  have "eff w1 = eff w" using keeps_get_or_load [OF handlers_keepD(1) [OF assms(1)], of "fc_pack_id ctx" "fc_flow_id ctx"] load unfolding keeps_io_def by (metis snd_conv)
  with load assms(3) frame_drive [OF assms(1,2)] show ?thesis
    by (fastforce simp: execute_once_def split: sum.splits prod.splits if_splits)
qed

lemma frame_attempts:
  assumes "handlers_keep en eff" "nested_keeps eff nested" "attempts en nested ctx input entry surface n w = (r, w')"
  shows "eff w' = eff w"
  using assms(3)
proof (induction "fc_max_attempts ctx - n" arbitrary: n w rule: less_induct)
  case less
  obtain r1 w1 where one: "execute_once en nested (ctx\<lparr>fc_attempt := Suc n\<rparr>) input entry w = (r1, w1)" by fastforce
  note w1 = frame_once [OF assms(1,2) one]
  show ?case
  proof (cases "\<exists>e outs. r1 = Inl (e, outs) \<and> Suc n < fc_max_attempts ctx \<and> should_retry (tx_lower (en_tx en)) e")
    case False
    with one less.prems w1 show ?thesis
      by (auto simp: attempts.simps [of en nested ctx input entry surface n w] not_less split: sum.splits prod.splits if_splits)
  next
    case True
    then have "attempts en nested ctx input entry surface (Suc n) w1 = (r, w')"
      using one less.prems by (auto simp: attempts.simps [of en nested ctx input entry surface n w])
    from less.hyps [OF _ this] True w1 show ?thesis by auto
  qed
qed

lemma frame_execute:
  assumes "handlers_keep en eff" "nested_keeps eff nested"
  shows "keeps_io eff (execute_with_options en nested ctx input entry surface)"
proof -
  have "keeps_io eff (check_entry en ctx entry)"
    unfolding check_entry_def by (auto intro!: effect_intros keeps_get_or_load handlers_keepD(1) [OF assms(1)] split: option.splits)
  moreover have "keeps_io eff (attempts en nested ctx input entry surface 0)"
    unfolding keeps_io_def by (metis frame_attempts [OF assms] surj_pair snd_conv)
  ultimately show ?thesis unfolding execute_with_options_def by (rule keeps_io_sbind)
qed

lemma frame_nested: "handlers_keep en eff \<Longrightarrow> nested_keeps eff (nested_flow en d)"
  by (induction d) (auto simp: nested_keeps_def frame_execute)

lemma frame_resume:
  assumes "handlers_keep en eff"
  shows "keeps_io eff (resume_with_options en ctx sp input surface)"
  unfolding keeps_io_def
proof
  fix w
  obtain l w1 where load: "get_or_load_flow en (fc_pack_id ctx) (resume_flow_id sp) w = (l, w1)" by (metis surj_pair)
  have w1: "eff w1 = eff w"
    using keeps_get_or_load [OF handlers_keepD(1) [OF assms], of "fc_pack_id ctx" "resume_flow_id sp"] load unfolding keeps_io_def by (metis snd_conv)
  show "eff (snd (resume_with_options en ctx sp input surface w)) = eff w"
  proof (cases "sp_pack_id sp = fc_pack_id ctx \<and> (\<exists>flow. l = Inr flow)")
    case False
    with load w1 show ?thesis by (cases l) (auto simp: resume_with_options_def)
  next
    case True
    then obtain flow where l: "l = Inr flow" by blast
    obtain x w2 where drive: "drive_flow en (top_nested en) ctx flow (resumed_state sp input) (Some (sp_next_node sp)) (resume_flow_id sp) w1 = (x, w2)"
      by (metis surj_pair)
    with frame_drive [OF assms frame_nested [OF assms] this] True l load w1 show ?thesis
      by (cases x) (auto simp: resume_with_options_def)
  qed
qed

end
