(* ===== verification/Run_Reports.thy ===== *)
theory Run_Reports
  imports Message_Effects Engine_Frame
begin

section \<open>The reports of a message\<close>

text \<open>
  What the run-outcome sink is told of a message over all its attempts. \<open>log\<close> reads the recorded reports off the
  world: a report appends to it and nothing else changes it.
\<close>

definition keeps_log :: "'w pack_adapter \<Rightarrow> 'w reporter \<Rightarrow> ('w \<Rightarrow> run_outcome list) \<Rightarrow> bool" where
  "keeps_log ad rp log \<longleftrightarrow>
     pk_reporter ad = Some rp \<and> (\<forall>out w. log (rp_sink rp out w) = log w @ [out]) \<and> stores_keep ad log \<and> mint_keeps ad log \<and>
     handlers_keep (pk_engine ad) log"

lemma frame_run_turn: "handlers_keep (pk_engine ad) eff \<Longrightarrow> keeps_io eff (run_turn ad e ctx parked)"
  by (cases parked; cases "ie_entry_node e")
    (simp_all add: run_turn_def resume_surfacing_failures_def execute_def execute_from_def frame_resume frame_execute frame_nested)

lemma keeps_logD:
  assumes "keeps_log ad rp log"
  shows "pk_reporter ad = Some rp" "log (rp_sink rp out w) = log w @ [out]" "stores_keep ad log" "mint_keeps ad log"
    "run_turn ad e ctx parked w = (x, w') \<Longrightarrow> log w' = log w"
  using assms keeps_ioD [OF frame_run_turn] unfolding keeps_log_def by auto

text \<open>
  The run a message belongs to: that of the park, when its marker was stored with it, or a new one. The reports of the
  message carry its id and the next number.
\<close>

definition marker_for :: "run_marker option \<Rightarrow> run_marker \<Rightarrow> bool" where
  "marker_for stored mk \<longleftrightarrow> (case stored of Some m \<Rightarrow> mk = m | None \<Rightarrow> rk_seq mk = 0)"

definition numbered :: "run_marker \<Rightarrow> run_outcome \<Rightarrow> bool" where
  "numbered mk out \<longleftrightarrow> ro_run_id out = rk_run_id mk \<and> ro_seq out = sat_add64 (rk_seq mk) 1"

lemma numbered_reports:
  "numbered (tn_marker turn) (turn_completed turn ob v)" "numbered (tn_marker turn) (turn_waiting turn ob reason sp now ttl)"
  "numbered (tn_marker turn) (turn_failed turn ob err)"
  by (simp_all add: numbered_def report_numbers turn_seq_def)

lemma start_turn_marker:
  assumes "pk_reporter ad = Some rp" "start_turn ad e found flow pack (Some ts, w) = (turn, scope', w')"
  shows "\<exists>tc mk. turn = Some tc \<and> tn_marker tc = mk \<and>
    scope' = Some (ts\<lparr>ts_marker := Some mk, ts_attempts := sat_add32 (ts_attempts ts) 1\<rparr>) \<and>
    (case ts_marker ts of Some m \<Rightarrow> mk = m | None \<Rightarrow> marker_for (Option.bind found snd) mk)"
  using assms
  by (auto simp: start_turn_def open_turn_def retried_marker_def remember_marker_def marker_for_def mint_marker_def turn_begin_def
      with_pack_def Let_def split: option.splits prod.splits)

subsection \<open>One attempt\<close>

text \<open>After an attempt in an open scope: what it recorded, what it left pending, and its marker.\<close>

definition attempt_reports ::
  "('w \<Rightarrow> run_outcome list) \<Rightarrow> run_marker \<Rightarrow> turn_scope \<Rightarrow> 'w \<Rightarrow> runner_error + 'a \<Rightarrow> turn_scope \<Rightarrow> 'w \<Rightarrow> bool" where
  "attempt_reports log mk ts w r ts' w' \<longleftrightarrow>
     (log w' = log w \<and> isl r \<and> (ts_pending ts' = ts_pending ts \<or> (\<exists>out. ts_pending ts' = Some out \<and> numbered mk out)) \<or>
      (\<exists>out. log w' = log w @ [out] \<and> numbered mk out \<and> ts_pending ts' = None \<and> \<not> retryable r))"

lemma settle_reports:
  assumes log: "keeps_log ad rp log" and turn: "turn = Some tc"
    and settle: "settle_turn ad e turn resumed ob x (Some ts, w) = (r, scope', w')"
  shows "\<exists>ts'. scope' = Some ts' \<and> ts_marker ts' = ts_marker ts \<and> attempt_reports log (tn_marker tc) ts w r ts' w'"
proof (cases x)
  case (Inl err)
  let ?out = "turn_failed tc ob err"
  have "log (snd (restamp_run (pk_resume ad) e run v)) = log v" for run v
    using keeps_restamp [OF keeps_logD(3) [OF log]] by (simp add: keeps_io_def)
  with Inl settle turn keeps_logD(1) [OF log] have "r = Inl (classify_flow_error err)" "log w' = log w"
    "scope' = Some (ts\<lparr>ts_pending := Some ?out\<rparr>)"
    by (auto simp: settle_turn_def fail_turn_def report_failure_def split: if_splits)
  then show ?thesis by (auto simp: attempt_reports_def numbered_reports)
next
  case (Inr fx)
  note rp = keeps_logD(1) [OF log]
  show ?thesis
  proof (cases "fx_status fx")
    case FlowCompleted
    let ?out = "turn_completed tc ob (fx_output fx)"
    obtain q w2 where p: "persist_after_effects (pk_platform ad) (clear_parked (pk_resume ad) e) (rp_sink rp ?out w) = (q, w2)"
      by (metis surj_pair)
    have "log w2 = log w @ [?out]"
      using keeps_ioD [OF keeps_persist [OF keeps_logD(3) [OF log] keeps_clear [OF keeps_logD(3) [OF log]]] p] keeps_logD(2) [OF log] by simp
    moreover have "report_turn ad turn (\<lambda>turn rp w. turn_completed turn ob (fx_output fx)) (Some ts, w) = (Some (ts\<lparr>ts_pending := None\<rparr>), rp_sink rp ?out w)"
      using turn rp by (simp add: report_turn_def report_def)
    then have fin: "(case q of Inl err \<Rightarrow> (Inl err, Some (ts\<lparr>ts_pending := None\<rparr>), w2)
        | Inr _ \<Rightarrow> (Inr (fx_output fx, fx_node_outputs fx), Some (ts\<lparr>ts_pending := None\<rparr>), w2)) = (r, scope', w')"
      using p settle Inr FlowCompleted by (cases q) (simp_all add: settle_turn_def finish_turn_run_def sbind_def in_turn_def sret_def)
    have "\<not> retryable r"
    proof (cases q)
      case (Inl err)
      from persist_failed [OF p [unfolded Inl]] obtain m where "err = PostEffectPersistence m" ..
      with Inl fin show ?thesis by (auto simp: retryable_def)
    qed (use fin in \<open>auto simp: retryable_def\<close>)
    moreover have "w' = w2" "scope' = Some (ts\<lparr>ts_pending := None\<rparr>)" using fin by (cases q; simp)+
    ultimately show ?thesis by (auto simp: attempt_reports_def numbered_reports)
  next
    case (FlowWaiting reason sp)
    let ?op = "save_with_run (pk_resume ad) e reason sp (map_option (\<lambda>turn. marker_after turn ob) turn)"
    obtain q w2 where p: "persist_after_effects (pk_platform ad) ?op w = (q, w2)" by (metis surj_pair)
    have w2: "log w2 = log w"
      using keeps_ioD [OF keeps_persist [OF keeps_logD(3) [OF log] keeps_save [OF keeps_logD(3) [OF log]]] p] .
    show ?thesis
    proof (cases q)
      case (Inl err)
      with p settle Inr FlowWaiting have "scope' = Some ts" "w' = w2" "r = Inl err"
        by (auto simp: settle_turn_def finish_turn_run_def sbind_def in_turn_def)
      with w2 show ?thesis by (auto simp: attempt_reports_def)
    next
      case (Inr sc)
      let ?out = "turn_waiting tc ob reason sp (rp_now rp w2) (rp_env_ttl rp)"
      from Inr p settle \<open>x = Inr fx\<close> FlowWaiting turn rp have "scope' = Some (ts\<lparr>ts_pending := None\<rparr>)" "w' = rp_sink rp ?out w2" "\<not> retryable r"
        by (auto simp: settle_turn_def finish_turn_run_def sbind_def in_turn_def report_turn_def report_def retryable_def)
      with w2 keeps_logD(2) [OF log, of ?out w2] show ?thesis by (auto simp: attempt_reports_def numbered_reports)
    qed
  qed
qed

subsection \<open>All attempts of a message\<close>

text \<open>
  Between two attempts: before the run has a marker the waits are those the message found and no report is pending;
  afterwards the marker is that of the message's run, and the pending report carries its numbers.
\<close>

definition between_attempts :: "'w wait_view \<Rightarrow> (wait_slot \<Rightarrow> (string \<times> session_data) option) \<Rightarrow> run_marker option \<Rightarrow> turn_scope \<Rightarrow> 'w \<Rightarrow> bool" where
  "between_attempts waits view stored ts w \<longleftrightarrow>
     (case ts_marker ts of
        None \<Rightarrow> waits w = view \<and> ts_pending ts = None
      | Some mk \<Rightarrow> marker_for stored mk \<and> (\<forall>out. ts_pending ts = Some out \<longrightarrow> numbered mk out))"

definition stored_marker :: "'w resume_store \<Rightarrow> (wait_slot \<Rightarrow> (string \<times> session_data) option) \<Rightarrow> ingress_envelope \<Rightarrow> run_marker option" where
  "stored_marker rs view e = Option.bind (park_of rs view e) rc_run"

definition message_reports :: "run_outcome list \<Rightarrow> run_marker option \<Rightarrow> bool \<Rightarrow> run_outcome list \<Rightarrow> bool" where
  "message_reports before stored ok after \<longleftrightarrow>
     after = before \<and> \<not> ok \<or> (\<exists>mk out. after = before @ [out] \<and> marker_for stored mk \<and> numbered mk out)"

context wait_store
begin

lemma attempt_between:
  assumes log: "keeps_log ad rp log" and rs: "fr_ty (pk_resume ad) = ty" "fr_ops (pk_resume ad) = ops"
    and parsed: "envelope_of_json ty (ac_payload call) = Inr e0"
    and inv: "between_attempts waits view (stored_marker (pk_resume ad) view (canonicalize e0)) ts w"
    and call: "call_traced_unlocked ad call (Some ts, w) = (r, scope', w')"
  shows "\<exists>ts'. scope' = Some ts' \<and>
    (log w' = log w \<and> isl r \<and> between_attempts waits view (stored_marker (pk_resume ad) view (canonicalize e0)) ts' w' \<or>
     \<not> retryable r \<and> ts_pending ts' = None \<and>
     (\<exists>mk out. log w' = log w @ [out] \<and> marker_for (stored_marker (pk_resume ad) view (canonicalize e0)) mk \<and> numbered mk out))"
  using call
proof (cases rule: call_stages)
  case (bad m)
  with parsed rs show ?thesis by simp
next
  case (unread e1 err w1)
  have "log w' = log w" "waits w' = waits w"
    using keeps_ioD [OF keeps_fetch_with_run [OF keeps_logD(3) [OF log]] unread(2)] fetch_with_run_refines [OF rs unread(2)] unread(4) by simp_all
  with inv unread show ?thesis by (auto simp: between_attempts_def split: option.splits)
next
  case (unknown e1 found w1 err)
  have "log w' = log w" "waits w' = waits w"
    using keeps_ioD [OF keeps_fetch_with_run [OF keeps_logD(3) [OF log]] unknown(2)] fetch_with_run_refines [OF rs unknown(2)] unknown(5) by simp_all
  with inv unknown show ?thesis by (auto simp: between_attempts_def split: option.splits)
next
  case (ran e1 found w1 pack turn scope2 w2 x w3)
  have e1: "e1 = e0" using ran(1) parsed rs by simp
  have w1: "log w1 = log w" using keeps_ioD [OF keeps_fetch_with_run [OF keeps_logD(3) [OF log]] ran(2)] .
  have found: "Option.bind found snd = stored_marker (pk_resume ad) (waits w) (canonicalize e0)"
    using fetch_with_run_refines [OF rs ran(2)] e1 by (cases "park_of (pk_resume ad) (waits w) (canonicalize e0)") (simp_all add: stored_marker_def)
  from start_turn_marker [OF keeps_logD(1) [OF log] ran(4)] obtain tc mk where
    tc: "turn = Some tc" "tn_marker tc = mk" "scope2 = Some (ts\<lparr>ts_marker := Some mk, ts_attempts := sat_add32 (ts_attempts ts) 1\<rparr>)"
    and mk: "case ts_marker ts of Some m \<Rightarrow> mk = m | None \<Rightarrow> marker_for (Option.bind found snd) mk" by blast
  have good: "marker_for (stored_marker (pk_resume ad) view (canonicalize e0)) mk"
    using mk inv found by (auto simp: between_attempts_def split: option.splits)
  have w3: "log w3 = log w"
    using keeps_logD(5) [OF log ran(5)] start_turn_keeps [OF keeps_logD(4) [OF log] ran(4)] w1 by simp
  from settle_reports [OF log tc(1) ran(6) [unfolded tc(3)]] obtain ts' where
    ts': "scope' = Some ts'" "ts_marker ts' = Some mk"
    "attempt_reports log mk (ts\<lparr>ts_marker := Some mk, ts_attempts := sat_add32 (ts_attempts ts) 1\<rparr>) w3 r ts' w'"
    using tc(2) by auto
  have pend: "ts_pending ts = Some out \<Longrightarrow> numbered mk out" for out
    using mk inv by (auto simp: between_attempts_def split: option.splits)
  from ts'(3) consider "log w' = log w" "isl r" "\<And>out. ts_pending ts' = Some out \<Longrightarrow> numbered mk out"
    | out where "log w' = log w @ [out]" "numbered mk out" "ts_pending ts' = None" "\<not> retryable r"
    using pend w3 by (auto simp: attempt_reports_def)
  then show ?thesis
  proof cases
    case 1
    with ts' good show ?thesis by (simp add: between_attempts_def)
  qed (use ts' good in blast)
qed

text \<open>
  The state of the store is left alone by the pauses between attempts; then a message is reported at most once, and
  once when the runtime answers, under the run of the park it found.
\<close>

lemma retried_reports:
  assumes log: "keeps_log ad rp log" and rs: "fr_ty (pk_resume ad) = ty" "fr_ops (pk_resume ad) = ops"
    and parsed: "envelope_of_json ty (ac_payload call) = Inr e0"
    and pause: "\<And>n w. waits (snd (pf_random (pk_platform ad) n w)) = waits w" "\<And>n w. waits (pf_sleep (pk_platform ad) n w) = waits w"
    and run: "retry_with_jitter (scoped_platform (pk_platform ad)) p (call_traced_unlocked ad call) (Some turn_scope_new, w) = (r, s1)"
  shows "message_reports (log w) (stored_marker (pk_resume ad) (waits w) (canonicalize e0)) (\<not> isl r)
    (log (snd (close_turn ad outer (isl r) s1)))"
proof -
  let ?pf = "scoped_platform (pk_platform ad)" and ?st = "stored_marker (pk_resume ad) (waits w) (canonicalize e0)"
  let ?P = "\<lambda>s. log (snd s) = log w \<and> (\<exists>ts. fst s = Some ts \<and> between_attempts waits (waits w) ?st ts (snd s))"
  note stores = keeps_logD(3) [OF log]
  have "\<exists>s0. ?P s0 \<and> retry_with_jitter ?pf p (call_traced_unlocked ad call) (Some turn_scope_new, w) = call_traced_unlocked ad call s0"
  proof (rule retry_last_attempt)
    show "?P (Some turn_scope_new, w)" by (simp add: between_attempts_def turn_scope_new_def)
  next
    fix s r s' assume s: "?P s" "call_traced_unlocked ad call s = (r, s')" "retryable r"
    then obtain ts where "s = (Some ts, snd s)" "between_attempts waits (waits w) ?st ts (snd s)" by (metis prod.collapse)
    with attempt_between [OF log rs parsed] s show "?P s'" by (metis fst_conv snd_conv surj_pair)
  next
    fix n s assume "?P s"
    moreover have "log (snd (snd (pf_random ?pf n s))) = log (snd s)" "waits (snd (snd (pf_random ?pf n s))) = waits (snd s)"
      "fst (snd (pf_random ?pf n s)) = fst s"
      using stores_keepD(6) [OF stores, of n "snd s"] pause(1) [of n "snd s"] by (auto simp: scoped_platform_def split: prod.splits)
    ultimately show "?P (snd (pf_random ?pf n s))" by (auto simp: between_attempts_def split: option.splits)
  next
    fix n s assume "?P s"
    then show "?P (pf_sleep ?pf n s)"
      using stores_keepD(7) [OF stores, of n "snd s"] pause(2) [of n "snd s"]
      by (auto simp: scoped_platform_def between_attempts_def split: option.splits)
  qed
  then obtain ts w0 where w0: "log w0 = log w" "between_attempts waits (waits w) ?st ts w0" "call_traced_unlocked ad call (Some ts, w0) = (r, s1)"
    using run by (metis prod.collapse)
  obtain scope' w' where s1: "s1 = (scope', w')" by (metis surj_pair)
  from attempt_between [OF log rs parsed w0(2) w0(3) [unfolded s1]] obtain ts' where ts': "scope' = Some ts'" and
    alt: "log w' = log w0 \<and> isl r \<and> between_attempts waits (waits w) ?st ts' w' \<or>
      \<not> retryable r \<and> ts_pending ts' = None \<and> (\<exists>mk out. log w' = log w0 @ [out] \<and> marker_for ?st mk \<and> numbered mk out)" by blast
  have sink: "log (rp_sink rp out w') = log w' @ [out]" for out by (rule keeps_logD(2) [OF log])
  from alt show ?thesis
  proof
    assume a: "log w' = log w0 \<and> isl r \<and> between_attempts waits (waits w) ?st ts' w'"
    show ?thesis
    proof (cases "ts_pending ts'")
      case (Some out)
      with a obtain mk where "marker_for ?st mk" "numbered mk out" by (auto simp: between_attempts_def split: option.splits)
      with a Some s1 ts' w0(1) keeps_logD(1) [OF log] sink show ?thesis by (auto simp: message_reports_def close_turn_def)
    qed (use a s1 ts' w0(1) keeps_logD(1) [OF log] in \<open>auto simp: message_reports_def close_turn_def\<close>)
  qed (use s1 ts' w0(1) keeps_logD(1) [OF log] in \<open>auto simp: message_reports_def close_turn_def\<close>)
qed

end

end
