(* ===== verification/Runtime_Example.thy ===== *)
theory Runtime_Example
  imports Run_Reports Engine_Claims Flow_Claims
begin

section \<open>A runtime\<close>

text \<open>
  A small runtime that shows that what the theorems on the runtime assume of its surroundings can hold: ids that accept any text,
  a session store of two maps behind the decorator that adds the lifetime of a wait, a sink that records its reports,
  and an engine whose graph handler is busy at first and counts its effects.
\<close>

record rt_world =
  rw_effects :: nat
  rw_tries :: nat
  rw_index :: "wait_slot \<rightharpoonup> string"
  rw_sessions :: "string \<rightharpoonup> session_data"
  rw_log :: "run_outcome list"

definition rt_world_new :: rt_world where
  "rt_world_new = \<lparr>rw_effects = 0, rw_tries = 0, rw_index = (\<lambda>_. None), rw_sessions = (\<lambda>_. None), rw_log = []\<rparr>"

subsection \<open>Types\<close>

fun json_opt :: "json \<Rightarrow> string option" where
  "json_opt (JString s) = Some s"
| "json_opt _ = None"

definition rt_scope_json :: "wait_scope \<Rightarrow> json" where
  "rt_scope_json sc =
     JArray [JString (rs_conversation sc), opt_json (rs_thread sc), opt_json (rs_reply_to sc), opt_json (rs_correlation sc)]"

fun rt_scope_of_json :: "json \<Rightarrow> (string, wait_scope) result" where
  "rt_scope_of_json (JArray [JString c, t, r, i]) =
     Inr \<lparr>rs_conversation = c, rs_thread = json_opt t, rs_reply_to = json_opt r, rs_correlation = json_opt i\<rparr>"
| "rt_scope_of_json _ = Inl []"

definition rt_types :: types_lib where
  "rt_types =
     \<lparr>ty_env_id = Inr, ty_tenant_id = Inr, ty_user_id = Inr, ty_flow_id = Inr, ty_pack_id = Inr,
      ty_scope_hash = (\<lambda>sc. rs_conversation sc @ unwrap_or [] (rs_correlation sc)), ty_scope_json = rt_scope_json,
      ty_scope_of_json = rt_scope_of_json, ty_sha256 = (\<lambda>s. s)\<rparr>"

lemma json_opt_json [simp]: "json_opt (opt_json s) = s"
  by (cases s) (simp_all add: opt_json_def)

lemma rt_scope_codec: "scope_codec rt_types"
  by (auto simp: scope_codec_def rt_types_def rt_scope_json_def)

subsection \<open>The session store\<close>

definition rt_ops :: "rt_world wait_ops" where
  "rt_ops =
     \<lparr>wo_register = (\<lambda>ctx u sc k d t w. (Inr (), w\<lparr>
          rw_index := (\<lambda>s. if s = slot_of rt_types ctx u sc then Some k else if rw_index w s = Some k then None else rw_index w s),
          rw_sessions := (rw_sessions w)(k \<mapsto> d)\<rparr>)),
      wo_find = (\<lambda>ctx u sc w.
        (Inr (case rw_index w (slot_of rt_types ctx u sc) of
                Some k \<Rightarrow> if rw_sessions w k = None then None else Some k | None \<Rightarrow> None), w)),
      wo_get = (\<lambda>k w. (Inr (rw_sessions w k), w)),
      wo_clear = (\<lambda>ctx u sc w.
        (Inr (), case rw_index w (slot_of rt_types ctx u sc) of
           None \<Rightarrow> w
         | Some k \<Rightarrow> w\<lparr>rw_index := (rw_index w)(slot_of rt_types ctx u sc := None), rw_sessions := (rw_sessions w)(k := None)\<rparr>))\<rparr>"

definition rt_waits :: "rt_world wait_view" where
  "rt_waits w s = Option.bind (rw_index w s) (\<lambda>k. map_option (Pair k) (rw_sessions w k))"

lemma rt_waits_Some: "rt_waits w s = Some (k, d) \<longleftrightarrow> rw_index w s = Some k \<and> rw_sessions w k = Some d"
  by (auto simp: rt_waits_def bind_eq_Some_conv)

lemma rt_store: "wait_store rt_types rt_ops rt_waits"
proof
  fix ctx u sc k d t w r1 w' s
  assume "wo_register rt_ops ctx u sc k d t w = (r1, w')" "s \<noteq> slot_of rt_types ctx u sc" "\<forall>d'. rt_waits w s \<noteq> Some (k, d')"
  then show "rt_waits w' s = rt_waits w s"
    by (cases "rw_index w s") (auto simp: rt_ops_def rt_waits_def split: option.splits)
next
  fix ctx u sc w r1 w' s
  assume "wo_clear rt_ops ctx u sc w = (r1, w')" "s \<noteq> slot_of rt_types ctx u sc"
    "\<forall>k d d'. rt_waits w (slot_of rt_types ctx u sc) = Some (k, d) \<longrightarrow> rt_waits w s \<noteq> Some (k, d')"
  then show "rt_waits w' s = rt_waits w s"
    by (cases "rw_index w s") (auto simp: rt_ops_def rt_waits_def split: option.splits)
qed (auto simp: rt_ops_def rt_waits_def bind_eq_Some_conv split: option.splits)

subsection \<open>The adapter\<close>

definition rt_engine :: "rt_world flow_engine" where
  "rt_engine =
     \<lparr>en_tx = ex_text, en_b64 = ex_hex, en_sha = (\<lambda>s. s), en_env = ''prod'', en_registered = (\<lambda>_ _. True),
      en_load = (\<lambda>_ _. sret ex_sub), en_render = (\<lambda>_ t _. Inr t),
      en_now = (\<lambda>_. JNull), en_elapsed_ms = (\<lambda>_. 0), en_random = (\<lambda>n w. (replicate n (CHR ''r''), w)),
      en_failure_text = (\<lambda>_. ''failed''), en_component_issues = (\<lambda>_. False), en_tool_issues = (\<lambda>_. False),
      en_asset = (\<lambda>_ _. None), en_component = (\<lambda>_ _ _. sret JNull), en_resolve_provider = (\<lambda>_ _ _. None),
      en_provider = (\<lambda>_ _ _ _ _ _. sret JNull), en_cross_pack = None, en_store = None,
      en_tenant_error = (\<lambda>_. None), en_nats = False, en_agent_session = (\<lambda>i. sret (unwrap_or [] i)), en_agent = None,
      en_graph = Some (\<lambda>_ _ _ _ w. if rw_tries w = 0 then (Inl (PreEffect (Leaf True ''busy'')), w\<lparr>rw_tries := 1\<rparr>)
                                     else (Inr JNull, w\<lparr>rw_effects := Suc (rw_effects w)\<rparr>)),
      en_operala = None, en_sorla_http = None, en_mcp = (\<lambda>_ _ _ _ w. (JNull, w)),
      en_a2a_answer = (\<lambda>_. None), en_a2a = (\<lambda>_ _ _ _ w. (JNull, w)), en_media = (\<lambda>_ _ w. (JNull, w)),
      en_remote = None, en_approval_remote = None\<rparr>"

lemma rt_tracked: "tracked rt_engine rw_effects"
  by (simp add: tracked_def rt_engine_def keeps_io_def pre_keeps_def sret_def)

lemma rt_quiet_log: "handlers_keep rt_engine rw_log"
  by (simp add: handlers_keep_def tracked_def rt_engine_def keeps_io_def pre_keeps_def sret_def)

lemma rt_quiet_waits: "handlers_keep rt_engine rt_waits"
  by (simp add: handlers_keep_def tracked_def rt_engine_def keeps_io_def pre_keeps_def sret_def rt_waits_def fun_eq_iff)

definition rt_platform :: "rt_world platform" where
  "rt_platform =
     \<lparr>pf_now = (\<lambda>_. 0), pf_random = (\<lambda>_ w. (0, w)), pf_sleep = (\<lambda>_ w. w), pf_to_vec = (\<lambda>_. Inr []),
      pf_sha256_hex = (\<lambda>s. s)\<rparr>"

definition rt_reporter :: "rt_world reporter" where
  "rt_reporter =
     \<lparr>rp_sink = (\<lambda>out w. w\<lparr>rw_log := rw_log w @ [out]\<rparr>), rp_mint = Pair (''run'', ''now''), rp_now = (\<lambda>_. 0), rp_env_ttl = None\<rparr>"

text \<open>Its store keeps the park of the first turn of the flow, with a marker of the run.\<close>

definition rt_ctx :: flow_ctx where
  "rt_ctx =
     \<lparr>fc_tenant = ''acme'', fc_pack_id = ''p'', fc_flow_id = ''sub'', fc_session_id = Some ''acme:web:c:v:u'',
      fc_provider_id = Some ''web'', fc_reply_scope = Some (reply_scope.truncate (plain_scope ''v'')),
      fc_max_attempts = 3, fc_attempt = 1, fc_caller = None\<rparr>"

definition rt_ready :: rt_world where
  "rt_ready = rt_world_new\<lparr>rw_tries := 1\<rparr>"

definition rt_park :: resume_record where
  "rt_park =
     (case fst (execute rt_engine rt_ctx JNull rt_ready) of
        Inr x \<Rightarrow>
          (case fx_status x of
             FlowWaiting reason sp \<Rightarrow> \<lparr>rc_snapshot = sp, rc_reason = reason, rc_run = None\<rparr>
           | FlowCompleted \<Rightarrow> \<lparr>rc_snapshot = ex_snapshot ''sub'' ''work'', rc_reason = None, rc_run = None\<rparr>)
      | Inl _ \<Rightarrow> \<lparr>rc_snapshot = ex_snapshot ''sub'' ''work'', rc_reason = None, rc_run = None\<rparr>)"

definition rt_marker :: "nat \<Rightarrow> run_marker" where
  "rt_marker n = \<lparr>rk_run_id = ''run'', rk_started_at = ''now'', rk_agentic = False, rk_seq = n, rk_agent_ref = None\<rparr>"

definition rt_encode :: "resume_record \<Rightarrow> (string, string) result" where
  "rt_encode r =
     (case rc_run r of
        Some m \<Rightarrow>
          if r = rt_park\<lparr>rc_run := Some m\<rparr> \<and> m = rt_marker (rk_seq m) then Inr (replicate (rk_seq m) (CHR ''i'')) else Inl ''not encoded''
      | None \<Rightarrow> Inl ''not encoded'')"

definition rt_resume :: "rt_world resume_store" where
  "rt_resume =
     \<lparr>fr_ty = rt_types, fr_ops = default_wait_ttl 86400 rt_ops, fr_encode = rt_encode,
      fr_decode = (\<lambda>s. Inr (persisted (rt_park\<lparr>rc_run := Some (rt_marker (length s))\<rparr>))),
      fr_random = (\<lambda>n w. (replicate n (CHR ''r''), w))\<rparr>"

lemma rt_turn_waits:
  "\<exists>x. execute rt_engine rt_ctx JNull rt_ready = (Inr x, rt_ready\<lparr>rw_effects := 1\<rparr>) \<and>
     fx_status x = FlowWaiting (rc_reason rt_park) (rc_snapshot rt_park)"
proof -
  have "\<exists>x reason sp. execute_once rt_engine nested (rt_ctx\<lparr>fc_attempt := Suc 0\<rparr>) JNull None rt_ready = (Inr x, rt_ready\<lparr>rw_effects := 1\<rparr>) \<and>
      fx_status x = FlowWaiting reason sp" for nested
    by (simp add: engine_defs rt_engine_def rt_ctx_def rt_ready_def rt_world_new_def ex_text_def ex_sub_def ex_flow_def ex_node_def node_defs
        Let_def waiting_def)
  then obtain x reason sp where "execute_once rt_engine (top_nested rt_engine) (rt_ctx\<lparr>fc_attempt := Suc 0\<rparr>) JNull None rt_ready =
      (Inr x, rt_ready\<lparr>rw_effects := 1\<rparr>)" and x: "fx_status x = FlowWaiting reason sp" by blast
  then have "execute rt_engine rt_ctx JNull rt_ready = (Inr x, rt_ready\<lparr>rw_effects := 1\<rparr>)"
    by (simp add: execute_def execute_with_options_def check_entry_def sbind_def sret_def attempts.simps)
  with x show ?thesis by (simp add: rt_park_def)
qed

definition rt_flow :: flow_descriptor where
  "rt_flow = \<lparr>ds_id = ''sub'', ds_pack_id = ''p'', ds_version = ''1'', ds_description = None\<rparr>"

definition rt_adapter :: "rt_world pack_adapter" where
  "rt_adapter =
     \<lparr>pk_tenant = ''acme'', pk_engine = rt_engine, pk_flows = [rt_flow], pk_resume = rt_resume, pk_max_attempts = 3,
      pk_platform = rt_platform, pk_reporter = Some rt_reporter, pk_events = (\<lambda>_ _. []), pk_identity = (\<lambda>_. None)\<rparr>"

definition rt_envelope :: ingress_envelope where
  "rt_envelope =
     \<lparr>ie_tenant = ''acme'', ie_env = None, ie_pack_id = Some ''p'', ie_flow_id = ''sub'', ie_flow_type = None, ie_action = None,
      ie_session_hint = None, ie_provider = Some ''web'', ie_endpoint_id = None, ie_channel = Some ''c'', ie_conversation = Some ''v'',
      ie_user = Some ''u'', ie_entry_node = None, ie_activity_id = None, ie_timestamp = None, ie_payload = JNull,
      ie_metadata = None, ie_reply_scope = None\<rparr>"

interpretation rt: wait_store rt_types "default_wait_ttl 86400 rt_ops" rt_waits
  by (rule default_wait_ttl_store [OF rt_store])

lemmas rt_defs = rt_adapter_def rt_resume_def rt_engine_def rt_platform_def rt_reporter_def rt_types_def

lemma rt_fields:
  "pk_engine rt_adapter = rt_engine" "pk_resume rt_adapter = rt_resume" "pk_platform rt_adapter = rt_platform"
  "pk_reporter rt_adapter = Some rt_reporter" "pk_flows rt_adapter = [rt_flow]"
  "fr_ty rt_resume = rt_types" "fr_ops rt_resume = default_wait_ttl 86400 rt_ops"
  "pf_random rt_platform n w = (0, w)" "pf_sleep rt_platform n w = w"
  by (simp_all add: rt_adapter_def rt_resume_def rt_platform_def)

lemma rt_codec: "resume_codec rt_resume"
  by (auto simp: resume_codec_def rt_resume_def rt_encode_def split: option.splits if_splits)

lemma rt_apart: "reports_apart rt_adapter rt_waits"
  by (simp add: reports_apart_def rt_fields rt_reporter_def rt_waits_def fun_eq_iff)

lemma rt_stores_keep:
  "stores_keep rt_adapter rw_effects" "stores_keep rt_adapter rw_log"
  by (simp_all add: stores_keep_def rt_fields Let_def default_wait_ttl_def rt_ops_def rt_resume_def keeps_io_def split: option.splits)

lemma rt_surroundings: "surroundings_keep rt_adapter rw_effects"
  by (simp add: surroundings_keep_def rt_stores_keep mint_keeps_def sink_keeps_def rt_fields rt_reporter_def)

lemma rt_keeps_log: "keeps_log rt_adapter rt_reporter rw_log"
  by (simp add: keeps_log_def rt_stores_keep mint_keeps_def rt_fields rt_reporter_def rt_quiet_log)

lemma rt_accepted: "accepted rt_adapter rt_flow rt_envelope"
  by (simp add: accepted_def rt_defs rt_flow_def rt_envelope_def flow_key_def envelope_ctx_def map_err_def Let_def)

definition rt_canonical :: ingress_envelope where
  "rt_canonical = canonicalize rt_envelope"

lemma rt_canonical:
  "rt_canonical = rt_envelope\<lparr>ie_session_hint := Some ''acme:web:c:v:u'', ie_reply_scope := Some (plain_scope ''v'')\<rparr>"
  by (simp add: rt_canonical_def canonicalize_def rt_envelope_def envelope_hint_def canonical_session_hint_def namespaced_hint_def
      unwrap_or_def Let_def)

lemma rt_parsed: "envelope_of_json rt_types (envelope_json rt_types rt_envelope) = Inr rt_envelope"
  using envelope_json_roundtrip [OF rt_scope_codec, of rt_envelope] by (simp add: rt_envelope_def)

definition rt_machine :: "(unit, state_map, rt_world scoped) state_machine" where
  "rt_machine = projr (from_flow_engine rt_adapter discard_sessions in_memory_state)"

lemma rt_machine: "from_flow_engine rt_adapter discard_sessions in_memory_state = Inr rt_machine"
proof -
  obtain m :: "(unit, state_map, rt_world scoped) state_machine" where
    "from_flow_engine rt_adapter discard_sessions in_memory_state = Inr m" using assembles by blast
  then show ?thesis by (simp add: rt_machine_def)
qed

lemma rt_state: "fst (to_set_json in_memory_state k v u) = Inr ()"
  by (simp add: in_memory_state_def set_json_def)

end
