(* ===== verification/Runtime_Claims.thy ===== *)
theory Runtime_Claims
  imports Runtime_Example
begin

section \<open>Claims on the runtime\<close>

text \<open>
  The properties of the pack-flow adapter, of the runtime over it and of the reports it makes, each followed by its
  application to the runtime of the example.
\<close>

subsection \<open>A turn and its park\<close>

lemma unshadowed_plain:
  assumes "\<forall>sc. ie_reply_scope e = Some sc \<longrightarrow> rs_correlation sc = None"
  shows "unshadowed ty view e"
proof -
  have "lookup_scopes sc = [base_scope sc]" if "rs_correlation sc = None" for sc
    using that by (simp add: lookup_scopes_def base_scope_id)
  with assms show ?thesis
    by (auto simp: unshadowed_def envelope_slots_def home_slot_def build_store_ctx_def ok_or_def rbind_def Let_def split: sum.splits option.splits)
qed

lemma turn_contract_waits: "waits v = waits w \<Longrightarrow> turn_contract ad waits e x v r w' = turn_contract ad waits e x w r w'"
  by (cases x) (simp_all add: turn_contract_def)

text \<open>
  C13. The park of an envelope is the whole state of its conversation. A message whose reply scope has no
  correlation id runs its flow from the park that its envelope addresses, or afresh when there is none, unless the
  store cannot be read or the flow is not registered, and then the waits are as before. After the run the
  envelope addresses no park when the flow has completed, the new park as serde reads it back when the flow waits,
  and the old one, with at most another run marker, when the run has failed and the store took the marker; the adapter
  answers accordingly, or with the error that the state could not be saved. The session store keeps its contract, and the reports and the
  handlers of the engine leave the waits alone.
\<close>

theorem turn_refines_park:
  assumes store: "wait_store (fr_ty (pk_resume ad)) (fr_ops (pk_resume ad)) waits" and codec: "resume_codec (pk_resume ad)"
    and apart: "reports_apart ad waits" "handlers_keep (pk_engine ad) waits"
    and parsed: "envelope_of_json (fr_ty (pk_resume ad)) (ac_payload call) = Inr e0" and e: "e = canonicalize e0"
    and plain: "\<forall>sc. ie_reply_scope e = Some sc \<longrightarrow> rs_correlation sc = None"
    and call: "call_traced_unlocked ad call (scope, w) = (r, scope', w')"
    and p: "p = map_option rc_snapshot (park_of (pk_resume ad) (waits w) e)" and f: "f = effective_flow (ac_operation call) p"
  shows "(\<exists>err. r = Inl err \<and> waits w' = waits w \<and>
      (fetch_with_run (pk_resume ad) e w = (Inl err, w') \<or> effective_pack (pk_flows ad) e f p = Inl err)) \<or>
    (\<exists>pack w2 x w3. effective_pack (pk_flows ad) e f p = Inr pack \<and> waits w2 = waits w \<and>
      run_turn ad e (turn_flow_ctx ad e f pack) p w2 = (x, w3) \<and> turn_contract ad waits e x w r w')"
  using call
proof (cases rule: call_stages)
  case (bad m)
  with parsed show ?thesis by simp
next
  case (unread e1 err w1)
  with parsed e wait_store.fetch_with_run_refines [OF store refl refl unread(2)] show ?thesis by auto
next
  case (unknown e1 found w1 err)
  have "map_option fst found = p"
    using wait_store.fetch_with_run_refines [OF store refl refl unknown(2)] unknown(1) parsed e p by (simp add: option.map_comp comp_def)
  with unknown parsed e f wait_store.fetch_with_run_refines [OF store refl refl unknown(2)] show ?thesis by auto
next
  case (ran e1 found w1 pack turn scope2 w2 x w3)
  have e1: "canonicalize e1 = e" using ran(1) parsed e by simp
  note fetched = wait_store.fetch_with_run_refines [OF store refl refl ran(2)]
  have found: "map_option fst found = p" using fetched e1 p by (simp add: option.map_comp comp_def)
  have w2: "waits w2 = waits w" using start_turn_waits(1) [OF apart(1) ran(4)] fetched by simp
  moreover have "waits w3 = waits w" using keeps_ioD [OF frame_run_turn [OF apart(2)] ran(5)] w2 by simp
  moreover have "turn_contract ad waits e x w3 r w'"
    using wait_store.turn_meets_contract [OF store refl refl codec apart(1) _ start_turn_waits(2) [OF apart(1) ran(4)]]
      ran(6) unshadowed_plain [OF plain] e1 by blast
  ultimately show ?thesis
    using ran(3,5) found f e1 turn_contract_waits [of waits w3 w ad e x r w'] by auto
qed

lemma rt_fetch: "fetch_with_run rt_resume rt_canonical rt_ready = (Inr None, rt_ready)"
  by (simp add: fetch_with_run_def fetch_record_def build_store_ctx_def rt_canonical rt_envelope_def rt_fields rt_types_def
      derive_user_id_def store_hint_def envelope_ctx_def map_err_def ok_or_def plain_scope_def lookup_scopes_def Let_def unwrap_or_def
      sbind_def sres_def sret_def smap_err_def fetch_scope_def default_wait_ttl_def rt_ops_def rt_ready_def rt_world_new_def)

lemma rt_no_park: "park_of rt_resume (rt_waits rt_ready) rt_canonical = None"
  using rt.fetch_with_run_refines [OF rt_fields(6,7) rt_fetch] by simp

theorem turn_refines_park_witness:
  "\<exists>w2 x w3 r scope' w'.
     call_traced_unlocked rt_adapter (message_call rt_adapter rt_flow rt_envelope) (Some turn_scope_new, rt_ready) = (r, scope', w') \<and>
     run_turn rt_adapter rt_canonical rt_ctx None w2 = (x, w3) \<and> turn_contract rt_adapter rt_waits rt_canonical x rt_ready r w'"
proof -
  obtain r scope' w' where call: "call_traced_unlocked rt_adapter (message_call rt_adapter rt_flow rt_envelope) (Some turn_scope_new, rt_ready) =
      (r, scope', w')" by (metis prod_cases3)
  have op: "effective_flow (ac_operation (message_call rt_adapter rt_flow rt_envelope)) None = ''sub''"
    by (simp add: message_call_def pack_call_def effective_flow_def rt_flow_def)
  have pack: "effective_pack (pk_flows rt_adapter) rt_canonical ''sub'' None = Inr ''p''"
    by (simp add: effective_pack_def rt_canonical rt_envelope_def flow_by_key_def rt_fields rt_flow_def)
  have ctx: "turn_flow_ctx rt_adapter rt_canonical ''sub'' ''p'' = rt_ctx"
    by (simp add: turn_flow_ctx_def rt_canonical rt_envelope_def rt_adapter_def session_of_def caller_block_def rt_ctx_def unwrap_or_def)
  have payload: "ac_payload (message_call rt_adapter rt_flow rt_envelope) = envelope_json rt_types rt_envelope"
    by (simp add: message_call_def pack_call_def rt_fields)
  have plain: "\<forall>sc. ie_reply_scope rt_canonical = Some sc \<longrightarrow> rs_correlation sc = None"
    by (simp add: rt_canonical plain_scope_def)
  have parsed: "envelope_of_json rt_types (ac_payload (message_call rt_adapter rt_flow rt_envelope)) = Inr rt_envelope"
    using payload rt_parsed by simp
  note turn = turn_refines_park [where ad = rt_adapter and e = rt_canonical, unfolded rt_fields, OF rt.wait_store_axioms rt_codec rt_apart
      rt_quiet_waits parsed rt_canonical_def plain call refl refl, unfolded rt_no_park option.map op]
  with pack [unfolded rt_fields] rt_fetch obtain w2 x w3 where "run_turn rt_adapter rt_canonical (turn_flow_ctx rt_adapter rt_canonical ''sub'' ''p'') None w2 = (x, w3)"
    "turn_contract rt_adapter rt_waits rt_canonical x rt_ready r w'" by auto
  with call ctx show ?thesis by auto
qed

subsection \<open>A message\<close>

lemma close_turn_keeps: "surroundings_keep ad eff \<Longrightarrow> eff (snd (close_turn ad outer failed s)) = eff (snd s)"
  by (auto simp: close_turn_def surroundings_keep_def sink_keeps_def split: option.splits)

text \<open>
  C18. A message performs its external effects in one attempt. The runtime answers what one call of the
  pack-flow adapter answers, and that call starts with the tracked effects as they were when the message came: the
  attempts of the state machine before it, like the attempts of the engine within them, have performed none. When the
  runtime answers with an error that is not terminal, the message has performed none at all. The session
  store, the reports and the pauses are not among the tracked effects, and the state host accepts what it is given.
\<close>

theorem message_effects_once:
  assumes tr: "tracked (pk_engine ad) eff" and around: "surroundings_keep ad eff"
    and m: "from_flow_engine ad discard_sessions state = Inr m" and ok: "accepted ad d e"
    and state: "\<And>k v u. fst (to_set_json state k v u) = Inr ()"
    and run: "handle ad m e (s, t, scope, w) = (r, s', t', scope', w')"
  shows "\<exists>s0 q s1. eff (snd s0) = eff w \<and> call_traced_unlocked ad (message_call ad d e) s0 = (q, s1) \<and> s' = s \<and> eff w' = eff (snd s1) \<and>
    (case q of
       Inl err \<Rightarrow> r = Inl (''flow execution failed: '' @ runner_display err) \<and> (\<not> is_terminal err \<longrightarrow> eff w' = eff w)
     | Inr (response, nodes) \<Rightarrow> r = Inr response)"
proof -
  have start: "eff (snd (turn_start ad (scope, w))) = eff w" by (simp add: turn_start_def)
  obtain s0 where s0: "eff (snd s0) = eff w" and retry: "retry_with_jitter (scoped_platform (pk_platform ad)) retry_policy_default
      (call_traced_unlocked ad (message_call ad d e)) (turn_start ad (scope, w)) = call_traced_unlocked ad (message_call ad d e) s0"
    using last_attempt [OF tr around, of "turn_start ad (scope, w)"] start by metis
  obtain q s1 where call: "call_traced_unlocked ad (message_call ad d e) s0 = (q, s1)" by (metis surj_pair)
  note answer = handle_message [OF m ok state, where scope = scope and w = w and s = s and t = t, unfolded retry call]
  show ?thesis
  proof (cases q)
    case (Inl err)
    with answer run have "r = Inl (''flow execution failed: '' @ runner_display err)" "s' = s"
      and s1: "(scope', w') = close_turn ad (scope, w) True s1" by auto
    moreover have "eff w' = eff (snd s1)" using close_turn_keeps [OF around, of "(scope, w)" True s1] s1 [symmetric] by simp
    moreover have "eff (snd s1) = eff (snd s0)" if "\<not> is_terminal err"
      using retryable_attempt [OF tr around call] Inl that by (simp add: retryable_def)
    ultimately show ?thesis using s0 call Inl by (intro exI [of _ s0] exI [of _ q] exI [of _ s1]) auto
  next
    case (Inr a)
    obtain response nodes where a: "a = (response, nodes)" by (metis surj_pair)
    with Inr answer obtain t1 where "handle ad m e (s, t, scope, w) = (Inr response, s, t1, close_turn ad (scope, w) False s1)" by auto
    with run have "r = Inr response" "s' = s" and s1: "(scope', w') = close_turn ad (scope, w) False s1" by auto
    moreover have "eff w' = eff (snd s1)" using close_turn_keeps [OF around, of "(scope, w)" False s1] s1 [symmetric] by simp
    ultimately show ?thesis using s0 call Inr a by (intro exI [of _ s0] exI [of _ q] exI [of _ s1]) auto
  qed
qed

theorem message_effects_once_witness:
  "\<exists>r s' t' scope' w' s0 q s1. handle rt_adapter rt_machine rt_envelope ((), [], None, rt_world_new) = (r, s', t', scope', w') \<and>
     rw_effects (snd s0) = 0 \<and> call_traced_unlocked rt_adapter (message_call rt_adapter rt_flow rt_envelope) s0 = (q, s1) \<and>
     rw_effects w' = rw_effects (snd s1)"
proof -
  obtain r s' t' scope' w' where run: "handle rt_adapter rt_machine rt_envelope ((), [], None, rt_world_new) = (r, s', t', scope', w')"
    by (metis prod_cases5)
  from message_effects_once [where ad = rt_adapter, unfolded rt_fields, OF rt_tracked rt_surroundings rt_machine rt_accepted rt_state run]
  obtain s0 q s1 where "rw_effects (snd s0) = rw_effects rt_world_new"
    "call_traced_unlocked rt_adapter (message_call rt_adapter rt_flow rt_envelope) s0 = (q, s1)" "rw_effects w' = rw_effects (snd s1)"
    by (elim exE conjE)
  with run show ?thesis unfolding rt_world_new_def rt_world.simps by blast
qed

text \<open>
  C22. A message is reported at most once over all its attempts, and exactly once when the runtime answers: the
  sink gets one outcome, with the run id of the park the message found and the number after the last of its run,
  or with the number one in a new run when the park had none. Between the attempts the waits stay as they are.
\<close>

theorem one_report_per_message:
  assumes log: "keeps_log ad rp log" and store: "wait_store (fr_ty (pk_resume ad)) (fr_ops (pk_resume ad)) waits"
    and pause: "\<And>n w. waits (snd (pf_random (pk_platform ad) n w)) = waits w" "\<And>n w. waits (pf_sleep (pk_platform ad) n w) = waits w"
    and codec: "scope_codec (fr_ty (pk_resume ad))"
    and m: "from_flow_engine ad discard_sessions state = Inr m" and ok: "accepted ad d e"
    and state: "\<And>k v u. fst (to_set_json state k v u) = Inr ()"
    and run: "handle ad m e (s, t, scope, w) = (r, s', t', scope', w')"
  shows "log w' = log w \<and> isl r \<or>
    (\<exists>mk out. log w' = log w @ [out] \<and> ro_run_id out = rk_run_id mk \<and> ro_seq out = sat_add64 (rk_seq mk) 1 \<and>
      (case Option.bind (park_of (pk_resume ad) (waits w) (canonicalize e)) rc_run of Some mk' \<Rightarrow> mk = mk' | None \<Rightarrow> rk_seq mk = 0))"
proof -
  let ?call = "message_call ad d e" and ?e = "e\<lparr>ie_metadata := optional_value (ie_metadata e)\<rparr>"
  have parsed: "envelope_of_json (fr_ty (pk_resume ad)) (ac_payload ?call) = Inr ?e"
    using envelope_json_roundtrip [OF codec] by (simp add: message_call_def pack_call_def)
  have "build_store_ctx ty (canonicalize ?e) = build_store_ctx ty (canonicalize e)" for ty
    by (simp add: build_store_ctx_def envelope_ctx_def store_hint_def envelope_hint_def canonicalize_def Let_def)
  then have same: "park_of (pk_resume ad) view (canonicalize ?e) = park_of (pk_resume ad) view (canonicalize e)" for view
    by (simp add: park_of_def envelope_slots_def)
  have start: "turn_start ad (scope, w) = (Some turn_scope_new, w)" using keeps_logD(1) [OF log] by (simp add: turn_start_def)
  obtain q s1 where retry: "retry_with_jitter (scoped_platform (pk_platform ad)) retry_policy_default (call_traced_unlocked ad ?call)
      (Some turn_scope_new, w) = (q, s1)" by (metis surj_pair)
  note reports = wait_store.retried_reports [OF store log refl refl parsed pause retry, of "(scope, w)"]
  have "isl r = isl q" "close_turn ad (scope, w) (isl q) s1 = (scope', w')"
    using handle_message [OF m ok state, where scope = scope and w = w and s = s and t = t, unfolded start retry] run by (cases q; auto)+
  then have "message_reports (log w) (stored_marker (pk_resume ad) (waits w) (canonicalize ?e)) (\<not> isl r) (log w')"
    using reports by simp
  then show ?thesis by (auto simp: message_reports_def stored_marker_def same marker_for_def numbered_def)
qed

theorem one_report_per_message_witness:
  "\<exists>r s' t' scope' w'. handle rt_adapter rt_machine rt_envelope ((), [], None, rt_ready) = (r, s', t', scope', w') \<and>
     (rw_log w' = [] \<and> isl r \<or> (\<exists>out. rw_log w' = [out] \<and> ro_seq out = 1))"
proof -
  obtain r s' t' scope' w' where run: "handle rt_adapter rt_machine rt_envelope ((), [], None, rt_ready) = (r, s', t', scope', w')"
    by (metis prod_cases5)
  have "rw_log rt_ready = []" by (simp add: rt_ready_def rt_world_new_def)
  moreover have "\<And>n w. rt_waits (snd (pf_random rt_platform n w)) = rt_waits w" "\<And>n w. rt_waits (pf_sleep rt_platform n w) = rt_waits w"
    by (simp_all add: rt_fields)
  moreover have "sat_add64 0 1 = 1" by (simp add: sat_add64_def u64_max_def)
  ultimately show ?thesis
    using one_report_per_message [where ad = rt_adapter, unfolded rt_fields, OF rt_keeps_log rt.wait_store_axioms _ _ rt_scope_codec rt_machine
        rt_accepted rt_state run] rt_no_park run
    by (auto simp: rt_fields rt_canonical_def)
qed

subsection \<open>Conversations apart\<close>

text \<open>The ids of \<open>greentic_types\<close> keep the text they are built from.\<close>

definition text_ids :: "types_lib \<Rightarrow> bool" where
  "text_ids ty \<longleftrightarrow> (\<forall>s i. (ty_env_id ty s = Inr i \<longrightarrow> i = s) \<and> (ty_tenant_id ty s = Inr i \<longrightarrow> i = s) \<and> (ty_user_id ty s = Inr i \<longrightarrow> i = s))"

lemma slot_parts:
  assumes "s \<in> set (envelope_slots ty e)"
  shows "\<exists>env tenant user h. s = (env, tenant, user, h) \<and>
    ty_env_id ty (unwrap_or DEFAULT_ENV (ie_env e)) = Inr env \<and> ty_tenant_id ty (ie_tenant e) = Inr tenant \<and>
    derive_user_id ty (store_hint e) = Inr user \<and> turn_key ty e = Inr (env @ '':'' @ tenant @ '':'' @ user)"
  using assms
  by (auto simp: envelope_slots_def turn_key_def build_store_ctx_def envelope_ctx_def slot_of_def Let_def ok_or_def map_err_def rbind_def
      split: sum.splits option.splits)

lemma user_of_hint:
  assumes "text_ids ty" "derive_user_id ty h = Inr u" "derive_user_id ty h' = Inr u"
  shows "take 8 (ty_sha256 ty h) = take 8 (ty_sha256 ty h')"
proof -
  have "bytes_hex (take 8 (ty_sha256 ty h)) = bytes_hex (take 8 (ty_sha256 ty h'))"
    using assms by (auto simp: derive_user_id_def text_ids_def map_err_def split: sum.splits)
  then show ?thesis by (metis hex_bytes_hex option.inject)
qed

lemma store_hint_prefix:
  assumes "is_canonical e" "ie_endpoint_id e = Some i"
  shows "\<exists>t. store_hint e = ''ep='' @ i @ ''::'' @ t"
proof -
  obtain h where "ie_session_hint e = Some (namespaced_hint (Some i) h)" using assms by (auto simp: is_canonical_def)
  with namespaced_prefix [of i h] show ?thesis by (auto simp: store_hint_def unwrap_or_def Let_def split: option.splits)
qed

text \<open>
  C26. Conversations that differ in tenant, environment, endpoint or session hint share no park: when two canonical
  envelopes address the same wait, both are of one tenant, one environment and one session hint with its pack, they
  are not of two endpoints, and their turns take the same lock, so two turns that could touch one park never run at
  once. The ids keep their text and the digests of the two hints do not collide.
\<close>

theorem parks_separate:
  assumes ids: "text_ids ty" and hints: "h = store_hint (canonicalize e)" "k = store_hint (canonicalize f)"
    and digest: "take 8 (ty_sha256 ty h) = take 8 (ty_sha256 ty k) \<Longrightarrow> h = k"
    and s: "s \<in> set (envelope_slots ty (canonicalize e))" "s \<in> set (envelope_slots ty (canonicalize f))"
  shows "ie_tenant e = ie_tenant f \<and> unwrap_or DEFAULT_ENV (ie_env e) = unwrap_or DEFAULT_ENV (ie_env f) \<and> h = k \<and>
    turn_key ty (canonicalize e) = turn_key ty (canonicalize f) \<and>
    (\<forall>i j. ie_endpoint_id (canonicalize e) = Some i \<longrightarrow> ie_endpoint_id (canonicalize f) = Some j \<longrightarrow> i = j)"
proof -
  obtain env tenant user hash where parts: "s = (env, tenant, user, hash)"
    "ty_env_id ty (unwrap_or DEFAULT_ENV (ie_env e)) = Inr env" "ty_tenant_id ty (ie_tenant e) = Inr tenant"
    "derive_user_id ty h = Inr user" "turn_key ty (canonicalize e) = Inr (env @ '':'' @ tenant @ '':'' @ user)"
    using slot_parts [OF s(1)] hints(1) by (auto simp: canonical_fields)
  then have parts': "ty_env_id ty (unwrap_or DEFAULT_ENV (ie_env f)) = Inr env" "ty_tenant_id ty (ie_tenant f) = Inr tenant"
    "derive_user_id ty k = Inr user" "turn_key ty (canonicalize f) = Inr (env @ '':'' @ tenant @ '':'' @ user)"
    using slot_parts [OF s(2)] hints(2) by (auto simp: canonical_fields)
  have hk: "h = k" using digest user_of_hint [OF ids parts(4) parts'(3)] .
  have "i = j" if i: "ie_endpoint_id (canonicalize e) = Some i" and j: "ie_endpoint_id (canonicalize f) = Some j" for i j
  proof -
    obtain t where "h = ''ep='' @ i @ ''::'' @ t" using store_hint_prefix [OF is_canonical i] hints by auto
    moreover obtain t' where "h = ''ep='' @ j @ ''::'' @ t'" using store_hint_prefix [OF is_canonical j] hk hints by auto
    ultimately have "i @ ''::'' @ t = j @ ''::'' @ t'" by simp
    moreover have "colon_free i" "colon_free j"
      using is_canonical i j valid_endpoint_colon_free unfolding is_canonical_def by blast+
    ultimately show ?thesis by (metis split_colons_append option.inject prod.inject)
  qed
  then show ?thesis using parts parts' hk ids unfolding text_ids_def by metis
qed

theorem parks_separate_witness:
  "turn_key rt_types (canonicalize rt_envelope) = turn_key rt_types (canonicalize (rt_envelope\<lparr>ie_payload := JBool True\<rparr>))"
proof -
  let ?f = "rt_envelope\<lparr>ie_payload := JBool True\<rparr>"
  have ids: "text_ids rt_types" by (simp add: text_ids_def rt_types_def)
  have f: "canonicalize ?f = (canonicalize rt_envelope)\<lparr>ie_payload := JBool True\<rparr>"
    by (simp add: canonicalize_def rt_envelope_def envelope_hint_def Let_def)
  have hint: "store_hint (canonicalize rt_envelope) = store_hint (canonicalize ?f)"
    unfolding f by (simp add: store_hint_def envelope_hint_def)
  have slots: "envelope_slots rt_types (canonicalize rt_envelope) = envelope_slots rt_types (canonicalize ?f)"
    unfolding f by (simp add: envelope_slots_def build_store_ctx_def store_hint_def envelope_ctx_def envelope_hint_def)
  have "home_slot rt_types rt_canonical \<noteq> None"
    using rt.fetch_record_refines [OF rt_fields(6,7), of rt_canonical rt_ready] rt_fetch
    by (auto simp: fetch_with_run_def sbind_def sret_def split: prod.splits sum.splits)
  then obtain s where s: "s \<in> set (envelope_slots rt_types (canonicalize rt_envelope))"
    using home_in_slots unfolding rt_canonical_def by blast
  from parks_separate [OF ids refl refl hint s s [unfolded slots]] show ?thesis by (elim conjE)
qed

text \<open>
  The key a wait is registered under is made of the session hint and the scope: when the sender gives the hint, it does
  not depend on the tenant.
\<close>

theorem entry_key_without_tenant:
  assumes "ie_session_hint e = Some h"
  shows "store_hint (canonicalize (e\<lparr>ie_tenant := t\<rparr>)) = store_hint (canonicalize e)"
  using assms by (simp add: store_hint_def canonicalize_def unwrap_or_def Let_def)

subsection \<open>The path of a turn\<close>

text \<open>
  C33. The path that a report shows is that of the last attempt of the turn: the steps of the attempts before it, and
  of the flows they called, are gone. It has at most 32 steps and no step twice in a row. When the attempt called no
  other flow, it is the nodes that the attempt has started, without immediate repetitions and cut at 32, and it is marked as
  truncated exactly when a step was cut off.
\<close>

theorem path_last_attempt:
  assumes "bs \<noteq> []" "\<And>b. b \<in> set bs \<Longrightarrow> attempt_body b" "p = ob_path (observe (walk_events bs))"
  shows "p = ob_path (observe (walk_events [last bs])) \<and> length (pt_steps p) \<le> 32 \<and> successively (\<noteq>) (pt_steps p) \<and>
    (list_all is_node_event (last bs) \<longrightarrow>
       pt_steps p = take 32 (remdups_adj (started (last bs))) \<and> (pt_truncated p \<longleftrightarrow> 32 < length (remdups_adj (started (last bs)))))"
proof -
  have p: "ob_path (observe evs) = fold path_event evs path_new" for evs
    by (simp add: observe_def path_of_events observed_new_def)
  have last: "p = fold path_event (walk_events [last bs]) path_new"
    using walk_path [OF assms(1,2)] assms(3) p by simp
  have "path_ok p" unfolding last by (rule path_events_ok) (simp add: path_ok_def path_new_def)
  moreover have "pt_steps p = take 32 (remdups_adj (started (last bs))) \<and> (pt_truncated p \<longleftrightarrow> 32 < length (remdups_adj (started (last bs))))"
    if "list_all is_node_event (last bs)"
    using pushed_path [of "path_attempt 1 path_new" "started (last bs)"] path_of_nodes [OF that] last
    by (simp add: walk_events_def path_exit_def path_attempt_def path_new_def MAX_PATH_STEPS_def)
  ultimately show ?thesis using last p by (auto simp: path_ok_def MAX_PATH_STEPS_def)
qed

definition rt_start :: "string \<Rightarrow> run_event" where
  "rt_start i = NodeStart i ''f'' \<lparr>ni_approval = False, ni_timeout_secs = None, ni_agentic = False, ni_agent_ref = None\<rparr>"

theorem path_last_attempt_witness:
  "pt_steps (ob_path (observe (walk_events [[rt_start ''a''], [rt_start ''b'', rt_start ''b'']]))) = [''b'']"
proof -
  have "attempt_body (map rt_start is)" for "is"
    by (induction "is") (auto simp: rt_start_def intro: attempt_body.intros)
  from this [of "[''a'']"] this [of "[''b'', ''b'']"]
  have "attempt_body b" if "b \<in> set [[rt_start ''a''], [rt_start ''b'', rt_start ''b'']]" for b using that by auto
  from path_last_attempt [of "[[rt_start ''a''], [rt_start ''b'', rt_start ''b'']]", OF _ this refl, THEN conjunct2] show ?thesis
    by (simp add: rt_start_def)
qed

end
