(* ===== verification/Spec2Isabelle.thy ===== *)
theory Spec2Isabelle
  imports Run_Claims Store_Claims Conversation_Claims Flow_Claims Engine_Claims Agent_Claims Runtime_Claims
begin

text \<open>
  A verification of the agentic-worker runtime and the flow runner of greentic-runner.

  \<^bold>\<open>The program.\<close> greentic-runner executes flow packs for tenants. Its crate
  \<open>crates/greentic-runner-host\<close> receives messages: a message is a turn of a session, a state machine loads
  the session, runs the steps of the flow (calls of adapters, waits for input), and commits the session; calls are retried, and the turns
  of one session are serialised by a lock. Its crate
  \<open>crates/greentic-aw-runtime\<close> is the runtime for agent graphs: a directed graph of agent turns, tool
  calls, routers, supervisors, approvals and parallel regions, run as a durable process. A run is driven node by node; after
  every node the executor saves a record of the run, and the result of every effect is written to a
  ledger before it is used, so that a process that died resumes from its last record and replays what was
  already done instead of doing it twice. Several runs, of several tenants, share one store; the turns of
  one session of an agent are serialised by a lock with a lease. An agent keeps the state of its conversation: the history, cut to a
  limit, a tool call that waits for the end of a flow, and references to remote agents. A turn of an agent checks budgets, takes the lock
  of its session, passes the message through guardrails, asks the model, runs the tools it asks for, passes the reply through guardrails, and saves.

  \<^bold>\<open>The theories, in the order of their imports.\<close>
  \<^item> \<open>Prelude\<close>: results as sums with the error on the left, the state-and-error composition behind the
    question mark operator (\<open>sbind\<close>), hash maps as association lists with distinct keys, JSON values,
    decimal numbers, and the lemma collections \<open>res_simps\<close> and \<open>hm_simps\<close>. \<open>Triples\<close>: partial-correctness
    rules for that composition, with a postcondition for success and one for errors.
  \<^item> \<open>Graph_Model\<close> and \<open>Graph_Wf\<close>: \<open>graph/model.rs\<close>, the data of a graph, \<open>validate\<close> with its two walks
    and the versioned envelope; then what validation means, the declarative \<open>graph_wf\<close>.
  \<^item> \<open>Graph_Router\<close>: \<open>graph/state.rs\<close>, \<open>graph/router.rs\<close> and the edge lookups of \<open>graph/executor.rs\<close>.
  \<^item> \<open>Tenant\<close>: \<open>tenant.rs\<close> and the keys that the stores build from a tenant.
  \<^item> \<open>Kv\<close>: \<open>kv/mod.rs\<close> (the trait \<open>AwKv\<close>; its laws are the locale \<open>aw_kv\<close>) and \<open>kv/memory.rs\<close>.
    \<open>Session_Lock\<close>: the lock of \<open>state_kv.rs\<close> and the tasks that compete for it, as a step relation.
  \<^item> \<open>Checkpoint\<close>: \<open>graph/checkpoint.rs\<close> (the trait \<open>CheckpointStore\<close>; its laws are the locale
    \<open>checkpoint_store\<close>) with the in-memory store, and the operations of \<open>graph/kv_checkpoint.rs\<close>.
    \<open>Kv_Checkpoint\<close>: the key-value store meets the same laws over any \<open>aw_kv\<close>.
  \<^item> \<open>Graph_Exec\<close> and \<open>Graph_Drive\<close>: \<open>graph/executor.rs\<close>. The former has the arms of the trunk loop
    (\<open>visit_agent\<close>, \<open>visit_tool\<close>, ...), \<open>visit_effect\<close>, and the branch loop of a region; the latter the
    merge of a region, the trunk loop \<open>drive_loop\<close>, and the entry points \<open>start\<close> and \<open>resume\<close>.
  \<^item> \<open>Graph_Invariant\<close>, \<open>Graph_Replay\<close>, \<open>Graph_Safety\<close>, \<open>Graph_Status\<close>, \<open>Graph_Merge\<close>: the theory of the
    executor, over any store that keeps the laws. \<open>Graph_Stores\<close> instantiates it with the two stores.
  \<^item> \<open>Graph_Example\<close>: a concrete executor and graphs. \<open>Run_Claims\<close>, \<open>Store_Claims\<close>: the properties.
  \<^item> \<open>Conversation\<close>: \<open>state.rs\<close> of the agent runtime with the load and save of \<open>state_kv.rs\<close>, over any \<open>aw_kv\<close>.
    \<open>A2a_Continuations\<close>: \<open>a2a_source/continuation.rs\<close>. \<open>Parked_Tool\<close>: \<open>flow_suspend.rs\<close>, a tool call that waits for a flow.
    \<open>Conversation_Claims\<close>: the properties of the three.
  \<^item> \<open>Flow_Host\<close>: of \<open>greentic-runner-host\<close> the traits, keys and snapshots of \<open>engine/host.rs\<close> (the laws of \<open>SessionHost\<close> are
    the locale \<open>session_host\<close>), the in-memory hosts of \<open>engine/shims\<close> and the host of \<open>host.rs\<close> that keeps nothing.
    \<open>Flow_Retry\<close>: \<open>engine/policy.rs\<close>. \<open>Flow_Machine\<close>: \<open>engine/state_machine.rs\<close> with \<open>registry.rs\<close>, \<open>api.rs\<close> and \<open>builder.rs\<close>.
    \<open>Flow_Turns\<close>: whole turns, over any session host that keeps the laws. \<open>Turn_Lock\<close>: \<open>engine/turn_lock.rs\<close> as a step
    relation. \<open>Flow_Claims\<close>: their properties.
  \<^item> The flow engine, \<open>runner/engine.rs\<close>, behind the adapter of a pack. \<open>Engine_State\<close>: the state of a turn and its entry.
    \<open>Engine_Error\<close>: the markers of an error and the retry decision. \<open>Engine_Route\<close>: nodes, flows, conditions and routing.
    \<open>Engine_Payload\<close>: what goes into a node and what comes out of it. \<open>Engine_Dispatch\<close>: the operation of every kind of node.
    \<open>Engine_Drive\<close>: the walk through a flow, fresh and resumed turns, retries and nested flows. \<open>Correlation\<close> and
    \<open>Approval_Gate\<close>: the ids of dispatched work of \<open>runner/runtime_session_resumer.rs\<close>, and approval tokens of \<open>runner/approval_token.rs\<close>.
    \<open>Engine_Effects\<close>: which operations leave the world outside as it is, as rules for the composition of operations.
    \<open>Engine_Parks\<close>: snapshots, conversations and gates. \<open>Engine_Claims\<close>: the properties of the engine, with an engine that runs.
  \<^item> The runtime of a tenant, \<open>engine/runtime.rs\<close>, between the state machine and the flow engine. \<open>Ingress\<close>: the envelope of a message,
    its canonical form and its JSON. \<open>Flow_Resume\<close>: the store of parked flows (the laws of the session store behind it are the locale
    \<open>wait_store\<close>, interpreted with the decorator of \<open>storage/session.rs\<close>). \<open>Run_Outcome\<close>: \<open>run_outcome/path.rs\<close>, \<open>wait.rs\<close> and \<open>turn.rs\<close>, the
    report of a turn. \<open>Pack_Flow\<close>: the pack-flow adapter and the runtime over the state machine. \<open>Pack_Turns\<close>: what a turn does to its park.
    \<open>Message_Effects\<close>: the attempts of a message and the assembled runtime. \<open>Engine_Frame\<close>: what the handlers of the engine leave alone, a turn
    leaves alone. \<open>Run_Reports\<close>: the reports of a message over its attempts. \<open>Runtime_Example\<close>: a runtime that runs. \<open>Runtime_Claims\<close>: the properties.
  \<^item> The turn of an agent, behind the agent-turn effect of the graph executor and the agent handler of the flow engine.
    \<open>Guardrail\<close>: \<open>guardrail.rs\<close> and \<open>attachment_guard.rs\<close>. \<open>Attachments\<close>: \<open>attachments_materialize.rs\<close>, what the model is shown of attached files. \<open>Run_Trace\<close>: \<open>run_trace.rs\<close> and \<open>share_policy.rs\<close>, what the agents of
    a run see of each other. \<open>Agent_Types\<close>: \<open>config.rs\<close>, \<open>error.rs\<close> and the retries of \<open>llm.rs\<close>. \<open>Tool_Calls\<close>: \<open>tools.rs\<close>,
    \<open>tool_session.rs\<close> and \<open>tool_call_frame.rs\<close>. \<open>Agent_Env\<close>: the runtime, the memories and the system prompt. \<open>Agent_Loop\<close>: \<open>loop.rs\<close>,
    the whole turn. \<open>Parked_History\<close> and \<open>Agent_History\<close>: what a parked tool and a turn do to the history.
    \<open>Agent_Safety\<close>: two runtimes that agree on acceptable histories run alike. \<open>Agent_Replies\<close>: where a reply comes from.
    \<open>Tool_Replay\<close>: the interface of the tool ledger (the locale \<open>tool_ledger_store\<close>, interpreted with the key-value ledger over the in-process
    backend) and the replay of a batch of calls. \<open>Tool_Confine\<close>: tools outside the allow-list. \<open>Agent_Example\<close>: an agent that runs.
    \<open>Agent_Claims\<close>: the properties.

  \<^bold>\<open>How state and operations correspond.\<close> A method of the executor is a function from a pair, the state
  of the store and the world outside, to a result and a new pair. The effects handed to the executor (agent turn,
  tool call, supervisor, approval) are fields of \<open>graph_executor\<close>, functions of a request and the world,
  about which nothing is assumed unless a property says so: an effect may answer differently each time
  and may fail. The JSON writer and reader are a record of
  functions that may fail (\<open>doc_codec\<close>); properties that read back a record assume \<open>codec_roundtrip\<close>, what
  \<open>serde\<close> documents for derived instances. A record of the source is a \<open>record\<close>, an enum a
  \<open>datatype\<close> with its constructors, and an error message a constructor with the arguments of the message.
  The parameters of the locales are the traits of the source, and their interpretations the
  implementations. An operation of the flow engine is a function from the state of the turn and the world; what the engine calls is a
  field of \<open>flow_engine\<close>: the pack (components, providers, assets), the handlers of agents, graphs and remote runtimes, the state store,
  the template renderer, the clock, randomness, and the texts a library builds. Properties about effects are relative to an
  observation \<open>eff\<close> of the world, which counts what the source counts as an external effect (\<open>performs_external_effect\<close>): providers, agents, graphs, remote
  runtimes, tools, approvals, created media and the flows called from a flow. \<open>tracked\<close> says that loading a flow, reading the clock, drawing random bytes, the state store and pack
  components leave that observation as it was, and that a handler that reports an error marked as before its effect has not changed it. A component that
  writes outside by itself and a counter in the state store are not in the observation: a retried turn repeats them, as the comment at \<open>performs_external_effect\<close> says.
  The adapter and the runtime are functions of the engine's world with the scope of the turn in front, which the source keeps in a task-local
  variable. The session store is a record of operations, about which \<open>wait_store\<close> says no more than that a wait is found under its environment, tenant, user
  and scope until it is cleared, and that a session key is the identity of an entry.
  A turn of an agent is a function of the world and of an \<open>agent_runtime\<close>, whose fields are the stores, meters, memories, guardrails, tool catalogs,
  the model, clocks and random ids of the source's \<open>AgentRuntime\<close>; a time limit that cuts a call of the model or a tool off is a field that says when it does
  and what the dropped call leaves behind. Several properties of the loop say that two runtimes that agree on some
  arguments run alike, which shows that the loop never uses the others.

  \<^bold>\<open>Interleaving.\<close> The branches of a parallel region are polled by one task. One iteration of a branch
  loop is one step of the model, and the order of the steps is an argument that the properties quantify
  over (\<open>gx_poll_order\<close>, read from the world). Between the awaits of one iteration another branch
  may run in the source; the model joins those points into one step. Refreshing and releasing the lock are the operations \<open>compare_refresh\<close> and
  \<open>compare_del\<close> of the trait \<open>AwKv\<close>, each of which compares and acts at once, in the source as in the model. The session lock is modelled at the
  granularity of one store operation, with any number of tasks and with time passing between operations.

  A turn of a flow is split at its load and its commit, between which other turns may run. The turn lock is modelled at the granularity of
  one access to its table or to a mutex. The properties of a turn of the runtime are about one turn alone, as that lock ensures: C26 shows that
  two envelopes that address one park take one lock.

  \<^bold>\<open>Bounds and fuel.\<close> The trunk loop makes at most \<open>MAX_NODE_VISITS\<close> visits, the bound the source has, and
  \<open>drive_loop\<close> recurses on it. A branch loop stops at the same cap, counted over the region, so
  \<open>MAX_NODE_VISITS + 2\<close> iterations per branch settle every branch, which C6 proves rather than assumes.
  The validator's forward walk gives up after 128 steps, as in the source; its backward search recurses on
  the nodes not yet seen. The lock's polling loop has fuel;
  \<open>acquire_ends\<close> shows that the fuel of the requested wait suffices. Truncation recurses on the length of the history, the
  steps of a turn on the steps that are left, and the retry loop on the attempts that are left; none of them has fuel.
  The loop of an agent turn recurses on the iterations that are left, and the retries of a model call on the attempts that are left.
  The walk of the flow engine recurses on the 10000 steps of a turn and nested flows on the 16 levels the source allows. Visit counts and the
  32-bit counters of a conversation are natural numbers: they
  stay below their caps, far from the 32-bit limit. Counters in the key-value store, revisions and sequence numbers
  saturate at 64 bits, as in the source; the conversions of durations to 64 bits wrap. Strings are lists of UTF-8 bytes where a length in bytes matters.
  Instants of the key-value store, its time-to-live values and the instants of the session hosts are in milliseconds; the times inside a conversation
  (a parked tool, the references to remote agents) are in nanoseconds.

  \<^bold>\<open>What is shown.\<close> C1 to C5 are durability: a crash inside a visit of a node that is neither a parallel region nor an approval gate is invisible, a run replays from its
  ledger, a validated graph never fails structurally but for an approval node inside a parallel region, which validation lets pass (C3), and the saved
  status is what the caller was told.
  C6 and C7 are about parallel regions. C8 to C10 concern the stores: runs do not
  touch each other, the ledger only grows, and the key-value store is as good as the in-memory one until
  its entries expire. C16 is an error that stays: a supervisor's wrong answer is recorded before
  it is checked. C19 and C21
  are validation and keys, C25 the session lock. C27 to C31 are the conversation: the
  history stays within its limit and acceptable to the provider, and a parked call is answered, cancelled or expires. C11, C12, C15, C20, C32 and C37
  are the agent loop: the model only ever sees histories in which calls and results match, replies pass the mandatory guardrails, successful tool calls
  are not made twice, tools outside the allow-list are out of reach, what agents see of each other is bounded and its lines hold no control character or angle bracket,
  and the text of a document is shown only as every guardrail leaves it, within the limits of a message. C15 lets time pass while calls run, as long as no entry of the
  batch expires. C14, C17, C23, C24 and C34 are the flow engine: a retried turn performs its effects in one attempt, a gate
  opens only to its token, a response finds its way back, a park names the flow and the node it goes on with, and a park that is kept has
  performed nothing. C13, C18, C22, C26 and C33 are the runtime: a turn takes its park to the next one, a message performs its effects in one
  attempt and is reported once, conversations share no park, and a report shows the path of the last attempt. Further theorems without a number concern the merge of parallel regions, recorded approval decisions, the backward search of the validator,
  the key-value backend, the ledger of runs, the cap on tool results, the references to remote agents, the turns of a pack flow, effects that fail in a graph, finished runs, key collisions of
  unchecked ids, the end of polling for a lock, the cap on conversations, and the sharing modes of nested calls. C35, C36, C38 and C39 are the flow runner: turns go through a flow in order, commits do not overwrite
  each other, and the retry loop; C38 shows that the deduplication of adapter calls never takes effect. C40 is the turn lock.

  \<^bold>\<open>What is not modelled.\<close> The Redis and redb backends, the store-backed session host and the HTTP checkpoint provider (their behaviour is
  that of the service), logging and observer calls, the language-model clients, the sources that fill the tool catalogs, the stores behind the memories,
  billing, and the crates that load packs, run WebAssembly components
  and serve HTTP. Of the runtime: the trace recorder, mocks, the secrets host, telemetry, the welcome flow, the reference and the redacted excerpt in the
  report of a technical error, and the delivery of reports. Of the flow engine: the cache of loaded flows and their loader, observers, spans and metrics, fault injection, the delay
  between attempts, and the build without the agentic worker. Mutex poisoning is left out, as no closure under a lock panics.
\<close>

end
